(* ===== verification/Prelude.thy ===== *)
theory Prelude
  imports Main "HOL-Library.Word"
begin

text \<open>
  Shared vocabulary of the development: the machine integer types of
  \<^verbatim>\<open>armdefs.h\<close>, the instruction-field macros \<^verbatim>\<open>BIT\<close> and \<^verbatim>\<open>BITS\<close>, the error type of the
  operations that can end the simulator, the collections of simplification rules that the
  component theories extend, and the generic facts on words they share.
\<close>

unbundle bit_operations_syntax

named_theorems cpu_defs
  \<open>definitions that unfold an operation of the CPU core to a record update\<close>

named_theorems bank_simps
  \<open>facts on register banks and modes\<close>

named_theorems field_simps_arm
  \<open>extraction of instruction fields and their bounds\<close>

section \<open>Types of armdefs.h\<close>

type_synonym ARMword = "32 word"
type_synonym ARMdword = "64 word"
type_synonym ARMhword = "16 word"
type_synonym ARMbyte = "8 word"

text \<open>
  What ends the simulator process instead of returning: \<^verbatim>\<open>skyeye_exit\<close>, an access
  outside a C array, the use of a null pointer, a failed \<^verbatim>\<open>assert\<close>, or a call chain or loop that
  never ends. The use of a local variable that was never set, or of memory that was never written, and \<^verbatim>\<open>free\<close> of
  a pointer that \<^verbatim>\<open>malloc\<close> did not return are undefined in C and are errors too.
\<close>

datatype sim_error =
  SkyeyeExit | OutOfBounds | NullPointer | AssertFailed | StackOverflow | Uninitialised | InvalidFree | BusyForever

type_synonym 'a sim = "sim_error + 'a"

definition bind_ok :: "'a sim \<Rightarrow> ('a \<Rightarrow> 'b sim) \<Rightarrow> 'b sim" where
  "bind_ok m f = (case m of Inl e \<Rightarrow> Inl e | Inr x \<Rightarrow> f x)"

lemma bind_ok_simps [simp]:
  "bind_ok (Inl e) f = Inl e"
  "bind_ok (Inr x) f = f x"
  by (simp_all add: bind_ok_def)

lemma bind_ok_assoc: "bind_ok (bind_ok m f) g = bind_ok m (\<lambda>x. bind_ok (f x) g)"
  by (simp add: bind_ok_def split: sum.split)

lemma bind_ok_Inr_iff: "bind_ok m f = Inr y \<longleftrightarrow> (\<exists>x. m = Inr x \<and> f x = Inr y)"
  by (auto simp: bind_ok_def split: sum.splits)

lemma bind_ok_Inl_iff:
  "bind_ok m f = Inl e \<longleftrightarrow> m = Inl e \<or> (\<exists>x. m = Inr x \<and> f x = Inl e)"
  by (auto simp: bind_ok_def split: sum.splits)

section \<open>Instruction fields\<close>

definition BIT :: "ARMword \<Rightarrow> nat \<Rightarrow> ARMword" where
  "BIT instr n = drop_bit n instr AND 1"

definition BITS :: "ARMword \<Rightarrow> nat \<Rightarrow> nat \<Rightarrow> ARMword" where
  "BITS instr m n = drop_bit ((31 - n) + m) (push_bit (31 - n) instr)"

definition POS :: "ARMword \<Rightarrow> ARMword" where
  "POS i = drop_bit 31 (NOT i)"

definition NEG :: "ARMword \<Rightarrow> ARMword" where
  "NEG i = drop_bit 31 i"

lemma BIT_of_bool: "BIT i n = of_bool (bit i n)"
  by (simp add: BIT_def and_one_eq mod_2_eq_odd bit_iff_odd_drop_bit)

lemma BIT_eq_0_iff [simp]: "BIT i n = 0 \<longleftrightarrow> \<not> bit i n"
  by (simp add: BIT_of_bool)

lemma BITS_take_bit:
  assumes "m \<le> n" "n \<le> 31"
  shows "BITS i m n = take_bit (Suc n - m) (drop_bit m i)"
  using assms by (intro bit_word_eqI)
    (auto simp: BITS_def bit_drop_bit_eq bit_push_bit_iff bit_take_bit_iff)

lemma unat_BITS_bound:
  assumes "m \<le> n" "n \<le> 31"
  shows "unat (BITS i m n) < 2 ^ (Suc n - m)"
proof -
  have "unat (BITS i m n) = take_bit (Suc n - m) (unat (drop_bit m i))"
    using assms by (simp add: BITS_take_bit unsigned_take_bit_eq)
  then show ?thesis by simp
qed

section \<open>Bitwise reasoning on 32-bit words\<close>

text \<open>
  Equations between masked, shifted and combined words are decided bit by bit: thirty-two
  instances, each closed by the library's \<open>bit_simps\<close>.
\<close>

lemma all_less_32_iff:
  "(\<forall>n<32. P n) \<longleftrightarrow>
     P 0 \<and> P 1 \<and> P 2 \<and> P 3 \<and> P 4 \<and> P 5 \<and> P 6 \<and> P 7 \<and>
     P 8 \<and> P 9 \<and> P 10 \<and> P 11 \<and> P 12 \<and> P 13 \<and> P 14 \<and> P 15 \<and>
     P 16 \<and> P 17 \<and> P 18 \<and> P 19 \<and> P 20 \<and> P 21 \<and> P 22 \<and> P 23 \<and>
     P 24 \<and> P 25 \<and> P 26 \<and> P 27 \<and> P 28 \<and> P 29 \<and> P 30 \<and> P (31 :: nat)"
proof -
  have "(\<forall>n<32. P n) \<longleftrightarrow> (\<forall>n\<in>set [0..<32]. P n)" by auto
  also have "[0..<32] = [0, 1, 2, 3, 4, 5, 6, 7, 8, 9, 10, 11, 12, 13, 14, 15, 16, 17, 18, 19,
     20, 21, 22, 23, 24, 25, 26, 27, 28, 29, 30, 31 :: nat]"
    by (simp add: upt_rec)
  finally show ?thesis by (simp only: list.set ball_simps conj_assoc simp_thms)
qed

lemma word32_eqI:
  fixes a b :: ARMword
  assumes "\<forall>n<32. bit a n \<longleftrightarrow> bit b n"
  shows "a = b"
  using assms by (intro bit_word_eqI) simp

lemma bit_high_False: "32 \<le> n \<Longrightarrow> \<not> bit (w :: ARMword) n"
  using bit_imp_le_length [of w n] by auto

lemma bit31_sint: "bit (i :: ARMword) 31 \<longleftrightarrow> sint i < 0"
  using bit_last_iff [of i] by simp

lemma bit31_unat: "bit (i :: ARMword) 31 \<longleftrightarrow> 2 ^ 31 \<le> unat i"
proof -
  have "bit i 31 \<longleftrightarrow> bit (unat i) 31" by (simp add: bit_unsigned_iff)
  also have "\<dots> \<longleftrightarrow> odd (unat i div 2 ^ 31)" by (simp add: bit_iff_odd)
  also have "\<dots> \<longleftrightarrow> 2 ^ 31 \<le> unat i"
  proof -
    have "unat i < 2 ^ 32" using unsigned_less [of i] by simp
    then have "unat i div 2 ^ 31 < 2" by (simp add: div_less_iff_less_mult)
    moreover have "odd k \<longleftrightarrow> k = 1" if "k < 2" for k :: nat
      using that by (auto simp: less_2_cases_iff)
    ultimately have "odd (unat i div 2 ^ 31) \<longleftrightarrow> unat i div 2 ^ 31 = 1" by blast
    also have "\<dots> \<longleftrightarrow> 2 ^ 31 \<le> unat i"
      using \<open>unat i < 2 ^ 32\<close> by auto
    finally show ?thesis .
  qed
  finally show ?thesis .
qed

lemma NEG_of_bool: "NEG i = of_bool (bit i 31)"
  by (rule word32_eqI) (simp only: all_less_32_iff, simp add: NEG_def bit_simps bit_high_False)

lemma POS_of_bool: "POS i = of_bool (\<not> bit i 31)"
  by (rule word32_eqI) (simp only: all_less_32_iff, simp add: POS_def bit_simps bit_high_False)

section \<open>Sums and differences with a carry\<close>

lemma uint_nonneg32: "\<exists>A. uint (a :: ARMword) = A \<and> 0 \<le> A \<and> A < 2 ^ 32"
  using uint_lt2p [of a] by simp

lemma bit31_uint: "bit (a :: ARMword) 31 \<longleftrightarrow> 2 ^ 31 \<le> uint a"
proof -
  have "int (2 ^ 31) \<le> int (unat a) \<longleftrightarrow> 2 ^ 31 \<le> unat a" by (rule of_nat_le_iff)
  then show ?thesis unfolding bit31_unat by simp
qed

lemma sint_uint32: "sint (a :: ARMword) = uint a - (if 2 ^ 31 \<le> uint a then 2 ^ 32 else 0)"
proof -
  have "take_bit 32 (uint a) = uint a"
    using uint_lt2p [of a] by (simp add: take_bit_int_eq_self)
  then have "sint a = uint a - (if bit a 31 then 2 ^ 32 else 0)"
    by (simp add: sint_uint signed_take_bit_eq_take_bit_minus bit_unsigned_iff)
  then show ?thesis unfolding bit31_uint .
qed

text \<open>The wrapped sum or difference of two words and a carry, by the range of the exact value.\<close>

lemma mod_2p32_cases:
  fixes n :: int
  assumes "- (2 * 2 ^ 32) \<le> n" "n < 2 * 2 ^ 32"
  shows "n mod 2 ^ 32 = (if n < - (2 ^ 32) then n + 2 * 2 ^ 32 else if n < 0 then n + 2 ^ 32
    else if n < 2 ^ 32 then n else n - 2 ^ 32)"
proof -
  consider "n < - (2 ^ 32)" | "- (2 ^ 32) \<le> n" "n < 0" | "0 \<le> n" "n < 2 ^ 32" | "2 ^ 32 \<le> n" by linarith
  then show ?thesis
  proof cases
    case 1
    then have "(n + 2 * 2 ^ 32) mod 2 ^ 32 = n + 2 * 2 ^ 32"
      using assms by (intro mod_pos_pos_trivial) auto
    then show ?thesis using 1 by (simp only: mod_mult_self1 if_True)
  next
    case 2
    then have "(n + 2 ^ 32) mod 2 ^ 32 = n + 2 ^ 32" by (intro mod_pos_pos_trivial) auto
    then show ?thesis using 2 by (simp add: not_less)
  next
    case 3
    then show ?thesis by (simp add: mod_pos_pos_trivial)
  next
    case 4
    then have "(n - 2 ^ 32) mod 2 ^ 32 = n - 2 ^ 32"
      using assms by (intro mod_pos_pos_trivial) auto
    then show ?thesis using 4 by (simp add: minus_mod_self2)
  qed
qed

lemma uint_add3:
  fixes a b c :: ARMword
  shows "uint (a + b + c) = (uint a + uint b + uint c) mod 2 ^ 32"
  by (simp add: uint_word_ariths mod_simps)

lemma uint_sub3:
  fixes a b c :: ARMword
  shows "uint (a - b - c) = (uint a - uint b - uint c) mod 2 ^ 32"
  by (simp add: uint_word_ariths mod_simps)

text \<open>
  The operands of an addition or subtraction with carry as integers in their ranges: the form
  in which linear arithmetic decides the flag formulas.
\<close>

lemma carry_operands:
  fixes a b c :: ARMword
  assumes "c \<le> 1"
  obtains A B C where "uint a = A" "0 \<le> A" "A < 2 ^ 32" "uint b = B" "0 \<le> B" "B < 2 ^ 32"
    "uint c = C" "0 \<le> C" "C \<le> 1"
    "uint (a + b + c) = (if A + B + C < 2 ^ 32 then A + B + C else A + B + C - 2 ^ 32)"
    "uint (a - b - c) = (if A - B - C < 0 then A - B - C + 2 ^ 32 else A - B - C)"
proof -
  obtain A where A: "uint a = A" "0 \<le> A" "A < 2 ^ 32" using uint_nonneg32 [of a] by blast
  obtain B where B: "uint b = B" "0 \<le> B" "B < 2 ^ 32" using uint_nonneg32 [of b] by blast
  obtain C where C: "uint c = C" "0 \<le> C" using uint_nonneg32 [of c] by blast
  have C1: "C \<le> 1" using assms C by (simp add: word_le_def)
  have "uint (a + b + c) = (if A + B + C < 2 ^ 32 then A + B + C else A + B + C - 2 ^ 32)"
    unfolding uint_add3 A(1) B(1) C(1) using A B C C1 by (subst mod_2p32_cases) auto
  moreover have "uint (a - b - c) = (if A - B - C < 0 then A - B - C + 2 ^ 32 else A - B - C)"
    unfolding uint_sub3 A(1) B(1) C(1) using A B C C1 by (subst mod_2p32_cases) auto
  ultimately show thesis using that A B C C1 by blast
qed

lemmas sign_defs = NEG_of_bool POS_of_bool bit31_uint sint_uint32

end
