(* ===== verification/Arm_State.thy ===== *)
theory Arm_State
  imports Prelude
begin

text \<open>
  The data of the ARM simulator: the constants and structures of \<^verbatim>\<open>armdefs.h\<close>,
  \<^verbatim>\<open>armemu.h\<close>, \<^verbatim>\<open>armmmu.h\<close>, \<^verbatim>\<open>armmem.h\<close> and the MMU headers, as records and datatypes
  with the source's field names. Arrays indexed by small numbers (the register file, the
  register banks, the SPSRs) are functions on \<open>nat\<close>; the code that could index one of
  them out of range returns an error in the model. Function pointers of the C state are
  gathered in a record that is passed beside the state.
\<close>

section \<open>Constants\<close>

abbreviation (input) LOW :: ARMword where "LOW \<equiv> 0"
abbreviation (input) HIGH :: ARMword where "HIGH \<equiv> 1"

abbreviation (input) USER26MODE :: ARMword where "USER26MODE \<equiv> 0"
abbreviation (input) FIQ26MODE :: ARMword where "FIQ26MODE \<equiv> 1"
abbreviation (input) IRQ26MODE :: ARMword where "IRQ26MODE \<equiv> 2"
abbreviation (input) SVC26MODE :: ARMword where "SVC26MODE \<equiv> 3"
abbreviation (input) USER32MODE :: ARMword where "USER32MODE \<equiv> 16"
abbreviation (input) FIQ32MODE :: ARMword where "FIQ32MODE \<equiv> 17"
abbreviation (input) IRQ32MODE :: ARMword where "IRQ32MODE \<equiv> 18"
abbreviation (input) SVC32MODE :: ARMword where "SVC32MODE \<equiv> 19"
abbreviation (input) ABORT32MODE :: ARMword where "ABORT32MODE \<equiv> 23"
abbreviation (input) UNDEF32MODE :: ARMword where "UNDEF32MODE \<equiv> 27"
abbreviation (input) SYSTEM32MODE :: ARMword where "SYSTEM32MODE \<equiv> 31"

abbreviation (input) USERBANK :: nat where "USERBANK \<equiv> 0"
abbreviation (input) FIQBANK :: nat where "FIQBANK \<equiv> 1"
abbreviation (input) IRQBANK :: nat where "IRQBANK \<equiv> 2"
abbreviation (input) SVCBANK :: nat where "SVCBANK \<equiv> 3"
abbreviation (input) ABORTBANK :: nat where "ABORTBANK \<equiv> 4"
abbreviation (input) UNDEFBANK :: nat where "UNDEFBANK \<equiv> 5"
abbreviation (input) DUMMYBANK :: nat where "DUMMYBANK \<equiv> 6"

abbreviation (input) NBIT :: ARMword where "NBIT \<equiv> 0x80000000"
abbreviation (input) ZBIT :: ARMword where "ZBIT \<equiv> 0x40000000"
abbreviation (input) CBIT :: ARMword where "CBIT \<equiv> 0x20000000"
abbreviation (input) VBIT :: ARMword where "VBIT \<equiv> 0x10000000"
abbreviation (input) SBIT :: ARMword where "SBIT \<equiv> 0x08000000"
abbreviation (input) IBIT :: ARMword where "IBIT \<equiv> 0x80"
abbreviation (input) FBIT :: ARMword where "FBIT \<equiv> 0x40"
abbreviation (input) TBIT :: ARMword where "TBIT \<equiv> 0x20"
abbreviation (input) MODEBITS :: ARMword where "MODEBITS \<equiv> 0x1f"
abbreviation (input) INTBITS :: ARMword where "INTBITS \<equiv> 0xc0"
abbreviation (input) CCBITS :: ARMword where "CCBITS \<equiv> 0xf8000000"
abbreviation (input) R15INTBITS :: ARMword where "R15INTBITS \<equiv> 0x0c000000"
abbreviation (input) R15MODEBITS :: ARMword where "R15MODEBITS \<equiv> 0x3"

text \<open>
  \<^verbatim>\<open>armsupp.c\<close> and \<^verbatim>\<open>arminit.c\<close> are compiled without \<^verbatim>\<open>MODE32\<close>, \<^verbatim>\<open>armemu32.o\<close> with it:
  the PC masks differ.
\<close>

abbreviation (input) PCBITS26 :: ARMword where "PCBITS26 \<equiv> 0xfffffffc"
abbreviation (input) R15PCBITS26 :: ARMword where "R15PCBITS26 \<equiv> 0x03fffffc"
abbreviation (input) PCBITS32 :: ARMword where "PCBITS32 \<equiv> 0xffffffff"

abbreviation (input) ARMul_ResetV :: ARMword where "ARMul_ResetV \<equiv> 0"
abbreviation (input) ARMul_UndefinedInstrV :: ARMword where "ARMul_UndefinedInstrV \<equiv> 4"
abbreviation (input) ARMul_SWIV :: ARMword where "ARMul_SWIV \<equiv> 8"
abbreviation (input) ARMul_PrefetchAbortV :: ARMword where "ARMul_PrefetchAbortV \<equiv> 12"
abbreviation (input) ARMul_DataAbortV :: ARMword where "ARMul_DataAbortV \<equiv> 16"
abbreviation (input) ARMul_AddrExceptnV :: ARMword where "ARMul_AddrExceptnV \<equiv> 20"
abbreviation (input) ARMul_IRQV :: ARMword where "ARMul_IRQV \<equiv> 24"
abbreviation (input) ARMul_FIQV :: ARMword where "ARMul_FIQV \<equiv> 28"

abbreviation (input) STOP :: ARMword where "STOP \<equiv> 0"
abbreviation (input) CHANGEMODE :: ARMword where "CHANGEMODE \<equiv> 1"
abbreviation (input) ONCE :: ARMword where "ONCE \<equiv> 2"
abbreviation (input) RUN :: ARMword where "RUN \<equiv> 3"
abbreviation (input) PRIMEPIPE :: ARMword where "PRIMEPIPE \<equiv> 4"
abbreviation (input) RESUME :: ARMword where "RESUME \<equiv> 8"

abbreviation (input) CONTROL_MMU :: ARMword where "CONTROL_MMU \<equiv> 0x1"
abbreviation (input) CONTROL_ALIGN_FAULT :: ARMword where "CONTROL_ALIGN_FAULT \<equiv> 0x2"
abbreviation (input) CONTROL_SYSTEM :: ARMword where "CONTROL_SYSTEM \<equiv> 0x100"
abbreviation (input) CONTROL_ROM :: ARMword where "CONTROL_ROM \<equiv> 0x200"
abbreviation (input) CONTROL_VECTOR :: ARMword where "CONTROL_VECTOR \<equiv> 0x2000"

section \<open>The MMU data structures\<close>

datatype fault_t =
    NO_FAULT | ALIGNMENT_FAULT | SECTION_TRANSLATION_FAULT | PAGE_TRANSLATION_FAULT
  | SECTION_DOMAIN_FAULT | PAGE_DOMAIN_FAULT | SECTION_PERMISSION_FAULT
  | SUBPAGE_PERMISSION_FAULT

fun fault_code :: "fault_t \<Rightarrow> ARMword" where
  "fault_code NO_FAULT = 0x0"
| "fault_code ALIGNMENT_FAULT = 0x1"
| "fault_code SECTION_TRANSLATION_FAULT = 0x5"
| "fault_code PAGE_TRANSLATION_FAULT = 0x7"
| "fault_code SECTION_DOMAIN_FAULT = 0x9"
| "fault_code PAGE_DOMAIN_FAULT = 0xB"
| "fault_code SECTION_PERMISSION_FAULT = 0xD"
| "fault_code SUBPAGE_PERMISSION_FAULT = 0xF"

datatype tlb_mapping_t =
    TLB_INVALID | TLB_SMALLPAGE | TLB_LARGEPAGE | TLB_SECTION | TLB_ESMALLPAGE | TLB_TINYPAGE

record tlb_entry_t =
  virt_addr :: ARMword
  phys_addr :: ARMword
  perms :: ARMword
  domain :: ARMword
  mapping :: tlb_mapping_t

text \<open>\<open>num\<close> of the C structure is the length of \<open>tlb_entrys\<close>.\<close>

record tlb_t =
  tlb_cycle :: nat
  tlb_entrys :: "tlb_entry_t list"

record cache_line_t =
  tag :: ARMword
  cl_pa :: ARMword
  cl_data :: "ARMword list"

record cache_set_t =
  cs_lines :: "cache_line_t list"
  cs_cycle :: nat

datatype w_mode_t = CACHE_WRITE_BACK | CACHE_WRITE_THROUGH

record cache_t =
  c_width :: ARMword
  c_way :: nat
  c_set :: ARMword
  c_w_mode :: w_mode_t
  c_sets :: "cache_set_t list"

record wb_entry_t =
  wb_pa :: ARMword
  wb_data :: "ARMbyte list"
  wb_cnt :: nat

record wb_t =
  wb_num :: nat
  wb_nb :: nat
  wb_first :: nat
  wb_last :: nat
  wb_used :: nat
  wb_entrys :: "wb_entry_t list"

record arm926ejs_mmu_t =
  main_tlb :: tlb_t
  lockdown_tlb :: tlb_t
  i_cache :: cache_t
  d_cache :: cache_t
  wbuf :: wb_t

record mmu_state_t =
  control :: ARMword
  translation_table_base :: ARMword
  domain_access_control :: ARMword
  fault_status :: ARMword
  fault_address :: ARMword
  last_domain :: ARMword
  process_id :: ARMword
  tlb_locked_down :: ARMword
  arm926ejs_mmu :: arm926ejs_mmu_t

section \<open>The memory banks\<close>

text \<open>
  The six function pointers of a bank are set together by \<^verbatim>\<open>arm_parse_mem\<close>: three readers
  from one family and three writers from one family; \<open>None\<close> is a null pointer.
\<close>

datatype read_fn = RealRead | AliasRead | IoRead
datatype write_fn = RealWrite | AliasWrite | IoWrite | WarnWrite

record mem_bank_t =
  mb_read :: "read_fn option"
  mb_write :: "write_fn option"
  mb_addr :: ARMword
  mb_len :: ARMword
  mb_dest :: ARMword

text \<open>
  \<open>rom b i\<close> is word \<open>i\<close> of the array of bank \<open>b\<close>; \<open>mem_banks\<close> holds the banks up to the
  first of length 0, which ends every search; \<open>mbp_cache\<close> is the static variable of
  \<^verbatim>\<open>bank_ptr\<close> and \<open>global_mbp\<close> the global of that name, both as bank numbers.
\<close>

record mem_state_t =
  rom :: "nat \<Rightarrow> nat \<Rightarrow> ARMword"
  mem_banks :: "mem_bank_t list"
  mbp_cache :: "nat option"
  global_mbp :: "nat option"

section \<open>The processor state\<close>

text \<open>
  \<open>isize\<close> is the global of \<^verbatim>\<open>armemu.c\<close>; \<open>pipe_decoded\<close>, \<open>pipe_loaded\<close> and \<open>pipe_pc\<close> are the fields
  \<^verbatim>\<open>decoded\<close>, \<^verbatim>\<open>loaded\<close> and \<^verbatim>\<open>pc\<close>. Fields that only the debugger, the host's operating system
  interface or the binary translator use are left out.
\<close>

record 'io ARMul_State =
  Emulate :: ARMword
  Reg :: "nat \<Rightarrow> ARMword"
  RegBank :: "nat \<Rightarrow> nat \<Rightarrow> ARMword"
  Cpsr :: ARMword
  Spsr :: "nat \<Rightarrow> ARMword"
  NFlag :: ARMword
  ZFlag :: ARMword
  CFlag :: ARMword
  VFlag :: ARMword
  IFFlags :: ARMword
  SFlag :: ARMword
  TFlag :: ARMword
  Bank :: nat
  Mode :: ARMword
  NumScycles :: ARMword
  NumNcycles :: ARMword
  NumIcycles :: ARMword
  NumCcycles :: ARMword
  NumFcycles :: ARMword
  NextInstr :: ARMword
  EventSet :: ARMword
  Now :: ARMword
  EventPtr :: "nat \<Rightarrow> nat list"
  NresetSig :: ARMword
  NfiqSig :: ARMword
  NirqSig :: ARMword
  abortSig :: ARMword
  NtransSig :: ARMword
  bigendSig :: ARMword
  prog32Sig :: ARMword
  data32Sig :: ARMword
  lateabtSig :: ARMword
  Aborted :: ARMword
  AbortAddr :: ARMword
  is_v4 :: ARMword
  is_v5 :: ARMword
  is_v5e :: ARMword
  is_v6 :: ARMword
  is_XScale :: ARMword
  cpu_val :: ARMword
  vector_remap_flag :: ARMword
  vector_remap_addr :: ARMword
  vector_remap_size :: ARMword
  isize :: ARMword
  Base :: ARMword
  NumInstrs :: "64 word"
  pipe_decoded :: ARMword
  pipe_loaded :: ARMword
  pipe_pc :: ARMword
  mmu :: mmu_state_t
  mem :: mem_state_t
  mach_io :: 'io

section \<open>Zeroed structures\<close>

text \<open>What \<^verbatim>\<open>memset (state, 0, sizeof (ARMul_State))\<close> leaves in the nested structures.\<close>

definition cache_zero :: cache_t where
  "cache_zero = \<lparr>c_width = 0, c_way = 0, c_set = 0, c_w_mode = CACHE_WRITE_BACK, c_sets = []\<rparr>"

definition mmu_zero :: mmu_state_t where
  "mmu_zero = \<lparr>control = 0, translation_table_base = 0, domain_access_control = 0,
     fault_status = 0, fault_address = 0, last_domain = 0, process_id = 0, tlb_locked_down = 0,
     arm926ejs_mmu = \<lparr>main_tlb = \<lparr>tlb_cycle = 0, tlb_entrys = []\<rparr>,
       lockdown_tlb = \<lparr>tlb_cycle = 0, tlb_entrys = []\<rparr>, i_cache = cache_zero, d_cache = cache_zero,
       wbuf = \<lparr>wb_num = 0, wb_nb = 0, wb_first = 0, wb_last = 0, wb_used = 0, wb_entrys = []\<rparr>\<rparr>\<rparr>"

definition mem_zero :: mem_state_t where
  "mem_zero = \<lparr>rom = (\<lambda>_ _. 0), mem_banks = [], mbp_cache = None, global_mbp = None\<rparr>"

end
