(* ===== verification/Arm_Supp.thy ===== *)
theory Arm_Supp
  imports Arm_State
begin

text \<open>
  The support routines of \<^verbatim>\<open>arch/arm/common/armsupp.c\<close> and the exception entry of
  \<^verbatim>\<open>arminit.c\<close>: register access across modes, the status registers, the bank switch, the
  condition flags, exception entry, and the cycle-driven event list.
\<close>

section \<open>Derived values of the state (armemu.h)\<close>

definition ECC :: "'io ARMul_State \<Rightarrow> ARMword" where
  "ECC s = push_bit 31 (NFlag s) OR push_bit 30 (ZFlag s) OR push_bit 29 (CFlag s)
           OR push_bit 28 (VFlag s) OR push_bit 27 (SFlag s)"

definition EINT :: "'io ARMul_State \<Rightarrow> ARMword" where
  "EINT s = push_bit 6 (IFFlags s)"

definition ER15INT :: "'io ARMul_State \<Rightarrow> ARMword" where
  "ER15INT s = push_bit 26 (IFFlags s)"

definition CPSR :: "'io ARMul_State \<Rightarrow> ARMword" where
  "CPSR s = ECC s OR EINT s OR Mode s OR push_bit 5 (TFlag s)"

definition IFLAG :: "'io ARMul_State \<Rightarrow> ARMword" where
  "IFLAG s = drop_bit 1 (IFFlags s)"

definition FFLAG :: "'io ARMul_State \<Rightarrow> ARMword" where
  "FFLAG s = IFFlags s AND 1"

definition R15PC :: "'io ARMul_State \<Rightarrow> ARMword" where
  "R15PC s = Reg s 15 AND R15PCBITS26"

definition R15MODE :: "'io ARMul_State \<Rightarrow> ARMword" where
  "R15MODE s = Reg s 15 AND R15MODEBITS"

definition R15CCINTMODE :: "'io ARMul_State \<Rightarrow> ARMword" where
  "R15CCINTMODE s = Reg s 15 AND (CCBITS OR R15INTBITS OR R15MODEBITS)"

definition INSN_SIZE :: "'io ARMul_State \<Rightarrow> ARMword" where
  "INSN_SIZE s = (if TFlag s \<noteq> 0 then 2 else 4)"

definition set_reg :: "nat \<Rightarrow> ARMword \<Rightarrow> 'io ARMul_State \<Rightarrow> 'io ARMul_State" where
  "set_reg i v s = s\<lparr>Reg := (Reg s)(i := v)\<rparr>"

definition FLUSHPIPE :: "'io ARMul_State \<Rightarrow> 'io ARMul_State" where
  "FLUSHPIPE s = s\<lparr>NextInstr := NextInstr s OR PRIMEPIPE\<rparr>"

section \<open>Modes and register banks\<close>

definition bankofmode :: "nat list" where
  "bankofmode =
     [USERBANK, FIQBANK, IRQBANK, SVCBANK,
      DUMMYBANK, DUMMYBANK, DUMMYBANK, DUMMYBANK,
      DUMMYBANK, DUMMYBANK, DUMMYBANK, DUMMYBANK,
      DUMMYBANK, DUMMYBANK, DUMMYBANK, DUMMYBANK,
      USERBANK, FIQBANK, IRQBANK, SVCBANK,
      DUMMYBANK, DUMMYBANK, DUMMYBANK, ABORTBANK,
      DUMMYBANK, DUMMYBANK, DUMMYBANK, UNDEFBANK,
      DUMMYBANK, DUMMYBANK, DUMMYBANK, USERBANK]"

definition ModeToBank :: "ARMword \<Rightarrow> nat" where
  "ModeToBank mode = (if mode \<ge> 32 then DUMMYBANK else bankofmode ! unat mode)"

definition BANK_CAN_ACCESS_SPSR :: "nat \<Rightarrow> bool" where
  "BANK_CAN_ACCESS_SPSR bank \<longleftrightarrow> bank \<noteq> USERBANK \<and> bank \<noteq> DUMMYBANK"

text \<open>The loop \<^verbatim>\<open>for (i = lo; i < hi; i++) dst[i] = src[i]\<close>.\<close>

definition copy_regs :: "nat \<Rightarrow> nat \<Rightarrow> (nat \<Rightarrow> ARMword) \<Rightarrow> (nat \<Rightarrow> ARMword) \<Rightarrow> nat \<Rightarrow> ARMword"
  where "copy_regs lo hi src dst = (\<lambda>i. if lo \<le> i \<and> i < hi then src i else dst i)"

text \<open>
  The two switches of \<^verbatim>\<open>ARMul_SwitchMode\<close>. Their \<^verbatim>\<open>default: abort ()\<close> cannot be reached:
  \<open>ModeToBank\<close> returns at most \<open>DUMMYBANK\<close> (\<open>ModeToBank_le\<close>).
\<close>

definition save_old_regs :: "nat \<Rightarrow> nat \<Rightarrow> 'io ARMul_State \<Rightarrow> 'io ARMul_State" where
  "save_old_regs oldbank newbank s =
     (if oldbank = FIQBANK then
        s\<lparr>RegBank := (RegBank s)(FIQBANK := copy_regs 8 15 (Reg s) (RegBank s FIQBANK))\<rparr>
      else if oldbank = DUMMYBANK then
        s\<lparr>RegBank := (RegBank s)(DUMMYBANK := copy_regs 8 15 (\<lambda>_. 0) (RegBank s DUMMYBANK))\<rparr>
      else
        let rb = (if newbank = FIQBANK
                  then (RegBank s)(USERBANK := copy_regs 8 13 (Reg s) (RegBank s USERBANK))
                  else RegBank s)
        in s\<lparr>RegBank := rb(oldbank := (rb oldbank)(13 := Reg s 13, 14 := Reg s 14))\<rparr>)"

definition restore_new_regs :: "nat \<Rightarrow> nat \<Rightarrow> 'io ARMul_State \<Rightarrow> 'io ARMul_State" where
  "restore_new_regs oldbank newbank s =
     (if newbank = FIQBANK then
        s\<lparr>Reg := copy_regs 8 15 (RegBank s FIQBANK) (Reg s)\<rparr>
      else if newbank = DUMMYBANK then
        s\<lparr>Reg := copy_regs 8 15 (\<lambda>_. 0) (Reg s)\<rparr>
      else
        let r = (if oldbank = FIQBANK then copy_regs 8 13 (RegBank s USERBANK) (Reg s) else Reg s)
        in s\<lparr>Reg := r(13 := RegBank s newbank 13, 14 := RegBank s newbank 14)\<rparr>)"

text \<open>The C function returns \<open>newmode\<close>; its callers store it in \<open>Mode\<close>.\<close>

definition ARMul_SwitchMode :: "'io ARMul_State \<Rightarrow> ARMword \<Rightarrow> ARMword \<Rightarrow> 'io ARMul_State" where
  "ARMul_SwitchMode s oldmode newmode =
     (let oldbank = ModeToBank oldmode;
          newbank = ModeToBank newmode;
          s = s\<lparr>Bank := newbank\<rparr>
      in if oldbank \<noteq> newbank
         then restore_new_regs oldbank newbank (save_old_regs oldbank newbank s)
         else s)"

definition ARMul_GetReg :: "'io ARMul_State \<Rightarrow> ARMword \<Rightarrow> nat \<Rightarrow> ARMword" where
  "ARMul_GetReg s mode reg =
     (let mode = mode AND MODEBITS
      in if mode \<noteq> Mode s then RegBank s (ModeToBank mode) reg else Reg s reg)"

definition ARMul_SetReg ::
  "'io ARMul_State \<Rightarrow> ARMword \<Rightarrow> nat \<Rightarrow> ARMword \<Rightarrow> 'io ARMul_State" where
  "ARMul_SetReg s mode reg value =
     (let mode = mode AND MODEBITS
      in if mode \<noteq> Mode s
         then s\<lparr>RegBank := (RegBank s)
                  (ModeToBank mode := (RegBank s (ModeToBank mode))(reg := value))\<rparr>
         else set_reg reg value s)"

definition ARMul_GetPC :: "'io ARMul_State \<Rightarrow> ARMword" where
  "ARMul_GetPC s = (if Mode s > SVC26MODE then Reg s 15 else R15PC s)"

definition ARMul_GetNextPC :: "'io ARMul_State \<Rightarrow> ARMword" where
  "ARMul_GetNextPC s =
     (if Mode s > SVC26MODE then Reg s 15 + isize s
      else (Reg s 15 + isize s) AND R15PCBITS26)"

definition ARMul_SetPC :: "'io ARMul_State \<Rightarrow> ARMword \<Rightarrow> 'io ARMul_State" where
  "ARMul_SetPC s value =
     FLUSHPIPE (if Mode s > 3 then set_reg 15 (value AND PCBITS26) s
                else set_reg 15 (R15CCINTMODE s OR (value AND R15PCBITS26)) s)"

definition ARMul_GetR15 :: "'io ARMul_State \<Rightarrow> ARMword" where
  "ARMul_GetR15 s =
     (if Mode s > SVC26MODE then Reg s 15 else R15PC s OR ECC s OR ER15INT s OR Mode s)"

definition ASSIGNR15INT :: "ARMword \<Rightarrow> ARMword" where
  "ASSIGNR15INT res = drop_bit 26 res AND 3"

definition ASSIGNINT :: "ARMword \<Rightarrow> ARMword" where
  "ASSIGNINT res = drop_bit 6 res AND 3"

definition ARMul_R15Altered :: "'io ARMul_State \<Rightarrow> 'io ARMul_State" where
  "ARMul_R15Altered s =
     (let s = (if Mode s \<noteq> R15MODE s
               then let m = R15MODE s; s = (ARMul_SwitchMode s (Mode s) m)\<lparr>Mode := m\<rparr>
                    in s\<lparr>NtransSig := of_bool (Mode s AND 3 \<noteq> 0)\<rparr>
               else s);
          s = (if Mode s > SVC26MODE then s\<lparr>Emulate := CHANGEMODE\<rparr> else s)
      in s\<lparr>IFFlags := ASSIGNR15INT (Reg s 15 AND R15INTBITS),
           NFlag := of_bool (Reg s 15 AND NBIT \<noteq> 0),
           ZFlag := of_bool (Reg s 15 AND ZBIT \<noteq> 0),
           CFlag := of_bool (Reg s 15 AND CBIT \<noteq> 0),
           VFlag := of_bool (Reg s 15 AND VBIT \<noteq> 0)\<rparr>)"

definition ARMul_SetR15 :: "'io ARMul_State \<Rightarrow> ARMword \<Rightarrow> 'io ARMul_State" where
  "ARMul_SetR15 s value =
     FLUSHPIPE (if Mode s > 3 then set_reg 15 (value AND PCBITS26) s
                else ARMul_R15Altered (set_reg 15 value s))"

section \<open>The status registers\<close>

definition ARMul_GetCPSR :: "'io ARMul_State \<Rightarrow> ARMword" where
  "ARMul_GetCPSR s = CPSR s"

text \<open>The three parts of \<^verbatim>\<open>ARMul_CPSRAltered\<close>: the bank switch, the flags, the PC layout.\<close>

definition cpsr_switch_mode :: "'io ARMul_State \<Rightarrow> 'io ARMul_State" where
  "cpsr_switch_mode s =
     (if Mode s \<noteq> Cpsr s AND MODEBITS
      then let m = Cpsr s AND MODEBITS; s = (ARMul_SwitchMode s (Mode s) m)\<lparr>Mode := m\<rparr>
           in s\<lparr>NtransSig := of_bool (Mode s AND 3 \<noteq> 0)\<rparr>
      else s)"

definition cpsr_assign_flags :: "'io ARMul_State \<Rightarrow> 'io ARMul_State" where
  "cpsr_assign_flags s =
     s\<lparr>IFFlags := ASSIGNINT (Cpsr s AND INTBITS),
       NFlag := of_bool (Cpsr s AND NBIT \<noteq> 0),
       ZFlag := of_bool (Cpsr s AND ZBIT \<noteq> 0),
       CFlag := of_bool (Cpsr s AND CBIT \<noteq> 0),
       VFlag := of_bool (Cpsr s AND VBIT \<noteq> 0),
       SFlag := of_bool (Cpsr s AND SBIT \<noteq> 0),
       TFlag := of_bool (Cpsr s AND TBIT \<noteq> 0)\<rparr>"

definition ARMul_CPSRAltered :: "'io ARMul_State \<Rightarrow> 'io ARMul_State" where
  "ARMul_CPSRAltered s =
     (let s = (if prog32Sig s = LOW
               then s\<lparr>Cpsr := Cpsr s AND (CCBITS OR INTBITS OR R15MODEBITS)\<rparr> else s);
          oldmode = Mode s;
          s = cpsr_assign_flags (cpsr_switch_mode s)
      in if oldmode > SVC26MODE
         then (if Mode s \<le> SVC26MODE
               then set_reg 15 (ECC s OR ER15INT s OR Mode s OR R15PC s) (s\<lparr>Emulate := CHANGEMODE\<rparr>)
               else s)
         else (if Mode s > SVC26MODE
               then set_reg 15 (R15PC s) (s\<lparr>Emulate := CHANGEMODE\<rparr>)
               else set_reg 15 (ECC s OR ER15INT s OR Mode s OR R15PC s) s))"

definition ARMul_SetCPSR :: "'io ARMul_State \<Rightarrow> ARMword \<Rightarrow> 'io ARMul_State" where
  "ARMul_SetCPSR s value = ARMul_CPSRAltered (s\<lparr>Cpsr := value\<rparr>)"

definition SETPSR :: "ARMword \<Rightarrow> ARMword \<Rightarrow> ARMword \<Rightarrow> ARMword" where
  "SETPSR m d v = (d AND NOT m) OR (v AND m)"

text \<open>The write of the \<^verbatim>\<open>_c\<close>, \<^verbatim>\<open>_x\<close> and \<^verbatim>\<open>_s\<close> fields, then of \<^verbatim>\<open>_f\<close>, selected by bits 16 to 19.\<close>

definition msr_cxs :: "ARMword \<Rightarrow> ARMword \<Rightarrow> ARMword \<Rightarrow> ARMword" where
  "msr_cxs instr rhs d =
     (let d = (if bit instr 16 then SETPSR 0x000000ff d rhs else d);
          d = (if bit instr 17 then SETPSR 0x0000ff00 d rhs else d)
      in if bit instr 18 then SETPSR 0x00ff0000 d rhs else d)"

definition msr_f :: "ARMword \<Rightarrow> ARMword \<Rightarrow> ARMword \<Rightarrow> ARMword" where
  "msr_f instr rhs d = (if bit instr 19 then SETPSR 0xff000000 d rhs else d)"

definition ARMul_FixCPSR :: "'io ARMul_State \<Rightarrow> ARMword \<Rightarrow> ARMword \<Rightarrow> 'io ARMul_State" where
  "ARMul_FixCPSR s instr rhs =
     (let c = ARMul_GetCPSR s;
          c = (if Mode s \<noteq> USER26MODE \<and> Mode s \<noteq> USER32MODE then msr_cxs instr rhs c else c)
      in ARMul_CPSRAltered (s\<lparr>Cpsr := msr_f instr rhs c\<rparr>))"

definition ARMul_GetSPSR :: "'io ARMul_State \<Rightarrow> ARMword \<Rightarrow> ARMword" where
  "ARMul_GetSPSR s mode =
     (let bank = ModeToBank (mode AND MODEBITS)
      in if \<not> BANK_CAN_ACCESS_SPSR bank then ARMul_GetCPSR s else Spsr s bank)"

definition ARMul_SetSPSR :: "'io ARMul_State \<Rightarrow> ARMword \<Rightarrow> ARMword \<Rightarrow> 'io ARMul_State" where
  "ARMul_SetSPSR s mode value =
     (let bank = ModeToBank (mode AND MODEBITS)
      in if BANK_CAN_ACCESS_SPSR bank then s\<lparr>Spsr := (Spsr s)(bank := value)\<rparr> else s)"

definition ARMul_FixSPSR :: "'io ARMul_State \<Rightarrow> ARMword \<Rightarrow> ARMword \<Rightarrow> 'io ARMul_State" where
  "ARMul_FixSPSR s instr rhs =
     (if BANK_CAN_ACCESS_SPSR (Bank s)
      then s\<lparr>Spsr := (Spsr s)(Bank s := msr_f instr rhs (msr_cxs instr rhs (Spsr s (Bank s))))\<rparr>
      else s)"

section \<open>Condition flags\<close>

definition ARMul_NegZero :: "'io ARMul_State \<Rightarrow> ARMword \<Rightarrow> 'io ARMul_State" where
  "ARMul_NegZero s result =
     (if NEG result \<noteq> 0 then s\<lparr>NFlag := 1, ZFlag := 0\<rparr>
      else if result = 0 then s\<lparr>NFlag := 0, ZFlag := 1\<rparr>
      else s\<lparr>NFlag := 0, ZFlag := 0\<rparr>)"

definition AddOverflow :: "ARMword \<Rightarrow> ARMword \<Rightarrow> ARMword \<Rightarrow> bool" where
  "AddOverflow a b result \<longleftrightarrow>
     (NEG a \<noteq> 0 \<and> NEG b \<noteq> 0 \<and> POS result \<noteq> 0)
     \<or> (POS a \<noteq> 0 \<and> POS b \<noteq> 0 \<and> NEG result \<noteq> 0)"

definition SubOverflow :: "ARMword \<Rightarrow> ARMword \<Rightarrow> ARMword \<Rightarrow> bool" where
  "SubOverflow a b result \<longleftrightarrow>
     (NEG a \<noteq> 0 \<and> POS b \<noteq> 0 \<and> POS result \<noteq> 0)
     \<or> (POS a \<noteq> 0 \<and> NEG b \<noteq> 0 \<and> NEG result \<noteq> 0)"

definition ARMul_AddCarry ::
  "'io ARMul_State \<Rightarrow> ARMword \<Rightarrow> ARMword \<Rightarrow> ARMword \<Rightarrow> 'io ARMul_State" where
  "ARMul_AddCarry s a b result =
     s\<lparr>CFlag := of_bool ((NEG a \<noteq> 0 \<and> NEG b \<noteq> 0) \<or> (NEG a \<noteq> 0 \<and> POS result \<noteq> 0)
                          \<or> (NEG b \<noteq> 0 \<and> POS result \<noteq> 0))\<rparr>"

definition ARMul_AddOverflow ::
  "'io ARMul_State \<Rightarrow> ARMword \<Rightarrow> ARMword \<Rightarrow> ARMword \<Rightarrow> 'io ARMul_State" where
  "ARMul_AddOverflow s a b result = s\<lparr>VFlag := of_bool (AddOverflow a b result)\<rparr>"

definition ARMul_SubCarry ::
  "'io ARMul_State \<Rightarrow> ARMword \<Rightarrow> ARMword \<Rightarrow> ARMword \<Rightarrow> 'io ARMul_State" where
  "ARMul_SubCarry s a b result =
     s\<lparr>CFlag := of_bool ((NEG a \<noteq> 0 \<and> POS b \<noteq> 0) \<or> (NEG a \<noteq> 0 \<and> POS result \<noteq> 0)
                          \<or> (POS b \<noteq> 0 \<and> POS result \<noteq> 0))\<rparr>"

definition ARMul_SubOverflow ::
  "'io ARMul_State \<Rightarrow> ARMword \<Rightarrow> ARMword \<Rightarrow> ARMword \<Rightarrow> 'io ARMul_State" where
  "ARMul_SubOverflow s a b result = s\<lparr>VFlag := of_bool (SubOverflow a b result)\<rparr>"

section \<open>Small helpers\<close>

text \<open>
  The loop of \<^verbatim>\<open>ARMul_NthReg\<close>. When the list has no register number \<open>number\<close> the C loop
  shifts by 32 and more, which C leaves undefined: the model returns \<open>None\<close>.
\<close>

function nth_reg_loop :: "ARMword \<Rightarrow> nat \<Rightarrow> nat \<Rightarrow> nat \<Rightarrow> nat option" where
  "nth_reg_loop instr number b up =
     (if up \<le> number
      then (if b < 32
            then nth_reg_loop instr number (Suc b) (if bit instr b then Suc up else up)
            else None)
      else Some (b - 1))"
  by pat_completeness auto
termination
  by (relation "measure (\<lambda>(instr, number, b, up). 32 - b)") auto

declare nth_reg_loop.simps [simp del]

definition ARMul_NthReg :: "ARMword \<Rightarrow> nat \<Rightarrow> nat option" where
  "ARMul_NthReg instr number = nth_reg_loop instr number 0 0"

definition ARMul_Align :: "ARMword \<Rightarrow> ARMword \<Rightarrow> ARMword" where
  "ARMul_Align address data =
     (let address = push_bit 3 (address AND 3)
      in drop_bit (unat address) data OR push_bit (unat (32 - address)) data)"

definition ARMul_Icycles :: "'io ARMul_State \<Rightarrow> ARMword \<Rightarrow> 'io ARMul_State" where
  "ARMul_Icycles s number = s\<lparr>NumIcycles := NumIcycles s + number, abortSig := LOW\<rparr>"

definition ARMul_Ccycles :: "'io ARMul_State \<Rightarrow> ARMword \<Rightarrow> 'io ARMul_State" where
  "ARMul_Ccycles s number = s\<lparr>NumCcycles := NumCcycles s + number, abortSig := LOW\<rparr>"

section \<open>Exception entry (arminit.c)\<close>

definition ARMul_OSException :: "'io ARMul_State \<Rightarrow> ARMword \<Rightarrow> ARMword \<Rightarrow> bool" where
  "ARMul_OSException s vec pc = False"

definition SETABORT ::
  "ARMword \<Rightarrow> ARMword \<Rightarrow> ARMword \<Rightarrow> ARMword \<Rightarrow> 'io ARMul_State \<Rightarrow> 'io ARMul_State" where
  "SETABORT i m d temp s =
     (let s = ARMul_SetSPSR s m (ARMul_GetCPSR s);
          s = ARMul_SetCPSR s ((ARMul_GetCPSR s AND NOT (Mode s OR TBIT)) OR i OR m)
      in set_reg 14 (temp - d) s)"

text \<open>The switch on the vector; a value that is no vector changes nothing.\<close>

definition abort_switch :: "ARMword \<Rightarrow> ARMword \<Rightarrow> 'io ARMul_State \<Rightarrow> 'io ARMul_State" where
  "abort_switch vec temp s =
     (let isz = INSN_SIZE s;
          esize = (if TFlag s \<noteq> 0 then 0 else 4);
          e2size = (if TFlag s \<noteq> 0 then - 4 else 0);
          p = prog32Sig s \<noteq> 0
      in if vec = ARMul_ResetV then SETABORT INTBITS (if p then SVC32MODE else SVC26MODE) 0 temp s
         else if vec = ARMul_UndefinedInstrV
           then SETABORT IBIT (if p then UNDEF32MODE else SVC26MODE) isz temp s
         else if vec = ARMul_SWIV
           then SETABORT IBIT (if p then SVC32MODE else SVC26MODE) isz temp s
         else if vec = ARMul_PrefetchAbortV
           then SETABORT IBIT (if p then ABORT32MODE else SVC26MODE) esize temp
                  (s\<lparr>AbortAddr := 1\<rparr>)
         else if vec = ARMul_DataAbortV
           then SETABORT IBIT (if p then ABORT32MODE else SVC26MODE) e2size temp s
         else if vec = ARMul_AddrExceptnV then SETABORT IBIT SVC26MODE isz temp s
         else if vec = ARMul_IRQV
           then SETABORT IBIT (if p then IRQ32MODE else IRQ26MODE) esize temp s
         else if vec = ARMul_FIQV
           then SETABORT INTBITS (if p then FIQ32MODE else FIQ26MODE) esize temp s
         else s)"

definition ARMul_Abort :: "'io ARMul_State \<Rightarrow> ARMword \<Rightarrow> 'io ARMul_State" where
  "ARMul_Abort s vec =
     (let s = s\<lparr>Aborted := 0\<rparr>
      in if ARMul_OSException s vec (ARMul_GetPC s) then s
         else
           let temp = (if prog32Sig s \<noteq> 0
                       then (if Mode s \<le> 3 then R15PC s else Reg s 15)
                       else R15PC s OR ECC s OR ER15INT s OR Mode s);
               s = abort_switch vec temp s
           in if Mode s > 3
              then let vec = (if control (mmu s) AND CONTROL_VECTOR \<noteq> 0 then vec + 0xffff0000 else vec);
                       vec = (if vector_remap_flag s \<noteq> 0 then vec + vector_remap_addr s else vec)
                   in ARMul_SetR15 s vec
              else ARMul_SetR15 s (R15CCINTMODE s OR vec))"

definition IntPending :: "'io ARMul_State \<Rightarrow> bool \<times> 'io ARMul_State" where
  "IntPending s =
     (if NresetSig s = LOW then (True, ARMul_Abort s ARMul_ResetV)
      else if NfiqSig s = 0 \<and> FFLAG s = 0 then (True, ARMul_Abort s ARMul_FIQV)
      else if NirqSig s = 0 \<and> IFLAG s = 0 then (True, ARMul_Abort s ARMul_IRQV)
      else (False, s))"

text \<open>\<open>undf_trap\<close> is the machine's hook for undefined instructions, if it set one.\<close>

definition ARMul_UndefInstr ::
  "('io ARMul_State \<Rightarrow> ARMword \<Rightarrow> bool \<times> 'io ARMul_State) option
     \<Rightarrow> 'io ARMul_State \<Rightarrow> ARMword \<Rightarrow> 'io ARMul_State" where
  "ARMul_UndefInstr undf_trap s instr =
     (let (res, s) = (case undf_trap of None \<Rightarrow> (False, s) | Some f \<Rightarrow> f s instr)
      in if \<not> res then ARMul_Abort s ARMul_UndefinedInstrV else s)"

section \<open>Creation, processor selection and reset (arminit.c)\<close>

text \<open>
  \<^verbatim>\<open>ARMul_NewState\<close>: every field is zero but those the function sets. The memory is a global of
  \<^verbatim>\<open>armmem.c\<close> and the machine's devices are set up elsewhere, so both are arguments.
\<close>

definition ARMul_NewState :: "mem_state_t \<Rightarrow> 'io \<Rightarrow> 'io ARMul_State" where
  "ARMul_NewState m io =
     \<lparr>Emulate = RUN, Reg = (\<lambda>_. 0), RegBank = (\<lambda>_ _. 0), Cpsr = 0, Spsr = (\<lambda>_. 0),
      NFlag = 0, ZFlag = 0, CFlag = 0, VFlag = 0, IFFlags = 0, SFlag = 0, TFlag = 0,
      Bank = 0, Mode = 0, NumScycles = 0, NumNcycles = 0, NumIcycles = 0, NumCcycles = 0,
      NumFcycles = 0, NextInstr = 0, EventSet = 0, Now = 0, EventPtr = (\<lambda>_. []),
      NresetSig = 0, NfiqSig = 0, NirqSig = 0, abortSig = 0, NtransSig = 0, bigendSig = LOW,
      prog32Sig = HIGH, data32Sig = HIGH, lateabtSig = HIGH, Aborted = 0, AbortAddr = 0, is_v4 = 0, is_v5 = 0,
      is_v5e = 0, is_v6 = 0, is_XScale = 0, cpu_val = 0, vector_remap_flag = 0, vector_remap_addr = 0,
      vector_remap_size = 0, isize = 0, Base = 0, NumInstrs = 0, pipe_decoded = 0,
      pipe_loaded = 0, pipe_pc = 0, mmu = mmu_zero, mem = m, mach_io = io\<rparr>"

text \<open>
  The architecture properties of a processor; the coprocessor set-up that ends
  \<^verbatim>\<open>ARMul_SelectProcessor\<close> only fills a table of function pointers.
\<close>

definition ARMul_SelectProcessor :: "'io ARMul_State \<Rightarrow> ARMword \<Rightarrow> 'io ARMul_State" where
  "ARMul_SelectProcessor s properties =
     s\<lparr>prog32Sig := (if properties AND 0x01 \<noteq> 0 then LOW else HIGH),
       data32Sig := (if properties AND 0x01 \<noteq> 0 then LOW else HIGH),
       is_v4 := (if properties AND (0x40 OR 0x80) \<noteq> 0 then HIGH else LOW),
       is_v5 := (if properties AND 0x80 \<noteq> 0 then HIGH else LOW),
       is_v5e := (if properties AND 0x100 \<noteq> 0 then HIGH else LOW), is_v6 := LOW,
       is_XScale := (if properties AND 0x200 \<noteq> 0 then HIGH else LOW)\<rparr>"

text \<open>The processor part of \<^verbatim>\<open>ARMul_Reset\<close>, before it resets the MMU and the memory.\<close>

definition ARMul_Reset_cpu :: "'io ARMul_State \<Rightarrow> 'io ARMul_State" where
  "ARMul_Reset_cpu s =
     (let s = s\<lparr>NextInstr := 0\<rparr>;
          s = (if prog32Sig s \<noteq> 0
               then (set_reg 15 0 s)\<lparr>Cpsr := INTBITS OR SVC32MODE, Mode := SVC32MODE\<rparr>
               else (set_reg 15 (R15INTBITS OR SVC26MODE) s)
                      \<lparr>Cpsr := INTBITS OR SVC26MODE, Mode := SVC26MODE\<rparr>);
          s = FLUSHPIPE ((ARMul_CPSRAltered s)\<lparr>Bank := SVCBANK\<rparr>)
      in s\<lparr>NresetSig := HIGH, NfiqSig := HIGH, NirqSig := HIGH,
           NtransSig := of_bool (Mode s AND 3 \<noteq> 0), abortSig := LOW, AbortAddr := 1,
           NumNcycles := 0, NumScycles := 0, NumIcycles := 0, NumCcycles := 0, NumFcycles := 0, NumInstrs := 0\<rparr>)"

section \<open>The event list\<close>

text \<open>
  An event is a number; \<open>ev\<close> gives the function it stands for. \<open>EventPtr i\<close> is the linked
  list of slot \<open>i\<close> of the ring of 1024 slots.
\<close>

definition ARMul_Time :: "'io ARMul_State \<Rightarrow> ARMword" where
  "ARMul_Time s =
     NumScycles s + NumNcycles s + NumIcycles s + NumCcycles s + NumFcycles s"

definition ARMul_ScheduleEvent :: "'io ARMul_State \<Rightarrow> ARMword \<Rightarrow> nat \<Rightarrow> 'io ARMul_State" where
  "ARMul_ScheduleEvent s delay what =
     (let s = (if EventSet s = 0 then s\<lparr>Now := ARMul_Time s\<rparr> else s)\<lparr>EventSet := EventSet s + 1\<rparr>;
          when = unat (Now s + delay) mod 1024
      in s\<lparr>EventPtr := (EventPtr s)(when := what # EventPtr s when)\<rparr>)"

fun run_events ::
  "(nat \<Rightarrow> 'io ARMul_State \<Rightarrow> 'io ARMul_State) \<Rightarrow> nat list \<Rightarrow> 'io ARMul_State \<Rightarrow> 'io ARMul_State"
  where
  "run_events ev [] s = s"
| "run_events ev (e # es) s =
     (let s = ev e s in run_events ev es (s\<lparr>EventSet := EventSet s - 1\<rparr>))"

definition envoke_slot ::
  "(nat \<Rightarrow> 'io ARMul_State \<Rightarrow> 'io ARMul_State) \<Rightarrow> nat \<Rightarrow> 'io ARMul_State \<Rightarrow> 'io ARMul_State"
  where
  "envoke_slot ev i s =
     (let s = run_events ev (EventPtr s i) s in s\<lparr>EventPtr := (EventPtr s)(i := [])\<rparr>)"

definition EnvokeList ::
  "(nat \<Rightarrow> 'io ARMul_State \<Rightarrow> 'io ARMul_State) \<Rightarrow> nat \<Rightarrow> nat \<Rightarrow> 'io ARMul_State \<Rightarrow> 'io ARMul_State"
  where
  "EnvokeList ev lo hi s = fold (envoke_slot ev) [lo..<Suc hi] s"

definition ARMul_EnvokeEvent ::
  "(nat \<Rightarrow> 'io ARMul_State \<Rightarrow> 'io ARMul_State) \<Rightarrow> 'io ARMul_State \<Rightarrow> 'io ARMul_State" where
  "ARMul_EnvokeEvent ev s =
     (let prev = unat (Now s);
          s = s\<lparr>Now := ARMul_Time s mod 1024\<rparr>;
          now = unat (Now s)
      in if prev < now then EnvokeList ev prev now s
         else if prev > now then EnvokeList ev 0 (unat (Now (EnvokeList ev prev 1023 s)))
                                   (EnvokeList ev prev 1023 s)
         else s)"

section \<open>Register banks: facts\<close>

lemma ModeToBank_le [bank_simps]: "ModeToBank m \<le> DUMMYBANK"
proof (cases "m \<ge> 32")
  case True
  then show ?thesis by (simp add: ModeToBank_def)
next
  case False
  then have "unat m < length bankofmode"
    by (simp add: bankofmode_def word_le_nat_alt)
  then have "bankofmode ! unat m \<in> set bankofmode" by simp
  moreover have "\<forall>b\<in>set bankofmode. b \<le> 6" by (simp add: bankofmode_def)
  ultimately show ?thesis using False by (auto simp: ModeToBank_def)
qed

lemma ModeToBank_modes [simp]:
  "ModeToBank 0 = 0" "ModeToBank 1 = 1" "ModeToBank 2 = 2" "ModeToBank 3 = 3"
  "ModeToBank 16 = 0" "ModeToBank 17 = 1" "ModeToBank 18 = 2" "ModeToBank 19 = 3"
  "ModeToBank 23 = 4" "ModeToBank 27 = 5" "ModeToBank 31 = 0"
  by (simp_all add: ModeToBank_def bankofmode_def word_le_nat_alt)

text \<open>
  The register file as the architecture defines it: register \<open>r\<close> as seen from bank \<open>b\<close>,
  wherever the simulator keeps it at the moment.
\<close>

definition physreg :: "'io ARMul_State \<Rightarrow> nat \<Rightarrow> nat \<Rightarrow> ARMword" where
  "physreg s b r =
     (if r < 8 \<or> 15 \<le> r then Reg s r
      else if r < 13 then
        (if (b = FIQBANK) = (Bank s = FIQBANK) then Reg s r
         else RegBank s (if b = FIQBANK then FIQBANK else USERBANK) r)
      else if b = Bank s then Reg s r else RegBank s b r)"

lemma SwitchMode_Bank [simp]: "Bank (ARMul_SwitchMode s oldmode newmode) = ModeToBank newmode"
  by (simp add: ARMul_SwitchMode_def save_old_regs_def restore_new_regs_def Let_def)

lemma SwitchMode_unbanked [simp]:
  "r < 8 \<or> 15 \<le> r \<Longrightarrow> Reg (ARMul_SwitchMode s oldmode newmode) r = Reg s r"
  by (auto simp: ARMul_SwitchMode_def save_old_regs_def restore_new_regs_def Let_def copy_regs_def)

lemma physreg_mid:
  "8 \<le> r \<Longrightarrow> r < 13 \<Longrightarrow> physreg s b r =
     (if (b = 1) = (Bank s = 1) then Reg s r else RegBank s (if b = 1 then 1 else 0) r)"
  by (simp add: physreg_def)

lemma physreg_top:
  "13 \<le> r \<Longrightarrow> r < 15 \<Longrightarrow> physreg s b r = (if b = Bank s then Reg s r else RegBank s b r)"
  by (simp add: physreg_def)

lemmas switch_defs = ARMul_SwitchMode_def save_old_regs_def restore_new_regs_def Let_def copy_regs_def

lemma SwitchMode_physreg:
  assumes old: "ModeToBank oldmode = Bank s"
    and nd: "Bank s \<noteq> DUMMYBANK" "ModeToBank newmode \<noteq> DUMMYBANK"
  shows "physreg (ARMul_SwitchMode s oldmode newmode) b r = physreg s b r"
proof -
  consider "r < 8 \<or> 15 \<le> r" | "8 \<le> r" "r < 13" | "r = 13" | "r = 14" by linarith
  then show ?thesis
  proof cases
    case 1
    then show ?thesis by (simp add: physreg_def)
  next
    case 2
    have ne: "r \<noteq> 13" "r \<noteq> 14" using 2 by simp_all
    show ?thesis using 2 ne old nd by (simp add: physreg_mid switch_defs)
  next
    case 3
    then show ?thesis using old nd by (simp add: physreg_top switch_defs)
  next
    case 4
    then show ?thesis using old nd by (simp add: physreg_top switch_defs)
  qed
qed

lemma SwitchMode_frame [simp]:
  "Cpsr (ARMul_SwitchMode s a b) = Cpsr s" "Spsr (ARMul_SwitchMode s a b) = Spsr s"
  "Mode (ARMul_SwitchMode s a b) = Mode s" "prog32Sig (ARMul_SwitchMode s a b) = prog32Sig s"
  "NFlag (ARMul_SwitchMode s a b) = NFlag s" "ZFlag (ARMul_SwitchMode s a b) = ZFlag s"
  "CFlag (ARMul_SwitchMode s a b) = CFlag s" "VFlag (ARMul_SwitchMode s a b) = VFlag s"
  "SFlag (ARMul_SwitchMode s a b) = SFlag s" "TFlag (ARMul_SwitchMode s a b) = TFlag s"
  "IFFlags (ARMul_SwitchMode s a b) = IFFlags s"
  "mmu (ARMul_SwitchMode s a b) = mmu s" "mem (ARMul_SwitchMode s a b) = mem s"
  "vector_remap_flag (ARMul_SwitchMode s a b) = vector_remap_flag s"
  "vector_remap_addr (ARMul_SwitchMode s a b) = vector_remap_addr s"
  "NextInstr (ARMul_SwitchMode s a b) = NextInstr s" "Emulate (ARMul_SwitchMode s a b) = Emulate s"
  "Aborted (ARMul_SwitchMode s a b) = Aborted s"
  by (simp_all add: switch_defs)

lemma mask_flag_bits [simp]:
  fixes v :: ARMword
  shows "v AND 0x80000000 = 0 \<longleftrightarrow> \<not> bit v 31" "v AND 0x40000000 = 0 \<longleftrightarrow> \<not> bit v 30"
    "v AND 0x20000000 = 0 \<longleftrightarrow> \<not> bit v 29" "v AND 0x10000000 = 0 \<longleftrightarrow> \<not> bit v 28"
    "v AND 0x08000000 = 0 \<longleftrightarrow> \<not> bit v 27" "v AND 0x20 = 0 \<longleftrightarrow> \<not> bit v 5"
  using and_exp_eq_0_iff_not_bit [of v 31] and_exp_eq_0_iff_not_bit [of v 30]
    and_exp_eq_0_iff_not_bit [of v 29] and_exp_eq_0_iff_not_bit [of v 28]
    and_exp_eq_0_iff_not_bit [of v 27] and_exp_eq_0_iff_not_bit [of v 5]
  by simp_all

lemma set_reg_simps [simp]:
  "Reg (set_reg i v s) = (Reg s)(i := v)" "RegBank (set_reg i v s) = RegBank s"
  "Cpsr (set_reg i v s) = Cpsr s" "Spsr (set_reg i v s) = Spsr s"
  "Mode (set_reg i v s) = Mode s" "Bank (set_reg i v s) = Bank s"
  "prog32Sig (set_reg i v s) = prog32Sig s"
  "NFlag (set_reg i v s) = NFlag s" "ZFlag (set_reg i v s) = ZFlag s"
  "CFlag (set_reg i v s) = CFlag s" "VFlag (set_reg i v s) = VFlag s"
  "SFlag (set_reg i v s) = SFlag s" "TFlag (set_reg i v s) = TFlag s"
  "IFFlags (set_reg i v s) = IFFlags s" "mmu (set_reg i v s) = mmu s"
  "mem (set_reg i v s) = mem s" "vector_remap_flag (set_reg i v s) = vector_remap_flag s"
  "vector_remap_addr (set_reg i v s) = vector_remap_addr s"
  "NextInstr (set_reg i v s) = NextInstr s" "Aborted (set_reg i v s) = Aborted s"
  by (simp_all add: set_reg_def)

lemma CPSR_set_reg [simp]: "CPSR (set_reg i v s) = CPSR s"
  by (simp add: CPSR_def ECC_def EINT_def)

text \<open>What \<open>ARMul_CPSRAltered\<close> does in a 32-bit configuration.\<close>

lemma CPSRAltered_Mode:
  "prog32Sig s \<noteq> 0 \<Longrightarrow> Mode (ARMul_CPSRAltered s) = Cpsr s AND MODEBITS"
  by (auto simp: ARMul_CPSRAltered_def cpsr_switch_mode_def cpsr_assign_flags_def Let_def)

lemma CPSR_of_flags:
  "CPSR (cpsr_assign_flags s) = (Cpsr s AND 0xF80000E0) OR Mode s"
  by (rule word32_eqI, simp only: all_less_32_iff CPSR_def ECC_def EINT_def
      cpsr_assign_flags_def ASSIGNINT_def, auto simp: bit_simps bit_high_False)

lemma cpsr_switch_mode_simps [simp]:
  "Cpsr (cpsr_switch_mode s) = Cpsr s" "Mode (cpsr_switch_mode s) = Cpsr s AND MODEBITS"
  "prog32Sig (cpsr_switch_mode s) = prog32Sig s" "Spsr (cpsr_switch_mode s) = Spsr s"
  "mmu (cpsr_switch_mode s) = mmu s" "mem (cpsr_switch_mode s) = mem s"
  "vector_remap_flag (cpsr_switch_mode s) = vector_remap_flag s"
  "vector_remap_addr (cpsr_switch_mode s) = vector_remap_addr s"
  "NextInstr (cpsr_switch_mode s) = NextInstr s" "Aborted (cpsr_switch_mode s) = Aborted s"
  by (simp_all add: cpsr_switch_mode_def Let_def)

lemma cpsr_assign_flags_simps [simp]:
  "Cpsr (cpsr_assign_flags s) = Cpsr s" "Mode (cpsr_assign_flags s) = Mode s"
  "Reg (cpsr_assign_flags s) = Reg s" "RegBank (cpsr_assign_flags s) = RegBank s"
  "Bank (cpsr_assign_flags s) = Bank s"
  "prog32Sig (cpsr_assign_flags s) = prog32Sig s" "Spsr (cpsr_assign_flags s) = Spsr s"
  "mmu (cpsr_assign_flags s) = mmu s" "mem (cpsr_assign_flags s) = mem s"
  "vector_remap_flag (cpsr_assign_flags s) = vector_remap_flag s"
  "vector_remap_addr (cpsr_assign_flags s) = vector_remap_addr s"
  "NextInstr (cpsr_assign_flags s) = NextInstr s" "Aborted (cpsr_assign_flags s) = Aborted s"
  "TFlag (cpsr_assign_flags s) = of_bool (bit (Cpsr s) 5)"
  "IFFlags (cpsr_assign_flags s) = drop_bit 6 (Cpsr s AND INTBITS) AND 3"
  by (simp_all add: cpsr_assign_flags_def ASSIGNINT_def)

lemma CPSR_cong:
  "\<lbrakk> NFlag s = NFlag t; ZFlag s = ZFlag t; CFlag s = CFlag t; VFlag s = VFlag t; SFlag s = SFlag t;
     IFFlags s = IFFlags t; TFlag s = TFlag t; Mode s = Mode t \<rbrakk> \<Longrightarrow> CPSR s = CPSR t"
  by (simp add: CPSR_def ECC_def EINT_def)

lemma CPSR_Emulate [simp]: "CPSR (s\<lparr>Emulate := e\<rparr>) = CPSR s"
  by (rule CPSR_cong) simp_all

lemma word_and_or_mode: "((v :: ARMword) AND 0xF80000E0) OR (v AND 0x1f) = v AND 0xF80000FF"
  by (rule word32_eqI, simp only: all_less_32_iff, auto simp: bit_simps)

lemma CPSRAltered_CPSR:
  assumes "prog32Sig s \<noteq> 0"
  shows "CPSR (ARMul_CPSRAltered s) = Cpsr s AND 0xF80000FF"
  using assms
  by (simp add: ARMul_CPSRAltered_def Let_def CPSR_of_flags word_and_or_mode)

lemma CPSRAltered_32:
  assumes "prog32Sig s \<noteq> 0" "Mode s > 3" "Cpsr s AND MODEBITS > 3"
  shows "ARMul_CPSRAltered s = cpsr_assign_flags (cpsr_switch_mode s)"
  using assms by (simp add: ARMul_CPSRAltered_def Let_def not_less not_le)

text \<open>Bank and mode agree: the invariant of the register file.\<close>

definition bank_ok :: "'io ARMul_State \<Rightarrow> bool" where
  "bank_ok s \<longleftrightarrow> Bank s = ModeToBank (Mode s)"

lemma physreg_eq_banks:
  "Reg s = Reg t \<Longrightarrow> RegBank s = RegBank t \<Longrightarrow> Bank s = Bank t \<Longrightarrow> physreg s b r = physreg t b r"
  by (simp add: physreg_def)

lemma cpsr_switch_mode_Bank:
  "bank_ok s \<Longrightarrow> Bank (cpsr_switch_mode s) = ModeToBank (Cpsr s AND MODEBITS)"
  by (auto simp: cpsr_switch_mode_def Let_def bank_ok_def)

lemma CPSRAltered_bank_ok: "bank_ok s \<Longrightarrow> bank_ok (ARMul_CPSRAltered s)"
  by (simp add: bank_ok_def ARMul_CPSRAltered_def Let_def
      cpsr_switch_mode_Bank [unfolded bank_ok_def])

lemma cpsr_switch_mode_physreg:
  assumes "bank_ok s" "ModeToBank (Mode s) \<noteq> DUMMYBANK"
    "ModeToBank (Cpsr s AND MODEBITS) \<noteq> DUMMYBANK"
  shows "physreg (cpsr_switch_mode s) b r = physreg s b r"
proof (cases "Mode s = Cpsr s AND MODEBITS")
  case True
  then show ?thesis by (simp add: cpsr_switch_mode_def)
next
  case False
  have "physreg (cpsr_switch_mode s) b r
      = physreg (ARMul_SwitchMode s (Mode s) (Cpsr s AND MODEBITS)) b r"
    using False by (simp add: cpsr_switch_mode_def Let_def physreg_def)
  also have "\<dots> = physreg s b r"
    using assms by (intro SwitchMode_physreg) (simp_all add: bank_ok_def)
  finally show ?thesis .
qed


section \<open>Condition flags: facts\<close>

lemma carry_flags:
  fixes a b c :: ARMword
  assumes "c \<le> 1"
  shows "CFlag (ARMul_AddCarry s a b (a + b + c)) = of_bool (2 ^ 32 \<le> uint a + uint b + uint c)"
    and "VFlag (ARMul_AddOverflow s a b (a + b + c)) =
      of_bool (sint a + sint b + uint c < - (2 ^ 31) \<or> 2 ^ 31 \<le> sint a + sint b + uint c)"
    and "CFlag (ARMul_SubCarry s a b (a - b - c)) = of_bool (uint b + uint c \<le> uint a)"
    and "VFlag (ARMul_SubOverflow s a b (a - b - c)) =
      of_bool (sint a - sint b - uint c < - (2 ^ 31) \<or> 2 ^ 31 \<le> sint a - sint b - uint c)"
proof -
  obtain A B C where eqs: "uint a = A" "uint b = B" "uint c = C"
      "uint (a + b + c) = (if A + B + C < 2 ^ 32 then A + B + C else A + B + C - 2 ^ 32)"
      "uint (a - b - c) = (if A - B - C < 0 then A - B - C + 2 ^ 32 else A - B - C)"
    and rng: "0 \<le> A" "A < 2 ^ 32" "0 \<le> B" "B < 2 ^ 32" "0 \<le> C" "C \<le> 1"
    by (rule carry_operands [OF assms, of a b])
  note flags = ARMul_AddCarry_def ARMul_AddOverflow_def AddOverflow_def ARMul_SubCarry_def
    ARMul_SubOverflow_def SubOverflow_def sign_defs eqs
  show "CFlag (ARMul_AddCarry s a b (a + b + c)) = of_bool (2 ^ 32 \<le> uint a + uint b + uint c)"
    unfolding flags using rng by auto
  show "VFlag (ARMul_AddOverflow s a b (a + b + c)) =
      of_bool (sint a + sint b + uint c < - (2 ^ 31) \<or> 2 ^ 31 \<le> sint a + sint b + uint c)"
    unfolding flags using rng by auto
  show "CFlag (ARMul_SubCarry s a b (a - b - c)) = of_bool (uint b + uint c \<le> uint a)"
    unfolding flags using rng by auto
  show "VFlag (ARMul_SubOverflow s a b (a - b - c)) =
      of_bool (sint a - sint b - uint c < - (2 ^ 31) \<or> 2 ^ 31 \<le> sint a - sint b - uint c)"
    unfolding flags using rng by auto
qed

section \<open>The well-formedness invariant of the processor\<close>

text \<open>
  Every flag field is a bit, the interrupt field has two bits, the mode fits its field, and the
  current bank is the bank of the current mode.
\<close>

definition cpu_ok :: "'io ARMul_State \<Rightarrow> bool" where
  "cpu_ok s \<longleftrightarrow> NFlag s \<le> 1 \<and> ZFlag s \<le> 1 \<and> CFlag s \<le> 1 \<and> VFlag s \<le> 1 \<and> SFlag s \<le> 1
     \<and> TFlag s \<le> 1 \<and> IFFlags s \<le> 3 \<and> Mode s < 32 \<and> bank_ok s"

lemma word_le_1_bit: "(w :: ARMword) \<le> 1 \<Longrightarrow> 0 < n \<Longrightarrow> \<not> bit w n"
proof -
  assume "w \<le> 1" "0 < n"
  then have "w = 0 \<or> w = 1" by (metis le_less word_less_1)
  then show ?thesis using \<open>0 < n\<close> by (auto simp: bit_1_iff)
qed

lemma word_less_2p_bit:
  assumes "(w :: ARMword) < 2 ^ k" "k \<le> n" "k < 32"
  shows "\<not> bit w n"
proof -
  have "w AND mask k = w" using assms by (intro less_mask_eq) auto
  then have "bit w n = bit (w AND mask k) n" by simp
  then show ?thesis using assms by (simp add: bit_simps)
qed

lemma word_le_3_bit: "(w :: ARMword) \<le> 3 \<Longrightarrow> 2 \<le> n \<Longrightarrow> \<not> bit w n"
  by (rule word_less_2p_bit [of w 2]) (auto simp: word_le_nat_alt word_less_nat_alt)

lemma word_lt_32_bit: "(w :: ARMword) < 32 \<Longrightarrow> 5 \<le> n \<Longrightarrow> \<not> bit w n"
  by (rule word_less_2p_bit [of w 5]) auto

lemma cpu_ok_bits:
  assumes "cpu_ok s"
  shows "0 < n \<Longrightarrow> \<not> bit (NFlag s) n" "0 < n \<Longrightarrow> \<not> bit (ZFlag s) n" "0 < n \<Longrightarrow> \<not> bit (CFlag s) n"
    "0 < n \<Longrightarrow> \<not> bit (VFlag s) n" "0 < n \<Longrightarrow> \<not> bit (SFlag s) n" "0 < n \<Longrightarrow> \<not> bit (TFlag s) n"
    "2 \<le> n \<Longrightarrow> \<not> bit (IFFlags s) n" "5 \<le> n \<Longrightarrow> \<not> bit (Mode s) n"
  using assms by (auto simp: cpu_ok_def dest: word_le_1_bit word_le_3_bit word_lt_32_bit)

lemmas CPSR_defs = CPSR_def ECC_def EINT_def

lemma CPSR_mode: "cpu_ok s \<Longrightarrow> CPSR s AND MODEBITS = Mode s"
  by (rule word32_eqI, simp only: all_less_32_iff CPSR_defs, simp add: bit_simps bit_high_False cpu_ok_bits)

lemma CPSR_kept: "cpu_ok s \<Longrightarrow> CPSR s AND 0xF80000FF = CPSR s"
  by (rule word32_eqI, simp only: all_less_32_iff CPSR_defs, simp add: bit_simps bit_high_False cpu_ok_bits)

lemma CPSR_clear_mode: "cpu_ok s \<Longrightarrow> CPSR s AND NOT (Mode s OR TBIT) = CPSR s AND 0xF80000C0"
  by (rule word32_eqI, simp only: all_less_32_iff CPSR_defs, simp add: bit_simps bit_high_False cpu_ok_bits)

lemma CPSRAltered_cpu_ok:
  assumes "cpu_ok s" "prog32Sig s \<noteq> 0" "Mode s > 3" "Cpsr s AND MODEBITS > 3"
  shows "cpu_ok (ARMul_CPSRAltered s)"
proof -
  have "Cpsr s AND 0x1f < 32" by (rule le_less_trans [OF word_and_le1]) simp
  moreover have "drop_bit 6 (Cpsr s AND 0xc0) AND 3 \<le> 3" by (rule word_and_le1)
  moreover have "bank_ok (ARMul_CPSRAltered s)"
    using assms by (simp add: CPSRAltered_bank_ok cpu_ok_def)
  ultimately show ?thesis using assms
    by (simp add: cpu_ok_def CPSRAltered_32) (simp add: cpsr_assign_flags_def)
qed


section \<open>Exception entry: facts\<close>

lemma SetSPSR_simps [simp]:
  "Reg (ARMul_SetSPSR s m v) = Reg s" "RegBank (ARMul_SetSPSR s m v) = RegBank s"
  "Bank (ARMul_SetSPSR s m v) = Bank s" "Mode (ARMul_SetSPSR s m v) = Mode s"
  "prog32Sig (ARMul_SetSPSR s m v) = prog32Sig s" "CPSR (ARMul_SetSPSR s m v) = CPSR s"
  "mmu (ARMul_SetSPSR s m v) = mmu s" "mem (ARMul_SetSPSR s m v) = mem s"
  "vector_remap_flag (ARMul_SetSPSR s m v) = vector_remap_flag s"
  "vector_remap_addr (ARMul_SetSPSR s m v) = vector_remap_addr s"
  "NextInstr (ARMul_SetSPSR s m v) = NextInstr s" "TFlag (ARMul_SetSPSR s m v) = TFlag s"
  "cpu_ok (ARMul_SetSPSR s m v) = cpu_ok s"
  by (simp_all add: ARMul_SetSPSR_def Let_def CPSR_defs cpu_ok_def bank_ok_def)

lemma physreg_updates [simp]:
  "physreg (set_reg 14 v s) b r = (if r = 14 \<and> b = Bank s then v else physreg s b r)"
  "physreg (set_reg 15 v s) b r = (if r = 15 then v else physreg s b r)"
  "physreg (cpsr_assign_flags s) b r = physreg s b r"
  "physreg (FLUSHPIPE s) b r = physreg s b r"
  by (simp_all add: physreg_def FLUSHPIPE_def)

text \<open>The modes an exception enters in a 32-bit configuration.\<close>

definition exc_modes :: "ARMword set" where
  "exc_modes = {FIQ32MODE, IRQ32MODE, SVC32MODE, ABORT32MODE, UNDEF32MODE}"

lemma exc_modes_facts:
  assumes "m \<in> exc_modes"
  shows "m AND MODEBITS = m" "3 < m" "m < 32" "ModeToBank m \<noteq> DUMMYBANK" "ModeToBank m \<noteq> USERBANK"
    "m AND 0xF80000FF = m" "\<not> bit m 5"
  using assms by (auto simp: exc_modes_def)

lemma SPSR_set_exc: "m \<in> exc_modes \<Longrightarrow> ARMul_SetSPSR s m v = s\<lparr>Spsr := (Spsr s)(ModeToBank m := v)\<rparr>"
  by (simp add: ARMul_SetSPSR_def Let_def exc_modes_facts BANK_CAN_ACCESS_SPSR_def)

text \<open>The CPSR that an exception entry writes.\<close>

definition exc_cpsr :: "ARMword \<Rightarrow> ARMword \<Rightarrow> 'io ARMul_State \<Rightarrow> ARMword" where
  "exc_cpsr i m s = (CPSR s AND 0xF80000C0) OR i OR m"

lemma exc_cpsr_facts:
  assumes "m \<in> exc_modes" "i AND INTBITS = i"
  shows "exc_cpsr i m s AND MODEBITS = m" "exc_cpsr i m s AND 0xF80000FF = exc_cpsr i m s"
proof -
  have "(c AND 0xF80000C0 OR (i AND 0xc0) OR m) AND 0x1f = m AND 0x1f" for c :: ARMword
    by (rule word32_eqI, simp only: all_less_32_iff, simp add: bit_simps)
  from this [of "CPSR s"] show "exc_cpsr i m s AND MODEBITS = m"
    using assms by (simp add: exc_cpsr_def exc_modes_facts)
  have "(c AND 0xF80000C0 OR (i AND 0xc0) OR (m AND 0xF80000FF)) AND 0xF80000FF
      = (c AND 0xF80000C0 OR (i AND 0xc0) OR (m AND 0xF80000FF))" for c :: ARMword
    by (rule word32_eqI, simp only: all_less_32_iff, simp add: bit_simps)
  from this [of "CPSR s"] show "exc_cpsr i m s AND 0xF80000FF = exc_cpsr i m s"
    using assms by (simp only: exc_cpsr_def exc_modes_facts)
qed

definition exc_pre :: "'io ARMul_State \<Rightarrow> bool" where
  "exc_pre s \<longleftrightarrow> cpu_ok s \<and> prog32Sig s \<noteq> 0 \<and> 3 < Mode s \<and> ModeToBank (Mode s) \<noteq> DUMMYBANK"

lemma SETABORT_32:
  fixes temp d :: ARMword
  assumes pre: "exc_pre s" and tab: "m \<in> exc_modes" "i AND INTBITS = i"
  defines "t \<equiv> SETABORT i m d temp s"
  shows "Mode t = m" "CPSR t = exc_cpsr i m s" "cpu_ok t" "prog32Sig t = prog32Sig s"
    "Spsr t = (Spsr s)(ModeToBank m := CPSR s)"
    "physreg t b r = (if r = 14 \<and> b = ModeToBank m then temp - d else physreg s b r)"
    "mmu t = mmu s" "mem t = mem s" "vector_remap_flag t = vector_remap_flag s"
    "vector_remap_addr t = vector_remap_addr s" "NextInstr t = NextInstr s"
    "Reg t 15 = Reg s 15"
proof -
  let ?u = "s\<lparr>Spsr := (Spsr s)(ModeToBank m := CPSR s), Cpsr := exc_cpsr i m s\<rparr>"
  have ok: "cpu_ok s" "prog32Sig s \<noteq> 0" "3 < Mode s" "ModeToBank (Mode s) \<noteq> DUMMYBANK"
    using pre by (auto simp: exc_pre_def)
  have t: "t = set_reg 14 (temp - d) (ARMul_CPSRAltered ?u)"
    unfolding t_def SETABORT_def Let_def ARMul_GetCPSR_def ARMul_SetCPSR_def SetSPSR_simps
      CPSR_clear_mode [OF ok(1)] exc_cpsr_def by (simp only: SPSR_set_exc [OF tab(1)])
  have u: "ARMul_CPSRAltered ?u = cpsr_assign_flags (cpsr_switch_mode ?u)"
    using ok tab by (intro CPSRAltered_32) (simp_all add: exc_cpsr_facts exc_modes_facts)
  have cu: "cpu_ok ?u" using ok by (simp add: cpu_ok_def bank_ok_def)
  show "Mode t = m" "prog32Sig t = prog32Sig s" "mmu t = mmu s" "mem t = mem s"
    "vector_remap_flag t = vector_remap_flag s"
    "vector_remap_addr t = vector_remap_addr s" "NextInstr t = NextInstr s"
    "Spsr t = (Spsr s)(ModeToBank m := CPSR s)"
    using tab by (simp_all add: t u exc_cpsr_facts)
  show "CPSR t = exc_cpsr i m s"
    using ok tab by (simp add: t CPSRAltered_CPSR exc_cpsr_facts)
  show "cpu_ok t"
    using CPSRAltered_cpu_ok [OF cu] ok tab
    by (simp add: t exc_cpsr_facts exc_modes_facts cpu_ok_def bank_ok_def)
  show "Reg t 15 = Reg s 15"
    using ok by (simp add: t u cpsr_switch_mode_def Let_def)
  have bank: "Bank (cpsr_switch_mode ?u) = ModeToBank m"
    using cu tab by (simp add: cpsr_switch_mode_Bank cpu_ok_def exc_cpsr_facts)
  have "physreg (cpsr_switch_mode ?u) b r = physreg ?u b r"
    using cu ok tab
    by (intro cpsr_switch_mode_physreg) (simp_all add: cpu_ok_def exc_cpsr_facts exc_modes_facts)
  also have "\<dots> = physreg s b r" by (simp add: physreg_def)
  finally have "physreg (cpsr_switch_mode ?u) b r = physreg s b r" .
  then show "physreg t b r = (if r = 14 \<and> b = ModeToBank m then temp - d else physreg s b r)"
    using bank by (simp add: t u)
qed


text \<open>
  What the architecture prescribes per vector: the mode entered, the interrupt bits set, and what
  is subtracted from the pipelined PC to get the link register, in ARM and in Thumb state.
\<close>

definition exc_table :: "(ARMword \<times> ARMword \<times> ARMword \<times> ARMword \<times> ARMword) list" where
  "exc_table =
     [(ARMul_ResetV, SVC32MODE, INTBITS, 0, 0), (ARMul_UndefinedInstrV, UNDEF32MODE, IBIT, 4, 2),
      (ARMul_SWIV, SVC32MODE, IBIT, 4, 2), (ARMul_PrefetchAbortV, ABORT32MODE, IBIT, 4, 0),
      (ARMul_DataAbortV, ABORT32MODE, IBIT, 0, - 4), (ARMul_IRQV, IRQ32MODE, IBIT, 4, 0),
      (ARMul_FIQV, FIQ32MODE, INTBITS, 4, 0)]"

definition handler_address :: "'io ARMul_State \<Rightarrow> ARMword \<Rightarrow> ARMword" where
  "handler_address s vec =
     (vec + (if bit (control (mmu s)) 13 then 0xffff0000 else 0)
          + (if vector_remap_flag s \<noteq> 0 then vector_remap_addr s else 0)) AND 0xfffffffc"

lemma exc_table_facts:
  "(vec, m, i, da, dt) \<in> set exc_table \<Longrightarrow> m \<in> exc_modes \<and> i AND INTBITS = i"
  by (auto simp: exc_table_def exc_modes_def)

lemma exc_pre_updates [simp]:
  "exc_pre (s\<lparr>Aborted := x\<rparr>) = exc_pre s" "exc_pre (s\<lparr>AbortAddr := x\<rparr>) = exc_pre s"
  "CPSR (s\<lparr>Aborted := x\<rparr>) = CPSR s" "CPSR (s\<lparr>AbortAddr := x\<rparr>) = CPSR s"
  "physreg (s\<lparr>Aborted := x\<rparr>) b r = physreg s b r"
  "physreg (s\<lparr>AbortAddr := x\<rparr>) b r = physreg s b r"
  by (simp_all add: exc_pre_def cpu_ok_def bank_ok_def CPSR_defs physreg_def)

lemma abort_switch_table:
  assumes "(vec, m, i, da, dt) \<in> set exc_table" "prog32Sig s \<noteq> 0"
  shows "\<exists>x. abort_switch vec temp s =
    SETABORT i m (if TFlag s \<noteq> 0 then dt else da) temp (s\<lparr>AbortAddr := x\<rparr>)"
proof (cases "vec = ARMul_PrefetchAbortV")
  case True
  with assms have "abort_switch vec temp s =
    SETABORT i m (if TFlag s \<noteq> 0 then dt else da) temp (s\<lparr>AbortAddr := 1\<rparr>)"
    by (auto simp: exc_table_def abort_switch_def)
  then show ?thesis by blast
next
  case False
  with assms have "abort_switch vec temp s =
    SETABORT i m (if TFlag s \<noteq> 0 then dt else da) temp (s\<lparr>AbortAddr := AbortAddr s\<rparr>)"
    by (auto simp: exc_table_def abort_switch_def INSN_SIZE_def)
  then show ?thesis by blast
qed

lemma control_vector_bit: "(c :: ARMword) AND 0x2000 = 0 \<longleftrightarrow> \<not> bit c 13"
  using and_exp_eq_0_iff_not_bit [of c 13] by simp

lemma exc_cpsr_cong: "CPSR s = CPSR t \<Longrightarrow> exc_cpsr i m s = exc_cpsr i m t"
  by (simp add: exc_cpsr_def)

lemma Abort_entry_facts:
  assumes "exc_pre s" "(vec, m, i, da, dt) \<in> set exc_table"
  defines "t \<equiv> ARMul_Abort s vec"
  shows "Mode t = m" "CPSR t = exc_cpsr i m s" "cpu_ok t"
    "Spsr t = (Spsr s)(ModeToBank m := CPSR s)"
    "physreg t b r =
      (if r = 15 then handler_address s vec
       else if r = 14 \<and> b = ModeToBank m then Reg s 15 - (if TFlag s \<noteq> 0 then dt else da)
       else physreg s b r)"
    "NextInstr t = NextInstr s OR PRIMEPIPE" "mem t = mem s" "mmu t = mmu s" "prog32Sig t = prog32Sig s"
proof -
  let ?s = "s\<lparr>Aborted := 0\<rparr>"
  have ok: "exc_pre ?s" "prog32Sig ?s \<noteq> 0" "3 < Mode s" using assms(1) by (auto simp: exc_pre_def cpu_ok_def bank_ok_def)
  have tab: "m \<in> exc_modes" "i AND INTBITS = i" using exc_table_facts [OF assms(2)] by auto
  obtain d where d: "d = (if TFlag s \<noteq> 0 then dt else da)" by simp
  obtain x where ab: "abort_switch vec (Reg s 15) ?s = SETABORT i m d (Reg s 15) (?s\<lparr>AbortAddr := x\<rparr>)"
    using abort_switch_table [OF assms(2) ok(2), of "Reg s 15"] d by auto
  let ?u = "SETABORT i m d (Reg s 15) (?s\<lparr>AbortAddr := x\<rparr>)"
  have pre: "exc_pre (?s\<lparr>AbortAddr := x\<rparr>)" using ok by simp
  note u = SETABORT_32 [OF pre tab, of d "Reg s 15"]
  have t: "t = FLUSHPIPE (set_reg 15 (handler_address s vec) ?u)"
    using ok tab u exc_modes_facts [OF tab(1)]
    by (simp add: t_def ARMul_Abort_def Let_def ARMul_OSException_def ab ARMul_SetR15_def
        handler_address_def control_vector_bit not_le add.assoc)
  show "Mode t = m" "Spsr t = (Spsr s)(ModeToBank m := CPSR s)"
    "NextInstr t = NextInstr s OR PRIMEPIPE" "mem t = mem s" "mmu t = mmu s" "prog32Sig t = prog32Sig s"
    using u by (simp_all add: t FLUSHPIPE_def)
  show "CPSR t = exc_cpsr i m s"
    using u(2) by (simp add: t FLUSHPIPE_def CPSR_defs exc_cpsr_def)
  show "cpu_ok t" using u(3) by (simp add: t FLUSHPIPE_def cpu_ok_def bank_ok_def)
  show "physreg t b r =
      (if r = 15 then handler_address s vec
       else if r = 14 \<and> b = ModeToBank m then Reg s 15 - (if TFlag s \<noteq> 0 then dt else da)
       else physreg s b r)"
    using u(6) by (simp add: t flip: d)
qed

section \<open>A concrete processor\<close>

text \<open>The state after creation and reset, on which the witnesses evaluate.\<close>

definition boot_state :: "unit ARMul_State" where
  "boot_state = ARMul_Reset_cpu (ARMul_NewState mem_zero ())"

lemma boot_state_simps [simp]:
  "Mode boot_state = SVC32MODE" "Bank boot_state = SVCBANK" "prog32Sig boot_state = 1"
  "TFlag boot_state = 0" "CPSR boot_state = 0xD3" "Reg boot_state r = 0" "cpu_ok boot_state"
  "exc_pre boot_state" "EventSet boot_state = 0" "EventPtr boot_state i = []"
  "NFlag boot_state = 0" "ZFlag boot_state = 0" "CFlag boot_state = 0" "VFlag boot_state = 0"
  "SFlag boot_state = 0" "IFFlags boot_state = 3" "NresetSig boot_state = 1"
  "NumScycles boot_state = 0" "NumNcycles boot_state = 0" "NumIcycles boot_state = 0"
  "NumCcycles boot_state = 0" "NumFcycles boot_state = 0" "mem boot_state = mem_zero"
  "mmu boot_state = mmu_zero" "RegBank boot_state b r = 0" "Spsr boot_state b = 0"
  "bigendSig boot_state = 0" "vector_remap_flag boot_state = 0" "lateabtSig boot_state = 1" "Aborted boot_state = 0"
  by (simp_all add: boot_state_def ARMul_Reset_cpu_def ARMul_NewState_def Let_def
      ARMul_CPSRAltered_def cpsr_switch_mode_def cpsr_assign_flags_def ASSIGNINT_def FLUSHPIPE_def
      set_reg_def CPSR_defs cpu_ok_def bank_ok_def exc_pre_def)

section \<open>Status register writes: facts\<close>

lemma SetCPSR_32:
  assumes "exc_pre s" "3 < v AND MODEBITS" "ModeToBank (v AND MODEBITS) \<noteq> DUMMYBANK"
  shows "physreg (ARMul_SetCPSR s v) b r = physreg s b r" "cpu_ok (ARMul_SetCPSR s v)"
    "CPSR (ARMul_SetCPSR s v) = v AND 0xF80000FF" "Mode (ARMul_SetCPSR s v) = v AND MODEBITS"
    "Spsr (ARMul_SetCPSR s v) = Spsr s"
proof -
  let ?u = "s\<lparr>Cpsr := v\<rparr>"
  have ok: "cpu_ok ?u" "prog32Sig s \<noteq> 0" "3 < Mode s" "ModeToBank (Mode s) \<noteq> DUMMYBANK"
    using assms by (auto simp: exc_pre_def cpu_ok_def bank_ok_def)
  have u: "ARMul_SetCPSR s v = cpsr_assign_flags (cpsr_switch_mode ?u)"
    unfolding ARMul_SetCPSR_def using ok assms by (intro CPSRAltered_32) simp_all
  have "physreg (cpsr_switch_mode ?u) b r = physreg ?u b r"
    using ok assms by (intro cpsr_switch_mode_physreg) (simp_all add: cpu_ok_def)
  also have "\<dots> = physreg s b r" by (simp add: physreg_def)
  finally show "physreg (ARMul_SetCPSR s v) b r = physreg s b r"
    by (simp add: u)
  show "cpu_ok (ARMul_SetCPSR s v)"
    unfolding ARMul_SetCPSR_def using ok assms by (intro CPSRAltered_cpu_ok) simp_all
  show "CPSR (ARMul_SetCPSR s v) = v AND 0xF80000FF" "Mode (ARMul_SetCPSR s v) = v AND MODEBITS"
    "Spsr (ARMul_SetCPSR s v) = Spsr s"
    using ok by (simp_all add: u CPSR_of_flags word_and_or_mode)
qed

lemma FixCPSR_SetCPSR:
  "ARMul_FixCPSR s instr rhs = ARMul_SetCPSR s (msr_f instr rhs
     (if Mode s \<noteq> USER26MODE \<and> Mode s \<noteq> USER32MODE then msr_cxs instr rhs (CPSR s) else CPSR s))"
  by (simp add: ARMul_FixCPSR_def ARMul_SetCPSR_def ARMul_GetCPSR_def Let_def)

lemma msr_f_low: "msr_f instr rhs c AND 0xFF = c AND 0xFF"
  by (rule word32_eqI, simp only: all_less_32_iff msr_f_def SETPSR_def, simp add: bit_simps)

lemma msr_f_mode: "msr_f instr rhs c AND MODEBITS = c AND MODEBITS"
  by (rule word32_eqI, simp only: all_less_32_iff msr_f_def SETPSR_def, simp add: bit_simps)

section \<open>Register lists and alignment: facts\<close>

lemma nth_reg_loop_spec:
  assumes "b \<le> 32" "up \<le> number"
  shows "nth_reg_loop instr number b up =
    (let l = filter (bit instr) [b..<32]
     in if number - up < length l then Some (l ! (number - up)) else None)"
  using assms
proof (induction "32 - b" arbitrary: b up)
  case 0
  then show ?case by (subst nth_reg_loop.simps) simp
next
  case (Suc n)
  then have b: "b < 32" by simp
  have l: "filter (bit instr) [b..<32] =
      (if bit instr b then b # filter (bit instr) [Suc b..<32] else filter (bit instr) [Suc b..<32])"
    using b by (subst upt_conv_Cons) auto
  show ?case
  proof (cases "bit instr b \<and> up = number")
    case True
    then show ?thesis using b l by (subst nth_reg_loop.simps, subst nth_reg_loop.simps) simp
  next
    case False
    define up' where "up' = (if bit instr b then Suc up else up)"
    have "up' \<le> number" using False Suc.prems by (auto simp: up'_def)
    then have IH: "nth_reg_loop instr number (Suc b) up' =
      (let l = filter (bit instr) [Suc b..<32]
       in if number - up' < length l then Some (l ! (number - up')) else None)"
      using Suc b by (intro Suc.hyps(1)) auto
    have "nth_reg_loop instr number b up = nth_reg_loop instr number (Suc b) up'"
      using b Suc.prems by (subst nth_reg_loop.simps) (simp add: up'_def)
    then show ?thesis using IH l False Suc.prems
      by (auto simp: up'_def Let_def nth_Cons' Suc_diff_le)
  qed
qed

lemma Align_word_rotr:
  "ARMul_Align address data = word_rotr (8 * (unat address mod 4)) data"
proof -
  have "address AND 3 = take_bit 2 address" by (simp add: take_bit_eq_mask mask_eq_exp_minus_1)
  then have u: "unat (address AND 3) = unat address mod 4"
    by (simp only: unsigned_take_bit_eq) (simp add: take_bit_eq_mod)
  have "unat address mod 4 < 4" by simp
  then have "unat address mod 4 = 0 \<or> unat address mod 4 = 1 \<or> unat address mod 4 = 2
      \<or> unat address mod 4 = 3" by linarith
  then show ?thesis
  proof (elim disjE)
    assume m: "unat address mod 4 = 0"
    then have "address AND 3 = 0" using u by (simp add: unat_eq_0)
    then show ?thesis using m unfolding ARMul_Align_def
      by (intro word32_eqI, simp only: all_less_32_iff) (simp add: bit_word_rotr_iff bit_simps bit_high_False)
  next
    assume m: "unat address mod 4 = 1"
    then have "address AND 3 = 1" using u by (metis unsigned_1 word_unat_eq_iff)
    then show ?thesis using m unfolding ARMul_Align_def
      by (intro word32_eqI, simp only: all_less_32_iff) (simp add: bit_word_rotr_iff bit_simps bit_high_False)
  next
    assume m: "unat address mod 4 = 2"
    then have "address AND 3 = 2" using u by (simp add: word_unat_eq_iff)
    then show ?thesis using m unfolding ARMul_Align_def
      by (intro word32_eqI, simp only: all_less_32_iff) (simp add: bit_word_rotr_iff bit_simps bit_high_False)
  next
    assume m: "unat address mod 4 = 3"
    then have "address AND 3 = 3" using u by (simp add: word_unat_eq_iff)
    then show ?thesis using m unfolding ARMul_Align_def
      by (intro word32_eqI, simp only: all_less_32_iff) (simp add: bit_word_rotr_iff bit_simps bit_high_False)
  qed
qed


section \<open>Interrupt masks: facts\<close>

lemma FFLAG_0_iff: "FFLAG s = 0 \<longleftrightarrow> \<not> bit (IFFlags s) 0"
  by (simp add: FFLAG_def and_one_eq mod_2_eq_odd bit_0)

lemma IFLAG_nonzero: "bit (IFFlags s) 1 \<Longrightarrow> IFLAG s \<noteq> 0"
proof
  assume "bit (IFFlags s) 1" "IFLAG s = 0"
  then have "bit (drop_bit 1 (IFFlags s)) 0" by (simp only: bit_drop_bit_eq) simp
  with \<open>IFLAG s = 0\<close> show False by (simp add: IFLAG_def)
qed

lemma NresetSig_frame [simp]:
  "NresetSig (set_reg i v s) = NresetSig s"
  "NresetSig (FLUSHPIPE s) = NresetSig s"
  "NresetSig (ARMul_SwitchMode s a b) = NresetSig s"
  "NresetSig (ARMul_SetSPSR s m v) = NresetSig s"
  by (simp_all add: set_reg_def FLUSHPIPE_def switch_defs ARMul_SetSPSR_def)

lemma NresetSig_CPSR [simp]:
  "NresetSig (ARMul_R15Altered s) = NresetSig s"
  "NresetSig (ARMul_SetCPSR s v) = NresetSig s"
  by (simp_all add: ARMul_R15Altered_def ARMul_SetCPSR_def ARMul_CPSRAltered_def cpsr_switch_mode_def
      cpsr_assign_flags_def Let_def)

lemma NresetSig_Abort [simp]: "NresetSig (ARMul_Abort s vec) = NresetSig s"
  by (simp add: ARMul_Abort_def Let_def abort_switch_def SETABORT_def ARMul_SetR15_def)

section \<open>Events: facts\<close>

lemma envoke_idle: "\<forall>i\<in>set is. EventPtr s i = [] \<Longrightarrow> fold (envoke_slot ev) is s = s"
proof (induction "is")
  case (Cons i "is")
  then have "(EventPtr s)(i := []) = EventPtr s" by auto
  then have "envoke_slot ev i s = s" using Cons.prems by (simp add: envoke_slot_def)
  then show ?case using Cons by simp
qed simp

section \<open>The claims on the support routines\<close>

text \<open>
  A value written to the CPSR of a 32-bit configuration is read back by \<^verbatim>\<open>ARMul_GetCPSR\<close>, but
  for the bits 8 to 26 that the simulator does not keep.
\<close>

lemma SetCPSR_GetCPSR:
  assumes "prog32Sig s \<noteq> 0"
  shows "ARMul_GetCPSR (ARMul_SetCPSR s v) = v AND 0xF80000FF"
  using assms by (simp add: ARMul_GetCPSR_def ARMul_SetCPSR_def CPSRAltered_CPSR)

lemma SetCPSR_GetCPSR_witness:
  "ARMul_GetCPSR (ARMul_SetCPSR boot_state 0x60000010) = 0x60000010 AND 0xF80000FF"
  by (rule SetCPSR_GetCPSR) simp

text \<open>
  C2: the bank switch keeps every architectural register: whatever bank a register belongs to,
  its value as seen from any mode is the same before and after \<^verbatim>\<open>ARMul_SwitchMode\<close>.
\<close>

theorem SwitchMode_preserves_registers:
  assumes "ModeToBank oldmode = Bank s" "Bank s \<noteq> DUMMYBANK" "ModeToBank newmode \<noteq> DUMMYBANK"
  shows "Bank (ARMul_SwitchMode s oldmode newmode) = ModeToBank newmode
    \<and> physreg (ARMul_SwitchMode s oldmode newmode) b r = physreg s b r"
  using SwitchMode_physreg [OF assms] by simp

theorem SwitchMode_preserves_registers_witness:
  "Bank (ARMul_SwitchMode boot_state SVC32MODE FIQ32MODE) = ModeToBank FIQ32MODE
    \<and> physreg (ARMul_SwitchMode boot_state SVC32MODE FIQ32MODE) SVCBANK 13
      = physreg boot_state SVCBANK 13"
  by (rule SwitchMode_preserves_registers) simp_all

text \<open>
  The flags of an addition with carry-in \<open>c\<close>: C is the carry out of the unsigned sum and V
  says that the signed sum does not fit in 32 bits.
\<close>

lemma add_flags_correct:
  assumes "c \<le> (1 :: ARMword)"
  shows "CFlag (ARMul_AddCarry s a b (a + b + c)) = of_bool (2 ^ 32 \<le> uint a + uint b + uint c)
    \<and> VFlag (ARMul_AddOverflow s a b (a + b + c)) =
      of_bool (sint a + sint b + uint c < - (2 ^ 31) \<or> 2 ^ 31 \<le> sint a + sint b + uint c)"
  using carry_flags [OF assms] by blast

text \<open>
  The flags of a subtraction with borrow-in \<open>c\<close>: C is set exactly when there is no borrow and
  V says that the signed difference does not fit in 32 bits.
\<close>

lemma sub_flags_correct:
  assumes "c \<le> (1 :: ARMword)"
  shows "CFlag (ARMul_SubCarry s a b (a - b - c)) = of_bool (uint b + uint c \<le> uint a)
    \<and> VFlag (ARMul_SubOverflow s a b (a - b - c)) =
      of_bool (sint a - sint b - uint c < - (2 ^ 31) \<or> 2 ^ 31 \<le> sint a - sint b - uint c)"
  using carry_flags [OF assms] by blast

text \<open>
  C3: an MSR executed in user mode cannot raise its privilege: mode, interrupt masks and the Thumb
  bit keep their values, and no register of any bank changes.
\<close>

theorem FixCPSR_user_mode_safe:
  assumes "cpu_ok s" "prog32Sig s \<noteq> 0" "Mode s = USER32MODE"
  shows "ARMul_GetCPSR (ARMul_FixCPSR s instr rhs) AND 0xFF = ARMul_GetCPSR s AND 0xFF
    \<and> Mode (ARMul_FixCPSR s instr rhs) = USER32MODE
    \<and> physreg (ARMul_FixCPSR s instr rhs) b r = physreg s b r"
proof -
  let ?v = "msr_f instr rhs (CPSR s)"
  have pre: "exc_pre s" using assms by (simp add: exc_pre_def)
  have m: "?v AND MODEBITS = 16" using assms by (simp add: msr_f_mode CPSR_mode)
  have fx: "ARMul_FixCPSR s instr rhs = ARMul_SetCPSR s ?v" using assms by (simp add: FixCPSR_SetCPSR)
  have "(v AND 0xF80000FF) AND 0xFF = v AND 0xFF" for v :: ARMword
    by (rule word32_eqI, simp only: all_less_32_iff) (simp add: bit_simps)
  then show ?thesis
    unfolding fx using SetCPSR_32 [OF pre, of ?v] m by (simp add: ARMul_GetCPSR_def msr_f_low)
qed

theorem FixCPSR_user_mode_safe_witness:
  "ARMul_GetCPSR (ARMul_FixCPSR (ARMul_SetCPSR boot_state 0x10) 0xF0000 0xFFFFFFDF) AND 0xFF
      = ARMul_GetCPSR (ARMul_SetCPSR boot_state 0x10) AND 0xFF
    \<and> Mode (ARMul_FixCPSR (ARMul_SetCPSR boot_state 0x10) 0xF0000 0xFFFFFFDF) = USER32MODE
    \<and> physreg (ARMul_FixCPSR (ARMul_SetCPSR boot_state 0x10) 0xF0000 0xFFFFFFDF) SVCBANK 13
      = physreg (ARMul_SetCPSR boot_state 0x10) SVCBANK 13"
  by (rule FixCPSR_user_mode_safe)
    (simp_all add: SetCPSR_32, simp add: ARMul_SetCPSR_def CPSRAltered_32)

text \<open>
  C1: exception entry. For every vector of the table, \<^verbatim>\<open>ARMul_Abort\<close> enters the vector's mode with
  its interrupts masked, saves the old CPSR in that mode's SPSR, puts the return address in that
  mode's R14 and the handler address in the PC, and keeps every other register of every bank.
\<close>

theorem Abort_entry:
  assumes "exc_pre s" "(vec, m, i, da, dt) \<in> set exc_table"
  shows "Mode (ARMul_Abort s vec) = m
    \<and> ARMul_GetCPSR (ARMul_Abort s vec) = (ARMul_GetCPSR s AND 0xF80000C0) OR i OR m
    \<and> Spsr (ARMul_Abort s vec) = (Spsr s)(ModeToBank m := ARMul_GetCPSR s)
    \<and> physreg (ARMul_Abort s vec) b r =
      (if r = 15 then handler_address s vec
       else if r = 14 \<and> b = ModeToBank m then Reg s 15 - (if TFlag s \<noteq> 0 then dt else da)
       else physreg s b r)
    \<and> cpu_ok (ARMul_Abort s vec)"
  using Abort_entry_facts [OF assms] by (simp add: ARMul_GetCPSR_def exc_cpsr_def)

theorem Abort_entry_witness:
  "Mode (ARMul_Abort boot_state ARMul_IRQV) = IRQ32MODE
    \<and> ARMul_GetCPSR (ARMul_Abort boot_state ARMul_IRQV)
      = (ARMul_GetCPSR boot_state AND 0xF80000C0) OR IBIT OR IRQ32MODE
    \<and> Spsr (ARMul_Abort boot_state ARMul_IRQV)
      = (Spsr boot_state)(ModeToBank IRQ32MODE := ARMul_GetCPSR boot_state)
    \<and> physreg (ARMul_Abort boot_state ARMul_IRQV) IRQBANK 14 =
      (if (14 :: nat) = 15 then handler_address boot_state ARMul_IRQV
       else if (14 :: nat) = 14 \<and> IRQBANK = ModeToBank IRQ32MODE
       then Reg boot_state 15 - (if TFlag boot_state \<noteq> 0 then 0 else 4)
       else physreg boot_state IRQBANK 14)
    \<and> cpu_ok (ARMul_Abort boot_state ARMul_IRQV)"
  by (rule Abort_entry) (simp_all add: exc_table_def)

text \<open>
  \<^verbatim>\<open>ARMul_NthReg\<close> returns the number of the register that is in position \<open>number\<close> of the
  register list of an LDM or STM, counted from 0.
\<close>

lemma NthReg_spec:
  "ARMul_NthReg instr number =
    (let l = filter (bit instr) [0..<32]
     in if number < length l then Some (l ! number) else None)"
  using nth_reg_loop_spec [of 0 0 number instr] unfolding ARMul_NthReg_def diff_zero by simp

text \<open>
  \<^verbatim>\<open>ARMul_Align\<close> rotates the loaded word right by eight times the two low bits of the address.
\<close>

lemma Align_rotates: "ARMul_Align address data = word_rotr (8 * (unat address mod 4)) data"
  by (rule Align_word_rotr)

text \<open>
  An interrupt masks itself. When a fast interrupt is taken, no further interrupt is pending in
  the state it enters, whatever the two interrupt lines say.
\<close>

lemma IntPending_fiq_masks:
  assumes "exc_pre s" "NresetSig s \<noteq> 0" "NfiqSig s = 0" "\<not> bit (IFFlags s) 0"
  shows "IntPending s = (True, ARMul_Abort s ARMul_FIQV)
    \<and> IntPending (ARMul_Abort s ARMul_FIQV) = (False, ARMul_Abort s ARMul_FIQV)"
proof -
  let ?t = "ARMul_Abort s ARMul_FIQV"
  have tab: "(ARMul_FIQV, FIQ32MODE, INTBITS, 4, 0) \<in> set exc_table" by (simp add: exc_table_def)
  note t = Abort_entry_facts [OF assms(1) tab]
  have ok: "cpu_ok ?t" and c: "CPSR ?t = exc_cpsr INTBITS FIQ32MODE s" using t by auto
  have "bit (CPSR ?t) 6" "bit (CPSR ?t) 7" by (simp_all add: c exc_cpsr_def bit_simps)
  then have "bit (IFFlags ?t) 0" "bit (IFFlags ?t) 1"
    using ok by (simp_all add: CPSR_defs bit_simps cpu_ok_bits)
  then have "FFLAG ?t \<noteq> 0" "IFLAG ?t \<noteq> 0" by (simp_all add: FFLAG_0_iff IFLAG_nonzero)
  then show ?thesis using assms by (simp add: IntPending_def FFLAG_0_iff)
qed

text \<open>
  An event can fire long before its delay is over. \<^verbatim>\<open>ARMul_ScheduleEvent\<close> stores the absolute
  time in \<open>Now\<close>, where \<^verbatim>\<open>ARMul_EnvokeEvent\<close> expects it modulo the ring size: an event scheduled at
  time 2000 with a delay of 60 cycles is run at time 2001.
\<close>

lemma event_fires_early:
  assumes "ARMul_Time s = 2000" "EventSet s = 0" "\<forall>i. EventPtr s i = []"
  shows "Reg (ARMul_EnvokeEvent (\<lambda>e. set_reg 0 (of_nat e))
    ((ARMul_ScheduleEvent s 60 7)\<lparr>NumScycles := NumScycles s + 1\<rparr>)) 0 = 7"
proof -
  let ?ev = "\<lambda>e. set_reg 0 (of_nat e)"
  let ?s = "(ARMul_ScheduleEvent s 60 7)\<lparr>NumScycles := NumScycles s + 1, Now := 977\<rparr>"
  have ptr: "EventPtr ?s = (\<lambda>i. if i = 12 then [7] else [])"
    using assms by (auto simp: ARMul_ScheduleEvent_def Let_def fun_eq_iff)
  have now: "Now (ARMul_ScheduleEvent s 60 7) = 2000"
    using assms by (simp add: ARMul_ScheduleEvent_def Let_def ARMul_Time_def)
  have time: "ARMul_Time ((ARMul_ScheduleEvent s 60 7)\<lparr>NumScycles := NumScycles s + 1\<rparr>) = 2001"
    using assms by (simp add: ARMul_ScheduleEvent_def Let_def ARMul_Time_def algebra_simps)
  have split: "[0..<978] = [0..<12] @ 12 # [13..<978]"
    using upt_add_eq_append [of 0 12 966] upt_conv_Cons [of 12 978] by (simp del: upt_rec_numeral)
  have "fold (envoke_slot ?ev) [0..<12] ?s = ?s" using ptr by (intro envoke_idle) auto
  moreover have "fold (envoke_slot ?ev) [13..<978] (envoke_slot ?ev 12 ?s) = envoke_slot ?ev 12 ?s"
    using ptr by (intro envoke_idle)
      (auto simp: envoke_slot_def Let_def set_reg_def simp del: upt_rec_numeral)
  moreover have "Reg (envoke_slot ?ev 12 ?s) 0 = 7"
    using ptr by (simp add: envoke_slot_def Let_def)
  ultimately show ?thesis
    using now time split by (simp add: ARMul_EnvokeEvent_def EnvokeList_def Let_def del: upt_rec_numeral)
qed

lemma event_fires_early_witness:
  "Reg (ARMul_EnvokeEvent (\<lambda>e. set_reg 0 (of_nat e))
    ((ARMul_ScheduleEvent (boot_state\<lparr>NumScycles := 2000\<rparr>) 60 7)
       \<lparr>NumScycles := NumScycles (boot_state\<lparr>NumScycles := 2000\<rparr>) + 1\<rparr>)) 0 = 7"
  by (rule event_fires_early) (simp_all add: ARMul_Time_def)


end
