(* ===== verification/Arm_Io.thy ===== *)
theory Arm_Io
  imports Arm_Supp
begin

text \<open>
  The input and output layer of \<^verbatim>\<open>arch/arm/common/armio.c\<close>: an access that the memory map sends to
  I/O is offered to the devices of the machine in order, and to the machine's own handler when no
  device answers. Devices and machine handlers are plug-ins; they are the functions of the record
  \<open>arm_env\<close>, which every operation that can reach them takes as an argument.
\<close>

section \<open>Devices and machines\<close>

type_synonym 'io dev_read =
  "'io ARMul_State \<Rightarrow> ARMword \<Rightarrow> (ARMword option \<times> 'io ARMul_State) sim"
type_synonym 'io dev_write =
  "'io ARMul_State \<Rightarrow> ARMword \<Rightarrow> ARMword \<Rightarrow> (bool \<times> 'io ARMul_State) sim"
type_synonym 'io mem_reader = "'io ARMul_State \<Rightarrow> ARMword \<Rightarrow> (ARMword \<times> 'io ARMul_State) sim"
type_synonym 'io mem_writer = "'io ARMul_State \<Rightarrow> ARMword \<Rightarrow> ARMword \<Rightarrow> 'io ARMul_State sim"

text \<open>
  A device's reader returns \<open>None\<close> for \<^verbatim>\<open>ADDR_NOHIT\<close>, its writer \<open>False\<close>. A null function pointer is
  \<open>None\<close>.
\<close>

record 'io device_desc =
  dev_base :: ARMword
  dev_size :: ARMword
  dev_read_byte :: "'io dev_read option"
  dev_read_halfword :: "'io dev_read option"
  dev_read_word :: "'io dev_read option"
  dev_write_byte :: "'io dev_write option"
  dev_write_halfword :: "'io dev_write option"
  dev_write_word :: "'io dev_write option"

text \<open>\<open>stack_depth\<close> bounds the nesting of accesses through alias banks.\<close>

record 'io arm_env =
  stack_depth :: nat
  devices :: "'io device_desc list"
  mach_io_read_byte :: "'io mem_reader"
  mach_io_read_halfword :: "'io mem_reader"
  mach_io_read_word :: "'io mem_reader"
  mach_io_write_byte :: "'io mem_writer"
  mach_io_write_halfword :: "'io mem_writer"
  mach_io_write_word :: "'io mem_writer"

definition dev_in_range :: "'io device_desc \<Rightarrow> ARMword \<Rightarrow> bool" where
  "dev_in_range d addr \<longleftrightarrow>
     dev_size d = 0 \<or> (dev_base d \<le> addr \<and> addr < dev_base d + dev_size d)"

text \<open>
  The loop that the three readers share; \<open>sel\<close> picks the device's function and \<open>narrow\<close> is the mask
  applied to the data of a device.
\<close>

fun io_read_loop ::
  "('io device_desc \<Rightarrow> 'io dev_read option) \<Rightarrow> (ARMword \<Rightarrow> ARMword) \<Rightarrow> 'io mem_reader
     \<Rightarrow> 'io device_desc list \<Rightarrow> 'io mem_reader" where
  "io_read_loop sel narrow mach [] s addr = mach s addr"
| "io_read_loop sel narrow mach (d # ds) s addr =
     (case sel d of
        None \<Rightarrow> io_read_loop sel narrow mach ds s addr
      | Some f \<Rightarrow>
          if dev_in_range d addr
          then bind_ok (f s addr)
                 (\<lambda>(r, s). case r of
                     None \<Rightarrow> io_read_loop sel narrow mach ds s addr
                   | Some data \<Rightarrow> Inr (narrow data, s))
          else io_read_loop sel narrow mach ds s addr)"

fun io_write_loop ::
  "('io device_desc \<Rightarrow> 'io dev_write option) \<Rightarrow> (ARMword \<Rightarrow> ARMword) \<Rightarrow> 'io mem_writer
     \<Rightarrow> 'io device_desc list \<Rightarrow> 'io mem_writer" where
  "io_write_loop sel narrow mach [] s addr data = mach s addr data"
| "io_write_loop sel narrow mach (d # ds) s addr data =
     (case sel d of
        None \<Rightarrow> io_write_loop sel narrow mach ds s addr data
      | Some f \<Rightarrow>
          if dev_in_range d addr
          then bind_ok (f s addr (narrow data))
                 (\<lambda>(hit, s). if hit then Inr s else io_write_loop sel narrow mach ds s addr data)
          else io_write_loop sel narrow mach ds s addr data)"

definition io_read_byte :: "'io arm_env \<Rightarrow> 'io mem_reader" where
  "io_read_byte env s addr =
     io_read_loop dev_read_byte (\<lambda>d. d AND 0xff) (mach_io_read_byte env) (devices env) s addr"

definition io_read_halfword :: "'io arm_env \<Rightarrow> 'io mem_reader" where
  "io_read_halfword env s addr =
     io_read_loop dev_read_halfword (\<lambda>d. d AND 0xffff) (mach_io_read_halfword env) (devices env) s addr"

definition io_read_word :: "'io arm_env \<Rightarrow> 'io mem_reader" where
  "io_read_word env s addr =
     io_read_loop dev_read_word (\<lambda>d. d) (mach_io_read_word env) (devices env) s addr"

definition io_write_byte :: "'io arm_env \<Rightarrow> 'io mem_writer" where
  "io_write_byte env s addr data =
     io_write_loop dev_write_byte (\<lambda>d. d AND 0xff) (mach_io_write_byte env) (devices env) s addr data"

definition io_write_halfword :: "'io arm_env \<Rightarrow> 'io mem_writer" where
  "io_write_halfword env s addr data =
     io_write_loop dev_write_halfword (\<lambda>d. d AND 0xffff) (mach_io_write_halfword env) (devices env)
       s addr data"

definition io_write_word :: "'io arm_env \<Rightarrow> 'io mem_writer" where
  "io_write_word env s addr data =
     io_write_loop dev_write_word (\<lambda>d. d) (mach_io_write_word env) (devices env) s addr data"

section \<open>Routing\<close>

text \<open>
  Devices that the address or a missing function pointer rules out are as if they were not there:
  the loops are the search of the first device that can answer.
\<close>

lemma io_read_loop_skip:
  assumes "\<forall>d\<in>set ds. sel d = None \<or> \<not> dev_in_range d addr"
  shows "io_read_loop sel narrow mach (ds @ es) s addr = io_read_loop sel narrow mach es s addr"
  using assms by (induction ds) (auto split: option.split)

lemma io_write_loop_skip:
  assumes "\<forall>d\<in>set ds. sel d = None \<or> \<not> dev_in_range d addr"
  shows "io_write_loop sel narrow mach (ds @ es) s addr data = io_write_loop sel narrow mach es s addr data"
  using assms by (induction ds) (auto split: option.split)

text \<open>An environment without devices, whose machine answers every read with 0.\<close>

definition bare_env :: "'io arm_env" where
  "bare_env = \<lparr>stack_depth = 8, devices = [],
     mach_io_read_byte = (\<lambda>s a. Inr (0, s)), mach_io_read_halfword = (\<lambda>s a. Inr (0, s)),
     mach_io_read_word = (\<lambda>s a. Inr (0, s)),
     mach_io_write_byte = (\<lambda>s a d. Inr s), mach_io_write_halfword = (\<lambda>s a d. Inr s),
     mach_io_write_word = (\<lambda>s a d. Inr s)\<rparr>"

end
