(* ===== verification/Arm_Mem.thy ===== *)
theory Arm_Mem
  imports Arm_Io
begin

text \<open>
  The physical memory of \<^verbatim>\<open>arch/arm/common/armmem.c\<close>: the banks and the cached bank search, the
  accessors of RAM banks, of alias banks and of read-only banks, and the dispatch
  \<^verbatim>\<open>mem_read_*\<close> / \<^verbatim>\<open>mem_write_*\<close>. An alias bank calls the dispatcher again at another address; the
  argument \<open>n\<close> of the dispatcher is the number of nested calls that fit on the stack, and running
  out of it is the error \<open>StackOverflow\<close>.
\<close>

section \<open>The bank search\<close>

definition in_bank :: "mem_bank_t \<Rightarrow> ARMword \<Rightarrow> bool" where
  "in_bank b addr \<longleftrightarrow> mb_addr b \<le> addr \<and> addr - mb_addr b < mb_len b"

text \<open>
  The loop of \<^verbatim>\<open>bank_ptr\<close>, which stops at the first bank of length 0: the number of the bank where
  the loop pointer is left, and whether it is the bank searched.
\<close>

fun bank_search :: "mem_bank_t list \<Rightarrow> ARMword \<Rightarrow> nat \<Rightarrow> nat \<times> bool" where
  "bank_search [] addr i = (i, False)"
| "bank_search (b # bs) addr i =
     (if mb_len b = 0 then (i, False)
      else if in_bank b addr then (i, True)
      else bank_search bs addr (Suc i))"

definition bank_hit :: "mem_bank_t list \<Rightarrow> nat option \<Rightarrow> ARMword \<Rightarrow> nat option" where
  "bank_hit bs cache addr =
     (case cache of
        None \<Rightarrow> None
      | Some i \<Rightarrow> if i < length bs \<and> in_bank (bs ! i) addr then Some i else None)"

definition bank_ptr :: "mem_state_t \<Rightarrow> ARMword \<Rightarrow> nat option \<times> mem_state_t" where
  "bank_ptr m addr =
     (case bank_hit (mem_banks m) (mbp_cache m) addr of
        Some i \<Rightarrow> (Some i, m)
      | None \<Rightarrow>
          let (i, found) = bank_search (mem_banks m) addr 0
          in (if found then Some i else None, m\<lparr>mbp_cache := Some i\<rparr>))"

section \<open>RAM banks\<close>

text \<open>
  The word of the bank that \<open>global_mbp\<close> points to which holds an address: bank and word number. The
  accessors use the pointer without a test.
\<close>

definition cell_of :: "mem_state_t \<Rightarrow> ARMword \<Rightarrow> (nat \<times> nat) sim" where
  "cell_of m addr =
     (case global_mbp m of
        None \<Rightarrow> Inl NullPointer
      | Some i \<Rightarrow> Inr (i, unat (drop_bit 2 (addr - mb_addr (mem_banks m ! i)))))"

definition byte_offset :: "ARMword \<Rightarrow> ARMword \<Rightarrow> nat" where
  "byte_offset big addr = unat (push_bit 3 ((big * 3) XOR (addr AND 3)))"

definition halfword_offset :: "ARMword \<Rightarrow> ARMword \<Rightarrow> nat" where
  "halfword_offset big addr = unat (push_bit 3 ((big * 2) XOR (addr AND 2)))"

definition put_cell :: "nat \<times> nat \<Rightarrow> ARMword \<Rightarrow> 'io ARMul_State \<Rightarrow> 'io ARMul_State" where
  "put_cell c data s =
     s\<lparr>mem := (mem s)\<lparr>rom := (rom (mem s))(fst c := (rom (mem s) (fst c))(snd c := data))\<rparr>\<rparr>"

definition real_read_byte :: "'io mem_reader" where
  "real_read_byte s addr =
     bind_ok (cell_of (mem s) addr) (\<lambda>(i, k).
       Inr (drop_bit (byte_offset (bigendSig s) addr) (rom (mem s) i k) AND 0xff, s))"

definition real_read_halfword :: "'io mem_reader" where
  "real_read_halfword s addr =
     bind_ok (cell_of (mem s) addr) (\<lambda>(i, k).
       Inr (drop_bit (halfword_offset (bigendSig s) addr) (rom (mem s) i k) AND 0xffff, s))"

definition real_read_word :: "'io mem_reader" where
  "real_read_word s addr =
     bind_ok (cell_of (mem s) addr) (\<lambda>(i, k). Inr (rom (mem s) i k, s))"

definition real_write_byte :: "'io mem_writer" where
  "real_write_byte s addr data =
     bind_ok (cell_of (mem s) addr) (\<lambda>(i, k).
       let off = byte_offset (bigendSig s) addr
       in Inr (put_cell (i, k)
                ((rom (mem s) i k AND NOT (push_bit off 0xff)) OR push_bit off (data AND 0xff)) s))"

definition real_write_halfword :: "'io mem_writer" where
  "real_write_halfword s addr data =
     bind_ok (cell_of (mem s) addr) (\<lambda>(i, k).
       let off = halfword_offset (bigendSig s) addr
       in Inr (put_cell (i, k)
                ((rom (mem s) i k AND NOT (push_bit off 0xffff)) OR push_bit off (data AND 0xffff)) s))"

definition real_write_word :: "'io mem_writer" where
  "real_write_word s addr data =
     bind_ok (cell_of (mem s) addr) (\<lambda>(i, k). Inr (put_cell (i, k) data s))"

text \<open>The writers of a read-only bank print a warning and change nothing.\<close>

definition warn_write_byte :: "'io mem_writer" where
  "warn_write_byte s addr data = Inr s"

definition warn_write_halfword :: "'io mem_writer" where
  "warn_write_halfword s addr data = Inr s"

definition warn_write_word :: "'io mem_writer" where
  "warn_write_word s addr data = Inr s"

section \<open>The dispatchers\<close>

text \<open>The remapping of the exception vectors, which only the readers do.\<close>

definition remap_read :: "'io ARMul_State \<Rightarrow> ARMword \<Rightarrow> ARMword" where
  "remap_read s addr =
     (if vector_remap_flag s \<noteq> 0 \<and> addr \<le> vector_remap_size s
      then addr + vector_remap_addr s else addr)"

definition set_global_mbp :: "ARMword \<Rightarrow> 'io ARMul_State \<Rightarrow> nat option \<times> 'io ARMul_State" where
  "set_global_mbp addr s =
     (let (g, m) = bank_ptr (mem s) addr in (g, s\<lparr>mem := m\<lparr>global_mbp := g\<rparr>\<rparr>))"

text \<open>The address an alias bank stands for.\<close>

definition alias_addr :: "mem_bank_t \<Rightarrow> ARMword \<Rightarrow> ARMword" where
  "alias_addr b addr = addr - mb_addr b + mb_dest b"

fun mem_read_byte :: "'io arm_env \<Rightarrow> nat \<Rightarrow> 'io mem_reader"
  and alias_read_byte :: "'io arm_env \<Rightarrow> nat \<Rightarrow> mem_bank_t \<Rightarrow> 'io mem_reader" where
  "mem_read_byte env 0 s addr = Inl StackOverflow"
| "mem_read_byte env (Suc n) s addr =
     (let addr = remap_read s addr; (g, s) = set_global_mbp addr s
      in case g of
           None \<Rightarrow> Inr (0, s)
         | Some i \<Rightarrow>
             (let b = mem_banks (mem s) ! i
              in case mb_read b of
                   None \<Rightarrow> Inr (0, s)
                 | Some RealRead \<Rightarrow> real_read_byte s addr
                 | Some AliasRead \<Rightarrow> alias_read_byte env n b s addr
                 | Some IoRead \<Rightarrow> io_read_byte env s addr))"
| "alias_read_byte env n b s addr = mem_read_byte env n s (alias_addr b addr)"

fun mem_read_halfword :: "'io arm_env \<Rightarrow> nat \<Rightarrow> 'io mem_reader"
  and alias_read_halfword :: "'io arm_env \<Rightarrow> nat \<Rightarrow> mem_bank_t \<Rightarrow> 'io mem_reader" where
  "mem_read_halfword env 0 s addr = Inl StackOverflow"
| "mem_read_halfword env (Suc n) s addr =
     (let addr = remap_read s addr; (g, s) = set_global_mbp addr s
      in case g of
           None \<Rightarrow> Inr (0, s)
         | Some i \<Rightarrow>
             (let b = mem_banks (mem s) ! i
              in case mb_read b of
                   None \<Rightarrow> Inr (0, s)
                 | Some RealRead \<Rightarrow> real_read_halfword s addr
                 | Some AliasRead \<Rightarrow> alias_read_halfword env n b s addr
                 | Some IoRead \<Rightarrow> io_read_halfword env s addr))"
| "alias_read_halfword env n b s addr = mem_read_halfword env n s (alias_addr b addr)"

fun mem_read_word :: "'io arm_env \<Rightarrow> nat \<Rightarrow> 'io mem_reader"
  and alias_read_word :: "'io arm_env \<Rightarrow> nat \<Rightarrow> mem_bank_t \<Rightarrow> 'io mem_reader" where
  "mem_read_word env 0 s addr = Inl StackOverflow"
| "mem_read_word env (Suc n) s addr =
     (let addr = remap_read s addr; (g, s) = set_global_mbp addr s
      in case g of
           None \<Rightarrow> Inr (0, s)
         | Some i \<Rightarrow>
             (let b = mem_banks (mem s) ! i
              in case mb_read b of
                   None \<Rightarrow> Inr (0, s)
                 | Some RealRead \<Rightarrow> real_read_word s addr
                 | Some AliasRead \<Rightarrow> alias_read_word env n b s addr
                 | Some IoRead \<Rightarrow> io_read_word env s addr))"
| "alias_read_word env n b s addr = mem_read_word env n s (alias_addr b addr)"

text \<open>A byte write that finds no bank ends the simulator; the wider writes are ignored.\<close>

fun mem_write_byte :: "'io arm_env \<Rightarrow> nat \<Rightarrow> 'io mem_writer"
  and alias_write_byte :: "'io arm_env \<Rightarrow> nat \<Rightarrow> mem_bank_t \<Rightarrow> 'io mem_writer" where
  "mem_write_byte env 0 s addr data = Inl StackOverflow"
| "mem_write_byte env (Suc n) s addr data =
     (let (g, s) = set_global_mbp addr s
      in case g of
           None \<Rightarrow> Inl SkyeyeExit
         | Some i \<Rightarrow>
             (let b = mem_banks (mem s) ! i
              in case mb_write b of
                   None \<Rightarrow> Inl SkyeyeExit
                 | Some RealWrite \<Rightarrow> real_write_byte s addr data
                 | Some AliasWrite \<Rightarrow> alias_write_byte env n b s addr data
                 | Some IoWrite \<Rightarrow> io_write_byte env s addr data
                 | Some WarnWrite \<Rightarrow> warn_write_byte s addr data))"
| "alias_write_byte env n b s addr data = mem_write_byte env n s (alias_addr b addr) data"

fun mem_write_halfword :: "'io arm_env \<Rightarrow> nat \<Rightarrow> 'io mem_writer"
  and alias_write_halfword :: "'io arm_env \<Rightarrow> nat \<Rightarrow> mem_bank_t \<Rightarrow> 'io mem_writer" where
  "mem_write_halfword env 0 s addr data = Inl StackOverflow"
| "mem_write_halfword env (Suc n) s addr data =
     (let (g, s) = set_global_mbp addr s
      in case g of
           None \<Rightarrow> Inr s
         | Some i \<Rightarrow>
             (let b = mem_banks (mem s) ! i
              in case mb_write b of
                   None \<Rightarrow> Inr s
                 | Some RealWrite \<Rightarrow> real_write_halfword s addr data
                 | Some AliasWrite \<Rightarrow> alias_write_halfword env n b s addr data
                 | Some IoWrite \<Rightarrow> io_write_halfword env s addr data
                 | Some WarnWrite \<Rightarrow> warn_write_halfword s addr data))"
| "alias_write_halfword env n b s addr data = mem_write_halfword env n s (alias_addr b addr) data"

fun mem_write_word :: "'io arm_env \<Rightarrow> nat \<Rightarrow> 'io mem_writer"
  and alias_write_word :: "'io arm_env \<Rightarrow> nat \<Rightarrow> mem_bank_t \<Rightarrow> 'io mem_writer" where
  "mem_write_word env 0 s addr data = Inl StackOverflow"
| "mem_write_word env (Suc n) s addr data =
     (let (g, s) = set_global_mbp addr s
      in case g of
           None \<Rightarrow> Inr s
         | Some i \<Rightarrow>
             (let b = mem_banks (mem s) ! i
              in case mb_write b of
                   None \<Rightarrow> Inr s
                 | Some RealWrite \<Rightarrow> real_write_word s addr data
                 | Some AliasWrite \<Rightarrow> alias_write_word env n b s addr data
                 | Some IoWrite \<Rightarrow> io_write_word env s addr data
                 | Some WarnWrite \<Rightarrow> warn_write_word s addr data))"
| "alias_write_word env n b s addr data = mem_write_word env n s (alias_addr b addr) data"

text \<open>
  \<^verbatim>\<open>mem_read_char\<close> and \<^verbatim>\<open>mem_write_char\<close> of \<^verbatim>\<open>armio.c\<close>, which the debugger and the devices use: a byte
  by way of the word that holds it. The union's bytes are those of a little-endian host.
\<close>

definition char_index :: "ARMword \<Rightarrow> ARMword \<Rightarrow> nat" where
  "char_index big addr = unat (if big = HIGH then 3 - (addr AND 3) else addr AND 3)"

definition mem_read_char :: "'io arm_env \<Rightarrow> nat \<Rightarrow> 'io ARMul_State \<Rightarrow> ARMword \<Rightarrow>
    (ARMbyte \<times> 'io ARMul_State) sim" where
  "mem_read_char env n s addr =
     bind_ok (mem_read_word env n s (addr AND NOT 3)) (\<lambda>(w, t).
       Inr (ucast (drop_bit (8 * char_index (bigendSig t) addr) w), t))"

definition mem_write_char :: "'io arm_env \<Rightarrow> nat \<Rightarrow> 'io ARMul_State \<Rightarrow> ARMword \<Rightarrow> ARMbyte \<Rightarrow>
    'io ARMul_State sim" where
  "mem_write_char env n s addr c =
     bind_ok (mem_read_word env n s (addr AND NOT 3)) (\<lambda>(w, t).
       let off = 8 * char_index (bigendSig t) addr
       in mem_write_word env n t (addr AND NOT 3)
            ((w AND NOT (push_bit off 0xff)) OR push_bit off (ucast c)))"

section \<open>Loading an image\<close>

text \<open>
  The loop of \<^verbatim>\<open>mem_reset\<close> that turns the bytes of an image file, four at a time, into the words of
  a bank. When the size of the bank is no multiple of four the loop runs over the end of the array.
\<close>

fun load_words :: "bool \<Rightarrow> ARMbyte list \<Rightarrow> ARMword list sim" where
  "load_words big [] = Inr []"
| "load_words big (p0 # p1 # p2 # p3 # ps) =
     bind_ok (load_words big ps) (\<lambda>ws.
       Inr ((if big
             then ucast p3 OR push_bit 8 (ucast p2) OR push_bit 16 (ucast p1) OR push_bit 24 (ucast p0)
             else ucast p0 OR push_bit 8 (ucast p1) OR push_bit 16 (ucast p2) OR push_bit 24 (ucast p3))
            # ws))"
| "load_words big ps = Inl OutOfBounds"

section \<open>The cached bank search is the search\<close>

definition live_banks :: "mem_bank_t list \<Rightarrow> mem_bank_t list" where
  "live_banks bs = takeWhile (\<lambda>b. mb_len b \<noteq> 0) bs"

definition banks_disjoint :: "mem_bank_t list \<Rightarrow> bool" where
  "banks_disjoint bs \<longleftrightarrow>
     (\<forall>i j a. i < length (live_banks bs) \<longrightarrow> j < length (live_banks bs) \<longrightarrow>
        in_bank (bs ! i) a \<longrightarrow> in_bank (bs ! j) a \<longrightarrow> i = j)"

definition cache_ok :: "mem_state_t \<Rightarrow> bool" where
  "cache_ok m \<longleftrightarrow>
     (case mbp_cache m of None \<Rightarrow> True | Some i \<Rightarrow> i \<le> length (live_banks (mem_banks m)))"

lemma live_banks_len0: "length (live_banks bs) < length bs \<Longrightarrow> mb_len (bs ! length (live_banks bs)) = 0"
  unfolding live_banks_def using nth_length_takeWhile [of _ bs] by blast

lemma bank_search_cases:
  "case bank_search bs a k of (i, found) \<Rightarrow>
     if found then k \<le> i \<and> i - k < length (live_banks bs) \<and> in_bank (bs ! (i - k)) a
     else i = k + length (live_banks bs) \<and> (\<forall>j<length (live_banks bs). \<not> in_bank (bs ! j) a)"
proof (induction bs arbitrary: k)
  case Nil
  then show ?case by (simp add: live_banks_def)
next
  case (Cons b bs)
  obtain i found where *: "bank_search bs a (Suc k) = (i, found)" by fastforce
  have live: "live_banks (b # bs) = (if mb_len b = 0 then [] else b # live_banks bs)"
    by (simp add: live_banks_def)
  show ?case
  proof (cases "mb_len b = 0 \<or> in_bank b a")
    case True
    then show ?thesis by (auto simp: live)
  next
    case False
    from Cons.IH [where k = "Suc k"] have IH: "if found
      then Suc k \<le> i \<and> i - Suc k < length (live_banks bs) \<and> in_bank (bs ! (i - Suc k)) a
      else i = Suc k + length (live_banks bs) \<and> (\<forall>j<length (live_banks bs). \<not> in_bank (bs ! j) a)"
      by (simp add: *)
    show ?thesis
    proof (cases found)
      case True
      then have "i - k = Suc (i - Suc k)" "k \<le> i" using IH by auto
      then show ?thesis using IH True False by (simp add: live *)
    next
      case nf: False
      then show ?thesis using IH False by (auto simp: live * less_Suc_eq_0_disj)
    qed
  qed
qed

lemma bank_ptr_frame [simp]:
  "mem_banks (snd (bank_ptr m a)) = mem_banks m" "rom (snd (bank_ptr m a)) = rom m"
  by (simp_all add: bank_ptr_def split: option.split prod.split)

lemma bank_ptr_sound:
  assumes "banks_disjoint (mem_banks m)" "cache_ok m"
  shows "fst (bank_ptr m a) = Some i \<longleftrightarrow>
      i < length (live_banks (mem_banks m)) \<and> in_bank (mem_banks m ! i) a"
    and "cache_ok (snd (bank_ptr m a))"
proof -
  let ?bs = "mem_banks m" let ?l = "length (live_banks ?bs)"
  obtain k found where s: "bank_search ?bs a 0 = (k, found)" by fastforce
  have S: "if found then k < ?l \<and> in_bank (?bs ! k) a else k = ?l \<and> (\<forall>j<?l. \<not> in_bank (?bs ! j) a)"
    using bank_search_cases [where bs = ?bs and a = a and k = 0] by (simp add: s split: if_splits)
  have uniq: "i = j" if "i < ?l" "j < ?l" "in_bank (?bs ! i) a" "in_bank (?bs ! j) a" for i j
    using assms(1) that unfolding banks_disjoint_def by blast
  show "fst (bank_ptr m a) = Some i \<longleftrightarrow> i < ?l \<and> in_bank (?bs ! i) a"
  proof (cases "bank_hit ?bs (mbp_cache m) a")
    case None
    then show ?thesis using S uniq
      by (auto simp: bank_ptr_def s split: if_splits)
  next
    case (Some j)
    then have j: "mbp_cache m = Some j" "j < length ?bs" "in_bank (?bs ! j) a"
      by (auto simp: bank_hit_def split: option.splits if_splits)
    then have "j \<le> ?l" using assms(2) by (simp add: cache_ok_def)
    moreover have "j \<noteq> ?l" using j live_banks_len0 [of ?bs] by (auto simp: in_bank_def)
    ultimately have "j < ?l" by simp
    then show ?thesis using j uniq Some by (auto simp: bank_ptr_def)
  qed
  show "cache_ok (snd (bank_ptr m a))"
    using assms(2) S
    by (auto simp: bank_ptr_def cache_ok_def s split: option.splits if_splits)
qed

section \<open>The contents of the memory\<close>

text \<open>
  The RAM cell that holds an address: the bank that contains it and the word in that bank. The
  contents of the memory are a function of the address, whatever the bank cache holds.
\<close>

definition ram_bank :: "mem_state_t \<Rightarrow> ARMword \<Rightarrow> nat \<Rightarrow> bool" where
  "ram_bank m a i \<longleftrightarrow> i < length (live_banks (mem_banks m)) \<and> in_bank (mem_banks m ! i) a
     \<and> mb_read (mem_banks m ! i) = Some RealRead \<and> mb_write (mem_banks m ! i) = Some RealWrite
     \<and> mb_addr (mem_banks m ! i) AND 3 = 0"

definition bank_no :: "mem_state_t \<Rightarrow> ARMword \<Rightarrow> nat" where
  "bank_no m a = fst (bank_search (mem_banks m) a 0)"

definition word_no :: "mem_state_t \<Rightarrow> ARMword \<Rightarrow> nat" where
  "word_no m a = unat (drop_bit 2 (a - mb_addr (mem_banks m ! bank_no m a)))"

definition peek_word :: "'io ARMul_State \<Rightarrow> ARMword \<Rightarrow> ARMword" where
  "peek_word s a = rom (mem s) (bank_no (mem s) a) (word_no (mem s) a)"

definition peek_halfword :: "'io ARMul_State \<Rightarrow> ARMword \<Rightarrow> ARMword" where
  "peek_halfword s a = drop_bit (halfword_offset (bigendSig s) a) (peek_word s a) AND 0xffff"

definition peek_byte :: "'io ARMul_State \<Rightarrow> ARMword \<Rightarrow> ARMword" where
  "peek_byte s a = drop_bit (byte_offset (bigendSig s) a) (peek_word s a) AND 0xff"

text \<open>An address that is RAM in a well-formed memory map and is not remapped when read.\<close>

definition ram_ok :: "'io ARMul_State \<Rightarrow> ARMword \<Rightarrow> bool" where
  "ram_ok s a \<longleftrightarrow> banks_disjoint (mem_banks (mem s)) \<and> cache_ok (mem s)
     \<and> ram_bank (mem s) a (bank_no (mem s) a) \<and> bigendSig s \<le> 1
     \<and> \<not> (vector_remap_flag s \<noteq> 0 \<and> a \<le> vector_remap_size s)"

lemma bank_no_cong: "mem_banks m = mem_banks m' \<Longrightarrow> bank_no m a = bank_no m' a"
  by (simp add: bank_no_def)

lemma word_no_cong: "mem_banks m = mem_banks m' \<Longrightarrow> word_no m a = word_no m' a"
  by (simp add: word_no_def bank_no_def)

lemma set_global_mbp_ram:
  assumes "ram_ok s a"
  obtains m where "set_global_mbp a s = (Some (bank_no (mem s) a), s\<lparr>mem := m\<rparr>)"
    "mem_banks m = mem_banks (mem s)" "rom m = rom (mem s)" "cache_ok m"
    "global_mbp m = Some (bank_no (mem s) a)"
proof -
  let ?m = "mem s"
  have b: "banks_disjoint (mem_banks ?m)" "cache_ok ?m"
    "bank_no ?m a < length (live_banks (mem_banks ?m))" "in_bank (mem_banks ?m ! bank_no ?m a) a"
    using assms by (auto simp: ram_ok_def ram_bank_def)
  have "fst (bank_ptr ?m a) = Some (bank_no ?m a)"
    using bank_ptr_sound(1) [OF b(1,2), of a] b(3,4) by blast
  moreover have "cache_ok ((snd (bank_ptr ?m a))\<lparr>global_mbp := g\<rparr>)" for g
    using bank_ptr_sound(2) [OF b(1,2), of a] by (simp add: cache_ok_def split: option.splits)
  ultimately show thesis
    using that [of "(snd (bank_ptr ?m a))\<lparr>global_mbp := Some (bank_no ?m a)\<rparr>"]
    by (simp add: set_global_mbp_def split_beta)
qed

text \<open>What a read may change: the two bank pointers.\<close>

definition same_memory :: "'io ARMul_State \<Rightarrow> 'io ARMul_State \<Rightarrow> bool" where
  "same_memory s t \<longleftrightarrow> (\<exists>m. t = s\<lparr>mem := m\<rparr> \<and> mem_banks m = mem_banks (mem s)
     \<and> rom m = rom (mem s) \<and> cache_ok m)"

lemma same_memory_peek:
  assumes "same_memory s t" "ram_ok s a"
  shows "peek_word t b = peek_word s b" "peek_halfword t b = peek_halfword s b"
    "peek_byte t b = peek_byte s b" "ram_ok t b = ram_ok s b"
  using assms
  by (auto simp: same_memory_def peek_word_def peek_halfword_def peek_byte_def ram_ok_def
      ram_bank_def bank_no_def word_no_def)

lemma mem_read_ram:
  assumes "ram_ok s a"
  shows "\<exists>t. mem_read_word env (Suc n) s a = Inr (peek_word s a, t) \<and> same_memory s t"
    "\<exists>t. mem_read_halfword env (Suc n) s a = Inr (peek_halfword s a, t) \<and> same_memory s t"
    "\<exists>t. mem_read_byte env (Suc n) s a = Inr (peek_byte s a, t) \<and> same_memory s t"
proof -
  obtain m where m: "set_global_mbp a s = (Some (bank_no (mem s) a), s\<lparr>mem := m\<rparr>)"
    "mem_banks m = mem_banks (mem s)" "rom m = rom (mem s)" "cache_ok m"
    "global_mbp m = Some (bank_no (mem s) a)"
    using set_global_mbp_ram [OF assms] .
  have r: "remap_read s a = a" "mb_read (mem_banks (mem s) ! bank_no (mem s) a) = Some RealRead"
    using assms by (auto simp: ram_ok_def remap_read_def ram_bank_def)
  have cell: "cell_of m a = Inr (bank_no (mem s) a, word_no (mem s) a)"
    using m by (simp add: cell_of_def word_no_def)
  have sm: "same_memory s (s\<lparr>mem := m\<rparr>)" using m by (auto simp: same_memory_def)
  show "\<exists>t. mem_read_word env (Suc n) s a = Inr (peek_word s a, t) \<and> same_memory s t"
    using m r cell sm by (auto simp: real_read_word_def peek_word_def)
  show "\<exists>t. mem_read_halfword env (Suc n) s a = Inr (peek_halfword s a, t) \<and> same_memory s t"
    using m r cell sm by (auto simp: real_read_halfword_def peek_word_def peek_halfword_def)
  show "\<exists>t. mem_read_byte env (Suc n) s a = Inr (peek_byte s a, t) \<and> same_memory s t"
    using m r cell sm by (auto simp: real_read_byte_def peek_word_def peek_byte_def)
qed

text \<open>What a RAM write does: one word of one bank changes.\<close>

definition poke :: "'io ARMul_State \<Rightarrow> ARMword \<Rightarrow> ARMword \<Rightarrow> 'io ARMul_State \<Rightarrow> bool" where
  "poke s a w t \<longleftrightarrow> (\<exists>u. same_memory s u \<and> t = put_cell (bank_no (mem s) a, word_no (mem s) a) w u)"

lemma mem_write_ram:
  assumes "ram_ok s a"
  shows "\<exists>t. mem_write_word env (Suc n) s a d = Inr t \<and> poke s a d t"
    "\<exists>t. mem_write_halfword env (Suc n) s a d = Inr t \<and>
       poke s a ((peek_word s a AND NOT (push_bit (halfword_offset (bigendSig s) a) 0xffff))
         OR push_bit (halfword_offset (bigendSig s) a) (d AND 0xffff)) t"
    "\<exists>t. mem_write_byte env (Suc n) s a d = Inr t \<and>
       poke s a ((peek_word s a AND NOT (push_bit (byte_offset (bigendSig s) a) 0xff))
         OR push_bit (byte_offset (bigendSig s) a) (d AND 0xff)) t"
proof -
  obtain m where m: "set_global_mbp a s = (Some (bank_no (mem s) a), s\<lparr>mem := m\<rparr>)"
    "mem_banks m = mem_banks (mem s)" "rom m = rom (mem s)" "cache_ok m"
    "global_mbp m = Some (bank_no (mem s) a)"
    using set_global_mbp_ram [OF assms] .
  have r: "mb_write (mem_banks (mem s) ! bank_no (mem s) a) = Some RealWrite"
    using assms by (auto simp: ram_ok_def ram_bank_def)
  have cell: "cell_of m a = Inr (bank_no (mem s) a, word_no (mem s) a)"
    using m by (simp add: cell_of_def word_no_def)
  have sm: "same_memory s (s\<lparr>mem := m\<rparr>)" using m by (auto simp: same_memory_def)
  show "\<exists>t. mem_write_word env (Suc n) s a d = Inr t \<and> poke s a d t"
    using m r cell sm by (auto simp: real_write_word_def poke_def)
  show "\<exists>t. mem_write_halfword env (Suc n) s a d = Inr t \<and>
       poke s a ((peek_word s a AND NOT (push_bit (halfword_offset (bigendSig s) a) 0xffff))
         OR push_bit (halfword_offset (bigendSig s) a) (d AND 0xffff)) t"
    using m r cell sm by (auto simp: real_write_halfword_def peek_word_def poke_def Let_def)
  show "\<exists>t. mem_write_byte env (Suc n) s a d = Inr t \<and>
       poke s a ((peek_word s a AND NOT (push_bit (byte_offset (bigendSig s) a) 0xff))
         OR push_bit (byte_offset (bigendSig s) a) (d AND 0xff)) t"
    using m r cell sm by (auto simp: real_write_byte_def peek_word_def poke_def Let_def)
qed


subsection \<open>Addresses of one word\<close>

lemma unat_drop2: "unat (drop_bit 2 (a :: ARMword)) = unat a div 4"
proof -
  have "unat a < 2 ^ 32" using unsigned_less [of a] by simp
  then show ?thesis unfolding unsigned_drop_bit_eq
    by (simp add: drop_bit_eq_div take_bit_nat_eq_self)
qed

lemma word_drop2_eq: "drop_bit 2 (a :: ARMword) = drop_bit 2 b \<longleftrightarrow> unat a div 4 = unat b div 4"
  unfolding word_unat_eq_iff unat_drop2 ..

lemma and3_mod4: "unat ((a :: ARMword) AND 3) = unat a mod 4"
proof -
  have "a AND 3 = take_bit 2 a" by (simp add: take_bit_eq_mask mask_eq_exp_minus_1)
  then show ?thesis by (simp only: unsigned_take_bit_eq) (simp add: take_bit_eq_mod)
qed

lemma unat_diff_le: "(b :: ARMword) \<le> a \<Longrightarrow> unat (a - b) = unat a - unat b"
  by (simp add: unat_sub word_le_nat_alt)

lemma div4_diff: "b mod 4 = 0 \<Longrightarrow> b \<le> a \<Longrightarrow> (a - b) div 4 = a div 4 - b div (4 :: nat)"
proof -
  assume "b mod 4 = 0" "b \<le> a"
  then obtain k where k: "b = 4 * k" by auto
  have "a div 4 = (a - b + 4 * k) div 4" using \<open>b \<le> a\<close> k by simp
  also have "\<dots> = (a - b) div 4 + k" by simp
  finally show ?thesis using k by simp
qed

lemma ram_word_no:
  assumes "ram_ok s a"
  shows "word_no (mem s) a = unat a div 4 - unat (mb_addr (mem_banks (mem s) ! bank_no (mem s) a)) div 4"
    "unat (mb_addr (mem_banks (mem s) ! bank_no (mem s) a)) mod 4 = 0"
    "unat (mb_addr (mem_banks (mem s) ! bank_no (mem s) a)) div 4 \<le> unat a div 4"
proof -
  let ?b = "mb_addr (mem_banks (mem s) ! bank_no (mem s) a)"
  have b: "?b \<le> a" "?b AND 3 = 0" using assms by (auto simp: ram_ok_def ram_bank_def in_bank_def)
  show m: "unat ?b mod 4 = 0" using and3_mod4 [of ?b] b(2) by simp
  have "word_no (mem s) a = (unat a - unat ?b) div 4"
    unfolding word_no_def unat_drop2 unat_diff_le [OF b(1)] ..
  also have "\<dots> = unat a div 4 - unat ?b div 4"
    using m b(1) unfolding word_le_nat_alt by (rule div4_diff)
  finally show "word_no (mem s) a = unat a div 4 - unat ?b div 4" .
  show "unat ?b div 4 \<le> unat a div 4" using b by (simp add: word_le_nat_alt div_le_mono)
qed


lemma ram_same_word:
  assumes a: "ram_ok s a" and b: "ram_ok s b"
  shows "(bank_no (mem s) a = bank_no (mem s) b \<and> word_no (mem s) a = word_no (mem s) b)
    \<longleftrightarrow> drop_bit 2 a = drop_bit 2 b"
proof
  assume "bank_no (mem s) a = bank_no (mem s) b \<and> word_no (mem s) a = word_no (mem s) b"
  then show "drop_bit 2 a = drop_bit 2 b"
    using ram_word_no(1,3) [OF a] ram_word_no(1,3) [OF b] unfolding word_drop2_eq
    by (metis eq_diff_iff)
next
  assume eq: "drop_bit 2 a = drop_bit 2 b"
  have bank: "bank_no (mem s) x = bank_no (mem s) y"
    if x: "ram_ok s x" and y: "ram_ok s y" and le: "x \<le> y" and eq: "unat x div 4 = unat y div 4" for x y
  proof -
    let ?i = "bank_no (mem s) x" let ?j = "bank_no (mem s) y"
    let ?B = "mb_addr (mem_banks (mem s) ! ?j)"
    have j: "?j < length (live_banks (mem_banks (mem s)))" "in_bank (mem_banks (mem s) ! ?j) y"
      and i: "?i < length (live_banks (mem_banks (mem s)))" "in_bank (mem_banks (mem s) ! ?i) x"
      using x y by (auto simp: ram_ok_def ram_bank_def)
    have "unat ?B = 4 * (unat ?B div 4)" using ram_word_no(2) [OF y] by presburger
    also have "\<dots> \<le> 4 * (unat x div 4)" using ram_word_no(3) [OF y] eq by simp
    also have "\<dots> \<le> unat x" by simp
    finally have B: "?B \<le> x" by (simp add: word_le_nat_alt)
    then have "x - ?B \<le> y - ?B" using le by (simp add: word_le_nat_alt unat_diff_le)
    then have "in_bank (mem_banks (mem s) ! ?j) x"
      using B j(2) by (auto simp: in_bank_def)
    then show ?thesis
      using i j x unfolding ram_ok_def banks_disjoint_def by blast
  qed
  have "bank_no (mem s) a = bank_no (mem s) b"
    using bank [OF a b] bank [OF b a] eq unfolding word_drop2_eq by (metis linear)
  then show "bank_no (mem s) a = bank_no (mem s) b \<and> word_no (mem s) a = word_no (mem s) b"
    using ram_word_no(1) [OF a] ram_word_no(1) [OF b] eq unfolding word_drop2_eq by simp
qed

lemma poke_peek:
  assumes "poke s a w t" "ram_ok s a"
  shows "bigendSig t = bigendSig s" "ram_ok t b = ram_ok s b"
    "ram_ok s b \<Longrightarrow> peek_word t b = (if drop_bit 2 a = drop_bit 2 b then w else peek_word s b)"
proof -
  obtain u where u: "same_memory s u" "t = put_cell (bank_no (mem s) a, word_no (mem s) a) w u"
    using assms(1) by (auto simp: poke_def)
  obtain m where m: "u = s\<lparr>mem := m\<rparr>" "mem_banks m = mem_banks (mem s)" "rom m = rom (mem s)" "cache_ok m"
    using u(1) by (auto simp: same_memory_def)
  have no: "bank_no (mem t) b = bank_no (mem s) b" "word_no (mem t) b = word_no (mem s) b"
    using u m by (simp_all add: put_cell_def bank_no_def word_no_def)
  show "bigendSig t = bigendSig s" using u m by (simp add: put_cell_def)
  have "cache_ok (m\<lparr>rom := r\<rparr>)" for r using m(4) by (simp add: cache_ok_def split: option.splits)
  then show "ram_ok t b = ram_ok s b"
    using u m no assms(2) by (simp add: put_cell_def ram_ok_def ram_bank_def)
  show "peek_word t b = (if drop_bit 2 a = drop_bit 2 b then w else peek_word s b)" if "ram_ok s b"
  proof -
    have "rom (mem t) = (rom (mem s))(bank_no (mem s) a :=
        (rom (mem s) (bank_no (mem s) a))(word_no (mem s) a := w))"
      using u m by (simp add: put_cell_def)
    then have "peek_word t b = (if bank_no (mem s) a = bank_no (mem s) b \<and> word_no (mem s) a = word_no (mem s) b
        then w else peek_word s b)" by (simp add: peek_word_def no)
    then show ?thesis using ram_same_word [OF assms(2) that] by simp
  qed
qed

subsection \<open>Bytes and halfwords of a word\<close>

lemma and3_cases: "(a :: ARMword) AND 3 = 0 \<or> a AND 3 = 1 \<or> a AND 3 = 2 \<or> a AND 3 = 3"
proof -
  have "unat a mod 4 < 4" by simp
  then consider "unat (a AND 3) = 0" | "unat (a AND 3) = 1" | "unat (a AND 3) = 2" | "unat (a AND 3) = 3"
    unfolding and3_mod4 by linarith
  then show ?thesis
    by cases (simp_all add: word_unat_eq_iff)
qed

lemma and2_of_and3: "(a :: ARMword) AND 2 = (a AND 3) AND 2"
  by (simp add: and.assoc)

lemma unat_le_1_cases: "(w :: ARMword) \<le> 1 \<Longrightarrow> w = 0 \<or> w = 1"
  by (metis le_less word_less_1)

lemma byte_offset_value:
  assumes "big \<le> 1"
  shows "byte_offset big a = 8 * (if big = 1 then 3 - unat a mod 4 else unat a mod 4)"
proof -
  have m: "unat a mod 4 = unat (a AND 3)" by (simp only: and3_mod4)
  show ?thesis
    using and3_cases [of a] unat_le_1_cases [OF assms] unfolding byte_offset_def m
    by (elim disjE) simp_all
qed

lemma byte_offset_eq_iff:
  assumes "big \<le> 1" "drop_bit 2 a = drop_bit 2 b"
  shows "byte_offset big a = byte_offset big b \<longleftrightarrow> a = b"
proof
  assume "byte_offset big a = byte_offset big b"
  moreover have "unat a mod 4 < 4" "unat b mod 4 < 4" by simp_all
  ultimately have "unat a mod 4 = unat b mod 4"
    unfolding byte_offset_value [OF assms(1)] by (auto split: if_splits)
  moreover have "unat a div 4 = unat b div 4" using assms(2) unfolding word_drop2_eq .
  ultimately have "unat a = unat b" by (metis div_mult_mod_eq)
  then show "a = b" by (simp add: word_unat_eq_iff)
qed simp

lemma byte_offset_range:
  assumes "big \<le> 1"
  shows "byte_offset big a \<in> {0, 8, 16, 24}"
  using and3_cases [of a] unat_le_1_cases [OF assms] unfolding byte_offset_def
  by (elim disjE) simp_all

lemma merge_byte:
  fixes w d :: ARMword
  assumes "i \<in> {0, 8, 16, 24}" "j \<in> {0, 8, 16, 24}"
  shows "drop_bit j ((w AND NOT (push_bit i 0xff)) OR push_bit i (d AND 0xff)) AND 0xff =
    (if i = j then d AND 0xff else drop_bit j w AND 0xff)"
proof (rule bit_word_eqI)
  have ff: "(0xff :: ARMword) = mask 8" by (simp add: mask_eq_exp_minus_1)
  fix n assume "n < LENGTH(32)"
  then show "bit (drop_bit j ((w AND NOT (push_bit i 0xff)) OR push_bit i (d AND 0xff)) AND 0xff) n
     = bit (if i = j then d AND 0xff else drop_bit j w AND 0xff) n"
    using assms unfolding ff by (auto simp: bit_simps)
qed

lemma halfword_offset_value:
  assumes "big \<le> 1"
  shows "halfword_offset big a = 16 * (if big = 1 then 1 - unat a div 2 mod 2 else unat a div 2 mod 2)"
proof -
  have m: "unat a div 2 mod 2 = unat (a AND 3) div 2"
    unfolding and3_mod4 by presburger
  show ?thesis
    using and3_cases [of a] unat_le_1_cases [OF assms]
    unfolding halfword_offset_def m and2_of_and3 [of a] by (elim disjE) simp_all
qed

lemma halfword_offset_range:
  assumes "big \<le> 1"
  shows "halfword_offset big a \<in> {0, 16}"
  unfolding halfword_offset_value [OF assms] by auto

lemma unat_drop1: "unat (drop_bit 1 (a :: ARMword)) = unat a div 2"
proof -
  have "unat a < 2 ^ 32" using unsigned_less [of a] by simp
  then show ?thesis unfolding unsigned_drop_bit_eq
    by (simp add: drop_bit_eq_div take_bit_nat_eq_self)
qed

lemma halfword_offset_eq_iff:
  assumes "big \<le> 1" "drop_bit 2 a = drop_bit 2 b"
  shows "halfword_offset big a = halfword_offset big b \<longleftrightarrow> drop_bit 1 a = drop_bit 1 b"
proof -
  have d: "unat a div 2 div 2 = unat b div 2 div 2"
    using assms(2) unfolding word_drop2_eq by (simp add: div_mult2_eq [symmetric])
  have "halfword_offset big a = halfword_offset big b \<longleftrightarrow> unat a div 2 mod 2 = unat b div 2 mod 2"
  proof -
    have "(1 - x = 1 - y) = (x = y)" if "x < 2" "y < 2" for x y :: nat using that by linarith
    from this [of "unat a div 2 mod 2" "unat b div 2 mod 2"] show ?thesis
      unfolding halfword_offset_value [OF assms(1)] by simp
  qed
  also have "\<dots> \<longleftrightarrow> unat a div 2 = unat b div 2" using d by (metis div_mult_mod_eq)
  finally show ?thesis unfolding word_unat_eq_iff unat_drop1 .
qed

lemma merge_halfword:
  fixes w d :: ARMword
  assumes "i \<in> {0, 16}" "j \<in> {0, 16}"
  shows "drop_bit j ((w AND NOT (push_bit i 0xffff)) OR push_bit i (d AND 0xffff)) AND 0xffff =
    (if i = j then d AND 0xffff else drop_bit j w AND 0xffff)"
proof (rule bit_word_eqI)
  have ff: "(0xffff :: ARMword) = mask 16" by (simp add: mask_eq_exp_minus_1)
  fix n assume "n < LENGTH(32)"
  then show "bit (drop_bit j ((w AND NOT (push_bit i 0xffff)) OR push_bit i (d AND 0xffff)) AND 0xffff) n
     = bit (if i = j then d AND 0xffff else drop_bit j w AND 0xffff) n"
    using assms unfolding ff by (auto simp: bit_simps)
qed

section \<open>The memory as a store\<close>

text \<open>
  The contract of a memory: reading returns the contents and keeps them; writing changes exactly
  the places that share a cell with the address written, to the value cut to the cell's width.
\<close>

locale store =
  fixes rd :: "'s \<Rightarrow> 'a \<Rightarrow> ('v \<times> 's) sim"
    and wr :: "'s \<Rightarrow> 'a \<Rightarrow> 'v \<Rightarrow> 's sim"
    and val :: "'s \<Rightarrow> 'a \<Rightarrow> 'v"
    and ok :: "'s \<Rightarrow> 'a \<Rightarrow> bool"
    and same :: "'a \<Rightarrow> 'a \<Rightarrow> bool"
    and narrow :: "'v \<Rightarrow> 'v"
  assumes read_law:
      "ok s a \<Longrightarrow> \<exists>t. rd s a = Inr (val s a, t) \<and> (\<forall>b. ok t b = ok s b) \<and> (\<forall>b. ok s b \<longrightarrow> val t b = val s b)"
    and write_law:
      "ok s a \<Longrightarrow> \<exists>t. wr s a v = Inr t \<and> (\<forall>b. ok t b = ok s b) \<and>
         (\<forall>b. ok s b \<longrightarrow> val t b = (if same a b then narrow v else val s b))"
    and same_refl: "same a a"
    and same_sym: "same a b \<Longrightarrow> same b a"
begin

fun write_list :: "'s \<Rightarrow> ('a \<times> 'v) list \<Rightarrow> 's sim" where
  "write_list s [] = Inr s"
| "write_list s ((a, v) # avs) = bind_ok (wr s a v) (\<lambda>t. write_list t avs)"

fun read_list :: "'s \<Rightarrow> 'a list \<Rightarrow> ('v list \<times> 's) sim" where
  "read_list s [] = Inr ([], s)"
| "read_list s (a # as) =
     bind_ok (rd s a) (\<lambda>(v, t). bind_ok (read_list t as) (\<lambda>(vs, u). Inr (v # vs, u)))"

lemma read_after_write:
  assumes "ok s a" "ok s b"
  shows "\<exists>t u. wr s a v = Inr t \<and> rd t b = Inr (if same a b then narrow v else val s b, u)"
proof -
  obtain t where t: "wr s a v = Inr t" "ok t b" "val t b = (if same a b then narrow v else val s b)"
    using write_law [OF assms(1), of v] assms(2) by auto
  obtain u where "rd t b = Inr (val t b, u)" using read_law [OF t(2)] by auto
  then show ?thesis using t by auto
qed

lemma read_list_values:
  assumes "\<forall>a\<in>set as. ok s a"
  shows "\<exists>t. read_list s as = Inr (map (val s) as, t) \<and> (\<forall>b. ok t b = ok s b)"
  using assms
proof (induction "as" arbitrary: s)
  case (Cons a "as")
  obtain t where t: "rd s a = Inr (val s a, t)" "\<forall>b. ok t b = ok s b" "\<forall>b. ok s b \<longrightarrow> val t b = val s b"
    using read_law [of s a] Cons.prems by auto
  obtain u where u: "read_list t as = Inr (map (val t) as, u)" "\<forall>b. ok u b = ok t b"
    using Cons.IH [of t] Cons.prems t(2) by auto
  have "map (val t) as = map (val s) as" using t(3) Cons.prems by simp
  then show ?case using t u by simp
qed simp

lemma write_list_values:
  assumes "\<forall>p\<in>set avs. ok s (fst p)" "sorted_wrt (\<lambda>p q. \<not> same (fst p) (fst q)) avs"
  shows "\<exists>t. write_list s avs = Inr t \<and> (\<forall>b. ok t b = ok s b)
    \<and> (\<forall>p\<in>set avs. val t (fst p) = narrow (snd p))
    \<and> (\<forall>b. ok s b \<longrightarrow> (\<forall>p\<in>set avs. \<not> same (fst p) b) \<longrightarrow> val t b = val s b)"
  using assms
proof (induction avs arbitrary: s)
  case (Cons p avs)
  obtain a v where p: "p = (a, v)" by fastforce
  obtain t where t: "wr s a v = Inr t" "\<forall>b. ok t b = ok s b"
      "\<forall>b. ok s b \<longrightarrow> val t b = (if same a b then narrow v else val s b)"
    using write_law [of s a v] Cons.prems p by auto
  obtain u where u: "write_list t avs = Inr u" "\<forall>b. ok u b = ok t b"
      "\<forall>q\<in>set avs. val u (fst q) = narrow (snd q)"
      "\<forall>b. ok t b \<longrightarrow> (\<forall>q\<in>set avs. \<not> same (fst q) b) \<longrightarrow> val u b = val t b"
    using Cons.IH [of t] Cons.prems t(2) by auto
  have "\<forall>q\<in>set avs. \<not> same (fst q) a" using Cons.prems p same_sym by fastforce
  then have "val u a = narrow v" using u(4) t Cons.prems p same_refl by simp
  then show ?case using t u p by auto
qed simp

text \<open>A block written at addresses of different cells is read back.\<close>

lemma block_roundtrip:
  assumes "\<forall>p\<in>set avs. ok s (fst p)" "sorted_wrt (\<lambda>p q. \<not> same (fst p) (fst q)) avs"
  shows "\<exists>t u. write_list s avs = Inr t \<and>
    read_list t (map fst avs) = Inr (map (narrow \<circ> snd) avs, u)"
proof -
  obtain t where t: "write_list s avs = Inr t" "\<forall>b. ok t b = ok s b"
      "\<forall>p\<in>set avs. val t (fst p) = narrow (snd p)"
    using write_list_values [OF assms] by blast
  have "\<forall>a\<in>set (map fst avs). ok t a" using assms(1) t(2) by auto
  then obtain u where "read_list t (map fst avs) = Inr (map (val t) (map fst avs), u)"
    using read_list_values [of "map fst avs" t] by blast
  moreover have "map (val t) (map fst avs) = map (narrow \<circ> snd) avs" using t(3) by simp
  ultimately show ?thesis using t(1) by metis
qed

end


subsection \<open>The dispatchers keep the contract\<close>

lemma peek_byte_poke:
  assumes "poke s a ((peek_word s a AND NOT (push_bit (byte_offset (bigendSig s) a) 0xff))
         OR push_bit (byte_offset (bigendSig s) a) (d AND 0xff)) t" "ram_ok s a" "ram_ok s b"
  shows "peek_byte t b = (if a = b then d AND 0xff else peek_byte s b)"
proof -
  have big: "bigendSig s \<le> 1" using assms by (simp add: ram_ok_def)
  note p = poke_peek [OF assms(1,2)]
  show ?thesis
  proof (cases "drop_bit 2 a = drop_bit 2 b")
    case True
    then have w: "peek_word s a = peek_word s b"
      using ram_same_word [OF assms(2,3)] by (simp add: peek_word_def)
    show ?thesis
      unfolding peek_byte_def p(1) p(3) [OF assms(3)]
      by (simp only: True simp_thms if_True w byte_offset_eq_iff [OF big True]
          merge_byte [OF byte_offset_range [OF big] byte_offset_range [OF big]])
  next
    case False
    then have "a \<noteq> b" by auto
    then show ?thesis using False p(1) p(3) [OF assms(3)] by (simp add: peek_byte_def)
  qed
qed

lemma peek_halfword_poke:
  assumes "poke s a ((peek_word s a AND NOT (push_bit (halfword_offset (bigendSig s) a) 0xffff))
         OR push_bit (halfword_offset (bigendSig s) a) (d AND 0xffff)) t" "ram_ok s a" "ram_ok s b"
  shows "peek_halfword t b = (if drop_bit 1 a = drop_bit 1 b then d AND 0xffff else peek_halfword s b)"
proof -
  have big: "bigendSig s \<le> 1" using assms by (simp add: ram_ok_def)
  note p = poke_peek [OF assms(1,2)]
  show ?thesis
  proof (cases "drop_bit 2 a = drop_bit 2 b")
    case True
    then have w: "peek_word s a = peek_word s b"
      using ram_same_word [OF assms(2,3)] by (simp add: peek_word_def)
    show ?thesis
      unfolding peek_halfword_def p(1) p(3) [OF assms(3)]
      by (simp only: True simp_thms if_True w halfword_offset_eq_iff [OF big True]
          merge_halfword [OF halfword_offset_range [OF big] halfword_offset_range [OF big]])
  next
    case False
    then have "drop_bit 1 a \<noteq> drop_bit 1 b"
      using unat_drop1 [of a] unat_drop1 [of b] div_mult2_eq [of "unat a" 2 2] div_mult2_eq [of "unat b" 2 2]
      unfolding word_drop2_eq by auto
    then show ?thesis using False p(1) p(3) [OF assms(3)] by (simp add: peek_halfword_def)
  qed
qed

interpretation ram_byte: store "mem_read_byte env (Suc n)" "mem_write_byte env (Suc n)" peek_byte ram_ok
  "(=)" "\<lambda>d. d AND 0xff"
proof
  fix s :: "'a ARMul_State" and a v :: ARMword
  assume ok: "ram_ok s a"
  show "\<exists>t. mem_read_byte env (Suc n) s a = Inr (peek_byte s a, t) \<and> (\<forall>b. ram_ok t b = ram_ok s b)
      \<and> (\<forall>b. ram_ok s b \<longrightarrow> peek_byte t b = peek_byte s b)"
    using mem_read_ram(3) [OF ok, of env n] same_memory_peek [OF _ ok] by blast
  show "\<exists>t. mem_write_byte env (Suc n) s a v = Inr t \<and> (\<forall>b. ram_ok t b = ram_ok s b)
      \<and> (\<forall>b. ram_ok s b \<longrightarrow> peek_byte t b = (if a = b then v AND 0xff else peek_byte s b))"
    using mem_write_ram(3) [OF ok, of env n v] poke_peek(2) [OF _ ok] peek_byte_poke [OF _ ok] by blast
qed auto

interpretation ram_halfword: store "mem_read_halfword env (Suc n)" "mem_write_halfword env (Suc n)"
  peek_halfword ram_ok "\<lambda>a b. drop_bit 1 a = drop_bit 1 b" "\<lambda>d. d AND 0xffff"
proof
  fix s :: "'a ARMul_State" and a v :: ARMword
  assume ok: "ram_ok s a"
  show "\<exists>t. mem_read_halfword env (Suc n) s a = Inr (peek_halfword s a, t) \<and> (\<forall>b. ram_ok t b = ram_ok s b)
      \<and> (\<forall>b. ram_ok s b \<longrightarrow> peek_halfword t b = peek_halfword s b)"
    using mem_read_ram(2) [OF ok, of env n] same_memory_peek [OF _ ok] by blast
  show "\<exists>t. mem_write_halfword env (Suc n) s a v = Inr t \<and> (\<forall>b. ram_ok t b = ram_ok s b)
      \<and> (\<forall>b. ram_ok s b \<longrightarrow>
          peek_halfword t b = (if drop_bit 1 a = drop_bit 1 b then v AND 0xffff else peek_halfword s b))"
    using mem_write_ram(2) [OF ok, of env n v] poke_peek(2) [OF _ ok] peek_halfword_poke [OF _ ok] by blast
qed auto

interpretation ram_word: store "mem_read_word env (Suc n)" "mem_write_word env (Suc n)" peek_word ram_ok
  "\<lambda>a b. drop_bit 2 a = drop_bit 2 b" "\<lambda>d. d"
proof
  fix s :: "'a ARMul_State" and a v :: ARMword
  assume ok: "ram_ok s a"
  show "\<exists>t. mem_read_word env (Suc n) s a = Inr (peek_word s a, t) \<and> (\<forall>b. ram_ok t b = ram_ok s b)
      \<and> (\<forall>b. ram_ok s b \<longrightarrow> peek_word t b = peek_word s b)"
    using mem_read_ram(1) [OF ok, of env n] same_memory_peek [OF _ ok] by blast
  show "\<exists>t. mem_write_word env (Suc n) s a v = Inr t \<and> (\<forall>b. ram_ok t b = ram_ok s b)
      \<and> (\<forall>b. ram_ok s b \<longrightarrow> peek_word t b = (if drop_bit 2 a = drop_bit 2 b then v else peek_word s b))"
    using mem_write_ram(1) [OF ok, of env n v] poke_peek(2,3) [OF _ ok] by blast
qed auto


section \<open>A concrete memory\<close>

text \<open>One megabyte of RAM at 0 and an alias of it at \<open>0x10000000\<close>.\<close>

definition demo_mem :: mem_state_t where
  "demo_mem = \<lparr>rom = (\<lambda>_ _. 0),
     mem_banks = [\<lparr>mb_read = Some RealRead, mb_write = Some RealWrite, mb_addr = 0, mb_len = 0x100000,
                   mb_dest = 0\<rparr>,
                  \<lparr>mb_read = Some AliasRead, mb_write = Some AliasWrite, mb_addr = 0x10000000,
                   mb_len = 0x100000, mb_dest = 0\<rparr>],
     mbp_cache = None, global_mbp = None\<rparr>"

definition demo_state :: "unit ARMul_State" where
  "demo_state = boot_state\<lparr>mem := demo_mem\<rparr>"

lemma demo_live: "live_banks (mem_banks demo_mem) = mem_banks demo_mem"
  by (simp add: demo_mem_def live_banks_def)

lemma demo_disjoint: "banks_disjoint (mem_banks demo_mem)"
proof -
  have "\<not> (in_bank (mem_banks demo_mem ! 0) a \<and> in_bank (mem_banks demo_mem ! 1) a)" for a
    by (auto simp: demo_mem_def in_bank_def word_less_nat_alt word_le_nat_alt unat_diff_le)
  then show ?thesis
    unfolding banks_disjoint_def demo_live
    by (auto simp: less_Suc_eq demo_mem_def numeral_2_eq_2)
qed

lemma demo_cache_ok: "cache_ok demo_mem"
  by (simp add: cache_ok_def demo_mem_def)

lemma demo_ram_ok: "a < 0x100000 \<Longrightarrow> ram_ok demo_state a"
  using demo_disjoint demo_live demo_cache_ok
  by (simp add: ram_ok_def demo_state_def ram_bank_def bank_no_def)
    (simp add: demo_mem_def in_bank_def boot_state_def ARMul_Reset_cpu_def ARMul_NewState_def Let_def
       ARMul_CPSRAltered_def cpsr_switch_mode_def cpsr_assign_flags_def FLUSHPIPE_def set_reg_def)

section \<open>The claims on the memory\<close>

text \<open>
  The one-entry cache of \<^verbatim>\<open>bank_ptr\<close> is transparent. In a memory map without overlaps the bank
  it returns is the bank that contains the address, whatever earlier accesses left in the cache.
\<close>

lemma bank_ptr_finds_bank:
  assumes "banks_disjoint (mem_banks m)" "cache_ok m"
  shows "(fst (bank_ptr m a) = Some i \<longleftrightarrow>
      i < length (live_banks (mem_banks m)) \<and> in_bank (mem_banks m ! i) a)
    \<and> cache_ok (snd (bank_ptr m a))"
  using bank_ptr_sound [OF assms] by blast

lemma bank_ptr_finds_bank_witness:
  "(fst (bank_ptr demo_mem 0x10000004) = Some 1 \<longleftrightarrow>
      1 < length (live_banks (mem_banks demo_mem)) \<and> in_bank (mem_banks demo_mem ! 1) 0x10000004)
    \<and> cache_ok (snd (bank_ptr demo_mem 0x10000004))"
  by (rule bank_ptr_finds_bank [OF demo_disjoint demo_cache_ok])

text \<open>
  A byte written to RAM is read back, and no other byte of RAM changes, in either byte order.
\<close>

lemma mem_byte_roundtrip:
  assumes "ram_ok s a" "ram_ok s b"
  shows "\<exists>t u. mem_write_byte env (Suc n) s a d = Inr t \<and>
    mem_read_byte env (Suc n) t b = Inr (if a = b then d AND 0xff else peek_byte s b, u)"
  by (rule ram_byte.read_after_write [OF assms])

lemma mem_byte_roundtrip_witness:
  "\<exists>t u. mem_write_byte bare_env (Suc 0) demo_state 5 0x1ab = Inr t \<and>
    mem_read_byte bare_env (Suc 0) t 5 = Inr (if (5 :: ARMword) = 5 then 0x1ab AND 0xff else peek_byte demo_state 5, u)"
  by (rule mem_byte_roundtrip) (simp_all add: demo_ram_ok)

subsection \<open>Access to a given bank\<close>

lemma set_global_mbp_spec:
  assumes "banks_disjoint (mem_banks (mem s))" "cache_ok (mem s)"
  obtains g t where "set_global_mbp a s = (g, t)" "same_memory s t" "mem_banks (mem t) = mem_banks (mem s)"
    "vector_remap_flag t = vector_remap_flag s" "cache_ok (mem t)"
    "\<And>i. g = Some i \<longleftrightarrow> i < length (live_banks (mem_banks (mem s))) \<and> in_bank (mem_banks (mem s) ! i) a"
proof -
  let ?m = "(snd (bank_ptr (mem s) a))\<lparr>global_mbp := fst (bank_ptr (mem s) a)\<rparr>"
  have "cache_ok ?m"
    using bank_ptr_sound(2) [OF assms, of a] by (simp add: cache_ok_def split: option.splits)
  moreover from this have "same_memory s (s\<lparr>mem := ?m\<rparr>)" by (auto simp: same_memory_def)
  moreover have "set_global_mbp a s = (fst (bank_ptr (mem s) a), s\<lparr>mem := ?m\<rparr>)"
    by (simp add: set_global_mbp_def split_beta)
  ultimately show thesis
    using that [of "fst (bank_ptr (mem s) a)" "s\<lparr>mem := ?m\<rparr>"] bank_ptr_sound(1) [OF assms] by simp
qed


text \<open>
  The bytes of a word written to RAM are its bytes in the byte order of the processor: byte
  \<open>b\<close> of the word is at the address with offset \<open>b\<close> (little-endian) or \<open>3 - b\<close> (big-endian).
\<close>

lemma mem_word_bytes:
  assumes "ram_ok s a" "ram_ok s b" "drop_bit 2 a = drop_bit 2 b"
  shows "\<exists>t u. mem_write_word env (Suc n) s a d = Inr t \<and>
    mem_read_byte env (Suc n) t b =
      Inr (drop_bit (8 * (if bigendSig s = 1 then 3 - unat b mod 4 else unat b mod 4)) d AND 0xff, u)"
proof -
  have big: "bigendSig s \<le> 1" using assms by (simp add: ram_ok_def)
  obtain t where t: "mem_write_word env (Suc n) s a d = Inr t" "poke s a d t"
    using mem_write_ram(1) [OF assms(1)] by blast
  note p = poke_peek [OF t(2) assms(1)]
  have "ram_ok t b" using p(2) assms(2) by simp
  then obtain u where u: "mem_read_byte env (Suc n) t b = Inr (peek_byte t b, u)"
    using mem_read_ram(3) by blast
  have "peek_byte t b = drop_bit (byte_offset (bigendSig s) b) d AND 0xff"
    unfolding peek_byte_def p(1) p(3) [OF assms(2)] by (simp only: assms(3) simp_thms if_True)
  then show ?thesis using t(1) u byte_offset_value [OF big, of b] by simp
qed

lemma load_words_length: "load_words big ps = Inr ws \<Longrightarrow> length ps = 4 * length ws"
  by (induction big ps arbitrary: ws rule: load_words.induct) (auto simp: bind_ok_Inr_iff)

lemma word_of_bytes_byte:
  fixes p0 p1 p2 p3 :: ARMbyte
  defines "w \<equiv> (ucast p0 OR push_bit 8 (ucast p1) OR push_bit 16 (ucast p2) OR push_bit 24 (ucast p3) :: ARMword)"
  shows "w AND 0xff = ucast p0" "drop_bit 8 w AND 0xff = ucast p1"
    "drop_bit 16 w AND 0xff = ucast p2" "drop_bit 24 w AND 0xff = ucast p3"
proof -
  have hi: "\<not> bit p n" if "8 \<le> n" for p :: ARMbyte and n
    using bit_imp_le_length [of p n] that by auto
  show "w AND 0xff = ucast p0" "drop_bit 8 w AND 0xff = ucast p1"
    "drop_bit 16 w AND 0xff = ucast p2" "drop_bit 24 w AND 0xff = ucast p3"
    unfolding w_def
    by (rule word32_eqI, simp only: all_less_32_iff, simp add: bit_simps hi)+
qed

lemma load_words_byte:
  assumes "load_words big ps = Inr ws" "k < length ps"
  shows "drop_bit (8 * (if big then 3 - k mod 4 else k mod 4)) (ws ! (k div 4)) AND 0xff = ucast (ps ! k)"
  using assms
proof (induction big ps arbitrary: ws k rule: load_words.induct)
  case (2 big p0 p1 p2 p3 ps)
  obtain vs where vs: "load_words big ps = Inr vs" and ws: "ws = (if big
             then ucast p3 OR push_bit 8 (ucast p2) OR push_bit 16 (ucast p1) OR push_bit 24 (ucast p0)
             else ucast p0 OR push_bit 8 (ucast p1) OR push_bit 16 (ucast p2) OR push_bit 24 (ucast p3)) # vs"
    using 2(2) by (auto simp: bind_ok_Inr_iff)
  show ?case
  proof (cases "k < 4")
    case True
    then consider "k = 0" | "k = 1" | "k = 2" | "k = 3" by linarith
    then show ?thesis
      by cases (simp_all only: ws, simp_all add: word_of_bytes_byte del: drop_bit_or drop_bit_and)
  next
    case False
    define j where "j = k - 4"
    have k: "k = j + 4" using False j_def by simp
    have km: "k mod 4 = j mod 4" "k div 4 = Suc (j div 4)" using k by simp_all
    have kn: "(p0 # p1 # p2 # p3 # ps) ! k = ps ! j" using k by (simp add: numeral_eq_Suc)
    have "j < length ps" using 2(3) k by simp
    from 2(1) [OF vs this] show ?thesis unfolding km kn ws nth_Cons_Suc .
  qed
qed auto


text \<open>
  Loading an image keeps its bytes: in the words that \<^verbatim>\<open>mem_reset\<close> makes from the file, the byte
  that the processor reads at offset \<open>k\<close> is byte \<open>k\<close> of the file, in either byte order.
\<close>

lemma image_load_roundtrip:
  assumes "load_words big ps = Inr ws" "k < length ps"
  shows "drop_bit (byte_offset (of_bool big) (of_nat k)) (ws ! (k div 4)) AND 0xff = ucast (ps ! k)"
proof -
  have "unat (of_nat k :: ARMword) mod 4 = k mod 4"
    by (simp add: unat_of_nat mod_mod_cancel)
  then have "byte_offset (of_bool big) (of_nat k) = 8 * (if big then 3 - k mod 4 else k mod 4)"
    by (subst byte_offset_value) auto
  then show ?thesis using load_words_byte [OF assms] by simp
qed

lemma image_load_roundtrip_witness:
  "drop_bit (byte_offset (of_bool True) (of_nat 1)) ([0x01020304 :: ARMword] ! (1 div 4)) AND 0xff
    = ucast ([1, 2, 3, 4 :: ARMbyte] ! 1)"
  by (rule image_load_roundtrip [of True "[1, 2, 3, 4]"]) simp_all

text \<open>
  An access through an alias bank is the access at the aliased address: reader and writer go on
  at the destination, one call deeper.
\<close>

lemma alias_access:
  assumes "banks_disjoint (mem_banks (mem s))" "cache_ok (mem s)" "vector_remap_flag s = 0"
    and "i < length (live_banks (mem_banks (mem s)))" "in_bank (mem_banks (mem s) ! i) a"
    and "mb_read (mem_banks (mem s) ! i) = Some AliasRead" "mb_write (mem_banks (mem s) ! i) = Some AliasWrite"
  shows "\<exists>t. same_memory s t
    \<and> mem_read_word env (Suc n) s a = mem_read_word env n t (a - mb_addr (mem_banks (mem s) ! i) + mb_dest (mem_banks (mem s) ! i))
    \<and> mem_write_word env (Suc n) s a d =
        mem_write_word env n t (a - mb_addr (mem_banks (mem s) ! i) + mb_dest (mem_banks (mem s) ! i)) d"
proof -
  obtain g t where t: "set_global_mbp a s = (g, t)" "same_memory s t" "mem_banks (mem t) = mem_banks (mem s)"
    and g: "g = Some i \<longleftrightarrow> i < length (live_banks (mem_banks (mem s))) \<and> in_bank (mem_banks (mem s) ! i) a"
    by (rule set_global_mbp_spec [OF assms(1,2), of a]) blast
  then show ?thesis using assms
    by (intro exI [of _ t]) (simp add: remap_read_def alias_addr_def Let_def)
qed

lemma alias_access_witness:
  "\<exists>t. same_memory demo_state t
    \<and> mem_read_word bare_env (Suc 1) demo_state 0x10000010 = mem_read_word bare_env 1 t
        (0x10000010 - mb_addr (mem_banks (mem demo_state) ! 1) + mb_dest (mem_banks (mem demo_state) ! 1))
    \<and> mem_write_word bare_env (Suc 1) demo_state 0x10000010 7 = mem_write_word bare_env 1 t
        (0x10000010 - mb_addr (mem_banks (mem demo_state) ! 1) + mb_dest (mem_banks (mem demo_state) ! 1)) 7"
proof (rule alias_access)
  show "banks_disjoint (mem_banks (mem demo_state))" "cache_ok (mem demo_state)"
    by (simp_all add: demo_state_def demo_disjoint demo_cache_ok)
  show "1 < length (live_banks (mem_banks (mem demo_state)))"
    by (simp add: demo_state_def demo_live) (simp add: demo_mem_def)
qed (simp_all add: demo_state_def demo_mem_def in_bank_def)

text \<open>
  An alias bank whose destination is in the bank itself never answers: however deep the stack,
  the access ends in its overflow.
\<close>

lemma alias_loop_diverges:
  assumes "banks_disjoint (mem_banks (mem s))" "cache_ok (mem s)" "vector_remap_flag s = 0"
    and "i < length (live_banks (mem_banks (mem s)))" "in_bank (mem_banks (mem s) ! i) a"
    and "mb_read (mem_banks (mem s) ! i) = Some AliasRead"
    and "mb_dest (mem_banks (mem s) ! i) = mb_addr (mem_banks (mem s) ! i)"
  shows "mem_read_word env n s a = Inl StackOverflow"
  using assms
proof (induction n arbitrary: s)
  case (Suc n)
  obtain g t where t: "set_global_mbp a s = (g, t)" "mem_banks (mem t) = mem_banks (mem s)"
      "vector_remap_flag t = vector_remap_flag s" "cache_ok (mem t)"
    and g: "g = Some i \<longleftrightarrow> i < length (live_banks (mem_banks (mem s))) \<and> in_bank (mem_banks (mem s) ! i) a"
    by (rule set_global_mbp_spec [OF Suc.prems(1,2), of a]) blast
  have "mem_read_word env n t a = Inl StackOverflow"
    using Suc.prems t by (intro Suc.IH) simp_all
  then show ?case using Suc.prems t g by (simp add: remap_read_def alias_addr_def Let_def)
qed simp

definition loop_mem :: mem_state_t where
  "loop_mem = \<lparr>rom = (\<lambda>_ _. 0),
     mem_banks = [\<lparr>mb_read = Some AliasRead, mb_write = Some AliasWrite, mb_addr = 0x1000, mb_len = 0x1000,
                   mb_dest = 0x1000\<rparr>], mbp_cache = None, global_mbp = None\<rparr>"

lemma alias_loop_diverges_witness:
  "mem_read_word bare_env 1000 (boot_state\<lparr>mem := loop_mem\<rparr>) 0x1004 = Inl StackOverflow"
  by (rule alias_loop_diverges [where i = 0])
    (simp_all add: loop_mem_def banks_disjoint_def live_banks_def cache_ok_def in_bank_def)

text \<open>
  Outside the memory map the widths differ: a byte write ends the simulator, a halfword or word
  write is dropped, and every read returns 0.
\<close>

lemma unmapped_access:
  assumes "banks_disjoint (mem_banks (mem s))" "cache_ok (mem s)" "vector_remap_flag s = 0"
    and "\<forall>i<length (live_banks (mem_banks (mem s))). \<not> in_bank (mem_banks (mem s) ! i) a"
  shows "mem_write_byte env (Suc n) s a d = Inl SkyeyeExit
    \<and> (\<exists>t. mem_write_halfword env (Suc n) s a d = Inr t \<and> same_memory s t)
    \<and> (\<exists>t. mem_write_word env (Suc n) s a d = Inr t \<and> same_memory s t)
    \<and> (\<exists>t. mem_read_word env (Suc n) s a = Inr (0, t) \<and> same_memory s t)"
proof -
  obtain g t where t: "set_global_mbp a s = (g, t)" "same_memory s t"
    and g: "\<And>i. g = Some i \<longleftrightarrow> i < length (live_banks (mem_banks (mem s))) \<and> in_bank (mem_banks (mem s) ! i) a"
    by (rule set_global_mbp_spec [OF assms(1,2), of a]) blast
  have "g = None" using g assms(4) by (metis not_None_eq)
  then show ?thesis using assms t by (auto simp: remap_read_def)
qed

lemma unmapped_access_witness:
  "mem_write_byte bare_env (Suc 0) demo_state 0x20000000 1 = Inl SkyeyeExit
    \<and> (\<exists>t. mem_write_halfword bare_env (Suc 0) demo_state 0x20000000 1 = Inr t \<and> same_memory demo_state t)
    \<and> (\<exists>t. mem_write_word bare_env (Suc 0) demo_state 0x20000000 1 = Inr t \<and> same_memory demo_state t)
    \<and> (\<exists>t. mem_read_word bare_env (Suc 0) demo_state 0x20000000 = Inr (0, t) \<and> same_memory demo_state t)"
proof (rule unmapped_access)
  show "banks_disjoint (mem_banks (mem demo_state))" "cache_ok (mem demo_state)"
    by (simp_all add: demo_state_def demo_disjoint demo_cache_ok)
  show "\<forall>i<length (live_banks (mem_banks (mem demo_state))). \<not> in_bank (mem_banks (mem demo_state) ! i) 0x20000000"
    by (simp add: demo_state_def demo_live) (auto simp: demo_mem_def in_bank_def less_Suc_eq)
qed (simp add: demo_state_def)


end
