(* ===== verification/Sha1.thy ===== *)
theory Sha1
  imports Prelude
begin

text \<open>
  The hash engine of the Starlet, \<^verbatim>\<open>arch/arm/mach/sha1.c\<close>: a streaming SHA-1 with its context structure. The
  reference at the end is the definition of the standard, on whole messages; the theorem shows that the
  streaming code computes it for every way in which a message is cut into pieces.
\<close>

unbundle bit_operations_syntax

section \<open>The code\<close>

type_synonym octet = "8 word"

record SHA1Context =
  Message_Digest :: "ARMword list"
  Length_Low :: ARMword
  Length_High :: ARMword
  Message_Block :: "octet list"
  Message_Block_Index :: nat
  Computed :: bool
  Corrupted :: bool

definition SHA1CircularShift :: "nat \<Rightarrow> ARMword \<Rightarrow> ARMword" where
  "SHA1CircularShift bits w = (push_bit bits w AND 0xFFFFFFFF) OR drop_bit (32 - bits) w"

definition SHA1Reset :: "SHA1Context \<Rightarrow> SHA1Context" where
  "SHA1Reset c =
     c\<lparr>Length_Low := 0, Length_High := 0, Message_Block_Index := 0,
       Message_Digest := [0x67452301, 0xEFCDAB89, 0x98BADCFE, 0x10325476, 0xC3D2E1F0],
       Computed := False, Corrupted := False\<rparr>"

text \<open>The word sequence: sixteen words of the block, extended to eighty.\<close>

definition block_word :: "octet list \<Rightarrow> nat \<Rightarrow> ARMword" where
  "block_word mb t =
     push_bit 24 (ucast (mb ! (t * 4))) OR push_bit 16 (ucast (mb ! (t * 4 + 1)))
     OR push_bit 8 (ucast (mb ! (t * 4 + 2))) OR ucast (mb ! (t * 4 + 3))"

definition extend_word :: "nat \<Rightarrow> ARMword list \<Rightarrow> ARMword list" where
  "extend_word t W =
     W @ [SHA1CircularShift 1 (W ! (t - 3) XOR W ! (t - 8) XOR W ! (t - 14) XOR W ! (t - 16))]"

definition word_sequence :: "octet list \<Rightarrow> ARMword list" where
  "word_sequence mb = fold extend_word [16..<80] (map (block_word mb) [0..<16])"

type_synonym buffers = "ARMword \<times> ARMword \<times> ARMword \<times> ARMword \<times> ARMword"

definition sha1_step ::
  "(ARMword \<Rightarrow> ARMword \<Rightarrow> ARMword \<Rightarrow> ARMword) \<Rightarrow> ARMword \<Rightarrow> ARMword list \<Rightarrow> nat \<Rightarrow> buffers \<Rightarrow> buffers" where
  "sha1_step f k W t = (\<lambda>(A, B, C, D, E).
     ((SHA1CircularShift 5 A + f B C D + E + W ! t + k) AND 0xFFFFFFFF, A, SHA1CircularShift 30 B, C, D))"

definition f_choose :: "ARMword \<Rightarrow> ARMword \<Rightarrow> ARMword \<Rightarrow> ARMword" where
  "f_choose B C D = (B AND C) OR (NOT B AND D)"

definition f_parity :: "ARMword \<Rightarrow> ARMword \<Rightarrow> ARMword \<Rightarrow> ARMword" where
  "f_parity B C D = B XOR C XOR D"

definition f_majority :: "ARMword \<Rightarrow> ARMword \<Rightarrow> ARMword \<Rightarrow> ARMword" where
  "f_majority B C D = (B AND C) OR (B AND D) OR (C AND D)"

definition SHA1ProcessMessageBlock :: "SHA1Context \<Rightarrow> SHA1Context" where
  "SHA1ProcessMessageBlock c =
     (let W = word_sequence (Message_Block c); H = Message_Digest c;
          v = (H ! 0, H ! 1, H ! 2, H ! 3, H ! 4);
          v = fold (sha1_step f_choose 0x5A827999 W) [0..<20] v;
          v = fold (sha1_step f_parity 0x6ED9EBA1 W) [20..<40] v;
          v = fold (sha1_step f_majority 0x8F1BBCDC W) [40..<60] v;
          (A, B, C, D, E) = fold (sha1_step f_parity 0xCA62C1D6 W) [60..<80] v
      in c\<lparr>Message_Digest := [H ! 0 + A, H ! 1 + B, H ! 2 + C, H ! 3 + D, H ! 4 + E],
           Message_Block_Index := 0\<rparr>)"

definition put_octet :: "octet \<Rightarrow> SHA1Context \<Rightarrow> SHA1Context" where
  "put_octet b c =
     c\<lparr>Message_Block := (Message_Block c)[Message_Block_Index c := b],
       Message_Block_Index := Message_Block_Index c + 1\<rparr>"

definition count_bits :: "SHA1Context \<Rightarrow> SHA1Context" where
  "count_bits c =
     (let c = c\<lparr>Length_Low := Length_Low c + 8\<rparr>
      in if Length_Low c = 0
         then let c = c\<lparr>Length_High := Length_High c + 1\<rparr>
              in if Length_High c = 0 then c\<lparr>Corrupted := True\<rparr> else c
         else c)"

definition input_octet :: "octet \<Rightarrow> SHA1Context \<Rightarrow> SHA1Context" where
  "input_octet b c =
     (let c = count_bits (put_octet b c)
      in if Message_Block_Index c = 64 then SHA1ProcessMessageBlock c else c)"

fun input_loop :: "octet list \<Rightarrow> SHA1Context \<Rightarrow> SHA1Context" where
  "input_loop [] c = c"
| "input_loop (b # bs) c = (if Corrupted c then c else input_loop bs (input_octet b c))"

definition SHA1Input :: "octet list \<Rightarrow> SHA1Context \<Rightarrow> SHA1Context" where
  "SHA1Input message c =
     (if message = [] then c
      else if Computed c \<or> Corrupted c then c\<lparr>Corrupted := True\<rparr>
      else input_loop message c)"

text \<open>The loops that fill the block with zeros up to a position.\<close>

definition pad_zeros :: "nat \<Rightarrow> SHA1Context \<Rightarrow> SHA1Context" where
  "pad_zeros n c = fold (\<lambda>_. put_octet 0) [Message_Block_Index c..<n] c"

definition put_length :: "SHA1Context \<Rightarrow> SHA1Context" where
  "put_length c =
     (let h = Length_High c; l = Length_Low c
      in c\<lparr>Message_Block := (Message_Block c)[56 := ucast (drop_bit 24 h), 57 := ucast (drop_bit 16 h),
             58 := ucast (drop_bit 8 h), 59 := ucast h, 60 := ucast (drop_bit 24 l), 61 := ucast (drop_bit 16 l),
             62 := ucast (drop_bit 8 l), 63 := ucast l]\<rparr>)"

definition SHA1PadMessage :: "SHA1Context \<Rightarrow> SHA1Context" where
  "SHA1PadMessage c =
     (let c = (if Message_Block_Index c > 55
               then pad_zeros 56 (SHA1ProcessMessageBlock (pad_zeros 64 (put_octet 0x80 c)))
               else pad_zeros 56 (put_octet 0x80 c))
      in SHA1ProcessMessageBlock (put_length c))"

definition SHA1Result :: "SHA1Context \<Rightarrow> bool \<times> SHA1Context" where
  "SHA1Result c =
     (if Corrupted c then (False, c)
      else (True, if \<not> Computed c then (SHA1PadMessage c)\<lparr>Computed := True\<rparr> else c))"

section \<open>The standard\<close>

text \<open>The message schedule, the round functions and constants, and the compression of one block.\<close>

fun schedule :: "octet list \<Rightarrow> nat \<Rightarrow> ARMword" where
  "schedule b t =
     (if t < 16 then block_word b t
      else word_rotl 1 (schedule b (t - 3) XOR schedule b (t - 8) XOR schedule b (t - 14) XOR schedule b (t - 16)))"

declare schedule.simps [simp del]

definition round_function :: "nat \<Rightarrow> ARMword \<Rightarrow> ARMword \<Rightarrow> ARMword \<Rightarrow> ARMword" where
  "round_function t = (if t < 20 then f_choose else if 40 \<le> t \<and> t < 60 then f_majority else f_parity)"

definition round_constant :: "nat \<Rightarrow> ARMword" where
  "round_constant t =
     (if t < 20 then 0x5A827999 else if t < 40 then 0x6ED9EBA1 else if t < 60 then 0x8F1BBCDC else 0xCA62C1D6)"

definition sha1_round :: "octet list \<Rightarrow> nat \<Rightarrow> buffers \<Rightarrow> buffers" where
  "sha1_round b t = (\<lambda>(A, B, C, D, E).
     (word_rotl 5 A + round_function t B C D + E + schedule b t + round_constant t, A, word_rotl 30 B, C, D))"

definition compress :: "octet list \<Rightarrow> ARMword list \<Rightarrow> ARMword list" where
  "compress b H =
     (case fold (sha1_round b) [0..<80] (H ! 0, H ! 1, H ! 2, H ! 3, H ! 4) of
        (A, B, C, D, E) \<Rightarrow> [H ! 0 + A, H ! 1 + B, H ! 2 + C, H ! 3 + D, H ! 4 + E])"

definition initial_digest :: "ARMword list" where
  "initial_digest = [0x67452301, 0xEFCDAB89, 0x98BADCFE, 0x10325476, 0xC3D2E1F0]"

text \<open>A message is padded to whole blocks by a one bit, zeros, and its length in bits as 64-bit number.\<close>

definition length_octets :: "nat \<Rightarrow> octet list" where
  "length_octets n = map (\<lambda>i. of_nat (n div 256 ^ (7 - i))) [0..<8]"

definition pad_message :: "octet list \<Rightarrow> octet list" where
  "pad_message m =
     m @ 0x80 # replicate ((119 - length m mod 64) mod 64) 0 @ length_octets (8 * length m)"

fun blocks :: "'a list \<Rightarrow> 'a list list" where
  "blocks xs = (if length xs < 64 then [] else take 64 xs # blocks (drop 64 xs))"

declare blocks.simps [simp del]

definition sha1 :: "octet list \<Rightarrow> ARMword list" where
  "sha1 m = fold compress (blocks (pad_message m)) initial_digest"

section \<open>One block\<close>

lemma and_all_ones: "(w :: ARMword) AND 0xFFFFFFFF = w"
proof -
  have "(0xFFFFFFFF :: ARMword) = NOT 0" by (simp flip: mask_eq_exp_minus_1)
  then show ?thesis by (simp only: and.right_neutral bit.compl_zero)
qed

lemma CircularShift_rotl:
  assumes "0 < n" "n < 32"
  shows "SHA1CircularShift n w = word_rotl n w"
proof (rule bit_word_eqI)
  fix i assume i: "i < LENGTH(32)"
  have rot: "(i + (32 - n)) mod 32 = (if n \<le> i then i - n else i + (32 - n))"
    using assms i by (simp add: mod_if)
  have high: "\<not> bit w (32 - n + i)" if "n \<le> i"
    using assms that bit_imp_le_length [of w "32 - n + i"] by (auto simp del: Suc_numeral)
  have "bit (word_rotl n w) i \<longleftrightarrow> bit w (if n \<le> i then i - n else i + (32 - n))"
    using assms i by (simp only: bit_word_rotl_iff rot mod_less len_num1 flip: rot) simp
  moreover have "bit (SHA1CircularShift n w) i \<longleftrightarrow> n \<le> i \<and> bit w (i - n) \<or> bit w (32 - n + i)"
    using i by (simp only: SHA1CircularShift_def and_all_ones bit_or_iff bit_push_bit_iff bit_drop_bit_eq comp_def) simp
  ultimately show "bit (SHA1CircularShift n w) i \<longleftrightarrow> bit (word_rotl n w) i"
    using high by (simp add: add.commute)
qed

lemma extend_words:
  "fold extend_word [16..<16 + n] (map (block_word b) [0..<16]) = map (schedule b) [0..<16 + n]"
proof (induction n)
  case 0
  show ?case by (auto simp: schedule.simps)
next
  case (Suc n)
  have "extend_word (16 + n) (map (schedule b) [0..<16 + n]) = map (schedule b) [0..<16 + n] @ [schedule b (16 + n)]"
    by (subst schedule.simps) (simp add: extend_word_def CircularShift_rotl)
  then show ?case using Suc upt_Suc_append [of 16 "16 + n"] upt_Suc_append [of 0 "16 + n"]
    by (simp only: add_Suc_right fold_append comp_def fold_simps map_append list.map le_add1 le0)
qed

lemma word_sequence_schedule: "word_sequence b = map (schedule b) [0..<80]"
  using extend_words [of 64 b] unfolding word_sequence_def by (simp only: add_num_simps numeral_plus_numeral)

lemma fold_rounds:
  assumes "\<And>t. i \<le> t \<Longrightarrow> t < j \<Longrightarrow> round_function t = f \<and> round_constant t = k" "j \<le> 80"
  shows "fold (sha1_step f k (map (schedule b) [0..<80])) [i..<j] = fold (sha1_round b) [i..<j]"
proof (rule ext, rule fold_cong)
  fix t assume "t \<in> set [i..<j]"
  then have "i \<le> t" "t < j" by auto
  then show "sha1_step f k (map (schedule b) [0..<80]) t = sha1_round b t"
    using assms(1) [of t] assms(2)
    by (auto simp: fun_eq_iff sha1_step_def sha1_round_def CircularShift_rotl and_all_ones add_ac)
qed simp_all

lemma four_twenties: "[0..<80] = [0..<20] @ [20..<40] @ [40..<60] @ [60..<80]"
  using upt_add_eq_append [of 0 20 60] upt_add_eq_append [of 20 40 40] upt_add_eq_append [of 40 60 20]
    upt_add_eq_append [of 20 40 20] upt_add_eq_append [of 20 40 20] upt_add_eq_append [of 20 40 20]
  by simp

lemma Process_compress:
  "SHA1ProcessMessageBlock c =
     c\<lparr>Message_Digest := compress (Message_Block c) (Message_Digest c), Message_Block_Index := 0\<rparr>"
proof -
  have "fold (sha1_step f_choose 0x5A827999 (map (schedule b) [0..<80])) [0..<20] = fold (sha1_round b) [0..<20]"
    "fold (sha1_step f_parity 0x6ED9EBA1 (map (schedule b) [0..<80])) [20..<40] = fold (sha1_round b) [20..<40]"
    "fold (sha1_step f_majority 0x8F1BBCDC (map (schedule b) [0..<80])) [40..<60] = fold (sha1_round b) [40..<60]"
    "fold (sha1_step f_parity 0xCA62C1D6 (map (schedule b) [0..<80])) [60..<80] = fold (sha1_round b) [60..<80]" for b
    by (rule fold_rounds; simp add: round_function_def round_constant_def)+
  then show ?thesis
    unfolding SHA1ProcessMessageBlock_def Let_def word_sequence_schedule compress_def
    by (subst four_twenties) (simp only: fold_append comp_def, simp split: prod.split)
qed

section \<open>The stream\<close>

text \<open>
  The buffer while a message goes through it: the whole blocks \<^term>\<open>p\<close> have been compressed and the octets
  \<^term>\<open>t\<close> wait in the message block.
\<close>

definition holds :: "octet list \<Rightarrow> octet list \<Rightarrow> SHA1Context \<Rightarrow> bool" where
  "holds p t c \<longleftrightarrow>
     64 dvd length p \<and> length t \<le> 64 \<and> length (Message_Block c) = 64 \<and> Message_Block_Index c = length t
     \<and> take (length t) (Message_Block c) = t \<and> Message_Digest c = fold compress (blocks p) initial_digest"

definition bit_count :: "SHA1Context \<Rightarrow> nat" where
  "bit_count c = unat (Length_High c) * 2 ^ 32 + unat (Length_Low c)"

lemma blocks_short [simp]: "length xs < 64 \<Longrightarrow> blocks xs = []"
  by (simp add: blocks.simps)

lemma blocks_one: "length xs = 64 \<Longrightarrow> blocks xs = [xs]"
  by (simp add: blocks.simps)

lemma blocks_append: "64 dvd length xs \<Longrightarrow> blocks (xs @ ys) = blocks xs @ blocks ys"
proof (induction xs rule: blocks.induct)
  case (1 xs)
  show ?case
  proof (cases "length xs < 64")
    case True
    then have "xs = []" using 1(2) by (auto dest: nat_dvd_not_less)
    then show ?thesis by simp
  next
    case False
    then have "blocks (drop 64 xs @ ys) = blocks (drop 64 xs) @ blocks ys"
      using 1 by (simp add: dvd_diff_nat)
    then show ?thesis using False by (simp add: blocks.simps [of "xs @ ys"] blocks.simps [of xs])
  qed
qed

lemma put_octet_other [simp]:
  "Computed (put_octet b c) = Computed c" "Corrupted (put_octet b c) = Corrupted c"
  "Length_Low (put_octet b c) = Length_Low c" "Length_High (put_octet b c) = Length_High c"
  "Message_Digest (put_octet b c) = Message_Digest c"
  by (simp_all add: put_octet_def)

lemma Process_other [simp]:
  "Computed (SHA1ProcessMessageBlock c) = Computed c" "Corrupted (SHA1ProcessMessageBlock c) = Corrupted c"
  "Length_Low (SHA1ProcessMessageBlock c) = Length_Low c" "Length_High (SHA1ProcessMessageBlock c) = Length_High c"
  by (simp_all add: Process_compress)

lemma holds_put: "holds p t c \<Longrightarrow> length t < 64 \<Longrightarrow> holds p (t @ [b]) (put_octet b c)"
  by (simp add: holds_def put_octet_def take_Suc_conv_app_nth)

lemma holds_process: "holds p t c \<Longrightarrow> length t = 64 \<Longrightarrow> holds (p @ t) [] (SHA1ProcessMessageBlock c)"
  by (auto simp: holds_def Process_compress blocks_append blocks_one)

lemma holds_zeros:
  "holds p t c \<Longrightarrow> length t + k \<le> 64 \<Longrightarrow>
     holds p (t @ replicate k 0) (fold (\<lambda>_. put_octet 0) [length t..<length t + k] c)"
proof (induction k)
  case (Suc k)
  then have "holds p ((t @ replicate k 0) @ [0]) (put_octet 0 (fold (\<lambda>_. put_octet 0) [length t..<length t + k] c))"
    by (intro holds_put) auto
  then show ?case by (simp add: replicate_append_same)
qed simp

lemma fold_put_other [simp]:
  "Computed (fold (\<lambda>_. put_octet b) xs c) = Computed c" "Corrupted (fold (\<lambda>_. put_octet b) xs c) = Corrupted c"
  "Length_Low (fold (\<lambda>_. put_octet b) xs c) = Length_Low c"
  "Length_High (fold (\<lambda>_. put_octet b) xs c) = Length_High c"
  by (induction xs arbitrary: c) simp_all

lemma holds_pad_zeros:
  assumes "holds p t c" "length t \<le> n" "n \<le> 64"
  shows "holds p (t @ replicate (n - length t) 0) (pad_zeros n c)"
  using holds_zeros [OF assms(1), of "n - length t"] assms by (simp add: pad_zeros_def holds_def)

lemma pad_zeros_other [simp]:
  "Computed (pad_zeros n c) = Computed c" "Corrupted (pad_zeros n c) = Corrupted c"
  "Length_Low (pad_zeros n c) = Length_Low c" "Length_High (pad_zeros n c) = Length_High c"
  by (simp_all add: pad_zeros_def)

lemma count_bits_other [simp]:
  "Computed (count_bits c) = Computed c" "holds p t (count_bits c) = holds p t c"
  by (simp_all add: count_bits_def holds_def Let_def)

lemma count_bits_count:
  assumes "8 dvd bit_count c"
  shows "if bit_count c + 8 < 2 ^ 64 then bit_count (count_bits c) = bit_count c + 8 \<and> Corrupted (count_bits c) = Corrupted c
         else Corrupted (count_bits c)"
proof -
  define l h where "l = unat (Length_Low c)" "h = unat (Length_High c)"
  have less: "l < 2 ^ 32" "h < 2 ^ 32" using unsigned_less [of "Length_Low c", where 'a = nat] unsigned_less [of "Length_High c", where 'a = nat]
    by (simp_all add: l_h_def)
  have "8 dvd h * 2 ^ 32" by simp
  then have "l mod 8 = 0"
    using assms unfolding bit_count_def l_h_def by (simp only: dvd_add_right_iff mod_eq_0_iff_dvd)
  then have step: "l = 2 ^ 32 - 8 \<or> l + 8 < 2 ^ 32" using less(1) by simp presburger
  then have l: "unat (Length_Low c + 8) = (if l = 2 ^ 32 - 8 then 0 else l + 8)"
    unfolding l_h_def by (auto simp: unat_word_ariths)
  have h: "unat (Length_High c + 1) = (if h = 2 ^ 32 - 1 then 0 else h + 1)"
    using less unfolding l_h_def by (auto simp: unat_word_ariths mod_if)
  have z: "Length_Low c + 8 = 0 \<longleftrightarrow> l = 2 ^ 32 - 8" "Length_High c + 1 = 0 \<longleftrightarrow> h = 2 ^ 32 - 1"
    using l h by (simp_all add: unat_eq_0 [symmetric] del: unat_eq_0)
  show ?thesis
    using less step unfolding count_bits_def Let_def bit_count_def
    by (auto simp: l h z simp flip: l_h_def)
qed

text \<open>The context after the octets \<^term>\<open>m\<close>; past the 64-bit length counter it is marked corrupted instead.\<close>

definition after_octets :: "octet list \<Rightarrow> SHA1Context \<Rightarrow> bool" where
  "after_octets m c \<longleftrightarrow>
     \<not> Computed c \<and>
     (if 8 * length m < 2 ^ 64
      then \<not> Corrupted c \<and> bit_count c = 8 * length m \<and> (\<exists>p t. m = p @ t \<and> length t < 64 \<and> holds p t c)
      else Corrupted c)"

lemma bit_count_process [simp]: "bit_count (SHA1ProcessMessageBlock c) = bit_count c"
  by (simp add: bit_count_def)

lemma bit_count_put [simp]: "bit_count (put_octet b c) = bit_count c"
  by (simp add: bit_count_def)

lemma input_octet_holds:
  assumes "holds p t c" "length t < 64"
  shows "\<exists>p' t'. p @ t @ [b] = p' @ t' \<and> length t' < 64 \<and> holds p' t' (input_octet b c)"
proof -
  let ?c = "count_bits (put_octet b c)"
  have c: "holds p (t @ [b]) ?c" using holds_put [OF assms] by simp
  show ?thesis
  proof (cases "length t = 63")
    case True
    then have "Message_Block_Index ?c = 64" using c by (simp add: holds_def)
    then show ?thesis using holds_process [OF c] True
      by (intro exI [of _ "p @ t @ [b]"] exI [of _ "[]"]) (simp add: input_octet_def Let_def)
  next
    case False
    then have "Message_Block_Index ?c \<noteq> 64" using c by (simp add: holds_def)
    then show ?thesis using c False assms(2)
      by (intro exI [of _ p] exI [of _ "t @ [b]"]) (simp add: input_octet_def Let_def)
  qed
qed

lemma input_octet_after:
  assumes "after_octets m c" "\<not> Corrupted c"
  shows "after_octets (m @ [b]) (input_octet b c)"
proof -
  have m: "8 * length m < 2 ^ 64" using assms by (auto simp: after_octets_def split: if_splits)
  then obtain p t where pt: "m = p @ t" "length t < 64" "holds p t c" and n: "bit_count c = 8 * length m"
    using assms by (auto simp: after_octets_def)
  have "if 8 * length m + 8 < 2 ^ 64
        then bit_count (count_bits (put_octet b c)) = 8 * length m + 8 \<and> \<not> Corrupted (count_bits (put_octet b c))
        else Corrupted (count_bits (put_octet b c))"
    using count_bits_count [of "put_octet b c"] n assms(2) by simp
  then have bits: "if 8 * length m + 8 < 2 ^ 64
        then bit_count (input_octet b c) = 8 * length m + 8 \<and> \<not> Corrupted (input_octet b c)
        else Corrupted (input_octet b c)"
    by (simp add: input_octet_def Let_def)
  have "\<not> Computed (input_octet b c)" using assms by (simp add: input_octet_def after_octets_def Let_def)
  then show ?thesis using bits input_octet_holds [OF pt(3,2), of b] pt(1)
    by (simp add: after_octets_def split: if_splits)
qed

lemma input_loop_after: "after_octets m c \<Longrightarrow> after_octets (m @ bs) (input_loop bs c)"
proof (induction bs arbitrary: m c)
  case (Cons b bs)
  show ?case
  proof (cases "Corrupted c")
    case True
    then show ?thesis using Cons.prems by (auto simp: after_octets_def split: if_splits)
  next
    case False
    then show ?thesis using Cons.IH [OF input_octet_after [OF Cons.prems False, of b]] by simp
  qed
qed simp

lemma Input_after:
  assumes "after_octets m c"
  shows "after_octets (m @ bs) (SHA1Input bs c)"
proof (cases "Corrupted c")
  case True
  then show ?thesis using assms by (auto simp: SHA1Input_def after_octets_def split: if_splits)
next
  case False
  then have "SHA1Input bs c = input_loop bs c" using assms by (simp add: SHA1Input_def after_octets_def)
  then show ?thesis using input_loop_after [OF assms, of bs] by simp
qed

lemma Input_pieces_after: "after_octets m c \<Longrightarrow> after_octets (m @ concat msgs) (fold SHA1Input msgs c)"
proof (induction msgs arbitrary: m c)
  case (Cons x msgs)
  then show ?case using Cons.IH [OF Input_after [OF Cons.prems, of x]] by simp
qed simp

lemma Reset_after: "length (Message_Block c) = 64 \<Longrightarrow> after_octets [] (SHA1Reset c)"
  by (simp add: after_octets_def SHA1Reset_def holds_def bit_count_def initial_digest_def)

section \<open>The padding\<close>

lemma length_octets_bytes:
  "length_octets (unat h * 2 ^ 32 + unat l) =
     [ucast (drop_bit 24 h), ucast (drop_bit 16 h), ucast (drop_bit 8 h), ucast h,
      ucast (drop_bit 24 l), ucast (drop_bit 16 l), ucast (drop_bit 8 l), ucast (l :: ARMword)]"
  for h :: ARMword
proof -
  have byte: "ucast (drop_bit k w) = (of_nat (unat w div 2 ^ k) :: octet)" for k and w :: ARMword
    by (metis of_nat_unat unat_drop_bit_eq drop_bit_eq_div)
  have low: "(of_nat ((unat h * 2 ^ 32 + unat l) div 2 ^ k) :: octet) = of_nat (unat l div 2 ^ k)" if "k \<le> 24" for k
  proof -
    have "(2 :: nat) ^ 32 = 2 ^ ((24 - k) + 8 + k)" using that by simp
    then have "unat h * 2 ^ 32 + unat l = (unat h * 2 ^ (24 - k) * 2 ^ 8) * 2 ^ k + unat l"
      by (simp only: power_add mult.assoc)
    then have "(unat h * 2 ^ 32 + unat l) div 2 ^ k = unat h * 2 ^ (24 - k) * 2 ^ 8 + unat l div 2 ^ k"
      by (simp only: div_mult_self3 power_not_zero zero_neq_numeral[symmetric] not_False_eq_True)
    moreover have "of_nat (2 ^ 8) = (0 :: octet)" by simp
    ultimately show ?thesis by (simp only: of_nat_add of_nat_mult mult_zero_right add_0)
  qed
  have high: "(unat h * 2 ^ 32 + unat l) div (2 ^ 32 * k) = unat h div k" for k
    using unsigned_less [of l, where 'a = nat] by (simp add: div_mult2_eq)
  show ?thesis
    using byte [of 0 h] byte [of 8 h] byte [of 16 h] byte [of 24 h] byte [of 0 l] byte [of 8 l] byte [of 16 l] byte [of 24 l]
      low [of 0] low [of 8] low [of 16] low [of 24] high [of 1] high [of "2 ^ 8"] high [of "2 ^ 16"] high [of "2 ^ 24"]
    by (simp add: length_octets_def upt_rec)
qed

lemma put_eight:
  assumes "length r = 8" "length t = 56"
  shows "(t @ r)[56 := a, 57 := b, 58 := c, 59 := d, 60 := e, 61 := f, 62 := g, 63 := h] = t @ [a, b, c, d, e, f, g, h]"
proof -
  obtain x0 x1 x2 x3 x4 x5 x6 x7 where "r = [x0, x1, x2, x3, x4, x5, x6, x7]"
    using assms(1) by (auto simp: numeral_eq_Suc length_Suc_conv)
  then show ?thesis using assms(2) by (simp add: list_update_append)
qed

lemma final_block:
  assumes "holds p t c" "length t = 56"
  shows "Message_Digest (SHA1ProcessMessageBlock (put_length c))
     = fold compress (blocks (p @ t @ length_octets (bit_count c))) initial_digest"
proof -
  let ?o = "length_octets (bit_count c)"
  have o: "length ?o = 8" by (simp add: length_octets_def)
  have "Message_Block (put_length c) = t @ ?o"
  proof -
    have "t @ drop 56 (Message_Block c) = Message_Block c"
      using assms append_take_drop_id [of 56 "Message_Block c"] by (simp add: holds_def)
    then show ?thesis using put_eight [of "drop 56 (Message_Block c)" t] assms
      unfolding put_length_def Let_def bit_count_def length_octets_bytes by (simp add: holds_def)
  qed
  moreover have "Message_Digest (put_length c) = fold compress (blocks p) initial_digest"
    using assms by (simp add: holds_def put_length_def Let_def)
  ultimately show ?thesis using assms o
    by (simp add: Process_compress holds_def blocks_append blocks_one)
qed

lemma PadMessage_digest:
  assumes "holds p t c" "length t < 64" "bit_count c = 8 * length (p @ t)"
  shows "Message_Digest (SHA1PadMessage c) = sha1 (p @ t)"
proof -
  have p: "length (p @ t) mod 64 = length t" using assms(1,2) by (auto simp: holds_def)
  have idx: "Message_Block_Index c = length t" using assms(1) by (simp add: holds_def)
  have c: "holds p (t @ [0x80]) (put_octet 0x80 c)" by (rule holds_put [OF assms(1,2)])
  show ?thesis
  proof (cases "55 < length t")
    case True
    define d where "d = SHA1ProcessMessageBlock (pad_zeros 64 (put_octet 0x80 c))"
    define z where "z = p @ (t @ [0x80]) @ replicate (63 - length t) 0"
    have "holds z [] d"
      using holds_process [OF holds_pad_zeros [OF c, of 64]] True assms(2) by (simp add: d_def z_def)
    then have "holds z (replicate 56 0) (pad_zeros 56 d)"
      using holds_pad_zeros [of z "[]" d 56] by simp
    moreover have "bit_count (pad_zeros 56 d) = bit_count c" by (simp add: bit_count_def d_def)
    moreover have zeros: "replicate (63 - length t) 0 @ replicate 56 0 = replicate (119 - length t) (0 :: octet)"
      using True assms(2) by (simp flip: replicate_add)
    have z: "z @ replicate 56 0 @ xs = p @ t @ 0x80 # replicate (119 - length t) 0 @ xs" for xs
      unfolding z_def using zeros by (metis append.assoc append_Cons append_Nil)
    ultimately show ?thesis using True assms(2,3) p idx final_block [of z "replicate 56 0" "pad_zeros 56 d"]
      by (simp add: z SHA1PadMessage_def Let_def sha1_def pad_message_def flip: d_def)
  next
    case False
    define d where "d = pad_zeros 56 (put_octet 0x80 c)"
    have "holds p ((t @ [0x80]) @ replicate (55 - length t) 0) d"
      using holds_pad_zeros [OF c, of 56] False by (simp add: d_def)
    moreover have "bit_count d = bit_count c" by (simp add: bit_count_def d_def)
    moreover have "(119 - length t) mod 64 = 55 - length t" using False by (simp add: mod_if)
    ultimately show ?thesis using False assms(3) p idx final_block [of p "(t @ [0x80]) @ replicate (55 - length t) 0" d]
      by (simp add: SHA1PadMessage_def Let_def sha1_def pad_message_def flip: d_def)
  qed
qed

section \<open>The digest\<close>

text \<open>
  C12. However a message is cut into pieces, feeding them to a reset context and asking for the result succeeds
  exactly when the message has fewer than two to the 64 bits, and then the digest is the one of the standard for the
  whole message; longer messages are refused.
\<close>

theorem sha1_streaming_correct:
  assumes "length (Message_Block c) = 64"
  shows "case SHA1Result (fold SHA1Input msgs (SHA1Reset c)) of (ok, d) \<Rightarrow>
           ok = (8 * length (concat msgs) < 2 ^ 64) \<and> (ok \<longrightarrow> Message_Digest d = sha1 (concat msgs))"
proof -
  define d m where "d = fold SHA1Input msgs (SHA1Reset c)" "m = concat msgs"
  have d: "after_octets m d"
    using Input_pieces_after [OF Reset_after [OF assms], of msgs] by (simp add: d_m_def)
  show ?thesis
  proof (cases "8 * length m < 2 ^ 64")
    case True
    then obtain p t where "m = p @ t" "length t < 64" "holds p t d" "bit_count d = 8 * length m" "\<not> Corrupted d"
        "\<not> Computed d"
      using d by (auto simp: after_octets_def)
    then show ?thesis using PadMessage_digest [of p t d] True
      by (simp add: SHA1Result_def flip: d_m_def)
  next
    case False
    then show ?thesis using d by (simp add: after_octets_def SHA1Result_def flip: d_m_def)
  qed
qed

definition fresh_context :: SHA1Context where
  "fresh_context =
     \<lparr>Message_Digest = replicate 5 0, Length_Low = 0, Length_High = 0, Message_Block = replicate 64 0,
      Message_Block_Index = 0, Computed = False, Corrupted = False\<rparr>"

theorem sha1_streaming_correct_witness:
  "fst (SHA1Result (fold SHA1Input [[0x61], [0x62, 0x63]] (SHA1Reset fresh_context))) \<and>
   Message_Digest (snd (SHA1Result (fold SHA1Input [[0x61], [0x62, 0x63]] (SHA1Reset fresh_context))))
     = sha1 [0x61, 0x62, 0x63]"
  using sha1_streaming_correct [of fresh_context "[[0x61], [0x62, 0x63]]"]
  by (simp add: fresh_context_def split: prod.splits)

end
