(* ===== verification/Starlet_State.thy ===== *)
theory Starlet_State
  imports Arm_Mem Sha1
begin

text \<open>
  The state of the Starlet machine, \<^verbatim>\<open>arch/arm/mach/skyeye_mach_starlet.c\<close>: the structure \<^verbatim>\<open>starlet_io_t\<close> with its nested
  structures, the other global variables of the file, the byte order helpers, the copies between simulated
  memory and host buffers, and the interrupt lines. The whole machine is the type that \<open>mach_io\<close> of the processor
  state takes.
\<close>

unbundle bit_operations_syntax

section \<open>Data\<close>

text \<open>
  Files of the host, as the bytes they hold; \<open>None\<close> when the file cannot be opened. They are not changed while the
  simulator runs.
\<close>

record host_files =
  boot0_bin :: "octet list option"
  otp_bin :: "octet list option"
  seeprom_bin :: "octet list option"
  disc_iso :: "octet list option"
  sd_bin :: "octet list option"

record exi_t =
  exi_csr :: ARMword
  exi_mar :: ARMword
  exi_len :: ARMword
  exi_cr :: ARMword
  exi_data :: ARMword

record gecko_t =
  gecko_cs :: int
  gecko_state :: int
  gecko_cmd :: octet

text \<open>\<open>seeprom_data\<close> is the array of 256 bytes, \<open>None\<close> until it is allocated.\<close>

record seeprom_t =
  seeprom_state :: int
  seeprom_clock :: ARMword
  seeprom_count :: ARMword
  bits_out :: ARMword
  bits_in :: ARMword
  seeprom_address :: ARMword
  seeprom_opcode :: ARMword
  seeprom_data :: "(nat \<Rightarrow> octet) option"
  wren :: ARMword

record sdhc_reg_t =
  dma_addr :: ARMword
  blk_size :: ARMword
  blk_cnt :: ARMword
  sd_argument :: ARMword
  sd_mode :: ARMword
  sd_command :: ARMword
  response :: "ARMword list"
  present_state :: ARMword
  host_control :: octet
  pwr_control :: octet
  bgap_control :: octet
  wakeup_control :: octet
  clock_control :: ARMword
  timeout_control :: octet
  irq_enable :: ARMword
  irq_signal :: ARMword
  irq_status :: ARMword
  eirq_enable :: ARMword
  eirq_signal :: ARMword
  eirq_status :: ARMword
  acmd12_err_status :: ARMword
  capabilities :: ARMword
  max_capabilities :: ARMword
  force_event_eirq :: ARMword
  force_event_acmd12 :: ARMword

text \<open>
  The structure \<^verbatim>\<open>starlet_io_t\<close>. \<open>otp\<close> is the array of 128 bytes; \<open>srama\<close>, \<open>sramb\<close> and \<open>boot0\<close> are the arrays of 64, 32
  and 8 kilobytes that the reset allocates. The field \<^verbatim>\<open>ohci\<close>, which no code uses, is left out.
\<close>

record starlet_io_t =
  disr :: ARMword
  dicvr :: ARMword
  dicmdbuf :: "ARMword list"
  dimar :: ARMword
  dilength :: ARMword
  dicr :: ARMword
  diimmbuf :: ARMword
  dicfg :: ARMword
  gpio1_port :: ARMword
  gpio1_dir :: ARMword
  gpio1_latch :: ARMword
  gpio1_enable :: ARMword
  gpio1_owner :: ARMword
  irq_active :: ARMword
  irq_enabled :: ARMword
  irq_active_ppc :: ARMword
  irq_enabled_ppc :: ARMword
  timer :: ARMword
  alarm :: ARMword
  mirror_flags :: ARMword
  boot0_flags :: ARMword
  ahb_flush_flags :: ARMword
  reset_flags :: ARMword
  clocks :: ARMword
  ppc_running :: ARMword
  boot_code :: "ARMword list"
  ipc_ppcmsg :: ARMword
  ipc_ppcctrl :: ARMword
  ipc_armmsg :: ARMword
  ipc_armctrl :: ARMword
  exi0 :: exi_t
  exi1 :: exi_t
  exi2 :: exi_t
  gecko :: gecko_t
  seeprom :: seeprom_t
  ahb_flushcmd :: ARMword
  otp :: "octet list option"
  otp_index :: ARMword
  srama :: "(nat \<Rightarrow> octet) option"
  sramb :: "(nat \<Rightarrow> octet) option"
  boot0 :: "(nat \<Rightarrow> octet) option"
  dummy :: ARMword
  sdhc_reg :: sdhc_reg_t
  internal :: int

text \<open>
  The state of \<^verbatim>\<open>starlet_do_ipc\<close>, and its socket: the number of system calls made so far, whether the connected
  socket is open, the bytes that its peer sends and that are not yet received, and all the bytes sent.
\<close>

datatype ipc_state = IPC_INIT | IPC_ACCEPT | IPC_IDLE | IPC_SNDACK

record net_t =
  net_calls :: nat
  bsock_open :: bool
  inq :: "octet list"
  outq :: "octet list"

definition net_zero :: net_t where
  "net_zero = \<lparr>net_calls = 0, bsock_open = False, inq = [], outq = []\<rparr>"

text \<open>
  All the global and static variables of the file. \<open>sd_open\<close> says whether \<^verbatim>\<open>sd\<close> is not null; \<open>usb_out\<close> collects what
  \<^verbatim>\<open>gecko_sendbyte\<close> prints, last byte first. The buffers of the AES and SHA engines are written before each use
  and are local to the commands here.
\<close>

record starlet_t =
  io :: starlet_io_t
  hollywood_port_state :: "nat \<Rightarrow> octet"
  dram_4074 :: ARMword
  dram_4076 :: ARMword
  AES_key :: "octet list"
  AES_iv :: "octet list"
  temp_iv :: "octet list"
  AES_src_ptr :: ARMword
  AES_dest_ptr :: ARMword
  SHA_ctx :: SHA1Context
  SHA_src_ptr :: ARMword
  sd_open :: bool
  sd_card_size :: nat
  sd_card_is_sdhc :: bool
  sd_card_inserted :: bool
  sd_app_cmd :: bool
  usb_out :: "octet list"
  ipcs :: ipc_state
  last_ppc_state :: ARMword
  net :: net_t

type_synonym starlet = "starlet_t ARMul_State"

text \<open>What \<^verbatim>\<open>memset (&io, 0, sizeof (io))\<close> leaves.\<close>

definition exi_zero :: exi_t where
  "exi_zero = \<lparr>exi_csr = 0, exi_mar = 0, exi_len = 0, exi_cr = 0, exi_data = 0\<rparr>"

definition sdhc_zero :: sdhc_reg_t where
  "sdhc_zero =
     \<lparr>dma_addr = 0, blk_size = 0, blk_cnt = 0, sd_argument = 0, sd_mode = 0, sd_command = 0, response = replicate 4 0,
      present_state = 0, host_control = 0, pwr_control = 0, bgap_control = 0, wakeup_control = 0, clock_control = 0,
      timeout_control = 0, irq_enable = 0, irq_signal = 0, irq_status = 0, eirq_enable = 0, eirq_signal = 0,
      eirq_status = 0, acmd12_err_status = 0, capabilities = 0, max_capabilities = 0, force_event_eirq = 0,
      force_event_acmd12 = 0\<rparr>"

definition io_zero :: starlet_io_t where
  "io_zero =
     \<lparr>disr = 0, dicvr = 0, dicmdbuf = replicate 3 0, dimar = 0, dilength = 0, dicr = 0, diimmbuf = 0, dicfg = 0,
      gpio1_port = 0, gpio1_dir = 0, gpio1_latch = 0, gpio1_enable = 0, gpio1_owner = 0, irq_active = 0, irq_enabled = 0,
      irq_active_ppc = 0, irq_enabled_ppc = 0, timer = 0, alarm = 0, mirror_flags = 0, boot0_flags = 0, ahb_flush_flags = 0,
      reset_flags = 0, clocks = 0, ppc_running = 0, boot_code = replicate 16 0, ipc_ppcmsg = 0, ipc_ppcctrl = 0,
      ipc_armmsg = 0, ipc_armctrl = 0, exi0 = exi_zero, exi1 = exi_zero, exi2 = exi_zero,
      gecko = \<lparr>gecko_cs = 0, gecko_state = 0, gecko_cmd = 0\<rparr>,
      seeprom = \<lparr>seeprom_state = 0, seeprom_clock = 0, seeprom_count = 0, bits_out = 0, bits_in = 0, seeprom_address = 0,
                 seeprom_opcode = 0, seeprom_data = None, wren = 0\<rparr>,
      ahb_flushcmd = 0, otp = None, otp_index = 0, srama = None, sramb = None, boot0 = None, dummy = 0,
      sdhc_reg = sdhc_zero, internal = 0\<rparr>"

text \<open>The static storage of the file before the machine starts.\<close>

definition starlet_zero :: starlet_t where
  "starlet_zero =
     \<lparr>io = io_zero, hollywood_port_state = (\<lambda>_. 0), dram_4074 = 0, dram_4076 = 0, AES_key = replicate 16 0,
      AES_iv = replicate 16 0, temp_iv = replicate 16 0, AES_src_ptr = 0, AES_dest_ptr = 0, SHA_ctx = fresh_context,
      SHA_src_ptr = 0, sd_open = False, sd_card_size = 0, sd_card_is_sdhc = False, sd_card_inserted = False,
      sd_app_cmd = False, usb_out = [], ipcs = IPC_INIT, last_ppc_state = 0, net = net_zero\<rparr>"

text \<open>Reading and changing \<^verbatim>\<open>io\<close>, by way of the processor state.\<close>

definition get_io :: "starlet \<Rightarrow> starlet_io_t" where
  "get_io s = io (mach_io s)"

definition set_io :: "starlet_io_t \<Rightarrow> starlet \<Rightarrow> starlet" where
  "set_io i s = s\<lparr>mach_io := (mach_io s)\<lparr>io := i\<rparr>\<rparr>"

definition map_io :: "(starlet_io_t \<Rightarrow> starlet_io_t) \<Rightarrow> starlet \<Rightarrow> starlet" where
  "map_io f s = set_io (f (get_io s)) s"

definition map_mach :: "(starlet_t \<Rightarrow> starlet_t) \<Rightarrow> starlet \<Rightarrow> starlet" where
  "map_mach f s = s\<lparr>mach_io := f (mach_io s)\<rparr>"

section \<open>Byte order\<close>

definition be16 :: "octet \<Rightarrow> octet \<Rightarrow> ARMword" where
  "be16 p0 p1 = push_bit 8 (ucast p0) OR ucast p1"

definition be32 :: "octet \<Rightarrow> octet \<Rightarrow> octet \<Rightarrow> octet \<Rightarrow> ARMword" where
  "be32 p0 p1 p2 p3 = push_bit 24 (ucast p0) OR push_bit 16 (ucast p1) OR push_bit 8 (ucast p2) OR ucast p3"

definition wbe16 :: "ARMword \<Rightarrow> octet list" where
  "wbe16 x = [ucast (drop_bit 8 x), ucast x]"

definition wbe32 :: "ARMword \<Rightarrow> octet list" where
  "wbe32 x = wbe16 (drop_bit 16 x) @ wbe16 x"

text \<open>Access to an array in place: at a position, with the length of the array as bound.\<close>

definition get_be32 :: "nat \<Rightarrow> (nat \<Rightarrow> octet) \<Rightarrow> nat \<Rightarrow> ARMword sim" where
  "get_be32 n a i = (if i + 3 < n then Inr (be32 (a i) (a (i + 1)) (a (i + 2)) (a (i + 3))) else Inl OutOfBounds)"

definition get_be16 :: "nat \<Rightarrow> (nat \<Rightarrow> octet) \<Rightarrow> nat \<Rightarrow> ARMword sim" where
  "get_be16 n a i = (if i + 1 < n then Inr (be16 (a i) (a (i + 1))) else Inl OutOfBounds)"

fun put_bytes :: "octet list \<Rightarrow> nat \<Rightarrow> (nat \<Rightarrow> octet) \<Rightarrow> nat \<Rightarrow> octet" where
  "put_bytes [] i a = a"
| "put_bytes (b # bs) i a = put_bytes bs (i + 1) (a(i := b))"

definition put_be32 :: "nat \<Rightarrow> (nat \<Rightarrow> octet) \<Rightarrow> nat \<Rightarrow> ARMword \<Rightarrow> (nat \<Rightarrow> octet) sim" where
  "put_be32 n a i x = (if i + 3 < n then Inr (put_bytes (wbe32 x) i a) else Inl OutOfBounds)"

definition put_be16 :: "nat \<Rightarrow> (nat \<Rightarrow> octet) \<Rightarrow> nat \<Rightarrow> ARMword \<Rightarrow> (nat \<Rightarrow> octet) sim" where
  "put_be16 n a i x = (if i + 1 < n then Inr (put_bytes (wbe16 x) i a) else Inl OutOfBounds)"

section \<open>Copies between simulated memory and host buffers\<close>

text \<open>
  The loops of \<^verbatim>\<open>starlet_arm2host\<close> and its two wider variants fill a buffer of \<open>cap\<close> bytes. The counter
  \<^verbatim>\<open>internal\<close> is up while a copy runs.
\<close>

definition enter_internal :: "starlet \<Rightarrow> starlet" where
  "enter_internal = map_io (\<lambda>i. i\<lparr>internal := internal i + 1\<rparr>)"

definition leave_internal :: "starlet \<Rightarrow> starlet" where
  "leave_internal = map_io (\<lambda>i. i\<lparr>internal := internal i - 1\<rparr>)"

text \<open>\<open>rd\<close> reads a unit of \<open>w\<close> bytes, \<open>enc\<close> writes it to the buffer.\<close>

fun arm2host_loop ::
  "starlet_t mem_reader \<Rightarrow> (ARMword \<Rightarrow> octet list) \<Rightarrow> nat \<Rightarrow> nat \<Rightarrow> nat \<Rightarrow> starlet \<Rightarrow> ARMword
     \<Rightarrow> (octet list \<times> starlet) sim" where
  "arm2host_loop rd enc w cap 0 s src = Inr ([], s)"
| "arm2host_loop rd enc w cap (Suc n) s src =
     bind_ok (rd s src) (\<lambda>(v, s).
       if cap < w then Inl OutOfBounds
       else bind_ok (arm2host_loop rd enc w (cap - w) n s (src + of_nat w)) (\<lambda>(bs, s). Inr (enc v @ bs, s)))"

definition starlet_arm2host ::
  "starlet_t arm_env \<Rightarrow> nat \<Rightarrow> starlet \<Rightarrow> ARMword \<Rightarrow> ARMword \<Rightarrow> (octet list \<times> starlet) sim" where
  "starlet_arm2host env cap s src len =
     bind_ok (arm2host_loop (mem_read_byte env (stack_depth env)) (\<lambda>v. [ucast v]) 1 cap (unat len)
                (enter_internal s) src)
       (\<lambda>(bs, s). Inr (bs, leave_internal s))"

definition starlet_arm2host16 ::
  "starlet_t arm_env \<Rightarrow> nat \<Rightarrow> starlet \<Rightarrow> ARMword \<Rightarrow> ARMword \<Rightarrow> (octet list \<times> starlet) sim" where
  "starlet_arm2host16 env cap s src len =
     bind_ok (arm2host_loop (mem_read_halfword env (stack_depth env)) wbe16 2 cap (unat (len div 2))
                (enter_internal s) src)
       (\<lambda>(bs, s). Inr (bs, leave_internal s))"

definition starlet_arm2host32 ::
  "starlet_t arm_env \<Rightarrow> nat \<Rightarrow> starlet \<Rightarrow> ARMword \<Rightarrow> ARMword \<Rightarrow> (octet list \<times> starlet) sim" where
  "starlet_arm2host32 env cap s src len =
     bind_ok (arm2host_loop (mem_read_word env (stack_depth env)) wbe32 4 cap (unat (len div 4))
                (enter_internal s) src)
       (\<lambda>(bs, s). Inr (bs, leave_internal s))"

text \<open>The other direction. The buffer must hold as many bytes as are copied.\<close>

fun host2arm_loop :: "starlet_t mem_writer \<Rightarrow> nat \<Rightarrow> starlet \<Rightarrow> ARMword \<Rightarrow> octet list \<Rightarrow> starlet sim" where
  "host2arm_loop wr 0 s dst src = Inr s"
| "host2arm_loop wr (Suc n) s dst [] = Inl OutOfBounds"
| "host2arm_loop wr (Suc n) s dst (b # bs) =
     bind_ok (wr s dst (ucast b)) (\<lambda>s. host2arm_loop wr n s (dst + 1) bs)"

fun host2arm16_loop :: "starlet_t mem_writer \<Rightarrow> nat \<Rightarrow> starlet \<Rightarrow> ARMword \<Rightarrow> octet list \<Rightarrow> starlet sim" where
  "host2arm16_loop wr 0 s dst src = Inr s"
| "host2arm16_loop wr (Suc n) s dst (b0 # b1 # bs) =
     bind_ok (wr s dst (be16 b0 b1)) (\<lambda>s. host2arm16_loop wr n s (dst + 2) bs)"
| "host2arm16_loop wr (Suc n) s dst _ = Inl OutOfBounds"

fun host2arm32_loop :: "starlet_t mem_writer \<Rightarrow> nat \<Rightarrow> starlet \<Rightarrow> ARMword \<Rightarrow> octet list \<Rightarrow> starlet sim" where
  "host2arm32_loop wr 0 s dst src = Inr s"
| "host2arm32_loop wr (Suc n) s dst (b0 # b1 # b2 # b3 # bs) =
     bind_ok (wr s dst (be32 b0 b1 b2 b3)) (\<lambda>s. host2arm32_loop wr n s (dst + 4) bs)"
| "host2arm32_loop wr (Suc n) s dst _ = Inl OutOfBounds"

definition starlet_host2arm ::
  "starlet_t arm_env \<Rightarrow> starlet \<Rightarrow> ARMword \<Rightarrow> octet list \<Rightarrow> ARMword \<Rightarrow> starlet sim" where
  "starlet_host2arm env s dst src len =
     bind_ok (host2arm_loop (mem_write_byte env (stack_depth env)) (unat len) (enter_internal s) dst src)
       (\<lambda>s. Inr (leave_internal s))"

definition starlet_host2arm16 ::
  "starlet_t arm_env \<Rightarrow> starlet \<Rightarrow> ARMword \<Rightarrow> octet list \<Rightarrow> ARMword \<Rightarrow> starlet sim" where
  "starlet_host2arm16 env s dst src len =
     bind_ok (host2arm16_loop (mem_write_halfword env (stack_depth env)) (unat (len div 2)) (enter_internal s) dst src)
       (\<lambda>s. Inr (leave_internal s))"

definition starlet_host2arm32 ::
  "starlet_t arm_env \<Rightarrow> starlet \<Rightarrow> ARMword \<Rightarrow> octet list \<Rightarrow> ARMword \<Rightarrow> starlet sim" where
  "starlet_host2arm32 env s dst src len =
     bind_ok (host2arm32_loop (mem_write_word env (stack_depth env)) (unat (len div 4)) (enter_internal s) dst src)
       (\<lambda>s. Inr (leave_internal s))"

section \<open>Interrupts\<close>

definition starlet_update_int :: "starlet \<Rightarrow> starlet" where
  "starlet_update_int s =
     s\<lparr>NfiqSig := HIGH,
       NirqSig := (if irq_active (get_io s) AND irq_enabled (get_io s) \<noteq> 0 then LOW else HIGH)\<rparr>"

definition starlet_set_intr :: "nat \<Rightarrow> starlet_io_t \<Rightarrow> starlet_io_t" where
  "starlet_set_intr interrupt i =
     i\<lparr>irq_active := irq_active i OR push_bit interrupt 1,
       irq_active_ppc := irq_active_ppc i OR push_bit interrupt 1\<rparr>"

definition starlet_pending_intr :: "nat \<Rightarrow> starlet_io_t \<Rightarrow> ARMword" where
  "starlet_pending_intr interrupt i = irq_active i AND push_bit interrupt 1"

definition starlet_pending_intr_ppc :: "nat \<Rightarrow> starlet_io_t \<Rightarrow> ARMword" where
  "starlet_pending_intr_ppc interrupt i = irq_active_ppc i AND push_bit interrupt 1"

definition starlet_update_intr :: "starlet \<Rightarrow> starlet" where
  "starlet_update_intr s =
     s\<lparr>NirqSig := (if irq_active (get_io s) AND irq_enabled (get_io s) \<noteq> 0 then LOW else HIGH)\<rparr>"

end
