(* ===== verification/Starlet_Gpio.thy ===== *)
theory Starlet_Gpio
  imports Starlet_State
begin

text \<open>
  The one-time programmable memory, the general purpose I/O port, and the serial EEPROM that hangs on three of its
  pins, a state machine that pin changes clock.
\<close>

section \<open>One-time programmable memory\<close>

text \<open>The index is checked only by a debug message; the array has 32 words.\<close>

definition starlet_otp_getdata :: "starlet_io_t \<Rightarrow> ARMword sim" where
  "starlet_otp_getdata i =
     (case otp i of
        None \<Rightarrow> Inl NullPointer
      | Some bs \<Rightarrow> get_be32 (length bs) ((!) bs) (4 * unat (otp_index i)))"

definition starlet_otp_setaddr :: "host_files \<Rightarrow> starlet_io_t \<Rightarrow> ARMword \<Rightarrow> starlet_io_t" where
  "starlet_otp_setaddr files i index =
     (let i = (case otp i of
                 Some bs \<Rightarrow> i
               | None \<Rightarrow>
                   (case otp_bin files of
                      None \<Rightarrow> i\<lparr>otp := Some (replicate 128 0)\<rparr>
                    | Some f \<Rightarrow>
                        if length (take 128 f) \<noteq> 128 then i\<lparr>otp := Some (replicate 128 0)\<rparr>
                        else i\<lparr>otp := Some (take 128 f), otp_index := 9\<rparr>))
      in i\<lparr>otp_index := index AND 0xFF\<rparr>)"

section \<open>Serial EEPROM\<close>

text \<open>
  The first call allocates the array and reads it from a file. Without the file, \<^verbatim>\<open>fclose\<close> is called with a null
  pointer.
\<close>

definition seeprom_idle :: "seeprom_t \<Rightarrow> seeprom_t" where
  "seeprom_idle e =
     e\<lparr>seeprom_clock := 0, seeprom_state := 0, bits_out := 0, bits_in := 0, seeprom_count := 1, seeprom_address := 0\<rparr>"

definition seeprom_init :: "host_files \<Rightarrow> seeprom_t \<Rightarrow> seeprom_t sim" where
  "seeprom_init files e =
     (case seeprom_data e of
        Some d \<Rightarrow> Inr e
      | None \<Rightarrow>
          (case seeprom_bin files of
             None \<Rightarrow> Inl NullPointer
           | Some f \<Rightarrow>
               Inr (seeprom_idle (e\<lparr>seeprom_data :=
                 Some (if length (take 256 f) \<noteq> 256 then \<lambda>_. 0 else (\<lambda>k. if k < 256 then f ! k else 0))\<rparr>))))"

definition dead :: "seeprom_t \<Rightarrow> seeprom_t" where
  "dead e = e\<lparr>seeprom_count := 1, seeprom_state := -1\<rparr>"

text \<open>The word that the address names, as byte position.\<close>

definition seeprom_index :: "seeprom_t \<Rightarrow> nat" where
  "seeprom_index e = 2 * unat (seeprom_address e AND 0x7f)"

definition set_data :: "((nat \<Rightarrow> octet) \<Rightarrow> nat \<Rightarrow> octet) \<Rightarrow> seeprom_t \<Rightarrow> seeprom_t" where
  "set_data f e = e\<lparr>seeprom_data := map_option f (seeprom_data e)\<rparr>"

definition seeprom_start :: "seeprom_t \<Rightarrow> seeprom_t" where
  "seeprom_start e =
     (if bits_in e \<noteq> 1 then e\<lparr>seeprom_count := 1, bits_out := 1, seeprom_state := -1\<rparr>
      else e\<lparr>seeprom_count := 2, seeprom_state := 1\<rparr>)"

definition seeprom_special :: "seeprom_t \<Rightarrow> seeprom_t" where
  "seeprom_special e =
     (let a = drop_bit 6 (seeprom_address e)
      in if a = 0 then dead (e\<lparr>wren := 0\<rparr>)
         else if a = 1 then (if wren e = 0 then dead e else e\<lparr>seeprom_count := 16, seeprom_state := 3\<rparr>)
         else if a = 2 then dead (if wren e = 0 then e else set_data (\<lambda>_ _. 0) e)
         else if a = 3 then dead (e\<lparr>wren := 1\<rparr>)
         else e)"

definition seeprom_word :: "seeprom_t \<Rightarrow> ARMword" where
  "seeprom_word e =
     (case seeprom_data e of None \<Rightarrow> 0 | Some d \<Rightarrow> be16 (d (seeprom_index e)) (d (seeprom_index e + 1)))"

definition seeprom_command :: "seeprom_t \<Rightarrow> seeprom_t" where
  "seeprom_command e =
     (let e = e\<lparr>seeprom_address := bits_in e\<rparr>; oc = seeprom_opcode e
      in if oc = 0 then seeprom_special e
         else if oc = 1 then (if wren e = 0 then dead e else e\<lparr>seeprom_count := 16, seeprom_state := 3\<rparr>)
         else if oc = 2 then e\<lparr>seeprom_count := 16, bits_out := seeprom_word e, seeprom_state := 3\<rparr>
         else if oc = 3 then dead (if wren e = 0 then e else set_data (put_bytes [0, 0] (seeprom_index e)) e)
         else e)"

text \<open>\<^verbatim>\<open>Write All\<close> stores halfwords in the order of the host, little-endian; \<^verbatim>\<open>Write\<close> stores them big-endian.\<close>

definition seeprom_finish :: "seeprom_t \<Rightarrow> seeprom_t" where
  "seeprom_finish e =
     dead (if seeprom_opcode e = 0
           then set_data (\<lambda>d k. if k < 256 then (if even k then ucast (bits_in e) else ucast (drop_bit 8 (bits_in e))) else d k) e
           else if seeprom_opcode e = 1 then set_data (put_bytes (wbe16 (bits_in e)) (seeprom_index e)) e
           else e)"

definition seeprom_switch :: "seeprom_t \<Rightarrow> seeprom_t" where
  "seeprom_switch e =
     (let st = seeprom_state e
      in if st = -1 then e\<lparr>seeprom_count := 1\<rparr>
         else if st = 0 then seeprom_start e
         else if st = 1 then e\<lparr>seeprom_opcode := bits_in e, seeprom_count := 8, seeprom_state := 2\<rparr>
         else if st = 2 then seeprom_command e
         else if st = 3 then seeprom_finish e
         else e)"

text \<open>A rising edge of the clock takes a bit in, puts a bit out on pin 13, and acts when the last bit of a field is in.\<close>

definition clock_rise :: "ARMword \<Rightarrow> starlet_io_t \<Rightarrow> starlet_io_t" where
  "clock_rise data i =
     (let e = seeprom i;
          e = e\<lparr>seeprom_count := seeprom_count e - 1,
                bits_in := push_bit 1 (bits_in e) OR (if data AND 0x1000 \<noteq> 0 then 1 else 0)\<rparr>;
          port = (if bits_out e AND push_bit (unat (seeprom_count e)) 1 \<noteq> 0
                  then gpio1_port i OR 0x2000 else gpio1_port i AND NOT 0x2000);
          e = (if seeprom_count e = 0 then (seeprom_switch e)\<lparr>bits_in := 0\<rparr> else e)
      in i\<lparr>gpio1_port := port, seeprom := e\<rparr>)"

definition gpio_seeprom :: "host_files \<Rightarrow> starlet_io_t \<Rightarrow> ARMword \<Rightarrow> starlet_io_t sim" where
  "gpio_seeprom files i data =
     bind_ok (seeprom_init files (seeprom i)) (\<lambda>e.
       let i = i\<lparr>seeprom := e\<rparr>
       in if data AND 0x400 = 0 then Inr (i\<lparr>seeprom := seeprom_idle e\<rparr>)
          else if gpio1_dir i AND 0x2000 \<noteq> 0 then Inl SkyeyeExit
          else let i = (if data AND 0x800 \<noteq> 0 \<and> seeprom_clock e = 0 then clock_rise data i else i)
               in Inr (i\<lparr>seeprom := (seeprom i)\<lparr>seeprom_clock := data AND 0x800\<rparr>\<rparr>))"

section \<open>The port\<close>

text \<open>What the functions of the port print is left out.\<close>

definition starlet_gpio1_latch_write :: "host_files \<Rightarrow> starlet_io_t \<Rightarrow> ARMword \<Rightarrow> starlet_io_t sim" where
  "starlet_gpio1_latch_write files i data =
     (let changes = gpio1_latch i XOR data
      in bind_ok (if changes AND 0x1c00 \<noteq> 0 then gpio_seeprom files i data else Inr i)
           (\<lambda>i. Inr (i\<lparr>gpio1_latch := data\<rparr>)))"

definition starlet_gpio1_port_write :: "starlet_io_t \<Rightarrow> ARMword \<Rightarrow> starlet_io_t" where
  "starlet_gpio1_port_write i data = i"

definition starlet_gpio1_dir_write :: "starlet_io_t \<Rightarrow> ARMword \<Rightarrow> starlet_io_t" where
  "starlet_gpio1_dir_write i data = i\<lparr>gpio1_dir := data\<rparr>"

definition starlet_gpio1_enable_write :: "starlet_io_t \<Rightarrow> ARMword \<Rightarrow> starlet_io_t" where
  "starlet_gpio1_enable_write i data = i\<lparr>gpio1_enable := data\<rparr>"

definition starlet_gpio1_owner_write :: "starlet_io_t \<Rightarrow> ARMword \<Rightarrow> starlet_io_t" where
  "starlet_gpio1_owner_write i data = i\<lparr>gpio1_owner := data\<rparr>"

end
