(* ===== verification/Starlet_Io.thy ===== *)
theory Starlet_Io
  imports Starlet_Gpio
begin

text \<open>
  The register blocks of the Starlet: the disc interface, the mailbox between the two processors, the EXI bus with the
  USB Gecko on it, the Hollywood registers, and the static RAM with its mirror.
\<close>

section \<open>The disc interface\<close>

definition starlet_di_read :: "starlet_io_t \<Rightarrow> ARMword \<Rightarrow> ARMword" where
  "starlet_di_read i offset =
     (let o' = offset AND 0xFF
      in if o' = 0 then disr i
         else if o' = 0x4 then dicvr i
         else if o' = 0x8 then dicmdbuf i ! 0
         else if o' = 0xc then dicmdbuf i ! 1
         else if o' = 0x10 then dicmdbuf i ! 2
         else if o' = 0x14 then dimar i
         else if o' = 0x18 then dilength i
         else if o' = 0x20 then dicr i
         else if o' = 0x22 then diimmbuf i
         else if o' = 0x24 then dicfg i
         else 0)"

text \<open>
  A command reads from the disc image into memory. The host buffer is not initialised, so that a read past the end of
  the image copies unspecified bytes.
\<close>

definition starlet_do_di_command :: "host_files \<Rightarrow> starlet_t arm_env \<Rightarrow> starlet \<Rightarrow> starlet sim" where
  "starlet_do_di_command files env s =
     (let i = get_io s; command = dicmdbuf i ! 0
      in case disc_iso files of
           None \<Rightarrow> Inl SkyeyeExit
         | Some f \<Rightarrow>
             if command = 0xa8000040 \<or> command = 0xa8000000
             then let offset = 4 * unat (dicmdbuf i ! 1); len = dicmdbuf i ! 2; buf = dimar i
                  in if len > 32768 then Inr s
                     else if length f < offset + unat len \<and> len \<noteq> 0 then Inl Uninitialised
                     else bind_ok (starlet_host2arm env s buf (take (unat len) (drop offset f)) len) (\<lambda>s.
                            Inr (map_io (\<lambda>i. i\<lparr>dicr := dicr i AND NOT 1, disr := disr i OR 0x10\<rparr>) s))
             else Inr s)"

definition di_write_disr :: "ARMword \<Rightarrow> starlet_io_t \<Rightarrow> starlet_io_t" where
  "di_write_disr data i =
     (let d = (disr i AND NOT 0x2a) OR (data AND 0x2a);
          d = (if data AND 1 \<noteq> 0 then d AND NOT 1 else d);
          d = (if data AND 4 \<noteq> 0 then d AND NOT 4 else d);
          d = (if data AND 0x10 \<noteq> 0 then d AND NOT 0x10 else d);
          d = (if data AND 0x40 \<noteq> 0 then d AND NOT 0x40 else d)
      in i\<lparr>disr := d\<rparr>)"

definition di_write_dicvr :: "ARMword \<Rightarrow> starlet_io_t \<Rightarrow> starlet_io_t" where
  "di_write_dicvr data i =
     (let d = dicvr i AND 4; d = (if data AND 4 \<noteq> 0 then 0 else d) in i\<lparr>dicvr := d OR (data AND 2)\<rparr>)"

definition starlet_di_write ::
  "host_files \<Rightarrow> starlet_t arm_env \<Rightarrow> starlet \<Rightarrow> ARMword \<Rightarrow> ARMword \<Rightarrow> starlet sim" where
  "starlet_di_write files env s offset data =
     (let o' = offset AND 0xFF
      in if o' = 0 then Inr (map_io (di_write_disr data) s)
         else if o' = 0x4 then Inr (map_io (di_write_dicvr data) s)
         else if o' = 0x8 then Inr (map_io (\<lambda>i. i\<lparr>dicmdbuf := (dicmdbuf i)[0 := data]\<rparr>) s)
         else if o' = 0xc then Inr (map_io (\<lambda>i. i\<lparr>dicmdbuf := (dicmdbuf i)[1 := data]\<rparr>) s)
         else if o' = 0x10 then Inr (map_io (\<lambda>i. i\<lparr>dicmdbuf := (dicmdbuf i)[2 := data]\<rparr>) s)
         else if o' = 0x14 then Inr (map_io (\<lambda>i. i\<lparr>dimar := data\<rparr>) s)
         else if o' = 0x18 then Inr (map_io (\<lambda>i. i\<lparr>dilength := data\<rparr>) s)
         else if o' = 0x1c
         then let s = map_io (\<lambda>i. i\<lparr>dicr := data\<rparr>) s
              in if data AND 1 \<noteq> 0 then starlet_do_di_command files env s else Inr s
         else if o' = 0x20 then Inr (map_io (\<lambda>i. i\<lparr>diimmbuf := data\<rparr>) s)
         else if o' = 0x24 then Inr (map_io (\<lambda>i. i\<lparr>dicfg := data\<rparr>) s)
         else Inr s)"

section \<open>The mailbox\<close>

text \<open>
  A write to the control register of one side replaces its own request bits, acknowledges the bits it was shown,
  and shows its requests to the other side; the two sides are the same code with the registers exchanged.
\<close>

definition ipc_ctrl_write :: "ARMword \<Rightarrow> ARMword \<times> ARMword \<Rightarrow> ARMword \<times> ARMword" where
  "ipc_ctrl_write data = (\<lambda>(own, other).
     (let own = own AND 0x06; other = other AND 0x39;
          own = own OR (data AND 0x39);
          own = own AND NOT (data AND 0x06);
          other = (if data AND 0x01 \<noteq> 0 then other OR 0x04 else other);
          other = (if data AND 0x08 \<noteq> 0 then other OR 0x02 else other);
          other = (if data AND 0x02 \<noteq> 0 then other AND NOT 0x08 else other);
          other = (if data AND 0x04 \<noteq> 0 then other AND NOT 0x01 else other)
      in (own, other)))"

definition starlet_ipc_write :: "ARMword \<Rightarrow> ARMword \<Rightarrow> starlet_io_t \<Rightarrow> starlet_io_t" where
  "starlet_ipc_write addr data i =
     (if addr = 0 then i\<lparr>ipc_ppcmsg := data\<rparr>
      else if addr = 4
      then let (p, a) = ipc_ctrl_write data (ipc_ppcctrl i, ipc_armctrl i) in i\<lparr>ipc_ppcctrl := p, ipc_armctrl := a\<rparr>
      else if addr = 8 then i\<lparr>ipc_armmsg := data\<rparr>
      else if addr = 12
      then let (a, p) = ipc_ctrl_write data (ipc_armctrl i, ipc_ppcctrl i) in i\<lparr>ipc_ppcctrl := p, ipc_armctrl := a\<rparr>
      else i)"

text \<open>The condition whose message is commented out guards the statement that follows.\<close>

definition ipc_wants_int :: "ARMword \<Rightarrow> bool" where
  "ipc_wants_int ctrl \<longleftrightarrow> ctrl AND 0x14 = 0x14 \<or> ctrl AND 0x22 = 0x22"

definition ipc_update_int :: "starlet \<Rightarrow> starlet" where
  "ipc_update_int s =
     (let s = (if ipc_wants_int (ipc_ppcctrl (get_io s))
               then starlet_update_int
                      (if starlet_pending_intr_ppc 30 (get_io s) = 0 then map_io (starlet_set_intr 30) s else s)
               else s)
      in if ipc_wants_int (ipc_armctrl (get_io s))
         then starlet_update_int
                (if starlet_pending_intr 31 (get_io s) = 0 then map_io (starlet_set_intr 31) s else s)
         else s)"

section \<open>The EXI bus\<close>

definition gecko_select :: "ARMword \<Rightarrow> starlet_io_t \<Rightarrow> starlet_io_t" where
  "gecko_select selected i =
     (let sel = (if selected \<noteq> 0 then 1 else 0)
      in if sel \<noteq> gecko_cs (gecko i) then i\<lparr>gecko := (gecko i)\<lparr>gecko_state := 0, gecko_cs := sel\<rparr>\<rparr> else i)"

definition gecko_sendbyte :: "octet \<Rightarrow> starlet_t \<Rightarrow> starlet_t" where
  "gecko_sendbyte b m = m\<lparr>usb_out := b # usb_out m\<rparr>"

definition set_gecko :: "gecko_t \<Rightarrow> starlet_t \<Rightarrow> starlet_t" where
  "set_gecko g m = m\<lparr>io := (io m)\<lparr>gecko := g\<rparr>\<rparr>"

definition gecko_exchange :: "octet \<Rightarrow> starlet_t \<Rightarrow> octet \<times> starlet_t" where
  "gecko_exchange byte m =
     (let g = gecko (io m)
      in if gecko_cs g = 0 then (0, m)
         else if gecko_state g = -1 then (0, m)
         else if gecko_state g = 0
         then let g = g\<lparr>gecko_cmd := byte\<rparr>; k = drop_bit 4 byte
              in if k = 0x9 then (0x04, set_gecko (g\<lparr>gecko_state := 1\<rparr>) m)
                 else if k = 0xC then (0x04, set_gecko (g\<lparr>gecko_state := -1\<rparr>) m)
                 else if k = 0xB then (0x04, set_gecko (g\<lparr>gecko_state := 2\<rparr>) m)
                 else (0, set_gecko (g\<lparr>gecko_state := -1\<rparr>) m)
         else if gecko_state g = 1 then (0x70, set_gecko (g\<lparr>gecko_state := -1\<rparr>) m)
         else if gecko_state g = 2
         then (0, set_gecko (g\<lparr>gecko_state := -1\<rparr>) (gecko_sendbyte (push_bit 4 (gecko_cmd g) OR drop_bit 4 byte) m))
         else (0, m))"

definition starlet_exi_read :: "starlet_io_t \<Rightarrow> ARMword \<Rightarrow> ARMword" where
  "starlet_exi_read i addr =
     (let a = addr AND 0xff
      in if a = 0x00 then exi_csr (exi0 i) else if a = 0x04 then exi_mar (exi0 i) else if a = 0x08 then exi_len (exi0 i)
         else if a = 0x0c then exi_cr (exi0 i) else if a = 0x10 then exi_data (exi0 i)
         else if a = 0x14 then exi_csr (exi1 i) else if a = 0x18 then exi_mar (exi1 i) else if a = 0x1c then exi_len (exi1 i)
         else if a = 0x20 then exi_cr (exi1 i) else if a = 0x24 then exi_data (exi1 i)
         else if a = 0x28 then exi_csr (exi2 i) else if a = 0x2c then exi_mar (exi2 i) else if a = 0x30 then exi_len (exi2 i)
         else if a = 0x34 then exi_cr (exi2 i) else if a = 0x38 then exi_data (exi2 i)
         else if a \<in> {0x40, 0x44, 0x48, 0x4c, 0x50, 0x54, 0x58, 0x5c, 0x60, 0x64, 0x68, 0x6c, 0x70, 0x74, 0x78, 0x7c}
         then boot_code i ! unat (drop_bit 2 (addr AND 0x3f))
         else 0)"

text \<open>A transfer on channel 1 exchanges up to four bytes with the Gecko, through the data register.\<close>

definition exi1_byte :: "nat \<Rightarrow> nat \<Rightarrow> starlet_t \<Rightarrow> starlet_t" where
  "exi1_byte len k m =
     (let (b, m) = (if k < len then gecko_exchange (ucast (drop_bit 24 (exi_data (exi1 (io m))))) m else (0, m));
          e = exi1 (io m)
      in m\<lparr>io := (io m)\<lparr>exi1 := e\<lparr>exi_data := push_bit 8 (exi_data e) OR ucast b\<rparr>\<rparr>\<rparr>)"

definition exi1_transfer :: "ARMword \<Rightarrow> starlet_t \<Rightarrow> starlet_t" where
  "exi1_transfer data m =
     (let len = unat (drop_bit 4 data AND 3) + 1;
          (data, m) = (if data AND 1 \<noteq> 0 then (data AND NOT 1, fold (exi1_byte len) [0..<4] m) else (data, m))
      in m\<lparr>io := (io m)\<lparr>exi1 := (exi1 (io m))\<lparr>exi_cr := data\<rparr>\<rparr>\<rparr>)"

definition starlet_exi_write :: "ARMword \<Rightarrow> ARMword \<Rightarrow> starlet_t \<Rightarrow> starlet_t" where
  "starlet_exi_write addr data m =
     (let a = addr AND 0xff; i = io m
      in if a = 0x00 then m\<lparr>io := i\<lparr>exi0 := (exi0 i)\<lparr>exi_csr := data\<rparr>\<rparr>\<rparr>
         else if a = 0x04 then m\<lparr>io := i\<lparr>exi0 := (exi0 i)\<lparr>exi_mar := data\<rparr>\<rparr>\<rparr>
         else if a = 0x08 then m\<lparr>io := i\<lparr>exi0 := (exi0 i)\<lparr>exi_len := data\<rparr>\<rparr>\<rparr>
         else if a = 0x0c then m\<lparr>io := i\<lparr>exi0 := (exi0 i)\<lparr>exi_cr := data\<rparr>\<rparr>\<rparr>
         else if a = 0x10 then m\<lparr>io := i\<lparr>exi0 := (exi0 i)\<lparr>exi_data := data\<rparr>\<rparr>\<rparr>
         else if a = 0x14
         then let i = gecko_select (data AND 0x80) i in m\<lparr>io := i\<lparr>exi1 := (exi1 i)\<lparr>exi_csr := data\<rparr>\<rparr>\<rparr>
         else if a = 0x18 then m\<lparr>io := i\<lparr>exi1 := (exi1 i)\<lparr>exi_mar := data\<rparr>\<rparr>\<rparr>
         else if a = 0x1c then m\<lparr>io := i\<lparr>exi1 := (exi1 i)\<lparr>exi_len := data\<rparr>\<rparr>\<rparr>
         else if a = 0x20 then exi1_transfer data m
         else if a = 0x24 then m\<lparr>io := i\<lparr>exi1 := (exi1 i)\<lparr>exi_data := data\<rparr>\<rparr>\<rparr>
         else if a = 0x28 then m\<lparr>io := i\<lparr>exi2 := (exi2 i)\<lparr>exi_csr := data\<rparr>\<rparr>\<rparr>
         else if a = 0x2c then m\<lparr>io := i\<lparr>exi2 := (exi2 i)\<lparr>exi_mar := data\<rparr>\<rparr>\<rparr>
         else if a = 0x30 then m\<lparr>io := i\<lparr>exi2 := (exi2 i)\<lparr>exi_len := data\<rparr>\<rparr>\<rparr>
         else if a = 0x34 then m\<lparr>io := i\<lparr>exi2 := (exi2 i)\<lparr>exi_cr := data\<rparr>\<rparr>\<rparr>
         else if a = 0x38 then m\<lparr>io := i\<lparr>exi2 := (exi2 i)\<lparr>exi_data := data\<rparr>\<rparr>\<rparr>
         else if a \<in> {0x40, 0x44, 0x48, 0x4c, 0x50, 0x54, 0x58, 0x5c, 0x60, 0x64, 0x68, 0x6c, 0x70, 0x74, 0x78, 0x7c}
         then m\<lparr>io := i\<lparr>boot_code := (boot_code i)[unat (drop_bit 2 (addr AND 0x3f)) := data]\<rparr>\<rparr>
         else m)"

section \<open>The Hollywood registers\<close>

text \<open>
  A register that has no case of its own reads as what was last written to it, kept in \<^verbatim>\<open>hollywood_port_state\<close>.
\<close>

definition starlet_hollywood_read :: "starlet_t \<Rightarrow> ARMword \<Rightarrow> ARMword sim" where
  "starlet_hollywood_read m addr =
     (let a = addr AND 0xFFFF; i = io m
      in bind_ok (get_be32 0x10000 (hollywood_port_state m) (unat a)) (\<lambda>retval.
           if a = 0x0000 then Inr (ipc_ppcmsg i)
           else if a = 0x0004 then Inr (ipc_ppcctrl i)
           else if a = 0x0008 then Inr (ipc_armmsg i)
           else if a = 0x000C then Inr (ipc_armctrl i)
           else if a = 0x0010 then Inr (timer i)
           else if a = 0x0014 then Inr (alarm i)
           else if a = 0x0030 then Inr (irq_active_ppc i)
           else if a = 0x0034 then Inr (irq_enabled_ppc i)
           else if a = 0x0038 then Inr (irq_active i)
           else if a = 0x003C then Inr (irq_enabled i)
           else if a = 0x0060 then Inr (mirror_flags i)
           else if a = 0x00C0 then Inr (gpio1_latch i AND gpio1_owner i)
           else if a = 0x00C4 then Inr (gpio1_dir i AND gpio1_owner i)
           else if a = 0x00C8 then Inr (gpio1_port i AND gpio1_owner i)
           else if a = 0x00DC then Inr (gpio1_enable i)
           else if a = 0x00E0 then Inr (gpio1_latch i)
           else if a = 0x00E4 then Inr (gpio1_dir i)
           else if a = 0x00E8 then Inr (gpio1_port i)
           else if a = 0x00F0 then Inr 0
           else if a = 0x00FC then Inr (gpio1_owner i)
           else if a = 0x0130 \<or> a = 0x0138 then Inr 0x400
           else if a = 0x0188 then Inr (ahb_flush_flags i)
           else if a = 0x018c then Inr (boot0_flags i)
           else if a = 0x0190 then Inr (clocks i)
           else if a = 0x0194 then Inr (reset_flags i)
           else if a = 0x01b0 then Inr 0x4011c0
           else if a = 0x01b4 then Inr 0x18000018
           else if a = 0x01f0 then starlet_otp_getdata i
           else Inr retval))"

text \<open>The resets, and the flush of the bus.\<close>

definition hollywood_reset_write :: "ARMword \<Rightarrow> starlet_io_t \<Rightarrow> starlet_io_t" where
  "hollywood_reset_write data i =
     (let i = (if (reset_flags i XOR data) AND 0x30 \<noteq> 0
               then i\<lparr>ppc_running := (if data AND 0x20 \<noteq> 0 \<and> data AND 0x10 \<noteq> 0 then 1 else 0)\<rparr>
               else i)
      in i\<lparr>reset_flags := data\<rparr>)"

definition hollywood_flush_write :: "ARMword \<Rightarrow> starlet_io_t \<Rightarrow> starlet_io_t" where
  "hollywood_flush_write data i =
     (let b = boot0_flags i AND 0xfffffff0
      in i\<lparr>ahb_flush_flags := data, boot0_flags := (if data AND 0x10000 = 0 then b OR 9 else b)\<rparr>)"

text \<open>The cases that return before the value is kept.\<close>

definition hollywood_gpio_write :: "host_files \<Rightarrow> ARMword \<Rightarrow> ARMword \<Rightarrow> starlet_io_t \<Rightarrow> starlet_io_t sim option" where
  "hollywood_gpio_write files a data i =
     (let own = gpio1_owner i
      in if a = 0x0c0 then Some (starlet_gpio1_latch_write files i ((data AND own) OR (gpio1_latch i AND (own XOR 0xFFFFFF))))
         else if a = 0x0c4 then Some (Inr (starlet_gpio1_dir_write i ((data AND own) OR (gpio1_dir i AND (own XOR 0xFFFFFF)))))
         else if a = 0x0c8 then Some (Inr (starlet_gpio1_port_write i ((data AND own) OR (gpio1_port i AND (own XOR 0xFFFFFF)))))
         else if a = 0x0dc then Some (Inr (starlet_gpio1_enable_write i data))
         else if a = 0x0e0 then Some (starlet_gpio1_latch_write files i ((data AND (own XOR 0xFFFFFF)) OR (gpio1_latch i AND own)))
         else if a = 0x0e4 then Some (Inr (starlet_gpio1_dir_write i ((data AND (own XOR 0xFFFFFF)) OR (gpio1_dir i AND own))))
         else if a = 0x0e8 then Some (Inr (starlet_gpio1_port_write i ((data AND (own XOR 0xFFFFFF)) OR (gpio1_port i AND own))))
         else if a = 0x0fc then Some (Inr (starlet_gpio1_owner_write i data))
         else if a = 0x1ec then Some (Inr (starlet_otp_setaddr files i data))
         else None)"

text \<open>The other cases with an effect.\<close>

definition hollywood_reg_write :: "ARMword \<Rightarrow> ARMword \<Rightarrow> starlet \<Rightarrow> starlet" where
  "hollywood_reg_write a data s =
     (if a = 0x000 \<or> a = 0x004 \<or> a = 0x008 \<or> a = 0x00C then map_io (starlet_ipc_write a data) s
      else if a = 0x010 then map_io (\<lambda>i. i\<lparr>timer := data\<rparr>) s
      else if a = 0x014 then map_io (\<lambda>i. i\<lparr>alarm := data\<rparr>) s
      else if a = 0x30 then map_io (\<lambda>i. i\<lparr>irq_active_ppc := irq_active_ppc i AND NOT data\<rparr>) s
      else if a = 0x34 then map_io (\<lambda>i. i\<lparr>irq_enabled_ppc := data\<rparr>) s
      else if a = 0x38 then starlet_update_int (map_io (\<lambda>i. i\<lparr>irq_active := irq_active i AND NOT data\<rparr>) s)
      else if a = 0x3C then starlet_update_int (map_io (\<lambda>i. i\<lparr>irq_enabled := data\<rparr>) s)
      else if a = 0x60 then map_io (\<lambda>i. i\<lparr>mirror_flags := data\<rparr>) s
      else if a = 0x188 then map_io (hollywood_flush_write data) s
      else if a = 0x18c then map_io (\<lambda>i. i\<lparr>boot0_flags := data\<rparr>) s
      else if a = 0x190 then map_io (\<lambda>i. i\<lparr>clocks := data\<rparr>) s
      else if a = 0x194 then map_io (hollywood_reset_write data) s
      else s)"

definition starlet_hollywood_write ::
  "host_files \<Rightarrow> starlet \<Rightarrow> ARMword \<Rightarrow> ARMword \<Rightarrow> starlet sim" where
  "starlet_hollywood_write files s addr data =
     (let a = addr AND 0xFFFF
      in bind_ok (get_be32 0x10000 (hollywood_port_state (mach_io s)) (unat a)) (\<lambda>old.
           case hollywood_gpio_write files a data (get_io s) of
             Some r \<Rightarrow> bind_ok r (\<lambda>i. Inr (set_io i s))
           | None \<Rightarrow>
               (let s = hollywood_reg_write a data s
                in bind_ok (put_be32 0x10000 (hollywood_port_state (mach_io s)) (unat a) data) (\<lambda>p.
                     Inr (map_mach (\<lambda>m. m\<lparr>hollywood_port_state := p\<rparr>) s)))))"

section \<open>Memory controller and bus registers\<close>

definition starlet_dram_read :: "starlet_t \<Rightarrow> ARMword \<Rightarrow> ARMword" where
  "starlet_dram_read m addr =
     (if addr AND 0xFFFF = 0x4074 then dram_4074 m else if addr AND 0xFFFF = 0x4076 then dram_4076 m else 0)"

definition starlet_dram_write :: "starlet_t \<Rightarrow> ARMword \<Rightarrow> ARMword \<Rightarrow> starlet_t" where
  "starlet_dram_write m addr data =
     (if addr AND 0xFFFF = 0x4074 then m\<lparr>dram_4074 := data\<rparr>
      else if addr AND 0xFFFF = 0x4076 then m\<lparr>dram_4076 := data\<rparr> else m)"

definition starlet_ahb_write_halfword :: "starlet_io_t \<Rightarrow> ARMword \<Rightarrow> ARMword \<Rightarrow> starlet_io_t" where
  "starlet_ahb_write_halfword i addr data = (if addr AND 0xffff = 0x4228 then i\<lparr>ahb_flushcmd := data\<rparr> else i)"

definition starlet_ahb_read_halfword :: "starlet_io_t \<Rightarrow> ARMword \<Rightarrow> ARMword" where
  "starlet_ahb_read_halfword i addr =
     (if addr AND 0xffff = 0x4228 \<or> addr AND 0xffff = 0x422a then ahb_flushcmd i else 0)"

section \<open>Static RAM\<close>

text \<open>
  Where an address points: into one of three arrays, or to the variable \<^verbatim>\<open>dummy\<close>, which is cleared first. The
  pointer of the C function is the array with a position.
\<close>

datatype sram_ptr = PBoot0 nat | PSrama nat | PSramb nat | PDummy

definition starlet_sram_decode :: "starlet_io_t \<Rightarrow> ARMword \<Rightarrow> (sram_ptr \<times> starlet_io_t) sim" where
  "starlet_sram_decode i addr =
     (if boot0_flags i AND 0x1000 = 0 \<and> mirror_flags i AND 0x20 \<noteq> 0 \<and> addr < 0xffff0000 then Inl SkyeyeExit
      else if boot0_flags i AND 0x1000 = 0 \<and> mirror_flags i AND 0x20 = 0 \<and> addr \<ge> 0xffff0000
      then Inr (PBoot0 (unat (addr AND 0x1fff)), i)
      else let addr = addr AND 0x1ffff;
               addr = (if mirror_flags i AND 0x20 \<noteq> 0 \<and> internal i = 0 then addr XOR 0x10000 else addr)
           in if addr AND 0x10000 \<noteq> 0
              then if addr AND 0x8000 \<noteq> 0 then Inr (PDummy, i\<lparr>dummy := 0\<rparr>)
                   else Inr (PSramb (unat (addr AND 0x7fff)), i)
              else Inr (PSrama (unat (addr AND 0xffff)), i))"

text \<open>\<^verbatim>\<open>dummy\<close> as an array of bytes, in the order of a little-endian host.\<close>

definition dummy_bytes :: "ARMword \<Rightarrow> nat \<Rightarrow> octet" where
  "dummy_bytes w k = ucast (drop_bit (8 * k) w)"

definition dummy_word :: "(nat \<Rightarrow> octet) \<Rightarrow> ARMword" where
  "dummy_word a = be32 (a 3) (a 2) (a 1) (a 0)"

text \<open>The array behind a pointer, its length and the position.\<close>

definition deref :: "starlet_io_t \<Rightarrow> sram_ptr \<Rightarrow> ((nat \<Rightarrow> octet) \<times> nat \<times> nat) sim" where
  "deref i p =
     (case p of
        PBoot0 k \<Rightarrow> (case boot0 i of None \<Rightarrow> Inl NullPointer | Some a \<Rightarrow> Inr (a, 0x2000, k))
      | PSrama k \<Rightarrow> (case srama i of None \<Rightarrow> Inl NullPointer | Some a \<Rightarrow> Inr (a, 0x10000, k))
      | PSramb k \<Rightarrow> (case sramb i of None \<Rightarrow> Inl NullPointer | Some a \<Rightarrow> Inr (a, 0x8000, k))
      | PDummy \<Rightarrow> Inr (dummy_bytes (dummy i), 4, 0))"

definition assign :: "sram_ptr \<Rightarrow> (nat \<Rightarrow> octet) \<Rightarrow> starlet_io_t \<Rightarrow> starlet_io_t" where
  "assign p a i =
     (case p of
        PBoot0 k \<Rightarrow> i\<lparr>boot0 := Some a\<rparr>
      | PSrama k \<Rightarrow> i\<lparr>srama := Some a\<rparr>
      | PSramb k \<Rightarrow> i\<lparr>sramb := Some a\<rparr>
      | PDummy \<Rightarrow> i\<lparr>dummy := dummy_word a\<rparr>)"

definition sram_read ::
  "(nat \<Rightarrow> (nat \<Rightarrow> octet) \<Rightarrow> nat \<Rightarrow> ARMword sim) \<Rightarrow> starlet_io_t \<Rightarrow> ARMword \<Rightarrow> (ARMword \<times> starlet_io_t) sim" where
  "sram_read get i addr =
     bind_ok (starlet_sram_decode i addr) (\<lambda>(p, i).
     bind_ok (deref i p) (\<lambda>(a, n, k). bind_ok (get n a k) (\<lambda>v. Inr (v, i))))"

definition sram_write ::
  "(nat \<Rightarrow> (nat \<Rightarrow> octet) \<Rightarrow> nat \<Rightarrow> ARMword \<Rightarrow> (nat \<Rightarrow> octet) sim) \<Rightarrow> starlet_io_t \<Rightarrow> ARMword \<Rightarrow> ARMword
     \<Rightarrow> starlet_io_t sim" where
  "sram_write put i addr data =
     bind_ok (starlet_sram_decode i addr) (\<lambda>(p, i).
     bind_ok (deref i p) (\<lambda>(a, n, k). bind_ok (put n a k data) (\<lambda>a. Inr (assign p a i))))"

definition get_byte :: "nat \<Rightarrow> (nat \<Rightarrow> octet) \<Rightarrow> nat \<Rightarrow> ARMword sim" where
  "get_byte n a k = (if k < n then Inr (ucast (a k)) else Inl OutOfBounds)"

definition put_byte :: "nat \<Rightarrow> (nat \<Rightarrow> octet) \<Rightarrow> nat \<Rightarrow> ARMword \<Rightarrow> (nat \<Rightarrow> octet) sim" where
  "put_byte n a k data = (if k < n then Inr (a(k := ucast data)) else Inl OutOfBounds)"

definition starlet_sram_read_word :: "starlet_io_t \<Rightarrow> ARMword \<Rightarrow> (ARMword \<times> starlet_io_t) sim" where
  "starlet_sram_read_word = sram_read get_be32"

definition starlet_sram_read_halfword :: "starlet_io_t \<Rightarrow> ARMword \<Rightarrow> (ARMword \<times> starlet_io_t) sim" where
  "starlet_sram_read_halfword = sram_read get_be16"

definition starlet_sram_read_byte :: "starlet_io_t \<Rightarrow> ARMword \<Rightarrow> (ARMword \<times> starlet_io_t) sim" where
  "starlet_sram_read_byte = sram_read get_byte"

definition starlet_sram_write_word :: "starlet_io_t \<Rightarrow> ARMword \<Rightarrow> ARMword \<Rightarrow> starlet_io_t sim" where
  "starlet_sram_write_word = sram_write put_be32"

definition starlet_sram_write_halfword :: "starlet_io_t \<Rightarrow> ARMword \<Rightarrow> ARMword \<Rightarrow> starlet_io_t sim" where
  "starlet_sram_write_halfword = sram_write put_be16"

definition starlet_sram_write_byte :: "starlet_io_t \<Rightarrow> ARMword \<Rightarrow> ARMword \<Rightarrow> starlet_io_t sim" where
  "starlet_sram_write_byte = sram_write put_byte"

section \<open>The mailbox keeps its promise\<close>

text \<open>
  The flags of the two control registers: what one side requests (bit 0 a message, bit 3 an acknowledgement) is what
  the other side is shown (bits 2 and 1), until that side clears it. Bits 4 and 5 enable the interrupts for the two.
\<close>

definition mailbox_ok :: "ARMword \<Rightarrow> ARMword \<Rightarrow> bool" where
  "mailbox_ok own other \<longleftrightarrow>
     (bit other 2 \<longleftrightarrow> bit own 0) \<and> (bit other 1 \<longleftrightarrow> bit own 3) \<and> (bit own 2 \<longleftrightarrow> bit other 0) \<and> (bit own 1 \<longleftrightarrow> bit other 3) \<and>
     (\<forall>k\<ge>6. \<not> bit own k \<and> \<not> bit other k)"

lemma low_bit_test:
  "(w :: ARMword) AND 0x01 = 0 \<longleftrightarrow> \<not> bit w 0" "w AND 0x02 = 0 \<longleftrightarrow> \<not> bit w 1" "w AND 0x04 = 0 \<longleftrightarrow> \<not> bit w 2"
  "w AND 0x08 = 0 \<longleftrightarrow> \<not> bit w 3" "w AND 0x10 = 0 \<longleftrightarrow> \<not> bit w 4" "w AND 0x20 = 0 \<longleftrightarrow> \<not> bit w 5"
  using and_exp_eq_0_iff_not_bit [of w 0] and_exp_eq_0_iff_not_bit [of w 1] and_exp_eq_0_iff_not_bit [of w 2]
    and_exp_eq_0_iff_not_bit [of w 3] and_exp_eq_0_iff_not_bit [of w 4] and_exp_eq_0_iff_not_bit [of w 5]
  by (simp_all del: bit_0)

lemma mask_bits:
  "bit (0x06 :: ARMword) k \<longleftrightarrow> k = 1 \<or> k = 2" "bit (0x39 :: ARMword) k \<longleftrightarrow> k = 0 \<or> k = 3 \<or> k = 4 \<or> k = 5"
  "bit (0x04 :: ARMword) k \<longleftrightarrow> k = 2" "bit (0x02 :: ARMword) k \<longleftrightarrow> k = 1" "bit (0x08 :: ARMword) k \<longleftrightarrow> k = 3"
  "bit (0x01 :: ARMword) k \<longleftrightarrow> k = 0"
proof -
  have exp: "bit (2 ^ n :: ARMword) k \<longleftrightarrow> k = n" if "n < 32" for n using that by (auto simp: bit_exp_iff)
  show b: "bit (0x04 :: ARMword) k \<longleftrightarrow> k = 2" "bit (0x02 :: ARMword) k \<longleftrightarrow> k = 1" "bit (0x08 :: ARMword) k \<longleftrightarrow> k = 3"
    "bit (0x01 :: ARMword) k \<longleftrightarrow> k = 0"
    using exp [of 2] exp [of 1] exp [of 3] exp [of 0] by simp_all
  have c: "bit (0x10 :: ARMword) k \<longleftrightarrow> k = 4" "bit (0x20 :: ARMword) k \<longleftrightarrow> k = 5" using exp [of 4] exp [of 5] by simp_all
  have "(0x06 :: ARMword) = 0x02 OR 0x04" "(0x39 :: ARMword) = 0x01 OR (0x08 OR (0x10 OR 0x20))" by simp_all
  then show "bit (0x06 :: ARMword) k \<longleftrightarrow> k = 1 \<or> k = 2" "bit (0x39 :: ARMword) k \<longleftrightarrow> k = 0 \<or> k = 3 \<or> k = 4 \<or> k = 5"
    by (simp_all only: bit_or_iff b c)
qed

text \<open>Every bit of both registers after a write.\<close>

lemma ipc_ctrl_write_bits:
  assumes "ipc_ctrl_write data (own, other) = (own', other')"
  shows "bit own' k \<longleftrightarrow> (if k = 1 \<or> k = 2 then bit own k \<and> \<not> bit data k else k \<in> {0, 3, 4, 5} \<and> bit data k)"
    and "bit other' k \<longleftrightarrow>
      (if k = 2 then bit data 0 else if k = 1 then bit data 3
       else if k = 3 then bit other 3 \<and> \<not> bit data 1 else if k = 0 then bit other 0 \<and> \<not> bit data 2
       else k \<in> {4, 5} \<and> bit other k)"
proof -
  have own: "own' = ((own AND 0x06) OR (data AND 0x39)) AND NOT (data AND 0x06)"
    using assms unfolding ipc_ctrl_write_def Let_def by (simp only: prod.case prod.inject)
  show "bit own' k \<longleftrightarrow> (if k = 1 \<or> k = 2 then bit own k \<and> \<not> bit data k else k \<in> {0, 3, 4, 5} \<and> bit data k)"
    unfolding own by (simp only: bit_or_iff bit_and_iff bit_not_iff mask_bits) (auto simp del: bit_0)
  have other: "other' = (let z = other AND 0x39; z = (if bit data 0 then z OR 0x04 else z); z = (if bit data 3 then z OR 0x02 else z);
      z = (if bit data 1 then z AND NOT 0x08 else z) in if bit data 2 then z AND NOT 0x01 else z)"
    using assms unfolding ipc_ctrl_write_def Let_def by (simp only: prod.case prod.inject low_bit_test not_not)
  show "bit other' k \<longleftrightarrow>
      (if k = 2 then bit data 0 else if k = 1 then bit data 3
       else if k = 3 then bit other 3 \<and> \<not> bit data 1 else if k = 0 then bit other 0 \<and> \<not> bit data 2
       else k \<in> {4, 5} \<and> bit other k)"
    unfolding other Let_def
    by (cases "bit data 0"; cases "bit data 1"; cases "bit data 2"; cases "bit data 3";
        simp only: if_True if_False simp_thms bit_or_iff bit_and_iff bit_not_iff mask_bits; auto simp del: bit_0)
qed

lemma mailbox_ctrl_write:
  assumes "mailbox_ok own other" "ipc_ctrl_write data (own, other) = (own', other')"
  shows "mailbox_ok own' other'"
  using assms(1) unfolding mailbox_ok_def ipc_ctrl_write_bits [OF assms(2)] by (simp del: bit_0)

lemma mailbox_sym: "mailbox_ok a b \<Longrightarrow> mailbox_ok b a"
  by (auto simp: mailbox_ok_def)

lemma mailbox_write:
  assumes "mailbox_ok (ipc_ppcctrl i) (ipc_armctrl i)"
  shows "mailbox_ok (ipc_ppcctrl (starlet_ipc_write a d i)) (ipc_armctrl (starlet_ipc_write a d i))"
proof -
  obtain p q where pq: "ipc_ctrl_write d (ipc_ppcctrl i, ipc_armctrl i) = (p, q)" by fastforce
  obtain q' p' where qp: "ipc_ctrl_write d (ipc_armctrl i, ipc_ppcctrl i) = (q', p')" by fastforce
  show ?thesis
    using mailbox_ctrl_write [OF assms pq] mailbox_sym [OF mailbox_ctrl_write [OF mailbox_sym [OF assms] qp]] assms
    by (simp add: starlet_ipc_write_def pq qp)
qed

lemma wants_int_bits: "ipc_wants_int c \<longleftrightarrow> bit c 4 \<and> bit c 2 \<or> bit c 5 \<and> bit c 1"
proof -
  have m: "(0x14 :: ARMword) = 2 ^ 4 OR 2 ^ 2" "(0x22 :: ARMword) = 2 ^ 5 OR 2 ^ 1" by simp_all
  have *: "c AND (2 ^ a OR 2 ^ b) = 2 ^ a OR 2 ^ b \<longleftrightarrow> bit c a \<and> bit c b" if "a < 32" "b < 32" for a b
  proof
    assume "c AND (2 ^ a OR 2 ^ b) = 2 ^ a OR 2 ^ b"
    then have "bit (c AND (2 ^ a OR 2 ^ b)) k \<longleftrightarrow> bit (2 ^ a OR 2 ^ b :: ARMword) k" for k by simp
    from this [of a] this [of b] show "bit c a \<and> bit c b"
      using that by (simp add: bit_and_iff bit_or_iff bit_exp_iff)
  next
    assume "bit c a \<and> bit c b"
    then show "c AND (2 ^ a OR 2 ^ b) = 2 ^ a OR 2 ^ b"
      by (intro bit_word_eqI) (auto simp: bit_and_iff bit_or_iff bit_exp_iff)
  qed
  show ?thesis unfolding ipc_wants_int_def m using * [of 4 2] * [of 5 1] by simp
qed

text \<open>
  C19. After any sequence of writes to the four mailbox registers by either side, each side is shown exactly the
  requests of the other that it has not yet cleared, no other bit is set, and the processor's interrupt 31 is wanted
  exactly when the other side has a message or an acknowledgement outstanding whose interrupt is enabled.
\<close>

theorem mailbox_invariant:
  assumes "mailbox_ok (ipc_ppcctrl i) (ipc_armctrl i)"
    and j_def: "j = fold (\<lambda>(a, d). starlet_ipc_write a d) ws i"
  shows "mailbox_ok (ipc_ppcctrl j) (ipc_armctrl j) \<and>
    (ipc_wants_int (ipc_armctrl j) \<longleftrightarrow>
       bit (ipc_ppcctrl j) 0 \<and> bit (ipc_armctrl j) 4 \<or> bit (ipc_ppcctrl j) 3 \<and> bit (ipc_armctrl j) 5)"
proof -
  have "mailbox_ok (ipc_ppcctrl (fold (\<lambda>(a, d). starlet_ipc_write a d) ws i))
      (ipc_armctrl (fold (\<lambda>(a, d). starlet_ipc_write a d) ws i))"
    using assms(1) by (induction ws arbitrary: i) (auto simp: mailbox_write)
  then show ?thesis unfolding j_def wants_int_bits by (auto simp: mailbox_ok_def simp del: bit_0)
qed

theorem mailbox_invariant_witness:
  "bit (ipc_armctrl (fold (\<lambda>(a, d). starlet_ipc_write a d) [(12, 0x36), (0, 0xCAFE), (4, 0x31)] io_zero)) 2 \<and>
   ipc_wants_int (ipc_armctrl (fold (\<lambda>(a, d). starlet_ipc_write a d) [(12, 0x36), (0, 0xCAFE), (4, 0x31)] io_zero))"
proof -
  have z: "mailbox_ok (ipc_ppcctrl io_zero) (ipc_armctrl io_zero)" by (simp add: mailbox_ok_def io_zero_def)
  have "bit (ipc_ppcctrl (fold (\<lambda>(a, d). starlet_ipc_write a d) [(12, 0x36), (0, 0xCAFE), (4, 0x31)] io_zero)) 0"
    "bit (ipc_armctrl (fold (\<lambda>(a, d). starlet_ipc_write a d) [(12, 0x36), (0, 0xCAFE), (4, 0x31)] io_zero)) 4"
    by (simp_all add: starlet_ipc_write_def ipc_ctrl_write_def io_zero_def)
  then show ?thesis
    using mailbox_invariant [OF z refl, of "[(12, 0x36), (0, 0xCAFE), (4, 0x31)]"] by (auto simp: mailbox_ok_def simp del: bit_0)
qed

section \<open>The static RAM is a store\<close>

text \<open>
  What decides where an address points: the flags of the boot ROM and of the mirror, and whether a copy is running.
  The words at aligned addresses that point into one of the three arrays obey the contract of a memory.
\<close>

definition sram_mode :: "starlet_io_t \<Rightarrow> ARMword \<times> ARMword \<times> int" where
  "sram_mode i = (boot0_flags i, mirror_flags i, internal i)"

definition mode_io :: "ARMword \<times> ARMword \<times> int \<Rightarrow> starlet_io_t" where
  "mode_io = (\<lambda>(b, m, n). io_zero\<lparr>boot0_flags := b, mirror_flags := m, internal := n\<rparr>)"

definition sram_place :: "starlet_io_t \<Rightarrow> ARMword \<Rightarrow> sram_ptr" where
  "sram_place i a = (case starlet_sram_decode i a of Inl e \<Rightarrow> PDummy | Inr (p, j) \<Rightarrow> p)"

definition sram_ok :: "ARMword \<times> ARMword \<times> int \<Rightarrow> starlet_io_t \<Rightarrow> ARMword \<Rightarrow> bool" where
  "sram_ok m i a \<longleftrightarrow>
     sram_mode i = m \<and> boot0 i \<noteq> None \<and> srama i \<noteq> None \<and> sramb i \<noteq> None \<and> a AND 3 = 0 \<and> sram_place i a \<noteq> PDummy"

definition sram_same :: "ARMword \<times> ARMword \<times> int \<Rightarrow> ARMword \<Rightarrow> ARMword \<Rightarrow> bool" where
  "sram_same m a b \<longleftrightarrow> sram_place (mode_io m) a = sram_place (mode_io m) b"

definition word_at :: "(nat \<Rightarrow> octet) \<Rightarrow> nat \<Rightarrow> ARMword" where
  "word_at f k = be32 (f k) (f (k + 1)) (f (k + 2)) (f (k + 3))"

definition sram_word :: "starlet_io_t \<Rightarrow> ARMword \<Rightarrow> ARMword" where
  "sram_word i a =
     (case sram_place i a of
        PBoot0 k \<Rightarrow> word_at (the (boot0 i)) k
      | PSrama k \<Rightarrow> word_at (the (srama i)) k
      | PSramb k \<Rightarrow> word_at (the (sramb i)) k
      | PDummy \<Rightarrow> 0)"

lemma sram_place_mode: "sram_mode i = sram_mode j \<Longrightarrow> sram_place i a = sram_place j a"
  by (simp add: sram_place_def starlet_sram_decode_def sram_mode_def Let_def)

lemma mode_io_mode: "sram_mode (mode_io m) = m"
  by (cases m) (simp add: mode_io_def sram_mode_def)

definition mirrored :: "starlet_io_t \<Rightarrow> ARMword \<Rightarrow> ARMword" where
  "mirrored i a = (if mirror_flags i AND 0x20 \<noteq> 0 \<and> internal i = 0 then (a AND 0x1ffff) XOR 0x10000 else a AND 0x1ffff)"

lemma sram_decode_mirrored:
  "starlet_sram_decode i a =
     (if boot0_flags i AND 0x1000 = 0 \<and> mirror_flags i AND 0x20 \<noteq> 0 \<and> a < 0xffff0000 then Inl SkyeyeExit
      else if boot0_flags i AND 0x1000 = 0 \<and> mirror_flags i AND 0x20 = 0 \<and> a \<ge> 0xffff0000
      then Inr (PBoot0 (unat (a AND 0x1fff)), i)
      else if mirrored i a AND 0x10000 \<noteq> 0
      then if mirrored i a AND 0x8000 \<noteq> 0 then Inr (PDummy, i\<lparr>dummy := 0\<rparr>)
           else Inr (PSramb (unat (mirrored i a AND 0x7fff)), i)
      else Inr (PSrama (unat (mirrored i a AND 0xffff)), i))"
  unfolding starlet_sram_decode_def mirrored_def Let_def by (rule refl)

lemma decode_place:
  assumes "sram_place i a \<noteq> PDummy"
  shows "starlet_sram_decode i a = Inr (sram_place i a, i)"
proof (cases "starlet_sram_decode i a")
  case (Inr r)
  obtain p j where r: "r = (p, j)" by fastforce
  then have "p \<noteq> PDummy" using assms Inr by (simp add: sram_place_def)
  then have "j = i" using Inr unfolding r sram_decode_mirrored by (auto split: if_split_asm)
  then show ?thesis using Inr r by (simp add: sram_place_def)
qed (use assms in \<open>simp add: sram_place_def\<close>)

lemma aligned_and: "(a :: ARMword) AND 3 = 0 \<Longrightarrow> (a AND m) AND 3 = 0"
  by (metis and.assoc and.commute and_zero_eq)

lemma aligned_unat: "(a :: ARMword) AND 3 = 0 \<Longrightarrow> 4 dvd unat a"
proof -
  assume "a AND 3 = 0"
  moreover have "(3 :: ARMword) = mask 2" by (simp add: mask_eq_exp_minus_1)
  ultimately have "take_bit 2 a = 0" by (simp add: take_bit_eq_mask)
  then have "take_bit 2 (unat a) = 0" by (simp flip: unsigned_take_bit_eq)
  then show ?thesis by (simp add: take_bit_eq_mod mod_eq_0_iff_dvd)
qed

lemma unat_and_less: "unat ((a :: ARMword) AND mask n) < 2 ^ n"
  by (simp add: unsigned_take_bit_eq flip: take_bit_eq_mask)

lemma place_aligned:
  assumes "a AND 3 = 0"
  shows "case sram_place i a of PBoot0 k \<Rightarrow> 4 dvd k \<and> k < 0x2000 | PSrama k \<Rightarrow> 4 dvd k \<and> k < 0x10000
    | PSramb k \<Rightarrow> 4 dvd k \<and> k < 0x8000 | PDummy \<Rightarrow> True"
proof -
  have m: "(0x1fff :: ARMword) = mask 13" "(0xffff :: ARMword) = mask 16" "(0x7fff :: ARMword) = mask 15"
    by (simp_all add: mask_eq_exp_minus_1)
  have bound: "unat (w AND 0x1fff) < 0x2000" "unat (w AND 0xffff) < 0x10000" "unat (w AND 0x7fff) < 0x8000" for w :: ARMword
    unfolding m using unat_and_less [of w 13] unat_and_less [of w 16] unat_and_less [of w 15] by simp_all
  have x: "(w XOR 0x10000) AND 3 = 0" if "w AND 3 = 0" for w :: ARMword
    using that by (simp add: bit.conj_xor_distrib2)
  have a: "4 dvd unat (w AND n)" if "w AND 3 = 0" for w n :: ARMword using that by (intro aligned_unat aligned_and)
  have "mirrored i a AND 3 = 0"
    using x [OF aligned_and [OF assms]] aligned_and [OF assms] by (simp add: mirrored_def)
  then show ?thesis
    using a [OF assms] a bound unfolding sram_place_def sram_decode_mirrored by simp
qed


lemma be32_wbe32 [simp]:
  "be32 (ucast (drop_bit 24 v)) (ucast (drop_bit 16 v)) (ucast (drop_bit 8 v)) (ucast v) = (v :: ARMword)"
  by (rule word32_eqI) (simp only: all_less_32_iff, simp add: be32_def bit_simps)

lemma word_at_put:
  assumes "4 dvd k" "4 dvd l"
  shows "word_at (put_bytes (wbe32 v) k f) l = (if k = l then v else word_at f l)"
proof (cases "k = l")
  case False
  then have "l + 3 < k \<or> k + 3 < l" using assms by presburger
  then show ?thesis using False by (auto simp: word_at_def wbe32_def wbe16_def)
qed (simp add: word_at_def wbe32_def wbe16_def)

lemma sram_read_word_ok:
  assumes "sram_ok m i a"
  shows "starlet_sram_read_word i a = Inr (sram_word i a, i)"
proof -
  have p: "sram_place i a \<noteq> PDummy" and al: "a AND 3 = 0" using assms by (auto simp: sram_ok_def)
  have "k + 3 < n" if "4 dvd k" "k < n" "4 dvd n" for k n :: nat using that by presburger
  then show ?thesis
    using assms place_aligned [OF al, of i] p
    by (auto simp: starlet_sram_read_word_def sram_read_def decode_place [OF p] deref_def get_be32_def sram_word_def
        word_at_def sram_ok_def split: sram_ptr.splits)
qed


lemma sram_write_word_ok:
  assumes "sram_ok m i a"
  shows "\<exists>j. starlet_sram_write_word i a v = Inr j \<and> (\<forall>b. sram_ok m j b = sram_ok m i b) \<and>
    (\<forall>b. sram_ok m i b \<longrightarrow> sram_word j b = (if sram_same m a b then v else sram_word i b))"
proof -
  have p: "sram_place i a \<noteq> PDummy" and al: "a AND 3 = 0" using assms by (auto simp: sram_ok_def)
  have bound: "k + 3 < n" if "4 dvd k" "k < n" "4 dvd n" for k n :: nat using that by presburger
  obtain f k where j: "starlet_sram_write_word i a v = Inr (assign (sram_place i a) (put_bytes (wbe32 v) k f) i)"
    and place: "sram_place i a = PBoot0 k \<and> boot0 i = Some f \<or> sram_place i a = PSrama k \<and> srama i = Some f
      \<or> sram_place i a = PSramb k \<and> sramb i = Some f" and k: "4 dvd k"
    using assms place_aligned [OF al, of i] p bound
    by (cases "sram_place i a")
      (auto simp: starlet_sram_write_word_def sram_write_def decode_place [OF p] deref_def put_be32_def sram_ok_def)
  define j where "j = assign (sram_place i a) (put_bytes (wbe32 v) k f) i"
  have mode: "sram_mode j = sram_mode i" by (simp add: j_def assign_def sram_mode_def split: sram_ptr.split)
  have ok: "sram_ok m j b = sram_ok m i b" for b
    using place sram_place_mode [OF mode, of b] mode by (auto simp: sram_ok_def j_def assign_def)
  have "sram_word j b = (if sram_same m a b then v else sram_word i b)" if b: "sram_ok m i b" for b
  proof -
    have "sram_mode i = m" using assms by (simp add: sram_ok_def)
    then have same: "sram_same m a b \<longleftrightarrow> sram_place i a = sram_place i b"
      using sram_place_mode [of "mode_io m" i] by (simp add: sram_same_def mode_io_mode)
    have "b AND 3 = 0" "sram_place i b \<noteq> PDummy" using b by (auto simp: sram_ok_def)
    then show ?thesis
      using place place_aligned [of b i] k word_at_put [OF k]
      unfolding same sram_word_def sram_place_mode [OF mode, of b] by (auto simp: j_def assign_def split: sram_ptr.splits)
  qed
  then show ?thesis using j ok by (auto simp: j_def)
qed

interpretation sram: store starlet_sram_read_word starlet_sram_write_word sram_word "sram_ok m" "sram_same m" "\<lambda>v. v" for m
proof
  fix i a v
  assume "sram_ok m i a"
  then show "\<exists>t. starlet_sram_read_word i a = Inr (sram_word i a, t) \<and> (\<forall>b. sram_ok m t b = sram_ok m i b) \<and>
      (\<forall>b. sram_ok m i b \<longrightarrow> sram_word t b = sram_word i b)"
    using sram_read_word_ok by auto
  show "\<exists>t. starlet_sram_write_word i a v = Inr t \<and> (\<forall>b. sram_ok m t b = sram_ok m i b) \<and>
      (\<forall>b. sram_ok m i b \<longrightarrow> sram_word t b = (if sram_same m a b then v else sram_word i b))"
    using \<open>sram_ok m i a\<close> by (rule sram_write_word_ok)
qed (auto simp: sram_same_def)

text \<open>
  The static RAM under every setting of boot ROM and mirror: at aligned addresses that are backed by memory no
  access leaves its array, a word that was written is read back at every address that is mapped to the same place, and
  words at other places keep their value.
\<close>

lemma sram_word_roundtrip:
  assumes "sram_ok m i a" "sram_ok m i b"
  shows "\<exists>j k. starlet_sram_write_word i a v = Inr j \<and>
    starlet_sram_read_word j b = Inr (if sram_same m a b then v else sram_word i b, k)"
  by (rule sram.read_after_write [OF assms])

lemma sram_word_roundtrip_witness:
  "\<exists>j k. starlet_sram_write_word (io_zero\<lparr>srama := Some (\<lambda>_. 0), sramb := Some (\<lambda>_. 0), boot0 := Some (\<lambda>_. 0),
        boot0_flags := 0x1000, mirror_flags := 0x20\<rparr>) 0xffff0010 0x12345678 = Inr j \<and>
     starlet_sram_read_word j 0x0d410010 = Inr (0x12345678, k)"
proof -
  let ?i = "io_zero\<lparr>srama := Some (\<lambda>_. 0), sramb := Some (\<lambda>_. 0), boot0 := Some (\<lambda>_. 0),
        boot0_flags := 0x1000, mirror_flags := 0x20\<rparr>"
  let ?m = "(0x1000, 0x20, 0)"
  have p: "sram_place ?i 0xffff0010 = PSrama 0x10" "sram_place ?i 0x0d410010 = PSrama 0x10"
    by (simp_all add: sram_place_def starlet_sram_decode_def io_zero_def)
  have q: "sram_place (mode_io ?m) a = sram_place ?i a" for a
    by (rule sram_place_mode) (simp add: mode_io_def sram_mode_def io_zero_def)
  have "sram_ok ?m ?i 0xffff0010" "sram_ok ?m ?i 0x0d410010"
    using p by (simp_all add: sram_ok_def sram_mode_def io_zero_def)
  moreover have "sram_same ?m 0xffff0010 0x0d410010" by (simp only: sram_same_def q p)
  ultimately show ?thesis using sram_word_roundtrip [of ?m ?i "0xffff0010" "0x0d410010" "0x12345678"] by simp
qed

end
