(* ===== verification/Starlet_Engine.thy ===== *)
theory Starlet_Engine
  imports Starlet_Io
begin

text \<open>
  The two engines that work on memory: AES and SHA-1. AES itself is the function \<^verbatim>\<open>AES_cbc_encrypt\<close> of OpenSSL, a
  parameter; SHA-1 is the one of \<open>Sha1\<close>.
\<close>

section \<open>AES\<close>

text \<open>
  \<^verbatim>\<open>AES_cbc_encrypt\<close> with the key schedule for its direction: from direction (true to encrypt), key, initial vector
  and data to the output and the vector it leaves in place of the initial one.
\<close>

type_synonym aes_cbc = "bool \<Rightarrow> octet list \<Rightarrow> octet list \<Rightarrow> octet list \<Rightarrow> octet list \<times> octet list"

definition aes_crypt :: "aes_cbc \<Rightarrow> ARMword \<Rightarrow> octet list \<Rightarrow> starlet_t \<Rightarrow> octet list \<times> starlet_t" where
  "aes_crypt cbc command src m =
     (if command AND 0x10000000 \<noteq> 0
      then let reset = (command AND 0x1000 = 0);
               (dest, iv) = cbc (command AND 0x08000000 = 0) (AES_key m) (if reset then AES_iv m else temp_iv m) src
           in (dest, if reset then m\<lparr>AES_iv := iv\<rparr> else m\<lparr>temp_iv := iv\<rparr>)
      else (src, m))"

definition starlet_aes_command :: "aes_cbc \<Rightarrow> starlet_t arm_env \<Rightarrow> starlet \<Rightarrow> ARMword \<Rightarrow> starlet sim" where
  "starlet_aes_command cbc env s command =
     (if command AND 0x80000000 \<noteq> 0
      then let num_bytes = ((command AND 0xFFF) + 1) * 0x10
           in bind_ok (starlet_arm2host env 0x10000 s (AES_src_ptr (mach_io s)) num_bytes) (\<lambda>(src, s).
              let (dest, m) = aes_crypt cbc command src (mach_io s); s = s\<lparr>mach_io := m\<rparr>
              in bind_ok (starlet_host2arm env s (AES_dest_ptr (mach_io s)) dest num_bytes) (\<lambda>s.
                 let s = map_mach (\<lambda>m. m\<lparr>temp_iv := drop (unat num_bytes - 0x10) src,
                           AES_src_ptr := AES_src_ptr m + num_bytes, AES_dest_ptr := AES_dest_ptr m + num_bytes\<rparr>) s
                 in Inr (if command AND 0x40000000 \<noteq> 0 then starlet_update_int (map_io (starlet_set_intr 2) s) else s)))
      else Inr s)"

definition starlet_aes_read :: "ARMword \<Rightarrow> ARMword" where
  "starlet_aes_read addr = 0"

text \<open>Key and vector are shifted in a word at a time.\<close>

definition shift_in :: "ARMword \<Rightarrow> octet list \<Rightarrow> octet list" where
  "shift_in data key = drop 4 key @ wbe32 data"

definition starlet_aes_write ::
  "aes_cbc \<Rightarrow> starlet_t arm_env \<Rightarrow> starlet \<Rightarrow> ARMword \<Rightarrow> ARMword \<Rightarrow> starlet sim" where
  "starlet_aes_write cbc env s addr data =
     (let a = addr AND 0xFFFF
      in if a = 0x0000 then starlet_aes_command cbc env s data
         else if a = 0x0004 then Inr (map_mach (\<lambda>m. m\<lparr>AES_src_ptr := data\<rparr>) s)
         else if a = 0x0008 then Inr (map_mach (\<lambda>m. m\<lparr>AES_dest_ptr := data\<rparr>) s)
         else if a = 0x000C then Inr (map_mach (\<lambda>m. m\<lparr>AES_key := shift_in data (AES_key m)\<rparr>) s)
         else if a = 0x0010 then Inr (map_mach (\<lambda>m. m\<lparr>AES_iv := shift_in data (AES_iv m)\<rparr>) s)
         else Inr s)"

section \<open>SHA-1\<close>

definition sha_result :: "SHA1Context \<Rightarrow> octet list" where
  "sha_result c = concat (map wbe32 (Message_Digest c))"

definition starlet_sha_read :: "starlet_t \<Rightarrow> ARMword \<Rightarrow> ARMword" where
  "starlet_sha_read m addr =
     (let a = addr AND 0xFFFF
      in if a = 0x0000 then 0
         else if a \<in> {0x0008, 0x000C, 0x0010, 0x0014, 0x0018}
         then let r = sha_result (SHA_ctx m); k = unat a - 8 in be32 (r ! k) (r ! (k + 1)) (r ! (k + 2)) (r ! (k + 3))
         else 0)"

definition sha_set_digest :: "nat \<Rightarrow> ARMword \<Rightarrow> starlet_t \<Rightarrow> starlet_t" where
  "sha_set_digest k data m =
     m\<lparr>SHA_ctx := (SHA_ctx m)\<lparr>Message_Digest := (Message_Digest (SHA_ctx m))[k := data]\<rparr>\<rparr>"

definition starlet_sha_command :: "starlet_t arm_env \<Rightarrow> starlet \<Rightarrow> ARMword \<Rightarrow> starlet sim" where
  "starlet_sha_command env s data =
     (if data AND 0x80000000 \<noteq> 0
      then let num_bytes = ((data AND 0xFFF) + 1) * 0x40
           in bind_ok (starlet_arm2host env 0x10000 s (SHA_src_ptr (mach_io s)) num_bytes) (\<lambda>(buf, s).
              let s = map_mach (\<lambda>m. m\<lparr>SHA_ctx := SHA1Input buf (SHA_ctx m), SHA_src_ptr := SHA_src_ptr m + num_bytes\<rparr>) s
              in Inr (if data AND 0x40000000 \<noteq> 0 then starlet_update_int (map_io (starlet_set_intr 3) s) else s))
      else Inr s)"

definition starlet_sha_write :: "starlet_t arm_env \<Rightarrow> starlet \<Rightarrow> ARMword \<Rightarrow> ARMword \<Rightarrow> starlet sim" where
  "starlet_sha_write env s addr data =
     (let a = addr AND 0xFFFF
      in if a = 0x0000 then starlet_sha_command env s data
         else if a = 0x0004 then Inr (map_mach (\<lambda>m. m\<lparr>SHA_src_ptr := data\<rparr>) s)
         else if a = 0x0008 then Inr (map_mach (sha_set_digest 0 data) s)
         else if a = 0x000C then Inr (map_mach (sha_set_digest 1 data) s)
         else if a = 0x0010 then Inr (map_mach (sha_set_digest 2 data) s)
         else if a = 0x0014 then Inr (map_mach (sha_set_digest 3 data) s)
         else if a = 0x0018 then Inr (map_mach (sha_set_digest 4 data) s)
         else Inr s)"

section \<open>Copies from and to RAM\<close>

declare mem_read_byte.simps [simp del] mem_write_byte.simps [simp del]

definition only_mem :: "'io ARMul_State \<Rightarrow> 'io ARMul_State \<Rightarrow> bool" where
  "only_mem s t \<longleftrightarrow> (\<exists>m. t = s\<lparr>mem := m\<rparr>)"

lemma only_mem_refl [simp]: "only_mem s s"
  by (auto simp: only_mem_def intro: exI [of _ "mem s"])

lemma only_mem_trans: "only_mem s t \<Longrightarrow> only_mem t u \<Longrightarrow> only_mem s u"
  by (auto simp: only_mem_def)

definition ram_bytes :: "'io ARMul_State \<Rightarrow> ARMword \<Rightarrow> nat \<Rightarrow> octet list" where
  "ram_bytes s a n = map (\<lambda>k. ucast (peek_byte s (a + of_nat k))) [0..<n]"

definition ram_range :: "'io ARMul_State \<Rightarrow> ARMword \<Rightarrow> nat \<Rightarrow> bool" where
  "ram_range s a n \<longleftrightarrow> (\<forall>k<n. ram_ok s (a + of_nat k))"

lemma length_ram_bytes [simp]: "length (ram_bytes s a n) = n"
  by (simp add: ram_bytes_def)

lemma ram_bytes_Suc: "ram_bytes s a (Suc n) = ucast (peek_byte s a) # ram_bytes s (a + 1) n"
  by (simp add: ram_bytes_def upt_conv_Cons map_Suc_upt [symmetric] add.assoc del: upt_Suc)

lemma ram_range_Suc: "ram_range s a (Suc n) \<longleftrightarrow> ram_ok s a \<and> ram_range s (a + 1) n"
  by (auto simp: ram_range_def All_less_Suc2 add.assoc)

text \<open>A step that reads or writes RAM keeps every byte that it does not write, and everything but the memory.\<close>

definition same_ram :: "'io ARMul_State \<Rightarrow> 'io ARMul_State \<Rightarrow> bool" where
  "same_ram s t \<longleftrightarrow> only_mem s t \<and> (\<forall>b. ram_ok t b = ram_ok s b) \<and> (\<forall>b. ram_ok s b \<longrightarrow> peek_byte t b = peek_byte s b)"

lemma same_ram_refl [simp]: "same_ram s s"
  by (simp add: same_ram_def)

lemma same_ram_trans: "same_ram s t \<Longrightarrow> same_ram t u \<Longrightarrow> same_ram s u"
  unfolding same_ram_def using only_mem_trans by metis

lemma same_ram_bytes: "same_ram s t \<Longrightarrow> ram_range s a n \<Longrightarrow> ram_bytes t a n = ram_bytes s a n"
  by (simp add: same_ram_def ram_bytes_def ram_range_def)

lemma same_ram_range: "same_ram s t \<Longrightarrow> ram_range t a n = ram_range s a n"
  by (simp add: same_ram_def ram_range_def)

lemma read_byte_ram:
  assumes "ram_ok s a"
  shows "\<exists>t. mem_read_byte env (Suc d) s a = Inr (peek_byte s a, t) \<and> same_ram s t"
proof -
  obtain t where t: "mem_read_byte env (Suc d) s a = Inr (peek_byte s a, t)" "same_memory s t"
    using mem_read_ram(3) [OF assms] by blast
  then show ?thesis
    using same_memory_peek [OF t(2) assms] by (auto simp: same_ram_def only_mem_def same_memory_def)
qed

lemma arm2host_ram:
  "ram_range s src n \<Longrightarrow> n \<le> cap \<Longrightarrow>
     \<exists>t. arm2host_loop (mem_read_byte env (Suc d)) (\<lambda>v. [ucast v]) 1 cap n s src = Inr (ram_bytes s src n, t) \<and> same_ram s t"
proof (induction n arbitrary: s src cap)
  case 0
  show ?case by (simp add: ram_bytes_def)
next
  case (Suc n)
  have ok: "ram_ok s src" "ram_range s (src + 1) n" using Suc.prems(1) by (auto simp: ram_range_Suc)
  obtain t where t: "mem_read_byte env (Suc d) s src = Inr (peek_byte s src, t)" "same_ram s t"
    using read_byte_ram [OF ok(1)] by blast
  have n: "n \<le> cap - 1" using Suc.prems(2) by simp
  obtain u where u: "arm2host_loop (mem_read_byte env (Suc d)) (\<lambda>v. [ucast v]) 1 (cap - 1) n t (src + 1)
      = Inr (ram_bytes t (src + 1) n, u)" "same_ram t u"
    using Suc.IH [of t "src + 1" "cap - 1"] n ok(2) same_ram_range [OF t(2)] by blast
  then show ?case
    using t Suc.prems(2) same_ram_bytes [OF t(2) ok(2)] same_ram_trans [OF t(2) u(2)]
    by (simp add: ram_bytes_Suc del: One_nat_def)
qed

text \<open>The counter of running copies is back where it was.\<close>

lemma internal_frame: "leave_internal ((enter_internal s)\<lparr>mem := m\<rparr>) = s\<lparr>mem := m\<rparr>"
  by (simp add: leave_internal_def enter_internal_def map_io_def set_io_def get_io_def)

lemma mach_ram [simp]:
  "ram_ok (map_mach f s) a = ram_ok s a" "peek_byte (map_mach f s) a = peek_byte s a"
  "ram_ok (map_io g s) a = ram_ok s a" "peek_byte (map_io g s) a = peek_byte s a"
  "ram_ok (starlet_update_int s) a = ram_ok s a" "peek_byte (starlet_update_int s) a = peek_byte s a"
  by (simp_all add: map_mach_def map_io_def set_io_def starlet_update_int_def ram_ok_def peek_byte_def peek_word_def)

lemma internal_ram:
  "ram_ok (enter_internal s) a = ram_ok s a" "peek_byte (enter_internal s) a = peek_byte s a"
  by (simp_all add: enter_internal_def map_io_def set_io_def ram_ok_def peek_byte_def peek_word_def)

lemma leave_same_ram: "same_ram (enter_internal s) t \<Longrightarrow> same_ram s (leave_internal t)"
  by (auto simp: same_ram_def only_mem_def internal_frame internal_ram)
    (auto simp: enter_internal_def map_io_def set_io_def ram_ok_def peek_byte_def peek_word_def)

lemma starlet_arm2host_ram:
  assumes "ram_range s src (unat len)" "unat len \<le> cap" "stack_depth env \<noteq> 0"
  shows "\<exists>t. starlet_arm2host env cap s src len = Inr (ram_bytes s src (unat len), t) \<and> same_ram s t"
proof -
  obtain d where d: "stack_depth env = Suc d" using assms(3) by (cases "stack_depth env") auto
  have r: "ram_range (enter_internal s) src (unat len)" "ram_bytes (enter_internal s) src n = ram_bytes s src n" for n
    using assms(1) by (simp_all add: ram_range_def ram_bytes_def internal_ram)
  obtain t where "arm2host_loop (mem_read_byte env (Suc d)) (\<lambda>v. [ucast v]) 1 cap (unat len) (enter_internal s) src
      = Inr (ram_bytes s src (unat len), t)" "same_ram (enter_internal s) t"
    using arm2host_ram [OF r(1) assms(2), of env d] r(2) by auto
  then show ?thesis using leave_same_ram [of s t]
    by (auto simp: starlet_arm2host_def d simp del: One_nat_def)
qed


lemma starlet_arm2host_overflow:
  assumes "ram_range s src (Suc cap)" "cap < unat len" "stack_depth env \<noteq> 0"
  shows "starlet_arm2host env cap s src len = Inl OutOfBounds"
proof -
  obtain d where d: "stack_depth env = Suc d" using assms(3) by (cases "stack_depth env") auto
  have "arm2host_loop (mem_read_byte env (Suc d)) (\<lambda>v. [ucast v]) 1 c (Suc c + k) s src = Inl OutOfBounds"
    if "ram_range s src (Suc c)" for c k and s :: starlet and src
    using that
  proof (induction c arbitrary: s src)
    case 0
    then show ?case using read_byte_ram [of s src env d] by (auto simp: ram_range_Suc)
  next
    case (Suc c)
    obtain t where t: "mem_read_byte env (Suc d) s src = Inr (peek_byte s src, t)" "same_ram s t"
      using read_byte_ram [of s src env d] Suc.prems by (auto simp: ram_range_Suc [of s src])
    then show ?case using Suc.IH [of t "src + 1"] Suc.prems same_ram_range [OF t(2)]
      by (simp add: ram_range_Suc [of s src])
  qed
  from this [of "enter_internal s" src cap "unat len - Suc cap"] show ?thesis
    using assms by (simp add: starlet_arm2host_def d ram_range_def internal_ram del: arm2host_loop.simps)
qed

lemma write_byte_ram:
  assumes "ram_ok s a"
  shows "\<exists>t. mem_write_byte env (Suc d) s a v = Inr t \<and> only_mem s t \<and> (\<forall>b. ram_ok t b = ram_ok s b) \<and>
    (\<forall>b. ram_ok s b \<longrightarrow> peek_byte t b = (if a = b then v AND 0xff else peek_byte s b))"
proof -
  obtain t w where t: "mem_write_byte env (Suc d) s a v = Inr t" "poke s a w t"
    using mem_write_ram(3) [OF assms, of env d v] by blast
  moreover have "(\<forall>b. ram_ok t b = ram_ok s b) \<and> (\<forall>b. ram_ok s b \<longrightarrow> peek_byte t b = (if a = b then v AND 0xff else peek_byte s b))"
    using ram_byte.write_law [OF assms, of env d v] t(1) by auto
  moreover have "only_mem s t" using t(2) by (auto simp: only_mem_def poke_def same_memory_def put_cell_def)
  ultimately show ?thesis by blast
qed

lemma octet_and_ff: "(ucast (v :: octet) AND 0xff :: ARMword) = ucast v"
proof -
  have "(0xff :: ARMword) = mask 8" by (simp add: mask_eq_exp_minus_1)
  then show ?thesis
    by (simp only: flip: take_bit_eq_mask) (rule bit_word_eqI, auto simp: bit_simps dest: bit_imp_le_length)
qed

text \<open>The address range written, as the position of an address in it.\<close>

lemma host2arm_ram:
  assumes "ram_range s dst (length bs)" "length bs < 2 ^ 32"
  shows "\<exists>t. host2arm_loop (mem_write_byte env (Suc d)) (length bs) s dst bs = Inr t \<and> only_mem s t \<and>
    (\<forall>b. ram_ok t b = ram_ok s b) \<and>
    (\<forall>b. ram_ok s b \<longrightarrow> peek_byte t b = (if unat (b - dst) < length bs then ucast (bs ! unat (b - dst)) else peek_byte s b))"
  using assms
proof (induction bs arbitrary: s dst)
  case Nil
  show ?case by simp
next
  case (Cons v bs)
  have ok: "ram_ok s dst" "ram_range s (dst + 1) (length bs)" using Cons.prems(1) by (auto simp: ram_range_Suc)
  obtain t where t: "mem_write_byte env (Suc d) s dst (ucast v) = Inr t" "only_mem s t" "\<forall>b. ram_ok t b = ram_ok s b"
      "\<forall>b. ram_ok s b \<longrightarrow> peek_byte t b = (if dst = b then ucast v AND 0xff else peek_byte s b)"
    using write_byte_ram [OF ok(1)] by blast
  obtain u where u: "host2arm_loop (mem_write_byte env (Suc d)) (length bs) t (dst + 1) bs = Inr u" "only_mem t u"
      "\<forall>b. ram_ok u b = ram_ok t b"
      "\<forall>b. ram_ok t b \<longrightarrow> peek_byte u b = (if unat (b - (dst + 1)) < length bs then ucast (bs ! unat (b - (dst + 1))) else peek_byte t b)"
    using Cons.IH [of t "dst + 1"] ok(2) t(3) Cons.prems(2) by (auto simp: ram_range_def)
  have v: "(ucast v AND 0xff :: ARMword) = ucast v" by (rule octet_and_ff)
  have "peek_byte u b = (if unat (b - dst) < Suc (length bs) then ucast ((v # bs) ! unat (b - dst)) else peek_byte s b)"
    if "ram_ok s b" for b
  proof (cases "b = dst")
    case True
    have "unat (- 1 :: ARMword) = 2 ^ 32 - 1" by (simp add: unsigned_minus_1_eq_mask mask_eq_exp_minus_1)
    then show ?thesis using True that t(3,4) u(4) v Cons.prems(2) by simp
  next
    case False
    then have "unat (b - dst) = Suc (unat (b - (dst + 1)))"
      using unat_minus_one [of "b - dst"] unat_gt_0 [of "b - dst"] by (simp add: diff_diff_eq [symmetric])
    then show ?thesis using False that t(3,4) u(4) by simp
  qed
  then show ?case using t u only_mem_trans [OF t(2) u(2)] by simp
qed


lemma starlet_host2arm_ram:
  assumes "ram_range s dst (unat len)" "length bs = unat len" "stack_depth env \<noteq> 0"
  shows "\<exists>t. starlet_host2arm env s dst bs len = Inr t \<and> only_mem s t \<and> (\<forall>b. ram_ok t b = ram_ok s b) \<and>
    (\<forall>b. ram_ok s b \<longrightarrow> peek_byte t b = (if unat (b - dst) < unat len then ucast (bs ! unat (b - dst)) else peek_byte s b))"
proof -
  obtain d where d: "stack_depth env = Suc d" using assms(3) by (cases "stack_depth env") auto
  have r: "ram_range (enter_internal s) dst (length bs)"
    using assms(1,2) by (simp add: ram_range_def internal_ram)
  have "length bs < 2 ^ 32" using unsigned_less [of len, where 'a = nat] assms(2) by simp
  then obtain t where t: "host2arm_loop (mem_write_byte env (Suc d)) (length bs) (enter_internal s) dst bs = Inr t"
      "only_mem (enter_internal s) t" "\<forall>b. ram_ok t b = ram_ok (enter_internal s) b"
      "\<forall>b. ram_ok (enter_internal s) b \<longrightarrow> peek_byte t b
         = (if unat (b - dst) < length bs then ucast (bs ! unat (b - dst)) else peek_byte (enter_internal s) b)"
    using host2arm_ram [OF r, of env d] by blast
  have "ram_ok (leave_internal t) b = ram_ok t b" "peek_byte (leave_internal t) b = peek_byte t b" for b
    by (simp_all add: leave_internal_def map_io_def set_io_def ram_ok_def peek_byte_def peek_word_def)
  moreover have "only_mem s (leave_internal t)" using t(2) by (auto simp: only_mem_def internal_frame)
  ultimately show ?thesis
    using t assms(2) by (simp add: starlet_host2arm_def d internal_ram)
qed

section \<open>The hash of a region of memory\<close>

lemma input_loop_holds:
  assumes "holds p t c" "length t < 64" "\<not> Corrupted c" "8 dvd bit_count c" "bit_count c + 8 * length bs < 2 ^ 64"
  shows "\<exists>p' t'. p @ t @ bs = p' @ t' \<and> length t' < 64 \<and> holds p' t' (input_loop bs c) \<and> \<not> Corrupted (input_loop bs c) \<and>
    bit_count (input_loop bs c) = bit_count c + 8 * length bs \<and> Computed (input_loop bs c) = Computed c"
  using assms
proof (induction bs arbitrary: p t c)
  case Nil
  then show ?case by auto
next
  case (Cons b bs)
  obtain p1 t1 where 1: "p @ t @ [b] = p1 @ t1" "length t1 < 64" "holds p1 t1 (input_octet b c)"
    using input_octet_holds [OF Cons.prems(1,2)] by blast
  have 2: "\<not> Corrupted (input_octet b c)" "bit_count (input_octet b c) = bit_count c + 8" "Computed (input_octet b c) = Computed c"
    using count_bits_count [of "put_octet b c"] Cons.prems(3-5) by (simp_all add: input_octet_def Let_def)
  then have "8 dvd bit_count (input_octet b c)" using Cons.prems(4) by simp
  then obtain p' t' where "p1 @ t1 @ bs = p' @ t'" "length t' < 64" "holds p' t' (input_loop bs (input_octet b c))"
      "\<not> Corrupted (input_loop bs (input_octet b c))"
      "bit_count (input_loop bs (input_octet b c)) = bit_count (input_octet b c) + 8 * length bs"
      "Computed (input_loop bs (input_octet b c)) = Computed (input_octet b c)"
    using Cons.IH [OF 1(3,2) 2(1)] Cons.prems(5) 2(2) by auto
  moreover have "p @ t @ b # bs = p1 @ t1 @ bs" using 1(1) by (metis append.assoc append_Cons append_Nil)
  ultimately show ?case using 2 Cons.prems(3) by auto
qed

text \<open>Between messages: no octet waits in the block, and the length counter of the context has not run over.\<close>

definition sha_idle :: "SHA1Context \<Rightarrow> bool" where
  "sha_idle c \<longleftrightarrow> length (Message_Block c) = 64 \<and> Message_Block_Index c = 0 \<and> \<not> Computed c \<and> \<not> Corrupted c \<and>
     8 dvd bit_count c \<and> length (Message_Digest c) = 5"

lemma sha_idle_input:
  assumes "sha_idle c" "Message_Digest c = initial_digest" "64 dvd length bs" "bit_count c + 8 * length bs < 2 ^ 64"
  shows "sha_idle (SHA1Input bs c) \<and> Message_Digest (SHA1Input bs c) = fold compress (blocks bs) initial_digest \<and>
    bit_count (SHA1Input bs c) = bit_count c + 8 * length bs"
proof -
  have "holds [] [] c" using assms(1,2) by (simp add: sha_idle_def holds_def)
  then obtain p t where pt: "bs = p @ t" "length t < 64" "holds p t (input_loop bs c)" "\<not> Corrupted (input_loop bs c)"
      "bit_count (input_loop bs c) = bit_count c + 8 * length bs" "\<not> Computed (input_loop bs c)"
    using input_loop_holds [of "[]" "[]" c bs] assms(1,4) by (auto simp: sha_idle_def)
  have "64 dvd length t" using assms(3) pt(1,3) by (simp add: holds_def dvd_add_right_iff)
  then have "t = []" using pt(2) by (auto dest: nat_dvd_not_less)
  moreover have "SHA1Input bs c = input_loop bs c" using assms(1) by (simp add: SHA1Input_def sha_idle_def)
  moreover have "length (fold compress xs initial_digest) = 5" for xs
    by (induction xs rule: rev_induct) (simp_all add: initial_digest_def compress_def split: prod.split)
  ultimately show ?thesis using pt assms(1,3) by (auto simp: sha_idle_def holds_def)
qed


text \<open>
  A driver of the engine: it writes the initial digest, the address and the number of blocks, and starts it without
  interrupt.
\<close>

definition sha_program :: "ARMword \<Rightarrow> nat \<Rightarrow> (ARMword \<times> ARMword) list" where
  "sha_program src n =
     [(0x08, 0x67452301), (0x0C, 0xEFCDAB89), (0x10, 0x98BADCFE), (0x14, 0x10325476), (0x18, 0xC3D2E1F0),
      (0x04, src), (0x00, 0x80000000 OR of_nat (n - 1))]"

fun sha_writes :: "starlet_t arm_env \<Rightarrow> (ARMword \<times> ARMword) list \<Rightarrow> starlet \<Rightarrow> starlet sim" where
  "sha_writes env [] s = Inr s"
| "sha_writes env ((a, d) # ws) s = bind_ok (starlet_sha_write env s a d) (sha_writes env ws)"

definition sha_digest_regs :: "starlet_t \<Rightarrow> ARMword list" where
  "sha_digest_regs m = map (starlet_sha_read m) [0x08, 0x0C, 0x10, 0x14, 0x18]"

lemma sha_digest_regs_eq:
  assumes "length (Message_Digest (SHA_ctx m)) = 5"
  shows "sha_digest_regs m = Message_Digest (SHA_ctx m)"
proof -
  obtain h0 h1 h2 h3 h4 where h: "Message_Digest (SHA_ctx m) = [h0, h1, h2, h3, h4]"
    using assms by (auto simp: numeral_eq_Suc length_Suc_conv)
  show ?thesis
    by (simp add: sha_digest_regs_def starlet_sha_read_def sha_result_def h wbe32_def wbe16_def Let_def be32_wbe32)
qed

lemma engine_length:
  assumes "0 < n" "n \<le> 0x1000" "k \<le> 64"
  shows "unat ((((0x80000000 OR of_nat (n - 1)) AND 0xFFF) + 1) * (of_nat k :: ARMword)) = k * n"
proof -
  have m: "(0xFFF :: ARMword) = mask 12" by (simp add: mask_eq_exp_minus_1)
  have "take_bit 12 (of_nat (n - 1) :: ARMword) = of_nat (take_bit 12 (n - 1))" by (rule take_bit_of_nat)
  also have "take_bit 12 (n - 1) = n - 1" using assms by (simp add: take_bit_nat_eq_self)
  finally have "(0x80000000 OR of_nat (n - 1)) AND 0xFFF = (of_nat (n - 1) :: ARMword)"
    by (simp add: m flip: take_bit_eq_mask)
  then have "(((0x80000000 OR of_nat (n - 1)) AND 0xFFF) + 1) * (of_nat k :: ARMword) = of_nat (n * k)"
    using assms(1) by (simp add: of_nat_diff)
  moreover have "n * k < 2 ^ 32" using mult_le_mono [OF assms(2,3)] by simp
  ultimately show ?thesis by (simp only: unsigned_of_nat) (simp add: take_bit_nat_eq_self mult.commute)
qed


lemma engine_bits:
  assumes "n \<le> 0x1000"
  shows "(0x80000000 OR of_nat (n - 1) :: ARMword) AND 0x80000000 \<noteq> 0"
    and "(0x80000000 OR of_nat (n - 1) :: ARMword) AND 0x40000000 = 0"
proof -
  have "\<not> bit (n - 1) 30" using assms by (simp add: bit_iff_odd)
  then have "\<not> bit (of_nat (n - 1) :: ARMword) 30" by (simp only: bit_of_nat_iff) simp
  then show "(0x80000000 OR of_nat (n - 1) :: ARMword) AND 0x80000000 \<noteq> 0"
    "(0x80000000 OR of_nat (n - 1) :: ARMword) AND 0x40000000 = 0"
    using and_exp_eq_0_iff_not_bit [of "0x80000000 OR of_nat (n - 1) :: ARMword" 31]
      and_exp_eq_0_iff_not_bit [of "0x80000000 OR of_nat (n - 1) :: ARMword" 30]
    by (simp_all add: bit_or_iff)
qed

text \<open>
  The state in which the driver starts the engine, and the bits of its command.
\<close>

definition sha_started :: "ARMword \<Rightarrow> starlet \<Rightarrow> starlet" where
  "sha_started src s =
     map_mach (\<lambda>m. m\<lparr>SHA_ctx := (SHA_ctx m)\<lparr>Message_Digest := initial_digest\<rparr>, SHA_src_ptr := src\<rparr>) s"

lemma sha_program_start:
  assumes "length (Message_Digest (SHA_ctx (mach_io s))) = 5"
  shows "sha_writes env (sha_program src n) s = starlet_sha_command env (sha_started src s) (0x80000000 OR of_nat (n - 1))"
proof -
  obtain h0 h1 h2 h3 h4 where h: "Message_Digest (SHA_ctx (mach_io s)) = [h0, h1, h2, h3, h4]"
    using assms by (auto simp: numeral_eq_Suc length_Suc_conv)
  have "bind_ok x (sha_writes env []) = x" for x by (cases x) simp_all
  then show ?thesis
    by (simp add: sha_program_def starlet_sha_write_def map_mach_def sha_set_digest_def sha_started_def h initial_digest_def)
qed

lemma sha_started_ram:
  "ram_ok (sha_started src s) a = ram_ok s a" "peek_byte (sha_started src s) a = peek_byte s a"
  by (simp_all add: sha_started_def)



text \<open>A machine with the padded message \<^verbatim>\<open>abc\<close> at address 0.\<close>

definition abc_state :: starlet where
  "abc_state = (ARMul_NewState (demo_mem\<lparr>rom := \<lambda>b w. if w = 0 then 0x61626380 else if w = 15 then 0x18 else 0\<rparr>)
     starlet_zero)\<lparr>bigendSig := HIGH\<rparr>"

lemma abc_ram_ok:
  assumes "a < 0x100000"
  shows "ram_ok abc_state a"
    and "peek_byte abc_state a = drop_bit (byte_offset 1 a) (if a < 4 then 0x61626380 else if drop_bit 2 a = 15 then 0x18 else 0) AND 0xff"
proof -
  let ?m = "demo_mem\<lparr>rom := \<lambda>b w. if w = 0 then 0x61626380 else if w = 15 then 0x18 else 0\<rparr>"
  have "ram_ok demo_state a" using assms by (rule demo_ram_ok)
  moreover have "mbp_cache demo_mem = None" by (simp add: demo_mem_def)
  ultimately show "ram_ok abc_state a"
    using demo_disjoint demo_live
    by (simp add: ram_ok_def abc_state_def ARMul_NewState_def ram_bank_def bank_no_def cache_ok_def demo_state_def)
  have "bank_no ?m a = 0" using assms by (simp add: bank_no_def demo_mem_def in_bank_def)
  then have "peek_word abc_state a = (if unat (drop_bit 2 a) = 0 then 0x61626380 else if unat (drop_bit 2 a) = 15 then 0x18 else 0)"
    by (simp add: peek_word_def abc_state_def ARMul_NewState_def word_no_def demo_mem_def)
  moreover have "unat (drop_bit 2 a) = 0 \<longleftrightarrow> a < 4"
    unfolding unat_drop_bit_eq by (simp add: drop_bit_eq_div word_less_nat_alt div_eq_0_iff)
  moreover have "unat (drop_bit 2 a) = 15 \<longleftrightarrow> drop_bit 2 a = 15"
    by (simp add: word_unat_eq_iff)
  ultimately show "peek_byte abc_state a = drop_bit (byte_offset 1 a) (if a < 4 then 0x61626380 else if drop_bit 2 a = 15 then 0x18 else 0) AND 0xff"
    by (simp add: peek_byte_def abc_state_def ARMul_NewState_def)
qed

lemma abc_bytes: "ram_bytes abc_state 0 64 = pad_message [0x61, 0x62, 0x63]"
proof -
  have "ram_bytes abc_state 0 64 = map (\<lambda>k. ucast (drop_bit (byte_offset 1 (of_nat k))
      (if (of_nat k :: ARMword) < 4 then 0x61626380 :: ARMword else if drop_bit 2 (of_nat k :: ARMword) = 15 then 0x18 else 0) AND 0xff)) [0..<64]"
    unfolding ram_bytes_def
  proof (rule map_cong [OF refl])
    fix k assume "k \<in> set [0..<64]"
    then have "(0 + of_nat k :: ARMword) < 0x100000" by (simp add: word_less_nat_alt unat_of_nat)
    then show "ucast (peek_byte abc_state (0 + of_nat k)) = (ucast (drop_bit (byte_offset 1 (of_nat k))
      (if (of_nat k :: ARMword) < 4 then 0x61626380 :: ARMword else if drop_bit 2 (of_nat k :: ARMword) = 15 then 0x18 else 0) AND 0xff) :: octet)"
      by (simp only: abc_ram_ok(2)) simp
  qed
  also have "\<dots> = [0x61, 0x62, 0x63, 0x80] @ map (\<lambda>_. 0) [0..<52] @ length_octets 24"
    by (simp add: upt_rec byte_offset_def length_octets_def)
  also have "\<dots> = pad_message [0x61, 0x62, 0x63]"
    by (simp add: pad_message_def map_replicate_const)
  finally show ?thesis .
qed


section \<open>Decryption in several commands\<close>

text \<open>A command for \<open>n\<close> blocks without interrupt; \<open>chain\<close> asks to go on with the vector of the last command.\<close>

definition aes_cmd :: "bool \<Rightarrow> bool \<Rightarrow> nat \<Rightarrow> ARMword" where
  "aes_cmd enc chain n =
     0x90000000 OR (if enc then 0 else 0x08000000) OR (if chain then 0x1000 else 0) OR of_nat (n - 1)"

lemma aes_cmd_fields:
  assumes "0 < n" "n \<le> 0x1000"
  shows "aes_cmd enc chain n AND 0x80000000 \<noteq> 0" "aes_cmd enc chain n AND 0x10000000 \<noteq> 0"
    "aes_cmd enc chain n AND 0x40000000 = 0" "aes_cmd enc chain n AND 0x08000000 = 0 \<longleftrightarrow> enc"
    "aes_cmd enc chain n AND 0x1000 = 0 \<longleftrightarrow> \<not> chain" "unat (((aes_cmd enc chain n AND 0xFFF) + 1) * 0x10) = 16 * n"
proof -
  let ?c = "aes_cmd enc chain n"
  have low: "\<not> bit (of_nat (n - 1) :: ARMword) k" if "12 \<le> k" for k
  proof -
    have "n - 1 < 2 ^ 12" using assms(2) by simp
    also have "\<dots> \<le> 2 ^ k" using that by (rule power_increasing) simp
    finally have "\<not> bit (n - 1) k" by (simp add: bit_iff_odd)
    then show ?thesis by (simp only: bit_of_nat_iff) simp
  qed
  have b: "bit ?c 31" "bit ?c 28" "\<not> bit ?c 30" "bit ?c 27 \<longleftrightarrow> \<not> enc" "bit ?c 12 \<longleftrightarrow> chain"
    using low [of 30] low [of 27] low [of 12] by (auto simp: aes_cmd_def bit_or_iff)
  then show "?c AND 0x80000000 \<noteq> 0" "?c AND 0x10000000 \<noteq> 0" "?c AND 0x40000000 = 0" "?c AND 0x08000000 = 0 \<longleftrightarrow> enc"
    "?c AND 0x1000 = 0 \<longleftrightarrow> \<not> chain"
    using and_exp_eq_0_iff_not_bit [of ?c 31] and_exp_eq_0_iff_not_bit [of ?c 28] and_exp_eq_0_iff_not_bit [of ?c 30]
      and_exp_eq_0_iff_not_bit [of ?c 27] and_exp_eq_0_iff_not_bit [of ?c 12] by simp_all
  have m: "(0xFFF :: ARMword) = mask 12" by (simp add: mask_eq_exp_minus_1)
  have "?c AND 0xFFF = (0x80000000 OR of_nat (n - 1)) AND 0xFFF"
    by (simp add: aes_cmd_def m flip: take_bit_eq_mask)
  then show "unat (((?c AND 0xFFF) + 1) * 0x10) = 16 * n"
    using engine_length [OF assms, of 16] by simp
qed

lemma mach_io_map_mach [simp]: "mach_io (map_mach f s) = f (mach_io s)"
  by (simp add: map_mach_def)

lemma octet_up_down [simp]: "ucast (ucast (b :: octet) :: ARMword) = b"
  by (rule bit_word_eqI) (auto simp: bit_simps)

text \<open>Memory after the bytes \<open>out\<close> were written from the address \<open>dst\<close> on.\<close>

definition written :: "'io ARMul_State \<Rightarrow> ARMword \<Rightarrow> octet list \<Rightarrow> 'io ARMul_State \<Rightarrow> bool" where
  "written s dst out t \<longleftrightarrow> (\<forall>b. ram_ok t b = ram_ok s b) \<and>
     (\<forall>b. ram_ok s b \<longrightarrow> peek_byte t b = (if unat (b - dst) < length out then ucast (out ! unat (b - dst)) else peek_byte s b))"

lemma written_bytes:
  assumes "written s dst out t" "ram_range s dst (length out)" "length out < 2 ^ 32"
  shows "ram_bytes t dst (length out) = out"
proof (rule nth_equalityI)
  fix k assume k: "k < length (ram_bytes t dst (length out))"
  then have "unat (dst + of_nat k - dst) = k" using assms(3) by (simp add: unat_of_nat take_bit_nat_eq_self)
  then show "ram_bytes t dst (length out) ! k = out ! k"
    using assms(1,2) k by (simp add: written_def ram_range_def ram_bytes_def)
qed simp

lemma written_keeps:
  assumes "written s dst out t" "ram_range s a n" "\<forall>k<n. length out \<le> unat (a + of_nat k - dst)"
  shows "ram_bytes t a n = ram_bytes s a n"
  using assms by (auto simp: written_def ram_range_def ram_bytes_def not_less [symmetric])

lemma written_range: "written s dst out t \<Longrightarrow> ram_range t a n = ram_range s a n"
  by (simp add: written_def ram_range_def)

lemma below_wraps:
  assumes "k < m" "m \<le> 0x10000" "n \<le> 0x10000"
  shows "n \<le> unat (dst + of_nat k - (dst + of_nat m) :: ARMword)"
proof -
  have "(of_nat k - of_nat m :: ARMword) = of_nat (2 ^ 32 - (m - k))"
    using assms by (simp add: of_nat_diff)
  moreover have "dst + of_nat k - (dst + of_nat m) = (of_nat k - of_nat m :: ARMword)" by simp
  ultimately have "unat (dst + of_nat k - (dst + of_nat m) :: ARMword) = 2 ^ 32 - (m - k)"
    using assms by (simp only: unsigned_of_nat) (simp add: take_bit_nat_eq_self)
  then show ?thesis using assms by simp
qed

lemma aes_command_ram:
  assumes n: "0 < n" "n \<le> 0x1000" and ram: "ram_range s (AES_src_ptr (mach_io s)) (16 * n)"
      "ram_range s (AES_dest_ptr (mach_io s)) (16 * n)" "stack_depth env \<noteq> 0"
    and src_def: "src = ram_bytes s (AES_src_ptr (mach_io s)) (16 * n)"
    and out_def: "out = fst (cbc enc (AES_key (mach_io s)) (if chain then temp_iv (mach_io s) else AES_iv (mach_io s)) src)"
    and len: "length out = 16 * n"
  shows "\<exists>t. starlet_aes_command cbc env s (aes_cmd enc chain n) = Inr t \<and> written s (AES_dest_ptr (mach_io s)) out t \<and>
    AES_key (mach_io t) = AES_key (mach_io s) \<and> temp_iv (mach_io t) = drop (16 * n - 16) src \<and>
    AES_src_ptr (mach_io t) = AES_src_ptr (mach_io s) + of_nat (16 * n) \<and>
    AES_dest_ptr (mach_io t) = AES_dest_ptr (mach_io s) + of_nat (16 * n)"
proof -
  note f = aes_cmd_fields [OF n, of enc chain]
  let ?len = "((aes_cmd enc chain n AND 0xFFF) + 1) * 0x10"
  obtain t where t: "starlet_arm2host env 0x10000 s (AES_src_ptr (mach_io s)) ?len = Inr (src, t)" "same_ram s t"
    using starlet_arm2host_ram [of s _ ?len "0x10000" env] ram n f(6) src_def by auto
  have t': "mach_io t = mach_io s" using t(2) by (auto simp: same_ram_def only_mem_def)
  define m where "m = snd (aes_crypt cbc (aes_cmd enc chain n) src (mach_io s))"
  have crypt: "aes_crypt cbc (aes_cmd enc chain n) src (mach_io s) = (out, m)"
    using f out_def unfolding m_def by (auto simp: aes_crypt_def Let_def split: prod.split)
  have m: "AES_key m = AES_key (mach_io s)" "AES_src_ptr m = AES_src_ptr (mach_io s)" "AES_dest_ptr m = AES_dest_ptr (mach_io s)"
    unfolding m_def by (simp_all add: aes_crypt_def Let_def split: prod.split)
  define u where "u = t\<lparr>mach_io := m\<rparr>"
  have u: "ram_ok u b = ram_ok s b" "ram_ok s b \<Longrightarrow> peek_byte u b = peek_byte s b" for b
    using t(2) mach_ram(1,2) [of "\<lambda>_. m" t b] by (simp_all add: same_ram_def u_def map_mach_def)
  have "ram_range u (AES_dest_ptr m) (unat ?len)" "length out = unat ?len"
    using ram(2) len m(3) f(6) by (simp_all add: ram_range_def u)
  then obtain v where v: "starlet_host2arm env u (AES_dest_ptr m) out ?len = Inr v" "only_mem u v" "\<forall>b. ram_ok v b = ram_ok u b"
      "\<forall>b. ram_ok u b \<longrightarrow> peek_byte v b = (if unat (b - AES_dest_ptr m) < unat ?len then ucast (out ! unat (b - AES_dest_ptr m)) else peek_byte u b)"
    using starlet_host2arm_ram [of u "AES_dest_ptr m" ?len out env] ram(3) by blast
  have v': "mach_io v = m" using v(2) by (auto simp: only_mem_def u_def)
  define w where "w = map_mach (\<lambda>m. m\<lparr>temp_iv := drop (unat ?len - 0x10) src, AES_src_ptr := AES_src_ptr m + ?len,
      AES_dest_ptr := AES_dest_ptr m + ?len\<rparr>) v"
  have "starlet_aes_command cbc env s (aes_cmd enc chain n) = Inr w"
    using f(1,3) v(1) unfolding u_def
    by (simp only: starlet_aes_command_def Let_def t(1) t' crypt w_def bind_ok_simps prod.case if_True if_False simp_thms)
      (simp add: t' crypt)
  moreover have "?len = of_nat (16 * n)" using f(6) by (metis of_nat_unat ucast_id)
  ultimately show ?thesis
    using v(3,4) u m f(6) len by (auto simp: w_def v' written_def)
qed


text \<open>
  What decryption in CBC mode promises: the output is as long as the input, and decrypting a text that is cut at a block
  boundary is decrypting its two parts, the second with the last block of the first as initial vector.
\<close>

definition cbc_decrypts :: "aes_cbc \<Rightarrow> bool" where
  "cbc_decrypts cbc \<longleftrightarrow>
     (\<forall>k iv x. length (fst (cbc False k iv x)) = length x) \<and>
     (\<forall>k iv x y. length iv = 16 \<longrightarrow> x \<noteq> [] \<longrightarrow> 16 dvd length x \<longrightarrow> 16 dvd length y \<longrightarrow>
        fst (cbc False k iv (x @ y)) = fst (cbc False k iv x) @ fst (cbc False k (drop (length x - 16) x) y))"

lemma ram_bytes_append: "ram_bytes s a (m + n) = ram_bytes s a m @ ram_bytes s (a + of_nat m) n"
  by (rule nth_equalityI) (auto simp: ram_bytes_def nth_append algebra_simps)

lemma ram_range_add: "ram_range s a (m + n) \<longleftrightarrow> ram_range s a m \<and> ram_range s (a + of_nat m) n"
proof -
  have "ram_ok s (a + of_nat k)" if "ram_range s a m" "ram_range s (a + of_nat m) n" "k < m + n" for k
    using that by (cases "k < m") (auto simp: ram_range_def algebra_simps dest: spec [of _ "k - m"])
  moreover have "ram_range s (a + of_nat m) n" if "ram_range s a (m + n)"
    unfolding ram_range_def
  proof (intro allI impI)
    fix k assume "k < n"
    then show "ram_ok s (a + of_nat m + of_nat k)"
      using that spec [of "\<lambda>k. k < m + n \<longrightarrow> ram_ok s (a + of_nat k)" "m + k"] by (simp add: ram_range_def add.assoc)
  qed
  ultimately show ?thesis by (auto simp: ram_range_def)
qed

text \<open>Two commands in a row, whatever the cipher: the second starts from the last block of the first source.\<close>

lemma aes_two_commands:
  assumes cbc: "\<And>k iv x. length (fst (cbc enc k iv x)) = length x"
    and n: "0 < n1" "n1 \<le> 0x1000" "0 < n2" "n2 \<le> 0x1000" and env: "stack_depth env \<noteq> 0"
    and ptrs: "AES_src_ptr (mach_io s) = src" "AES_dest_ptr (mach_io s) = dst" 
    and ram: "ram_range s src (16 * n1 + 16 * n2)" "ram_range s dst (16 * n1 + 16 * n2)"
    and apart: "\<forall>k<16 * n2. 16 * n1 \<le> unat (src + of_nat (16 * n1 + k) - dst)"
  shows "\<exists>t. bind_ok (starlet_aes_command cbc env s (aes_cmd enc False n1))
      (\<lambda>s. starlet_aes_command cbc env s (aes_cmd enc True n2)) = Inr t \<and>
    ram_bytes t dst (16 * n1 + 16 * n2)
      = fst (cbc enc (AES_key (mach_io s)) (AES_iv (mach_io s)) (ram_bytes s src (16 * n1)))
        @ fst (cbc enc (AES_key (mach_io s)) (drop (16 * n1 - 16) (ram_bytes s src (16 * n1)))
            (ram_bytes s (src + of_nat (16 * n1)) (16 * n2)))"
proof -
  define key x y where "key = AES_key (mach_io s)" "x = ram_bytes s src (16 * n1)"
    "y = ram_bytes s (src + of_nat (16 * n1)) (16 * n2)"
  define iv2 where "iv2 = drop (16 * n1 - 16) x"
  define out1 out2 where "out1 = fst (cbc enc key (AES_iv (mach_io s)) x)" "out2 = fst (cbc enc key iv2 y)"
  note defs = key_x_y_def iv2_def out1_out2_def
  have len: "length out1 = 16 * n1" "length out2 = 16 * n2" by (simp_all add: cbc defs)
  obtain t where t: "starlet_aes_command cbc env s (aes_cmd enc False n1) = Inr t" "written s dst out1 t"
      "AES_key (mach_io t) = key" "temp_iv (mach_io t) = iv2" "AES_src_ptr (mach_io t) = src + of_nat (16 * n1)"
      "AES_dest_ptr (mach_io t) = dst + of_nat (16 * n1)"
    using aes_command_ram [of n1 s env x out1 cbc enc False] n env ptrs ram len by (auto simp: ram_range_add defs)
  have y: "ram_bytes t (src + of_nat (16 * n1)) (16 * n2) = y"
    using written_keeps [OF t(2), of "src + of_nat (16 * n1)" "16 * n2"] ram(1) apart len
    by (simp add: defs ram_range_add algebra_simps)
  obtain u where u: "starlet_aes_command cbc env t (aes_cmd enc True n2) = Inr u" "written t (dst + of_nat (16 * n1)) out2 u"
    using aes_command_ram [of n2 t env y out2 cbc enc True] n env ram len t(3-6) y
    by (auto simp: ram_range_add written_range [OF t(2)] defs)
  have "ram_bytes u dst (16 * n1) = ram_bytes t dst (16 * n1)"
    using written_keeps [OF u(2), of dst "16 * n1"] ram(2) below_wraps [of _ "16 * n1" "16 * n2" dst] n len
    by (simp add: written_range [OF t(2)] ram_range_add)
  moreover have "ram_bytes t dst (16 * n1) = out1" "ram_bytes u (dst + of_nat (16 * n1)) (16 * n2) = out2"
    using written_bytes [OF t(2)] written_bytes [OF u(2)] ram(2) n len
    by (simp_all add: written_range [OF t(2)] ram_range_add)
  ultimately have bytes: "ram_bytes u dst (16 * n1) = out1" "ram_bytes u (dst + of_nat (16 * n1)) (16 * n2) = out2"
    by simp_all
  then have "ram_bytes u dst (16 * n1 + 16 * n2) = out1 @ out2" by (simp only: ram_bytes_append)
  then show ?thesis using t(1) u(1) by (simp add: defs)
qed

text \<open>
  Decrypting a region in two commands, the second of which continues the first, writes to the destination what
  one pass of CBC decryption over the whole region gives, for every implementation of the cipher that decrypts in CBC
  mode. Source and destination may be the same region.
\<close>

lemma aes_decrypts_in_pieces:
  assumes cbc: "cbc_decrypts cbc"
    and n: "0 < n1" "n1 \<le> 0x1000" "0 < n2" "n2 \<le> 0x1000" and env: "stack_depth env \<noteq> 0"
    and ptrs: "AES_src_ptr (mach_io s) = src" "AES_dest_ptr (mach_io s) = dst" "length (AES_iv (mach_io s)) = 16"
    and ram: "ram_range s src (16 * n1 + 16 * n2)" "ram_range s dst (16 * n1 + 16 * n2)"
    and apart: "\<forall>k<16 * n2. 16 * n1 \<le> unat (src + of_nat (16 * n1 + k) - dst)"
  shows "\<exists>t. bind_ok (starlet_aes_command cbc env s (aes_cmd False False n1))
      (\<lambda>s. starlet_aes_command cbc env s (aes_cmd False True n2)) = Inr t \<and>
    ram_bytes t dst (16 * n1 + 16 * n2)
      = fst (cbc False (AES_key (mach_io s)) (AES_iv (mach_io s)) (ram_bytes s src (16 * n1 + 16 * n2)))"
proof -
  let ?x = "ram_bytes s src (16 * n1)" and ?y = "ram_bytes s (src + of_nat (16 * n1)) (16 * n2)"
  have l: "length (fst (cbc False k iv z)) = length z" for k iv z using cbc by (simp add: cbc_decrypts_def)
  have "?x \<noteq> []" "16 dvd length ?x" "16 dvd length ?y" "length ?x = 16 * n1" using n by (auto simp: ram_bytes_def)
  then have "fst (cbc False (AES_key (mach_io s)) (AES_iv (mach_io s)) (?x @ ?y))
      = fst (cbc False (AES_key (mach_io s)) (AES_iv (mach_io s)) ?x) @ fst (cbc False (AES_key (mach_io s)) (drop (16 * n1 - 16) ?x) ?y)"
    using cbc ptrs(3) unfolding cbc_decrypts_def by metis
  then show ?thesis
    using aes_two_commands [of cbc False n1 n2 env s src dst, OF l n env ptrs(1,2) ram apart]
    by (simp only: ram_bytes_append)
qed

definition plain_cbc :: aes_cbc where
  "plain_cbc enc k iv x = (map2 (XOR) x (iv @ x), drop (length x - 16) x)"

text \<open>CBC decryption around the block cipher that changes nothing.\<close>

lemma plain_cbc_decrypts: "cbc_decrypts plain_cbc"
proof -
  have "map2 (XOR) (x @ y) (iv @ x @ y) = map2 (XOR) x (iv @ x) @ map2 (XOR) y (drop (length x - 16) x @ y)"
    if "length iv = 16" "x \<noteq> []" "16 dvd length x" for iv x y :: "octet list"
  proof -
    have "16 \<le> length x" using that(2,3) by (auto dest: dvd_imp_le)
    then have "iv @ x @ y = take (length x) (iv @ x) @ drop (length x - 16) x @ y"
      using that(1) append_take_drop_id [of "length x - 16" x] by simp
    moreover have "zip (x @ y) (take (length x) (iv @ x) @ drop (length x - 16) x @ y)
        = zip x (take (length x) (iv @ x)) @ zip y (drop (length x - 16) x @ y)"
      by (rule zip_append) simp
    moreover have "zip x (take (length x) (iv @ x)) = zip x (iv @ x)"
      using take_zip [of "length x" x "iv @ x"] by simp
    ultimately show ?thesis by (simp only: map_append)
  qed
  then show ?thesis by (simp add: cbc_decrypts_def plain_cbc_def)
qed

lemma aes_decrypts_in_pieces_witness:
  "\<exists>t. bind_ok (starlet_aes_command plain_cbc bare_env abc_state (aes_cmd False False 1))
      (\<lambda>s. starlet_aes_command plain_cbc bare_env s (aes_cmd False True 1)) = Inr t \<and>
    ram_bytes t 0 32 = fst (plain_cbc False (replicate 16 0) (replicate 16 0) (ram_bytes abc_state 0 32))"
proof -
  have m: "AES_src_ptr (mach_io abc_state) = 0" "AES_dest_ptr (mach_io abc_state) = 0"
    "AES_key (mach_io abc_state) = replicate 16 0" "AES_iv (mach_io abc_state) = replicate 16 0"
    by (simp_all add: abc_state_def ARMul_NewState_def starlet_zero_def)
  have r: "ram_range abc_state 0 (16 * 1 + 16 * 1)"
    by (auto simp: ram_range_def word_less_nat_alt unat_of_nat intro!: abc_ram_ok(1))
  have "\<forall>k<16 * 1. 16 * 1 \<le> unat (0 + of_nat (16 * 1 + k) - 0 :: ARMword)"
    by (auto simp: unat_of_nat take_bit_nat_eq_self simp del: of_nat_add)
  then show ?thesis
    using aes_decrypts_in_pieces [OF plain_cbc_decrypts, of 1 1 bare_env abc_state 0 0] m r
    by (auto simp: bare_env_def)
qed

end
