(* ===== verification/Starlet_Sdhc.thy ===== *)
theory Starlet_Sdhc
  imports Starlet_Engine
begin

text \<open>
  The SD host controller: its registers, and the commands of a card whose blocks are the file \<^verbatim>\<open>sd.bin\<close>. The register
  offsets are those of \<^verbatim>\<open>sdhcreg.h\<close>.
\<close>

section \<open>Commands\<close>

definition set_sdhc :: "(sdhc_reg_t \<Rightarrow> sdhc_reg_t) \<Rightarrow> starlet_io_t \<Rightarrow> starlet_io_t" where
  "set_sdhc f i = i\<lparr>sdhc_reg := f (sdhc_reg i)\<rparr>"

definition starlet_sdhc_fire_irq :: "ARMword \<Rightarrow> starlet_io_t \<Rightarrow> starlet_io_t" where
  "starlet_sdhc_fire_irq irq i =
     (let i = (if irq_enable (sdhc_reg i) AND irq \<noteq> 0 then set_sdhc (\<lambda>r. r\<lparr>irq_status := irq_status r OR irq\<rparr>) i else i)
      in if irq_signal (sdhc_reg i) AND irq \<noteq> 0 then starlet_set_intr 7 i else i)"

text \<open>
  \<^verbatim>\<open>READ_MULTIPLE\<close>: the blocks go to memory. The position in the file and the number of bytes do not overflow on a host
  with 64-bit \<^verbatim>\<open>long\<close>.
\<close>

definition sdhc_read_multiple :: "host_files \<Rightarrow> starlet_t arm_env \<Rightarrow> starlet \<Rightarrow> starlet sim" where
  "sdhc_read_multiple files env s =
     (let r = sdhc_reg (get_io s); total = (blk_size r AND 0xfff) * blk_cnt r; offset = 512 * unat (sd_argument r)
      in if \<not> sd_open (mach_io s) then Inl NullPointer
         else case sd_bin files of
                None \<Rightarrow> Inl NullPointer
              | Some f \<Rightarrow>
                  if total \<noteq> 0 \<and> length f < offset + unat total then Inl Uninitialised
                  else bind_ok (starlet_host2arm env s (dma_addr r) (take (unat total) (drop offset f)) total) (\<lambda>s.
                         Inr (map_io (starlet_sdhc_fire_irq 2 \<circ> starlet_sdhc_fire_irq 1) s)))"

definition sdhc_respond :: "ARMword list \<Rightarrow> starlet_io_t \<Rightarrow> starlet_io_t" where
  "sdhc_respond rs = set_sdhc (\<lambda>r. r\<lparr>response := rs @ drop (length rs) (response r)\<rparr>)"

definition sdhc_command :: "host_files \<Rightarrow> starlet_t arm_env \<Rightarrow> ARMword \<Rightarrow> starlet \<Rightarrow> starlet sim" where
  "sdhc_command files env command s =
     (let arg = sd_argument (sdhc_reg (get_io s)); fire = starlet_sdhc_fire_irq 1;
          size = of_nat (sd_card_size (mach_io s) div 1024 div 512)
      in if sd_app_cmd (mach_io s)
         then let s = map_mach (\<lambda>m. m\<lparr>sd_app_cmd := False\<rparr>) s
              in if command = 41 then Inr (map_io (fire \<circ> sdhc_respond [0x80000000 OR arg]) s) else Inr (map_io fire s)
         else if command = 0 then Inr (map_io fire s)
         else if command = 55 then Inr (map_io fire (map_mach (\<lambda>m. m\<lparr>sd_app_cmd := True\<rparr>) s))
         else if command = 8 then Inr (map_io (fire \<circ> sdhc_respond [arg]) s)
         else if command = 9 then Inr (map_io (fire \<circ> sdhc_respond [0, push_bit 8 (size - 1), 0, 0xe00]) s)
         else if command = 2 then Inr (map_io (fire \<circ> sdhc_respond [0, 0x30000000, 0x30303030, 0x00014130]) s)
         else if command = 18 then sdhc_read_multiple files env s
         else Inr (map_io fire s))"

definition starlet_sdhc_exec :: "host_files \<Rightarrow> starlet_t arm_env \<Rightarrow> starlet \<Rightarrow> starlet sim" where
  "starlet_sdhc_exec files env s =
     (let command = drop_bit 8 (sd_command (sdhc_reg (get_io s))) AND 0x3f
      in bind_ok (sdhc_command files env command s) (\<lambda>s.
           Inr (map_io (set_sdhc (\<lambda>r. r\<lparr>sd_command := 0xffff0000\<rparr>)) s)))"

section \<open>Reset\<close>

definition sdhc_open :: "host_files \<Rightarrow> starlet_t \<Rightarrow> starlet_t" where
  "sdhc_open files m =
     (if sd_open m then m
      else case sd_bin files of
             None \<Rightarrow> m\<lparr>sd_card_inserted := False\<rparr>
           | Some f \<Rightarrow> m\<lparr>sd_open := True, sd_card_size := length f, sd_card_inserted := True,
                         sd_card_is_sdhc := length f > 0x80000000\<rparr>)"

definition sdhc_initial :: sdhc_reg_t where
  "sdhc_initial = sdhc_zero\<lparr>sd_command := 0xffff0000, capabilities := 0x01400a00, max_capabilities := 0x01400a00\<rparr>"

definition starlet_sdhc_reset :: "host_files \<Rightarrow> bool \<Rightarrow> bool \<Rightarrow> bool \<Rightarrow> starlet_t \<Rightarrow> starlet_t" where
  "starlet_sdhc_reset files cmd dat al m =
     (let m = sdhc_open files m; r = sdhc_reg (io m);
          r = (if al then sdhc_initial else r);
          r = (if cmd then r\<lparr>irq_status := irq_status r AND NOT 1\<rparr> else r);
          r = (if dat then r\<lparr>irq_status := irq_status r AND NOT 0x3e\<rparr> else r)
      in m\<lparr>io := (io m)\<lparr>sdhc_reg := r\<rparr>\<rparr>)"

definition starlet_sdhc_init :: "host_files \<Rightarrow> starlet_t \<Rightarrow> starlet_t" where
  "starlet_sdhc_init files = starlet_sdhc_reset files True True True"

section \<open>Registers\<close>

text \<open>Where the code assigns only a value that differs, and does nothing else, it is assigned here in any case.\<close>

definition sdhc_write_clock :: "host_files \<Rightarrow> ARMword \<Rightarrow> starlet_t \<Rightarrow> starlet_t" where
  "sdhc_write_clock files data m =
     (let r = sdhc_reg (io m); c = data AND 0xffff;
          r = (if clock_control r XOR c \<noteq> 0 then r\<lparr>clock_control := (if c AND 1 \<noteq> 0 then c OR 2 else c)\<rparr> else r);
          r = r\<lparr>timeout_control :=
                  (if (ucast (timeout_control r) XOR drop_bit 16 data) AND 0xf \<noteq> 0 then ucast (drop_bit 16 data AND 0xf)
                   else timeout_control r)\<rparr>;
          m = m\<lparr>io := (io m)\<lparr>sdhc_reg := r\<rparr>\<rparr>; diff = drop_bit 24 data AND 0xf
      in if diff \<noteq> 0 then starlet_sdhc_reset files (diff AND 2 \<noteq> 0) (diff AND 4 \<noteq> 0) (diff AND 1 \<noteq> 0) m else m)"

definition starlet_sdhc_write ::
  "host_files \<Rightarrow> starlet_t arm_env \<Rightarrow> starlet \<Rightarrow> ARMword \<Rightarrow> ARMword \<Rightarrow> starlet sim" where
  "starlet_sdhc_write files env s addr data =
     (let a = addr AND 0xFFFF; reg = (\<lambda>f. Inr (map_io (set_sdhc f) s))
      in if a = 0x00 then reg (\<lambda>r. r\<lparr>dma_addr := data\<rparr>)
         else if a = 0x04 then reg (\<lambda>r. r\<lparr>blk_size := data AND 0xffff, blk_cnt := drop_bit 16 data\<rparr>)
         else if a = 0x08 then reg (\<lambda>r. r\<lparr>sd_argument := data\<rparr>)
         else if a = 0x0c
         then let s = map_io (set_sdhc (\<lambda>r. r\<lparr>sd_mode := data AND 0xffff\<rparr>)) s
              in if sd_command (sdhc_reg (get_io s)) XOR drop_bit 16 data \<noteq> 0
                 then starlet_sdhc_exec files env (map_io (set_sdhc (\<lambda>r. r\<lparr>sd_command := drop_bit 16 data\<rparr>)) s)
                 else Inr s
         else if a = 0x10 then reg (\<lambda>r. r\<lparr>response := (response r)[0 := data]\<rparr>)
         else if a = 0x14 \<or> a = 0x18 \<or> a = 0x1c then Inl OutOfBounds
         else if a = 0x28
         then reg (\<lambda>r. r\<lparr>host_control := ucast (data AND 0xf), pwr_control := ucast (drop_bit 8 data AND 0xf),
                        bgap_control := ucast (drop_bit 16 data AND 0xf), wakeup_control := ucast (drop_bit 24 data AND 0xf)\<rparr>)
         else if a = 0x2c then Inr (map_mach (sdhc_write_clock files data) s)
         else if a = 0x30
         then reg (\<lambda>r. r\<lparr>irq_status := irq_status r AND NOT (data AND 0xffff),
                        eirq_status := eirq_status r AND NOT (drop_bit 16 data)\<rparr>)
         else if a = 0x34 then reg (\<lambda>r. r\<lparr>irq_enable := data AND 0xffff, eirq_enable := drop_bit 16 data\<rparr>)
         else if a = 0x38 then reg (\<lambda>r. r\<lparr>irq_signal := data AND 0xffff, eirq_signal := drop_bit 16 data\<rparr>)
         else Inr s)"

definition starlet_sdhc_read :: "starlet_t \<Rightarrow> ARMword \<Rightarrow> ARMword" where
  "starlet_sdhc_read m addr =
     (let a = addr AND 0xFFFF; r = sdhc_reg (io m)
      in if a = 0x00 then dma_addr r
         else if a = 0x04 then blk_size r OR push_bit 16 (blk_cnt r)
         else if a = 0x08 then sd_argument r
         else if a = 0x0c then sd_mode r OR push_bit 16 (sd_command r)
         else if a = 0x10 then response r ! 0
         else if a = 0x14 then response r ! 1
         else if a = 0x18 then response r ! 2
         else if a = 0x1c then response r ! 3
         else if a = 0x24 then (if sd_card_inserted m then present_state r OR 0x10000 else present_state r)
         else if a = 0x28
         then ucast (host_control r) OR push_bit 8 (ucast (pwr_control r)) OR push_bit 16 (ucast (bgap_control r))
              OR push_bit 24 (ucast (wakeup_control r))
         else if a = 0x2c then clock_control r OR push_bit 16 (ucast (timeout_control r))
         else if a = 0x30 then irq_status r OR push_bit 16 (eirq_status r)
         else if a = 0x34 then irq_enable r OR push_bit 16 (eirq_enable r)
         else if a = 0x38 then irq_signal r OR push_bit 16 (eirq_signal r)
         else if a = 0x40 then capabilities r
         else if a = 0x48 then max_capabilities r
         else if a = 0xfc then (if irq_status r = 0 then 0 else 1)
         else 0)"

section \<open>Reading blocks\<close>

lemma map_io_sel [simp]:
  "get_io (map_io f s) = f (get_io s)" "mach_io (map_io f s) = (mach_io s)\<lparr>io := f (get_io s)\<rparr>"
  by (simp_all add: map_io_def set_io_def get_io_def)

lemma map_mach_sel [simp]: "mach_io (map_mach f s) = f (mach_io s)"
  by (simp add: map_mach_def)

fun sdhc_writes :: "host_files \<Rightarrow> starlet_t arm_env \<Rightarrow> (ARMword \<times> ARMword) list \<Rightarrow> starlet \<Rightarrow> starlet sim" where
  "sdhc_writes files env [] s = Inr s"
| "sdhc_writes files env ((a, d) # ws) s = bind_ok (starlet_sdhc_write files env s a d) (sdhc_writes files env ws)"

lemma map_io_ram [simp]:
  "ram_ok (map_io f s) b = ram_ok s b" "peek_byte (map_io f s) b = peek_byte s b" "NirqSig (map_io f s) = NirqSig s"
  by (simp_all add: map_io_def set_io_def ram_ok_def peek_byte_def peek_word_def)

lemma set_sdhc_sel [simp]: "sdhc_reg (set_sdhc f i) = f (sdhc_reg i)" "irq_active (set_sdhc f i) = irq_active i"
  by (simp_all add: set_sdhc_def)

lemma fire_irq_regs:
  "dma_addr (sdhc_reg (starlet_sdhc_fire_irq q i)) = dma_addr (sdhc_reg i)"
  "irq_enable (sdhc_reg (starlet_sdhc_fire_irq q i)) = irq_enable (sdhc_reg i)"
  "irq_signal (sdhc_reg (starlet_sdhc_fire_irq q i)) = irq_signal (sdhc_reg i)"
  by (simp_all add: starlet_sdhc_fire_irq_def starlet_set_intr_def Let_def)

lemma fire_irq_bits:
  assumes "n < 32"
  shows "bit (irq_status (sdhc_reg (starlet_sdhc_fire_irq (2 ^ n) i))) k \<longleftrightarrow>
      bit (irq_status (sdhc_reg i)) k \<or> k = n \<and> bit (irq_enable (sdhc_reg i)) n"
    and "bit (irq_active (starlet_sdhc_fire_irq (2 ^ n) i)) 7 \<longleftrightarrow> bit (irq_active i) 7 \<or> bit (irq_signal (sdhc_reg i)) n"
  using assms and_exp_eq_0_iff_not_bit [of "irq_enable (sdhc_reg i)" n] and_exp_eq_0_iff_not_bit [of "irq_signal (sdhc_reg i)" n]
  by (auto simp: starlet_sdhc_fire_irq_def starlet_set_intr_def set_sdhc_def Let_def bit_or_iff bit_exp_iff)

text \<open>The command register is written with command 18, the block is read.\<close>

lemma host2arm_written:
  assumes "ram_range s dst (unat len)" "length bs = unat len" "stack_depth env \<noteq> 0"
  shows "\<exists>t. starlet_host2arm env s dst bs len = Inr t \<and> only_mem s t \<and> written s dst bs t"
  using starlet_host2arm_ram [OF assms] assms(2) by (auto simp: written_def)

lemma map_io_map_io: "map_io f (map_io g s) = map_io (\<lambda>i. f (g i)) s"
  by (simp add: map_io_def set_io_def get_io_def)

lemma set_sdhc_set_sdhc [simp]: "set_sdhc f (set_sdhc g i) = set_sdhc (\<lambda>r. f (g r)) i"
  by (simp add: set_sdhc_def)

lemma sdhc_read_multiple_ok:
  assumes card: "sd_bin files = Some f" "sd_open (mach_io s)"
    and range: "512 * unat (sd_argument (sdhc_reg (get_io s))) + unat len \<le> length f"
    and size: "len = (blk_size (sdhc_reg (get_io s)) AND 0xfff) * blk_cnt (sdhc_reg (get_io s))"
    and ram: "ram_range s (dma_addr (sdhc_reg (get_io s))) (unat len)" "stack_depth env \<noteq> 0"
  shows "\<exists>t. sdhc_read_multiple files env s =
      Inr (map_io (starlet_sdhc_fire_irq 2 \<circ> starlet_sdhc_fire_irq 1) t) \<and> only_mem s t \<and>
      written s (dma_addr (sdhc_reg (get_io s))) (take (unat len) (drop (512 * unat (sd_argument (sdhc_reg (get_io s)))) f)) t"
proof -
  let ?bs = "take (unat len) (drop (512 * unat (sd_argument (sdhc_reg (get_io s)))) f)"
  have bs: "length ?bs = unat len" using range by simp
  obtain t where "starlet_host2arm env s (dma_addr (sdhc_reg (get_io s))) ?bs len = Inr t" "only_mem s t"
      "written s (dma_addr (sdhc_reg (get_io s))) ?bs t"
    using host2arm_written [OF ram(1) bs ram(2)] by blast
  then show ?thesis
    using card range by (intro exI [of _ t]) (simp add: sdhc_read_multiple_def size [symmetric] Let_def)
qed

lemma small_bit: "(w :: ARMword) < 2 ^ n \<Longrightarrow> n < 32 \<Longrightarrow> bit w k \<Longrightarrow> k < n"
  by (metis bit_take_bit_iff less_mask_eq take_bit_eq_mask)

lemma block_register:
  fixes size cnt :: ARMword
  assumes "size < 0x1000" "cnt < 0x10000"
  shows "(push_bit 16 cnt OR size) AND 0xffff = size" "drop_bit 16 (push_bit 16 cnt OR size) = cnt" "size AND 0xfff = size"
    "unat (size * cnt) = unat size * unat cnt"
proof -
  have b: "bit size k \<Longrightarrow> k < 12" "bit cnt k \<Longrightarrow> k < 16" for k
    using small_bit [of size 12 k] small_bit [of cnt 16 k] assms by simp_all
  have m: "(0xffff :: ARMword) = mask 16" "(0xfff :: ARMword) = mask 12" by (simp_all add: mask_eq_exp_minus_1)
  show "(push_bit 16 cnt OR size) AND 0xffff = size" "size AND 0xfff = size"
    unfolding m by (rule bit_word_eqI; auto simp: bit_simps dest: b)+
  show "drop_bit 16 (push_bit 16 cnt OR size) = cnt"
    by (rule bit_word_eqI) (auto simp: bit_simps dest: b)
  have "unat size < 0x1000" "unat cnt < 0x10000" using assms by (simp_all add: word_less_nat_alt)
  then have "unat size * unat cnt < 0x1000 * 0x10000" by (intro mult_strict_mono) simp_all
  then show "unat (size * cnt) = unat size * unat cnt" by (simp add: unat_mult_lem [symmetric])
qed

lemma command_register:
  fixes mode :: ARMword
  assumes "mode < 0x10000"
  shows "(0x12000000 OR mode) AND 0xffff = mode" "drop_bit 16 (0x12000000 OR mode) = 0x1200"
proof -
  have b: "bit mode k \<Longrightarrow> k < 16" for k using small_bit [of mode 16 k] assms by simp
  have n: "mode AND mask 16 = mode" "drop_bit 16 mode = 0"
    by (rule bit_word_eqI; auto simp: bit_simps dest: b)+
  have "(mask 16 :: ARMword) = 0xffff" by (simp add: mask_eq_exp_minus_1)
  moreover have "0x12000000 AND 0xffff = (0 :: ARMword)" by simp
  ultimately show "(0x12000000 OR mode) AND 0xffff = mode" using n(1) by (simp only: bit.conj_disj_distrib2 or.left_neutral)
  show "drop_bit 16 (0x12000000 OR mode) = 0x1200" using n(2) by simp
qed

text \<open>
  C18. The SD controller reads blocks: when a driver has written the address, the size and number of blocks and the
  first block to the registers of an idle controller, and then the command 18, memory holds that part of the card
  image from the address on, every other byte of RAM is as before, the two completion bits are set where they are
  enabled, and interrupt 7 is requested if one of them is to be signalled. The interrupt line of the processor is not
  changed: it follows the request only when something else updates it.
\<close>

theorem sdhc_reads_blocks:
  fixes size cnt dma arg mode :: ARMword
  assumes card: "sd_bin files = Some f" "sd_open (mach_io s)" "\<not> sd_app_cmd (mach_io s)"
    and idle: "sd_command (sdhc_reg (get_io s)) = 0xffff0000"
    and args: "size < 0x1000" "cnt < 0x10000" "mode < 0x10000"
    and range: "n = unat size * unat cnt" "512 * unat arg + n \<le> length f"
    and ram: "ram_range s dma n" "stack_depth env \<noteq> 0"
  shows "\<exists>t. sdhc_writes files env
      [(0x0d070000, dma), (0x0d070004, push_bit 16 cnt OR size), (0x0d070008, arg), (0x0d07000c, 0x12000000 OR mode)] s = Inr t \<and>
    ram_bytes t dma n = take n (drop (512 * unat arg) f) \<and>
    (\<forall>b. ram_ok s b \<and> n \<le> unat (b - dma) \<longrightarrow> peek_byte t b = peek_byte s b) \<and>
    (\<forall>k. bit (irq_status (sdhc_reg (get_io t))) k \<longleftrightarrow>
       bit (irq_status (sdhc_reg (get_io s))) k \<or> k < 2 \<and> bit (irq_enable (sdhc_reg (get_io s))) k) \<and>
    (bit (irq_active (get_io t)) 7 \<longleftrightarrow> bit (irq_active (get_io s)) 7 \<or>
       bit (irq_signal (sdhc_reg (get_io s))) 0 \<or> bit (irq_signal (sdhc_reg (get_io s))) 1) \<and>
    NirqSig t = NirqSig s \<and> sd_command (sdhc_reg (get_io t)) = 0xffff0000"
proof -
  note split = block_register [OF args(1,2)] command_register [OF args(3)]
  define u where "u = map_io (set_sdhc (\<lambda>r. r\<lparr>dma_addr := dma, blk_size := size, blk_cnt := cnt, sd_argument := arg,
    sd_mode := mode, sd_command := 0x1200\<rparr>)) s"
  have u: "sd_open (mach_io u)" "\<not> sd_app_cmd (mach_io u)" "sdhc_reg (get_io u) = (sdhc_reg (get_io s))\<lparr>dma_addr := dma, blk_size := size,
      blk_cnt := cnt, sd_argument := arg, sd_mode := mode, sd_command := 0x1200\<rparr>" "irq_active (get_io u) = irq_active (get_io s)"
    using card by (simp_all add: u_def set_sdhc_def)
  have "ram_range u dma n" using ram(1) by (simp add: u_def ram_range_def)
  then obtain v where v: "sdhc_read_multiple files env u = Inr (map_io (starlet_sdhc_fire_irq 2 \<circ> starlet_sdhc_fire_irq 1) v)"
      "only_mem u v" "written u dma (take n (drop (512 * unat arg) f)) v"
    using sdhc_read_multiple_ok [OF card(1) u(1) _ refl, of env] range ram(2) by (auto simp: u(3) split)
  define t where "t = map_io (set_sdhc (\<lambda>r. r\<lparr>sd_command := 0xffff0000\<rparr>)) (map_io (starlet_sdhc_fire_irq 2 \<circ> starlet_sdhc_fire_irq 1) v)"
  have run: "sdhc_writes files env
      [(0x0d070000, dma), (0x0d070004, push_bit 16 cnt OR size), (0x0d070008, arg), (0x0d07000c, 0x12000000 OR mode)] s = Inr t"
    using u v(1) card(3) idle split by (simp add: starlet_sdhc_write_def starlet_sdhc_exec_def sdhc_command_def u_def t_def comp_def map_io_map_io)
  have f: "mach_io v = mach_io u" "NirqSig v = NirqSig u" using v(2) by (auto simp: only_mem_def)
  have len: "length (take n (drop (512 * unat arg) f)) = n" using range(2) by simp
  have n: "n < 2 ^ 32" using range(1) split(4) unsigned_less [of "size * cnt", where 'a = nat] by simp
  have "ram_bytes v dma n = take n (drop (512 * unat arg) f)"
    using written_bytes [OF v(3)] len n \<open>ram_range u dma n\<close> by simp
  then have "ram_bytes t dma n = take n (drop (512 * unat arg) f)" by (simp add: t_def ram_bytes_def)
  moreover have "peek_byte t b = peek_byte s b" if "ram_ok s b" "n \<le> unat (b - dma)" for b
    using v(3) that len by (simp add: written_def t_def u_def)
  moreover have "sdhc_reg (get_io v) = sdhc_reg (get_io u)" "irq_active (get_io v) = irq_active (get_io u)"
    using f(1) by (simp_all add: get_io_def)
  moreover have "NirqSig t = NirqSig s" using f(2) by (simp add: t_def u_def)
  ultimately show ?thesis
    using run fire_irq_bits [of 0] fire_irq_bits [of 1] u(3,4)
    by (intro exI [of _ t]) (auto simp: t_def fire_irq_regs less_2_cases_iff simp del: bit_0 sdhc_writes.simps)
qed

definition card_files :: host_files where
  "card_files = \<lparr>boot0_bin = None, otp_bin = None, seeprom_bin = None, disc_iso = None,
     sd_bin = Some (replicate 512 0 @ replicate 512 7)\<rparr>"

definition card_state :: starlet where
  "card_state = abc_state\<lparr>mach_io := starlet_sdhc_init card_files starlet_zero\<rparr>"

theorem sdhc_reads_blocks_witness:
  "\<exists>t. sdhc_writes card_files bare_env
      [(0x0d070000, 0x1000), (0x0d070004, push_bit 16 1 OR 512), (0x0d070008, 1), (0x0d07000c, 0x12000000 OR 0x33)] card_state = Inr t \<and>
     ram_bytes t 0x1000 512 = replicate 512 7"
proof -
  let ?f = "replicate 512 0 @ replicate 512 7 :: octet list"
  have m: "sd_open (mach_io card_state)" "\<not> sd_app_cmd (mach_io card_state)"
    "sd_command (sdhc_reg (get_io card_state)) = 0xffff0000"
    by (simp_all add: card_state_def starlet_sdhc_init_def starlet_sdhc_reset_def sdhc_open_def card_files_def starlet_zero_def
        get_io_def sdhc_initial_def)
  have "ram_ok card_state a" if "a < 0x100000" for a
    using abc_ram_ok(1) [OF that] by (simp add: card_state_def ram_ok_def)
  moreover have "0x1000 + of_nat k < (0x100000 :: ARMword)" if "k < 512" for k
    using that by (simp add: word_less_nat_alt unat_word_ariths unat_of_nat take_bit_nat_eq_self)
  ultimately have r: "ram_range card_state 0x1000 512" by (auto simp: ram_range_def)
  have f: "sd_bin card_files = Some ?f" by (simp add: card_files_def)
  have n: "512 = unat (512 :: ARMword) * unat (1 :: ARMword)" "512 * unat (1 :: ARMword) + 512 \<le> length ?f" by simp_all
  have d: "stack_depth (bare_env :: starlet_t arm_env) \<noteq> 0" by (simp add: bare_env_def)
  have w: "(512 :: ARMword) < 0x1000" "(1 :: ARMword) < 0x10000" "(0x33 :: ARMword) < 0x10000" by simp_all
  have "take 512 (drop (512 * unat (1 :: ARMword)) ?f) = replicate 512 7" by simp
  with sdhc_reads_blocks [OF f m w n r d] show ?thesis by metis
qed

end
