(* ===== verification/Starlet_Ipc.thy ===== *)
theory Starlet_Ipc
  imports Starlet_Sdhc
begin

text \<open>
  The bridge between the mailbox and a process that plays the other processor: messages over a local socket, the
  state machine of \<^verbatim>\<open>starlet_do_ipc\<close>, and the cycle of the machine that drives it. The host is little-endian.
\<close>

section \<open>The socket\<close>

text \<open>
  The answers of the operating system, by the number of the system call. \<^verbatim>\<open>send\<close> takes at least one byte of what it is
  given, fails, or ends the process with a signal when the peer has gone; \<^verbatim>\<open>recv\<close> returns at least one byte, fails, or
  returns nothing at the end of what the peer sends; \<^verbatim>\<open>select\<close> fails, or says whether there is something to receive.
  A connection comes with all that the peer sends until it closes it.
\<close>

datatype send_result = SendError | SendKilled | Sends nat
datatype accept_result = Accepted "octet list" | NoPeer | AcceptError

record host_net =
  sock_ok :: "nat \<Rightarrow> bool"
  sock_accept :: "nat \<Rightarrow> accept_result"
  sock_send :: "nat \<Rightarrow> send_result"
  sock_recv :: "nat \<Rightarrow> nat option"
  sock_ready :: "nat \<Rightarrow> bool option"

definition sys_call :: "net_t \<Rightarrow> net_t" where
  "sys_call n = n\<lparr>net_calls := net_calls n + 1\<rparr>"

definition chunk :: "nat \<Rightarrow> nat \<Rightarrow> nat" where
  "chunk m len = max 1 (min m len)"

text \<open>True for the return value 0, false for -1.\<close>

function sendall :: "host_net \<Rightarrow> octet list \<Rightarrow> net_t \<Rightarrow> (bool \<times> net_t) sim" where
  "sendall h buf n =
     (if buf = [] then Inr (True, n)
      else if \<not> bsock_open n then Inr (False, sys_call n)
      else case sock_send h (net_calls n) of
             SendError \<Rightarrow> Inr (False, sys_call n)
           | SendKilled \<Rightarrow> Inl SkyeyeExit
           | Sends m \<Rightarrow>
               (let c = chunk m (length buf)
                in sendall h (drop c buf) ((sys_call n)\<lparr>outq := outq n @ take c buf\<rparr>)))"
  by pat_completeness auto
termination by (relation "measure (\<lambda>(h, buf, n). length buf)") (auto simp: chunk_def)

declare sendall.simps [simp del]

text \<open>The bytes received; \<open>None\<close> for the return value -1.\<close>

function recvall :: "host_net \<Rightarrow> nat \<Rightarrow> net_t \<Rightarrow> octet list option \<times> net_t" where
  "recvall h len n =
     (if len = 0 then (Some [], n)
      else if \<not> bsock_open n then (None, sys_call n)
      else case sock_recv h (net_calls n) of
             None \<Rightarrow> (None, sys_call n)
           | Some m \<Rightarrow>
               if inq n = [] then (None, sys_call n)
               else let c = chunk m (min len (length (inq n)));
                        (r, n') = recvall h (len - c) ((sys_call n)\<lparr>inq := drop c (inq n)\<rparr>)
                    in (map_option (\<lambda>bs. take c (inq n) @ bs) r, n'))"
  by pat_completeness auto
termination by (relation "measure (\<lambda>(h, len, n). len)") (auto simp: chunk_def)

declare recvall.simps [simp del]

section \<open>Messages\<close>

definition MSG_MESSAGE :: ARMword where "MSG_MESSAGE = 1"
definition MSG_ACK :: ARMword where "MSG_ACK = 2"
definition MSG_STATUS :: ARMword where "MSG_STATUS = 3"
definition MSG_READ :: ARMword where "MSG_READ = 4"
definition MSG_WRITE :: ARMword where "MSG_WRITE = 5"
definition MSG_STATE :: ARMword where "MSG_STATE = 6"
definition MSG_EXIT :: ARMword where "MSG_EXIT = 7"

lemmas msg_defs = MSG_MESSAGE_def MSG_ACK_def MSG_STATUS_def MSG_READ_def MSG_WRITE_def MSG_STATE_def MSG_EXIT_def

text \<open>A word in host order, and back.\<close>

definition le32 :: "ARMword \<Rightarrow> octet list" where
  "le32 w = rev (wbe32 w)"

definition of_le32 :: "octet list \<Rightarrow> ARMword" where
  "of_le32 bs = be32 (bs ! 3) (bs ! 2) (bs ! 1) (bs ! 0)"

text \<open>
  The length is an unsigned number in the message and signed for \<^verbatim>\<open>sendall\<close> and \<^verbatim>\<open>recvall\<close>, whose loops do not run
  for a negative one.
\<close>

definition signed_len :: "ARMword \<Rightarrow> nat" where
  "signed_len len = nat (sint len)"

definition sendipcmsg ::
  "host_net \<Rightarrow> ARMword \<Rightarrow> ARMword \<Rightarrow> octet list \<Rightarrow> ARMword \<Rightarrow> net_t \<Rightarrow> (bool \<times> net_t) sim" where
  "sendipcmsg h msg arg buf len n =
     bind_ok (sendall h (le32 msg) n) (\<lambda>(ok, n).
     if \<not> ok then Inr (False, n)
     else bind_ok (sendall h (le32 arg) n) (\<lambda>(ok, n).
     if \<not> ok then Inr (False, n)
     else bind_ok (sendall h (le32 len) n) (\<lambda>(ok, n).
     if \<not> ok then Inr (False, n)
     else if len \<noteq> 0 then sendall h (take (signed_len len) buf) n else Inr (True, n))))"

definition msgpending :: "host_net \<Rightarrow> net_t \<Rightarrow> bool option \<times> net_t" where
  "msgpending h n = (if bsock_open n then sock_ready h (net_calls n) else None, sys_call n)"

text \<open>
  A received message: its kind, argument and length, and the bytes that \<^verbatim>\<open>recvall\<close> put into the buffer. When the last part
  cannot be received, the code frees the address of the pointer instead of the pointer.
\<close>

definition recvipcmsg ::
  "host_net \<Rightarrow> net_t \<Rightarrow> ((ARMword \<times> ARMword \<times> ARMword \<times> octet list) option \<times> net_t) sim" where
  "recvipcmsg h n =
     (case recvall h 4 n of
        (None, n) \<Rightarrow> Inr (None, n)
      | (Some msg, n) \<Rightarrow>
     (case recvall h 4 n of
        (None, n) \<Rightarrow> Inr (None, n)
      | (Some arg, n) \<Rightarrow>
     (case recvall h 4 n of
        (None, n) \<Rightarrow> Inr (None, n)
      | (Some len, n) \<Rightarrow>
     (case recvall h (signed_len (of_le32 len)) n of
        (None, n) \<Rightarrow> Inl InvalidFree
      | (Some buf, n) \<Rightarrow> Inr (Some (of_le32 msg, of_le32 arg, of_le32 len, buf), n)))))"

section \<open>The state machine\<close>

definition set_net :: "net_t \<Rightarrow> starlet \<Rightarrow> starlet" where
  "set_net n = map_mach (\<lambda>m. m\<lparr>net := n\<rparr>)"

definition set_ipcs :: "ipc_state \<Rightarrow> starlet \<Rightarrow> starlet" where
  "set_ipcs st = map_mach (\<lambda>m. m\<lparr>ipcs := st\<rparr>)"

definition ipc_set :: "ARMword \<Rightarrow> starlet \<Rightarrow> starlet" where
  "ipc_set bits = map_io (\<lambda>i. starlet_ipc_write 4 ((ipc_ppcctrl i AND 0x3C) OR bits) i)"

text \<open>Sending; when it fails, the socket is closed and the next connection waited for.\<close>

definition close_peer :: "starlet \<Rightarrow> starlet" where
  "close_peer s = set_ipcs IPC_ACCEPT (set_net ((net (mach_io s))\<lparr>bsock_open := False\<rparr>) s)"

definition ipc_send :: "host_net \<Rightarrow> ARMword \<Rightarrow> ARMword \<Rightarrow> octet list \<Rightarrow> ARMword \<Rightarrow> starlet \<Rightarrow> (bool \<times> starlet) sim" where
  "ipc_send h msg arg buf len s =
     bind_ok (sendipcmsg h msg arg buf len (net (mach_io s))) (\<lambda>(ok, n).
       let s = set_net n s in Inr (ok, if ok then s else close_peer s))"

definition ipc_init :: "host_net \<Rightarrow> starlet \<Rightarrow> starlet sim" where
  "ipc_init h s =
     (let s = map_io (starlet_ipc_write 4 0x36) s; n = net (mach_io s); k = net_calls n
      in if sock_ok h k \<and> sock_ok h (k + 1) \<and> sock_ok h (k + 2)
         then Inr (set_ipcs IPC_ACCEPT (set_net (n\<lparr>net_calls := k + 3\<rparr>) s))
         else Inl SkyeyeExit)"

definition ipc_accept :: "host_net \<Rightarrow> starlet \<Rightarrow> starlet sim" where
  "ipc_accept h s =
     (let n = net (mach_io s); n' = sys_call n
      in case sock_accept h (net_calls n) of
           NoPeer \<Rightarrow> Inr (set_net n' s)
         | AcceptError \<Rightarrow> Inl SkyeyeExit
         | Accepted bs \<Rightarrow>
             bind_ok (ipc_send h MSG_STATUS (ppc_running (get_io s)) [] 0 (set_net (n'\<lparr>bsock_open := True, inq := bs\<rparr>) s)) (\<lambda>(ok, s).
               Inr (if ok then set_ipcs IPC_IDLE (map_mach (\<lambda>m. m\<lparr>last_ppc_state := ppc_running (io m)\<rparr>) s) else s)))"

text \<open>What the mailbox shows to the other processor is sent on. The result says whether the connection still stands.\<close>

definition ack_intr_ppc :: "starlet \<Rightarrow> starlet" where
  "ack_intr_ppc = map_io (\<lambda>i. i\<lparr>irq_active_ppc := irq_active_ppc i AND NOT (push_bit 30 1)\<rparr>)"

definition ipc_forward :: "host_net \<Rightarrow> starlet \<Rightarrow> (bool \<times> starlet) sim" where
  "ipc_forward h s =
     (if starlet_pending_intr_ppc 30 (get_io s) = 0 then Inr (True, s)
      else bind_ok (if ipc_ppcctrl (get_io s) AND 0x02 \<noteq> 0 then ipc_send h MSG_ACK 0 [] 0 (ipc_set 0x02 s) else Inr (True, s))
        (\<lambda>(ok, s).
           if \<not> ok then Inr (False, s)
           else bind_ok (if ipc_ppcctrl (get_io s) AND 0x04 \<noteq> 0
                         then let s = ipc_set 0x0c s in ipc_send h MSG_MESSAGE (ipc_armmsg (get_io s)) [] 0 s
                         else Inr (True, s))
             (\<lambda>(ok, s). Inr (ok, if ok then ack_intr_ppc s else s))))"

text \<open>A request of the peer: an access to simulated memory, by units as wide as address and length allow.\<close>

definition ipc_read :: "starlet_t arm_env \<Rightarrow> ARMword \<Rightarrow> ARMword \<Rightarrow> starlet \<Rightarrow> (octet list \<times> starlet) sim" where
  "ipc_read env addr len s =
     (if addr AND 3 = 0 \<and> len AND 3 = 0 then starlet_arm2host32 env (unat len) s addr len
      else if addr AND 1 = 0 \<and> len AND 1 = 0 then starlet_arm2host16 env (unat len) s addr len
      else starlet_arm2host env (unat len) s addr len)"

definition ipc_write_mem :: "starlet_t arm_env \<Rightarrow> ARMword \<Rightarrow> octet list \<Rightarrow> ARMword \<Rightarrow> starlet \<Rightarrow> starlet sim" where
  "ipc_write_mem env addr buf len s =
     (if addr AND 3 = 0 \<and> len AND 3 = 0 then starlet_host2arm32 env s addr buf len
      else if addr AND 1 = 0 \<and> len AND 1 = 0 then starlet_host2arm16 env s addr buf len
      else starlet_host2arm env s addr buf len)"

text \<open>The structure \<^verbatim>\<open>cooked_state\<close>, as the words it consists of.\<close>

definition cooked_state :: "starlet \<Rightarrow> ARMword list" where
  "cooked_state s =
     map (Reg s) [0..<16] @ concat (map (\<lambda>b. map (RegBank s b) [0..<16]) [0..<7]) @ [Cpsr s] @ map (Spsr s) [0..<7] @
     [control (mmu s), translation_table_base (mmu s), domain_access_control (mmu s), fault_status (mmu s),
      fault_address (mmu s)]"

definition ipc_handle ::
  "host_net \<Rightarrow> starlet_t arm_env \<Rightarrow> ARMword \<times> ARMword \<times> ARMword \<times> octet list \<Rightarrow> starlet \<Rightarrow> starlet sim" where
  "ipc_handle h env = (\<lambda>(msg, arg, len, buf) s.
     if msg = MSG_MESSAGE
     then Inr (set_ipcs IPC_SNDACK (ipc_set 0x01 (map_io (\<lambda>i. i\<lparr>ipc_ppcmsg := arg\<rparr>) s)))
     else if msg = MSG_ACK then Inr (ipc_set 0x08 s)
     else if msg = MSG_READ
     then if len = 0 then Inl NullPointer
          else if len < 4 then Inl OutOfBounds
          else if length buf < 4 then Inl Uninitialised
          else let n = of_le32 (take 4 buf)
               in bind_ok (ipc_read env arg n s) (\<lambda>(bs, s).
                  bind_ok (ipc_send h MSG_READ arg bs n s) (\<lambda>(ok, s). Inr s))
     else if msg = MSG_WRITE
     then if length buf < unat len then Inl Uninitialised else ipc_write_mem env arg buf len s
     else if msg = MSG_STATE
     then let ws = concat (map le32 (cooked_state s))
          in bind_ok (ipc_send h MSG_STATE 0 ws (of_nat (length ws)) s) (\<lambda>(ok, s). Inr s)
     else if msg = MSG_EXIT then Inl SkyeyeExit
     else Inr s)"

definition ipc_report :: "host_net \<Rightarrow> starlet \<Rightarrow> starlet sim" where
  "ipc_report h s =
     (if ppc_running (get_io s) = last_ppc_state (mach_io s) then Inr s
      else bind_ok (ipc_send h MSG_STATUS (ppc_running (get_io s)) [] 0 s) (\<lambda>(ok, s).
             Inr (if ok then map_mach (\<lambda>m. m\<lparr>last_ppc_state := ppc_running (io m)\<rparr>) s else s)))"

definition ipc_idle :: "host_net \<Rightarrow> starlet_t arm_env \<Rightarrow> starlet \<Rightarrow> starlet sim" where
  "ipc_idle h env s =
     bind_ok (ipc_forward h s) (\<lambda>(ok, s).
       if \<not> ok then Inr s
       else let (res, n) = msgpending h (net (mach_io s)); s = set_net n s
            in case res of
                 None \<Rightarrow> Inr (close_peer s)
               | Some False \<Rightarrow> ipc_report h s
               | Some True \<Rightarrow>
                   bind_ok (recvipcmsg h (net (mach_io s))) (\<lambda>(r, n).
                     let s = set_net n s
                     in case r of
                          None \<Rightarrow> Inr (close_peer s)
                        | Some m \<Rightarrow> bind_ok (ipc_handle h env m s) (ipc_report h)))"

definition ipc_sndack :: "starlet \<Rightarrow> starlet" where
  "ipc_sndack s =
     (if starlet_pending_intr_ppc 30 (get_io s) = 0 then s
      else ack_intr_ppc (if ipc_ppcctrl (get_io s) AND 0x02 \<noteq> 0 then set_ipcs IPC_IDLE (ipc_set 0x02 s) else s))"

definition starlet_do_ipc :: "host_net \<Rightarrow> starlet_t arm_env \<Rightarrow> starlet \<Rightarrow> starlet sim" where
  "starlet_do_ipc h env s =
     (case ipcs (mach_io s) of
        IPC_INIT \<Rightarrow> ipc_init h s
      | IPC_ACCEPT \<Rightarrow> ipc_accept h s
      | IPC_IDLE \<Rightarrow> ipc_idle h env s
      | IPC_SNDACK \<Rightarrow> Inr (ipc_sndack s))"

definition timer_tick :: "starlet \<Rightarrow> starlet" where
  "timer_tick s =
     (let s = map_io (\<lambda>i. i\<lparr>timer := timer i + 1\<rparr>) s
      in if timer (get_io s) = alarm (get_io s) then starlet_update_int (map_io (starlet_set_intr 0) s) else s)"

definition starlet_io_do_cycle :: "host_net \<Rightarrow> starlet_t arm_env \<Rightarrow> starlet \<Rightarrow> starlet sim" where
  "starlet_io_do_cycle h env s =
     bind_ok (starlet_do_ipc h env (ipc_update_int (timer_tick s))) (\<lambda>s. Inr (ipc_update_int s))"

section \<open>Sending and receiving in pieces\<close>

definition sends :: "host_net \<Rightarrow> bool" where
  "sends h \<longleftrightarrow> (\<forall>k. \<exists>m. sock_send h k = Sends m)"

definition receives :: "host_net \<Rightarrow> bool" where
  "receives h \<longleftrightarrow> (\<forall>k. sock_recv h k \<noteq> None)"

lemma sendall_ok:
  assumes "sends h" "bsock_open n"
  shows "\<exists>c. sendall h buf n = Inr (True, n\<lparr>net_calls := c, outq := outq n @ buf\<rparr>)"
  using assms(2)
proof (induction "length buf" arbitrary: buf n rule: less_induct)
  case less
  show ?case
  proof (cases "buf = []")
    case True
    then show ?thesis by (intro exI [of _ "net_calls n"]) (simp add: sendall.simps)
  next
    case False
    obtain m where m: "sock_send h (net_calls n) = Sends m" using assms(1) by (auto simp: sends_def)
    define c where "c = chunk m (length buf)"
    let ?n = "(sys_call n)\<lparr>outq := outq n @ take c buf\<rparr>"
    have "length (drop c buf) < length buf" using False by (simp add: c_def chunk_def)
    moreover have "bsock_open ?n" using less.prems by (simp add: sys_call_def)
    ultimately obtain d where "sendall h (drop c buf) ?n = Inr (True, ?n\<lparr>net_calls := d, outq := outq ?n @ drop c buf\<rparr>)"
      using less.hyps by blast
    then show ?thesis
      using False less.prems m by (intro exI [of _ d]) (simp add: sendall.simps [of h buf] c_def Let_def sys_call_def)
  qed
qed

lemma recvall_ok:
  assumes "receives h" "bsock_open n" "inq n = bs @ rest"
  shows "\<exists>c. recvall h (length bs) n = (Some bs, n\<lparr>net_calls := c, inq := rest\<rparr>)"
  using assms(2,3)
proof (induction "length bs" arbitrary: bs n rule: less_induct)
  case less
  show ?case
  proof (cases "bs = []")
    case True
    then show ?thesis using less.prems by (intro exI [of _ "net_calls n"]) (simp add: recvall.simps)
  next
    case False
    obtain m where m: "sock_recv h (net_calls n) = Some m" using assms(1) by (auto simp: receives_def)
    define c where "c = chunk m (length bs)"
    have c: "chunk m (min (length bs) (length (inq n))) = c" "c \<le> length bs" "0 < c"
      using less.prems(2) False by (auto simp: c_def chunk_def Suc_le_eq)
    let ?n = "(sys_call n)\<lparr>inq := drop c (inq n)\<rparr>"
    have "length (drop c bs) < length bs" using False c(3) by simp
    moreover have "bsock_open ?n" "inq ?n = drop c bs @ rest" using less.prems c(2) by (simp_all add: sys_call_def)
    ultimately obtain d where
      "recvall h (length (drop c bs)) ?n = (Some (drop c bs), ?n\<lparr>net_calls := d, inq := rest\<rparr>)"
      using less.hyps by blast
    moreover have "inq n \<noteq> []" "take c (inq n) = take c bs" using less.prems(2) False c(2) by auto
    ultimately show ?thesis
      using False less.prems(1) m c(1) by (intro exI [of _ d]) (simp add: recvall.simps [of h "length bs"] sys_call_def)
  qed
qed

text \<open>A receiver that sees the end of the stream too early fails, whatever the pieces.\<close>

lemma recvall_short:
  "length (inq n) < len \<Longrightarrow> fst (recvall h len n) = None"
proof (induction h len n rule: recvall.induct)
  case (1 h len n)
  show ?case
  proof (cases "bsock_open n \<and> sock_recv h (net_calls n) \<noteq> None \<and> inq n \<noteq> []")
    case True
    then obtain m where m: "sock_recv h (net_calls n) = Some m" by auto
    let ?c = "chunk m (min len (length (inq n)))"
    have "?c \<le> length (inq n)" using True 1(2) by (auto simp: chunk_def Suc_le_eq)
    then have "fst (recvall h (len - ?c) ((sys_call n)\<lparr>inq := drop ?c (inq n)\<rparr>)) = None"
      using True m 1(2) by (intro 1(1) [OF _ _ m _ refl]) auto
    then show ?thesis
      using m True 1(2) by (subst recvall.simps) (auto simp: Let_def split: prod.split)
  next
    case False
    then show ?thesis using 1(2) by (subst recvall.simps) (auto split: option.split)
  qed
qed

lemma length_le32 [simp]: "length (le32 w) = 4"
  by (simp add: le32_def wbe32_def wbe16_def)

lemma of_le32_le32 [simp]: "of_le32 (le32 w) = w"
proof -
  have "le32 w = [ucast w, ucast (drop_bit 8 w), ucast (drop_bit 16 w), ucast (drop_bit 8 (drop_bit 16 w))]"
    by (simp add: le32_def wbe32_def wbe16_def)
  then show ?thesis by (simp add: of_le32_def)
qed

definition ipc_frame :: "ARMword \<Rightarrow> ARMword \<Rightarrow> ARMword \<Rightarrow> octet list \<Rightarrow> octet list" where
  "ipc_frame msg arg len buf = le32 msg @ le32 arg @ le32 len @ buf"

lemma signed_len_small:
  assumes "unat len < 2 ^ 31"
  shows "signed_len len = unat len"
proof -
  have "uint len < 2 ^ 31" using assms by (metis of_nat_less_iff of_nat_numeral of_nat_power uint_nat)
  then have "sint len = uint len" unfolding sint_uint32 by simp
  then show ?thesis by (simp only: signed_len_def unat_eq_nat_uint)
qed

lemma sendipcmsg_ok:
  assumes "sends h" "bsock_open n" "length buf = unat len" "unat len < 2 ^ 31"
  shows "\<exists>c. sendipcmsg h msg arg buf len n = Inr (True, n\<lparr>net_calls := c, outq := outq n @ ipc_frame msg arg len buf\<rparr>)"
proof -
  have s: "\<exists>c'. sendall h bs (n\<lparr>net_calls := c, outq := out\<rparr>) = Inr (True, n\<lparr>net_calls := c', outq := out @ bs\<rparr>)" for bs c out
    using sendall_ok [OF assms(1), of "n\<lparr>net_calls := c, outq := out\<rparr>" bs] assms(2) by simp
  obtain c1 where c1: "sendall h (le32 msg) n = Inr (True, n\<lparr>net_calls := c1, outq := outq n @ le32 msg\<rparr>)"
    using sendall_ok [OF assms(1,2)] by blast
  obtain c2 where c2: "sendall h (le32 arg) (n\<lparr>net_calls := c1, outq := outq n @ le32 msg\<rparr>) =
      Inr (True, n\<lparr>net_calls := c2, outq := (outq n @ le32 msg) @ le32 arg\<rparr>)" using s by blast
  obtain c3 where c3: "sendall h (le32 len) (n\<lparr>net_calls := c2, outq := (outq n @ le32 msg) @ le32 arg\<rparr>) =
      Inr (True, n\<lparr>net_calls := c3, outq := ((outq n @ le32 msg) @ le32 arg) @ le32 len\<rparr>)" using s by blast
  obtain c4 where c4: "sendall h buf (n\<lparr>net_calls := c3, outq := ((outq n @ le32 msg) @ le32 arg) @ le32 len\<rparr>) =
      Inr (True, n\<lparr>net_calls := c4, outq := (((outq n @ le32 msg) @ le32 arg) @ le32 len) @ buf\<rparr>)" using s by blast
  have "buf = []" if "len = 0" using that assms(3) by simp
  then show ?thesis
    using c1 c2 c3 c4 assms(3)
    by (cases "len = 0") (auto simp: sendipcmsg_def ipc_frame_def signed_len_small [OF assms(4)])
qed

lemma recv_header:
  assumes "receives h" "bsock_open n" "inq n = le32 msg @ le32 arg @ le32 len @ out"
  shows "\<exists>c. recvipcmsg h n =
    (case recvall h (signed_len len) (n\<lparr>net_calls := c, inq := out\<rparr>) of
       (None, n) \<Rightarrow> Inl InvalidFree
     | (Some buf, n) \<Rightarrow> Inr (Some (msg, arg, len, buf), n))"
proof -
  have r: "\<exists>c'. recvall h (length bs) (n\<lparr>net_calls := c, inq := bs @ out\<rparr>) = (Some bs, n\<lparr>net_calls := c', inq := out\<rparr>)" for bs c out
    using recvall_ok [OF assms(1), of "n\<lparr>net_calls := c, inq := bs @ out\<rparr>" bs out] assms(2) by simp
  obtain c1 where c1: "recvall h 4 n = (Some (le32 msg), n\<lparr>net_calls := c1, inq := le32 arg @ le32 len @ out\<rparr>)"
    using recvall_ok [OF assms(1,2), of "le32 msg"] assms(3) by auto
  obtain c2 where c2: "recvall h 4 (n\<lparr>net_calls := c1, inq := le32 arg @ le32 len @ out\<rparr>) =
      (Some (le32 arg), n\<lparr>net_calls := c2, inq := le32 len @ out\<rparr>)" using r [of "le32 arg"] by auto
  obtain c3 where c3: "recvall h 4 (n\<lparr>net_calls := c2, inq := le32 len @ out\<rparr>) =
      (Some (le32 len), n\<lparr>net_calls := c3, inq := out\<rparr>)" using r [of "le32 len"] by auto
  show ?thesis by (intro exI [of _ c3]) (simp add: recvipcmsg_def c1 c2 c3 cong: prod.case_cong option.case_cong)
qed

lemma recvipcmsg_ok:
  assumes "receives h" "bsock_open n" "length buf = unat len" "unat len < 2 ^ 31" "inq n = ipc_frame msg arg len buf @ rest"
  shows "\<exists>c. recvipcmsg h n = Inr (Some (msg, arg, len, buf), n\<lparr>net_calls := c, inq := rest\<rparr>)"
proof -
  obtain c where c: "recvipcmsg h n =
      (case recvall h (length buf) (n\<lparr>net_calls := c, inq := buf @ rest\<rparr>) of
         (None, n) \<Rightarrow> Inl InvalidFree
       | (Some buf, n) \<Rightarrow> Inr (Some (msg, arg, len, buf), n))"
    using recv_header [OF assms(1,2), of msg arg len "buf @ rest"] assms(3,5)
    by (auto simp: ipc_frame_def signed_len_small [OF assms(4)])
  obtain d where "recvall h (length buf) (n\<lparr>net_calls := c, inq := buf @ rest\<rparr>) = (Some buf, n\<lparr>net_calls := d, inq := rest\<rparr>)"
    using recvall_ok [OF assms(1), of "n\<lparr>net_calls := c, inq := buf @ rest\<rparr>" buf rest] assms(2) by auto
  then show ?thesis using c by (intro exI [of _ d]) simp
qed

text \<open>A peer that closes the connection inside the contents of a message ends the simulator.\<close>

lemma recvipcmsg_truncated:
  assumes "receives h" "bsock_open n" "inq n = ipc_frame msg arg len part" "length part < unat len" "unat len < 2 ^ 31"
  shows "recvipcmsg h n = Inl InvalidFree"
proof -
  obtain c where c: "recvipcmsg h n =
      (case recvall h (unat len) (n\<lparr>net_calls := c, inq := part\<rparr>) of
         (None, n) \<Rightarrow> Inl InvalidFree
       | (Some buf, n) \<Rightarrow> Inr (Some (msg, arg, len, buf), n))"
    using recv_header [OF assms(1,2), of msg arg len part] assms(3)
    by (auto simp: ipc_frame_def signed_len_small [OF assms(5)])
  have "fst (recvall h (unat len) (n\<lparr>net_calls := c, inq := part\<rparr>)) = None"
    using assms(4) by (intro recvall_short) simp
  then show ?thesis using c by (auto split: prod.splits)
qed

text \<open>
  A message sent over the socket arrives as it was sent, however the operating system splits what is sent and
  what is received: when no call fails, a message of less than 2 GB is written behind what was sent before, and who
  receives that stream gets kind, argument and contents, and is left with what follows.
\<close>

lemma ipc_message_roundtrip:
  assumes "sends h" "bsock_open n" "length buf = unat len" "unat len < 2 ^ 31" "receives h'"
  shows "\<exists>c sent. sendipcmsg h msg arg buf len n = Inr (True, n\<lparr>net_calls := c, outq := outq n @ sent\<rparr>) \<and>
    (\<forall>m rest. bsock_open m \<and> inq m = sent @ rest \<longrightarrow>
       (\<exists>d. recvipcmsg h' m = Inr (Some (msg, arg, len, buf), m\<lparr>net_calls := d, inq := rest\<rparr>)))"
proof -
  obtain c where "sendipcmsg h msg arg buf len n = Inr (True, n\<lparr>net_calls := c, outq := outq n @ ipc_frame msg arg len buf\<rparr>)"
    using sendipcmsg_ok [OF assms(1-4)] by blast
  then show ?thesis using recvipcmsg_ok [OF assms(5) _ assms(3,4)] by blast
qed

text \<open>A host that sends by three bytes, receives by two, and has no other peer.\<close>

definition demo_net :: host_net where
  "demo_net = \<lparr>sock_ok = (\<lambda>_. True), sock_accept = (\<lambda>_. NoPeer), sock_send = (\<lambda>_. Sends 3), sock_recv = (\<lambda>_. Some 2),
     sock_ready = (\<lambda>_. Some False)\<rparr>"

lemma ipc_message_roundtrip_witness:
  "\<exists>c sent. sendipcmsg demo_net MSG_WRITE 0x1000 [1, 2, 3, 4, 5] 5 (net_zero\<lparr>bsock_open := True\<rparr>) =
       Inr (True, net_zero\<lparr>bsock_open := True, net_calls := c, outq := sent\<rparr>) \<and>
     (\<exists>d. recvipcmsg demo_net (net_zero\<lparr>bsock_open := True, inq := sent @ [9]\<rparr>) =
       Inr (Some (MSG_WRITE, 0x1000, 5, [1, 2, 3, 4, 5]), net_zero\<lparr>bsock_open := True, net_calls := d, inq := [9]\<rparr>))"
proof -
  let ?n = "net_zero\<lparr>bsock_open := True\<rparr>"
  have "sends demo_net" "receives demo_net" by (simp_all add: demo_net_def sends_def receives_def)
  then obtain c sent where sent:
    "sendipcmsg demo_net MSG_WRITE 0x1000 [1, 2, 3, 4, 5] 5 ?n = Inr (True, ?n\<lparr>net_calls := c, outq := outq ?n @ sent\<rparr>)"
    "\<forall>m rest. bsock_open m \<and> inq m = sent @ rest \<longrightarrow>
       (\<exists>d. recvipcmsg demo_net m = Inr (Some (MSG_WRITE, 0x1000, 5, [1, 2, 3, 4, 5]), m\<lparr>net_calls := d, inq := rest\<rparr>))"
    using ipc_message_roundtrip [of demo_net ?n "[1, 2, 3, 4, 5]" 5 demo_net MSG_WRITE "0x1000"] by auto
  from sent(2) [rule_format, of "?n\<lparr>inq := sent @ [9]\<rparr>" "[9]"]
  obtain d where "recvipcmsg demo_net (?n\<lparr>inq := sent @ [9]\<rparr>) =
      Inr (Some (MSG_WRITE, 0x1000, 5, [1, 2, 3, 4, 5]), ?n\<lparr>inq := sent @ [9], net_calls := d, inq := [9]\<rparr>)"
    by auto
  then show ?thesis using sent(1) by (auto simp: net_zero_def)
qed

section \<open>What the machine does in a cycle\<close>

lemma set_net_sel [simp]: "get_io (set_net n s) = get_io s" "mach_io (set_net n s) = (mach_io s)\<lparr>net := n\<rparr>"
  by (simp_all add: set_net_def get_io_def)

lemma set_ipcs_sel [simp]: "get_io (set_ipcs x s) = get_io s" "mach_io (set_ipcs x s) = (mach_io s)\<lparr>ipcs := x\<rparr>"
  by (simp_all add: set_ipcs_def get_io_def)

lemma update_int_sel [simp]: "get_io (starlet_update_int s) = get_io s" "mach_io (starlet_update_int s) = mach_io s"
  by (simp_all add: starlet_update_int_def get_io_def)

lemma bit_exp32: "bit (2 ^ n :: ARMword) k \<longleftrightarrow> k = n \<and> n < 32"
  by (auto simp: bit_exp_iff)

lemma pending_bit: "n < 32 \<Longrightarrow> starlet_pending_intr_ppc n i = 0 \<longleftrightarrow> \<not> bit (irq_active_ppc i) n"
  "n < 32 \<Longrightarrow> starlet_pending_intr n i = 0 \<longleftrightarrow> \<not> bit (irq_active i) n"
  using and_exp_eq_0_iff_not_bit [of "irq_active_ppc i" n] and_exp_eq_0_iff_not_bit [of "irq_active i" n]
  by (simp_all add: starlet_pending_intr_ppc_def starlet_pending_intr_def push_bit_eq_mult)

text \<open>
  The interrupt requests may change, and nothing else: this is what the timer and the update of the mailbox interrupts
  have in common.
\<close>

definition only_irq :: "starlet \<Rightarrow> starlet \<Rightarrow> bool" where
  "only_irq s t \<longleftrightarrow> (\<exists>a p. mach_io t = (mach_io s)\<lparr>io := (get_io s)\<lparr>irq_active := a, irq_active_ppc := p\<rparr>\<rparr>)"

lemma only_irq_same:
  assumes "only_irq s t"
  shows "ipc_ppcctrl (get_io t) = ipc_ppcctrl (get_io s)" "ipc_armctrl (get_io t) = ipc_armctrl (get_io s)"
    "ipc_armmsg (get_io t) = ipc_armmsg (get_io s)" "ppc_running (get_io t) = ppc_running (get_io s)"
    "timer (get_io t) = timer (get_io s)" "alarm (get_io t) = alarm (get_io s)"
    "irq_enabled (get_io t) = irq_enabled (get_io s)"
    "net (mach_io t) = net (mach_io s)" "ipcs (mach_io t) = ipcs (mach_io s)"
    "last_ppc_state (mach_io t) = last_ppc_state (mach_io s)"
  using assms by (auto simp: only_irq_def get_io_def)

lemma only_irq_update:
  assumes "only_irq s t"
  shows "only_irq s (starlet_update_int t)" "only_irq s (map_io (starlet_set_intr k) t)"
proof -
  obtain a p where t: "mach_io t = (mach_io s)\<lparr>io := (get_io s)\<lparr>irq_active := a, irq_active_ppc := p\<rparr>\<rparr>"
    using assms by (auto simp: only_irq_def)
  then show "only_irq s (starlet_update_int t)" unfolding only_irq_def by auto
  from t show "only_irq s (map_io (starlet_set_intr k) t)" unfolding only_irq_def
    by (intro exI [of _ "a OR 2 ^ k"] exI [of _ "p OR 2 ^ k"]) (simp add: get_io_def starlet_set_intr_def)
qed

lemma only_irq_refl [simp]: "only_irq s s"
  unfolding only_irq_def
  by (intro exI [of _ "irq_active (get_io s)"] exI [of _ "irq_active_ppc (get_io s)"]) (simp add: get_io_def)

lemma ipc_update_int_only: "only_irq s (ipc_update_int s)"
  unfolding ipc_update_int_def Let_def
  by (auto intro!: only_irq_update split: if_split)

lemma set_intr_bits:
  "bit (irq_active (starlet_set_intr n i)) k \<longleftrightarrow> bit (irq_active i) k \<or> k = n \<and> n < 32"
  "bit (irq_active_ppc (starlet_set_intr n i)) k \<longleftrightarrow> bit (irq_active_ppc i) k \<or> k = n \<and> n < 32"
  by (auto simp: starlet_set_intr_def bit_or_iff bit_exp32)

lemma ipc_update_int_bits:
  "bit (irq_active_ppc (get_io (ipc_update_int s))) 30 \<longleftrightarrow>
     bit (irq_active_ppc (get_io s)) 30 \<or> ipc_wants_int (ipc_ppcctrl (get_io s))"
  "bit (irq_active (get_io (ipc_update_int s))) 31 \<longleftrightarrow>
     bit (irq_active (get_io s)) 31 \<or> ipc_wants_int (ipc_armctrl (get_io s))"
  "bit (irq_active (get_io (ipc_update_int s))) 0 \<longleftrightarrow> bit (irq_active (get_io s)) 0"
  by (auto simp: ipc_update_int_def Let_def pending_bit set_intr_bits starlet_set_intr_def bit_or_iff bit_exp32 simp del: bit_0)

lemma timer_tick_only: "only_irq (map_io (\<lambda>i. i\<lparr>timer := timer i + 1\<rparr>) s) (timer_tick s)"
  by (simp add: timer_tick_def Let_def only_irq_update)

lemma timer_tick_bits:
  "bit (irq_active (get_io (timer_tick s))) 0 \<longleftrightarrow> bit (irq_active (get_io s)) 0 \<or> timer (get_io s) + 1 = alarm (get_io s)"
  "bit (irq_active_ppc (get_io (timer_tick s))) 30 = bit (irq_active_ppc (get_io s)) 30"
  by (simp_all add: timer_tick_def Let_def set_intr_bits del: bit_0)

lemmas timer_tick_same = only_irq_same [OF timer_tick_only, simplified]
lemmas ipc_update_int_same = only_irq_same [OF ipc_update_int_only]

lemma ipc_send_ok:
  assumes "sends h" "bsock_open (net (mach_io s))"
  shows "\<exists>c. ipc_send h msg arg [] 0 s = Inr (True, set_net ((net (mach_io s))\<lparr>net_calls := c,
    outq := outq (net (mach_io s)) @ ipc_frame msg arg 0 []\<rparr>) s)"
proof -
  obtain c where "sendipcmsg h msg arg [] 0 (net (mach_io s)) = Inr (True, (net (mach_io s))\<lparr>net_calls := c,
      outq := outq (net (mach_io s)) @ ipc_frame msg arg 0 []\<rparr>)"
    using sendipcmsg_ok [OF assms, of "[]" 0 msg arg] by auto
  then show ?thesis by (intro exI [of _ c]) (simp add: ipc_send_def)
qed

section \<open>Requests of the processor reach the peer\<close>

text \<open>
  A connection at rest: a peer is connected that says nothing and takes what is sent, it knows whether its processor
  runs, and the mailbox is in order.
\<close>

definition bridge :: "host_net \<Rightarrow> starlet \<Rightarrow> bool" where
  "bridge h s \<longleftrightarrow>
     ipcs (mach_io s) = IPC_IDLE \<and> bsock_open (net (mach_io s)) \<and> sends h \<and> (\<forall>k. sock_ready h k = Some False) \<and>
     ppc_running (get_io s) = last_ppc_state (mach_io s) \<and> mailbox_ok (ipc_ppcctrl (get_io s)) (ipc_armctrl (get_io s))"

fun cycles :: "host_net \<Rightarrow> starlet_t arm_env \<Rightarrow> nat \<Rightarrow> starlet \<Rightarrow> starlet sim" where
  "cycles h env 0 s = Inr s"
| "cycles h env (Suc n) s = bind_ok (starlet_io_do_cycle h env s) (cycles h env n)"

lemma bridge_irq: "only_irq s t \<Longrightarrow> bridge h t = bridge h s"
  by (simp add: bridge_def only_irq_same)

lemma bridge_tick: "bridge h (timer_tick s) = bridge h s"
  by (simp add: bridge_def timer_tick_same)

text \<open>Nothing is shown to the other processor, and no interrupt of it is pending.\<close>

definition calm :: "host_net \<Rightarrow> starlet \<Rightarrow> bool" where
  "calm h s \<longleftrightarrow>
     bridge h s \<and> \<not> bit (ipc_ppcctrl (get_io s)) 1 \<and> \<not> bit (ipc_ppcctrl (get_io s)) 2 \<and> \<not> bit (irq_active_ppc (get_io s)) 30"

lemma calm_update: "calm h s \<Longrightarrow> calm h (ipc_update_int s)"
  by (simp add: calm_def bridge_def ipc_update_int_same ipc_update_int_bits wants_int_bits)

lemma calm_tick: "calm h s \<Longrightarrow> calm h (timer_tick s)"
  by (simp add: calm_def bridge_tick timer_tick_same timer_tick_bits)

lemma calm_do_ipc:
  assumes "calm h s"
  shows "starlet_do_ipc h env s = Inr (set_net (sys_call (net (mach_io s))) s)"
  using assms
  by (simp add: calm_def bridge_def starlet_do_ipc_def ipc_idle_def ipc_forward_def pending_bit msgpending_def ipc_report_def)

lemma calm_cycle:
  assumes "calm h s"
  shows "\<exists>t. starlet_io_do_cycle h env s = Inr t \<and> calm h t \<and> outq (net (mach_io t)) = outq (net (mach_io s))"
proof -
  define u where "u = ipc_update_int (timer_tick s)"
  have "calm h u" using assms unfolding u_def by (intro calm_update calm_tick)
  then have "calm h (ipc_update_int (set_net (sys_call (net (mach_io u))) u))"
    by (intro calm_update) (simp add: calm_def bridge_def sys_call_def)
  moreover have "outq (net (mach_io u)) = outq (net (mach_io s))" by (simp add: u_def timer_tick_same ipc_update_int_same)
  ultimately show ?thesis
    using calm_do_ipc [OF \<open>calm h u\<close>, of env] by (simp add: starlet_io_do_cycle_def u_def [symmetric] sys_call_def ipc_update_int_same)
qed

lemma calm_cycles:
  assumes "calm h s"
  shows "\<exists>t. cycles h env n s = Inr t \<and> outq (net (mach_io t)) = outq (net (mach_io s))"
  using assms
proof (induction n arbitrary: s)
  case (Suc n)
  then show ?case using calm_cycle [OF Suc.prems, of env] by fastforce
qed simp

lemma mask_3C: "bit (0x3C :: ARMword) k \<longleftrightarrow> k \<in> {2, 3, 4, 5}"
proof -
  have "(0x3C :: ARMword) = 2 ^ 2 OR (2 ^ 3 OR (2 ^ 4 OR 2 ^ 5))" by simp
  then show ?thesis by (simp only: bit_or_iff bit_exp32) auto
qed

lemma mask_0C: "bit (0x0C :: ARMword) k \<longleftrightarrow> k \<in> {2, 3}"
proof -
  have "(0x0C :: ARMword) = 2 ^ 2 OR 2 ^ 3" by simp
  then show ?thesis by (simp only: bit_or_iff bit_exp32) auto
qed

text \<open>The control registers after \<^verbatim>\<open>ipc_set\<close>.\<close>

lemma ipc_set_bits:
  assumes "t = ipc_set b s" "p = ipc_ppcctrl (get_io s)" "a = ipc_armctrl (get_io s)"
  shows "bit (ipc_ppcctrl (get_io t)) k \<longleftrightarrow>
      (if k = 1 then bit p 1 \<and> \<not> bit b 1 else if k = 0 then bit b 0 else if k = 2 then False
       else k \<in> {3, 4, 5} \<and> (bit p k \<or> bit b k))"
    and "bit (ipc_armctrl (get_io t)) k \<longleftrightarrow>
      (if k = 2 then bit b 0 else if k = 1 then bit p 3 \<or> bit b 3 else if k = 3 then bit a 3 \<and> \<not> bit b 1
       else if k = 0 then bit a 0 \<and> \<not> bit p 2 \<and> \<not> bit b 2 else k \<in> {4, 5} \<and> bit a k)"
proof -
  let ?d = "(p AND 0x3C) OR b"
  obtain p' a' where w: "ipc_ctrl_write ?d (p, a) = (p', a')" by fastforce
  then have t: "ipc_ppcctrl (get_io t) = p'" "ipc_armctrl (get_io t) = a'"
    using assms by (simp_all add: ipc_set_def starlet_ipc_write_def)
  show "bit (ipc_ppcctrl (get_io t)) k \<longleftrightarrow>
      (if k = 1 then bit p 1 \<and> \<not> bit b 1 else if k = 0 then bit b 0 else if k = 2 then False
       else k \<in> {3, 4, 5} \<and> (bit p k \<or> bit b k))"
    unfolding t ipc_ctrl_write_bits [OF w] bit_or_iff bit_and_iff mask_3C by auto
  show "bit (ipc_armctrl (get_io t)) k \<longleftrightarrow>
      (if k = 2 then bit b 0 else if k = 1 then bit p 3 \<or> bit b 3 else if k = 3 then bit a 3 \<and> \<not> bit b 1
       else if k = 0 then bit a 0 \<and> \<not> bit p 2 \<and> \<not> bit b 2 else k \<in> {4, 5} \<and> bit a k)"
    unfolding t ipc_ctrl_write_bits [OF w] bit_or_iff bit_and_iff mask_3C by auto
qed

lemma ipc_set_mailbox:
  "mailbox_ok (ipc_ppcctrl (get_io s)) (ipc_armctrl (get_io s)) \<Longrightarrow>
     mailbox_ok (ipc_ppcctrl (get_io (ipc_set b s))) (ipc_armctrl (get_io (ipc_set b s)))"
  by (simp add: ipc_set_def mailbox_write)

lemma ipc_set_same:
  "ipc_armmsg (get_io (ipc_set b s)) = ipc_armmsg (get_io s)" "ppc_running (get_io (ipc_set b s)) = ppc_running (get_io s)"
  "net (mach_io (ipc_set b s)) = net (mach_io s)" "ipcs (mach_io (ipc_set b s)) = ipcs (mach_io s)"
  "last_ppc_state (mach_io (ipc_set b s)) = last_ppc_state (mach_io s)"
  by (simp_all add: ipc_set_def starlet_ipc_write_def split: prod.split)

lemma bridge_ipc_set: "bridge h s \<Longrightarrow> bridge h (ipc_set b s)"
  by (simp add: bridge_def ipc_set_same ipc_set_mailbox)

lemma ack_intr_same [simp]:
  "get_io (ack_intr_ppc s) = (get_io s)\<lparr>irq_active_ppc := irq_active_ppc (get_io s) AND NOT (2 ^ 30)\<rparr>"
  "net (mach_io (ack_intr_ppc s)) = net (mach_io s)" "ipcs (mach_io (ack_intr_ppc s)) = ipcs (mach_io s)"
  "last_ppc_state (mach_io (ack_intr_ppc s)) = last_ppc_state (mach_io s)"
  by (simp_all add: ack_intr_ppc_def)

text \<open>What is sent for the requests that are shown, and the state that it leaves.\<close>

definition request_frame :: "starlet \<Rightarrow> octet list" where
  "request_frame s =
     (if bit (ipc_ppcctrl (get_io s)) 1 then ipc_frame MSG_ACK 0 0 []
      else ipc_frame MSG_MESSAGE (ipc_armmsg (get_io s)) 0 [])"

lemma forward_request:
  assumes "bridge h s" "ipc_wants_int (ipc_ppcctrl (get_io s))" "bit (irq_active_ppc (get_io s)) 30"
  shows "\<exists>t. ipc_forward h s = Inr (True, t) \<and> calm h t \<and> outq (net (mach_io t)) = outq (net (mach_io s)) @ request_frame s \<and>
    (bit (ipc_armctrl (get_io t)) 1 \<longleftrightarrow> \<not> bit (ipc_ppcctrl (get_io s)) 1 \<or> bit (ipc_ppcctrl (get_io s)) 3) \<and>
    (\<forall>k\<in>{4, 5}. bit (ipc_armctrl (get_io t)) k = bit (ipc_armctrl (get_io s)) k)"
proof (cases "bit (ipc_ppcctrl (get_io s)) 1")
  case True
  define u where "u = ipc_set 0x02 s"
  have u: "bridge h u" "net (mach_io u) = net (mach_io s)"
    using assms(1) by (simp_all add: u_def bridge_ipc_set ipc_set_same)
  then obtain c where c: "ipc_send h MSG_ACK 0 [] 0 u = Inr (True, set_net ((net (mach_io s))\<lparr>net_calls := c,
      outq := outq (net (mach_io s)) @ ipc_frame MSG_ACK 0 0 []\<rparr>) u)" (is "_ = Inr (True, ?v)")
    using ipc_send_ok [of h u MSG_ACK 0] by (auto simp: bridge_def)
  have "ipc_ppcctrl (get_io u) AND 0x04 = 0" by (simp add: low_bit_test ipc_set_bits [OF u_def refl refl])
  then have "ipc_forward h s = Inr (True, ack_intr_ppc ?v)"
    using True assms(3) c by (simp add: ipc_forward_def pending_bit low_bit_test u_def [symmetric])
  moreover have "calm h (ack_intr_ppc ?v)"
    using u(1) by (simp add: calm_def bridge_def ipc_set_bits [OF u_def refl refl] mask_bits bit_and_iff bit_not_iff bit_exp32 u(2))
  ultimately show ?thesis
    using True by (auto simp: request_frame_def ipc_set_bits [OF u_def refl refl] mask_bits)
next
  case False
  then have m: "bit (ipc_ppcctrl (get_io s)) 2" using assms(2) by (auto simp: wants_int_bits)
  define u where "u = ipc_set 0x0c s"
  have u: "bridge h u" "net (mach_io u) = net (mach_io s)" "ipc_armmsg (get_io u) = ipc_armmsg (get_io s)"
    using assms(1) by (simp_all add: u_def bridge_ipc_set ipc_set_same)
  then obtain c where c: "ipc_send h MSG_MESSAGE (ipc_armmsg (get_io s)) [] 0 u = Inr (True, set_net ((net (mach_io s))\<lparr>net_calls := c,
      outq := outq (net (mach_io s)) @ ipc_frame MSG_MESSAGE (ipc_armmsg (get_io s)) 0 []\<rparr>) u)" (is "_ = Inr (True, ?v)")
    using ipc_send_ok [of h u MSG_MESSAGE] by (auto simp: bridge_def)
  then have "ipc_forward h s = Inr (True, ack_intr_ppc ?v)"
    using False m assms(3) u(3) by (simp add: ipc_forward_def pending_bit low_bit_test u_def [symmetric])
  moreover have "calm h (ack_intr_ppc ?v)"
    using u(1) False by (simp add: calm_def bridge_def ipc_set_bits [OF u_def refl refl] mask_0C bit_and_iff bit_not_iff bit_exp32 u(2))
  ultimately show ?thesis
    using False by (auto simp: request_frame_def ipc_set_bits [OF u_def refl refl] mask_0C)
qed

text \<open>
  C15. What the processor asks for through its mailbox reaches the peer once. In a cycle in which the mailbox shows an
  enabled request to the other processor, with a connected peer, the simulator sends exactly one message on: an
  acknowledgement when one is shown, and else the contents of the message register, which is then acknowledged to
  the processor. Nothing is shown to the other processor any more, and no later cycle sends anything until the
  processor acts. So a message that is shown together with an acknowledgement is cleared and never sent.
\<close>

theorem mailbox_forwarded:
  assumes "bridge h s" "ipc_wants_int (ipc_ppcctrl (get_io s))"
  shows "\<exists>t. starlet_io_do_cycle h env s = Inr t \<and> bridge h t \<and>
    outq (net (mach_io t)) = outq (net (mach_io s)) @
      (if bit (ipc_ppcctrl (get_io s)) 1 then ipc_frame MSG_ACK 0 0 []
       else ipc_frame MSG_MESSAGE (ipc_armmsg (get_io s)) 0 []) \<and>
    \<not> bit (ipc_ppcctrl (get_io t)) 1 \<and> \<not> bit (ipc_ppcctrl (get_io t)) 2 \<and>
    (bit (ipc_armctrl (get_io t)) 1 \<longleftrightarrow> \<not> bit (ipc_ppcctrl (get_io s)) 1 \<or> bit (ipc_ppcctrl (get_io s)) 3) \<and>
    (bit (ipc_armctrl (get_io t)) 1 \<and> bit (ipc_armctrl (get_io s)) 5 \<longrightarrow> bit (irq_active (get_io t)) 31) \<and>
    (\<forall>n. \<exists>u. cycles h env n t = Inr u \<and> outq (net (mach_io u)) = outq (net (mach_io t)))"
proof -
  define u where "u = ipc_update_int (timer_tick s)"
  note same = u_def ipc_update_int_same timer_tick_same
  have u: "bridge h u" "ipc_wants_int (ipc_ppcctrl (get_io u))" "bit (irq_active_ppc (get_io u)) 30"
    using assms by (simp_all add: u_def bridge_irq [OF ipc_update_int_only] bridge_tick ipc_update_int_same timer_tick_same
        ipc_update_int_bits)
  obtain v where v: "ipc_forward h u = Inr (True, v)" "calm h v" "outq (net (mach_io v)) = outq (net (mach_io u)) @ request_frame u"
      "bit (ipc_armctrl (get_io v)) 1 \<longleftrightarrow> \<not> bit (ipc_ppcctrl (get_io u)) 1 \<or> bit (ipc_ppcctrl (get_io u)) 3"
      "\<forall>k\<in>{4, 5}. bit (ipc_armctrl (get_io v)) k = bit (ipc_armctrl (get_io u)) k"
    using forward_request [OF u] by blast
  let ?w = "set_net (sys_call (net (mach_io v))) v" and ?t = "ipc_update_int (set_net (sys_call (net (mach_io v))) v)"
  have "starlet_do_ipc h env u = Inr ?w"
    using u(1) v(1,2) by (simp add: starlet_do_ipc_def ipc_idle_def bridge_def calm_def msgpending_def ipc_report_def)
  then have t: "starlet_io_do_cycle h env s = Inr ?t" by (simp add: starlet_io_do_cycle_def u_def [symmetric])
  have calm: "calm h ?t" using v(2) by (intro calm_update) (simp add: calm_def bridge_def sys_call_def)
  have "bit (irq_active (get_io ?t)) 31" if "bit (ipc_armctrl (get_io v)) 1" "bit (ipc_armctrl (get_io v)) 5"
    using that by (simp add: ipc_update_int_bits wants_int_bits)
  then show ?thesis
    using t calm v(3,4,5) calm_cycles [OF calm, of env]
    by (intro exI [of _ ?t]) (simp add: calm_def request_frame_def ipc_update_int_same sys_call_def u_def timer_tick_same)
qed

definition bridge_state :: starlet where
  "bridge_state = abc_state\<lparr>mach_io := starlet_zero\<lparr>io := starlet_ipc_write 12 0x31 (starlet_ipc_write 8 0xCAFE
     (starlet_ipc_write 4 0x36 io_zero)), ipcs := IPC_IDLE, net := net_zero\<lparr>bsock_open := True\<rparr>\<rparr>\<rparr>"

theorem mailbox_forwarded_witness:
  "\<exists>t. starlet_io_do_cycle demo_net bare_env bridge_state = Inr t \<and>
     outq (net (mach_io t)) = ipc_frame MSG_MESSAGE 0xCAFE 0 [] \<and> bit (ipc_armctrl (get_io t)) 1"
proof -
  have c: "ipc_ppcctrl (get_io bridge_state) = 0x34" "ipc_armmsg (get_io bridge_state) = 0xCAFE"
    "outq (net (mach_io bridge_state)) = []"
    by (simp_all add: bridge_state_def get_io_def starlet_ipc_write_def ipc_ctrl_write_def io_zero_def starlet_zero_def net_zero_def)
  have "mailbox_ok (ipc_ppcctrl io_zero) (ipc_armctrl io_zero)" by (simp add: mailbox_ok_def io_zero_def)
  then have "mailbox_ok (ipc_ppcctrl (get_io bridge_state)) (ipc_armctrl (get_io bridge_state))"
    by (simp add: bridge_state_def get_io_def mailbox_write)
  moreover have "ppc_running (get_io bridge_state) = last_ppc_state (mach_io bridge_state)"
    by (simp add: bridge_state_def get_io_def starlet_ipc_write_def ipc_ctrl_write_def io_zero_def starlet_zero_def)
  ultimately have "bridge demo_net bridge_state"
    by (simp add: bridge_def sends_def demo_net_def bridge_state_def)
  moreover have "ipc_wants_int (ipc_ppcctrl (get_io bridge_state))" by (simp add: c ipc_wants_int_def)
  ultimately show ?thesis using mailbox_forwarded [of demo_net bridge_state bare_env] by (auto simp: c)
qed

section \<open>The timer\<close>

lemma and_bit0: "bit a 0 \<Longrightarrow> bit b 0 \<Longrightarrow> a AND b \<noteq> (0 :: ARMword)"
  by (metis bit_0_eq bit_and_iff bot_apply bot_bool_def)

text \<open>The interrupt line stays low as long as a request for it is there.\<close>

lemma ipc_update_int_line:
  assumes "NirqSig s = LOW" "bit (irq_active (get_io s)) 0" "bit (irq_enabled (get_io s)) 0"
  shows "NirqSig (ipc_update_int s) = LOW"
proof -
  have *: "NirqSig (starlet_update_int t) = LOW" if "bit (irq_active (get_io t)) 0" "irq_enabled (get_io t) = irq_enabled (get_io s)" for t
    using and_bit0 [OF that(1), of "irq_enabled (get_io s)"] that assms(3) by (simp add: starlet_update_int_def)
  show ?thesis
    using assms by (auto simp: ipc_update_int_def Let_def set_intr_bits starlet_set_intr_def bit_or_iff intro!: * simp del: bit_0)
qed

lemma timer_tick_line:
  assumes "timer (get_io s) + 1 = alarm (get_io s)" "bit (irq_enabled (get_io s)) 0"
  shows "NirqSig (timer_tick s) = LOW"
proof -
  have "irq_active (starlet_set_intr 0 (get_io s)) AND irq_enabled (get_io s) \<noteq> 0"
    using assms(2) by (intro and_bit0) (simp_all add: set_intr_bits del: bit_0)
  then show ?thesis using assms(1) by (simp add: timer_tick_def starlet_update_int_def starlet_set_intr_def)
qed

definition no_peer :: "host_net \<Rightarrow> starlet \<Rightarrow> bool" where
  "no_peer h s \<longleftrightarrow> ipcs (mach_io s) = IPC_ACCEPT \<and> (\<forall>k. sock_accept h k = NoPeer)"

lemma no_peer_cycle:
  assumes "no_peer h s"
  shows "\<exists>t. starlet_io_do_cycle h env s = Inr t \<and> no_peer h t \<and> timer (get_io t) = timer (get_io s) + 1 \<and>
    alarm (get_io t) = alarm (get_io s) \<and> irq_enabled (get_io t) = irq_enabled (get_io s) \<and>
    (bit (irq_active (get_io t)) 0 \<longleftrightarrow> bit (irq_active (get_io s)) 0 \<or> timer (get_io s) + 1 = alarm (get_io s)) \<and>
    (timer (get_io s) + 1 = alarm (get_io s) \<and> bit (irq_enabled (get_io s)) 0 \<longrightarrow> NirqSig t = LOW)"
proof -
  define u where "u = ipc_update_int (timer_tick s)"
  define v where "v = set_net (sys_call (net (mach_io u))) u"
  have "starlet_do_ipc h env u = Inr v"
    using assms by (simp add: starlet_do_ipc_def ipc_accept_def no_peer_def u_def v_def ipc_update_int_same timer_tick_same)
  then have "starlet_io_do_cycle h env s = Inr (ipc_update_int v)" by (simp add: starlet_io_do_cycle_def u_def [symmetric])
  moreover have "NirqSig (ipc_update_int v) = LOW"
    if "timer (get_io s) + 1 = alarm (get_io s)" "bit (irq_enabled (get_io s)) 0"
  proof -
    have "NirqSig u = LOW"
      unfolding u_def using timer_tick_line [OF that] that
      by (intro ipc_update_int_line) (simp_all add: timer_tick_bits timer_tick_same del: bit_0)
    moreover have "NirqSig v = NirqSig u" by (simp add: v_def set_net_def map_mach_def)
    ultimately show ?thesis using that
      by (intro ipc_update_int_line)
        (simp_all add: v_def u_def ipc_update_int_bits timer_tick_bits ipc_update_int_same timer_tick_same del: bit_0)
  qed
  ultimately show ?thesis
    using assms by (intro exI [of _ "ipc_update_int v"])
      (simp add: no_peer_def v_def u_def ipc_update_int_same timer_tick_same ipc_update_int_bits timer_tick_bits del: bit_0)
qed

text \<open>
  The alarm: while no peer is connected, the machine counts its timer up by one in every cycle, and requests the
  timer interrupt in exactly the cycle in which the timer reaches the alarm register, over the wrap of the timer if
  need be, and not before; an enabled interrupt pulls the processor's interrupt line low in that cycle.
\<close>

lemma alarm_on_time:
  assumes "no_peer h s" "\<not> bit (irq_active (get_io s)) 0" "n \<le> unat (alarm (get_io s) - timer (get_io s))"
    "timer (get_io s) \<noteq> alarm (get_io s)"
  shows "\<exists>t. cycles h env n s = Inr t \<and> timer (get_io t) = timer (get_io s) + of_nat n \<and>
    (bit (irq_active (get_io t)) 0 \<longleftrightarrow> n = unat (alarm (get_io s) - timer (get_io s))) \<and>
    (n = unat (alarm (get_io s) - timer (get_io s)) \<and> bit (irq_enabled (get_io s)) 0 \<longrightarrow> NirqSig t = LOW)"
  using assms
proof (induction n arbitrary: s)
  case (Suc n)
  let ?d = "alarm (get_io s) - timer (get_io s)"
  obtain t where t: "starlet_io_do_cycle h env s = Inr t" "no_peer h t" "timer (get_io t) = timer (get_io s) + 1"
    "alarm (get_io t) = alarm (get_io s)" "irq_enabled (get_io t) = irq_enabled (get_io s)"
    "bit (irq_active (get_io t)) 0 \<longleftrightarrow> bit (irq_active (get_io s)) 0 \<or> timer (get_io s) + 1 = alarm (get_io s)"
    "timer (get_io s) + 1 = alarm (get_io s) \<and> bit (irq_enabled (get_io s)) 0 \<longrightarrow> NirqSig t = LOW"
    using no_peer_cycle [OF Suc.prems(1), of env] by blast
  have "?d \<noteq> 0" using Suc.prems(4) by simp
  then have d: "unat (?d - 1) = unat ?d - 1" by (rule unat_minus_one)
  have e: "alarm (get_io t) - timer (get_io t) = ?d - 1" using t(3,4) by (simp add: algebra_simps)
  show ?case
  proof (cases "timer (get_io s) + 1 = alarm (get_io s)")
    case True
    then have "?d = 1" by (simp add: algebra_simps)
    then have "n = 0" "unat ?d = 1" using Suc.prems(3) by simp_all
    then show ?thesis using t True by (auto simp del: bit_0)
  next
    case False
    have "\<not> bit (irq_active (get_io t)) 0" "timer (get_io t) \<noteq> alarm (get_io t)" using False t Suc.prems(2) by auto
    moreover have "n \<le> unat (alarm (get_io t) - timer (get_io t))" using Suc.prems(3) d e by simp
    ultimately obtain u where "cycles h env n t = Inr u" "timer (get_io u) = timer (get_io t) + of_nat n"
      "bit (irq_active (get_io u)) 0 \<longleftrightarrow> n = unat (alarm (get_io t) - timer (get_io t))"
      "n = unat (alarm (get_io t) - timer (get_io t)) \<and> bit (irq_enabled (get_io t)) 0 \<longrightarrow> NirqSig u = LOW"
      using Suc.IH [OF t(2)] by blast
    moreover have "n = unat (alarm (get_io t) - timer (get_io t)) \<longleftrightarrow> Suc n = unat ?d"
      using d e Suc.prems(3) by auto
    ultimately show ?thesis using t(1,3,5) by (simp add: algebra_simps)
  qed
qed (auto simp: unat_gt_0 unat_eq_zero simp del: bit_0)

definition alarm_state :: starlet where
  "alarm_state = abc_state\<lparr>mach_io := starlet_zero\<lparr>io := io_zero\<lparr>timer := 0xfffffffe, alarm := 1, irq_enabled := 1\<rparr>,
     ipcs := IPC_ACCEPT\<rparr>\<rparr>"

lemma alarm_on_time_witness:
  "\<exists>t. cycles demo_net bare_env 3 alarm_state = Inr t \<and> timer (get_io t) = 1 \<and> bit (irq_active (get_io t)) 0 \<and> NirqSig t = LOW"
proof -
  have f: "timer (get_io alarm_state) = 0xfffffffe" "alarm (get_io alarm_state) = 1" "irq_enabled (get_io alarm_state) = 1"
    "irq_active (get_io alarm_state) = 0"
    by (simp_all add: alarm_state_def get_io_def io_zero_def)
  have "no_peer demo_net alarm_state" by (simp add: no_peer_def demo_net_def alarm_state_def)
  then have "\<exists>t. cycles demo_net bare_env 3 alarm_state = Inr t \<and> timer (get_io t) = 0xfffffffe + of_nat 3 \<and>
      bit (irq_active (get_io t)) 0 \<and> NirqSig t = LOW"
    using alarm_on_time [of demo_net alarm_state 3 bare_env] by (simp add: f)
  moreover have "0xfffffffe + of_nat 3 = (1 :: ARMword)" by simp
  ultimately show ?thesis by (simp only:)
qed

end
