(* ===== verification/Starlet_Seeprom.thy ===== *)
theory Starlet_Seeprom
  imports Starlet_Gpio
begin

text \<open>
  The serial EEPROM as a device: its commands on an array of words, a driver that clocks the bits of a command into the
  port, and the proof that the state machine of \<open>Starlet_Gpio\<close> performs every sequence of commands.
\<close>

section \<open>The commands of the EEPROM\<close>

text \<open>
  The contract of the data sheet: 128 words of 16 bits behind a write-enable flag. \<^verbatim>\<open>Erase\<close> and \<^verbatim>\<open>Erase All\<close> set every bit
  of their words, \<^verbatim>\<open>Write All\<close> stores its word everywhere.
\<close>

datatype ee_cmd =
  EeRead "8 word" | EeWrite "8 word" "16 word" | EeErase "8 word"
  | EeWriteAll "16 word" | EeEraseAll | EeWriteEnable | EeWriteDisable

record ee_state =
  ee_mem :: "7 word \<Rightarrow> 16 word"
  ee_enabled :: bool

fun ee_step :: "ee_cmd \<Rightarrow> ee_state \<Rightarrow> ee_state" where
  "ee_step (EeRead a) m = m"
| "ee_step (EeWrite a v) m = (if ee_enabled m then m\<lparr>ee_mem := (ee_mem m)(ucast a := v)\<rparr> else m)"
| "ee_step (EeErase a) m = (if ee_enabled m then m\<lparr>ee_mem := (ee_mem m)(ucast a := 0xFFFF)\<rparr> else m)"
| "ee_step (EeWriteAll v) m = (if ee_enabled m then m\<lparr>ee_mem := \<lambda>_. v\<rparr> else m)"
| "ee_step EeEraseAll m = (if ee_enabled m then m\<lparr>ee_mem := \<lambda>_. 0xFFFF\<rparr> else m)"
| "ee_step EeWriteEnable m = m\<lparr>ee_enabled := True\<rparr>"
| "ee_step EeWriteDisable m = m\<lparr>ee_enabled := False\<rparr>"

fun ee_answer :: "ee_cmd \<Rightarrow> ee_state \<Rightarrow> 16 word option" where
  "ee_answer (EeRead a) m = Some (ee_mem m (ucast a))"
| "ee_answer _ m = None"

text \<open>
  Where the code departs from the data sheet: it carries out another command than the one it is given. An erase writes
  zeros, and \<^verbatim>\<open>Write All\<close> exchanges the bytes of its word, which it stores in the order of a little-endian host.
\<close>

fun ee_performed :: "ee_cmd \<Rightarrow> ee_cmd" where
  "ee_performed (EeErase a) = EeWrite a 0"
| "ee_performed EeEraseAll = EeWriteAll 0"
| "ee_performed (EeWriteAll v) = EeWriteAll (word_rotl 8 v)"
| "ee_performed c = c"

text \<open>A command on the wire: start bit, opcode, address and, where the command has it, data, each field high bit first.\<close>

definition field :: "nat \<Rightarrow> ARMword \<Rightarrow> bool list" where
  "field n w = map (bit w) (rev [0..<n])"

fun ee_bits :: "ee_cmd \<Rightarrow> bool list" where
  "ee_bits (EeRead a) = [True] @ field 2 2 @ field 8 (ucast a) @ field 16 0"
| "ee_bits (EeWrite a v) = [True] @ field 2 1 @ field 8 (ucast a) @ field 16 (ucast v)"
| "ee_bits (EeErase a) = [True] @ field 2 3 @ field 8 (ucast a)"
| "ee_bits (EeWriteAll v) = [True] @ field 2 0 @ field 8 0x40 @ field 16 (ucast v)"
| "ee_bits EeEraseAll = [True] @ field 2 0 @ field 8 0x80"
| "ee_bits EeWriteEnable = [True] @ field 2 0 @ field 8 0xC0"
| "ee_bits EeWriteDisable = [True] @ field 2 0 @ field 8 0"

text \<open>
  A driver: it lowers chip select, and for every bit sets the data pin, raises the clock and samples the data
  line. The other pins of the port keep the level \<open>base\<close>.
\<close>

definition send_bit :: "host_files \<Rightarrow> ARMword \<Rightarrow> bool \<Rightarrow> starlet_io_t \<Rightarrow> (bool \<times> starlet_io_t) sim" where
  "send_bit files base b i =
     (let pins = base OR 0x400 OR (if b then 0x1000 else 0)
      in bind_ok (starlet_gpio1_latch_write files i pins) (\<lambda>i.
         bind_ok (starlet_gpio1_latch_write files i (pins OR 0x800)) (\<lambda>i.
           Inr (bit (gpio1_port i) 13, i))))"

fun send_bits :: "host_files \<Rightarrow> ARMword \<Rightarrow> bool list \<Rightarrow> starlet_io_t \<Rightarrow> (bool list \<times> starlet_io_t) sim" where
  "send_bits files base [] i = Inr ([], i)"
| "send_bits files base (b # bs) i =
     bind_ok (send_bit files base b i) (\<lambda>(x, i). bind_ok (send_bits files base bs i) (\<lambda>(xs, i). Inr (x # xs, i)))"

definition bits_value :: "bool list \<Rightarrow> ARMword" where
  "bits_value bs = foldl (\<lambda>w b. push_bit 1 w OR of_bool b) 0 bs"

definition ee_transact ::
  "host_files \<Rightarrow> ARMword \<Rightarrow> ee_cmd \<Rightarrow> starlet_io_t \<Rightarrow> (16 word option \<times> starlet_io_t) sim" where
  "ee_transact files base c i =
     bind_ok (starlet_gpio1_latch_write files i base) (\<lambda>i.
     bind_ok (send_bits files base (ee_bits c) i) (\<lambda>(xs, i).
       Inr (case c of EeRead a \<Rightarrow> Some (ucast (bits_value (drop 11 xs))) | _ \<Rightarrow> None, i)))"

fun ee_run ::
  "host_files \<Rightarrow> ARMword \<Rightarrow> ee_cmd list \<Rightarrow> starlet_io_t \<Rightarrow> (16 word option list \<times> starlet_io_t) sim" where
  "ee_run files base [] i = Inr ([], i)"
| "ee_run files base (c # cs) i =
     bind_ok (ee_transact files base c i) (\<lambda>(x, i). bind_ok (ee_run files base cs i) (\<lambda>(xs, i). Inr (x # xs, i)))"

fun ee_answers :: "ee_cmd list \<Rightarrow> ee_state \<Rightarrow> 16 word option list" where
  "ee_answers [] m = []"
| "ee_answers (c # cs) m = ee_answer c m # ee_answers cs (ee_step c m)"

text \<open>The contents of the array, or of the file before the array is there.\<close>

definition ee_data :: "host_files \<Rightarrow> seeprom_t \<Rightarrow> (nat \<Rightarrow> octet)" where
  "ee_data files e = (case seeprom_init files e of Inl _ \<Rightarrow> (\<lambda>_. 0) | Inr e \<Rightarrow> the (seeprom_data e))"

definition ee_abs :: "host_files \<Rightarrow> starlet_io_t \<Rightarrow> ee_state" where
  "ee_abs files i =
     \<lparr>ee_mem = (\<lambda>n. ucast (be16 (ee_data files (seeprom i) (2 * unat n)) (ee_data files (seeprom i) (2 * unat n + 1)))),
      ee_enabled = (wren (seeprom i) \<noteq> 0)\<rparr>"

text \<open>
  The machine and the pins agree: the EEPROM can be read from its file, its data pin is an input, a low chip select
  means that the machine is idle, and otherwise the machine knows the level of the clock.
\<close>

definition ee_ready :: "host_files \<Rightarrow> starlet_io_t \<Rightarrow> bool" where
  "ee_ready files i \<longleftrightarrow>
     gpio1_dir i AND 0x2000 = 0 \<and>
     (seeprom_data (seeprom i) \<noteq> None \<and>
        (gpio1_latch i AND 0x400 = 0 \<longrightarrow> seeprom_idle (seeprom i) = seeprom i) \<and>
        (gpio1_latch i AND 0x400 \<noteq> 0 \<longrightarrow> seeprom_clock (seeprom i) = gpio1_latch i AND 0x800)
      \<or> seeprom_data (seeprom i) = None \<and> seeprom_bin files \<noteq> None)"

section \<open>Clocking bits\<close>

lemma shift_field:
  "foldl (\<lambda>w b. push_bit 1 w OR of_bool b) a (field n w) = push_bit n a OR take_bit n (w :: ARMword)"
proof (induction n arbitrary: a)
  case 0
  show ?case by (simp add: field_def)
next
  case (Suc n)
  have "foldl (\<lambda>w b. push_bit 1 w OR of_bool b) a (field (Suc n) w)
      = foldl (\<lambda>w b. push_bit 1 w OR of_bool b) (push_bit 1 a OR of_bool (bit w n)) (field n w)"
    by (simp add: field_def)
  also have "\<dots> = push_bit (Suc n) a OR take_bit (Suc n) w"
    unfolding Suc.IH by (rule bit_word_eqI) (auto simp: bit_simps not_le less_Suc_eq)
  finally show ?case .
qed

lemma bits_value_field: "bits_value (field n w) = take_bit n w"
  unfolding bits_value_def shift_field by simp

lemma length_field [simp]: "length (field n w) = n"
  by (simp add: field_def)

text \<open>What one clock does to the machine, the pins apart.\<close>

definition tick :: "bool \<Rightarrow> seeprom_t \<Rightarrow> seeprom_t" where
  "tick b e =
     (let e = e\<lparr>seeprom_clock := 0, seeprom_count := seeprom_count e - 1, bits_in := push_bit 1 (bits_in e) OR of_bool b\<rparr>;
          e = (if seeprom_count e = 0 then (seeprom_switch e)\<lparr>bits_in := 0\<rparr> else e)
      in e\<lparr>seeprom_clock := 0x800\<rparr>)"

lemma tick_early:
  assumes "seeprom_count e \<noteq> 1"
  shows "tick b e = e\<lparr>seeprom_clock := 0x800, seeprom_count := seeprom_count e - 1, bits_in := push_bit 1 (bits_in e) OR of_bool b\<rparr>"
  using assms by (simp add: tick_def Let_def)

lemma ticks_early:
  assumes "seeprom_count e = of_nat n" "length bs < n" "n \<le> 16"
  shows "fold tick bs (e\<lparr>seeprom_clock := 0x800\<rparr>) =
    e\<lparr>seeprom_clock := 0x800, seeprom_count := of_nat (n - length bs),
      bits_in := foldl (\<lambda>w b. push_bit 1 w OR of_bool b) (bits_in e) bs\<rparr>"
  using assms
proof (induction bs arbitrary: e n)
  case (Cons b bs)
  obtain m where m: "n = Suc m" "m \<noteq> 0" using Cons.prems(2) by (cases n) auto
  have "(of_nat m :: ARMword) \<noteq> 0" using m Cons.prems(3) by (simp add: unat_eq_0 [symmetric] unat_of_nat del: unat_eq_0)
  then have "tick b (e\<lparr>seeprom_clock := 0x800\<rparr>)
      = (e\<lparr>seeprom_count := of_nat m, bits_in := push_bit 1 (bits_in e) OR of_bool b\<rparr>)\<lparr>seeprom_clock := 0x800\<rparr>"
    using Cons.prems(1) m by (simp add: tick_def Let_def)
  then show ?case using Cons.IH [of "e\<lparr>seeprom_count := of_nat m, bits_in := push_bit 1 (bits_in e) OR of_bool b\<rparr>" m] Cons.prems m
    by simp
qed simp


lemma tick_clock: "tick b (e\<lparr>seeprom_clock := x\<rparr>) = tick b e"
  by (simp add: tick_def)

lemma ticks_clock: "bs \<noteq> [] \<Longrightarrow> fold tick bs (e\<lparr>seeprom_clock := x\<rparr>) = fold tick bs e"
  by (cases bs) (simp_all add: tick_clock)

text \<open>A whole field: the machine acts once, on the value of the field.\<close>

lemma ticks_field:
  assumes "seeprom_count e = of_nat n" "0 < n" "n \<le> 16" "bits_in e = 0"
  shows "fold tick (field n w) e =
    (seeprom_switch (e\<lparr>seeprom_clock := 0, seeprom_count := 0, bits_in := take_bit n w\<rparr>))\<lparr>bits_in := 0, seeprom_clock := 0x800\<rparr>"
proof -
  obtain m where m: "n = Suc m" using assms(2) by (cases n) auto
  define bs where "bs = map (bit w) (rev [1..<Suc m])"
  have len: "length bs = m" by (simp add: bs_def del: upt_Suc)
  have f: "field n w = bs @ [bit w 0]"
    unfolding field_def bs_def m by (simp add: upt_rec [of 0] del: upt_Suc)
  have "fold tick bs (e\<lparr>seeprom_clock := 0x800\<rparr>) = e\<lparr>seeprom_clock := 0x800, seeprom_count := 1,
      bits_in := foldl (\<lambda>w b. push_bit 1 w OR of_bool b) 0 bs\<rparr>"
    using ticks_early [of e n bs] assms m len by simp
  then have "fold tick (field n w) (e\<lparr>seeprom_clock := 0x800\<rparr>) = tick (bit w 0) (e\<lparr>seeprom_clock := 0x800, seeprom_count := 1,
      bits_in := foldl (\<lambda>w b. push_bit 1 w OR of_bool b) 0 bs\<rparr>)"
    by (simp add: f)
  also have "\<dots> = (seeprom_switch (e\<lparr>seeprom_clock := 0, seeprom_count := 0,
      bits_in := foldl (\<lambda>w b. push_bit 1 w OR of_bool b) 0 (field n w)\<rparr>))\<lparr>bits_in := 0, seeprom_clock := 0x800\<rparr>"
    unfolding f tick_def Let_def by simp
  finally have "fold tick (field n w) (e\<lparr>seeprom_clock := 0x800\<rparr>) =
    (seeprom_switch (e\<lparr>seeprom_clock := 0, seeprom_count := 0, bits_in := take_bit n w\<rparr>))\<lparr>bits_in := 0, seeprom_clock := 0x800\<rparr>"
    unfolding shift_field by simp
  moreover have "field n w \<noteq> []" unfolding f by simp
  ultimately show ?thesis using ticks_clock by simp
qed

text \<open>The bits that appear on the data line.\<close>

fun outs :: "bool list \<Rightarrow> seeprom_t \<Rightarrow> bool list" where
  "outs [] e = []"
| "outs (b # bs) e = bit (bits_out e) (unat (seeprom_count e - 1)) # outs bs (tick b e)"

lemma length_outs [simp]: "length (outs bs e) = length bs"
  by (induction bs arbitrary: e) simp_all

lemma outs_append: "outs (as @ bs) e = outs as e @ outs bs (fold tick as e)"
  by (induction "as" arbitrary: e) simp_all

lemma outs_field:
  assumes "seeprom_count e = of_nat (length bs)" "length bs \<le> 16"
  shows "outs bs e = field (length bs) (bits_out e)"
  using assms
proof (induction bs arbitrary: e)
  case (Cons b bs)
  have u: "unat (seeprom_count e - 1) = length bs" using Cons.prems by (simp add: unat_of_nat)
  show ?case
  proof (cases bs)
    case Nil
    then show ?thesis using u by (simp add: field_def)
  next
    case (Cons b' bs')
    have "tick b e = e\<lparr>seeprom_clock := 0x800, seeprom_count := of_nat (length bs), bits_in := push_bit 1 (bits_in e) OR of_bool b\<rparr>"
      using Cons u Cons.prems by (subst tick_early) (auto simp: Cons.prems)
    then show ?thesis using u Cons.IH [of "tick b e"] Cons.prems by (simp add: field_def)
  qed
qed (simp add: field_def)


section \<open>Driving the pins\<close>

lemma pin_bits:
  "(w :: ARMword) AND 0x400 = 0 \<longleftrightarrow> \<not> bit w 10"
  "w AND 0x800 = 0 \<longleftrightarrow> \<not> bit w 11"
  "w AND 0x1000 = 0 \<longleftrightarrow> \<not> bit w 12"
  "w AND 0x2000 = 0 \<longleftrightarrow> \<not> bit w 13"
  using and_exp_eq_0_iff_not_bit [of w 10] and_exp_eq_0_iff_not_bit [of w 11]
    and_exp_eq_0_iff_not_bit [of w 12] and_exp_eq_0_iff_not_bit [of w 13] by simp_all

lemma pins_bits: "(w :: ARMword) AND 0x1c00 = 0 \<longleftrightarrow> \<not> bit w 10 \<and> \<not> bit w 11 \<and> \<not> bit w 12"
proof -
  have "(0x1c00 :: ARMword) = 0x400 OR (0x800 OR 0x1000)" by simp
  then have "w AND 0x1c00 = (w AND 0x400) OR ((w AND 0x800) OR (w AND 0x1000))"
    by (simp only: bit.conj_disj_distrib)
  then show ?thesis by (simp only: or_eq_0_iff pin_bits)
qed

lemma ticks_clock_high: "bs \<noteq> [] \<Longrightarrow> seeprom_clock (fold tick bs e) = 0x800"
  by (cases bs rule: rev_cases) (simp_all add: tick_def Let_def)

lemma seeprom_init_data: "seeprom_init files e = Inr e' \<Longrightarrow> \<exists>d. seeprom_data e' = Some d"
  by (auto simp: seeprom_init_def seeprom_idle_def split: option.splits)

lemma seeprom_init_again: "seeprom_data e = Some d \<Longrightarrow> seeprom_init files e = Inr e"
  by (simp add: seeprom_init_def)

lemma switch_data [simp]: "(seeprom_data (seeprom_switch e) = None) = (seeprom_data e = None)"
  by (simp add: seeprom_switch_def seeprom_start_def seeprom_command_def seeprom_special_def seeprom_finish_def
      dead_def set_data_def Let_def)

lemma tick_data [simp]: "(seeprom_data (tick b e) = None) = (seeprom_data e = None)"
  by (simp add: tick_def Let_def)

definition pins_high :: "ARMword \<Rightarrow> bool" where
  "pins_high w \<longleftrightarrow> bit w 10 \<and> bit w 11"

lemma clock_rise_tick:
  assumes "seeprom_clock (seeprom i) = 0"
  shows "(seeprom (clock_rise p i))\<lparr>seeprom_clock := 0x800\<rparr> = tick (bit p 12) (seeprom i)"
    and "bit (gpio1_port (clock_rise p i)) 13 = bit (bits_out (seeprom i)) (unat (seeprom_count (seeprom i) - 1))"
    and "gpio1_dir (clock_rise p i) = gpio1_dir i"
proof -
  have [simp]: "e\<lparr>seeprom_clock := 0, seeprom_count := c, bits_in := b\<rparr> = e\<lparr>seeprom_count := c, bits_in := b\<rparr>"
    if "seeprom_clock e = 0" for e :: seeprom_t and c b
    using that by simp
  show "(seeprom (clock_rise p i))\<lparr>seeprom_clock := 0x800\<rparr> = tick (bit p 12) (seeprom i)"
    using assms by (simp add: clock_rise_def tick_def Let_def pin_bits of_bool_def)
  have "bit (gpio1_port (clock_rise p i)) 13 \<longleftrightarrow> bits_out (seeprom i) AND push_bit (unat (seeprom_count (seeprom i) - 1)) 1 \<noteq> 0"
    unfolding clock_rise_def Let_def by (simp add: bit_or_iff bit_and_iff bit_not_iff)
  then show "bit (gpio1_port (clock_rise p i)) 13 = bit (bits_out (seeprom i)) (unat (seeprom_count (seeprom i) - 1))"
    by (simp add: bit_iff_and_push_bit_not_eq_0)
  show "gpio1_dir (clock_rise p i) = gpio1_dir i" by (simp add: clock_rise_def Let_def)
qed

lemma gpio_low:
  assumes "seeprom_init files (seeprom i) = Inr e" "gpio1_dir i AND 0x2000 = 0" "bit p 10" "\<not> bit p 11"
  shows "gpio_seeprom files i p = Inr (i\<lparr>seeprom := e\<lparr>seeprom_clock := 0\<rparr>\<rparr>)"
proof -
  have "p AND 0x800 = 0" using assms(4) by (simp add: pin_bits)
  then show ?thesis using assms by (simp add: gpio_seeprom_def pin_bits Let_def)
qed

lemma clock_pin:
  assumes "bit p 11"
  shows "p AND 0x800 = (0x800 :: ARMword)"
proof -
  have "(0x800 :: ARMword) = 2 ^ 11" by simp
  then show ?thesis using assms by (intro bit_word_eqI) (auto simp only: bit_and_iff bit_exp_iff)
qed

lemma gpio_rise:
  assumes "seeprom_data (seeprom i) = Some d" "seeprom_clock (seeprom i) = 0" "gpio1_dir i AND 0x2000 = 0" "bit p 10" "bit p 11"
  shows "gpio_seeprom files i p = Inr ((clock_rise p i)\<lparr>seeprom := tick (bit p 12) (seeprom i)\<rparr>)"
proof -
  show ?thesis using assms clock_pin [OF assms(5)]
    by (simp add: gpio_seeprom_def seeprom_init_again pin_bits Let_def flip: clock_rise_tick(1))
qed

lemma send_bit_tick:
  assumes "seeprom_init files (seeprom i) = Inr e" "gpio1_dir i AND 0x2000 = 0" "base AND 0x1c00 = 0"
    "bit (gpio1_latch i) 10 \<longleftrightarrow> bit (gpio1_latch i) 11"
  shows "\<exists>j. send_bit files base b i = Inr (bit (bits_out e) (unat (seeprom_count e - 1)), j) \<and>
    seeprom j = tick b e \<and> gpio1_dir j = gpio1_dir i \<and> pins_high (gpio1_latch j)"
proof -
  obtain d where d: "seeprom_data e = Some d" using seeprom_init_data [OF assms(1)] by auto
  define p where "p = base OR 0x400 OR (if b then 0x1000 else 0)"
  have base: "\<not> bit base 10" "\<not> bit base 11" "\<not> bit base 12" using assms(3) by (auto simp: pins_bits)
  have p: "bit p 10" "\<not> bit p 11" "bit p 12 = b" using base by (auto simp: p_def bit_or_iff)
  have q: "bit (p OR 0x800) 10" "bit (p OR 0x800) 11" "bit (p OR 0x800) 12 = b" using p by (auto simp: bit_or_iff)
  define i1 where "i1 = i\<lparr>seeprom := e\<lparr>seeprom_clock := 0\<rparr>, gpio1_latch := p\<rparr>"
  have low: "starlet_gpio1_latch_write files i p = Inr i1"
    using assms(4) p gpio_low [OF assms(1,2) p(1,2)]
    by (auto simp: starlet_gpio1_latch_write_def pins_bits bit_xor_iff Let_def i1_def)
  have rise: "starlet_gpio1_latch_write files i1 (p OR 0x800)
      = Inr ((clock_rise (p OR 0x800) i1)\<lparr>seeprom := tick b e, gpio1_latch := p OR 0x800\<rparr>)"
    using p q gpio_rise [of i1 d "p OR 0x800" files] d assms(2)
    by (auto simp: starlet_gpio1_latch_write_def pins_bits bit_xor_iff bit_or_iff Let_def i1_def tick_clock)
  show ?thesis
    using clock_rise_tick [of i1 "p OR 0x800"] q
    by (simp add: send_bit_def Let_def low rise pins_high_def flip: p_def) (simp add: i1_def)
qed


lemma send_bits_ticks:
  assumes "seeprom_init files (seeprom i) = Inr e" "gpio1_dir i AND 0x2000 = 0" "base AND 0x1c00 = 0"
    "bit (gpio1_latch i) 10 \<longleftrightarrow> bit (gpio1_latch i) 11" "bs \<noteq> []"
  shows "\<exists>j. send_bits files base bs i = Inr (outs bs e, j) \<and>
    seeprom j = fold tick bs e \<and> gpio1_dir j = gpio1_dir i \<and> pins_high (gpio1_latch j)"
  using assms
proof (induction bs arbitrary: i e)
  case (Cons b bs)
  obtain j where j: "send_bit files base b i = Inr (bit (bits_out e) (unat (seeprom_count e - 1)), j)"
    "seeprom j = tick b e" "gpio1_dir j = gpio1_dir i" "pins_high (gpio1_latch j)"
    using send_bit_tick [OF Cons.prems(1-4)] by blast
  have "seeprom_data (tick b e) \<noteq> None" using seeprom_init_data [OF Cons.prems(1)] by auto
  then have "seeprom_init files (seeprom j) = Inr (tick b e)" unfolding j(2) using seeprom_init_again by blast
  then show ?case
    using Cons.IH [of j "tick b e"] Cons.prems(2,3) j by (cases bs) (auto simp: pins_high_def)
qed simp

text \<open>Lowering chip select leaves the machine idle, with its contents.\<close>

lemma deselect:
  assumes "ee_ready files i" "base AND 0x1c00 = 0"
  shows "\<exists>j e. starlet_gpio1_latch_write files i base = Inr j \<and> seeprom_init files (seeprom j) = Inr e \<and>
    seeprom_idle e = e \<and> seeprom_data e = Some (ee_data files (seeprom i)) \<and> wren e = wren (seeprom i) \<and>
    gpio1_dir j = gpio1_dir i \<and> gpio1_latch j = base"
proof -
  obtain e where e: "seeprom_init files (seeprom i) = Inr e"
    using assms(1) by (auto simp: ee_ready_def seeprom_init_def split: option.splits)
  have d: "seeprom_data e = Some (ee_data files (seeprom i))"
    using seeprom_init_data [OF e] e by (auto simp: ee_data_def)
  have w: "wren e = wren (seeprom i)"
    using e by (auto simp: seeprom_init_def seeprom_idle_def split: option.splits)
  have b: "\<not> bit base 10" "\<not> bit base 11" "\<not> bit base 12" using assms(2) by (auto simp: pins_bits)
  show ?thesis
  proof (cases "(gpio1_latch i XOR base) AND 0x1c00 = 0")
    case True
    then have "\<not> bit (gpio1_latch i) 10" using b by (auto simp: pins_bits bit_xor_iff)
    then have "seeprom_idle e = e"
      using assms(1) e by (auto simp: ee_ready_def pin_bits seeprom_init_def seeprom_idle_def split: option.splits)
    then show ?thesis using True e d w by (auto simp: starlet_gpio1_latch_write_def Let_def)
  next
    case False
    then have "starlet_gpio1_latch_write files i base = Inr (i\<lparr>seeprom := seeprom_idle e, gpio1_latch := base\<rparr>)"
      using e b by (simp add: starlet_gpio1_latch_write_def gpio_seeprom_def pin_bits Let_def)
    then show ?thesis using d w by (auto simp: seeprom_idle_def seeprom_init_def)
  qed
qed

section \<open>The commands are performed\<close>

lemma start_ticks:
  assumes "seeprom_idle e = e"
  shows "tick True e = e\<lparr>seeprom_clock := 0x800, seeprom_count := 2, seeprom_state := 1\<rparr>"
proof -
  have "seeprom_count e = 1" "bits_in e = 0" "seeprom_state e = 0" "bits_out e = 0"
    by (subst assms [symmetric], simp add: seeprom_idle_def)+
  then show ?thesis by (simp add: tick_def Let_def seeprom_switch_def seeprom_start_def)
qed

lemma opcode_ticks:
  assumes "seeprom_idle e = e"
  shows "fold tick ([True] @ field 2 oc) e =
    e\<lparr>seeprom_clock := 0x800, seeprom_count := 8, seeprom_state := 2, seeprom_opcode := take_bit 2 oc\<rparr>"
proof -
  have "bits_in e = 0" by (subst assms [symmetric], simp add: seeprom_idle_def)
  then show ?thesis
    using ticks_field [of "tick True e" 2 oc] by (simp add: start_ticks [OF assms] seeprom_switch_def)
qed

lemma command_ticks:
  assumes "seeprom_idle e = e"
  shows "fold tick ([True] @ field 2 oc @ field 8 a) e =
    (seeprom_command (e\<lparr>seeprom_state := 2, seeprom_opcode := take_bit 2 oc, seeprom_clock := 0, seeprom_count := 0,
       bits_in := take_bit 8 a\<rparr>))\<lparr>bits_in := 0, seeprom_clock := 0x800\<rparr>"
proof -
  define f where "f = e\<lparr>seeprom_clock := 0x800, seeprom_count := 8, seeprom_state := 2, seeprom_opcode := take_bit 2 oc\<rparr>"
  have "bits_in e = 0" by (subst assms [symmetric], simp add: seeprom_idle_def)
  moreover have "fold tick ([True] @ field 2 oc @ field 8 a) e = fold tick (field 8 a) f"
    using opcode_ticks [OF assms, of oc] by (simp add: f_def)
  ultimately show ?thesis using ticks_field [of f 8 a] by (simp add: f_def seeprom_switch_def)
qed

text \<open>A machine that has nothing more to do ignores the bits that follow.\<close>

lemma dead_ticks:
  assumes "seeprom_state e = -1" "seeprom_count e = 1"
  shows "seeprom_data (fold tick bs e) = seeprom_data e \<and> wren (fold tick bs e) = wren e"
  using assms
proof (induction bs arbitrary: e)
  case (Cons b bs)
  have "tick b e = e\<lparr>seeprom_clock := 0x800, bits_in := 0\<rparr>"
    using Cons.prems by (simp add: tick_def Let_def seeprom_switch_def)
  then show ?case using Cons.IH [of "tick b e"] Cons.prems by simp
qed simp

lemma special_ticks:
  assumes "seeprom_idle e = e" "a \<in> {0, 0x80, 0xC0}"
  shows "seeprom_data (fold tick ([True] @ field 2 0 @ field 8 a) e)
      = (if a = 0x80 \<and> wren e \<noteq> 0 then map_option (\<lambda>_ _. 0) (seeprom_data e) else seeprom_data e)"
    and "wren (fold tick ([True] @ field 2 0 @ field 8 a) e) = (if a = 0 then 0 else if a = 0xC0 then 1 else wren e)"
  using assms(2) unfolding command_ticks [OF assms(1)]
  by (auto simp: seeprom_command_def seeprom_special_def dead_def set_data_def Let_def)

lemma erase_ticks:
  assumes "seeprom_idle e = e"
  shows "seeprom_data (fold tick ([True] @ field 2 3 @ field 8 a) e)
      = (if wren e \<noteq> 0 then map_option (put_bytes [0, 0] (2 * unat (take_bit 8 a AND 0x7f))) (seeprom_data e) else seeprom_data e)"
    and "wren (fold tick ([True] @ field 2 3 @ field 8 a) e) = wren e"
  unfolding command_ticks [OF assms]
  by (auto simp: seeprom_command_def dead_def set_data_def Let_def seeprom_index_def)


lemma write_ticks:
  assumes "seeprom_idle e = e"
  shows "seeprom_data (fold tick ([True] @ field 2 1 @ field 8 a @ field 16 v) e)
      = (if wren e \<noteq> 0 then map_option (put_bytes (wbe16 (take_bit 16 v)) (2 * unat (take_bit 8 a AND 0x7f))) (seeprom_data e)
         else seeprom_data e)" (is "?D")
    and "wren (fold tick ([True] @ field 2 1 @ field 8 a @ field 16 v) e) = wren e" (is "?W")
proof -
  define f where "f = fold tick ([True] @ field 2 1 @ field 8 a) e"
  have f: "fold tick ([True] @ field 2 1 @ field 8 a @ field 16 v) e = fold tick (field 16 v) f" by (simp add: f_def)
  have "?D \<and> ?W"
  proof (cases "wren e = 0")
    case True
    then have "seeprom_state f = -1" "seeprom_count f = 1" "seeprom_data f = seeprom_data e" "wren f = wren e"
      unfolding f_def command_ticks [OF assms] by (simp_all add: seeprom_command_def dead_def Let_def)
    then show ?thesis unfolding f using dead_ticks [of f "field 16 v"] True by simp
  next
    case False
    then have "seeprom_state f = 3" "seeprom_count f = 16" "seeprom_data f = seeprom_data e" "wren f = wren e"
        "seeprom_address f = take_bit 8 a" "seeprom_opcode f = 1" "bits_in f = 0"
      unfolding f_def command_ticks [OF assms] by (simp_all add: seeprom_command_def Let_def)
    then show ?thesis unfolding f using ticks_field [of f 16 v] False
      by (simp add: seeprom_switch_def seeprom_finish_def dead_def set_data_def seeprom_index_def)
  qed
  then show ?D ?W by auto
qed

lemma write_all_ticks:
  assumes "seeprom_idle e = e"
  shows "seeprom_data (fold tick ([True] @ field 2 0 @ field 8 0x40 @ field 16 v) e)
      = (if wren e \<noteq> 0
         then map_option (\<lambda>d k. if k < 256 then (if even k then ucast (take_bit 16 v) else ucast (drop_bit 8 (take_bit 16 v))) else d k)
                (seeprom_data e)
         else seeprom_data e)" (is "?D")
    and "wren (fold tick ([True] @ field 2 0 @ field 8 0x40 @ field 16 v) e) = wren e" (is "?W")
proof -
  define f where "f = fold tick ([True] @ field 2 0 @ field 8 0x40) e"
  have f: "fold tick ([True] @ field 2 0 @ field 8 0x40 @ field 16 v) e = fold tick (field 16 v) f" by (simp add: f_def)
  have "?D \<and> ?W"
  proof (cases "wren e = 0")
    case True
    then have "seeprom_state f = -1" "seeprom_count f = 1" "seeprom_data f = seeprom_data e" "wren f = wren e"
      unfolding f_def command_ticks [OF assms]
      by (simp_all add: seeprom_command_def seeprom_special_def dead_def Let_def)
    then show ?thesis unfolding f using dead_ticks [of f "field 16 v"] True by simp
  next
    case False
    then have "seeprom_state f = 3" "seeprom_count f = 16" "seeprom_data f = seeprom_data e" "wren f = wren e"
        "seeprom_opcode f = 0" "bits_in f = 0"
      unfolding f_def command_ticks [OF assms] by (simp_all add: seeprom_command_def seeprom_special_def Let_def)
    then show ?thesis unfolding f using ticks_field [of f 16 v] False
      by (simp add: seeprom_switch_def seeprom_finish_def dead_def set_data_def cong: if_cong)
  qed
  then show ?D ?W by auto
qed

lemma read_ticks:
  assumes "seeprom_idle e = e" "seeprom_data e = Some d"
  shows "seeprom_data (fold tick ([True] @ field 2 2 @ field 8 a @ field 16 0) e) = Some d" (is "?D")
    and "wren (fold tick ([True] @ field 2 2 @ field 8 a @ field 16 0) e) = wren e" (is "?W")
    and "drop 11 (outs ([True] @ field 2 2 @ field 8 a @ field 16 0) e)
      = field 16 (be16 (d (2 * unat (take_bit 8 a AND 0x7f))) (d (2 * unat (take_bit 8 a AND 0x7f) + 1)))" (is "?O")
proof -
  define f where "f = fold tick ([True] @ field 2 2 @ field 8 a) e"
  have f: "fold tick ([True] @ field 2 2 @ field 8 a @ field 16 0) e = fold tick (field 16 0) f" by (simp add: f_def)
  have *: "seeprom_state f = 3" "seeprom_count f = 16" "seeprom_data f = Some d" "wren f = wren e" "seeprom_opcode f = 2"
      "bits_out f = be16 (d (2 * unat (take_bit 8 a AND 0x7f))) (d (2 * unat (take_bit 8 a AND 0x7f) + 1))" "bits_in f = 0"
    unfolding f_def command_ticks [OF assms(1)]
    by (simp_all add: seeprom_command_def seeprom_word_def seeprom_index_def assms(2) Let_def)
  show ?D ?W unfolding f using ticks_field [of f 16 0] *
    by (simp_all add: seeprom_switch_def seeprom_finish_def dead_def)
  have "outs ([True] @ field 2 2 @ field 8 a @ field 16 0) e = outs ([True] @ field 2 2 @ field 8 a) e @ outs (field 16 0) f"
    using outs_append [of "[True] @ field 2 2 @ field 8 a" "field 16 0" e] by (simp add: f_def)
  moreover have "outs (field 16 0) f = field 16 (bits_out f)" using outs_field [of f "field 16 0"] *(2) by simp
  ultimately show ?O using *(6) by simp
qed


section \<open>Refinement\<close>

lemma word_index: "unat (take_bit 8 (ucast (a :: 8 word)) AND 0x7f :: ARMword) = unat (ucast a :: 7 word)"
proof -
  have "(0x7f :: ARMword) = mask 7" by (simp add: mask_eq_exp_minus_1)
  then have "take_bit 8 (ucast a) AND 0x7f = take_bit 7 (ucast a :: ARMword)"
    by (simp only: flip: take_bit_eq_mask) simp
  then show ?thesis by (simp add: unsigned_take_bit_eq unsigned_ucast_eq)
qed

lemma be16_wbe16: "ucast (be16 (ucast (drop_bit 8 x)) (ucast x)) = (ucast x :: 16 word)" for x :: ARMword
  by (rule bit_word_eqI) (auto simp: be16_def bit_simps)

lemma be16_swapped: "ucast (be16 (ucast x) (ucast (drop_bit 8 x))) = word_rotl 8 (ucast x :: 16 word)" for x :: ARMword
proof (rule bit_word_eqI)
  fix n assume n: "n < LENGTH(16)"
  have "(n + (16 - 8 mod 16)) mod 16 = (if n < 8 then n + 8 else n - 8)" using n by (simp add: mod_if)
  then show "bit (ucast (be16 (ucast x) (ucast (drop_bit 8 x))) :: 16 word) n = bit (word_rotl 8 (ucast x :: 16 word)) n"
    using n by (auto simp: be16_def bit_simps bit_word_rotl_iff add.commute)
qed

lemma put_word:
  "(ucast (be16 (put_bytes [b0, b1] (2 * unat (m :: 7 word)) d (2 * unat n)) (put_bytes [b0, b1] (2 * unat m) d (2 * unat n + 1))) :: 16 word)
     = (if n = m then ucast (be16 b0 b1) else ucast (be16 (d (2 * unat n)) (d (2 * unat n + 1))))"
proof -
  have "2 * unat n \<noteq> Suc (2 * unat m)" "Suc (2 * unat n) \<noteq> 2 * unat m" by presburger+
  then show ?thesis by (auto simp: word_unat_eq_iff)
qed


lemma take_bit_halfword [simp]: "take_bit 16 (ucast (v :: 16 word)) = (ucast v :: ARMword)"
  by (rule bit_word_eqI) (auto simp: bit_simps dest: bit_imp_le_length)

lemma ucast_take_halfword [simp]: "ucast (take_bit 16 (w :: ARMword)) = (ucast w :: 16 word)"
  by (rule bit_word_eqI) (auto simp: bit_simps)

lemma ucast_up_down [simp]: "ucast (ucast (v :: 16 word) :: ARMword) = v"
  by (rule bit_word_eqI) (auto simp: bit_simps)

definition ee_view :: "(nat \<Rightarrow> octet) \<Rightarrow> ARMword \<Rightarrow> ee_state" where
  "ee_view d w = \<lparr>ee_mem = (\<lambda>n. ucast (be16 (d (2 * unat n)) (d (2 * unat n + 1)))), ee_enabled = (w \<noteq> 0)\<rparr>"

lemma ee_abs_view: "ee_abs files i = ee_view (ee_data files (seeprom i)) (wren (seeprom i))"
  by (simp add: ee_abs_def ee_view_def)

lemma ee_bits_step:
  assumes "seeprom_idle e = e" "seeprom_data e = Some d"
  shows "\<exists>d'. seeprom_data (fold tick (ee_bits c) e) = Some d' \<and>
    ee_view d' (wren (fold tick (ee_bits c) e)) = ee_step (ee_performed c) (ee_view d (wren e))"
proof (cases c)
  case (EeRead a)
  then show ?thesis using read_ticks [OF assms, of "ucast a"] by simp
next
  case (EeWrite a v)
  then show ?thesis
    using write_ticks [OF assms(1), of "ucast a" "ucast v"] assms(2) word_index [of a] be16_wbe16 [of "ucast v"]
    by (simp add: ee_view_def wbe16_def put_word fun_upd_def cong: if_cong del: put_bytes.simps One_nat_def)
next
  case (EeErase a)
  then show ?thesis using erase_ticks [OF assms(1), of "ucast a"] assms(2) word_index [of a]
    by (simp add: ee_view_def put_word fun_upd_def be16_def [of 0] cong: if_cong del: put_bytes.simps One_nat_def)
next
  case (EeWriteAll v)
  have "unat (n :: 7 word) < 128" "2 * unat n < 255" for n using unsigned_less [of n, where 'a = nat] by simp_all
  then show ?thesis using EeWriteAll write_all_ticks [OF assms(1), of "ucast v"] assms(2) be16_swapped [of "ucast v"]
    by (simp add: ee_view_def cong: if_cong)
qed (use special_ticks [OF assms(1), of "0x80"] special_ticks [OF assms(1), of "0xC0"] special_ticks [OF assms(1), of 0] assms(2)
    in \<open>simp_all add: ee_view_def be16_def\<close>)

lemma ee_transact_step:
  assumes "ee_ready files i" "base AND 0x1c00 = 0"
  shows "\<exists>j. ee_transact files base c i = Inr (ee_answer c (ee_abs files i), j) \<and>
    ee_abs files j = ee_step (ee_performed c) (ee_abs files i) \<and> ee_ready files j"
proof -
  obtain j e where j: "starlet_gpio1_latch_write files i base = Inr j" "seeprom_init files (seeprom j) = Inr e"
      "seeprom_idle e = e" "seeprom_data e = Some (ee_data files (seeprom i))" "wren e = wren (seeprom i)"
      "gpio1_dir j = gpio1_dir i" "gpio1_latch j = base"
    using deselect [OF assms] by blast
  have "gpio1_dir i AND 0x2000 = 0" using assms(1) by (simp add: ee_ready_def)
  moreover have "bit (gpio1_latch j) 10 \<longleftrightarrow> bit (gpio1_latch j) 11" using assms(2) j(7) by (simp add: pins_bits)
  moreover have "ee_bits c \<noteq> []" by (cases c) simp_all
  ultimately obtain k where k: "send_bits files base (ee_bits c) j = Inr (outs (ee_bits c) e, k)"
      "seeprom k = fold tick (ee_bits c) e" "gpio1_dir k = gpio1_dir j" "pins_high (gpio1_latch k)"
    using send_bits_ticks [OF j(2), of base "ee_bits c"] assms(2) j(6) by auto
  obtain d' where d': "seeprom_data (seeprom k) = Some d'"
      "ee_view d' (wren (seeprom k)) = ee_step (ee_performed c) (ee_abs files i)"
    using ee_bits_step [OF j(3,4), of c] j(5) k(2) by (auto simp: ee_abs_view)
  have "ee_abs files k = ee_step (ee_performed c) (ee_abs files i)"
    using d' by (simp add: ee_abs_view ee_data_def seeprom_init_again)
  moreover have "ee_transact files base c i = Inr (ee_answer c (ee_abs files i), k)"
    using j(1) k(1) read_ticks(3) [OF j(3,4)] word_index
    by (cases c) (simp_all add: ee_transact_def bits_value_field ee_abs_def)
  moreover have "seeprom_clock (seeprom k) = 0x800" unfolding k(2) by (rule ticks_clock_high) (cases c, simp_all)
  ultimately show ?thesis
    using assms(1) j(6) k(3,4) d'(1) clock_pin [of "gpio1_latch k"] by (auto simp: ee_ready_def pin_bits pins_high_def)
qed

text \<open>The commands that the code performs as they are.\<close>

definition ee_plain :: "ee_cmd \<Rightarrow> bool" where
  "ee_plain c = (case c of EeRead _ \<Rightarrow> True | EeWrite _ _ \<Rightarrow> True | EeWriteEnable \<Rightarrow> True | EeWriteDisable \<Rightarrow> True | _ \<Rightarrow> False)"

lemma ee_performed_plain: "\<forall>c\<in>set cs. ee_plain c \<Longrightarrow> map ee_performed cs = cs"
  by (induction cs) (auto simp: ee_plain_def split: ee_cmd.splits)

lemma ee_run_refines:
  assumes "base AND 0x1c00 = 0"
  shows "ee_ready files i \<Longrightarrow> \<exists>j. ee_run files base cs i = Inr (ee_answers (map ee_performed cs) (ee_abs files i), j) \<and>
    ee_abs files j = fold ee_step (map ee_performed cs) (ee_abs files i) \<and> ee_ready files j"
proof (induction cs arbitrary: i)
  case (Cons c cs)
  obtain j where j: "ee_transact files base c i = Inr (ee_answer c (ee_abs files i), j)"
      "ee_abs files j = ee_step (ee_performed c) (ee_abs files i)" "ee_ready files j"
    using ee_transact_step [OF Cons.prems assms] by blast
  have "ee_answer (ee_performed c) m = ee_answer c m" for m by (cases c) simp_all
  then show ?case using Cons.IH [OF j(3)] j by auto
qed simp

text \<open>
  C13. Driving the pins bit by bit through any sequence of commands, one per transaction, never ends the simulator, answers
  each read with the word of the array, and leaves the array and the write-enable flag as the data sheet says for the
  commands that \<open>ee_performed\<close> puts in their place. For reads, writes and the two commands for the flag these are the commands themselves, so
  that a program of such commands gets exactly what the data sheet promises: no word changes while writes are
  disabled, and a word that was written is read back. Erasing and \<^verbatim>\<open>Write All\<close> depart from the data sheet: an erased word is
  0 instead of all ones, and \<^verbatim>\<open>Write All\<close> stores the bytes exchanged.
\<close>

theorem seeprom_refines_commands:
  assumes "ee_ready files i" "base AND 0x1c00 = 0"
  shows "(\<exists>j. ee_run files base cs i = Inr (ee_answers (map ee_performed cs) (ee_abs files i), j) \<and>
      ee_abs files j = fold ee_step (map ee_performed cs) (ee_abs files i) \<and> ee_ready files j) \<and>
    ((\<forall>c\<in>set cs. ee_plain c) \<longrightarrow> (\<exists>j. ee_run files base cs i = Inr (ee_answers cs (ee_abs files i), j) \<and>
      ee_abs files j = fold ee_step cs (ee_abs files i) \<and> ee_ready files j))"
  using ee_run_refines [OF assms(2,1), of cs] by (auto simp: ee_performed_plain)

text \<open>With the file there, the EEPROM is ready after a reset, which sets the latch to \<^verbatim>\<open>0x20\<close>.\<close>

lemma ee_ready_reset: "seeprom_bin files = Some f \<Longrightarrow> ee_ready files (io_zero\<lparr>gpio1_latch := 0x20\<rparr>)"
  by (simp add: ee_ready_def io_zero_def)

theorem seeprom_refines_commands_witness:
  "ee_ready \<lparr>boot0_bin = None, otp_bin = None, seeprom_bin = Some [], disc_iso = None, sd_bin = None\<rparr>
     (io_zero\<lparr>gpio1_latch := 0x20\<rparr>) \<and>
   (\<exists>j. ee_run \<lparr>boot0_bin = None, otp_bin = None, seeprom_bin = Some [], disc_iso = None, sd_bin = None\<rparr> 0x20
      [EeWrite 5 0x1234, EeWriteEnable, EeWrite 7 0xABCD, EeRead 7, EeRead 5, EeWriteAll 0x1234, EeRead 3, EeErase 3, EeRead 3]
      (io_zero\<lparr>gpio1_latch := 0x20\<rparr>)
      = Inr ([None, None, None, Some 0xABCD, Some 0, None, Some 0x3412, None, Some 0], j))"
proof -
  let ?f = "\<lparr>boot0_bin = None, otp_bin = None, seeprom_bin = Some [], disc_iso = None, sd_bin = None\<rparr>"
  let ?cs = "[EeWrite 5 0x1234, EeWriteEnable, EeWrite 7 0xABCD, EeRead 7, EeRead 5, EeWriteAll 0x1234, EeRead 3, EeErase 3, EeRead 3]"
  have rotl: "word_rotl 8 0x1234 = (0x3412 :: 16 word)" using be16_swapped [of "0x1234"] by (simp add: be16_def)
  have r: "ee_ready ?f (io_zero\<lparr>gpio1_latch := 0x20\<rparr>)" by (rule ee_ready_reset) simp
  have "ee_answers (map ee_performed ?cs) (ee_abs ?f (io_zero\<lparr>gpio1_latch := 0x20\<rparr>))
      = [None, None, None, Some 0xABCD, Some 0, None, Some 0x3412, None, Some 0]"
    by (simp add: rotl ee_abs_def ee_data_def io_zero_def seeprom_init_def seeprom_idle_def be16_def)
  then show ?thesis using r seeprom_refines_commands [OF r, where base = "0x20" and cs = ?cs] by auto
qed

end
