(* ===== verification/Mmu_Tlb.thy ===== *)
theory Mmu_Tlb
  imports Arm_Mem
begin

text \<open>
  The translation lookaside buffer of \<^verbatim>\<open>arch/arm/common/mmu/tlb.c\<close>: the search, the walk of the two-level
  translation tables on a miss with round-robin replacement, the permission check, and the
  invalidations. The main result is that the buffer is transparent: as long as it is coherent with
  the tables, \<^verbatim>\<open>translate\<close> returns what a walk of the tables returns.
\<close>

section \<open>The model\<close>

fun tlb_masks :: "tlb_mapping_t \<Rightarrow> ARMword" where
  "tlb_masks TLB_INVALID = 0x00000000"
| "tlb_masks TLB_SMALLPAGE = 0xFFFFF000"
| "tlb_masks TLB_LARGEPAGE = 0xFFFF0000"
| "tlb_masks TLB_SECTION = 0xFFF00000"
| "tlb_masks TLB_ESMALLPAGE = 0xFFFFF000"
| "tlb_masks TLB_TINYPAGE = 0xFFFFFC00"

definition check_perms :: "'io ARMul_State \<Rightarrow> ARMword \<Rightarrow> bool \<Rightarrow> bool" where
  "check_perms s ap read =
     (let sys = control (mmu s) AND CONTROL_SYSTEM \<noteq> 0;
          r = control (mmu s) AND CONTROL_ROM \<noteq> 0;
          user = Mode s = USER32MODE \<or> Mode s = USER26MODE
      in if ap = 0 then read \<and> ((sys \<and> \<not> user) \<or> r)
         else if ap = 1 then \<not> user
         else if ap = 2 then read \<or> \<not> user
         else ap = 3)"

definition set_last_domain :: "ARMword \<Rightarrow> 'io ARMul_State \<Rightarrow> 'io ARMul_State" where
  "set_last_domain d s = s\<lparr>mmu := (mmu s)\<lparr>last_domain := d\<rparr>\<rparr>"

text \<open>The part of a page that has permissions of its own; an invalid entry fails the assertion.\<close>

fun subpage_of :: "tlb_mapping_t \<Rightarrow> ARMword \<Rightarrow> ARMword sim" where
  "subpage_of TLB_ESMALLPAGE va = Inr 0"
| "subpage_of TLB_TINYPAGE va = Inr 0"
| "subpage_of TLB_SMALLPAGE va = Inr (drop_bit 10 va AND 3)"
| "subpage_of TLB_LARGEPAGE va = Inr (drop_bit 14 va AND 3)"
| "subpage_of TLB_SECTION va = Inr 3"
| "subpage_of TLB_INVALID va = Inl AssertFailed"

definition check_access ::
  "'io ARMul_State \<Rightarrow> ARMword \<Rightarrow> tlb_entry_t \<Rightarrow> bool \<Rightarrow> (fault_t \<times> 'io ARMul_State) sim" where
  "check_access s va tlb read =
     (let s = set_last_domain (domain tlb) s;
          access = drop_bit (unat (domain tlb * 2)) (domain_access_control (mmu s)) AND 3
      in if access = 0 \<or> access = 2 then Inr (SECTION_DOMAIN_FAULT, s)
         else if access = 1
         then bind_ok (subpage_of (mapping tlb) va) (\<lambda>subpage.
                let ap = drop_bit (unat (subpage * 2 + 4)) (perms tlb) AND 3
                in if \<not> check_perms s ap read
                   then Inr (if mapping tlb = TLB_SECTION then SECTION_PERMISSION_FAULT
                             else SUBPAGE_PERMISSION_FAULT, s)
                   else Inr (NO_FAULT, s))
         else Inr (NO_FAULT, s))"

text \<open>The loop of \<^verbatim>\<open>mmu_tlb_search\<close>: the number of the first valid entry that covers the address.\<close>

definition tlb_match :: "tlb_entry_t \<Rightarrow> ARMword \<Rightarrow> bool" where
  "tlb_match e va \<longleftrightarrow> mapping e \<noteq> TLB_INVALID
     \<and> va AND tlb_masks (mapping e) = virt_addr e AND tlb_masks (mapping e)"

fun tlb_search_loop :: "tlb_entry_t list \<Rightarrow> ARMword \<Rightarrow> nat \<Rightarrow> nat option" where
  "tlb_search_loop [] va i = None"
| "tlb_search_loop (e # es) va i =
     (if mapping e = TLB_INVALID then tlb_search_loop es va (Suc i)
      else if va AND tlb_masks (mapping e) = virt_addr e AND tlb_masks (mapping e) then Some i
      else tlb_search_loop es va (Suc i))"

definition mmu_tlb_search :: "tlb_t \<Rightarrow> ARMword \<Rightarrow> nat option" where
  "mmu_tlb_search t va = tlb_search_loop (tlb_entrys t) va 0"

subsection \<open>The walk of the translation tables\<close>

definition l1_addr :: "ARMword \<Rightarrow> ARMword \<Rightarrow> ARMword" where
  "l1_addr ttb va = ((ttb AND 0xFFFFC000) OR drop_bit 18 va) AND NOT 3"

definition fine_addr :: "ARMword \<Rightarrow> ARMword \<Rightarrow> ARMword" where
  "fine_addr l1desc va =
     ((l1desc AND 0xFFFFF000) OR drop_bit 8 (va AND 0x000FFC00)) AND NOT 3"

definition coarse_addr :: "ARMword \<Rightarrow> ARMword \<Rightarrow> ARMword" where
  "coarse_addr l1desc va =
     ((l1desc AND 0xFFFFFC00) OR drop_bit 10 (va AND 0x000FF000)) AND NOT 3"

definition mk_entry :: "ARMword \<Rightarrow> ARMword \<Rightarrow> ARMword \<Rightarrow> ARMword \<Rightarrow> tlb_mapping_t \<Rightarrow> tlb_entry_t" where
  "mk_entry va desc prm dmn m =
     \<lparr>virt_addr = va AND tlb_masks m, phys_addr = desc AND tlb_masks m, perms = prm, domain = dmn,
      mapping = m\<rparr>"

definition domain_of :: "ARMword \<Rightarrow> ARMword" where
  "domain_of l1desc = drop_bit 5 l1desc AND 0xF"

text \<open>
  The two switches on a second-level descriptor. \<open>None\<close> is a page translation fault, which sets the
  last domain.
\<close>

definition fine_entry :: "ARMword \<Rightarrow> ARMword \<Rightarrow> ARMword \<Rightarrow> tlb_entry_t option" where
  "fine_entry va l1desc l2desc =
     (let mk = mk_entry va l2desc (l2desc AND 0xFFC) (domain_of l1desc); c = l2desc AND 3
      in if c = 0 then None
         else if c = 3 then Some (mk TLB_TINYPAGE)
         else if c = 1 then Some (mk TLB_LARGEPAGE)
         else Some (mk TLB_SMALLPAGE))"

definition coarse_entry :: "ARMword \<Rightarrow> ARMword \<Rightarrow> ARMword \<Rightarrow> ARMword \<Rightarrow> tlb_entry_t option" where
  "coarse_entry xscale va l1desc l2desc =
     (let mk = mk_entry va l2desc (l2desc AND 0xFFC) (domain_of l1desc); c = l2desc AND 3
      in if c = 0 then None
         else if c = 3 then (if xscale = 0 then None else Some (mk TLB_ESMALLPAGE))
         else if c = 1 then Some (mk TLB_LARGEPAGE)
         else Some (mk TLB_SMALLPAGE))"

definition section_entry :: "ARMword \<Rightarrow> ARMword \<Rightarrow> tlb_entry_t" where
  "section_entry va l1desc =
     mk_entry va l1desc (l1desc AND 0x00000C0C) (domain_of l1desc) TLB_SECTION"

definition l2_result ::
  "ARMword \<Rightarrow> tlb_entry_t option \<Rightarrow> 'io ARMul_State \<Rightarrow> tlb_entry_t option \<times> 'io ARMul_State" where
  "l2_result l1desc e s =
     (case e of None \<Rightarrow> (None, set_last_domain (domain_of l1desc) s) | Some e \<Rightarrow> (Some e, s))"

definition walk_tables ::
  "'io arm_env \<Rightarrow> 'io ARMul_State \<Rightarrow> ARMword \<Rightarrow> (tlb_entry_t option \<times> 'io ARMul_State) sim" where
  "walk_tables env s va =
     bind_ok (mem_read_word env (stack_depth env) s (l1_addr (translation_table_base (mmu s)) va))
       (\<lambda>(l1desc, s).
          let c = l1desc AND 3
          in if c = 0 then Inr (None, s)
             else if c = 3
             then bind_ok (mem_read_word env (stack_depth env) s (fine_addr l1desc va))
                    (\<lambda>(l2desc, s). Inr (l2_result l1desc (fine_entry va l1desc l2desc) s))
             else if c = 1
             then bind_ok (mem_read_word env (stack_depth env) s (coarse_addr l1desc va))
                    (\<lambda>(l2desc, s). Inr (l2_result l1desc (coarse_entry (is_XScale s) va l1desc l2desc) s))
             else Inr (Some (section_entry va l1desc), s))"

definition tlb_insert :: "tlb_t \<Rightarrow> tlb_entry_t \<Rightarrow> (nat \<times> tlb_t) sim" where
  "tlb_insert t e =
     (if tlb_cycle t < length (tlb_entrys t)
      then Inr (tlb_cycle t, t\<lparr>tlb_entrys := (tlb_entrys t)[tlb_cycle t := e],
                               tlb_cycle := (tlb_cycle t + 1) mod length (tlb_entrys t)\<rparr>)
      else Inl OutOfBounds)"

text \<open>
  \<^verbatim>\<open>translate\<close> returns a fault or, through its last argument, a pointer to the entry, here its number.
  Every translation fault has the code \<open>PAGE_TRANSLATION_FAULT\<close>.
\<close>

definition translate ::
  "'io arm_env \<Rightarrow> 'io ARMul_State \<Rightarrow> ARMword \<Rightarrow> tlb_t \<Rightarrow> (fault_t \<times> nat option \<times> tlb_t \<times> 'io ARMul_State) sim"
  where
  "translate env s va t =
     (case mmu_tlb_search t va of
        Some i \<Rightarrow> Inr (NO_FAULT, Some i, t, set_last_domain (domain (tlb_entrys t ! i)) s)
      | None \<Rightarrow>
          bind_ok (walk_tables env s va) (\<lambda>(e, s).
            case e of
              None \<Rightarrow> Inr (PAGE_TRANSLATION_FAULT, None, t, s)
            | Some e \<Rightarrow>
                bind_ok (tlb_insert t e)
                  (\<lambda>(i, t). Inr (NO_FAULT, Some i, t, set_last_domain (domain e) s))))"

definition tlb_va_to_pa :: "tlb_entry_t \<Rightarrow> ARMword \<Rightarrow> ARMword" where
  "tlb_va_to_pa e va =
     (phys_addr e AND tlb_masks (mapping e)) OR (va AND NOT (tlb_masks (mapping e)))"

text \<open>\<^verbatim>\<open>malloc\<close> leaves the other fields of the entries undefined; \<open>junk\<close> stands for them.\<close>

definition mmu_tlb_init :: "tlb_entry_t \<Rightarrow> nat \<Rightarrow> tlb_t" where
  "mmu_tlb_init junk num =
     \<lparr>tlb_cycle = 0, tlb_entrys = replicate num (junk\<lparr>mapping := TLB_INVALID\<rparr>)\<rparr>"

definition mmu_tlb_invalidate_all :: "tlb_t \<Rightarrow> tlb_t" where
  "mmu_tlb_invalidate_all t =
     t\<lparr>tlb_entrys := map (\<lambda>e. e\<lparr>mapping := TLB_INVALID\<rparr>) (tlb_entrys t), tlb_cycle := 0\<rparr>"

definition mmu_tlb_invalidate_entry :: "tlb_t \<Rightarrow> ARMword \<Rightarrow> tlb_t" where
  "mmu_tlb_invalidate_entry t addr =
     (case mmu_tlb_search t addr of
        None \<Rightarrow> t
      | Some i \<Rightarrow> t\<lparr>tlb_entrys := (tlb_entrys t)[i := (tlb_entrys t ! i)\<lparr>mapping := TLB_INVALID\<rparr>]\<rparr>)"

section \<open>The tables as a function\<close>

text \<open>
  The mapping that the translation tables describe, as a function of the memory contents alone.
\<close>

definition table_entry ::
  "(ARMword \<Rightarrow> ARMword) \<Rightarrow> ARMword \<Rightarrow> ARMword \<Rightarrow> ARMword \<Rightarrow> tlb_entry_t option" where
  "table_entry rdw xscale ttb va =
     (let l1desc = rdw (l1_addr ttb va); c = l1desc AND 3
      in if c = 0 then None
         else if c = 3 then fine_entry va l1desc (rdw (fine_addr l1desc va))
         else if c = 1 then coarse_entry xscale va l1desc (rdw (coarse_addr l1desc va))
         else Some (section_entry va l1desc))"

definition mapped :: "'io ARMul_State \<Rightarrow> ARMword \<Rightarrow> tlb_entry_t option" where
  "mapped s = table_entry (peek_word s) (is_XScale s) (translation_table_base (mmu s))"

definition tables_in_ram :: "'io ARMul_State \<Rightarrow> ARMword \<Rightarrow> bool" where
  "tables_in_ram s va \<longleftrightarrow>
     (let a = l1_addr (translation_table_base (mmu s)) va; l1desc = peek_word s a
      in ram_ok s a \<and> (l1desc AND 3 = 3 \<longrightarrow> ram_ok s (fine_addr l1desc va))
           \<and> (l1desc AND 3 = 1 \<longrightarrow> ram_ok s (coarse_addr l1desc va)))"

text \<open>
  The architecture requires the descriptor of a page that spans several table slots to be repeated
  in each of them: every address of a page has the page's entry.
\<close>

definition tables_regular :: "'io ARMul_State \<Rightarrow> bool" where
  "tables_regular s \<longleftrightarrow>
     (\<forall>va va' e. mapped s va = Some e \<longrightarrow>
        va' AND tlb_masks (mapping e) = va AND tlb_masks (mapping e) \<longrightarrow> mapped s va' = Some e)"

text \<open>States that differ in the bank pointers and the last domain only.\<close>

definition quiet :: "'io ARMul_State \<Rightarrow> 'io ARMul_State \<Rightarrow> bool" where
  "quiet s t \<longleftrightarrow> (\<exists>u d. same_memory s u \<and> t = set_last_domain d u)"

lemma same_memory_quiet: "same_memory s t \<Longrightarrow> quiet s t"
  unfolding quiet_def by (rule exI [of _ t], rule exI [of _ "last_domain (mmu t)"])
    (simp add: set_last_domain_def)

lemma same_memory_refl: "cache_ok (mem s) \<Longrightarrow> same_memory s s"
  unfolding same_memory_def by (rule exI [of _ "mem s"]) simp

lemma same_memory_trans: "same_memory s t \<Longrightarrow> same_memory t u \<Longrightarrow> same_memory s u"
  by (auto simp: same_memory_def)

lemma set_last_domain_twice [simp]: "set_last_domain d (set_last_domain d' s) = set_last_domain d s"
  by (simp add: set_last_domain_def)

lemma quiet_domain: "quiet s t \<Longrightarrow> quiet s (set_last_domain d t)"
  unfolding quiet_def by (metis set_last_domain_twice)

lemma quiet_frame:
  assumes "quiet s t"
  shows "peek_word t = peek_word s" "is_XScale t = is_XScale s"
    "translation_table_base (mmu t) = translation_table_base (mmu s)"
  using assms
  by (auto simp: quiet_def same_memory_def set_last_domain_def fun_eq_iff peek_word_def bank_no_def
      word_no_def)

lemma quiet_mapped: "quiet s t \<Longrightarrow> mapped t = mapped s"
  by (simp add: mapped_def quiet_frame)

section \<open>The walk computes the mapping\<close>

lemma read_word_ram:
  assumes "ram_ok s a" "stack_depth env \<noteq> 0"
  obtains t where "mem_read_word env (stack_depth env) s a = Inr (peek_word s a, t)" "same_memory s t"
proof -
  obtain n where "stack_depth env = Suc n" using assms(2) by (metis not0_implies_Suc)
  then show thesis using mem_read_ram(1) [OF assms(1), of env n] that by auto
qed

lemma l2_result_quiet:
  assumes "same_memory s t"
  shows "\<exists>u. l2_result l1 e t = (e, u) \<and> quiet s u"
  using assms by (cases e) (auto simp: l2_result_def intro: same_memory_quiet quiet_domain)

lemma walk_tables_mapped:
  assumes "tables_in_ram s va" "stack_depth env \<noteq> 0"
  shows "\<exists>t. walk_tables env s va = Inr (mapped s va, t) \<and> quiet s t"
proof -
  let ?a = "l1_addr (translation_table_base (mmu s)) va"
  let ?d = "peek_word s ?a"
  have ok: "ram_ok s ?a" using assms(1) by (simp add: tables_in_ram_def Let_def)
  obtain t where t: "mem_read_word env (stack_depth env) s ?a = Inr (?d, t)" "same_memory s t"
    using read_word_ram [OF ok assms(2)] .
  note keep = same_memory_peek [OF t(2) ok]
  have xs: "is_XScale t = is_XScale s" using t(2) by (auto simp: same_memory_def)
  have second: "\<exists>u. mem_read_word env (stack_depth env) t b = Inr (peek_word s b, u) \<and> same_memory s u
      \<and> is_XScale u = is_XScale s"
    if "ram_ok s b" for b
  proof -
    have "ram_ok t b" using keep(4) that by simp
    then obtain u where "mem_read_word env (stack_depth env) t b = Inr (peek_word t b, u)" "same_memory t u"
      using read_word_ram [OF _ assms(2)] by blast
    then show ?thesis using keep(1) same_memory_trans [OF t(2)] xs by (auto simp: same_memory_def)
  qed
  consider "?d AND 3 = 0" | "?d AND 3 = 3" | "?d AND 3 = 1" | "?d AND 3 = 2"
    using and3_cases [of ?d] by blast
  then show ?thesis
  proof cases
    case 1
    then show ?thesis using t by (auto simp: walk_tables_def mapped_def table_entry_def intro: same_memory_quiet)
  next
    case 2
    then have "ram_ok s (fine_addr ?d va)" using assms(1) by (simp add: tables_in_ram_def Let_def)
    from second [OF this] obtain u where
      u: "mem_read_word env (stack_depth env) t (fine_addr ?d va) = Inr (peek_word s (fine_addr ?d va), u)"
        "same_memory s u" by blast
    then show ?thesis using 2 t l2_result_quiet [OF u(2)]
      by (simp add: walk_tables_def mapped_def table_entry_def Let_def)
  next
    case 3
    then have "ram_ok s (coarse_addr ?d va)" using assms(1) by (simp add: tables_in_ram_def Let_def)
    from second [OF this] obtain u where
      u: "mem_read_word env (stack_depth env) t (coarse_addr ?d va) = Inr (peek_word s (coarse_addr ?d va), u)"
        "same_memory s u" "is_XScale u = is_XScale s" by blast
    then show ?thesis using 3 t l2_result_quiet [OF u(2)]
      by (simp add: walk_tables_def mapped_def table_entry_def Let_def)
  next
    case 4
    then show ?thesis using t by (auto simp: walk_tables_def mapped_def table_entry_def intro: same_memory_quiet)
  qed
qed

section \<open>The buffer\<close>

lemma tlb_search_loop_iff:
  "case tlb_search_loop es va k of
     None \<Rightarrow> \<forall>e\<in>set es. \<not> tlb_match e va
   | Some i \<Rightarrow> k \<le> i \<and> i - k < length es \<and> tlb_match (es ! (i - k)) va
       \<and> (\<forall>j<i - k. \<not> tlb_match (es ! j) va)"
proof (induction es arbitrary: k)
  case (Cons e es)
  show ?case
  proof (cases "tlb_match e va")
    case True
    then show ?thesis by (simp add: tlb_match_def)
  next
    case False
    then have s: "tlb_search_loop (e # es) va k = tlb_search_loop es va (Suc k)"
      by (auto simp: tlb_match_def)
    show ?thesis
    proof (cases "tlb_search_loop es va (Suc k)")
      case None
      then show ?thesis using Cons.IH [of "Suc k"] False s by simp
    next
      case (Some i)
      then have i: "Suc k \<le> i" "i - Suc k < length es" "tlb_match (es ! (i - Suc k)) va"
          "\<forall>j<i - Suc k. \<not> tlb_match (es ! j) va"
        using Cons.IH [of "Suc k"] by auto
      have "i - k = Suc (i - Suc k)" using i(1) by simp
      then show ?thesis using i Some s False by (auto simp: less_Suc_eq_0_disj)
    qed
  qed
qed simp

lemma tlb_search_Some:
  "mmu_tlb_search t va = Some i \<Longrightarrow> i < length (tlb_entrys t) \<and> tlb_match (tlb_entrys t ! i) va"
  using tlb_search_loop_iff [of "tlb_entrys t" va 0] by (simp add: mmu_tlb_search_def)

lemma tlb_search_None:
  "mmu_tlb_search t va = None \<longleftrightarrow> (\<forall>e\<in>set (tlb_entrys t). \<not> tlb_match e va)"
proof
  show "mmu_tlb_search t va = None \<Longrightarrow> \<forall>e\<in>set (tlb_entrys t). \<not> tlb_match e va"
    using tlb_search_loop_iff [of "tlb_entrys t" va 0] by (simp add: mmu_tlb_search_def)
  show "\<forall>e\<in>set (tlb_entrys t). \<not> tlb_match e va \<Longrightarrow> mmu_tlb_search t va = None"
    using tlb_search_Some [of t va] by (cases "mmu_tlb_search t va") auto
qed

text \<open>
  The invariant of the buffer: the replacement counter is in range, every valid entry is what the
  tables say for every address it covers, and no address is covered twice.
\<close>

definition tlb_inv :: "'io ARMul_State \<Rightarrow> tlb_t \<Rightarrow> bool" where
  "tlb_inv s t \<longleftrightarrow> tlb_cycle t < length (tlb_entrys t)
     \<and> (\<forall>e\<in>set (tlb_entrys t). \<forall>va. tlb_match e va \<longrightarrow> mapped s va = Some e)
     \<and> (\<forall>i j va. i < length (tlb_entrys t) \<longrightarrow> j < length (tlb_entrys t) \<longrightarrow>
          tlb_match (tlb_entrys t ! i) va \<longrightarrow> tlb_match (tlb_entrys t ! j) va \<longrightarrow> i = j)"


lemma mapped_entry:
  assumes "mapped s va = Some e"
  shows "mapping e \<noteq> TLB_INVALID" "virt_addr e = va AND tlb_masks (mapping e)"
  using assms
  by (auto simp: mapped_def table_entry_def fine_entry_def coarse_entry_def section_entry_def
      mk_entry_def Let_def split: if_splits)

lemma mapped_match:
  assumes "mapped s va = Some e"
  shows "tlb_match e va' \<longleftrightarrow> va' AND tlb_masks (mapping e) = va AND tlb_masks (mapping e)"
  using mapped_entry [OF assms] by (simp add: tlb_match_def)

lemma tlb_inv_quiet: "quiet s s' \<Longrightarrow> tlb_inv s' t = tlb_inv s t"
  by (simp add: tlb_inv_def quiet_mapped)

lemma tlb_insert_inv:
  assumes inv: "tlb_inv s t" and reg: "tables_regular s" and e: "mapped s va = Some e"
    and miss: "mmu_tlb_search t va = None"
  defines "t' \<equiv> t\<lparr>tlb_entrys := (tlb_entrys t)[tlb_cycle t := e],
                    tlb_cycle := (tlb_cycle t + 1) mod length (tlb_entrys t)\<rparr>"
  shows "tlb_insert t e = Inr (tlb_cycle t, t')" "tlb_inv s t'"
    "tlb_cycle t < length (tlb_entrys t')" "tlb_entrys t' ! tlb_cycle t = e"
proof -
  let ?es = "tlb_entrys t" let ?c = "tlb_cycle t"
  have c: "?c < length ?es" using inv by (simp add: tlb_inv_def)
  show "tlb_insert t e = Inr (?c, t')" "?c < length (tlb_entrys t')" "tlb_entrys t' ! ?c = e"
    using c by (simp_all add: tlb_insert_def t'_def)
  have coh: "mapped s va' = Some f" if "f \<in> set ?es" "tlb_match f va'" for f va'
    using inv that by (simp add: tlb_inv_def)
  have new: "mapped s va' = Some e" if "tlb_match e va'" for va'
    using reg e that mapped_match [OF e] unfolding tables_regular_def by blast
  have apart: "\<not> tlb_match e va'" if "f \<in> set ?es" "tlb_match f va'" for f va'
  proof
    assume "tlb_match e va'"
    then have "f = e" using new coh [OF that] by simp
    then have "tlb_match f va" using mapped_match [OF e] by simp
    then show False using miss that(1) by (simp add: tlb_search_None)
  qed
  have "i = j" if ij: "i < length ?es" "j < length ?es" and
    m: "tlb_match (?es[?c := e] ! i) va'" "tlb_match (?es[?c := e] ! j) va'" for i j va'
  proof (cases "i = ?c \<or> j = ?c")
    case True
    then show ?thesis using ij m c apart [OF nth_mem] by (auto simp: nth_list_update split: if_splits)
  next
    case False
    then show ?thesis using ij m inv by (auto simp: tlb_inv_def nth_list_update)
  qed
  moreover have "mapped s va' = Some f" if "f \<in> set (?es[?c := e])" "tlb_match f va'" for f va'
    using that new coh set_update_subset_insert [of ?es ?c e] by blast
  moreover have "(?c + 1) mod length ?es < length ?es" using c by (intro mod_less_divisor) auto
  ultimately show "tlb_inv s t'"
    by (simp add: tlb_inv_def t'_def)
qed

lemma translate_hit_or_walk:
  assumes inv: "tlb_inv s t" and reg: "tables_regular s" and ram: "tables_in_ram s va"
    and "stack_depth env \<noteq> 0"
  shows "\<exists>f i t' s'. translate env s va t = Inr (f, i, t', s') \<and> quiet s s' \<and> tlb_inv s' t'
    \<and> (case mapped s va of
         None \<Rightarrow> f = PAGE_TRANSLATION_FAULT \<and> i = None \<and> t' = t
       | Some e \<Rightarrow> f = NO_FAULT \<and> (\<exists>k. i = Some k \<and> k < length (tlb_entrys t') \<and> tlb_entrys t' ! k = e)
           \<and> last_domain (mmu s') = domain e)"
proof (cases "mmu_tlb_search t va")
  case (Some k)
  let ?e = "tlb_entrys t ! k"
  have k: "k < length (tlb_entrys t)" "tlb_match ?e va" using tlb_search_Some [OF Some] by auto
  then have m: "mapped s va = Some ?e" using inv by (simp add: tlb_inv_def)
  have "cache_ok (mem s)" using ram by (simp add: tables_in_ram_def Let_def ram_ok_def)
  then have "same_memory s s" by (rule same_memory_refl)
  then have q: "quiet s (set_last_domain (domain ?e) s)" by (intro quiet_domain same_memory_quiet)
  have "translate env s va t = Inr (NO_FAULT, Some k, t, set_last_domain (domain ?e) s)"
    using Some by (simp add: translate_def)
  moreover have "last_domain (mmu (set_last_domain (domain ?e) s)) = domain ?e"
    by (simp add: set_last_domain_def)
  ultimately show ?thesis using q k m inv tlb_inv_quiet [OF q] by simp
next
  case None
  obtain s' where w: "walk_tables env s va = Inr (mapped s va, s')" "quiet s s'"
    using walk_tables_mapped [OF ram assms(4)] by blast
  show ?thesis
  proof (cases "mapped s va")
    case N: None
    then show ?thesis using None w inv tlb_inv_quiet [OF w(2)] by (simp add: translate_def)
  next
    case (Some e)
    note ins = tlb_insert_inv [OF inv reg Some None]
    have q: "quiet s (set_last_domain (domain e) s')" using w(2) by (rule quiet_domain)
    then show ?thesis using None w ins Some tlb_inv_quiet [OF q]
      by (simp add: translate_def) (simp add: set_last_domain_def)
  qed
qed

section \<open>A caching lookup\<close>

text \<open>
  The contract of a cache in front of a fixed function: a lookup answers what the function says,
  keeps the invariant and does not change the function. Its client is a sequence of lookups.
\<close>

locale caching_lookup =
  fixes lookup :: "'st \<Rightarrow> 'k \<Rightarrow> ('r \<times> 'st) sim"
    and spec :: "'st \<Rightarrow> 'k \<Rightarrow> 'r"
    and inv :: "'st \<Rightarrow> bool"
  assumes lookup_law:
    "inv st \<Longrightarrow> \<exists>st'. lookup st k = Inr (spec st k, st') \<and> inv st' \<and> spec st' = spec st"
begin

fun lookups :: "'st \<Rightarrow> 'k list \<Rightarrow> ('r list \<times> 'st) sim" where
  "lookups st [] = Inr ([], st)"
| "lookups st (k # ks) =
     bind_ok (lookup st k) (\<lambda>(r, st). bind_ok (lookups st ks) (\<lambda>(rs, st). Inr (r # rs, st)))"

lemma lookups_spec:
  "inv st \<Longrightarrow> \<exists>st'. lookups st ks = Inr (map (spec st) ks, st') \<and> inv st' \<and> spec st' = spec st"
proof (induction ks arbitrary: st)
  case (Cons k ks)
  obtain st1 where 1: "lookup st k = Inr (spec st k, st1)" "inv st1" "spec st1 = spec st"
    using lookup_law [OF Cons.prems] by blast
  obtain st2 where 2: "lookups st1 ks = Inr (map (spec st1) ks, st2)" "inv st2" "spec st2 = spec st1"
    using Cons.IH [OF 1(2)] by blast
  show ?case using 1 2 by simp
qed simp

end

text \<open>
  The lookup of the MMU: \<^verbatim>\<open>translate\<close> on the pair of the processor and the buffer, with the entry in
  place of its number.
\<close>

definition tlb_lookup ::
  "'io arm_env \<Rightarrow> 'io ARMul_State \<times> tlb_t \<Rightarrow> ARMword \<Rightarrow> (tlb_entry_t option \<times> 'io ARMul_State \<times> tlb_t) sim"
  where
  "tlb_lookup env st va =
     bind_ok (translate env (fst st) va (snd st))
       (\<lambda>(f, i, t, s). Inr (map_option (\<lambda>k. tlb_entrys t ! k) i, s, t))"

definition mmu_state_ok :: "'io arm_env \<Rightarrow> 'io ARMul_State \<times> tlb_t \<Rightarrow> bool" where
  "mmu_state_ok env st \<longleftrightarrow> tlb_inv (fst st) (snd st) \<and> tables_regular (fst st)
     \<and> (\<forall>va. tables_in_ram (fst st) va) \<and> stack_depth env \<noteq> 0"

lemma quiet_tables:
  assumes "quiet s t" "tables_in_ram s va"
  shows "tables_in_ram t va"
proof -
  have ok: "ram_ok s (l1_addr (translation_table_base (mmu s)) va)"
    using assms(2) by (simp add: tables_in_ram_def Let_def)
  obtain u d where u: "same_memory s u" "t = set_last_domain d u" using assms(1) by (auto simp: quiet_def)
  have "ram_ok t b = ram_ok u b" for b using u(2) by (simp add: ram_ok_def set_last_domain_def)
  then have "ram_ok t b = ram_ok s b" for b using same_memory_peek(4) [OF u(1) ok] by simp
  then show ?thesis using assms(2) quiet_frame [OF assms(1)] by (simp add: tables_in_ram_def)
qed

lemma quiet_regular: "quiet s t \<Longrightarrow> tables_regular t = tables_regular s"
  unfolding tables_regular_def by (simp only: quiet_mapped)

lemma tlb_lookup_mapped:
  assumes "mmu_state_ok env st"
  shows "\<exists>st'. tlb_lookup env st va = Inr (mapped (fst st) va, st') \<and> mmu_state_ok env st'
    \<and> mapped (fst st') = mapped (fst st)"
proof -
  obtain s t where st: "st = (s, t)" by fastforce
  obtain f i t' s' where tr: "translate env s va t = Inr (f, i, t', s')" "quiet s s'" "tlb_inv s' t'"
    and c: "case mapped s va of
         None \<Rightarrow> f = PAGE_TRANSLATION_FAULT \<and> i = None \<and> t' = t
       | Some e \<Rightarrow> f = NO_FAULT \<and> (\<exists>k. i = Some k \<and> k < length (tlb_entrys t') \<and> tlb_entrys t' ! k = e)
           \<and> last_domain (mmu s') = domain e"
    using translate_hit_or_walk [of s t va env] assms by (auto simp: mmu_state_ok_def st)
  have "map_option (\<lambda>k. tlb_entrys t' ! k) i = mapped s va"
    using c by (auto split: option.splits)
  moreover have "mmu_state_ok env (s', t')"
    using assms tr quiet_regular [OF tr(2)] quiet_tables [OF tr(2)]
    by (simp add: mmu_state_ok_def st)
  ultimately show ?thesis using tr quiet_mapped [OF tr(2)] by (simp add: tlb_lookup_def st)
qed

interpretation mmu_tlb: caching_lookup "tlb_lookup env" "\<lambda>st. mapped (fst st)" "mmu_state_ok env"
  by unfold_locales (rule tlb_lookup_mapped)

section \<open>A concrete address space\<close>

text \<open>
  Every word of the RAM is the section descriptor \<open>0xC02\<close>, so every megabyte of the address space
  is a section mapped to physical address 0.
\<close>

definition vm_state :: "unit ARMul_State" where
  "vm_state = demo_state\<lparr>mem := demo_mem\<lparr>rom := (\<lambda>_ _. 0xC02)\<rparr>,
     mmu := mmu_zero\<lparr>control := 1, domain_access_control := 1\<rparr>\<rparr>"

definition vm_tlb :: tlb_t where
  "vm_tlb = mmu_tlb_init \<lparr>virt_addr = 0, phys_addr = 0, perms = 0, domain = 0, mapping = TLB_INVALID\<rparr> 4"

lemma vm_ram_ok: "a < 0x100000 \<Longrightarrow> ram_ok vm_state a"
  using demo_ram_ok [of a]
  by (simp add: ram_ok_def vm_state_def demo_state_def ram_bank_def bank_no_def cache_ok_def
      split: option.splits)

lemma vm_mapped: "mapped vm_state va = Some (section_entry va 0xC02)"
  by (simp add: mapped_def table_entry_def peek_word_def vm_state_def)

lemma l1_addr_0: "l1_addr 0 va < 0x4000"
proof -
  have "l1_addr 0 va \<le> drop_bit 18 va" by (simp add: l1_addr_def word_and_le2)
  also have "\<dots> < 0x4000"
  proof -
    have "unat va < 2 ^ 32" using unsigned_less [of va] by simp
    then show ?thesis unfolding word_less_nat_alt unsigned_drop_bit_eq
      by (simp add: drop_bit_eq_div take_bit_nat_eq_self)
  qed
  finally show ?thesis .
qed

lemma vm_tables: "tables_in_ram vm_state va" "tables_regular vm_state"
proof -
  have "ram_ok vm_state (l1_addr 0 va)" using l1_addr_0 [of va] by (intro vm_ram_ok) (auto intro: less_trans)
  then show "tables_in_ram vm_state va"
    by (simp add: tables_in_ram_def Let_def) (simp add: vm_state_def mmu_zero_def peek_word_def)
  show "tables_regular vm_state"
    by (simp add: tables_regular_def vm_mapped) (simp add: section_entry_def mk_entry_def)
qed

lemma init_tlb_inv: "0 < num \<Longrightarrow> tlb_inv s (mmu_tlb_init junk num)"
  by (auto simp: tlb_inv_def mmu_tlb_init_def tlb_match_def)

lemma vm_ok: "mmu_state_ok bare_env (vm_state, vm_tlb)"
  using vm_tables by (simp add: mmu_state_ok_def vm_tlb_def init_tlb_inv bare_env_def)


section \<open>The claims on the buffer\<close>

text \<open>
  C6: the buffer is transparent. With a coherent buffer and regular tables in RAM, \<^verbatim>\<open>translate\<close>
  always returns, with the entry the tables have for the address or with a page translation fault
  when they have none, and it keeps the buffer coherent and the memory as it is.
\<close>

theorem translate_refines_tables:
  assumes "tlb_inv s t" "tables_regular s" "tables_in_ram s va" "stack_depth env \<noteq> 0"
  shows "\<exists>f i t' s'. translate env s va t = Inr (f, i, t', s') \<and> quiet s s' \<and> tlb_inv s' t'
    \<and> (case mapped s va of
         None \<Rightarrow> f = PAGE_TRANSLATION_FAULT \<and> i = None \<and> t' = t
       | Some e \<Rightarrow> f = NO_FAULT \<and> (\<exists>k. i = Some k \<and> k < length (tlb_entrys t') \<and> tlb_entrys t' ! k = e)
           \<and> last_domain (mmu s') = domain e)"
  by (rule translate_hit_or_walk [OF assms])

theorem translate_refines_tables_witness:
  "\<exists>f i t' s'. translate bare_env vm_state 0x12345678 vm_tlb = Inr (f, i, t', s') \<and> quiet vm_state s'
    \<and> tlb_inv s' t'
    \<and> (case mapped vm_state 0x12345678 of
         None \<Rightarrow> f = PAGE_TRANSLATION_FAULT \<and> i = None \<and> t' = vm_tlb
       | Some e \<Rightarrow> f = NO_FAULT \<and> (\<exists>k. i = Some k \<and> k < length (tlb_entrys t') \<and> tlb_entrys t' ! k = e)
           \<and> last_domain (mmu s') = domain e)"
  by (rule translate_refines_tables) (simp_all add: vm_tables vm_tlb_def init_tlb_inv bare_env_def)

text \<open>
  Translation does not depend on history. After any sequence of translations, the translation
  of an address still gives the entry that the tables have for it.
\<close>

lemma translation_history_independent:
  assumes "mmu_state_ok env st"
  shows "\<exists>rs st' st''. mmu_tlb.lookups env st vas = Inr (rs, st')
    \<and> tlb_lookup env st' va = Inr (mapped (fst st) va, st'')"
proof -
  obtain st' where 1: "mmu_tlb.lookups env st vas = Inr (map (mapped (fst st)) vas, st')"
      "mmu_state_ok env st'" "mapped (fst st') = mapped (fst st)"
    using mmu_tlb.lookups_spec [OF assms] by blast
  then obtain st'' where "tlb_lookup env st' va = Inr (mapped (fst st') va, st'')"
    using tlb_lookup_mapped [OF 1(2)] by blast
  then show ?thesis using 1 by auto
qed

lemma translation_history_independent_witness:
  "\<exists>rs st' st''. mmu_tlb.lookups bare_env (vm_state, vm_tlb) [0, 0x100000, 0x200000] = Inr (rs, st')
    \<and> tlb_lookup bare_env st' 0x345678 = Inr (mapped (fst (vm_state, vm_tlb)) 0x345678, st'')"
  by (rule translation_history_independent [OF vm_ok])

lemma invalidate_all_miss: "mmu_tlb_search (mmu_tlb_invalidate_all t) va = None"
  by (simp add: tlb_search_None mmu_tlb_invalidate_all_def tlb_match_def)

lemma tlb_search_unique:
  assumes "tlb_inv s t" "i < length (tlb_entrys t)" "tlb_match (tlb_entrys t ! i) va"
  shows "mmu_tlb_search t va = Some i"
proof (cases "mmu_tlb_search t va")
  case None
  then show ?thesis using assms by (simp add: tlb_search_None)
next
  case (Some j)
  then show ?thesis using tlb_search_Some [OF Some] assms by (auto simp: tlb_inv_def)
qed

lemma tlb_inv_shrink:
  assumes inv: "tlb_inv s t" and len: "length (tlb_entrys t') = length (tlb_entrys t)"
    and cyc: "tlb_cycle t' < length (tlb_entrys t')"
    and sub: "\<And>j v. j < length (tlb_entrys t) \<Longrightarrow> tlb_match (tlb_entrys t' ! j) v \<Longrightarrow>
      tlb_match (tlb_entrys t ! j) v \<and> tlb_entrys t' ! j = tlb_entrys t ! j"
  shows "tlb_inv s t'"
proof -
  have "mapped s v = Some e" if e: "e \<in> set (tlb_entrys t')" and m: "tlb_match e v" for e v
  proof -
    obtain j where j: "j < length (tlb_entrys t)" "e = tlb_entrys t' ! j"
      using e len by (auto simp: in_set_conv_nth)
    then have "tlb_match (tlb_entrys t ! j) v" "e = tlb_entrys t ! j" using sub m by auto
    then show ?thesis using inv j(1) by (simp add: tlb_inv_def)
  qed
  moreover have "i = j" if "i < length (tlb_entrys t')" "j < length (tlb_entrys t')"
      "tlb_match (tlb_entrys t' ! i) v" "tlb_match (tlb_entrys t' ! j) v" for i j v
    using that sub len inv unfolding tlb_inv_def by metis
  ultimately show ?thesis using cyc unfolding tlb_inv_def by blast
qed

lemma invalidate_entry_search:
  assumes inv: "tlb_inv s t"
  shows "mmu_tlb_search (mmu_tlb_invalidate_entry t a) va =
    (if mmu_tlb_search t va = mmu_tlb_search t a then None else mmu_tlb_search t va)"
proof (cases "mmu_tlb_search t a")
  case None
  then show ?thesis by (simp add: mmu_tlb_invalidate_entry_def)
next
  case (Some i)
  let ?e = "(tlb_entrys t ! i)\<lparr>mapping := TLB_INVALID\<rparr>"
  let ?t = "t\<lparr>tlb_entrys := (tlb_entrys t)[i := ?e]\<rparr>"
  have i: "i < length (tlb_entrys t)" using tlb_search_Some [OF Some] by simp
  have t: "mmu_tlb_invalidate_entry t a = ?t" using Some by (simp add: mmu_tlb_invalidate_entry_def)
  have m: "tlb_match (tlb_entrys ?t ! j) v \<longleftrightarrow> j \<noteq> i \<and> tlb_match (tlb_entrys t ! j) v"
    if "j < length (tlb_entrys t)" for j v
    using that i by (auto simp: nth_list_update tlb_match_def)
  have inv': "tlb_inv s ?t"
    by (rule tlb_inv_shrink [OF inv]) (use m inv in \<open>auto simp: tlb_inv_def\<close>)
  show ?thesis
  proof (cases "mmu_tlb_search t va")
    case N: None
    then have "mmu_tlb_search ?t va = None"
      using m by (auto simp: tlb_search_None all_set_conv_all_nth)
    then show ?thesis using N Some t by simp
  next
    case S: (Some j)
    have j: "j < length (tlb_entrys t)" "tlb_match (tlb_entrys t ! j) va"
      using tlb_search_Some [OF S] by auto
    show ?thesis
    proof (cases "j = i")
      case True
      have "\<not> tlb_match (tlb_entrys ?t ! k) va" if "k < length (tlb_entrys ?t)" for k
        using m [of k] that j True inv i unfolding tlb_inv_def by auto
      then have "mmu_tlb_search ?t va = None" by (auto simp: tlb_search_None all_set_conv_all_nth)
      then show ?thesis using S Some True t by simp
    next
      case False
      then have "mmu_tlb_search ?t va = Some j"
        using tlb_search_unique [OF inv', of j va] m [OF j(1)] j by simp
      then show ?thesis using S Some False t by simp
    qed
  qed
qed

text \<open>
  Invalidation. After \<^verbatim>\<open>mmu_tlb_invalidate_all\<close> no address hits and the buffer is coherent with
  whatever the tables have become; after \<^verbatim>\<open>mmu_tlb_invalidate_entry\<close> on a coherent buffer the
  address misses and every address that was in another entry still hits.
\<close>

lemma invalidation_correct:
  assumes "tlb_inv s t"
  shows "mmu_tlb_search (mmu_tlb_invalidate_all t) va = None
    \<and> tlb_inv s' (mmu_tlb_invalidate_all t)
    \<and> mmu_tlb_search (mmu_tlb_invalidate_entry t a) va =
      (if mmu_tlb_search t va = mmu_tlb_search t a then None else mmu_tlb_search t va)"
proof -
  have "tlb_entrys t \<noteq> []" using assms by (auto simp: tlb_inv_def)
  then have "tlb_inv s' (mmu_tlb_invalidate_all t)"
    by (auto simp: tlb_inv_def mmu_tlb_invalidate_all_def tlb_match_def)
  then show ?thesis using invalidate_all_miss invalidate_entry_search [OF assms] by simp
qed

lemma invalidation_correct_witness:
  "mmu_tlb_search (mmu_tlb_invalidate_all vm_tlb) 0x1000 = None
    \<and> tlb_inv demo_state (mmu_tlb_invalidate_all vm_tlb)
    \<and> mmu_tlb_search (mmu_tlb_invalidate_entry vm_tlb 0x2000) 0x1000 =
      (if mmu_tlb_search vm_tlb 0x1000 = mmu_tlb_search vm_tlb 0x2000 then None
       else mmu_tlb_search vm_tlb 0x1000)"
  by (rule invalidation_correct [of vm_state]) (simp add: vm_tlb_def init_tlb_inv)

text \<open>
  A user-mode write passes the permission check only in a manager domain, or in a client domain
  where the access permissions of the subpage grant full access; every other write faults.
\<close>

lemma user_write_needs_permission:
  assumes "Mode s = USER32MODE" "check_access s va e False = Inr (f, s')"
  shows "f = NO_FAULT \<longleftrightarrow>
    (let access = drop_bit (unat (domain e * 2)) (domain_access_control (mmu s)) AND 3
     in access = 3 \<or> access = 1 \<and> (\<exists>sp. subpage_of (mapping e) va = Inr sp
          \<and> drop_bit (unat (sp * 2 + 4)) (perms e) AND 3 = 3))"
  using assms and3_cases [of "drop_bit (unat (domain e * 2)) (domain_access_control (mmu s))"]
  by (auto simp: check_access_def check_perms_def set_last_domain_def Let_def bind_ok_Inr_iff
      split: if_splits)

lemma user_write_needs_permission_witness:
  "SECTION_PERMISSION_FAULT = NO_FAULT \<longleftrightarrow>
    (let access = drop_bit (unat (domain (section_entry 0 0x402) * 2))
         (domain_access_control (mmu (vm_state\<lparr>Mode := USER32MODE\<rparr>))) AND 3
     in access = 3 \<or> access = 1 \<and> (\<exists>sp. subpage_of (mapping (section_entry 0 0x402)) 0 = Inr sp
          \<and> drop_bit (unat (sp * 2 + 4)) (perms (section_entry 0 0x402)) AND 3 = 3))"
  by (rule user_write_needs_permission [of _ _ _ _ "set_last_domain 0 (vm_state\<lparr>Mode := USER32MODE\<rparr>)"])
    (simp_all add: check_access_def check_perms_def set_last_domain_def section_entry_def mk_entry_def
      domain_of_def vm_state_def mmu_zero_def)


end
