(* ===== verification/Mmu_Cache.thy ===== *)
theory Mmu_Cache
  imports Arm_Mem
begin

text \<open>
  The set-associative cache of \<^verbatim>\<open>arch/arm/common/mmu/cache.c\<close>: search by address and by set and index,
  allocation with round-robin replacement and write-back of the victim, write-back of the dirty
  halves of a line, and the cleaning and invalidating operations that the system control
  coprocessor calls. A line is named by its set and its way.
\<close>

section \<open>The model\<close>

abbreviation (input) TAG_VALID_FLAG :: ARMword where "TAG_VALID_FLAG \<equiv> 1"
abbreviation (input) TAG_FIRST_HALF_DIRTY :: ARMword where "TAG_FIRST_HALF_DIRTY \<equiv> 2"
abbreviation (input) TAG_LAST_HALF_DIRTY :: ARMword where "TAG_LAST_HALF_DIRTY \<equiv> 4"

definition va_cache_set :: "ARMword \<Rightarrow> cache_t \<Rightarrow> nat" where
  "va_cache_set va c = unat ((va div c_width c) AND (c_set c - 1))"

definition va_cache_align :: "ARMword \<Rightarrow> cache_t \<Rightarrow> ARMword" where
  "va_cache_align va c = va AND NOT (c_width c - 1)"

definition va_cache_index :: "ARMword \<Rightarrow> cache_t \<Rightarrow> nat" where
  "va_cache_index va c = unat (drop_bit 2 (va AND (c_width c - 1)))"

definition line_at :: "cache_t \<Rightarrow> nat \<Rightarrow> nat \<Rightarrow> cache_line_t" where
  "line_at c st w = cs_lines (c_sets c ! st) ! w"

definition put_line :: "cache_t \<Rightarrow> nat \<Rightarrow> nat \<Rightarrow> cache_line_t \<Rightarrow> cache_t" where
  "put_line c st w l =
     c\<lparr>c_sets := (c_sets c)[st := (c_sets c ! st)\<lparr>cs_lines := (cs_lines (c_sets c ! st))[w := l]\<rparr>]\<rparr>"

text \<open>\<^verbatim>\<open>malloc\<close> leaves addresses and data of the lines undefined; \<open>junk\<close> stands for them.\<close>

definition mmu_cache_init :: "cache_line_t \<Rightarrow> ARMword \<Rightarrow> nat \<Rightarrow> ARMword \<Rightarrow> w_mode_t \<Rightarrow> cache_t" where
  "mmu_cache_init junk width way st w_mode =
     \<lparr>c_width = width, c_way = way, c_set = st, c_w_mode = w_mode,
      c_sets = replicate (unat st)
        \<lparr>cs_lines = replicate way (junk\<lparr>tag := 0, cl_data := replicate (unat (drop_bit 2 width)) 0\<rparr>),
         cs_cycle = 0\<rparr>\<rparr>"

definition line_hit :: "cache_t \<Rightarrow> ARMword \<Rightarrow> cache_line_t \<Rightarrow> bool" where
  "line_hit c va l \<longleftrightarrow> tag l AND TAG_VALID_FLAG \<noteq> 0 \<and> va_cache_align va c = va_cache_align (tag l) c"

fun cache_search_loop :: "(cache_line_t \<Rightarrow> bool) \<Rightarrow> cache_line_t list \<Rightarrow> nat \<Rightarrow> nat option" where
  "cache_search_loop P [] i = None"
| "cache_search_loop P (l # ls) i = (if P l then Some i else cache_search_loop P ls (Suc i))"

definition mmu_cache_search :: "cache_t \<Rightarrow> ARMword \<Rightarrow> (nat \<times> nat) option" where
  "mmu_cache_search c va =
     (let st = va_cache_set va c
      in map_option (Pair st)
           (cache_search_loop (line_hit c va) (take (c_way c) (cs_lines (c_sets c ! st))) 0))"

text \<open>The loop \<^verbatim>\<open>while ((way >>= 1) >= 1) i++\<close>.\<close>

fun count_shifts :: "nat \<Rightarrow> nat" where
  "count_shifts way = (if way div 2 \<ge> 1 then Suc (count_shifts (way div 2)) else 0)"

declare count_shifts.simps [simp del]

definition mmu_cache_search_by_index :: "cache_t \<Rightarrow> ARMword \<Rightarrow> nat \<times> nat" where
  "mmu_cache_search_by_index c index =
     (va_cache_set index c, unat (drop_bit (32 - count_shifts (c_way c)) index))"

subsection \<open>Write-back\<close>

fun write_words :: "'io arm_env \<Rightarrow> 'io ARMul_State \<Rightarrow> ARMword \<Rightarrow> ARMword list \<Rightarrow> 'io ARMul_State sim" where
  "write_words env s pa [] = Inr s"
| "write_words env s pa (d # ds) =
     bind_ok (mem_write_word env (stack_depth env) s pa d) (\<lambda>t. write_words env t (pa + 4) ds)"

text \<open>The part of a line that \<^verbatim>\<open>mmu_cache_write_back\<close> writes: its address and its words.\<close>

definition dirty_part :: "cache_t \<Rightarrow> cache_line_t \<Rightarrow> (ARMword \<times> ARMword list) option" where
  "dirty_part c l =
     (let nw = unat (drop_bit 2 (c_width c));
          dirty = tag l AND NOT 1 AND (TAG_FIRST_HALF_DIRTY OR TAG_LAST_HALF_DIRTY)
      in if tag l AND 1 = 0 then None
         else if dirty = 0 then None
         else if dirty = TAG_FIRST_HALF_DIRTY then Some (cl_pa l, take (nw div 2) (cl_data l))
         else if dirty = TAG_LAST_HALF_DIRTY
         then Some (cl_pa l + of_nat (nw div 2 * 4), take (nw div 2) (drop (nw div 2) (cl_data l)))
         else Some (cl_pa l, take nw (cl_data l)))"

definition mmu_cache_write_back ::
  "'io arm_env \<Rightarrow> 'io ARMul_State \<Rightarrow> cache_t \<Rightarrow> cache_line_t \<Rightarrow> ('io ARMul_State \<times> cache_line_t) sim" where
  "mmu_cache_write_back env s c l =
     (case dirty_part c l of
        None \<Rightarrow> Inr (s, l)
      | Some (pa, ds) \<Rightarrow>
          bind_ok (write_words env s pa ds)
            (\<lambda>t. Inr (t, l\<lparr>tag := tag l AND NOT (TAG_FIRST_HALF_DIRTY OR TAG_LAST_HALF_DIRTY)\<rparr>)))"

subsection \<open>Allocation\<close>

fun read_words ::
  "'io arm_env \<Rightarrow> 'io ARMul_State \<Rightarrow> ARMword \<Rightarrow> nat \<Rightarrow> (ARMword list \<times> 'io ARMul_State) sim" where
  "read_words env s pa 0 = Inr ([], s)"
| "read_words env s pa (Suc n) =
     bind_ok (mem_read_word env (stack_depth env) s pa) (\<lambda>(d, t).
       bind_ok (read_words env t (pa + 4) n) (\<lambda>(ds, u). Inr (d # ds, u)))"

definition fill_line ::
  "'io arm_env \<Rightarrow> 'io ARMul_State \<Rightarrow> cache_t \<Rightarrow> ARMword \<Rightarrow> cache_line_t \<Rightarrow> ('io ARMul_State \<times> cache_line_t) sim"
  where
  "fill_line env s c pa l =
     (if c_w_mode c = CACHE_WRITE_BACK
      then bind_ok (if tag l AND TAG_VALID_FLAG \<noteq> 0 then mmu_cache_write_back env s c l else Inr (s, l))
             (\<lambda>(s, l). bind_ok (read_words env s pa (unat (drop_bit 2 (c_width c))))
                (\<lambda>(ds, s). Inr (s, l\<lparr>cl_data := ds\<rparr>)))
      else Inr (s, l))"

definition mmu_cache_alloc ::
  "'io arm_env \<Rightarrow> 'io ARMul_State \<Rightarrow> cache_t \<Rightarrow> ARMword \<Rightarrow> ARMword
     \<Rightarrow> ((nat \<times> nat) \<times> 'io ARMul_State \<times> cache_t) sim" where
  "mmu_cache_alloc env s c va pa =
     (let va = va_cache_align va c;
          pa = va_cache_align pa c;
          st = va_cache_set va c;
          cset = c_sets c ! st;
          w = cs_cycle cset;
          cyc = (if Suc w = c_way c then 0 else Suc w);
          c = c\<lparr>c_sets := (c_sets c)[st := cset\<lparr>cs_cycle := cyc\<rparr>]\<rparr>
      in if st < length (c_sets c) \<and> w < length (cs_lines cset)
         then bind_ok (fill_line env s c pa (cs_lines cset ! w)) (\<lambda>(s, l).
                Inr ((st, w), s, put_line c st w (l\<lparr>tag := va OR TAG_VALID_FLAG, cl_pa := pa\<rparr>)))
         else Inl OutOfBounds)"

subsection \<open>Cleaning and invalidation\<close>

text \<open>Write one line back and, if \<open>clr\<close>, clear its tag: the body that all these operations share.\<close>

definition flush_line ::
  "'io arm_env \<Rightarrow> bool \<Rightarrow> 'io ARMul_State \<Rightarrow> cache_t \<Rightarrow> nat \<times> nat \<Rightarrow> ('io ARMul_State \<times> cache_t) sim" where
  "flush_line env clr s c sw =
     (if fst sw < length (c_sets c) \<and> snd sw < length (cs_lines (c_sets c ! fst sw))
      then bind_ok (mmu_cache_write_back env s c (line_at c (fst sw) (snd sw)))
             (\<lambda>(s, l). Inr (s, put_line c (fst sw) (snd sw) (if clr then l\<lparr>tag := 0\<rparr> else l)))
      else Inl OutOfBounds)"

definition mmu_cache_clean ::
  "'io arm_env \<Rightarrow> 'io ARMul_State \<Rightarrow> cache_t \<Rightarrow> ARMword \<Rightarrow> ('io ARMul_State \<times> cache_t) sim" where
  "mmu_cache_clean env s c va =
     (case mmu_cache_search c va of None \<Rightarrow> Inr (s, c) | Some sw \<Rightarrow> flush_line env False s c sw)"

definition mmu_cache_clean_by_index ::
  "'io arm_env \<Rightarrow> 'io ARMul_State \<Rightarrow> cache_t \<Rightarrow> ARMword \<Rightarrow> ('io ARMul_State \<times> cache_t) sim" where
  "mmu_cache_clean_by_index env s c index = flush_line env False s c (mmu_cache_search_by_index c index)"

definition mmu_cache_invalidate ::
  "'io arm_env \<Rightarrow> 'io ARMul_State \<Rightarrow> cache_t \<Rightarrow> ARMword \<Rightarrow> ('io ARMul_State \<times> cache_t) sim" where
  "mmu_cache_invalidate env s c va =
     (case mmu_cache_search c va of None \<Rightarrow> Inr (s, c) | Some sw \<Rightarrow> flush_line env True s c sw)"

definition mmu_cache_invalidate_by_index ::
  "'io arm_env \<Rightarrow> 'io ARMul_State \<Rightarrow> cache_t \<Rightarrow> ARMword \<Rightarrow> ('io ARMul_State \<times> cache_t) sim" where
  "mmu_cache_invalidate_by_index env s c index = flush_line env True s c (mmu_cache_search_by_index c index)"

fun flush_lines ::
  "'io arm_env \<Rightarrow> 'io ARMul_State \<Rightarrow> cache_t \<Rightarrow> (nat \<times> nat) list \<Rightarrow> ('io ARMul_State \<times> cache_t) sim" where
  "flush_lines env s c [] = Inr (s, c)"
| "flush_lines env s c (sw # sws) =
     bind_ok (flush_line env True s c sw) (\<lambda>(s, c). flush_lines env s c sws)"

definition mmu_cache_invalidate_all ::
  "'io arm_env \<Rightarrow> 'io ARMul_State \<Rightarrow> cache_t \<Rightarrow> ('io ARMul_State \<times> cache_t) sim" where
  "mmu_cache_invalidate_all env s c =
     flush_lines env s c (List.product [0..<unat (c_set c)] [0..<c_way c])"

definition mmu_cache_soft_flush ::
  "'io arm_env \<Rightarrow> 'io ARMul_State \<Rightarrow> cache_t \<Rightarrow> ARMword \<Rightarrow> ('io ARMul_State \<times> cache_t) sim" where
  "mmu_cache_soft_flush env s c pa =
     (let pa = pa div c_width c;
          w = unat (pa AND (of_nat (c_way c) - 1));
          st = unat ((pa div of_nat (c_way c)) AND (c_set c - 1))
      in flush_line env True s c (st, w))"

section \<open>Blocks of words\<close>

definition word_addrs :: "ARMword \<Rightarrow> nat \<Rightarrow> ARMword list" where
  "word_addrs pa n = map (\<lambda>i. pa + 4 * of_nat i) [0..<n]"

lemma word_addrs_Suc: "word_addrs pa (Suc n) = pa # word_addrs (pa + 4) n"
  by (simp add: word_addrs_def upt_conv_Cons map_Suc_upt [symmetric] algebra_simps del: upt_Suc)

lemma write_words_list:
  assumes "stack_depth env = Suc n"
  shows "write_words env s pa ds = ram_word.write_list env n s (zip (word_addrs pa (length ds)) ds)"
proof (induction ds arbitrary: s pa)
  case (Cons d ds)
  show ?case by (simp add: word_addrs_Suc assms Cons.IH del: mem_write_word.simps)
qed (simp add: word_addrs_def)

lemma read_words_list:
  assumes "stack_depth env = Suc n"
  shows "read_words env s pa k = ram_word.read_list env n s (word_addrs pa k)"
proof (induction k arbitrary: s pa)
  case (Suc k)
  show ?case by (simp add: word_addrs_Suc assms Suc.IH del: mem_read_word.simps)
qed (simp add: word_addrs_def)

lemma word_addrs_distinct:
  assumes "n \<le> 2 ^ 30" "i < j" "j < n"
  shows "drop_bit 2 (word_addrs pa n ! i) \<noteq> drop_bit 2 (word_addrs pa n ! j)"
proof
  assume eq: "drop_bit 2 (word_addrs pa n ! i) = drop_bit 2 (word_addrs pa n ! j)"
  have v: "word_addrs pa n ! k = pa + of_nat (4 * k)" if "k < n" for k
    using that by (simp add: word_addrs_def)
  define p where "p = unat pa"
  have p: "p < 2 ^ 32" using unsigned_less [of pa] by (simp add: p_def)
  have u: "unat (word_addrs pa n ! k) = (p + 4 * k) mod 2 ^ 32" if "k < n" for k
    using that v [OF that] by (simp add: unat_word_ariths unat_of_nat p_def mod_simps)
  have d: "(p + 4 * k) mod 2 ^ 32 div 4 = (p div 4 + k) mod 2 ^ 30" for k
  proof -
    have "(p + 4 * k) mod (4 * 2 ^ 30) = 4 * ((p + 4 * k) div 4 mod 2 ^ 30) + (p + 4 * k) mod 4"
      by (rule mod_mult2_eq)
    then show ?thesis by (simp add: add.commute)
  qed
  from eq have "(p div 4 + i) mod 2 ^ 30 = (p div 4 + j) mod 2 ^ 30"
    using u [of i] u [of j] assms d [of i] d [of j] unfolding word_drop2_eq by simp
  moreover have "p div 4 < 2 ^ 30" using p by simp
  moreover have "j < 2 ^ 30" "i < j" using assms by simp_all
  ultimately show False by (simp add: mod_if split: if_splits)
qed

lemma words_roundtrip:
  assumes ok: "\<forall>i<length ds. ram_ok s (pa + 4 * of_nat i)" and "length ds \<le> 2 ^ 30"
    and depth: "stack_depth env \<noteq> 0"
  shows "\<exists>t u. write_words env s pa ds = Inr t \<and> read_words env t pa (length ds) = Inr (ds, u)"
proof -
  obtain n where n: "stack_depth env = Suc n" using depth by (metis not0_implies_Suc)
  let ?avs = "zip (word_addrs pa (length ds)) ds"
  have len: "length (word_addrs pa k) = k" for k by (simp add: word_addrs_def)
  have 1: "\<forall>p\<in>set ?avs. ram_ok s (fst p)"
    using ok by (auto simp: set_zip word_addrs_def)
  have 2: "sorted_wrt (\<lambda>p q. \<not> drop_bit 2 (fst p) = drop_bit 2 (fst q)) ?avs"
    using word_addrs_distinct [OF assms(2)] by (auto simp: sorted_wrt_iff_nth_less len)
  show ?thesis
    using ram_word.block_roundtrip [OF 1 2, of env n] len
    by (simp add: write_words_list [OF n] read_words_list [OF n] map_fst_zip map_snd_zip comp_def)
qed

section \<open>Invalidation\<close>

definition cache_shape :: "cache_t \<Rightarrow> bool" where
  "cache_shape c \<longleftrightarrow> length (c_sets c) = unat (c_set c)
     \<and> (\<forall>st\<in>set (c_sets c). length (cs_lines st) = c_way c)"

lemma put_line_simps [simp]:
  "c_set (put_line c st w l) = c_set c" "c_way (put_line c st w l) = c_way c"
  "c_width (put_line c st w l) = c_width c" "c_w_mode (put_line c st w l) = c_w_mode c"
  by (simp_all add: put_line_def)

lemma put_line_shape:
  "cache_shape c \<Longrightarrow> cache_shape (put_line c st w l)"
proof (cases "st < length (c_sets c)")
  case True
  then show "cache_shape c \<Longrightarrow> cache_shape (put_line c st w l)"
    by (auto simp: cache_shape_def put_line_def dest!: set_update_subset_insert [THEN subsetD])
qed (simp add: cache_shape_def put_line_def list_update_beyond)

lemma line_at_put:
  assumes "cache_shape c" "st < unat (c_set c)" "w < c_way c" "st' < unat (c_set c)"
  shows "line_at (put_line c st w l) st' w' = (if st' = st \<and> w' = w then l else line_at c st' w')"
  using assms by (auto simp: line_at_def put_line_def cache_shape_def nth_list_update)

lemma flush_line_tags:
  assumes "cache_shape c" "flush_line env True s c (st, w) = Inr (s', c')"
  shows "cache_shape c' \<and> c_set c' = c_set c \<and> c_way c' = c_way c \<and> st < unat (c_set c) \<and> w < c_way c
    \<and> (\<forall>st' w'. st' < unat (c_set c) \<longrightarrow>
         tag (line_at c' st' w') = (if st' = st \<and> w' = w then 0 else tag (line_at c st' w')))"
proof -
  have g: "st < length (c_sets c)" "w < length (cs_lines (c_sets c ! st))"
    using assms(2) by (auto simp: flush_line_def split: if_splits)
  then have b: "st < unat (c_set c)" "w < c_way c" using assms(1) by (auto simp: cache_shape_def)
  obtain l where "c' = put_line c st w (l\<lparr>tag := 0\<rparr>)"
    using assms(2) g by (auto simp: flush_line_def bind_ok_Inr_iff)
  then show ?thesis using b line_at_put [OF assms(1) b] put_line_shape [OF assms(1)] by auto
qed

lemma flush_lines_tags:
  assumes "cache_shape c" "flush_lines env s c sws = Inr (s', c')"
  shows "cache_shape c' \<and> c_set c' = c_set c \<and> c_way c' = c_way c
    \<and> (\<forall>st w. st < unat (c_set c) \<longrightarrow>
         tag (line_at c' st w) = (if (st, w) \<in> set sws then 0 else tag (line_at c st w)))"
  using assms
proof (induction sws arbitrary: s c)
  case (Cons sw sws)
  obtain st w where sw: "sw = (st, w)" by fastforce
  obtain s1 c1 where 1: "flush_line env True s c (st, w) = Inr (s1, c1)"
      "flush_lines env s1 c1 sws = Inr (s', c')"
    using Cons.prems(2) sw by (auto simp: bind_ok_Inr_iff)
  note f = flush_line_tags [OF Cons.prems(1) 1(1)]
  show ?case using Cons.IH [OF conjunct1 [OF f] 1(2)] f sw by auto
qed simp

lemma cache_search_None:
  "cache_search_loop P ls i = None \<longleftrightarrow> (\<forall>l\<in>set ls. \<not> P l)"
  by (induction ls arbitrary: i) auto

lemma va_cache_set_less: "0 < c_set c \<Longrightarrow> va_cache_set va c < unat (c_set c)"
proof -
  assume "0 < c_set c"
  have "(va div c_width c) AND (c_set c - 1) \<le> c_set c - 1" by (rule word_and_le1)
  also have "\<dots> < c_set c"
    using \<open>0 < c_set c\<close> unat_diff_le [of 1 "c_set c"] by (simp add: word_less_nat_alt word_le_nat_alt)
  finally show ?thesis by (simp add: va_cache_set_def word_less_nat_alt)
qed


lemma flush_line_clean:
  assumes "cache_shape c" "st < unat (c_set c)" "w < c_way c" "tag (line_at c st w) = 0"
  shows "flush_line env True s c (st, w) = Inr (s, c)"
proof -
  have "(line_at c st w)\<lparr>tag := tag (line_at c st w)\<rparr> = line_at c st w" by simp
  then have "(line_at c st w)\<lparr>tag := 0\<rparr> = line_at c st w" using assms(4) by simp
  moreover have "put_line c st w (line_at c st w) = c" by (simp add: put_line_def line_at_def)
  ultimately have "put_line c st w ((line_at c st w)\<lparr>tag := 0\<rparr>) = c" by simp
  then show ?thesis using assms
    by (auto simp: flush_line_def cache_shape_def mmu_cache_write_back_def dirty_part_def Let_def)
qed

lemma flush_lines_clean:
  assumes "cache_shape c"
    "\<forall>(st, w)\<in>set sws. st < unat (c_set c) \<and> w < c_way c \<and> tag (line_at c st w) = 0"
  shows "flush_lines env s c sws = Inr (s, c)"
  using assms by (induction sws) (auto simp: flush_line_clean)

lemma invalidate_all_clean:
  assumes "cache_shape c" "\<forall>st<unat (c_set c). \<forall>w<c_way c. tag (line_at c st w) = 0"
  shows "mmu_cache_invalidate_all env s c = Inr (s, c)"
  unfolding mmu_cache_invalidate_all_def using assms by (intro flush_lines_clean) auto

section \<open>The claims on the cache\<close>

definition demo_cache :: cache_t where
  "demo_cache = mmu_cache_init \<lparr>tag = 0, cl_pa = 0, cl_data = []\<rparr> 16 2 2 CACHE_WRITE_BACK"

definition demo_line :: cache_line_t where
  "demo_line = \<lparr>tag = 0x207, cl_pa = 0x200, cl_data = [11, 22, 33, 44]\<rparr>"

text \<open>
  A cache line survives its eviction. A valid line of which both halves are dirty is written
  back to RAM, and filling a line from the same physical address returns the data it held.
\<close>

lemma write_back_refill:
  assumes "tag l AND 1 \<noteq> 0" "tag l AND NOT 1 AND 6 = 6" "c_w_mode c = CACHE_WRITE_BACK"
    and "length (cl_data l) = unat (drop_bit 2 (c_width c))" "length (cl_data l) \<le> 2 ^ 30"
    and "\<forall>i<length (cl_data l). ram_ok s (cl_pa l + 4 * of_nat i)" "stack_depth env \<noteq> 0"
  shows "\<exists>t l' u l''. mmu_cache_write_back env s c l = Inr (t, l')
    \<and> tag l' AND 6 = 0
    \<and> fill_line env t c (cl_pa l) (l'\<lparr>tag := 0\<rparr>) = Inr (u, l'') \<and> cl_data l'' = cl_data l"
proof -
  obtain t u where tu: "write_words env s (cl_pa l) (cl_data l) = Inr t"
      "read_words env t (cl_pa l) (length (cl_data l)) = Inr (cl_data l, u)"
    using words_roundtrip [OF assms(6,5,7)] by blast
  have "dirty_part c l = Some (cl_pa l, cl_data l)"
    using assms(1,2,4) by (simp add: dirty_part_def Let_def)
  then have "mmu_cache_write_back env s c l = Inr (t, l\<lparr>tag := tag l AND NOT 6\<rparr>)"
    using tu(1) by (simp add: mmu_cache_write_back_def)
  moreover have "(tag l AND NOT 6) AND 6 = 0" by (simp add: and.assoc)
  ultimately show ?thesis using tu(2) assms(3,4) by (auto simp: fill_line_def)
qed

lemma write_back_refill_witness:
  "\<exists>t l' u l''. mmu_cache_write_back bare_env demo_state demo_cache demo_line = Inr (t, l')
    \<and> tag l' AND 6 = 0
    \<and> fill_line bare_env t demo_cache (cl_pa demo_line) (l'\<lparr>tag := 0\<rparr>) = Inr (u, l'')
    \<and> cl_data l'' = cl_data demo_line"
proof (rule write_back_refill)
  show "\<forall>i<length (cl_data demo_line). ram_ok demo_state (cl_pa demo_line + 4 * of_nat i)"
    by (auto simp: demo_line_def less_Suc_eq demo_ram_ok)
qed (simp_all add: demo_line_def demo_cache_def mmu_cache_init_def bare_env_def)

text \<open>
  After \<^verbatim>\<open>mmu_cache_invalidate_all\<close> no address hits.
\<close>

lemma invalidate_all_no_hit:
  assumes "cache_shape c" "0 < c_set c" "mmu_cache_invalidate_all env s c = Inr (s', c')"
  shows "mmu_cache_search c' va = None"
proof -
  note f = flush_lines_tags [OF assms(1) assms(3) [unfolded mmu_cache_invalidate_all_def]]
  let ?st = "va_cache_set va c'"
  have st: "?st < unat (c_set c')" using va_cache_set_less [of c' va] f assms(2) by simp
  have "\<not> line_hit c' va l" if l: "l \<in> set (take (c_way c') (cs_lines (c_sets c' ! ?st)))" for l
  proof -
    obtain w where w: "w < c_way c'" "l = line_at c' ?st w"
      using l by (auto simp: in_set_conv_nth line_at_def)
    then have "tag l = 0" using f st by simp
    then show ?thesis by (simp add: line_hit_def)
  qed
  then show ?thesis by (simp add: mmu_cache_search_def Let_def cache_search_None)
qed


end
