(* ===== verification/Mmu_Wb.thy ===== *)
theory Mmu_Wb
  imports Arm_Mem
begin

text \<open>
  The write buffer of \<^verbatim>\<open>arch/arm/common/mmu/wb.c\<close>: a ring of entries of up to \<open>wb_nb\<close> bytes, filled at
  \<open>wb_first\<close> and emptied at \<open>wb_last\<close>. The main result is that the buffer keeps the program order:
  filling it and draining it writes the bytes to memory exactly as direct writes would.
\<close>

section \<open>The model\<close>

text \<open>The addresses of consecutive bytes, and the loop that writes them to memory one by one.\<close>

fun bytes_at :: "ARMword \<Rightarrow> ARMbyte list \<Rightarrow> (ARMword \<times> ARMbyte) list" where
  "bytes_at pa [] = []"
| "bytes_at pa (b # bs) = (pa, b) # bytes_at (pa + 1) bs"

fun write_bytes :: "'io arm_env \<Rightarrow> 'io ARMul_State \<Rightarrow> (ARMword \<times> ARMbyte) list \<Rightarrow> 'io ARMul_State sim" where
  "write_bytes env s [] = Inr s"
| "write_bytes env s ((a, b) # rest) =
     bind_ok (mem_write_byte env (stack_depth env) s a (ucast b)) (\<lambda>t. write_bytes env t rest)"

definition entry_bytes :: "wb_entry_t \<Rightarrow> (ARMword \<times> ARMbyte) list" where
  "entry_bytes e = bytes_at (wb_pa e) (take (wb_cnt e) (wb_data e))"

text \<open>The advance of \<^verbatim>\<open>first\<close> or \<^verbatim>\<open>last\<close> with its wrap-around.\<close>

definition wb_next :: "wb_t \<Rightarrow> nat \<Rightarrow> nat" where
  "wb_next w i = (if Suc i = wb_num w then 0 else Suc i)"

definition wb_drop_last :: "wb_t \<Rightarrow> wb_t" where
  "wb_drop_last w = w\<lparr>wb_last := wb_next w (wb_last w), wb_used := wb_used w - 1\<rparr>"

definition wb_fill_first :: "wb_t \<Rightarrow> ARMword \<times> ARMbyte list \<Rightarrow> wb_t" where
  "wb_fill_first w pd =
     (let pa = fst pd; bs = snd pd; old = wb_entrys w ! wb_first w
      in w\<lparr>wb_entrys := (wb_entrys w)[wb_first w :=
              old\<lparr>wb_pa := pa, wb_cnt := length bs, wb_data := bs @ drop (length bs) (wb_data old)\<rparr>],
           wb_first := wb_next w (wb_first w), wb_used := wb_used w + 1\<rparr>)"

definition wb_flush_last ::
  "'io arm_env \<Rightarrow> 'io ARMul_State \<Rightarrow> wb_t \<Rightarrow> ('io ARMul_State \<times> wb_t) sim" where
  "wb_flush_last env s w =
     (if wb_last w < length (wb_entrys w)
      then bind_ok (write_bytes env s (entry_bytes (wb_entrys w ! wb_last w)))
             (\<lambda>s. Inr (s, wb_drop_last w))
      else Inl OutOfBounds)"

text \<open>
  The loop of \<^verbatim>\<open>mmu_wb_write_bytes\<close>. A buffer whose entries hold no bytes makes it run for ever.
\<close>

function mmu_wb_write_bytes ::
  "'io arm_env \<Rightarrow> 'io ARMul_State \<Rightarrow> wb_t \<Rightarrow> ARMword \<Rightarrow> ARMbyte list \<Rightarrow> ('io ARMul_State \<times> wb_t) sim"
  where
  "mmu_wb_write_bytes env s w pa data =
     (if data = [] then Inr (s, w)
      else if wb_nb w = 0 then Inl StackOverflow
      else
        let i = min (length data) (wb_nb w)
        in case (if wb_num w = wb_used w then wb_flush_last env s w else Inr (s, w)) of
             Inl err \<Rightarrow> Inl err
           | Inr (s, w') \<Rightarrow>
               if wb_first w' < length (wb_entrys w')
               then mmu_wb_write_bytes env s
                      (wb_fill_first w' (pa, take i data)) (pa + of_nat i) (drop i data)
               else Inl OutOfBounds)"
  by pat_completeness auto
termination
  by (relation "measure (\<lambda>(env, s, w, pa, data). length data)") auto

declare mmu_wb_write_bytes.simps [simp del]

function mmu_wb_drain_all ::
  "'io arm_env \<Rightarrow> 'io ARMul_State \<Rightarrow> wb_t \<Rightarrow> ('io ARMul_State \<times> wb_t) sim" where
  "mmu_wb_drain_all env s w =
     (if wb_used w = 0 then Inr (s, w)
      else case wb_flush_last env s w of
             Inl err \<Rightarrow> Inl err
           | Inr (s, w') \<Rightarrow> mmu_wb_drain_all env s w')"
  by pat_completeness auto
termination
  by (relation "measure (\<lambda>(env, s, w). wb_used w)")
    (auto simp: wb_flush_last_def wb_drop_last_def bind_ok_Inr_iff split: if_splits)

declare mmu_wb_drain_all.simps [simp del]

text \<open>\<^verbatim>\<open>malloc\<close> leaves the entries undefined; \<open>junk\<close> stands for them.\<close>

definition mmu_wb_init :: "wb_entry_t \<Rightarrow> nat \<Rightarrow> nat \<Rightarrow> wb_t" where
  "mmu_wb_init junk num nb =
     \<lparr>wb_num = num, wb_nb = nb, wb_first = 0, wb_last = 0, wb_used = 0,
      wb_entrys = replicate num (junk\<lparr>wb_data := replicate nb 0\<rparr>)\<rparr>"

section \<open>Bounded queues\<close>

text \<open>
  The contract of a bounded first-in first-out queue, and what a writer does that first makes room
  in a full queue: what leaves and what stays is, in order, what was there and what came.
\<close>

locale bounded_fifo =
  fixes put :: "'q \<Rightarrow> 'e \<Rightarrow> 'q" and front :: "'q \<Rightarrow> 'e" and rest :: "'q \<Rightarrow> 'q"
    and contents :: "'q \<Rightarrow> 'e list" and cap :: "'q \<Rightarrow> nat" and inv :: "'q \<Rightarrow> bool"
  assumes put_law: "inv q \<Longrightarrow> length (contents q) < cap q \<Longrightarrow>
      contents (put q e) = contents q @ [e] \<and> inv (put q e) \<and> cap (put q e) = cap q"
    and front_law: "inv q \<Longrightarrow> contents q \<noteq> [] \<Longrightarrow> front q = hd (contents q)"
    and rest_law: "inv q \<Longrightarrow> contents q \<noteq> [] \<Longrightarrow>
      contents (rest q) = tl (contents q) \<and> inv (rest q) \<and> cap (rest q) = cap q"
    and cap_law: "inv q \<Longrightarrow> length (contents q) \<le> cap q" "inv q \<Longrightarrow> 0 < cap q"
begin

lemma evict_put:
  assumes "inv q" "length (contents q) = cap q"
  shows "front q # contents (put (rest q) e) = contents q @ [e]" "inv (put (rest q) e)"
    "cap (put (rest q) e) = cap q"
proof -
  have ne: "contents q \<noteq> []" using cap_law(2) [OF assms(1)] assms(2) by auto
  note r = rest_law [OF assms(1) ne]
  have "length (contents (rest q)) < cap (rest q)" using r ne assms(2) cap_law(2) [OF assms(1)] by simp
  then have p: "contents (put (rest q) e) = contents (rest q) @ [e] \<and> inv (put (rest q) e)
      \<and> cap (put (rest q) e) = cap (rest q)"
    using put_law r by blast
  show "front q # contents (put (rest q) e) = contents q @ [e]"
    using p r front_law [OF assms(1) ne] ne by (simp flip: append_Cons)
  show "inv (put (rest q) e)" "cap (put (rest q) e) = cap q" using p r by auto
qed

end

section \<open>The ring is a queue\<close>

definition wb_inv :: "wb_t \<Rightarrow> bool" where
  "wb_inv w \<longleftrightarrow> length (wb_entrys w) = wb_num w \<and> 0 < wb_num w \<and> wb_last w < wb_num w
     \<and> wb_used w \<le> wb_num w \<and> wb_first w = (wb_last w + wb_used w) mod wb_num w"

definition wb_slot :: "wb_t \<Rightarrow> nat \<Rightarrow> nat" where
  "wb_slot w k = (wb_last w + k) mod wb_num w"

text \<open>The buffered writes, oldest first: address and bytes of each entry.\<close>

definition wb_item :: "wb_entry_t \<Rightarrow> ARMword \<times> ARMbyte list" where
  "wb_item e = (wb_pa e, take (wb_cnt e) (wb_data e))"

definition wb_contents :: "wb_t \<Rightarrow> (ARMword \<times> ARMbyte list) list" where
  "wb_contents w = map (\<lambda>k. wb_item (wb_entrys w ! wb_slot w k)) [0..<wb_used w]"

lemma wb_next_mod: "i < wb_num w \<Longrightarrow> wb_next w i = Suc i mod wb_num w"
  by (auto simp: wb_next_def mod_if)

lemma wb_item_fill: "wb_item (old\<lparr>wb_pa := pa, wb_cnt := length bs, wb_data := bs @ xs\<rparr>) = (pa, bs)"
  by (simp add: wb_item_def)

lemma wb_put:
  assumes inv: "wb_inv w" and room: "wb_used w < wb_num w"
  shows "wb_contents (wb_fill_first w pd) = wb_contents w @ [pd]" "wb_inv (wb_fill_first w pd)"
    "wb_num (wb_fill_first w pd) = wb_num w"
proof -
  let ?w = "wb_fill_first w pd" let ?n = "wb_num w"
  have n: "0 < ?n" "length (wb_entrys w) = ?n" and last: "wb_last w < ?n"
    and first: "wb_first w = wb_slot w (wb_used w)"
    using inv by (auto simp: wb_inv_def wb_slot_def)
  have f: "wb_first w < ?n" using n first by (simp add: wb_slot_def)
  have slot: "wb_slot ?w k = wb_slot w k" for k by (simp add: wb_slot_def wb_fill_first_def Let_def)
  have old: "wb_entrys ?w ! wb_slot w k = wb_entrys w ! wb_slot w k" if "k < wb_used w" for k
  proof -
    have "wb_slot w k \<noteq> wb_first w"
      using that room last unfolding first wb_slot_def
      by (auto simp: mod_if split: if_splits)
    then show ?thesis by (simp add: wb_fill_first_def Let_def)
  qed
  have new: "wb_item (wb_entrys ?w ! wb_slot w (wb_used w)) = pd"
    using f n by (simp add: wb_fill_first_def Let_def wb_item_fill flip: first)
  have "wb_used ?w = Suc (wb_used w)" by (simp add: wb_fill_first_def Let_def)
  then show "wb_contents ?w = wb_contents w @ [pd]"
    using old new by (simp add: wb_contents_def slot)
  show "wb_num ?w = wb_num w" by (simp add: wb_fill_first_def Let_def)
  show "wb_inv ?w"
    using n last room f wb_next_mod [OF f] first
    by (simp add: wb_inv_def wb_fill_first_def Let_def wb_slot_def mod_simps)
qed

lemma wb_rest:
  assumes inv: "wb_inv w" and used: "wb_used w \<noteq> 0"
  shows "wb_contents (wb_drop_last w) = tl (wb_contents w)" "wb_inv (wb_drop_last w)"
    "wb_item (wb_entrys w ! wb_last w) = hd (wb_contents w)" "wb_num (wb_drop_last w) = wb_num w"
proof -
  let ?w = "wb_drop_last w" let ?n = "wb_num w"
  have n: "0 < ?n" "length (wb_entrys w) = ?n" and last: "wb_last w < ?n" "wb_used w \<le> ?n"
    using inv by (auto simp: wb_inv_def)
  obtain u where u: "wb_used w = Suc u" using used by (metis not0_implies_Suc)
  have slot: "wb_slot ?w k = wb_slot w (Suc k)" for k
    using wb_next_mod [OF last(1)] by (simp add: wb_slot_def wb_drop_last_def mod_simps)
  have c: "wb_contents w = wb_item (wb_entrys w ! wb_slot w 0) #
      map (\<lambda>k. wb_item (wb_entrys w ! wb_slot w (Suc k))) [0..<u]"
    by (simp add: wb_contents_def u upt_conv_Cons map_Suc_upt [symmetric] del: upt_Suc)
  show "wb_contents ?w = tl (wb_contents w)"
    using c slot by (simp add: wb_contents_def wb_drop_last_def u)
  show "wb_item (wb_entrys w ! wb_last w) = hd (wb_contents w)"
    using c last by (simp add: wb_slot_def)
  show "wb_num ?w = wb_num w" by (simp add: wb_drop_last_def)
  show "wb_inv ?w"
    using inv n last u wb_next_mod [OF last(1)] by (simp add: wb_inv_def wb_drop_last_def mod_simps)
qed

interpretation wb: bounded_fifo wb_fill_first "\<lambda>w. wb_item (wb_entrys w ! wb_last w)" wb_drop_last
  wb_contents wb_num wb_inv
proof
  fix w :: wb_t and e
  have len: "length (wb_contents w) = wb_used w" for w by (simp add: wb_contents_def)
  show "wb_inv w \<Longrightarrow> length (wb_contents w) < wb_num w \<Longrightarrow> wb_contents (wb_fill_first w e) = wb_contents w @ [e]
      \<and> wb_inv (wb_fill_first w e) \<and> wb_num (wb_fill_first w e) = wb_num w"
    using wb_put len by simp
  show "wb_inv w \<Longrightarrow> wb_contents w \<noteq> [] \<Longrightarrow> wb_item (wb_entrys w ! wb_last w) = hd (wb_contents w)"
    using wb_rest(3) len by (metis length_0_conv)
  show "wb_inv w \<Longrightarrow> wb_contents w \<noteq> [] \<Longrightarrow> wb_contents (wb_drop_last w) = tl (wb_contents w)
      \<and> wb_inv (wb_drop_last w) \<and> wb_num (wb_drop_last w) = wb_num w"
    using wb_rest(1,2,4) len by (metis length_0_conv)
  show "wb_inv w \<Longrightarrow> length (wb_contents w) \<le> wb_num w" "wb_inv w \<Longrightarrow> 0 < wb_num w"
    by (auto simp: len wb_inv_def)
qed


section \<open>Program order\<close>

definition item_bytes :: "ARMword \<times> ARMbyte list \<Rightarrow> (ARMword \<times> ARMbyte) list" where
  "item_bytes pd = bytes_at (fst pd) (snd pd)"

definition pending :: "wb_t \<Rightarrow> (ARMword \<times> ARMbyte) list" where
  "pending w = concat (map item_bytes (wb_contents w))"

lemma entry_item: "entry_bytes e = item_bytes (wb_item e)"
  by (simp add: entry_bytes_def item_bytes_def wb_item_def)

lemma bytes_at_append: "bytes_at pa (xs @ ys) = bytes_at pa xs @ bytes_at (pa + of_nat (length xs)) ys"
  by (induction xs arbitrary: pa) (simp_all add: algebra_simps)

lemma write_bytes_append:
  "write_bytes env s (xs @ ys) = bind_ok (write_bytes env s xs) (\<lambda>t. write_bytes env t ys)"
  by (induction env s xs rule: write_bytes.induct) (simp_all add: bind_ok_def split: sum.splits)

lemma wb_nb_frame [simp]:
  "wb_nb (wb_drop_last w) = wb_nb w" "wb_nb (wb_fill_first w pd) = wb_nb w"
  by (simp_all add: wb_drop_last_def wb_fill_first_def Let_def)

lemma wb_length: "length (wb_contents w) = wb_used w"
  by (simp add: wb_contents_def)

lemma wb_flush_last_inv:
  "wb_inv w \<Longrightarrow> wb_flush_last env s w =
     bind_ok (write_bytes env s (item_bytes (wb_item (wb_entrys w ! wb_last w)))) (\<lambda>t. Inr (t, wb_drop_last w))"
  by (simp add: wb_flush_last_def wb_inv_def entry_item)

lemma drain_writes_pending:
  assumes "wb_inv w"
  shows "bind_ok (mmu_wb_drain_all env s w) (\<lambda>(t, w'). Inr t) = write_bytes env s (pending w)"
  using assms
proof (induction env s w rule: mmu_wb_drain_all.induct)
  case (1 env s w)
  show ?case
  proof (cases "wb_used w = 0")
    case True
    then show ?thesis by (subst mmu_wb_drain_all.simps) (simp add: pending_def wb_contents_def)
  next
    case False
    note r = wb_rest [OF 1(2) False]
    let ?h = "item_bytes (wb_item (wb_entrys w ! wb_last w))"
    have "wb_contents w \<noteq> []" using False wb_length [of w] by auto
    then have p: "pending w = ?h @ pending (wb_drop_last w)"
      using r(1,3) by (cases "wb_contents w") (auto simp: pending_def)
    show ?thesis
    proof (cases "write_bytes env s ?h")
      case (Inl e)
      then show ?thesis using False wb_flush_last_inv [OF 1(2), of env s]
        by (subst mmu_wb_drain_all.simps) (simp add: p write_bytes_append)
    next
      case (Inr t)
      then have fl: "wb_flush_last env s w = Inr (t, wb_drop_last w)"
        using wb_flush_last_inv [OF 1(2), of env s] by simp
      have "bind_ok (mmu_wb_drain_all env t (wb_drop_last w)) (\<lambda>(t, w'). Inr t)
          = write_bytes env t (pending (wb_drop_last w))"
        using 1(1) [OF False fl refl r(2)] .
      then show ?thesis using False fl Inr
        by (subst mmu_wb_drain_all.simps) (simp add: p write_bytes_append)
    qed
  qed
qed

text \<open>One round of the filling loop: what is written out and what stays pending, in order.\<close>

lemma wb_round:
  assumes "wb_inv w"
  defines "w' \<equiv> if wb_num w = wb_used w then wb_drop_last w else w"
    and "out \<equiv> if wb_num w = wb_used w then item_bytes (wb_item (wb_entrys w ! wb_last w)) else []"
  shows "out @ pending (wb_fill_first w' pd) = pending w @ item_bytes pd"
    "wb_inv (wb_fill_first w' pd)" "wb_first w' < length (wb_entrys w')"
proof -
  have "out @ pending (wb_fill_first w' pd) = pending w @ item_bytes pd \<and> wb_inv (wb_fill_first w' pd)"
  proof (cases "wb_num w = wb_used w")
    case True
    then have full: "length (wb_contents w) = wb_num w" using wb_length [of w] by simp
    note e = wb.evict_put [OF assms(1) full, of pd]
    from e(1) have "concat (map item_bytes (wb_item (wb_entrys w ! wb_last w) # wb_contents (wb_fill_first (wb_drop_last w) pd)))
        = concat (map item_bytes (wb_contents w @ [pd]))" by (simp only:)
    then show ?thesis using True e(2) by (simp add: w'_def out_def pending_def)
  next
    case False
    then have room: "wb_used w < wb_num w" using assms(1) by (simp add: wb_inv_def)
    note p = wb_put [OF assms(1) room, of pd]
    then show ?thesis using False p by (simp add: w'_def out_def pending_def)
  qed
  then show "out @ pending (wb_fill_first w' pd) = pending w @ item_bytes pd" "wb_inv (wb_fill_first w' pd)"
    by auto
  show "wb_first w' < length (wb_entrys w')"
    using assms(1) by (auto simp: w'_def wb_inv_def wb_drop_last_def)
qed

lemma buffered_writes_in_order:
  assumes "wb_inv w" "wb_nb w \<noteq> 0"
  shows "bind_ok (mmu_wb_write_bytes env s w pa data)
      (\<lambda>(t, w'). bind_ok (mmu_wb_drain_all env t w') (\<lambda>(u, w''). Inr u))
    = write_bytes env s (pending w @ bytes_at pa data)"
  using assms
proof (induction env s w pa data rule: mmu_wb_write_bytes.induct)
  case (1 env s w pa data)
  show ?case
  proof (cases "data = []")
    case True
    then show ?thesis using drain_writes_pending [OF 1(2)]
      by (subst mmu_wb_write_bytes.simps) simp
  next
    case False
    define i where "i = min (length data) (wb_nb w)"
    define w' where "w' = (if wb_num w = wb_used w then wb_drop_last w else w)"
    define out where "out = (if wb_num w = wb_used w then item_bytes (wb_item (wb_entrys w ! wb_last w)) else [])"
    let ?pd = "(pa, take i data)"
    note r = wb_round(1,2) [OF 1(2), of ?pd, folded w'_def out_def] wb_round(3) [OF 1(2), folded w'_def]
    have fl: "(if wb_num w = wb_used w then wb_flush_last env s w else Inr (s, w)) =
        bind_ok (write_bytes env s out) (\<lambda>t. Inr (t, w'))"
      using wb_flush_last_inv [OF 1(2), of env s] by (simp add: w'_def out_def)
    have all: "pending w @ bytes_at pa data =
        out @ pending (wb_fill_first w' ?pd) @ bytes_at (pa + of_nat i) (drop i data)"
    proof -
      have "bytes_at pa data = item_bytes ?pd @ bytes_at (pa + of_nat i) (drop i data)"
        using bytes_at_append [of pa "take i data" "drop i data"] by (simp add: item_bytes_def i_def)
      then show ?thesis using r(1) by (metis append_assoc)
    qed
    show ?thesis
    proof (cases "write_bytes env s out")
      case (Inl e)
      then show ?thesis using False 1(3) fl unfolding all
        by (subst mmu_wb_write_bytes.simps) (simp add: write_bytes_append Let_def)
    next
      case (Inr t)
      have nb: "wb_nb (wb_fill_first w' ?pd) \<noteq> 0" using 1(3) by (simp add: w'_def)
      have fl': "(if wb_num w = wb_used w then wb_flush_last env s w else Inr (s, w)) = Inr (t, w')"
        using fl Inr by simp
      have IH: "bind_ok (mmu_wb_write_bytes env t (wb_fill_first w' ?pd) (pa + of_nat i) (drop i data))
          (\<lambda>(t, w'). bind_ok (mmu_wb_drain_all env t w') (\<lambda>(u, w''). Inr u))
        = write_bytes env t (pending (wb_fill_first w' ?pd) @ bytes_at (pa + of_nat i) (drop i data))"
        using 1(1) [OF False 1(3) i_def fl' refl r(3) r(2) nb] .
      have "mmu_wb_write_bytes env s w pa data =
          mmu_wb_write_bytes env t (wb_fill_first w' ?pd) (pa + of_nat i) (drop i data)"
        using False 1(3) fl' r(3)
        by (subst mmu_wb_write_bytes.simps) (simp add: i_def Let_def)
      then show ?thesis using IH Inr unfolding all by (simp add: write_bytes_append)
    qed
  qed
qed


section \<open>The claim on the write buffer\<close>

lemma wb_init_inv: "0 < num \<Longrightarrow> wb_inv (mmu_wb_init junk num nb)"
  by (simp add: wb_inv_def mmu_wb_init_def)

text \<open>
  C32: the write buffer keeps program order. Putting bytes into the buffer and draining it has the
  same outcome, errors included, as writing to memory first the bytes that were pending and then
  the new ones, one after the other.
\<close>

theorem write_buffer_in_order:
  assumes "wb_inv w" "wb_nb w \<noteq> 0"
  shows "bind_ok (mmu_wb_write_bytes env s w pa data)
      (\<lambda>(t, w'). bind_ok (mmu_wb_drain_all env t w') (\<lambda>(u, w''). Inr u))
    = write_bytes env s (pending w @ bytes_at pa data)"
  by (rule buffered_writes_in_order [OF assms])

theorem write_buffer_in_order_witness:
  "bind_ok (mmu_wb_write_bytes bare_env demo_state
        (mmu_wb_init \<lparr>wb_pa = 0, wb_data = [], wb_cnt = 0\<rparr> 2 2) 0x100 [1, 2, 3, 4, 5, 6, 7])
      (\<lambda>(t, w'). bind_ok (mmu_wb_drain_all bare_env t w') (\<lambda>(u, w''). Inr u))
    = write_bytes bare_env demo_state
        (pending (mmu_wb_init \<lparr>wb_pa = 0, wb_data = [], wb_cnt = 0\<rparr> 2 2) @ bytes_at 0x100 [1, 2, 3, 4, 5, 6, 7])"
  by (rule write_buffer_in_order) (simp_all add: wb_init_inv, simp add: mmu_wb_init_def)


end
