(* ===== verification/Arm926_Mmu.thy ===== *)
theory Arm926_Mmu
  imports Mmu_Tlb Mmu_Cache Mmu_Wb
begin

text \<open>
  The memory management unit of the ARM926EJ-S, \<^verbatim>\<open>arch/arm/common/mmu/arm926ejs_mmu.c\<close>, and the
  dispatch of \<^verbatim>\<open>armmmu.c\<close>: instruction fetch, data reads and writes through translation, permission
  check, caches and write buffer, and the registers and operations of coprocessor 15. A read returns
  the fault code and the value stored through its pointer argument, \<open>None\<close> when it stores none.
\<close>

section \<open>Access to the nested structures\<close>

definition upd926 :: "(arm926ejs_mmu_t \<Rightarrow> arm926ejs_mmu_t) \<Rightarrow> 'io ARMul_State \<Rightarrow> 'io ARMul_State" where
  "upd926 f s = s\<lparr>mmu := (mmu s)\<lparr>arm926ejs_mmu := f (arm926ejs_mmu (mmu s))\<rparr>\<rparr>"

abbreviation (input) the926 :: "'io ARMul_State \<Rightarrow> arm926ejs_mmu_t" where
  "the926 s \<equiv> arm926ejs_mmu (mmu s)"

definition put_i_cache :: "'io ARMul_State \<times> cache_t \<Rightarrow> 'io ARMul_State" where
  "put_i_cache sc = upd926 (\<lambda>m. m\<lparr>i_cache := snd sc\<rparr>) (fst sc)"

definition put_d_cache :: "'io ARMul_State \<times> cache_t \<Rightarrow> 'io ARMul_State" where
  "put_d_cache sc = upd926 (\<lambda>m. m\<lparr>d_cache := snd sc\<rparr>) (fst sc)"

definition put_wbuf :: "'io ARMul_State \<times> wb_t \<Rightarrow> 'io ARMul_State" where
  "put_wbuf sw = upd926 (\<lambda>m. m\<lparr>wbuf := snd sw\<rparr>) (fst sw)"

section \<open>Initialisation\<close>

text \<open>The junk arguments stand for what \<^verbatim>\<open>malloc\<close> returns.\<close>

definition arm926ejs_mmu_init ::
  "tlb_entry_t \<Rightarrow> cache_line_t \<Rightarrow> wb_entry_t \<Rightarrow> mmu_state_t \<Rightarrow> mmu_state_t" where
  "arm926ejs_mmu_init jt jc jw m =
     m\<lparr>control := 0x52078, translation_table_base := 0, domain_access_control := 0xDEADC0DE,
       fault_status := 0, fault_address := 0, process_id := 0,
       arm926ejs_mmu := \<lparr>main_tlb = mmu_tlb_init jt 64, lockdown_tlb = mmu_tlb_init jt 8,
         i_cache = mmu_cache_init jc 32 4 64 CACHE_WRITE_BACK,
         d_cache = mmu_cache_init jc 32 4 32 CACHE_WRITE_BACK,
         wbuf = mmu_wb_init jw 8 8\<rparr>\<rparr>"

definition mmu_init ::
  "tlb_entry_t \<Rightarrow> cache_line_t \<Rightarrow> wb_entry_t \<Rightarrow> ARMword \<Rightarrow> 'io ARMul_State \<Rightarrow> 'io ARMul_State sim" where
  "mmu_init jt jc jw cpu_mask s =
     (let m = (mmu s)\<lparr>control := 0x70, translation_table_base := 0xDEADC0DE,
                domain_access_control := 0xDEADC0DE, fault_status := 0, fault_address := 0,
                process_id := 0\<rparr>
      in if cpu_val s AND cpu_mask = 0x41069260
         then Inr (s\<lparr>mmu := arm926ejs_mmu_init jt jc jw m\<rparr>)
         else Inl SkyeyeExit)"

section \<open>Translation and permission\<close>

definition mmu_pid_va_map :: "'io ARMul_State \<Rightarrow> ARMword \<Rightarrow> ARMword" where
  "mmu_pid_va_map s va =
     (if va AND 0xfe000000 \<noteq> 0 then va else va OR (process_id (mmu s) AND 0xfe000000))"

definition MMU_Enabled :: "'io ARMul_State \<Rightarrow> bool" where
  "MMU_Enabled s \<longleftrightarrow> control (mmu s) AND CONTROL_MMU \<noteq> 0"

definition MMU_Aligned :: "'io ARMul_State \<Rightarrow> bool" where
  "MMU_Aligned s \<longleftrightarrow> control (mmu s) AND CONTROL_ALIGN_FAULT \<noteq> 0"

definition translate_main ::
  "'io arm_env \<Rightarrow> 'io ARMul_State \<Rightarrow> ARMword \<Rightarrow> (fault_t \<times> nat option \<times> 'io ARMul_State) sim" where
  "translate_main env s va =
     bind_ok (translate env s va (main_tlb (the926 s)))
       (\<lambda>(f, i, t, s). Inr (f, i, upd926 (\<lambda>m. m\<lparr>main_tlb := t\<rparr>) s))"

text \<open>
  Translation followed by the permission check, as the three accesses begin: a fault, or the entry.
  The pointer that \<^verbatim>\<open>translate\<close> stores is used only when it returned no fault.
\<close>

definition access_main ::
  "'io arm_env \<Rightarrow> 'io ARMul_State \<Rightarrow> ARMword \<Rightarrow> bool
     \<Rightarrow> ((fault_t + tlb_entry_t) \<times> 'io ARMul_State) sim" where
  "access_main env s va read =
     bind_ok (translate_main env s va) (\<lambda>(f, i, s).
       if f \<noteq> NO_FAULT then Inr (Inl f, s)
       else case i of
              None \<Rightarrow> Inl NullPointer
            | Some k \<Rightarrow>
                let e = tlb_entrys (main_tlb (the926 s)) ! k
                in bind_ok (check_access s va e read)
                     (\<lambda>(f, s). Inr (if f \<noteq> NO_FAULT then Inl f else Inr e, s)))"

definition tlb_c_flag :: "tlb_entry_t \<Rightarrow> bool" where
  "tlb_c_flag e \<longleftrightarrow> perms e AND 0x8 \<noteq> 0"

definition tlb_b_flag :: "tlb_entry_t \<Rightarrow> bool" where
  "tlb_b_flag e \<longleftrightarrow> perms e AND 0x4 \<noteq> 0"

section \<open>Instruction fetch\<close>

type_synonym 'io mmu_result = "(fault_t \<times> ARMword option \<times> 'io ARMul_State) sim"

definition cache_word :: "cache_t \<Rightarrow> nat \<times> nat \<Rightarrow> ARMword \<Rightarrow> ARMword" where
  "cache_word c sw va = cl_data (line_at c (fst sw) (snd sw)) ! va_cache_index va c"

text \<open>The part after translation: the instruction cache, then the fill of a line or the memory.\<close>

definition fetch_cached ::
  "'io arm_env \<Rightarrow> 'io ARMul_State \<Rightarrow> ARMword \<Rightarrow> tlb_entry_t option \<Rightarrow> 'io mmu_result" where
  "fetch_cached env s va e =
     (case mmu_cache_search (i_cache (the926 s)) va of
        Some sw \<Rightarrow> Inr (NO_FAULT, Some (cache_word (i_cache (the926 s)) sw va), s)
      | None \<Rightarrow>
          let c = (case e of None \<Rightarrow> True | Some e \<Rightarrow> tlb_c_flag e);
              pa = (case e of None \<Rightarrow> va | Some e \<Rightarrow> tlb_va_to_pa e va)
          in if c
             then bind_ok (mmu_cache_alloc env s (i_cache (the926 s)) va pa) (\<lambda>(sw, s, ic).
                    Inr (NO_FAULT, Some (cache_word ic sw va), put_i_cache (s, ic)))
             else bind_ok (mem_read_word env (stack_depth env) s pa)
                    (\<lambda>(d, s). Inr (NO_FAULT, Some d, s)))"

definition arm926ejs_mmu_load_instr :: "'io arm_env \<Rightarrow> 'io ARMul_State \<Rightarrow> ARMword \<Rightarrow> 'io mmu_result" where
  "arm926ejs_mmu_load_instr env s va =
     (let va = mmu_pid_va_map s va
      in if MMU_Enabled s
         then bind_ok (access_main env s va True) (\<lambda>(r, s).
                case r of Inl f \<Rightarrow> Inr (f, None, s) | Inr e \<Rightarrow> fetch_cached env s va (Some e))
         else fetch_cached env s va None)"

section \<open>Data accesses\<close>

datatype arm_datatype = ARM_BYTE_TYPE | ARM_HALFWORD_TYPE | ARM_WORD_TYPE

fun mem_read_typed :: "'io arm_env \<Rightarrow> arm_datatype \<Rightarrow> 'io mem_reader" where
  "mem_read_typed env ARM_BYTE_TYPE s pa = mem_read_byte env (stack_depth env) s pa"
| "mem_read_typed env ARM_HALFWORD_TYPE s pa = mem_read_halfword env (stack_depth env) s pa"
| "mem_read_typed env ARM_WORD_TYPE s pa = mem_read_word env (stack_depth env) s pa"

fun mem_write_typed :: "'io arm_env \<Rightarrow> arm_datatype \<Rightarrow> 'io mem_writer" where
  "mem_write_typed env ARM_BYTE_TYPE s pa d = mem_write_byte env (stack_depth env) s pa d"
| "mem_write_typed env ARM_HALFWORD_TYPE s pa d = mem_write_halfword env (stack_depth env) s pa d"
| "mem_write_typed env ARM_WORD_TYPE s pa d = mem_write_word env (stack_depth env) s pa d"

text \<open>The address within the word that an access of a given width uses.\<close>

fun typed_pa :: "arm_datatype \<Rightarrow> ARMword \<Rightarrow> ARMword \<Rightarrow> ARMword" where
  "typed_pa ARM_BYTE_TYPE pa real_va = pa OR (real_va AND 3)"
| "typed_pa ARM_HALFWORD_TYPE pa real_va = pa OR (real_va AND 2)"
| "typed_pa ARM_WORD_TYPE pa real_va = pa"

definition align_fault :: "'io ARMul_State \<Rightarrow> ARMword \<Rightarrow> arm_datatype \<Rightarrow> bool" where
  "align_fault s va ty \<longleftrightarrow>
     (va AND 3 \<noteq> 0 \<and> ty = ARM_WORD_TYPE \<and> MMU_Aligned s)
     \<or> (va AND 1 \<noteq> 0 \<and> ty = ARM_HALFWORD_TYPE \<and> MMU_Aligned s)"

text \<open>
  The read after translation. The window from \<open>0xe0000000\<close> flushes a cache line and stores no
  value. The data cache is compiled out (\<^verbatim>\<open>MMU_DCacheEnabled\<close> is 0), so the value comes from memory.
\<close>

definition read_translated ::
  "'io arm_env \<Rightarrow> arm_datatype \<Rightarrow> 'io ARMul_State \<Rightarrow> ARMword \<Rightarrow> ARMword \<Rightarrow> tlb_entry_t \<Rightarrow> 'io mmu_result" where
  "read_translated env ty s va real_va e =
     (let pa = tlb_va_to_pa e va
      in if 0xe0000000 \<le> pa \<and> pa < 0xe8000000
         then if tlb_c_flag e
              then bind_ok (mmu_cache_soft_flush env s (d_cache (the926 s)) pa)
                     (\<lambda>sc. Inr (NO_FAULT, None, put_d_cache sc))
              else Inr (NO_FAULT, None, s)
         else bind_ok (if tlb_b_flag e
                       then bind_ok (mmu_wb_drain_all env s (wbuf (the926 s))) (\<lambda>sw. Inr (put_wbuf sw))
                       else Inr s)
                (\<lambda>s. bind_ok (mem_read_typed env ty s (typed_pa ty pa real_va))
                   (\<lambda>(d, s). Inr (NO_FAULT, Some d, s))))"

definition arm926ejs_mmu_read ::
  "'io arm_env \<Rightarrow> arm_datatype \<Rightarrow> 'io ARMul_State \<Rightarrow> ARMword \<Rightarrow> 'io mmu_result" where
  "arm926ejs_mmu_read env ty s va0 =
     (let real_va = mmu_pid_va_map s va0
      in if \<not> MMU_Enabled s
         then bind_ok (mem_read_typed env ty s real_va) (\<lambda>(d, s). Inr (NO_FAULT, Some d, s))
         else if align_fault s real_va ty then Inr (ALIGNMENT_FAULT, None, s)
         else let va = real_va AND NOT 3
              in bind_ok (access_main env s va True) (\<lambda>(r, s).
                   case r of
                     Inl f \<Rightarrow> Inr (f, None, s)
                   | Inr e \<Rightarrow> read_translated env ty s va real_va e))"

text \<open>A write that hits the data cache changes the line and marks its half dirty.\<close>

definition update_cache ::
  "arm_datatype \<Rightarrow> ARMword \<Rightarrow> ARMword \<Rightarrow> ARMword \<Rightarrow> ARMword \<Rightarrow> cache_t \<Rightarrow> nat \<times> nat \<Rightarrow> cache_t" where
  "update_cache ty big va data real_va c sw =
     (let index = va_cache_index va c;
          l = line_at c (fst sw) (snd sw);
          temp = cl_data l ! index;
          d = (case ty of
                 ARM_WORD_TYPE \<Rightarrow> data
               | ARM_HALFWORD_TYPE \<Rightarrow>
                   (let off = halfword_offset big real_va
                    in (temp AND NOT (push_bit off 0xffff)) OR push_bit off (data AND 0xffff))
               | ARM_BYTE_TYPE \<Rightarrow>
                   (let off = byte_offset big real_va
                    in (temp AND NOT (push_bit off 0xff)) OR push_bit off (data AND 0xff)));
          dirty = (if index < unat (drop_bit 3 (c_width c)) then TAG_FIRST_HALF_DIRTY
                   else TAG_LAST_HALF_DIRTY)
      in put_line c (fst sw) (snd sw) (l\<lparr>cl_data := (cl_data l)[index := d], tag := tag l OR dirty\<rparr>))"

definition write_translated ::
  "'io arm_env \<Rightarrow> arm_datatype \<Rightarrow> 'io ARMul_State \<Rightarrow> ARMword \<Rightarrow> ARMword \<Rightarrow> ARMword \<Rightarrow> tlb_entry_t
     \<Rightarrow> (fault_t \<times> 'io ARMul_State) sim" where
  "write_translated env ty s va real_va data e =
     (case mmu_cache_search (d_cache (the926 s)) va of
        Some sw \<Rightarrow>
          Inr (NO_FAULT, put_d_cache (s, update_cache ty (bigendSig s) va data real_va (d_cache (the926 s)) sw))
      | None \<Rightarrow>
          bind_ok (if tlb_b_flag e then Inr s
                   else bind_ok (mmu_wb_drain_all env s (wbuf (the926 s))) (\<lambda>sw. Inr (put_wbuf sw)))
            (\<lambda>s. bind_ok (mem_write_typed env ty s (typed_pa ty (tlb_va_to_pa e va) real_va) data)
               (\<lambda>s. Inr (NO_FAULT, s))))"

definition arm926ejs_mmu_write ::
  "'io arm_env \<Rightarrow> arm_datatype \<Rightarrow> 'io ARMul_State \<Rightarrow> ARMword \<Rightarrow> ARMword \<Rightarrow> (fault_t \<times> 'io ARMul_State) sim" where
  "arm926ejs_mmu_write env ty s va0 data =
     (let real_va = mmu_pid_va_map s va0
      in if \<not> MMU_Enabled s
         then bind_ok (mem_write_typed env ty s real_va data) (\<lambda>s. Inr (NO_FAULT, s))
         else if align_fault s real_va ty then Inr (ALIGNMENT_FAULT, s)
         else let va = real_va AND NOT 3
              in bind_ok (access_main env s va False) (\<lambda>(r, s).
                   case r of
                     Inl f \<Rightarrow> Inr (f, s)
                   | Inr e \<Rightarrow> write_translated env ty s va real_va data e))"

section \<open>Coprocessor 15\<close>

text \<open>The operations of register 7, with the value they return.\<close>

definition arm926ejs_mmu_cache_ops ::
  "'io arm_env \<Rightarrow> 'io ARMul_State \<Rightarrow> ARMword \<Rightarrow> ARMword \<Rightarrow> (ARMword \<times> 'io ARMul_State) sim" where
  "arm926ejs_mmu_cache_ops env s instr value =
     (let CRm = BITS instr 0 3; OPC_2 = BITS instr 5 7;
          icache = (\<lambda>f s. bind_ok (f s (i_cache (the926 s))) (\<lambda>sc. Inr (put_i_cache sc)));
          dcache = (\<lambda>f s. bind_ok (f s (d_cache (the926 s))) (\<lambda>sc. Inr (put_d_cache sc)));
          done = (\<lambda>r. bind_ok r (\<lambda>s. Inr (0, s)))
      in if OPC_2 = 0 \<and> CRm = 7
         then done (bind_ok (icache (mmu_cache_invalidate_all env) s) (dcache (mmu_cache_invalidate_all env)))
         else if OPC_2 = 0 \<and> CRm = 5 then done (icache (mmu_cache_invalidate_all env) s)
         else if OPC_2 = 1 \<and> CRm = 5 then done (icache (\<lambda>s c. mmu_cache_invalidate env s c value) s)
         else if OPC_2 = 2 \<and> CRm = 5
         then done (icache (\<lambda>s c. mmu_cache_invalidate_by_index env s c value) s)
         else if OPC_2 = 1 \<and> CRm = 13 then Inr (0, s)
         else if OPC_2 = 0 \<and> CRm = 6 then done (dcache (mmu_cache_invalidate_all env) s)
         else if OPC_2 = 1 \<and> CRm = 6 then done (dcache (\<lambda>s c. mmu_cache_invalidate env s c value) s)
         else if OPC_2 = 2 \<and> CRm = 6
         then done (dcache (\<lambda>s c. mmu_cache_invalidate_by_index env s c value) s)
         else if OPC_2 = 1 \<and> CRm = 10 then done (dcache (\<lambda>s c. mmu_cache_clean env s c value) s)
         else if OPC_2 = 1 \<and> CRm = 14
         then done (bind_ok (dcache (\<lambda>s c. mmu_cache_clean env s c value) s)
                      (dcache (\<lambda>s c. mmu_cache_invalidate env s c value)))
         else if OPC_2 = 2 \<and> CRm = 10
         then done (dcache (\<lambda>s c. mmu_cache_clean_by_index env s c value) s)
         else if OPC_2 = 2 \<and> CRm = 14
         then done (bind_ok (dcache (\<lambda>s c. mmu_cache_clean_by_index env s c value) s)
                      (dcache (\<lambda>s c. mmu_cache_invalidate_by_index env s c value)))
         else if OPC_2 = 3 \<and> (CRm = 14 \<or> CRm = 10) then Inr (0x40000000, s)
         else if OPC_2 = 4 \<and> CRm = 10
         then done (bind_ok (mmu_wb_drain_all env s (wbuf (the926 s))) (\<lambda>sw. Inr (put_wbuf sw)))
         else Inr (0, s))"

definition arm926ejs_mmu_tlb_ops :: "'io ARMul_State \<Rightarrow> ARMword \<Rightarrow> ARMword \<Rightarrow> 'io ARMul_State" where
  "arm926ejs_mmu_tlb_ops s instr value =
     (let CRm = BITS instr 0 3; OPC_2 = BITS instr 5 7
      in if OPC_2 = 0 \<and> (CRm = 7 \<or> CRm = 6 \<or> CRm = 5)
         then upd926 (\<lambda>m. m\<lparr>main_tlb := mmu_tlb_invalidate_all (main_tlb m)\<rparr>) s
         else if OPC_2 = 1 \<and> (CRm = 5 \<or> CRm = 7 \<or> CRm = 6)
         then upd926 (\<lambda>m. m\<lparr>main_tlb := mmu_tlb_invalidate_entry (main_tlb m) value\<rparr>) s
         else s)"

definition upd_mmu :: "(mmu_state_t \<Rightarrow> mmu_state_t) \<Rightarrow> 'io ARMul_State \<Rightarrow> 'io ARMul_State" where
  "upd_mmu f s = s\<lparr>mmu := f (mmu s)\<rparr>"

text \<open>Reading a register. The case of the process identifier falls through to the default.\<close>

definition arm926ejs_mmu_mrc ::
  "'io arm_env \<Rightarrow> 'io ARMul_State \<Rightarrow> ARMword \<Rightarrow> (ARMword \<times> 'io ARMul_State) sim" where
  "arm926ejs_mmu_mrc env s instr =
     (let creg = BITS instr 16 19 AND 0xf; OPC_2 = BITS instr 5 7 AND 7; m = mmu s
      in if creg = 0
         then Inr (if OPC_2 = 0 then cpu_val s else if OPC_2 = 1 then 0x1D0D2112 else 0, s)
         else if creg = 1 then Inr ((control m OR 0x50078) AND 0x0005F3FF, s)
         else if creg = 2 then Inr (translation_table_base m AND 0xFFFFC000, s)
         else if creg = 3 then Inr (domain_access_control m, s)
         else if creg = 5 then Inr (if OPC_2 = 0 then fault_status m AND 0xFF else 0, s)
         else if creg = 6 then Inr (fault_address m, s)
         else if creg = 7 then arm926ejs_mmu_cache_ops env s instr 0
         else if creg = 10 then Inr (tlb_locked_down m, s)
         else Inr (0, s))"

definition arm926ejs_mmu_mcr ::
  "'io arm_env \<Rightarrow> 'io ARMul_State \<Rightarrow> ARMword \<Rightarrow> ARMword \<Rightarrow> 'io ARMul_State sim" where
  "arm926ejs_mmu_mcr env s instr value =
     (let creg = BITS instr 16 19 AND 15; OPC_2 = BITS instr 5 7 AND 7
      in if creg = 1 then Inr (upd_mmu (\<lambda>m. m\<lparr>control := (value OR 0x50078) AND 0x0005F3FF\<rparr>) s)
         else if creg = 2
         then Inr (upd_mmu (\<lambda>m. m\<lparr>translation_table_base := value AND 0xFFFFC000\<rparr>) s)
         else if creg = 3 then Inr (upd_mmu (\<lambda>m. m\<lparr>domain_access_control := value\<rparr>) s)
         else if creg = 5
         then Inr (if OPC_2 = 0 then upd_mmu (\<lambda>m. m\<lparr>fault_status := value AND 0xFF\<rparr>) s else s)
         else if creg = 6 then Inr (upd_mmu (\<lambda>m. m\<lparr>fault_address := value\<rparr>) s)
         else if creg = 7 then bind_ok (arm926ejs_mmu_cache_ops env s instr value) (\<lambda>(r, s). Inr s)
         else if creg = 8 then Inr (arm926ejs_mmu_tlb_ops s instr value)
         else if creg = 9 then Inr s
         else if creg = 10 then Inr (upd_mmu (\<lambda>m. m\<lparr>tlb_locked_down := value\<rparr>) s)
         else if creg = 13 then Inr (upd_mmu (\<lambda>m. m\<lparr>process_id := value AND 0xfe000000\<rparr>) s)
         else Inr s)"

section \<open>The table of operations (armmmu.c)\<close>

record 'io mmu_ops_t =
  op_read_byte :: "'io ARMul_State \<Rightarrow> ARMword \<Rightarrow> 'io mmu_result"
  op_write_byte :: "'io ARMul_State \<Rightarrow> ARMword \<Rightarrow> ARMword \<Rightarrow> (fault_t \<times> 'io ARMul_State) sim"
  op_read_halfword :: "'io ARMul_State \<Rightarrow> ARMword \<Rightarrow> 'io mmu_result"
  op_write_halfword :: "'io ARMul_State \<Rightarrow> ARMword \<Rightarrow> ARMword \<Rightarrow> (fault_t \<times> 'io ARMul_State) sim"
  op_read_word :: "'io ARMul_State \<Rightarrow> ARMword \<Rightarrow> 'io mmu_result"
  op_write_word :: "'io ARMul_State \<Rightarrow> ARMword \<Rightarrow> ARMword \<Rightarrow> (fault_t \<times> 'io ARMul_State) sim"
  op_load_instr :: "'io ARMul_State \<Rightarrow> ARMword \<Rightarrow> 'io mmu_result"
  op_mcr :: "'io ARMul_State \<Rightarrow> ARMword \<Rightarrow> ARMword \<Rightarrow> 'io ARMul_State sim"
  op_mrc :: "'io ARMul_State \<Rightarrow> ARMword \<Rightarrow> (ARMword \<times> 'io ARMul_State) sim"

definition arm926ejs_mmu_ops :: "'io arm_env \<Rightarrow> 'io mmu_ops_t" where
  "arm926ejs_mmu_ops env =
     \<lparr>op_read_byte = arm926ejs_mmu_read env ARM_BYTE_TYPE,
      op_write_byte = arm926ejs_mmu_write env ARM_BYTE_TYPE,
      op_read_halfword = arm926ejs_mmu_read env ARM_HALFWORD_TYPE,
      op_write_halfword = arm926ejs_mmu_write env ARM_HALFWORD_TYPE,
      op_read_word = arm926ejs_mmu_read env ARM_WORD_TYPE,
      op_write_word = arm926ejs_mmu_write env ARM_WORD_TYPE,
      op_load_instr = arm926ejs_mmu_load_instr env,
      op_mcr = arm926ejs_mmu_mcr env,
      op_mrc = arm926ejs_mmu_mrc env\<rparr>"

section \<open>The address space of a running MMU\<close>

text \<open>
  States that differ in the bank pointers, the last domain and the main buffer only: what
  translation may change.
\<close>

definition vquiet :: "'io ARMul_State \<Rightarrow> 'io ARMul_State \<Rightarrow> bool" where
  "vquiet s t \<longleftrightarrow> (\<exists>u tl. quiet s u \<and> t = upd926 (\<lambda>m. m\<lparr>main_tlb := tl\<rparr>) u)"

lemma upd926_frame [simp]:
  "mem (upd926 f s) = mem s" "Mode (upd926 f s) = Mode s" "is_XScale (upd926 f s) = is_XScale s"
  "bigendSig (upd926 f s) = bigendSig s" "vector_remap_flag (upd926 f s) = vector_remap_flag s"
  "vector_remap_size (upd926 f s) = vector_remap_size s" "Reg (upd926 f s) = Reg s"
  "control (mmu (upd926 f s)) = control (mmu s)" "process_id (mmu (upd926 f s)) = process_id (mmu s)"
  "translation_table_base (mmu (upd926 f s)) = translation_table_base (mmu s)"
  "domain_access_control (mmu (upd926 f s)) = domain_access_control (mmu s)"
  "arm926ejs_mmu (mmu (upd926 f s)) = f (arm926ejs_mmu (mmu s))"
  by (simp_all add: upd926_def)

lemma upd926_memory [simp]:
  "peek_word (upd926 f s) = peek_word s" "mapped (upd926 f s) = mapped s"
  "ram_ok (upd926 f s) = ram_ok s" "tables_in_ram (upd926 f s) = tables_in_ram s"
  "tables_regular (upd926 f s) = tables_regular s" "tlb_inv (upd926 f s) = tlb_inv s"
proof -
  show p: "peek_word (upd926 f s) = peek_word s" by (simp add: peek_word_def fun_eq_iff)
  show m: "mapped (upd926 f s) = mapped s" by (simp add: mapped_def p)
  show r: "ram_ok (upd926 f s) = ram_ok s" by (simp add: ram_ok_def fun_eq_iff)
  show "tables_in_ram (upd926 f s) = tables_in_ram s" by (simp add: tables_in_ram_def fun_eq_iff p r)
  show "tables_regular (upd926 f s) = tables_regular s" unfolding tables_regular_def m ..
  show "tlb_inv (upd926 f s) = tlb_inv s" by (simp add: tlb_inv_def fun_eq_iff m)
qed

lemma quiet_more:
  assumes "quiet s t"
  shows "Mode t = Mode s" "bigendSig t = bigendSig s" "control (mmu t) = control (mmu s)"
    "process_id (mmu t) = process_id (mmu s)" "domain_access_control (mmu t) = domain_access_control (mmu s)"
    "arm926ejs_mmu (mmu t) = arm926ejs_mmu (mmu s)"
  using assms by (auto simp: quiet_def same_memory_def set_last_domain_def)

lemma vquiet_frame:
  assumes "vquiet s t"
  shows "peek_word t = peek_word s" "mapped t = mapped s" "Mode t = Mode s" "bigendSig t = bigendSig s"
    "control (mmu t) = control (mmu s)" "process_id (mmu t) = process_id (mmu s)"
    "domain_access_control (mmu t) = domain_access_control (mmu s)"
    "d_cache (arm926ejs_mmu (mmu t)) = d_cache (arm926ejs_mmu (mmu s))"
    "wbuf (arm926ejs_mmu (mmu t)) = wbuf (arm926ejs_mmu (mmu s))"
  using assms by (auto simp: vquiet_def quiet_frame quiet_mapped quiet_more)

text \<open>
  The running MMU: tables in RAM and regular, a coherent main buffer, an empty write buffer and a
  data cache without valid lines (neither is filled in this build).
\<close>

definition vm_ok :: "'io arm_env \<Rightarrow> 'io ARMul_State \<Rightarrow> bool" where
  "vm_ok env s \<longleftrightarrow> MMU_Enabled s \<and> mmu_state_ok env (s, main_tlb (arm926ejs_mmu (mmu s)))
     \<and> wb_used (wbuf (arm926ejs_mmu (mmu s))) = 0
     \<and> (\<forall>va. mmu_cache_search (d_cache (arm926ejs_mmu (mmu s))) va = None)"

text \<open>When the permission check passes, as a predicate.\<close>

definition access_ok :: "'io ARMul_State \<Rightarrow> ARMword \<Rightarrow> tlb_entry_t \<Rightarrow> bool \<Rightarrow> bool" where
  "access_ok s va e read \<longleftrightarrow>
     (let access = drop_bit (unat (domain e * 2)) (domain_access_control (mmu s)) AND 3
      in access = 3 \<or> access = 1 \<and> (\<exists>sp. subpage_of (mapping e) va = Inr sp
           \<and> check_perms s (drop_bit (unat (sp * 2 + 4)) (perms e) AND 3) read))"

lemma subpage_of_valid: "m \<noteq> TLB_INVALID \<Longrightarrow> \<exists>sp. subpage_of m va = Inr sp"
  by (cases m) auto

lemma check_perms_domain [simp]: "check_perms (set_last_domain d s) ap r = check_perms s ap r"
  by (simp add: check_perms_def set_last_domain_def Let_def)

lemma check_access_total:
  assumes "mapping e \<noteq> TLB_INVALID"
  shows "\<exists>f. check_access s va e r = Inr (f, set_last_domain (domain e) s)
    \<and> (f = NO_FAULT \<longleftrightarrow> access_ok s va e r)"
proof -
  obtain sp where sp: "subpage_of (mapping e) va = Inr sp" using subpage_of_valid [OF assms] by blast
  have dac: "domain_access_control (mmu (set_last_domain d s)) = domain_access_control (mmu s)" for d
    by (simp add: set_last_domain_def)
  from and3_cases [of "drop_bit (unat (domain e * 2)) (domain_access_control (mmu s))"] show ?thesis
    by (elim disjE) (simp_all add: check_access_def access_ok_def sp dac Let_def)
qed

text \<open>Translation and permission check on a running MMU: the outcome, and that it runs on.\<close>

lemma access_main_total:
  assumes ok: "vm_ok env s"
  shows "\<exists>r t. access_main env s va rd = Inr (r, t) \<and> vquiet s t \<and> vm_ok env t
    \<and> (case mapped s va of
         None \<Rightarrow> r = Inl PAGE_TRANSLATION_FAULT
       | Some e \<Rightarrow> if access_ok s va e rd then r = Inr e else \<exists>f. f \<noteq> NO_FAULT \<and> r = Inl f)"
proof -
  let ?tl = "main_tlb (arm926ejs_mmu (mmu s))"
  have inv: "tlb_inv s ?tl" "tables_regular s" "tables_in_ram s va" "stack_depth env \<noteq> 0"
    using ok by (auto simp: vm_ok_def mmu_state_ok_def)
  obtain f i tl u where tr: "translate env s va ?tl = Inr (f, i, tl, u)" "quiet s u" "tlb_inv u tl"
    and c: "case mapped s va of
         None \<Rightarrow> f = PAGE_TRANSLATION_FAULT \<and> i = None \<and> tl = ?tl
       | Some e \<Rightarrow> f = NO_FAULT \<and> (\<exists>k. i = Some k \<and> k < length (tlb_entrys tl) \<and> tlb_entrys tl ! k = e)
           \<and> last_domain (mmu u) = domain e"
    using translate_hit_or_walk [OF inv] by blast
  let ?t = "upd926 (\<lambda>m. m\<lparr>main_tlb := tl\<rparr>) u"
  have tm: "translate_main env s va = Inr (f, i, ?t)" using tr(1) by (simp add: translate_main_def)
  have vq: "vquiet s ?t" using tr(2) by (auto simp: vquiet_def)
  have keep: "vm_ok env (set_last_domain d ?t) \<and> vquiet s (set_last_domain d ?t)" for d
  proof -
    have e: "set_last_domain d ?t = upd926 (\<lambda>m. m\<lparr>main_tlb := tl\<rparr>) (set_last_domain d u)"
      by (simp add: upd926_def set_last_domain_def)
    have q: "quiet s (set_last_domain d u)" using tr(2) by (rule quiet_domain)
    have m: "mapped (set_last_domain d u) = mapped u" using quiet_mapped [OF q] quiet_mapped [OF tr(2)] by simp
    have inv': "tlb_inv (set_last_domain d u) tl" using tlb_inv_quiet [OF q] tlb_inv_quiet [OF tr(2)] tr(3) by simp
    have "vm_ok env (upd926 (\<lambda>m. m\<lparr>main_tlb := tl\<rparr>) (set_last_domain d u))"
      using ok inv' quiet_regular [OF q] quiet_tables [OF q] quiet_more [OF q]
      by (simp add: vm_ok_def mmu_state_ok_def MMU_Enabled_def)
    then show ?thesis using q e by (auto simp: vquiet_def)
  qed
  show ?thesis
  proof (cases "mapped s va")
    case None
    then have "access_main env s va rd = Inr (Inl PAGE_TRANSLATION_FAULT, ?t)"
      using c tm by (simp add: access_main_def)
    moreover have "?t = set_last_domain (last_domain (mmu ?t)) ?t" by (simp add: set_last_domain_def)
    ultimately show ?thesis using keep None by (metis (mono_tags, lifting) option.simps(4))
  next
    case (Some e)
    then obtain k where k: "f = NO_FAULT" "i = Some k" "tlb_entrys tl ! k = e" using c by auto
    obtain g where g: "check_access ?t va e rd = Inr (g, set_last_domain (domain e) ?t)"
        "g = NO_FAULT \<longleftrightarrow> access_ok ?t va e rd"
      using check_access_total [OF mapped_entry(1) [OF Some]] by blast
    have "access_ok ?t va e rd = access_ok s va e rd"
      using vquiet_frame [OF vq] by (simp add: access_ok_def check_perms_def)
    then show ?thesis using g k tm keep [of "domain e"] Some
      by (auto simp: access_main_def)
  qed
qed

section \<open>Data accesses on a running MMU\<close>

fun peek_typed :: "arm_datatype \<Rightarrow> 'io ARMul_State \<Rightarrow> ARMword \<Rightarrow> ARMword" where
  "peek_typed ARM_BYTE_TYPE s a = peek_byte s a"
| "peek_typed ARM_HALFWORD_TYPE s a = peek_halfword s a"
| "peek_typed ARM_WORD_TYPE s a = peek_word s a"

lemma mem_read_typed_ram:
  assumes "ram_ok s a" "stack_depth env \<noteq> 0"
  shows "\<exists>t. mem_read_typed env ty s a = Inr (peek_typed ty s a, t) \<and> same_memory s t"
proof -
  obtain n where "stack_depth env = Suc n" using assms(2) by (metis not0_implies_Suc)
  then show ?thesis using mem_read_ram [OF assms(1), of env n] by (cases ty) simp_all
qed

lemma drain_empty: "wb_used w = 0 \<Longrightarrow> mmu_wb_drain_all env s w = Inr (s, w)"
  by (subst mmu_wb_drain_all.simps) simp

lemma put_wbuf_same [simp]: "put_wbuf (s, wbuf (arm926ejs_mmu (mmu s))) = s"
  by (simp add: put_wbuf_def upd926_def)

lemma vm_ok_quiet:
  assumes "vm_ok env s" "quiet s t"
  shows "vm_ok env t"
  using assms tlb_inv_quiet [OF assms(2)] quiet_regular [OF assms(2)] quiet_tables [OF assms(2)]
    quiet_more [OF assms(2)]
  by (simp add: vm_ok_def mmu_state_ok_def MMU_Enabled_def)

lemma vquiet_ram_ok:
  assumes "vquiet s t" "ram_ok s a"
  shows "ram_ok t b = ram_ok s b"
proof -
  obtain u d tl where "same_memory s u" "t = upd926 (\<lambda>m. m\<lparr>main_tlb := tl\<rparr>) (set_last_domain d u)"
    using assms(1) by (auto simp: vquiet_def quiet_def)
  then show ?thesis using same_memory_peek(4) [of s u a b] assms(2)
    by (simp add: ram_ok_def set_last_domain_def)
qed

lemma vquiet_peek_typed: "vquiet s t \<Longrightarrow> peek_typed ty t a = peek_typed ty s a"
  by (cases ty) (simp_all add: peek_byte_def peek_halfword_def vquiet_frame)

lemma vquiet_quiet: "vquiet s t \<Longrightarrow> quiet t u \<Longrightarrow> vquiet s u"
proof -
  assume v: "vquiet s t" and q: "quiet t u"
  obtain m d tl where m: "t = upd926 (\<lambda>m. m\<lparr>main_tlb := tl\<rparr>) (set_last_domain d (s\<lparr>mem := m\<rparr>))"
    "mem_banks m = mem_banks (mem s)" "rom m = rom (mem s)"
    using v by (auto simp: vquiet_def quiet_def same_memory_def)
  obtain m' d' where m': "u = set_last_domain d' (t\<lparr>mem := m'\<rparr>)" "mem_banks m' = mem_banks (mem t)"
    "rom m' = rom (mem t)" "cache_ok m'"
    using q by (auto simp: quiet_def same_memory_def)
  have "same_memory s (s\<lparr>mem := m'\<rparr>)" unfolding same_memory_def using m m'(2-4) by (intro exI [of _ m']) (simp add: set_last_domain_def)
  then have "quiet s (set_last_domain d' (s\<lparr>mem := m'\<rparr>))" by (auto simp: quiet_def)
  moreover have "u = upd926 (\<lambda>m. m\<lparr>main_tlb := tl\<rparr>) (set_last_domain d' (s\<lparr>mem := m'\<rparr>))"
    unfolding m'(1) m(1) by (simp add: upd926_def set_last_domain_def)
  ultimately show ?thesis by (auto simp: vquiet_def)
qed

text \<open>The physical address of an access, and the addresses that the read treats specially.\<close>

definition phys :: "'io ARMul_State \<Rightarrow> arm_datatype \<Rightarrow> ARMword \<Rightarrow> tlb_entry_t \<Rightarrow> ARMword" where
  "phys s ty va e =
     (let real_va = mmu_pid_va_map s va in typed_pa ty (tlb_va_to_pa e (real_va AND NOT 3)) real_va)"

definition in_window :: "'io ARMul_State \<Rightarrow> ARMword \<Rightarrow> tlb_entry_t \<Rightarrow> bool" where
  "in_window s va e \<longleftrightarrow>
     (let pa = tlb_va_to_pa e (mmu_pid_va_map s va AND NOT 3) in 0xe0000000 \<le> pa \<and> pa < 0xe8000000)"

text \<open>
  An access that is mapped, permitted, and aligned where the control register asks for alignment checks (\<^verbatim>\<open>MMU_Aligned\<close>); with
  the checks off, alignment does not count.
\<close>

definition grants :: "'io ARMul_State \<Rightarrow> arm_datatype \<Rightarrow> ARMword \<Rightarrow> bool \<Rightarrow> tlb_entry_t \<Rightarrow> bool" where
  "grants s ty va rd e \<longleftrightarrow>
     (let real_va = mmu_pid_va_map s va
      in \<not> align_fault s real_va ty \<and> mapped s (real_va AND NOT 3) = Some e
         \<and> access_ok s (real_va AND NOT 3) e rd)"

lemma mmu_read_granted:
  assumes ok: "vm_ok env s" and g: "grants s ty va True e"
    and ram: "ram_ok s (phys s ty va e)" and win: "\<not> in_window s va e"
  shows "\<exists>t. arm926ejs_mmu_read env ty s va = Inr (NO_FAULT, Some (peek_typed ty s (phys s ty va e)), t)
    \<and> vquiet s t \<and> vm_ok env t"
proof -
  define rv where "rv = mmu_pid_va_map s va"
  define a where "a = typed_pa ty (tlb_va_to_pa e (rv AND NOT 3)) rv"
  have a: "phys s ty va e = a" by (simp add: phys_def a_def rv_def Let_def)
  have gr: "\<not> align_fault s rv ty" "mapped s (rv AND NOT 3) = Some e" "access_ok s (rv AND NOT 3) e True"
    using g unfolding grants_def rv_def Let_def by blast+
  obtain t where t: "access_main env s (rv AND NOT 3) True = Inr (Inr e, t)" "vquiet s t" "vm_ok env t"
    using access_main_total [OF ok, of "rv AND NOT 3" True] gr by auto
  have rt: "ram_ok t a" using vquiet_ram_ok [OF t(2) ram, of a] ram a by simp
  have d: "stack_depth env \<noteq> 0" "MMU_Enabled s" using ok by (auto simp: vm_ok_def mmu_state_ok_def)
  obtain u where u: "mem_read_typed env ty t a = Inr (peek_typed ty t a, u)" "same_memory t u"
    using mem_read_typed_ram [OF rt d(1)] by blast
  have w: "wb_used (wbuf (arm926ejs_mmu (mmu t))) = 0" using t(3) by (simp add: vm_ok_def)
  have rd: "read_translated env ty t (rv AND NOT 3) rv e = Inr (NO_FAULT, Some (peek_typed ty t a), u)"
  proof -
    have "\<not> (0xe0000000 \<le> tlb_va_to_pa e (rv AND NOT 3) \<and> tlb_va_to_pa e (rv AND NOT 3) < 0xe8000000)"
      using win unfolding in_window_def rv_def Let_def .
    then show ?thesis using u(1) drain_empty [OF w, of env t] unfolding a_def
      by (auto simp: read_translated_def Let_def simp del: not_le not_less)
  qed
  have "arm926ejs_mmu_read env ty s va = Inr (NO_FAULT, Some (peek_typed ty t a), u)"
    using d(2) gr t(1) rd by (simp add: arm926ejs_mmu_read_def Let_def flip: rv_def)
  moreover have "quiet t u" using u(2) by (rule same_memory_quiet)
  ultimately show ?thesis
    using a vquiet_peek_typed [OF t(2), of ty a] vm_ok_quiet [OF t(3)] vquiet_quiet [OF t(2)] by simp
qed

text \<open>What a granted write does: it pokes one word of RAM, after a translation.\<close>

fun merged :: "arm_datatype \<Rightarrow> 'io ARMul_State \<Rightarrow> ARMword \<Rightarrow> ARMword \<Rightarrow> ARMword" where
  "merged ARM_BYTE_TYPE s a d = (peek_word s a AND NOT (push_bit (byte_offset (bigendSig s) a) 0xff))
         OR push_bit (byte_offset (bigendSig s) a) (d AND 0xff)"
| "merged ARM_HALFWORD_TYPE s a d = (peek_word s a AND NOT (push_bit (halfword_offset (bigendSig s) a) 0xffff))
         OR push_bit (halfword_offset (bigendSig s) a) (d AND 0xffff)"
| "merged ARM_WORD_TYPE s a d = d"

lemma mem_write_typed_ram:
  assumes "ram_ok s a" "stack_depth env \<noteq> 0"
  shows "\<exists>t. mem_write_typed env ty s a d = Inr t \<and> poke s a (merged ty s a d) t"
proof -
  obtain n where "stack_depth env = Suc n" using assms(2) by (metis not0_implies_Suc)
  then show ?thesis using mem_write_ram [OF assms(1), of env n d] by (cases ty) simp_all
qed

lemma mmu_write_granted:
  assumes ok: "vm_ok env s" and g: "grants s ty va False e" and ram: "ram_ok s (phys s ty va e)"
  shows "\<exists>t u. vquiet s t \<and> vm_ok env t \<and> ram_ok t (phys s ty va e)
    \<and> poke t (phys s ty va e) (merged ty t (phys s ty va e) d) u
    \<and> arm926ejs_mmu_write env ty s va d = Inr (NO_FAULT, u)"
proof -
  define rv where "rv = mmu_pid_va_map s va"
  define a where "a = typed_pa ty (tlb_va_to_pa e (rv AND NOT 3)) rv"
  have a: "phys s ty va e = a" by (simp add: phys_def a_def rv_def Let_def)
  have gr: "\<not> align_fault s rv ty" "mapped s (rv AND NOT 3) = Some e" "access_ok s (rv AND NOT 3) e False"
    using g unfolding grants_def rv_def Let_def by blast+
  obtain t where t: "access_main env s (rv AND NOT 3) False = Inr (Inr e, t)" "vquiet s t" "vm_ok env t"
    using access_main_total [OF ok, of "rv AND NOT 3" False] gr by auto
  have rt: "ram_ok t a" using vquiet_ram_ok [OF t(2) ram, of a] ram a by simp
  have d: "stack_depth env \<noteq> 0" "MMU_Enabled s" using ok by (auto simp: vm_ok_def mmu_state_ok_def)
  obtain u where u: "mem_write_typed env ty t a d = Inr u" "poke t a (merged ty t a d) u"
    using mem_write_typed_ram [OF rt d(1)] by blast
  have w: "wb_used (wbuf (arm926ejs_mmu (mmu t))) = 0"
    "mmu_cache_search (d_cache (arm926ejs_mmu (mmu t))) va' = None" for va'
    using t(3) by (simp_all add: vm_ok_def)
  have wr: "write_translated env ty t (rv AND NOT 3) rv d e = Inr (NO_FAULT, u)"
    using u(1) drain_empty [OF w(1), of env t] w(2) by (simp add: write_translated_def a_def)
  have "arm926ejs_mmu_write env ty s va d = Inr (NO_FAULT, u)"
    using d(2) gr t(1) wr by (simp add: arm926ejs_mmu_write_def Let_def flip: rv_def)
  then show ?thesis using t(2,3) rt u(2) a by metis
qed


section \<open>Writes beside the tables\<close>

text \<open>An address that is no word of the translation tables.\<close>

definition tables_avoid :: "'io ARMul_State \<Rightarrow> ARMword \<Rightarrow> bool" where
  "tables_avoid s a \<longleftrightarrow>
     (\<forall>va. let l1 = l1_addr (translation_table_base (mmu s)) va; l1desc = peek_word s l1
           in drop_bit 2 a \<noteq> drop_bit 2 l1
              \<and> (l1desc AND 3 = 3 \<longrightarrow> drop_bit 2 a \<noteq> drop_bit 2 (fine_addr l1desc va))
              \<and> (l1desc AND 3 = 1 \<longrightarrow> drop_bit 2 a \<noteq> drop_bit 2 (coarse_addr l1desc va)))"

lemma poke_frame:
  assumes "poke s a w t"
  shows "mmu t = mmu s" "is_XScale t = is_XScale s" "Mode t = Mode s"
  using assms by (auto simp: poke_def same_memory_def put_cell_def)

lemma poke_tables:
  assumes p: "poke s a w t" and ok: "ram_ok s a" and av: "tables_avoid s a" and ram: "\<forall>va. tables_in_ram s va"
  shows "mapped t = mapped s" "\<forall>va. tables_in_ram t va"
proof -
  let ?l1 = "\<lambda>va. l1_addr (translation_table_base (mmu s)) va"
  let ?d = "\<lambda>va. peek_word s (?l1 va)"
  have rk: "ram_ok s (?l1 va)" "?d va AND 3 = 3 \<Longrightarrow> ram_ok s (fine_addr (?d va) va)"
    "?d va AND 3 = 1 \<Longrightarrow> ram_ok s (coarse_addr (?d va) va)" for va
    using ram by (auto simp: tables_in_ram_def Let_def)
  have ne: "drop_bit 2 a \<noteq> drop_bit 2 (?l1 va)"
    "?d va AND 3 = 3 \<Longrightarrow> drop_bit 2 a \<noteq> drop_bit 2 (fine_addr (?d va) va)"
    "?d va AND 3 = 1 \<Longrightarrow> drop_bit 2 a \<noteq> drop_bit 2 (coarse_addr (?d va) va)" for va
    using av unfolding tables_avoid_def Let_def by blast+
  note pk = poke_peek(3) [OF p ok]
  have 1: "peek_word t (?l1 va) = ?d va" for va using pk [OF rk(1)] ne(1) by simp
  have 2: "?d va AND 3 = 3 \<Longrightarrow> peek_word t (fine_addr (?d va) va) = peek_word s (fine_addr (?d va) va)" for va
    using pk [OF rk(2)] ne(2) by simp
  have 3: "?d va AND 3 = 1 \<Longrightarrow> peek_word t (coarse_addr (?d va) va) = peek_word s (coarse_addr (?d va) va)" for va
    using pk [OF rk(3)] ne(3) by simp
  show "mapped t = mapped s"
    using 1 2 3 poke_frame [OF p] by (simp add: mapped_def table_entry_def fun_eq_iff Let_def)
  show "\<forall>va. tables_in_ram t va"
    using ram 1 poke_frame(1) [OF p] poke_peek(2) [OF p ok] by (simp add: tables_in_ram_def Let_def)
qed

lemma vm_ok_poke:
  assumes "vm_ok env s" "poke s a w t" "ram_ok s a" "tables_avoid s a"
  shows "vm_ok env t" "mapped t = mapped s"
proof -
  have ram: "\<forall>va. tables_in_ram s va" using assms(1) by (simp add: vm_ok_def mmu_state_ok_def)
  note pt = poke_tables [OF assms(2,3,4) ram]
  show "mapped t = mapped s" by (rule pt(1))
  have "tables_regular t = tables_regular s" unfolding tables_regular_def pt(1) ..
  moreover have "tlb_inv t = tlb_inv s" by (simp add: tlb_inv_def fun_eq_iff pt(1))
  ultimately show "vm_ok env t"
    using assms(1) pt(2) poke_frame(1) [OF assms(2)]
    by (simp add: vm_ok_def mmu_state_ok_def MMU_Enabled_def)
qed

lemma vquiet_avoid: "vquiet s t \<Longrightarrow> tables_avoid t a = tables_avoid s a"
proof -
  assume q: "vquiet s t"
  have "translation_table_base (mmu t) = translation_table_base (mmu s)"
    using q by (auto simp: vquiet_def quiet_frame)
  then show ?thesis using vquiet_frame(1) [OF q] by (simp add: tables_avoid_def)
qed

text \<open>A granted access stays granted when the mapping and the control registers do not change.\<close>

lemma grants_cong:
  assumes "mapped t = mapped s" "Mode t = Mode s" "control (mmu t) = control (mmu s)"
    "process_id (mmu t) = process_id (mmu s)" "domain_access_control (mmu t) = domain_access_control (mmu s)"
  shows "grants t ty va rd e = grants s ty va rd e" "phys t ty va e = phys s ty va e"
    "in_window t va e = in_window s va e"
  using assms
  by (simp_all add: grants_def phys_def in_window_def mmu_pid_va_map_def align_fault_def MMU_Aligned_def
      access_ok_def check_perms_def Let_def)


section \<open>A concrete running MMU\<close>

definition vm926 :: "ARMword \<Rightarrow> ARMword \<Rightarrow> unit ARMul_State" where
  "vm926 dac md =
     upd926 (\<lambda>m. m\<lparr>main_tlb := vm_tlb\<rparr>)
       (vm_state\<lparr>mmu := (mmu vm_state)\<lparr>domain_access_control := dac\<rparr>, Mode := md\<rparr>)"

lemma vm926_mem: "mem (vm926 dac md) = mem vm_state" "mapped (vm926 dac md) = mapped vm_state"
  "ram_ok (vm926 dac md) = ram_ok vm_state" "peek_word (vm926 dac md) = peek_word vm_state"
  "translation_table_base (mmu (vm926 dac md)) = 0" "control (mmu (vm926 dac md)) = 1"
  "process_id (mmu (vm926 dac md)) = 0" "domain_access_control (mmu (vm926 dac md)) = dac"
  "Mode (vm926 dac md) = md"
proof -
  show p: "peek_word (vm926 dac md) = peek_word vm_state"
    by (simp add: vm926_def) (simp add: peek_word_def fun_eq_iff)
  show "mapped (vm926 dac md) = mapped vm_state"
    unfolding mapped_def p by (simp add: vm926_def fun_eq_iff)
  show "ram_ok (vm926 dac md) = ram_ok vm_state"
    by (simp add: vm926_def) (simp add: ram_ok_def fun_eq_iff)
qed (simp_all add: vm926_def vm_state_def mmu_zero_def)

lemma vm926_ok: "vm_ok bare_env (vm926 dac md)"
proof -
  have "tables_in_ram (vm926 dac md) va" for va
    using vm_tables(1) [of va] by (simp add: tables_in_ram_def vm926_mem)
      (simp add: vm_state_def mmu_zero_def)
  moreover have "tables_regular (vm926 dac md)"
    using vm_tables(2) unfolding tables_regular_def vm926_mem .
  moreover have "tlb_inv (vm926 dac md) vm_tlb" by (simp add: vm_tlb_def init_tlb_inv)
  ultimately show ?thesis
    by (simp add: vm_ok_def mmu_state_ok_def MMU_Enabled_def vm926_mem bare_env_def)
      (simp add: vm926_def vm_state_def mmu_zero_def cache_zero_def mmu_cache_search_def)
qed

lemma ungranted_store:
  assumes "vm_ok env s" "\<not> (\<exists>e. grants s ty va False e)"
  shows "\<exists>f t. arm926ejs_mmu_write env ty s va d = Inr (f, t) \<and> f \<noteq> NO_FAULT \<and> (t = s \<or> vquiet s t)"
proof -
  define rv where "rv = mmu_pid_va_map s va"
  have en: "MMU_Enabled s" using assms(1) by (simp add: vm_ok_def)
  show ?thesis
  proof (cases "align_fault s rv ty")
    case True
    then have "arm926ejs_mmu_write env ty s va d = Inr (ALIGNMENT_FAULT, s)"
      using en by (simp add: arm926ejs_mmu_write_def Let_def flip: rv_def)
    then show ?thesis by simp
  next
    case False
    obtain r t where t: "access_main env s (rv AND NOT 3) False = Inr (r, t)" "vquiet s t"
      and c: "case mapped s (rv AND NOT 3) of
         None \<Rightarrow> r = Inl PAGE_TRANSLATION_FAULT
       | Some e \<Rightarrow> if access_ok s (rv AND NOT 3) e False then r = Inr e else \<exists>f. f \<noteq> NO_FAULT \<and> r = Inl f"
      using access_main_total [OF assms(1)] by blast
    have ng: "\<not> access_ok s (rv AND NOT 3) e False" if "mapped s (rv AND NOT 3) = Some e" for e
      using assms(2) False that unfolding grants_def rv_def Let_def by blast
    then obtain f where f: "f \<noteq> NO_FAULT" "r = Inl f" using c by (auto split: option.splits)
    have "arm926ejs_mmu_write env ty s va d = Inr (f, t)"
      using en False t(1) f(2) by (simp add: arm926ejs_mmu_write_def Let_def flip: rv_def)
    then show ?thesis using f(1) t(2) by auto
  qed
qed

section \<open>The claims on the MMU\<close>

text \<open>
  C7: memory protection. On a running MMU, a write of any size to an address that the tables do not map, or that they
  map without permission for the mode and the domain, returns a fault and changes no word of memory; so does, while
  alignment checking is enabled, a word or halfword write to a misaligned address. With alignment checking disabled a
  misaligned address is not a reason for a fault.
\<close>

theorem ungranted_write_faults:
  assumes "vm_ok env s" "\<not> (\<exists>e. grants s ty va False e)"
  shows "\<exists>f t. arm926ejs_mmu_write env ty s va d = Inr (f, t) \<and> f \<noteq> NO_FAULT
    \<and> (\<forall>a. peek_word t a = peek_word s a)"
  using ungranted_store [OF assms, of d] vquiet_frame(1) by metis

theorem ungranted_write_faults_witness:
  "\<exists>f t. arm926ejs_mmu_write bare_env ARM_WORD_TYPE (vm926 0 USER32MODE) 0x308000 7 = Inr (f, t)
    \<and> f \<noteq> NO_FAULT \<and> (\<forall>a. peek_word t a = peek_word (vm926 0 USER32MODE) a)"
  by (rule ungranted_write_faults [OF vm926_ok]) (simp_all add: grants_def access_ok_def vm926_mem Let_def)

text \<open>
  C31: virtual memory works. A word that a granted write stores through the MMU, at an address outside
  the translation tables, is returned by the next granted read of the same virtual address.
\<close>

theorem mmu_word_roundtrip:
  assumes "vm_ok env s" "grants s ARM_WORD_TYPE va False e" "grants s ARM_WORD_TYPE va True e"
    and "ram_ok s (phys s ARM_WORD_TYPE va e)" "tables_avoid s (phys s ARM_WORD_TYPE va e)"
    and "\<not> in_window s va e"
  shows "\<exists>t u. arm926ejs_mmu_write env ARM_WORD_TYPE s va d = Inr (NO_FAULT, t)
    \<and> arm926ejs_mmu_read env ARM_WORD_TYPE t va = Inr (NO_FAULT, Some d, u)"
proof -
  let ?a = "phys s ARM_WORD_TYPE va e"
  obtain q t where q: "vquiet s q" "vm_ok env q" "ram_ok q ?a" "poke q ?a d t"
      "arm926ejs_mmu_write env ARM_WORD_TYPE s va d = Inr (NO_FAULT, t)"
    using mmu_write_granted [OF assms(1,2,4), of d] by auto
  have av: "tables_avoid q ?a" using vquiet_avoid [OF q(1)] assms(5) by simp
  note v = vm_ok_poke [OF q(2,4,3) av]
  note same = poke_frame [OF q(4)] vquiet_frame [OF q(1)]
  have g: "grants t ARM_WORD_TYPE va True e" "phys t ARM_WORD_TYPE va e = ?a" "\<not> in_window t va e"
    using grants_cong [of t s] v(2) same assms(3,6) by simp_all
  have "ram_ok t (phys t ARM_WORD_TYPE va e)" using g(2) poke_peek(2) [OF q(4,3)] q(3) by simp
  then obtain u where "arm926ejs_mmu_read env ARM_WORD_TYPE t va = Inr (NO_FAULT, Some (peek_word t ?a), u)"
    using mmu_read_granted [OF v(1) g(1) _ g(3)] g(2) by auto
  moreover have "peek_word t ?a = d" using poke_peek(3) [OF q(4,3) q(3)] by simp
  ultimately show ?thesis using q(5) by auto
qed

lemma vm926_section: "mapped (vm926 dac md) va = Some (section_entry va 0xC02)"
  by (simp add: vm926_mem vm_mapped)

theorem mmu_word_roundtrip_witness:
  "\<exists>t u. arm926ejs_mmu_write bare_env ARM_WORD_TYPE (vm926 1 USER32MODE) 0x308000 7 = Inr (NO_FAULT, t)
    \<and> arm926ejs_mmu_read bare_env ARM_WORD_TYPE t 0x308000 = Inr (NO_FAULT, Some 7, u)"
proof (rule mmu_word_roundtrip [OF vm926_ok, where e = "section_entry 0x308000 0xC02"])
  have rv: "mmu_pid_va_map (vm926 1 USER32MODE) 0x308000 = 0x308000"
    by (simp add: mmu_pid_va_map_def vm926_mem)
  have pa: "tlb_va_to_pa (section_entry 0x308000 0xC02) 0x308000 = 0x8000"
    by (simp add: tlb_va_to_pa_def section_entry_def mk_entry_def)
  show "grants (vm926 1 USER32MODE) ARM_WORD_TYPE 0x308000 False (section_entry 0x308000 0xC02)"
    "grants (vm926 1 USER32MODE) ARM_WORD_TYPE 0x308000 True (section_entry 0x308000 0xC02)"
    unfolding grants_def rv align_fault_def access_ok_def vm926_mem(5-9) vm926_section check_perms_def Let_def
    by (simp_all add: section_entry_def mk_entry_def domain_of_def vm_mapped vm926_mem(2))
  have ph: "phys (vm926 1 USER32MODE) ARM_WORD_TYPE 0x308000 (section_entry 0x308000 0xC02) = 0x8000"
    using pa by (simp add: phys_def rv)
  show "ram_ok (vm926 1 USER32MODE) (phys (vm926 1 USER32MODE) ARM_WORD_TYPE 0x308000 (section_entry 0x308000 0xC02))"
    by (simp add: ph vm926_mem vm_ram_ok)
  have "drop_bit 2 (0x8000 :: ARMword) \<noteq> drop_bit 2 (l1_addr 0 v)" for v
    using l1_addr_0 [of v] unfolding word_drop2_eq word_less_nat_alt by auto
  moreover have "peek_word vm_state a = 0xC02" for a by (simp add: peek_word_def vm_state_def)
  ultimately show "tables_avoid (vm926 1 USER32MODE)
      (phys (vm926 1 USER32MODE) ARM_WORD_TYPE 0x308000 (section_entry 0x308000 0xC02))"
    unfolding ph by (simp add: tables_avoid_def vm926_mem)
  show "\<not> in_window (vm926 1 USER32MODE) 0x308000 (section_entry 0x308000 0xC02)"
    using pa by (simp add: in_window_def rv)
qed

text \<open>
  Coprocessor 15. A value written with MCR to the control, table base, domain, fault status,
  fault address or lockdown register is read back with MRC, cut to the bits the register has; the
  process identifier is written but always read as 0, because its case falls through.
\<close>

lemma cp15_write_read:
  assumes "BITS instr 5 7 = 0"
    and "(BITS instr 16 19, seen) \<in> set [(1, (v OR 0x50078) AND 0x5F3FF), (2, v AND 0xFFFFC000), (3, v),
           (5, v AND 0xFF), (6, v), (10, v), (13, 0)]"
  shows "\<exists>t. arm926ejs_mmu_mcr env s instr v = Inr t \<and> arm926ejs_mmu_mrc env t instr = Inr (seen, t)
    \<and> (BITS instr 16 19 = 13 \<longrightarrow> process_id (mmu t) = v AND 0xfe000000)"
proof -
  have 1: "((v OR 0x50078) AND 0x5F3FF OR 0x50078) AND 0x5F3FF = (v OR 0x50078) AND 0x5F3FF"
    "(v AND 0xFFFFC000) AND 0xFFFFC000 = v AND 0xFFFFC000" "(v AND 0xFF) AND 0xFF = v AND 0xFF"
    for v :: ARMword
    by (auto simp: bit_eq_iff bit_and_iff bit_or_iff)
  show ?thesis
    using assms 1 unfolding arm926ejs_mmu_mcr_def arm926ejs_mmu_mrc_def
    by (auto simp: Let_def upd_mmu_def)
qed

lemma cp15_write_read_witness:
  "\<exists>t. arm926ejs_mmu_mcr bare_env (vm926 1 USER32MODE) 0xEE0D0F10 0x12345678 = Inr t
    \<and> arm926ejs_mmu_mrc bare_env t 0xEE0D0F10 = Inr (0, t) \<and> process_id (mmu t) = 0x12000000"
  using cp15_write_read [of "0xEE0D0F10" 0 "0x12345678" bare_env "vm926 1 USER32MODE"]
  by (simp add: BITS_def)

end
