(* ===== verification/Arm_Virt.thy ===== *)
theory Arm_Virt
  imports Arm926_Mmu
begin

text \<open>
  The processor's view of memory, \<^verbatim>\<open>arch/arm/common/armvirt.c\<close>: instruction fetches, loads, stores and
  swaps through the table of MMU operations, with the abort signals and fault registers that a
  faulting access sets. The MMU is reached through function pointers; the interface that the processor
  relies on is the locale \<open>address_space\<close>, which the ARM926 MMU implements.
\<close>

section \<open>The function pointers of the processor\<close>

text \<open>
  \<^verbatim>\<open>state->mmu.ops\<close>, the global \<^verbatim>\<open>skyeye_cachetype\<close>, the hook for undefined instructions, and the
  tables of coprocessor handlers. A handler returns its answer (\<^verbatim>\<open>ARMul_DONE\<close>, \<^verbatim>\<open>ARMul_CANT\<close>,
  \<^verbatim>\<open>ARMul_BUSY\<close> or \<^verbatim>\<open>ARMul_INC\<close>) and, when it has an output argument, what it stored there.
  \<open>busy_limit\<close> bounds the number of turns of a busy-waiting loop.
\<close>

record 'io cpu_env =
  mmu_ops :: "'io mmu_ops_t"
  skyeye_cachetype :: ARMword
  undf_trap :: "('io ARMul_State \<Rightarrow> ARMword \<Rightarrow> bool \<times> 'io ARMul_State) option"
  cp_LDC :: "nat \<Rightarrow> 'io ARMul_State \<Rightarrow> ARMword \<Rightarrow> ARMword \<Rightarrow> ARMword \<Rightarrow> (ARMword \<times> 'io ARMul_State) sim"
  cp_STC :: "nat \<Rightarrow> 'io ARMul_State \<Rightarrow> ARMword \<Rightarrow> ARMword
               \<Rightarrow> (ARMword \<times> ARMword option \<times> 'io ARMul_State) sim"
  cp_MRC :: "nat \<Rightarrow> 'io ARMul_State \<Rightarrow> ARMword \<Rightarrow> ARMword
               \<Rightarrow> (ARMword \<times> ARMword option \<times> 'io ARMul_State) sim"
  cp_MCR :: "nat \<Rightarrow> 'io ARMul_State \<Rightarrow> ARMword \<Rightarrow> ARMword \<Rightarrow> ARMword \<Rightarrow> (ARMword \<times> 'io ARMul_State) sim"
  cp_CDP :: "nat \<Rightarrow> 'io ARMul_State \<Rightarrow> ARMword \<Rightarrow> ARMword \<Rightarrow> (ARMword \<times> 'io ARMul_State) sim"
  busy_limit :: nat

abbreviation (input) INSTCACHE :: ARMword where "INSTCACHE \<equiv> 2"

section \<open>Abort signals\<close>

definition ARMul_ABORTWORD :: "'io ARMul_State \<Rightarrow> ARMword" where
  "ARMul_ABORTWORD s = (if TFlag s \<noteq> 0 then 0xefffdfff else 0xefffffff)"

definition ARMul_PREFETCHABORT :: "ARMword \<Rightarrow> 'io ARMul_State \<Rightarrow> 'io ARMul_State" where
  "ARMul_PREFETCHABORT address s =
     (if AbortAddr s = 1
      then s\<lparr>AbortAddr := address AND (if TFlag s \<noteq> 0 then NOT 1 else NOT 3)\<rparr> else s)"

definition ARMul_DATAABORT :: "'io ARMul_State \<Rightarrow> 'io ARMul_State" where
  "ARMul_DATAABORT s = s\<lparr>abortSig := HIGH, Aborted := ARMul_DataAbortV\<rparr>"

definition ARMul_CLEARABORT :: "'io ARMul_State \<Rightarrow> 'io ARMul_State" where
  "ARMul_CLEARABORT s = s\<lparr>abortSig := LOW\<rparr>"

text \<open>What every data access does with a fault: the fault registers, then the abort signal.\<close>

definition data_fault :: "fault_t \<Rightarrow> ARMword \<Rightarrow> 'io ARMul_State \<Rightarrow> 'io ARMul_State" where
  "data_fault fault address s =
     ARMul_DATAABORT (upd_mmu (\<lambda>m. m\<lparr>
       fault_status := (fault_code fault OR push_bit 4 (last_domain m)) AND 0xFF,
       fault_address := address\<rparr>) s)"

definition read_result ::
  "ARMword \<Rightarrow> fault_t \<times> ARMword option \<times> 'io ARMul_State \<Rightarrow> (ARMword \<times> 'io ARMul_State) sim" where
  "read_result address r =
     (case r of (fault, data, s) \<Rightarrow>
        if fault \<noteq> NO_FAULT then let s = data_fault fault address s in Inr (ARMul_ABORTWORD s, s)
        else case data of None \<Rightarrow> Inl Uninitialised | Some d \<Rightarrow> Inr (d, ARMul_CLEARABORT s))"

definition write_result :: "ARMword \<Rightarrow> fault_t \<times> 'io ARMul_State \<Rightarrow> 'io ARMul_State sim" where
  "write_result address r =
     (case r of (fault, s) \<Rightarrow>
        Inr (if fault \<noteq> NO_FAULT then data_fault fault address s else ARMul_CLEARABORT s))"

section \<open>Accesses through the MMU\<close>

definition GetByte :: "'io cpu_env \<Rightarrow> 'io ARMul_State \<Rightarrow> ARMword \<Rightarrow> 'io mmu_result" where
  "GetByte env s address = op_read_byte (mmu_ops env) s address"

definition GetHalfWord :: "'io cpu_env \<Rightarrow> 'io ARMul_State \<Rightarrow> ARMword \<Rightarrow> 'io mmu_result" where
  "GetHalfWord env s address = op_read_halfword (mmu_ops env) s address"

definition GetWord :: "'io cpu_env \<Rightarrow> 'io ARMul_State \<Rightarrow> ARMword \<Rightarrow> 'io mmu_result" where
  "GetWord env s address = op_read_word (mmu_ops env) s address"

definition LoadInstr :: "'io cpu_env \<Rightarrow> 'io ARMul_State \<Rightarrow> ARMword \<Rightarrow> 'io mmu_result" where
  "LoadInstr env s address = op_load_instr (mmu_ops env) s address"

definition PutByte ::
  "'io cpu_env \<Rightarrow> 'io ARMul_State \<Rightarrow> ARMword \<Rightarrow> ARMword \<Rightarrow> (fault_t \<times> 'io ARMul_State) sim" where
  "PutByte env s address data = op_write_byte (mmu_ops env) s address data"

definition PutHalfWord ::
  "'io cpu_env \<Rightarrow> 'io ARMul_State \<Rightarrow> ARMword \<Rightarrow> ARMword \<Rightarrow> (fault_t \<times> 'io ARMul_State) sim" where
  "PutHalfWord env s address data = op_write_halfword (mmu_ops env) s address data"

definition PutWord ::
  "'io cpu_env \<Rightarrow> 'io ARMul_State \<Rightarrow> ARMword \<Rightarrow> ARMword \<Rightarrow> (fault_t \<times> 'io ARMul_State) sim" where
  "PutWord env s address data = op_write_word (mmu_ops env) s address data"

section \<open>Instruction fetch\<close>

definition fetch_word :: "'io cpu_env \<Rightarrow> 'io ARMul_State \<Rightarrow> ARMword \<Rightarrow> 'io mmu_result" where
  "fetch_word env s address =
     (if skyeye_cachetype env \<noteq> INSTCACHE then GetWord env s address else LoadInstr env s address)"

definition prefetch_abort :: "ARMword \<Rightarrow> 'io ARMul_State \<Rightarrow> ARMword \<times> 'io ARMul_State" where
  "prefetch_abort address s = (let s = ARMul_PREFETCHABORT address s in (ARMul_ABORTWORD s, s))"

text \<open>A Thumb fetch from the upper half of a word reads two words.\<close>

definition ARMul_ReLoadInstr ::
  "'io cpu_env \<Rightarrow> 'io ARMul_State \<Rightarrow> ARMword \<Rightarrow> ARMword \<Rightarrow> (ARMword \<times> 'io ARMul_State) sim" where
  "ARMul_ReLoadInstr env s address isz =
     (if isz = 2 \<and> address AND 2 \<noteq> 0
      then bind_ok (fetch_word env s address) (\<lambda>(fault, lo, s).
             if fault \<noteq> NO_FAULT then Inr (prefetch_abort address s)
             else bind_ok (fetch_word env s (address + 4)) (\<lambda>(fault, hi, s).
               if fault \<noteq> NO_FAULT then Inr (prefetch_abort address s)
               else case (lo, hi) of
                      (Some lo, Some hi) \<Rightarrow>
                        Inr (if bigendSig s = HIGH then push_bit 16 lo OR drop_bit 16 hi
                             else push_bit 16 (hi AND 0xFFFF) OR drop_bit 16 lo, ARMul_CLEARABORT s)
                    | _ \<Rightarrow> Inl Uninitialised))
      else bind_ok (fetch_word env s address) (\<lambda>(fault, data, s).
             if fault \<noteq> NO_FAULT then Inr (prefetch_abort address s)
             else case data of None \<Rightarrow> Inl Uninitialised | Some d \<Rightarrow> Inr (d, ARMul_CLEARABORT s)))"

definition ARMul_LoadInstrS ::
  "'io cpu_env \<Rightarrow> 'io ARMul_State \<Rightarrow> ARMword \<Rightarrow> ARMword \<Rightarrow> (ARMword \<times> 'io ARMul_State) sim" where
  "ARMul_LoadInstrS env s address isz =
     ARMul_ReLoadInstr env (s\<lparr>NumScycles := NumScycles s + 1\<rparr>) address isz"

definition ARMul_LoadInstrN ::
  "'io cpu_env \<Rightarrow> 'io ARMul_State \<Rightarrow> ARMword \<Rightarrow> ARMword \<Rightarrow> (ARMword \<times> 'io ARMul_State) sim" where
  "ARMul_LoadInstrN env s address isz =
     ARMul_ReLoadInstr env (s\<lparr>NumNcycles := NumNcycles s + 1\<rparr>) address isz"

section \<open>Loads and stores\<close>

definition ARMul_ReadWord :: "'io cpu_env \<Rightarrow> 'io mem_reader" where
  "ARMul_ReadWord env s address = bind_ok (GetWord env s address) (read_result address)"

definition ARMul_LoadWordS :: "'io cpu_env \<Rightarrow> 'io mem_reader" where
  "ARMul_LoadWordS env s address = ARMul_ReadWord env (s\<lparr>NumScycles := NumScycles s + 1\<rparr>) address"

definition ARMul_LoadWordN :: "'io cpu_env \<Rightarrow> 'io mem_reader" where
  "ARMul_LoadWordN env s address = ARMul_ReadWord env (s\<lparr>NumNcycles := NumNcycles s + 1\<rparr>) address"

definition ARMul_LoadHalfWord :: "'io cpu_env \<Rightarrow> 'io mem_reader" where
  "ARMul_LoadHalfWord env s address =
     bind_ok (GetHalfWord env (s\<lparr>NumNcycles := NumNcycles s + 1\<rparr>) address) (read_result address)"

definition ARMul_ReadByte :: "'io cpu_env \<Rightarrow> 'io mem_reader" where
  "ARMul_ReadByte env s address = bind_ok (GetByte env s address) (read_result address)"

definition ARMul_LoadByte :: "'io cpu_env \<Rightarrow> 'io mem_reader" where
  "ARMul_LoadByte env s address = ARMul_ReadByte env (s\<lparr>NumNcycles := NumNcycles s + 1\<rparr>) address"

definition ARMul_WriteWord :: "'io cpu_env \<Rightarrow> 'io mem_writer" where
  "ARMul_WriteWord env s address data = bind_ok (PutWord env s address data) (write_result address)"

definition ARMul_StoreWordS :: "'io cpu_env \<Rightarrow> 'io mem_writer" where
  "ARMul_StoreWordS env s address data =
     ARMul_WriteWord env (s\<lparr>NumScycles := NumScycles s + 1\<rparr>) address data"

definition ARMul_StoreWordN :: "'io cpu_env \<Rightarrow> 'io mem_writer" where
  "ARMul_StoreWordN env s address data =
     ARMul_WriteWord env (s\<lparr>NumNcycles := NumNcycles s + 1\<rparr>) address data"

definition ARMul_StoreHalfWord :: "'io cpu_env \<Rightarrow> 'io mem_writer" where
  "ARMul_StoreHalfWord env s address data =
     bind_ok (PutHalfWord env (s\<lparr>NumNcycles := NumNcycles s + 1\<rparr>) address data) (write_result address)"

definition ARMul_WriteByte :: "'io cpu_env \<Rightarrow> 'io mem_writer" where
  "ARMul_WriteByte env s address data = bind_ok (PutByte env s address data) (write_result address)"

definition ARMul_StoreByte :: "'io cpu_env \<Rightarrow> 'io mem_writer" where
  "ARMul_StoreByte env s address data =
     ARMul_WriteByte env (s\<lparr>NumNcycles := NumNcycles s + 1\<rparr>) address data"

text \<open>The word swap ignores a fault of its store.\<close>

definition ARMul_SwapWord ::
  "'io cpu_env \<Rightarrow> 'io ARMul_State \<Rightarrow> ARMword \<Rightarrow> ARMword \<Rightarrow> (ARMword \<times> 'io ARMul_State) sim" where
  "ARMul_SwapWord env s address data =
     bind_ok (ARMul_ReadWord env (s\<lparr>NumNcycles := NumNcycles s + 1\<rparr>) address) (\<lambda>(temp, s).
       bind_ok (PutWord env (s\<lparr>NumNcycles := NumNcycles s + 1\<rparr>) address data)
         (\<lambda>(fault, s). Inr (temp, s)))"

definition ARMul_SwapByte ::
  "'io cpu_env \<Rightarrow> 'io ARMul_State \<Rightarrow> ARMword \<Rightarrow> ARMword \<Rightarrow> (ARMword \<times> 'io ARMul_State) sim" where
  "ARMul_SwapByte env s address data =
     bind_ok (ARMul_LoadByte env s address) (\<lambda>(temp, s).
       bind_ok (ARMul_StoreByte env s address data) (\<lambda>s. Inr (temp, s)))"

text \<open>The accesses of the debugger; its caller uses the low byte of the result only.\<close>

definition ARMul_ICE_ReadByte ::
  "'io cpu_env \<Rightarrow> 'io ARMul_State \<Rightarrow> ARMword \<Rightarrow> (bool \<times> ARMbyte \<times> 'io ARMul_State) sim" where
  "ARMul_ICE_ReadByte env s address =
     bind_ok (GetByte env s address) (\<lambda>(fault, data, s).
       if fault \<noteq> NO_FAULT then Inr (True, - 1, s)
       else case data of None \<Rightarrow> Inl Uninitialised | Some d \<Rightarrow> Inr (False, ucast d, s))"

definition ARMul_ICE_WriteByte ::
  "'io cpu_env \<Rightarrow> 'io ARMul_State \<Rightarrow> ARMword \<Rightarrow> ARMword \<Rightarrow> (bool \<times> 'io ARMul_State) sim" where
  "ARMul_ICE_WriteByte env s address data =
     bind_ok (PutByte env s address data) (\<lambda>(fault, s). Inr (fault \<noteq> NO_FAULT, s))"

section \<open>The interface between processor and memory\<close>

text \<open>An access changes nothing of the processor but the MMU and the memory.\<close>

definition cpu_eq :: "'io ARMul_State \<Rightarrow> 'io ARMul_State \<Rightarrow> bool" where
  "cpu_eq s t \<longleftrightarrow> t = s\<lparr>mmu := mmu t, mem := mem t\<rparr>"

text \<open>The fields that an address translation and a memory access depend on.\<close>

definition same_sys :: "'io ARMul_State \<Rightarrow> 'io ARMul_State \<Rightarrow> bool" where
  "same_sys s t \<longleftrightarrow> mmu t = mmu s \<and> mem t = mem s \<and> Mode t = Mode s \<and> bigendSig t = bigendSig s
     \<and> is_XScale t = is_XScale s \<and> vector_remap_flag t = vector_remap_flag s
     \<and> vector_remap_size t = vector_remap_size s \<and> vector_remap_addr t = vector_remap_addr s"

text \<open>
  What the processor needs of the words at the addresses it may read and write (\<open>rw\<close>): an access to
  one returns no fault and keeps the processor, the permissions and the placement \<open>loc\<close>; a read returns
  the word, a write changes the words at the same place and no others.
\<close>

locale address_space =
  fixes env :: "'io cpu_env"
    and ok :: "'io ARMul_State \<Rightarrow> bool"
    and rw :: "'io ARMul_State \<Rightarrow> ARMword \<Rightarrow> bool"
    and loc :: "'io ARMul_State \<Rightarrow> ARMword \<Rightarrow> ARMword"
    and word_at :: "'io ARMul_State \<Rightarrow> ARMword \<Rightarrow> ARMword"
  assumes sys_cong: "same_sys s t \<Longrightarrow> ok t = ok s \<and> rw t = rw s \<and> loc t = loc s \<and> word_at t = word_at s"
    and read_law: "ok s \<Longrightarrow> rw s a \<Longrightarrow>
      \<exists>t. op_read_word (mmu_ops env) s a = Inr (NO_FAULT, Some (word_at s a), t)
        \<and> cpu_eq s t \<and> ok t \<and> rw t = rw s \<and> loc t = loc s \<and> word_at t = word_at s"
    and write_law: "ok s \<Longrightarrow> rw s a \<Longrightarrow>
      \<exists>t. op_write_word (mmu_ops env) s a d = Inr (NO_FAULT, t)
        \<and> cpu_eq s t \<and> ok t \<and> rw t = rw s \<and> loc t = loc s
        \<and> (\<forall>b. rw s b \<longrightarrow> word_at t b = (if loc s b = loc s a then d else word_at s b))"
begin

lemma cycle_cong:
  "ok (s\<lparr>NumNcycles := n\<rparr>) = ok s" "rw (s\<lparr>NumNcycles := n\<rparr>) = rw s"
  "loc (s\<lparr>NumNcycles := n\<rparr>) = loc s" "word_at (s\<lparr>NumNcycles := n\<rparr>) = word_at s"
  "ok (s\<lparr>NumScycles := n\<rparr>) = ok s" "rw (s\<lparr>NumScycles := n\<rparr>) = rw s"
  "loc (s\<lparr>NumScycles := n\<rparr>) = loc s" "word_at (s\<lparr>NumScycles := n\<rparr>) = word_at s"
  "ok (s\<lparr>abortSig := n\<rparr>) = ok s" "rw (s\<lparr>abortSig := n\<rparr>) = rw s"
  "loc (s\<lparr>abortSig := n\<rparr>) = loc s" "word_at (s\<lparr>abortSig := n\<rparr>) = word_at s"
  "ok (s\<lparr>Reg := r\<rparr>) = ok s" "rw (s\<lparr>Reg := r\<rparr>) = rw s"
  "loc (s\<lparr>Reg := r\<rparr>) = loc s" "word_at (s\<lparr>Reg := r\<rparr>) = word_at s"
  using sys_cong [of s "s\<lparr>NumNcycles := n\<rparr>"] sys_cong [of s "s\<lparr>NumScycles := n\<rparr>"]
    sys_cong [of s "s\<lparr>abortSig := n\<rparr>"] sys_cong [of s "s\<lparr>Reg := r\<rparr>"]
  by (simp_all add: same_sys_def)

text \<open>A load of the processor: the word, no abort, and nothing else but cycle counts.\<close>

lemma ReadWord_ok:
  assumes "ok s" "rw s a"
  shows "\<exists>t. ARMul_ReadWord env s a = Inr (word_at s a, t) \<and> t = s\<lparr>mmu := mmu t, mem := mem t, abortSig := LOW\<rparr>
    \<and> ok t \<and> rw t = rw s \<and> loc t = loc s \<and> word_at t = word_at s"
proof -
  obtain u where u: "op_read_word (mmu_ops env) s a = Inr (NO_FAULT, Some (word_at s a), u)" "cpu_eq s u"
    "ok u" "rw u = rw s" "loc u = loc s" "word_at u = word_at s" using read_law [OF assms] by blast
  then have "ARMul_ReadWord env s a = Inr (word_at s a, ARMul_CLEARABORT u)"
    by (simp add: ARMul_ReadWord_def GetWord_def read_result_def)
  moreover have "ARMul_CLEARABORT u = s\<lparr>mmu := mmu u, mem := mem u, abortSig := LOW\<rparr>"
  proof -
    have "ARMul_CLEARABORT u = ARMul_CLEARABORT (s\<lparr>mmu := mmu u, mem := mem u\<rparr>)"
      using u(2) by (simp only: cpu_eq_def)
    then show ?thesis by (simp add: ARMul_CLEARABORT_def)
  qed
  ultimately show ?thesis using u(3-6) cycle_cong(9-12) [where s = u and n = LOW]
    by (simp add: ARMul_CLEARABORT_def)
qed

lemma WriteWord_ok:
  assumes "ok s" "rw s a"
  shows "\<exists>t. ARMul_WriteWord env s a d = Inr t \<and> t = s\<lparr>mmu := mmu t, mem := mem t, abortSig := LOW\<rparr>
    \<and> ok t \<and> rw t = rw s \<and> loc t = loc s
    \<and> (\<forall>b. rw s b \<longrightarrow> word_at t b = (if loc s b = loc s a then d else word_at s b))"
proof -
  obtain u where u: "op_write_word (mmu_ops env) s a d = Inr (NO_FAULT, u)" "cpu_eq s u"
    "ok u" "rw u = rw s" "loc u = loc s"
    "\<forall>b. rw s b \<longrightarrow> word_at u b = (if loc s b = loc s a then d else word_at s b)"
    using write_law [OF assms, of d] by blast
  then have "ARMul_WriteWord env s a d = Inr (ARMul_CLEARABORT u)"
    by (simp add: ARMul_WriteWord_def PutWord_def write_result_def)
  moreover have "ARMul_CLEARABORT u = s\<lparr>mmu := mmu u, mem := mem u, abortSig := LOW\<rparr>"
  proof -
    have "ARMul_CLEARABORT u = ARMul_CLEARABORT (s\<lparr>mmu := mmu u, mem := mem u\<rparr>)"
      using u(2) by (simp only: cpu_eq_def)
    then show ?thesis by (simp add: ARMul_CLEARABORT_def)
  qed
  ultimately show ?thesis using u(3-6) cycle_cong(9-12) [where s = u and n = LOW]
    by (simp add: ARMul_CLEARABORT_def)
qed

end

section \<open>The ARM926 MMU implements the interface\<close>

definition va_entry :: "'io ARMul_State \<Rightarrow> ARMword \<Rightarrow> tlb_entry_t" where
  "va_entry s a = the (mapped s (mmu_pid_va_map s a AND NOT 3))"

definition plain_word :: "'io ARMul_State \<Rightarrow> ARMword \<Rightarrow> bool" where
  "plain_word s a \<longleftrightarrow> (let e = va_entry s a; pa = phys s ARM_WORD_TYPE a e in
     grants s ARM_WORD_TYPE a True e \<and> grants s ARM_WORD_TYPE a False e \<and> ram_ok s pa
     \<and> tables_avoid s pa \<and> \<not> in_window s a e)"

definition va_place :: "'io ARMul_State \<Rightarrow> ARMword \<Rightarrow> ARMword" where
  "va_place s a = drop_bit 2 (phys s ARM_WORD_TYPE a (va_entry s a))"

definition va_word :: "'io ARMul_State \<Rightarrow> ARMword \<Rightarrow> ARMword" where
  "va_word s a = peek_word s (phys s ARM_WORD_TYPE a (va_entry s a))"

lemma cpu_eq_alt: "cpu_eq s t \<longleftrightarrow> (\<exists>m k. t = s\<lparr>mmu := m, mem := k\<rparr>)"
proof
  show "cpu_eq s t \<Longrightarrow> \<exists>m k. t = s\<lparr>mmu := m, mem := k\<rparr>" unfolding cpu_eq_def by (intro exI)
qed (auto simp: cpu_eq_def)

lemma cpu_eq_frame:
  assumes "cpu_eq s t"
  shows "Reg t = Reg s" "RegBank t = RegBank s" "Spsr t = Spsr s" "Bank t = Bank s" "Mode t = Mode s"
    "CPSR t = CPSR s" "TFlag t = TFlag s" "Aborted t = Aborted s" "abortSig t = abortSig s"
    "bigendSig t = bigendSig s" "NextInstr t = NextInstr s"
  using assms by (auto simp: cpu_eq_alt CPSR_def ECC_def EINT_def)

lemma vquiet_cpu: "vquiet s t \<Longrightarrow> cpu_eq s t"
  by (auto simp: vquiet_def quiet_def same_memory_def cpu_eq_def set_last_domain_def upd926_def)

lemma poke_cpu: "poke s a w t \<Longrightarrow> cpu_eq s t"
  by (auto simp: poke_def same_memory_def cpu_eq_def put_cell_def)

lemma cpu_eq_trans: "cpu_eq s t \<Longrightarrow> cpu_eq t u \<Longrightarrow> cpu_eq s u"
proof -
  assume "cpu_eq s t" "cpu_eq t u"
  then have u: "u = t\<lparr>mmu := mmu u, mem := mem u\<rparr>" and t: "t = s\<lparr>mmu := mmu t, mem := mem t\<rparr>"
    unfolding cpu_eq_def by blast+
  have "u = (s\<lparr>mmu := mmu t, mem := mem t\<rparr>)\<lparr>mmu := mmu u, mem := mem u\<rparr>" by (subst t [symmetric]) (rule u)
  then show ?thesis unfolding cpu_eq_def by simp
qed


lemma sys_memory:
  assumes "same_sys s t"
  shows "peek_word t = peek_word s" "mapped t = mapped s" "ram_ok t = ram_ok s"
    "tables_avoid t = tables_avoid s" "vm_ok aenv t = vm_ok aenv s"
proof -
  have e: "mmu t = mmu s" "mem t = mem s" "Mode t = Mode s" "bigendSig t = bigendSig s"
    "is_XScale t = is_XScale s" "vector_remap_flag t = vector_remap_flag s"
    "vector_remap_size t = vector_remap_size s" "vector_remap_addr t = vector_remap_addr s"
    using assms by (simp_all add: same_sys_def)
  show p: "peek_word t = peek_word s" by (simp add: peek_word_def fun_eq_iff e)
  show m: "mapped t = mapped s" unfolding mapped_def p e ..
  show r: "ram_ok t = ram_ok s" by (simp add: ram_ok_def fun_eq_iff e)
  show "tables_avoid t = tables_avoid s" by (simp add: tables_avoid_def fun_eq_iff p e)
  have "tables_in_ram t = tables_in_ram s" by (simp add: tables_in_ram_def fun_eq_iff p r e)
  moreover have "tables_regular t = tables_regular s" unfolding tables_regular_def m ..
  moreover have "tlb_inv t = tlb_inv s" by (simp add: tlb_inv_def fun_eq_iff m)
  ultimately show "vm_ok aenv t = vm_ok aenv s"
    by (simp add: vm_ok_def mmu_state_ok_def MMU_Enabled_def e)
qed

text \<open>The view of an address depends on the tables, the mode and the control registers only.\<close>

lemma view_cong:
  assumes "mapped t = mapped s" "Mode t = Mode s" "control (mmu t) = control (mmu s)"
    "process_id (mmu t) = process_id (mmu s)" "domain_access_control (mmu t) = domain_access_control (mmu s)"
    "ram_ok t = ram_ok s" "tables_avoid t = tables_avoid s"
  shows "va_entry t = va_entry s" "va_place t = va_place s" "plain_word t = plain_word s"
proof -
  have v: "mmu_pid_va_map t = mmu_pid_va_map s" using assms(4) by (simp add: mmu_pid_va_map_def fun_eq_iff)
  show e: "va_entry t = va_entry s" by (simp add: va_entry_def fun_eq_iff v assms(1))
  note g = grants_cong [OF assms(1-5)]
  show "va_place t = va_place s" by (simp add: va_place_def fun_eq_iff e g(2))
  show "plain_word t = plain_word s" by (simp add: plain_word_def fun_eq_iff Let_def e g assms(6,7))
qed

lemma ram_ok_cong:
  assumes "cpu_eq s t" "mem_banks (mem t) = mem_banks (mem s)" "cache_ok (mem t) = cache_ok (mem s)"
  shows "ram_ok t = ram_ok s"
proof -
  have t: "t = s\<lparr>mmu := mmu t, mem := mem t\<rparr>" using assms(1) by (simp only: cpu_eq_def)
  have "bigendSig t = bigendSig s" "vector_remap_flag t = vector_remap_flag s"
    "vector_remap_size t = vector_remap_size s" by (subst t, simp)+
  then show ?thesis using assms(2,3) by (simp add: ram_ok_def ram_bank_def bank_no_def fun_eq_iff)
qed


lemma vquiet_view:
  assumes "vquiet s t" "ram_ok s a"
  shows "va_entry t = va_entry s" "va_place t = va_place s" "plain_word t = plain_word s" "va_word t = va_word s"
proof -
  note f = vquiet_frame [OF assms(1)]
  have r: "ram_ok t = ram_ok s" using vquiet_ram_ok [OF assms] by (simp add: fun_eq_iff)
  have av: "tables_avoid t = tables_avoid s" using vquiet_avoid [OF assms(1)] by (simp add: fun_eq_iff)
  note c = view_cong [OF f(2,3,5,6,7) r av]
  show "va_entry t = va_entry s" "va_place t = va_place s" "plain_word t = plain_word s" by (fact c)+
  have "phys t = phys s" using grants_cong(2) [OF f(2,3,5,6,7)] by (simp add: fun_eq_iff)
  then show "va_word t = va_word s" by (simp add: va_word_def fun_eq_iff c(1) f(1))
qed

lemma poke_avoid:
  assumes "poke s a w t" "ram_ok s a" "tables_avoid s a" "\<forall>va. tables_in_ram s va"
  shows "tables_avoid t = tables_avoid s"
proof -
  have "peek_word t (l1_addr (translation_table_base (mmu s)) va) = peek_word s (l1_addr (translation_table_base (mmu s)) va)"
    for va
  proof -
    have "ram_ok s (l1_addr (translation_table_base (mmu s)) va)"
      using assms(4) by (auto simp: tables_in_ram_def Let_def)
    moreover have "drop_bit 2 a \<noteq> drop_bit 2 (l1_addr (translation_table_base (mmu s)) va)"
      using assms(3) unfolding tables_avoid_def Let_def by blast
    ultimately show ?thesis using poke_peek(3) [OF assms(1,2)] by simp
  qed
  then show ?thesis by (simp add: tables_avoid_def fun_eq_iff poke_frame(1) [OF assms(1)])
qed

lemma poke_view:
  assumes p: "poke s a w t" and r: "ram_ok s a" and av: "tables_avoid s a" and ok: "vm_ok aenv s"
  shows "va_entry t = va_entry s" "va_place t = va_place s" "plain_word t = plain_word s"
    "plain_word s b \<Longrightarrow> va_word t b = (if drop_bit 2 a = va_place s b then w else va_word s b)"
proof -
  have ram: "\<forall>va. tables_in_ram s va" using ok by (simp add: vm_ok_def mmu_state_ok_def)
  note f = poke_frame [OF p]
  have rk: "ram_ok t = ram_ok s" using poke_peek(2) [OF p r] by (simp add: fun_eq_iff)
  note m = vm_ok_poke(2) [OF ok p r av]
  note c = view_cong [OF m f(3) _ _ _ rk poke_avoid [OF p r av ram]]
  show e: "va_entry t = va_entry s" and "va_place t = va_place s" "plain_word t = plain_word s"
    using c f(1) by simp_all
  have ph: "phys t ARM_WORD_TYPE b e = phys s ARM_WORD_TYPE b e" for e
    using grants_cong(2) [OF m f(3)] f(1) by simp
  assume "plain_word s b"
  then have "ram_ok s (phys s ARM_WORD_TYPE b (va_entry s b))" by (simp add: plain_word_def Let_def)
  then show "va_word t b = (if drop_bit 2 a = va_place s b then w else va_word s b)"
    using poke_peek(3) [OF p r] by (simp add: va_word_def va_place_def e ph)
qed

lemma arm926_read_law:
  assumes "vm_ok aenv s" "plain_word s a"
  shows "\<exists>t. arm926ejs_mmu_read aenv ARM_WORD_TYPE s a = Inr (NO_FAULT, Some (va_word s a), t)
    \<and> cpu_eq s t \<and> vm_ok aenv t \<and> plain_word t = plain_word s \<and> va_place t = va_place s \<and> va_word t = va_word s"
proof -
  let ?e = "va_entry s a" let ?p = "phys s ARM_WORD_TYPE a ?e"
  have p: "grants s ARM_WORD_TYPE a True ?e" "ram_ok s ?p" "\<not> in_window s a ?e"
    using assms(2) by (simp_all add: plain_word_def Let_def)
  obtain t where t: "arm926ejs_mmu_read aenv ARM_WORD_TYPE s a = Inr (NO_FAULT, Some (peek_typed ARM_WORD_TYPE s ?p), t)"
    "vquiet s t" "vm_ok aenv t" using mmu_read_granted [OF assms(1) p] by blast
  then show ?thesis using vquiet_cpu [OF t(2)] vquiet_view [OF t(2) p(2)] by (simp add: va_word_def)
qed

lemma arm926_write_law:
  assumes "vm_ok aenv s" "plain_word s a"
  shows "\<exists>t. arm926ejs_mmu_write aenv ARM_WORD_TYPE s a d = Inr (NO_FAULT, t)
    \<and> cpu_eq s t \<and> vm_ok aenv t \<and> plain_word t = plain_word s \<and> va_place t = va_place s
    \<and> (\<forall>b. plain_word s b \<longrightarrow> va_word t b = (if va_place s b = va_place s a then d else va_word s b))"
proof -
  let ?e = "va_entry s a" let ?p = "phys s ARM_WORD_TYPE a ?e"
  have p: "grants s ARM_WORD_TYPE a False ?e" "ram_ok s ?p" "tables_avoid s ?p"
    using assms(2) by (simp_all add: plain_word_def Let_def)
  obtain q t where t: "vquiet s q" "vm_ok aenv q" "ram_ok q ?p" "poke q ?p d t"
    "arm926ejs_mmu_write aenv ARM_WORD_TYPE s a d = Inr (NO_FAULT, t)"
    using mmu_write_granted [OF assms(1) p(1,2), of d] by auto
  have av: "tables_avoid q ?p" using vquiet_avoid [OF t(1)] p(3) by simp
  note vq = vquiet_view [OF t(1) p(2)]
  note vp = poke_view [OF t(4,3) av t(2)]
  have "va_word t b = (if va_place s b = va_place s a then d else va_word s b)" if "plain_word s b" for b
    using vp(4) [of b] that vq by (auto simp: va_place_def)
  then show ?thesis
    using t(5) cpu_eq_trans [OF vquiet_cpu [OF t(1)] poke_cpu [OF t(4)]] vm_ok_poke(1) [OF t(2,4,3) av] vq vp(2,3)
    by auto
qed

definition with_arm926 :: "'io cpu_env \<Rightarrow> 'io arm_env \<Rightarrow> 'io cpu_env" where
  "with_arm926 e aenv = e\<lparr>mmu_ops := arm926ejs_mmu_ops aenv\<rparr>"

lemma with_arm926_ops [simp]: "mmu_ops (with_arm926 e aenv) = arm926ejs_mmu_ops aenv"
  by (simp add: with_arm926_def)

interpretation arm926: address_space "with_arm926 e aenv" "vm_ok aenv" plain_word va_place va_word for e aenv
proof (unfold_locales, goal_cases)
  case (1 s t)
  have e: "mmu t = mmu s" "Mode t = Mode s" using 1 by (simp_all add: same_sys_def)
  note m = sys_memory [OF 1]
  note c = view_cong [OF m(2) e(2) _ _ _ m(3,4)]
  have "phys t = phys s" using grants_cong(2) [OF m(2) e(2)] e(1) by (simp add: fun_eq_iff)
  then have "va_word t = va_word s" using c(1) e(1) m(1) by (simp add: va_word_def fun_eq_iff)
  then show ?case using c e(1) m(5) by simp
next
  case (2 s a)
  then show ?case using arm926_read_law by (simp add: arm926ejs_mmu_ops_def)
next
  case (3 s a d)
  show ?case using arm926_write_law [OF 3] by (simp add: arm926ejs_mmu_ops_def)
qed


section \<open>Faulting accesses\<close>

lemma data_fault_simps [simp]:
  "abortSig (data_fault f a s) = HIGH" "Aborted (data_fault f a s) = ARMul_DataAbortV"
  "fault_address (mmu (data_fault f a s)) = a" "Reg (data_fault f a s) = Reg s"
  "fault_status (mmu (data_fault f a s)) = (fault_code f OR push_bit 4 (last_domain (mmu s))) AND 0xFF"
  "mem (data_fault f a s) = mem s"
  by (simp_all add: data_fault_def ARMul_DATAABORT_def upd_mmu_def)

lemma data_fault_peek [simp]: "peek_word (data_fault f a s) = peek_word s"
  by (simp add: peek_word_def fun_eq_iff)

lemma fault_code_field: "((fault_code f OR push_bit 4 d) AND 0xFF) AND 0xF = fault_code f"
  by (rule word32_eqI) (simp only: all_less_32_iff, cases f, simp_all add: bit_simps)



lemma cycle_grants [simp]:
  "vm_ok aenv (s\<lparr>NumNcycles := n\<rparr>) = vm_ok aenv s" "grants (s\<lparr>NumNcycles := n\<rparr>) ty va rd e = grants s ty va rd e"
  "phys (s\<lparr>NumNcycles := n\<rparr>) ty va e = phys s ty va e" "in_window (s\<lparr>NumNcycles := n\<rparr>) va e = in_window s va e"
  "ram_ok (s\<lparr>NumNcycles := n\<rparr>) = ram_ok s" "peek_word (s\<lparr>NumNcycles := n\<rparr>) = peek_word s"
proof -
  have ss: "same_sys s (s\<lparr>NumNcycles := n\<rparr>)" by (simp add: same_sys_def)
  note m = sys_memory [OF ss]
  show "vm_ok aenv (s\<lparr>NumNcycles := n\<rparr>) = vm_ok aenv s" "ram_ok (s\<lparr>NumNcycles := n\<rparr>) = ram_ok s"
    "peek_word (s\<lparr>NumNcycles := n\<rparr>) = peek_word s" by (fact m)+
  show "grants (s\<lparr>NumNcycles := n\<rparr>) ty va rd e = grants s ty va rd e"
    "phys (s\<lparr>NumNcycles := n\<rparr>) ty va e = phys s ty va e" "in_window (s\<lparr>NumNcycles := n\<rparr>) va e = in_window s va e"
    using grants_cong [OF m(2)] by simp_all
qed

lemma quiet_or_same_frame:
  assumes "t = s \<or> vquiet s t"
  shows "peek_word t = peek_word s" "Reg t = Reg s" "abortSig t = abortSig s" "Aborted t = Aborted s"
  using assms vquiet_frame(1) [of s t] cpu_eq_frame [OF vquiet_cpu, of s t] by auto

text \<open>
  C37: a faulting store is reported. A word store by the processor to an address that is not granted
  raises the abort signal, names the address and the fault in the fault registers, and leaves every
  register and every word of memory as it was.
\<close>

theorem faulting_store_reported:
  assumes "vm_ok aenv s" "\<not> (\<exists>e. grants s ARM_WORD_TYPE va False e)"
  shows "\<exists>f t. ARMul_StoreWordN (with_arm926 e aenv) s va d = Inr t \<and> f \<noteq> NO_FAULT
    \<and> abortSig t = HIGH \<and> Aborted t = ARMul_DataAbortV \<and> fault_address (mmu t) = va
    \<and> fault_status (mmu t) AND 0xF = fault_code f \<and> Reg t = Reg s \<and> (\<forall>a. peek_word t a = peek_word s a)"
proof -
  let ?s = "s\<lparr>NumNcycles := NumNcycles s + 1\<rparr>"
  obtain f t where t: "arm926ejs_mmu_write aenv ARM_WORD_TYPE ?s va d = Inr (f, t)" "f \<noteq> NO_FAULT"
    "t = ?s \<or> vquiet ?s t" using ungranted_store [of aenv ?s ARM_WORD_TYPE va d] assms by auto
  have "ARMul_StoreWordN (with_arm926 e aenv) s va d = Inr (data_fault f va t)"
    using t by (simp add: ARMul_StoreWordN_def ARMul_WriteWord_def PutWord_def write_result_def arm926ejs_mmu_ops_def)
  then show ?thesis using t(2) quiet_or_same_frame [OF t(3)] fault_code_field by auto
qed

definition demo_env :: "unit cpu_env" where
  "demo_env = \<lparr>mmu_ops = arm926ejs_mmu_ops bare_env, skyeye_cachetype = INSTCACHE, undf_trap = None,
     cp_LDC = (\<lambda>_ s _ _ _. Inr (1, s)), cp_STC = (\<lambda>_ s _ _. Inr (1, None, s)),
     cp_MRC = (\<lambda>_ s _ _. Inr (1, None, s)), cp_MCR = (\<lambda>_ s _ _ _. Inr (1, s)),
     cp_CDP = (\<lambda>_ s _ _. Inr (1, s)), busy_limit = 1\<rparr>"

theorem faulting_store_reported_witness:
  "\<exists>f t. ARMul_StoreWordN (with_arm926 demo_env bare_env) (vm926 0 USER32MODE) 0x308000 7 = Inr t
    \<and> f \<noteq> NO_FAULT \<and> abortSig t = HIGH \<and> Aborted t = ARMul_DataAbortV \<and> fault_address (mmu t) = 0x308000
    \<and> fault_status (mmu t) AND 0xF = fault_code f \<and> Reg t = Reg (vm926 0 USER32MODE)
    \<and> (\<forall>a. peek_word t a = peek_word (vm926 0 USER32MODE) a)"
  by (rule faulting_store_reported [OF vm926_ok]) (simp add: grants_def access_ok_def vm926_mem Let_def)

text \<open>
  The word swap misses a fault of its store. On a word that may be read and not written it returns
  the word, writes nothing and raises no abort.
\<close>

lemma swap_ignores_store_fault:
  assumes "vm_ok aenv s" "grants s ARM_WORD_TYPE va True x" "ram_ok s (phys s ARM_WORD_TYPE va x)"
    and "\<not> in_window s va x" "\<not> (\<exists>x. grants s ARM_WORD_TYPE va False x)"
  shows "\<exists>t. ARMul_SwapWord (with_arm926 e aenv) s va d = Inr (peek_word s (phys s ARM_WORD_TYPE va x), t)
    \<and> abortSig t = LOW \<and> Aborted t = Aborted s \<and> (\<forall>a. peek_word t a = peek_word s a)"
proof -
  let ?s = "s\<lparr>NumNcycles := NumNcycles s + 1\<rparr>"
  obtain u where u: "arm926ejs_mmu_read aenv ARM_WORD_TYPE ?s va
      = Inr (NO_FAULT, Some (peek_word s (phys s ARM_WORD_TYPE va x)), u)" "vquiet ?s u" "vm_ok aenv u"
    using mmu_read_granted [of aenv ?s ARM_WORD_TYPE va x] assms by auto
  define v where "v = (ARMul_CLEARABORT u)\<lparr>NumNcycles := NumNcycles u + 1\<rparr>"
  have ss: "same_sys u v" by (simp add: v_def same_sys_def ARMul_CLEARABORT_def)
  note m = sys_memory [OF ss]
  have g: "\<not> (\<exists>x. grants v ARM_WORD_TYPE va False x)"
    using assms(5) grants_cong(1) [of v ?s] m(2) ss vquiet_frame [OF u(2)] by (simp add: same_sys_def)
  obtain f t where t: "arm926ejs_mmu_write aenv ARM_WORD_TYPE v va d = Inr (f, t)" "t = v \<or> vquiet v t"
    using ungranted_store [of aenv v ARM_WORD_TYPE va d] g u(3) m(5) by auto
  have "ARMul_SwapWord (with_arm926 e aenv) s va d = Inr (peek_word s (phys s ARM_WORD_TYPE va x), t)"
    using u(1) t(1) by (simp add: ARMul_SwapWord_def ARMul_ReadWord_def GetWord_def PutWord_def read_result_def
        arm926ejs_mmu_ops_def ARMul_CLEARABORT_def v_def)
  moreover have "abortSig v = LOW" "Aborted v = Aborted s" "peek_word v = peek_word s"
    using cpu_eq_frame [OF vquiet_cpu [OF u(2)]] vquiet_frame(1) [OF u(2)] m(1)
    by (simp_all add: v_def ARMul_CLEARABORT_def)
  ultimately show ?thesis using quiet_or_same_frame [OF t(2)] by auto
qed


text \<open>A state in which every section is readable and not writable in user mode.\<close>

definition ro926 :: "unit ARMul_State" where
  "ro926 = (vm926 1 USER32MODE)\<lparr>mem := demo_mem\<lparr>rom := (\<lambda>_ _. 0x802)\<rparr>\<rparr>"

lemma ro926_mem: "ram_ok ro926 = ram_ok vm_state" "peek_word ro926 = (\<lambda>_. 0x802)"
  "mapped ro926 = (\<lambda>va. Some (section_entry va 0x802))" "mmu ro926 = mmu (vm926 1 USER32MODE)"
  "Mode ro926 = USER32MODE"
proof -
  have m: "Mode ro926 = USER32MODE" "mmu ro926 = mmu (vm926 1 USER32MODE)" "is_XScale ro926 = is_XScale vm_state"
    by (simp_all add: ro926_def vm926_def)
  then show "Mode ro926 = USER32MODE" "mmu ro926 = mmu (vm926 1 USER32MODE)" by simp_all
  show p: "peek_word ro926 = (\<lambda>_. 0x802)" by (simp add: peek_word_def fun_eq_iff ro926_def)
  show "mapped ro926 = (\<lambda>va. Some (section_entry va 0x802))"
    by (simp add: mapped_def table_entry_def p fun_eq_iff)
  have "ram_ok ro926 = ram_ok (vm926 1 USER32MODE)"
    by (simp add: ro926_def ram_ok_def fun_eq_iff vm926_mem(1))
      (simp add: vm_state_def ram_bank_def bank_no_def cache_ok_def split: option.splits)
  then show "ram_ok ro926 = ram_ok vm_state" by (simp add: vm926_mem(3))
qed

lemma ro926_ok: "vm_ok bare_env ro926"
proof -
  have "ram_ok ro926 (l1_addr 0 va)" for va
    using l1_addr_0 [of va] unfolding ro926_mem by (intro vm_ram_ok) (auto intro: less_trans)
  then have "tables_in_ram ro926 va" for va
    by (simp add: tables_in_ram_def Let_def ro926_mem vm926_mem)
  moreover have "tables_regular ro926"
    by (simp add: tables_regular_def ro926_mem) (simp add: section_entry_def mk_entry_def)
  moreover have "tlb_inv ro926 vm_tlb" by (simp add: vm_tlb_def init_tlb_inv)
  ultimately show ?thesis
    by (simp add: vm_ok_def mmu_state_ok_def MMU_Enabled_def ro926_mem vm926_mem bare_env_def)
      (simp add: vm926_def vm_state_def mmu_zero_def cache_zero_def mmu_cache_search_def)
qed

lemma swap_ignores_store_fault_witness:
  "\<exists>t. ARMul_SwapWord (with_arm926 demo_env bare_env) ro926 0x308000 7
      = Inr (peek_word ro926 (phys ro926 ARM_WORD_TYPE 0x308000 (section_entry 0x308000 0x802)), t)
    \<and> abortSig t = LOW \<and> Aborted t = Aborted ro926 \<and> (\<forall>a. peek_word t a = peek_word ro926 a)"
proof (rule swap_ignores_store_fault [OF ro926_ok])
  have rv: "mmu_pid_va_map ro926 0x308000 = 0x308000"
    by (simp add: mmu_pid_va_map_def ro926_mem vm926_mem)
  have pa: "tlb_va_to_pa (section_entry 0x308000 0x802) 0x308000 = 0x8000"
    by (simp add: tlb_va_to_pa_def section_entry_def mk_entry_def)
  show "grants ro926 ARM_WORD_TYPE 0x308000 True (section_entry 0x308000 0x802)"
    "\<not> (\<exists>x. grants ro926 ARM_WORD_TYPE 0x308000 False x)"
    unfolding grants_def rv align_fault_def access_ok_def ro926_mem vm926_mem check_perms_def Let_def
    by (simp_all add: section_entry_def mk_entry_def domain_of_def vm926_mem)
  show "ram_ok ro926 (phys ro926 ARM_WORD_TYPE 0x308000 (section_entry 0x308000 0x802))"
    using pa by (simp add: phys_def rv ro926_mem vm_ram_ok)
  show "\<not> in_window ro926 0x308000 (section_entry 0x308000 0x802)"
    using pa by (simp add: in_window_def rv)
qed

end
