(* ===== verification/Arm_Operand.thy ===== *)
theory Arm_Operand
  imports Arm_Virt
begin

text \<open>
  The operands and results of ARM instructions, \<^verbatim>\<open>arch/arm/common/armemu.c\<close> in its 32-bit build
  (\<^verbatim>\<open>MODE32\<close> and \<^verbatim>\<open>MODET\<close>): the fields of an instruction word, the immediate table, the barrel shifter
  in its two versions, and the writes to register 15. The shifter is compared with a reference that
  shifts one bit at a time.
\<close>

section \<open>Instruction fields\<close>

definition DESTReg :: "ARMword \<Rightarrow> nat" where "DESTReg instr = unat (BITS instr 12 15)"
definition LHSReg :: "ARMword \<Rightarrow> nat" where "LHSReg instr = unat (BITS instr 16 19)"
definition RHSReg :: "ARMword \<Rightarrow> nat" where "RHSReg instr = unat (BITS instr 0 3)"

abbreviation (input) SHIFTReg :: "ARMword \<Rightarrow> nat" where "SHIFTReg instr \<equiv> unat (BITS instr 8 11)"

abbreviation (input) LSL :: ARMword where "LSL \<equiv> 0"
abbreviation (input) LSR :: ARMword where "LSR \<equiv> 1"
abbreviation (input) ASR :: ARMword where "ASR \<equiv> 2"
abbreviation (input) ROR :: ARMword where "ROR \<equiv> 3"

text \<open>The left operand; the PC is read without its two low bits.\<close>

definition LHS :: "'io ARMul_State \<Rightarrow> ARMword \<Rightarrow> ARMword" where
  "LHS s instr = (if LHSReg instr = 15 then Reg s 15 AND 0xFFFFFFFC else Reg s (LHSReg instr))"

definition ROTATER :: "ARMword \<Rightarrow> nat \<Rightarrow> ARMword" where
  "ROTATER n b = drop_bit b n OR push_bit (32 - b) n"

text \<open>Entry \<open>i\<close> of the table that \<^verbatim>\<open>ARMul_EmulateInit\<close> fills.\<close>

definition ARMul_ImmedTable :: "ARMword \<Rightarrow> ARMword" where
  "ARMul_ImmedTable i = ROTATER (i AND 0xff) (unat (drop_bit 7 i AND 0x1e))"

definition DPImmRHS :: "ARMword \<Rightarrow> ARMword" where
  "DPImmRHS instr = ARMul_ImmedTable (BITS instr 0 11)"

text \<open>The immediate operand of a flag-setting instruction: a rotated one sets the carry.\<close>

definition DPSImmRHS :: "'io ARMul_State \<Rightarrow> ARMword \<Rightarrow> ARMword \<times> 'io ARMul_State" where
  "DPSImmRHS s instr =
     (let temp = BITS instr 0 11; rhs = ARMul_ImmedTable temp
      in (rhs, if temp > 255 then s\<lparr>CFlag := drop_bit 31 rhs\<rparr> else s))"

section \<open>The program counter and the pipeline\<close>

definition INCPC :: "'io ARMul_State \<Rightarrow> 'io ARMul_State" where
  "INCPC s = (set_reg 15 (Reg s 15 + isize s) s)\<lparr>NextInstr := NextInstr s OR 2\<rparr>"

definition BUSUSEDN :: "'io ARMul_State \<Rightarrow> 'io ARMul_State" where
  "BUSUSEDN s = s\<lparr>NextInstr := NextInstr s OR 1\<rparr>"

definition BUSUSEDINCPCS :: "'io ARMul_State \<Rightarrow> 'io ARMul_State" where
  "BUSUSEDINCPCS s =
     (if is_v4 s = 0
      then (set_reg 15 (Reg s 15 + isize s) s)\<lparr>NextInstr := (NextInstr s AND 0xff) OR 2\<rparr> else s)"

definition BUSUSEDINCPCN :: "'io ARMul_State \<Rightarrow> 'io ARMul_State" where
  "BUSUSEDINCPCN s =
     (if is_v4 s \<noteq> 0 then BUSUSEDN s
      else (set_reg 15 (Reg s 15 + isize s) s)\<lparr>NextInstr := NextInstr s OR 3\<rparr>)"

section \<open>The barrel shifter\<close>

text \<open>A shift by a register, of which the low byte counts.\<close>

definition reg_shift :: "ARMword \<Rightarrow> ARMword \<Rightarrow> ARMword \<Rightarrow> ARMword" where
  "reg_shift ty base shamt =
     (if ty = LSL then (if shamt = 0 then base else if shamt \<ge> 32 then 0 else push_bit (unat shamt) base)
      else if ty = LSR then (if shamt = 0 then base else if shamt \<ge> 32 then 0 else drop_bit (unat shamt) base)
      else if ty = ASR
      then (if shamt = 0 then base else if shamt \<ge> 32 then signed_drop_bit 31 base
            else signed_drop_bit (unat shamt) base)
      else let shamt = shamt AND 0x1f
           in if shamt = 0 then base
              else push_bit (unat (32 - shamt)) base OR drop_bit (unat shamt) base)"

text \<open>A shift by a constant, where 0 stands for 32 or for a rotation through the carry.\<close>

definition imm_shift :: "ARMword \<Rightarrow> ARMword \<Rightarrow> ARMword \<Rightarrow> ARMword \<Rightarrow> ARMword" where
  "imm_shift ty base shamt c =
     (if ty = LSL then push_bit (unat shamt) base
      else if ty = LSR then (if shamt = 0 then 0 else drop_bit (unat shamt) base)
      else if ty = ASR
      then (if shamt = 0 then signed_drop_bit 31 base else signed_drop_bit (unat shamt) base)
      else if shamt = 0 then drop_bit 1 base OR push_bit 31 c
           else push_bit (unat (32 - shamt)) base OR drop_bit (unat shamt) base)"

definition GetDPRegRHS :: "'io ARMul_State \<Rightarrow> ARMword \<Rightarrow> ARMword \<times> 'io ARMul_State" where
  "GetDPRegRHS s instr =
     (if BIT instr 4 \<noteq> 0
      then let s = INCPC s; base = Reg s (RHSReg instr); s = ARMul_Icycles s 1;
               shamt = Reg s (SHIFTReg instr) AND 0xff
           in (reg_shift (BITS instr 5 6) base shamt, s)
      else (imm_shift (BITS instr 5 6) (Reg s (RHSReg instr)) (BITS instr 7 11) (CFlag s), s))"

definition DPRegRHS :: "'io ARMul_State \<Rightarrow> ARMword \<Rightarrow> ARMword \<times> 'io ARMul_State" where
  "DPRegRHS s instr =
     (if BITS instr 4 11 = 0 then (Reg s (RHSReg instr), s) else GetDPRegRHS s instr)"

text \<open>The flag-setting versions return the operand and the new carry.\<close>

definition reg_shift_s :: "ARMword \<Rightarrow> ARMword \<Rightarrow> ARMword \<Rightarrow> ARMword \<Rightarrow> ARMword \<times> ARMword" where
  "reg_shift_s ty base shamt c =
     (if ty = LSL
      then (if shamt = 0 then (base, c)
            else if shamt = 32 then (0, base AND 1)
            else if shamt > 32 then (0, 0)
            else (push_bit (unat shamt) base, drop_bit (unat (32 - shamt)) base AND 1))
      else if ty = LSR
      then (if shamt = 0 then (base, c)
            else if shamt = 32 then (0, drop_bit 31 base)
            else if shamt > 32 then (0, 0)
            else (drop_bit (unat shamt) base, drop_bit (unat (shamt - 1)) base AND 1))
      else if ty = ASR
      then (if shamt = 0 then (base, c)
            else if shamt \<ge> 32 then (signed_drop_bit 31 base, drop_bit 31 base)
            else (signed_drop_bit (unat shamt) base, signed_drop_bit (unat (shamt - 1)) base AND 1))
      else if shamt = 0 then (base, c)
           else let shamt = shamt AND 0x1f
                in if shamt = 0 then (base, drop_bit 31 base)
                   else (push_bit (unat (32 - shamt)) base OR drop_bit (unat shamt) base,
                         drop_bit (unat (shamt - 1)) base AND 1))"

text \<open>
  For \<^verbatim>\<open>LSL #0\<close> the code shifts by 32, which C leaves undefined; the macro \<^verbatim>\<open>DPSRegRHS\<close> answers that
  case itself.
\<close>

definition imm_shift_s :: "ARMword \<Rightarrow> ARMword \<Rightarrow> ARMword \<Rightarrow> ARMword \<Rightarrow> ARMword \<times> ARMword" where
  "imm_shift_s ty base shamt c =
     (if ty = LSL then (push_bit (unat shamt) base, drop_bit (unat (32 - shamt)) base AND 1)
      else if ty = LSR
      then (if shamt = 0 then (0, drop_bit 31 base)
            else (drop_bit (unat shamt) base, drop_bit (unat (shamt - 1)) base AND 1))
      else if ty = ASR
      then (if shamt = 0 then (signed_drop_bit 31 base, drop_bit 31 base)
            else (signed_drop_bit (unat shamt) base, signed_drop_bit (unat (shamt - 1)) base AND 1))
      else if shamt = 0 then (drop_bit 1 base OR push_bit 31 c, base AND 1)
           else (push_bit (unat (32 - shamt)) base OR drop_bit (unat shamt) base,
                 drop_bit (unat (shamt - 1)) base AND 1))"

definition GetDPSRegRHS :: "'io ARMul_State \<Rightarrow> ARMword \<Rightarrow> ARMword \<times> 'io ARMul_State" where
  "GetDPSRegRHS s instr =
     (if BIT instr 4 \<noteq> 0
      then let s = INCPC s; base = Reg s (RHSReg instr); s = ARMul_Icycles s 1;
               shamt = Reg s (SHIFTReg instr) AND 0xff;
               (r, c) = reg_shift_s (BITS instr 5 6) base shamt (CFlag s)
           in (r, s\<lparr>CFlag := c\<rparr>)
      else let (r, c) = imm_shift_s (BITS instr 5 6) (Reg s (RHSReg instr)) (BITS instr 7 11) (CFlag s)
           in (r, s\<lparr>CFlag := c\<rparr>))"

definition DPSRegRHS :: "'io ARMul_State \<Rightarrow> ARMword \<Rightarrow> ARMword \<times> 'io ARMul_State" where
  "DPSRegRHS s instr =
     (if BITS instr 4 11 = 0 then (Reg s (RHSReg instr), s) else GetDPSRegRHS s instr)"

section \<open>Offsets of loads and stores\<close>

definition GetLSRegRHS :: "'io ARMul_State \<Rightarrow> ARMword \<Rightarrow> ARMword" where
  "GetLSRegRHS s instr =
     imm_shift (BITS instr 5 6) (Reg s (RHSReg instr)) (BITS instr 7 11) (CFlag s)"

definition LSRegRHS :: "'io ARMul_State \<Rightarrow> ARMword \<Rightarrow> ARMword" where
  "LSRegRHS s instr =
     (if BITS instr 4 11 = 0 then Reg s (RHSReg instr) else GetLSRegRHS s instr)"

definition LSImmRHS :: "ARMword \<Rightarrow> ARMword" where "LSImmRHS instr = BITS instr 0 11"

definition GetLS7RHS :: "'io ARMul_State \<Rightarrow> ARMword \<Rightarrow> ARMword" where
  "GetLS7RHS s instr =
     (if BIT instr 22 = 0 then Reg s (RHSReg instr)
      else BITS instr 0 3 OR push_bit 4 (BITS instr 8 11))"

section \<open>Writes to register 15\<close>

definition WriteR15 :: "'io ARMul_State \<Rightarrow> ARMword \<Rightarrow> 'io ARMul_State" where
  "WriteR15 s src =
     (let src = src AND (if TFlag s \<noteq> 0 then 0xfffffffe else 0xfffffffc)
      in FLUSHPIPE (set_reg 15 (src AND PCBITS32) s))"

definition WriteSR15 :: "'io ARMul_State \<Rightarrow> ARMword \<Rightarrow> 'io ARMul_State" where
  "WriteSR15 s src =
     (let s = (if Bank s > 0 then ARMul_CPSRAltered (s\<lparr>Cpsr := Spsr s (Bank s)\<rparr>) else s);
          src = src AND (if TFlag s \<noteq> 0 then 0xfffffffe else 0xfffffffc)
      in FLUSHPIPE (set_reg 15 (src AND PCBITS32) s))"

definition WriteR15Branch :: "'io ARMul_State \<Rightarrow> ARMword \<Rightarrow> 'io ARMul_State" where
  "WriteR15Branch s src =
     (let s = (if src AND 1 \<noteq> 0 then set_reg 15 (src AND 0xfffffffe) (s\<lparr>TFlag := 1\<rparr>)
               else set_reg 15 (src AND 0xfffffffc) (s\<lparr>TFlag := 0\<rparr>))
      in FLUSHPIPE (s\<lparr>Cpsr := ARMul_GetCPSR s\<rparr>))"

definition WRITEDEST :: "ARMword \<Rightarrow> ARMword \<Rightarrow> 'io ARMul_State \<Rightarrow> 'io ARMul_State" where
  "WRITEDEST instr d s =
     (if DESTReg instr = 15 then WriteR15 s d else set_reg (DESTReg instr) d s)"

definition WRITESDEST :: "ARMword \<Rightarrow> ARMword \<Rightarrow> 'io ARMul_State \<Rightarrow> 'io ARMul_State" where
  "WRITESDEST instr d s =
     (if DESTReg instr = 15 then WriteSR15 s d
      else ARMul_NegZero (set_reg (DESTReg instr) d s) d)"

definition WRITEDESTB :: "ARMword \<Rightarrow> ARMword \<Rightarrow> 'io ARMul_State \<Rightarrow> 'io ARMul_State" where
  "WRITEDESTB instr d s =
     (if DESTReg instr = 15 then WriteR15Branch s d else set_reg (DESTReg instr) d s)"

section \<open>The shifter shifts one bit at a time\<close>

definition shift_step :: "ARMword \<Rightarrow> ARMword \<times> ARMword \<Rightarrow> ARMword \<times> ARMword" where
  "shift_step ty wc = (case wc of (w, c) \<Rightarrow>
     if ty = LSL then (push_bit 1 w, drop_bit 31 w)
     else if ty = LSR then (drop_bit 1 w, w AND 1)
     else if ty = ASR then (signed_drop_bit 1 w, w AND 1)
     else (word_rotr 1 w, w AND 1))"

definition rrx_step :: "ARMword \<times> ARMword \<Rightarrow> ARMword \<times> ARMword" where
  "rrx_step wc = (case wc of (w, c) \<Rightarrow> (drop_bit 1 w OR push_bit 31 c, w AND 1))"

text \<open>The shifter operand of the architecture: what a shift amount of 0 means depends on where it is.\<close>

definition shifter :: "ARMword \<Rightarrow> bool \<Rightarrow> nat \<Rightarrow> ARMword \<times> ARMword \<Rightarrow> ARMword \<times> ARMword" where
  "shifter ty by_reg n wc =
     (if by_reg \<or> n \<noteq> 0 \<or> ty = LSL then (shift_step ty ^^ n) wc
      else if ty = ROR then rrx_step wc
      else (shift_step ty ^^ 32) wc)"

lemma and_1_of_bool: "w AND 1 = (of_bool (bit w 0) :: ARMword)"
  by (simp add: and_one_eq mod2_eq_if bit_0)

lemma drop_31_of_bool: "drop_bit 31 w = (of_bool (bit w 31) :: ARMword)"
  by (rule word32_eqI) (simp only: all_less_32_iff, simp add: bit_simps bit_high_False)

lemma shift_LSL: "(shift_step LSL ^^ n) (w, c) = (push_bit n w, if n = 0 then c else of_bool (bit (push_bit (n - 1) w) 31))"
proof (induction n)
  case (Suc n)
  then show ?case by (simp add: shift_step_def drop_31_of_bool push_bit_eq_mult)
qed simp

lemma shift_LSR: "(shift_step LSR ^^ n) (w, c) = (drop_bit n w, if n = 0 then c else of_bool (bit (drop_bit (n - 1) w) 0))"
proof (induction n)
  case (Suc n)
  then show ?case by (simp add: shift_step_def and_1_of_bool)
qed simp

lemma signed_drop_bit_add: "signed_drop_bit 1 (signed_drop_bit n (w :: ARMword)) = signed_drop_bit (Suc n) w"
  by (rule bit_word_eqI) (auto simp: bit_signed_drop_bit_iff)

lemma shift_ASR:
  "(shift_step ASR ^^ n) (w, c) = (signed_drop_bit n w, if n = 0 then c else of_bool (bit (signed_drop_bit (n - 1) w) 0))"
proof (induction n)
  case (Suc n)
  then show ?case by (simp add: shift_step_def and_1_of_bool signed_drop_bit_add)
qed simp

lemma word_rotr_0: "word_rotr 0 (w :: ARMword) = w"
  by (rule bit_word_eqI) (simp add: bit_word_rotr_iff)

lemma shift_ROR:
  "(shift_step ROR ^^ n) (w, c) = (word_rotr n w, if n = 0 then c else of_bool (bit (word_rotr (n - 1) w) 0))"
proof (induction n)
  case (Suc n)
  then show ?case by (simp add: shift_step_def and_1_of_bool word_rotr_word_rotr_eq)
qed (simp add: word_rotr_0)


lemma low_byte: "x AND 0xff < (256 :: ARMword)"
  by (rule le_less_trans [OF word_and_le1]) simp

lemma low_bits_5: "unat (x AND 0x1f :: ARMword) = unat x mod 32"
proof -
  have "unat (take_bit 5 x) = take_bit 5 (unat x)" by (rule unsigned_take_bit_eq)
  moreover have "take_bit 5 x = x AND 0x1f" by (simp add: take_bit_eq_mask mask_eq_exp_minus_1)
  moreover have "take_bit 5 (unat x) = unat x mod 32" by (simp add: take_bit_eq_mod)
  ultimately show ?thesis by simp
qed

lemma rotate_halves:
  assumes "0 < n" "n < 32"
  shows "push_bit (32 - n) w OR drop_bit n (w :: ARMword) = word_rotr n w"
proof (rule bit_word_eqI)
  fix i assume i: "i < LENGTH(32)"
  show "bit (push_bit (32 - n) w OR drop_bit n w) i = bit (word_rotr n w) i"
  proof (cases "i + n < 32")
    case True
    then show ?thesis using assms i by (auto simp: bit_word_rotr_iff bit_simps add.commute)
  next
    case False
    then have "(i + n) mod 32 = i + n - 32" using i assms by (simp add: mod_if)
    then show ?thesis using False assms i
      by (auto simp: bit_word_rotr_iff bit_simps add.commute dest: bit_imp_le_length)
  qed
qed

lemma amount_cases:
  fixes shamt :: ARMword
  shows "shamt = 0 \<longleftrightarrow> unat shamt = 0" "shamt = 32 \<longleftrightarrow> unat shamt = 32" "32 < shamt \<longleftrightarrow> 32 < unat shamt"
    "32 \<le> shamt \<longleftrightarrow> 32 \<le> unat shamt"
    "unat shamt \<le> 32 \<Longrightarrow> unat (32 - shamt) = 32 - unat shamt"
    "unat shamt \<noteq> 0 \<Longrightarrow> unat (shamt - 1) = unat shamt - 1"
proof -
  show "unat shamt \<le> 32 \<Longrightarrow> unat (32 - shamt) = 32 - unat shamt"
    by (subst unat_sub) (simp_all add: word_le_nat_alt)
  show "unat shamt \<noteq> 0 \<Longrightarrow> unat (shamt - 1) = unat shamt - 1"
    by (rule unat_minus_one) (auto simp: unat_eq_0)
  show "shamt = 32 \<longleftrightarrow> unat shamt = 32" by (simp add: word_unat_eq_iff)
qed (simp_all add: unat_eq_0 word_less_nat_alt word_le_nat_alt)

lemma LSL_by_reg: "reg_shift_s LSL base shamt c = (shift_step LSL ^^ unat shamt) (base, c)"
  unfolding shift_LSL reg_shift_s_def amount_cases(1-4)
  by (auto simp: amount_cases(5) and_1_of_bool bit_simps push_bit_word_beyond)

lemma LSR_by_reg: "reg_shift_s LSR base shamt c = (shift_step LSR ^^ unat shamt) (base, c)"
  unfolding shift_LSR reg_shift_s_def amount_cases(1-4)
  by (auto simp: amount_cases(6) and_1_of_bool drop_31_of_bool bit_simps drop_bit_word_beyond dest: bit_imp_le_length)

lemma ASR_beyond: "32 \<le> n \<Longrightarrow> signed_drop_bit n (w :: ARMword) = signed_drop_bit 31 w"
  by (rule bit_word_eqI) (auto simp: bit_signed_drop_bit_iff Suc_le_eq)

lemma ASR_by_reg: "reg_shift_s ASR base shamt c = (shift_step ASR ^^ unat shamt) (base, c)"
proof -
  consider "unat shamt < 32" | "unat shamt = 32" | "unat shamt > 32" by linarith
  then show ?thesis
    unfolding shift_ASR reg_shift_s_def amount_cases(1-4)
    by cases (auto simp: amount_cases(6) and_1_of_bool drop_31_of_bool ASR_beyond bit_signed_drop_bit_iff)
qed

lemma rotr_mod: "word_rotr n (w :: ARMword) = word_rotr (n mod 32) w"
  by (rule bit_word_eqI) (simp add: bit_word_rotr_iff mod_simps)

lemma pred_mod_32:
  fixes n :: nat
  shows "n mod 32 = 0 \<Longrightarrow> n \<noteq> 0 \<Longrightarrow> (n - 1) mod 32 = 31" "n mod 32 \<noteq> 0 \<Longrightarrow> (n - 1) mod 32 = n mod 32 - 1"
proof -
  have n: "n = 32 * (n div 32) + n mod 32" by simp
  assume "n mod 32 = 0" "n \<noteq> 0"
  then obtain k where "n = 32 * Suc k" using n by (metis add.right_neutral mult_0_right old.nat.exhaust)
  then have "n - 1 = 31 + 32 * k" by simp
  then show "(n - 1) mod 32 = 31" by (simp add: mod_mult_self2)
next
  have n: "n = 32 * (n div 32) + n mod 32" by simp
  assume "n mod 32 \<noteq> 0"
  then have "n - 1 = (n mod 32 - 1) + 32 * (n div 32)" using n by linarith
  moreover have "n mod 32 - 1 < 32" by (rule le_less_trans [of _ "n mod 32"]) simp_all
  ultimately show "(n - 1) mod 32 = n mod 32 - 1" by (simp add: mod_mult_self2)
qed

lemma ROR_by_reg: "reg_shift_s ROR base shamt c = (shift_step ROR ^^ unat shamt) (base, c)"
proof (cases "unat shamt mod 32 = 0")
  case True
  have "(unat shamt - 1) mod 32 = 31" if "unat shamt \<noteq> 0" using True that by (rule pred_mod_32)
  then have "bit (word_rotr (unat shamt - 1) base) 0 = bit base 31" if "unat shamt \<noteq> 0"
    using that by (simp add: bit_word_rotr_iff)
  moreover have "shamt AND 0x1f = 0" using True by (simp only: amount_cases(1) low_bits_5)
  ultimately show ?thesis
    using True rotr_mod [of "unat shamt" base]
    unfolding shift_ROR reg_shift_s_def amount_cases(1) Let_def drop_31_of_bool
    by (simp add: word_rotr_0)
next
  case False
  let ?k = "shamt AND 0x1f"
  have k: "unat ?k = unat shamt mod 32" by (rule low_bits_5)
  have n: "unat shamt \<noteq> 0" "unat ?k \<noteq> 0" "unat ?k < 32" using False k by (auto intro: Nat.gr0I)
  have "(unat shamt - 1) mod 32 = unat ?k - 1" using pred_mod_32(2) [OF False] k by simp
  then have "bit (word_rotr (unat shamt - 1) base) 0 = bit base (unat ?k - 1)"
    by (simp add: bit_word_rotr_iff)
  moreover have "push_bit (unat (32 - ?k)) base OR drop_bit (unat ?k) base = word_rotr (unat shamt) base"
    using rotate_halves [of "unat ?k" base] n amount_cases(5) [of ?k] rotr_mod [of "unat shamt" base] k by simp
  ultimately show ?thesis
    using n amount_cases(6) [of ?k] by (simp add: shift_ROR reg_shift_s_def amount_cases(1) and_1_of_bool bit_simps Let_def)
qed


lemma shift_type_cases:
  obtains "BITS instr 5 6 = LSL" | "BITS instr 5 6 = LSR" | "BITS instr 5 6 = ASR" | "BITS instr 5 6 = ROR"
proof -
  have "unat (BITS instr 5 6) < 4" using unat_BITS_bound [of 5 6 instr] by simp
  then have "unat (BITS instr 5 6) \<in> {0, 1, 2, 3}" by auto
  then show thesis using that by (auto simp: word_unat_eq_iff)
qed

lemma by_reg_steps:
  "reg_shift_s (BITS instr 5 6) base shamt c = shifter (BITS instr 5 6) True (unat shamt) (base, c)"
  using LSL_by_reg LSR_by_reg ASR_by_reg ROR_by_reg
  by (rule_tac instr = instr in shift_type_cases) (simp_all add: shifter_def)

text \<open>A shift by a constant from 1 to 31 is the shift by a register that holds it.\<close>

lemma imm_is_reg:
  assumes "0 < unat shamt" "unat shamt < 32"
  shows "imm_shift_s ty base shamt c = reg_shift_s ty base shamt c"
proof -
  have "unat (shamt AND 0x1f) = unat shamt" using assms(2) by (simp add: low_bits_5)
  then have "shamt AND 0x1f = shamt" by (simp only: word_unat_eq_iff)
  then show ?thesis using assms by (auto simp: imm_shift_s_def reg_shift_s_def amount_cases(1-4) Let_def)
qed

lemma by_imm_steps:
  assumes "unat shamt < 32" "\<not> (BITS instr 5 6 = LSL \<and> shamt = 0)"
  shows "imm_shift_s (BITS instr 5 6) base shamt c = shifter (BITS instr 5 6) False (unat shamt) (base, c)"
proof (cases "shamt = 0")
  case True
  have 32: "reg_shift_s ty base 32 c = imm_shift_s ty base 0 c" if "ty = LSR \<or> ty = ASR" for ty
    using that by (auto simp: reg_shift_s_def imm_shift_s_def)
  show ?thesis
    by (rule shift_type_cases [of instr])
      (use True assms(2) 32 LSR_by_reg [of base 32 c] ASR_by_reg [of base 32 c] in
        \<open>simp_all add: shifter_def\<close>, simp add: imm_shift_s_def rrx_step_def)
next
  case False
  then have "0 < unat shamt" by (simp add: unat_gt_0)
  then show ?thesis
    using imm_is_reg [OF _ assms(1)] by_reg_steps [of instr base shamt c] by (simp add: shifter_def)
qed

text \<open>The two versions of the shifter give the same operand.\<close>

lemma reg_shift_fst: "fst (reg_shift_s ty base shamt c) = reg_shift ty base shamt"
  by (auto simp: reg_shift_s_def reg_shift_def Let_def)

lemma imm_shift_fst: "fst (imm_shift_s ty base shamt c) = imm_shift ty base shamt c"
  by (auto simp: imm_shift_s_def imm_shift_def)


lemma bit_BITS: "m \<le> n \<Longrightarrow> n \<le> 31 \<Longrightarrow> bit (BITS i m n) k \<longleftrightarrow> m + k \<le> n \<and> bit i (m + k)"
  by (auto simp: BITS_take_bit bit_simps)

lemma BITS_eq_0_iff:
  assumes "m \<le> n" "n \<le> 31"
  shows "BITS i m n = 0 \<longleftrightarrow> (\<forall>k. m \<le> k \<longrightarrow> k \<le> n \<longrightarrow> \<not> bit i k)"
proof
  assume z: "BITS i m n = 0"
  show "\<forall>k. m \<le> k \<longrightarrow> k \<le> n \<longrightarrow> \<not> bit i k"
  proof (intro allI impI)
    fix k assume "m \<le> k" "k \<le> n"
    then show "\<not> bit i k" using bit_BITS [OF assms, of i "k - m"] z by simp
  qed
next
  assume "\<forall>k. m \<le> k \<longrightarrow> k \<le> n \<longrightarrow> \<not> bit i k"
  then show "BITS i m n = 0" using assms by (intro bit_word_eqI) (auto simp: bit_BITS)
qed

lemma BITS_4_11_eq_0:
  "BITS instr 4 11 = 0 \<longleftrightarrow> BIT instr 4 = 0 \<and> BITS instr 5 6 = 0 \<and> BITS instr 7 11 = 0"
proof -
  have c: "k = 4 \<or> (5 \<le> k \<and> k \<le> 6) \<or> (7 \<le> k \<and> k \<le> 11)" if "4 \<le> k" "k \<le> 11" for k :: nat
    using that by linarith
  have "(\<forall>k. 4 \<le> k \<longrightarrow> k \<le> 11 \<longrightarrow> \<not> bit instr k) \<longleftrightarrow> \<not> bit instr 4
      \<and> (\<forall>k. 5 \<le> k \<longrightarrow> k \<le> 6 \<longrightarrow> \<not> bit instr k) \<and> (\<forall>k. 7 \<le> k \<longrightarrow> k \<le> 11 \<longrightarrow> \<not> bit instr k)"
    (is "?a = ?b")
  proof
    assume ?b then show ?a using c by metis
  qed simp
  then show ?thesis by (simp add: BITS_eq_0_iff)
qed

text \<open>The operand and the carry of both macros, for every instruction word.\<close>

definition shifter_operand :: "'io ARMul_State \<Rightarrow> ARMword \<Rightarrow> (ARMword \<times> ARMword) \<times> 'io ARMul_State" where
  "shifter_operand s instr =
     (let by_reg = BIT instr 4 \<noteq> 0; s' = (if by_reg then ARMul_Icycles (INCPC s) 1 else s);
          n = (if by_reg then unat (Reg s' (SHIFTReg instr) AND 0xff) else unat (BITS instr 7 11))
      in (shifter (BITS instr 5 6) by_reg n (Reg s' (RHSReg instr), CFlag s'), s'))"

lemma Icycles_frame [simp]: "Reg (ARMul_Icycles s n) = Reg s" "CFlag (ARMul_Icycles s n) = CFlag s"
  by (simp_all add: ARMul_Icycles_def)

lemma DPSRegRHS_operand:
  "DPSRegRHS s instr = (case shifter_operand s instr of ((r, c), s') \<Rightarrow> (r, s'\<lparr>CFlag := c\<rparr>))"
proof (cases "BITS instr 4 11 = 0")
  case True
  then have z: "BIT instr 4 = 0" "BITS instr 5 6 = 0" "BITS instr 7 11 = 0" using BITS_4_11_eq_0 by blast+
  have "shifter_operand s instr = ((Reg s (RHSReg instr), CFlag s), s)"
    by (simp add: shifter_operand_def Let_def z shifter_def)
  then show ?thesis using True by (simp add: DPSRegRHS_def)
next
  case False
  show ?thesis
  proof (cases "BIT instr 4 = 0")
    case True
    have "\<not> (BITS instr 5 6 = LSL \<and> BITS instr 7 11 = 0)"
      using True False BITS_4_11_eq_0 by blast
    then have "imm_shift_s (BITS instr 5 6) (Reg s (RHSReg instr)) (BITS instr 7 11) (CFlag s)
        = shifter (BITS instr 5 6) False (unat (BITS instr 7 11)) (Reg s (RHSReg instr), CFlag s)"
      using unat_BITS_bound [of 7 11 instr] by (intro by_imm_steps) simp_all
    then show ?thesis using False True
      by (simp add: DPSRegRHS_def GetDPSRegRHS_def shifter_operand_def Let_def split: prod.splits)
  next
    case reg: False
    then show ?thesis using False
      by (simp add: DPSRegRHS_def GetDPSRegRHS_def shifter_operand_def Let_def by_reg_steps split: prod.splits)
  qed
qed


lemma DPRegRHS_operand:
  "DPRegRHS s instr = (case shifter_operand s instr of ((r, c), s') \<Rightarrow> (r, s'))"
proof -
  have "fst (DPSRegRHS s instr) = fst (DPRegRHS s instr)"
    by (simp add: DPSRegRHS_def DPRegRHS_def GetDPSRegRHS_def GetDPRegRHS_def Let_def case_prod_beta
        reg_shift_fst imm_shift_fst)
  moreover have "snd (DPRegRHS s instr) = snd (shifter_operand s instr)"
    using BITS_4_11_eq_0 [of instr]
    by (auto simp: DPRegRHS_def GetDPRegRHS_def shifter_operand_def Let_def)
  ultimately show ?thesis
    unfolding DPSRegRHS_operand by (auto split: prod.splits intro: prod_eqI)
qed

text \<open>
  C10: the barrel shifter. For every instruction word the flag-setting operand macro returns what
  shifting the register one bit at a time gives, with the last bit shifted out as the carry: a register
  amount from 0 to 255, a constant from 0 to 31 where 0 stands for 32, and the rotation through the
  carry. The macro without flags returns the same operand.
\<close>

theorem shifter_correct:
  "DPSRegRHS s instr = (case shifter_operand s instr of ((r, c), s') \<Rightarrow> (r, s'\<lparr>CFlag := c\<rparr>))
    \<and> DPRegRHS s instr = (case shifter_operand s instr of ((r, c), s') \<Rightarrow> (r, s'))"
  by (simp only: DPSRegRHS_operand DPRegRHS_operand)

section \<open>Immediate operands\<close>

lemma unat_drop32: "unat (drop_bit k (i :: ARMword)) = unat i div 2 ^ k"
proof -
  have "unat i < 2 ^ 32" using unsigned_less [of i] by simp
  then show ?thesis unfolding unsigned_drop_bit_eq by (simp add: take_bit_nat_eq_self drop_bit_eq_div)
qed

lemma immediate_rotation:
  assumes "i < 4096"
  shows "ARMul_ImmedTable i = word_rotr (2 * unat (drop_bit 8 i)) (i AND 0xff)"
    "(255 < i) = (unat (drop_bit 8 i) \<noteq> 0)"
proof -
  have n: "unat i < 4096" using assms by (simp add: word_less_nat_alt)
  have k: "unat (drop_bit 8 i) < 16" using n unat_drop32 [of 8 i] by simp
  show "(255 < i) = (unat (drop_bit 8 i) \<noteq> 0)"
    unfolding unat_drop32 word_less_nat_alt by auto
  have "drop_bit 7 i AND 0x1e = push_bit 1 (drop_bit 8 i)"
  proof (rule word32_eqI)
    have "\<not> bit i j" if "12 \<le> j" for j
      using word_less_2p_bit [of i 12 j] assms that by simp
    then show "\<forall>n<32. bit (drop_bit 7 i AND 0x1e) n = bit (push_bit 1 (drop_bit 8 i)) n"
      unfolding all_less_32_iff bit_push_bit_iff bit_and_iff by (simp add: bit_simps)
  qed
  moreover have "unat (push_bit 1 (drop_bit 8 i)) = 2 * unat (drop_bit 8 i)"
    using k by (simp add: unat_word_ariths)
  ultimately have u: "unat (drop_bit 7 i AND 0x1e) = 2 * unat (drop_bit 8 i)" by simp
  show "ARMul_ImmedTable i = word_rotr (2 * unat (drop_bit 8 i)) (i AND 0xff)"
  proof (cases "unat (drop_bit 8 i) = 0")
    case True
    then show ?thesis unfolding ARMul_ImmedTable_def ROTATER_def u by (simp add: word_rotr_0 push_bit_word_beyond)
  next
    case False
    then show ?thesis unfolding ARMul_ImmedTable_def ROTATER_def u
      using rotate_halves [of "2 * unat (drop_bit 8 i)" "i AND 0xff"] k by (simp add: or.commute)
  qed
qed


text \<open>
  Immediate operands. The operand of an immediate instruction is its low byte rotated right by
  twice the rotation field, and the flag-setting form sets the carry to the top bit of the operand
  exactly when the rotation field is not 0.
\<close>

lemma immediate_operand_correct:
  "DPImmRHS instr = word_rotr (2 * unat (BITS instr 8 11)) (instr AND 0xff)
    \<and> DPSImmRHS s instr =
       (DPImmRHS instr, if BITS instr 8 11 = 0 then s else s\<lparr>CFlag := of_bool (bit (DPImmRHS instr) 31)\<rparr>)"
proof -
  let ?i = "BITS instr 0 11"
  have i: "?i < 4096" using unat_BITS_bound [of 0 11 instr] by (simp add: word_less_nat_alt)
  have d: "drop_bit 8 ?i = BITS instr 8 11"
    by (rule bit_word_eqI) (auto simp: bit_drop_bit_eq bit_BITS)
  have a: "?i AND 0xff = instr AND 0xff"
    by (rule word32_eqI) (simp only: all_less_32_iff, simp add: bit_and_iff bit_BITS numeral_2_eq_2)
  have z: "(unat (BITS instr 8 11) \<noteq> 0) = (BITS instr 8 11 \<noteq> 0)" by (simp add: unat_eq_0)
  note r = immediate_rotation [OF i, unfolded d a]
  have im: "DPImmRHS instr = word_rotr (2 * unat (BITS instr 8 11)) (instr AND 0xff)"
    unfolding DPImmRHS_def by (rule r(1))
  show ?thesis
    unfolding DPSImmRHS_def Let_def r(2) z drop_31_of_bool DPImmRHS_def [symmetric]
    using im by simp
qed

section \<open>Return from an exception\<close>

lemma and_ones [simp]: "(w :: ARMword) AND 0xffffffff = w"
  by (rule word32_eqI) (simp only: all_less_32_iff, simp add: bit_and_iff)

lemma Abort_exc_pre:
  assumes "exc_pre s" "(vec, m, i, da, dt) \<in> set exc_table"
  shows "exc_pre (ARMul_Abort s vec)" "Bank (ARMul_Abort s vec) = ModeToBank m" "0 < ModeToBank m"
proof -
  have m: "m \<in> exc_modes" using exc_table_facts [OF assms(2)] by simp
  note e = exc_modes_facts [OF m] and a = Abort_entry_facts [OF assms]
  show "exc_pre (ARMul_Abort s vec)" using a(1,3,9) e assms(1) by (simp add: exc_pre_def)
  show "Bank (ARMul_Abort s vec) = ModeToBank m" using a(1,3) by (simp add: cpu_ok_def bank_ok_def)
  show "0 < ModeToBank m" using e(5) by simp
qed

lemma FLUSHPIPE_facts [simp]:
  "CPSR (FLUSHPIPE s) = CPSR s" "Mode (FLUSHPIPE s) = Mode s" "cpu_ok (FLUSHPIPE s) = cpu_ok s"
  "Reg (FLUSHPIPE s) = Reg s" "TFlag (FLUSHPIPE s) = TFlag s"
  by (simp_all add: FLUSHPIPE_def CPSR_defs cpu_ok_def bank_ok_def)

lemma set_reg_facts [simp]:
  "CPSR (set_reg n v s) = CPSR s" "Mode (set_reg n v s) = Mode s" "cpu_ok (set_reg n v s) = cpu_ok s"
  "TFlag (set_reg n v s) = TFlag s"
  by (simp_all add: set_reg_def CPSR_defs cpu_ok_def bank_ok_def)

lemma CPSR_TFlag: "cpu_ok s \<Longrightarrow> TFlag s = of_bool (bit (CPSR s) 5)"
proof -
  assume ok: "cpu_ok s"
  have "bit (CPSR s) 5 = bit (TFlag s) 0"
    using cpu_ok_bits [OF ok] by (simp add: CPSR_defs bit_simps)
  moreover have "TFlag s = of_bool (bit (TFlag s) 0)"
    using cpu_ok_bits(6) [OF ok] by (intro bit_word_eqI) (metis bit_of_bool_iff of_bool_eq_0_iff neq0_conv)
  ultimately show ?thesis by simp
qed

text \<open>
  C11: an exception and the return from it. Entering any exception and writing the PC with the flag-setting
  form brings back the mode, the whole CPSR and every register of every bank, but for the link register
  of the exception's mode, and continues at the address written, in the instruction set it came from.
\<close>

theorem exception_return:
  assumes "exc_pre s" "(vec, m, i, da, dt) \<in> set exc_table"
  shows "Mode (WriteSR15 (ARMul_Abort s vec) ret) = Mode s
    \<and> ARMul_GetCPSR (WriteSR15 (ARMul_Abort s vec) ret) = ARMul_GetCPSR s
    \<and> cpu_ok (WriteSR15 (ARMul_Abort s vec) ret)
    \<and> physreg (WriteSR15 (ARMul_Abort s vec) ret) b r =
       (if r = 15 then ret AND (if TFlag s \<noteq> 0 then 0xfffffffe else 0xfffffffc)
        else if r = 14 \<and> b = ModeToBank m then Reg s 15 - (if TFlag s \<noteq> 0 then dt else da)
        else physreg s b r)"
proof -
  let ?t = "ARMul_Abort s vec" let ?u = "ARMul_SetCPSR ?t (CPSR s)"
  note p = Abort_exc_pre [OF assms] and a = Abort_entry_facts [OF assms]
  have ok: "cpu_ok s" "3 < Mode s" "ModeToBank (Mode s) \<noteq> DUMMYBANK" using assms(1) by (auto simp: exc_pre_def)
  have md: "CPSR s AND MODEBITS = Mode s" by (rule CPSR_mode [OF ok(1)])
  have u: "physreg ?u b r = physreg ?t b r" "cpu_ok ?u" "CPSR ?u = CPSR s" "Mode ?u = Mode s" for b r
    using SetCPSR_32 [OF p(1), of "CPSR s"] ok CPSR_kept [OF ok(1)] by (simp_all add: md)
  have tf: "TFlag ?u = TFlag s" using CPSR_TFlag [OF u(2)] CPSR_TFlag [OF ok(1)] u(3) by simp
  have w: "WriteSR15 ?t ret =
      FLUSHPIPE (set_reg 15 (ret AND (if TFlag s \<noteq> 0 then 0xfffffffe else 0xfffffffc)) ?u)"
    using p(2,3) a(4) tf by (simp add: WriteSR15_def Let_def ARMul_SetCPSR_def)
  show ?thesis using u a(5) [of b r] by (simp add: w ARMul_GetCPSR_def)
qed

theorem exception_return_witness:
  "Mode (WriteSR15 (ARMul_Abort boot_state ARMul_IRQV) 0x8000) = Mode boot_state
    \<and> ARMul_GetCPSR (WriteSR15 (ARMul_Abort boot_state ARMul_IRQV) 0x8000) = ARMul_GetCPSR boot_state
    \<and> cpu_ok (WriteSR15 (ARMul_Abort boot_state ARMul_IRQV) 0x8000)
    \<and> physreg (WriteSR15 (ARMul_Abort boot_state ARMul_IRQV) 0x8000) IRQBANK 14 =
       (if (14 :: nat) = 15 then 0x8000 AND (if TFlag boot_state \<noteq> 0 then 0xfffffffe else 0xfffffffc)
        else if (14 :: nat) = 14 \<and> IRQBANK = ModeToBank IRQ32MODE
        then Reg boot_state 15 - (if TFlag boot_state \<noteq> 0 then 0 else 4)
        else physreg boot_state IRQBANK 14)"
  by (rule exception_return [where i = IBIT]) (simp_all add: exc_table_def)

end
