(* ===== verification/Arm_Transfer.thy ===== *)
theory Arm_Transfer
  imports Arm_Operand
begin

text \<open>
  Loads and stores of one, two and many registers, \<^verbatim>\<open>arch/arm/common/armemu.c\<close>: the workers
  \<^verbatim>\<open>LoadWord\<close> to \<^verbatim>\<open>StoreSMult\<close> that the instruction switch calls. They are proved inside the
  interface \<open>address_space\<close>, so that they hold for every MMU that implements it, and then read off
  for the ARM926.
\<close>

section \<open>Single transfers\<close>

definition TAKEABORT :: "'io ARMul_State \<Rightarrow> 'io ARMul_State" where
  "TAKEABORT s = ARMul_Abort s ARMul_DataAbortV"

text \<open>
  A worker answers whether the base register may be written back; after an abort that is the
  signal for the late-abort model.
\<close>

type_synonym 'io transfer = "(bool \<times> 'io ARMul_State) sim"

definition transfer_abort :: "'io ARMul_State \<Rightarrow> bool \<times> 'io ARMul_State" where
  "transfer_abort s = (let s = TAKEABORT s in (lateabtSig s \<noteq> 0, s))"

definition LoadWord :: "'io cpu_env \<Rightarrow> 'io ARMul_State \<Rightarrow> ARMword \<Rightarrow> ARMword \<Rightarrow> 'io transfer" where
  "LoadWord env s instr address =
     bind_ok (ARMul_LoadWordN env (BUSUSEDINCPCS s) address) (\<lambda>(dest, s).
       if Aborted s \<noteq> 0 then Inr (transfer_abort s)
       else let dest = (if address AND 3 \<noteq> 0 then ARMul_Align address dest else dest)
            in Inr (DESTReg instr \<noteq> LHSReg instr, ARMul_Icycles (WRITEDESTB instr dest s) 1))"

definition LoadHalfWord ::
  "'io cpu_env \<Rightarrow> 'io ARMul_State \<Rightarrow> ARMword \<Rightarrow> ARMword \<Rightarrow> bool \<Rightarrow> 'io transfer" where
  "LoadHalfWord env s instr address signextend =
     bind_ok (ARMul_LoadHalfWord env (BUSUSEDINCPCS s) address) (\<lambda>(dest, s).
       if Aborted s \<noteq> 0 then Inr (transfer_abort s)
       else let dest = (if signextend \<and> dest AND 0x8000 \<noteq> 0 then (dest AND 0xffff) - 0x10000 else dest)
            in Inr (DESTReg instr \<noteq> LHSReg instr, ARMul_Icycles (WRITEDEST instr dest s) 1))"

definition LoadByte ::
  "'io cpu_env \<Rightarrow> 'io ARMul_State \<Rightarrow> ARMword \<Rightarrow> ARMword \<Rightarrow> bool \<Rightarrow> 'io transfer" where
  "LoadByte env s instr address signextend =
     bind_ok (ARMul_LoadByte env (BUSUSEDINCPCS s) address) (\<lambda>(dest, s).
       if Aborted s \<noteq> 0 then Inr (transfer_abort s)
       else let dest = (if signextend \<and> dest AND 0x80 \<noteq> 0 then (dest AND 0xff) - 0x100 else dest)
            in Inr (DESTReg instr \<noteq> LHSReg instr, ARMul_Icycles (WRITEDEST instr dest s) 1))"

text \<open>What the stores do once the access has returned.\<close>

definition store_done :: "'io ARMul_State \<Rightarrow> 'io transfer" where
  "store_done s = (if Aborted s \<noteq> 0 then Inr (transfer_abort s) else Inr (True, s))"

definition StoreWord :: "'io cpu_env \<Rightarrow> 'io ARMul_State \<Rightarrow> ARMword \<Rightarrow> ARMword \<Rightarrow> 'io transfer" where
  "StoreWord env s instr address =
     (let s = BUSUSEDINCPCN s
      in bind_ok (ARMul_StoreWordN env s address (Reg s (DESTReg instr))) store_done)"

definition StoreHalfWord :: "'io cpu_env \<Rightarrow> 'io ARMul_State \<Rightarrow> ARMword \<Rightarrow> ARMword \<Rightarrow> 'io transfer" where
  "StoreHalfWord env s instr address =
     (let s = BUSUSEDINCPCN s
      in bind_ok (ARMul_StoreHalfWord env s address (Reg s (DESTReg instr))) store_done)"

definition StoreByte :: "'io cpu_env \<Rightarrow> 'io ARMul_State \<Rightarrow> ARMword \<Rightarrow> ARMword \<Rightarrow> 'io transfer" where
  "StoreByte env s instr address =
     (let s = BUSUSEDINCPCN s
      in bind_ok (ARMul_StoreByte env s address (Reg s (DESTReg instr))) store_done)"

section \<open>Doubleword transfers\<close>

text \<open>The addressing of both doubleword transfers: the sum of base and offset, and the address used.\<close>

definition double_offset :: "'io ARMul_State \<Rightarrow> ARMword \<Rightarrow> ARMword" where
  "double_offset s instr =
     (if BIT instr 22 \<noteq> 0 then push_bit 4 (BITS instr 8 11) OR BITS instr 0 3
      else Reg s (RHSReg instr))"

definition double_sum :: "'io ARMul_State \<Rightarrow> ARMword \<Rightarrow> ARMword" where
  "double_sum s instr =
     (let base = Reg s (LHSReg instr)
      in if BIT instr 23 \<noteq> 0 then base + double_offset s instr else base - double_offset s instr)"

definition double_addr :: "'io ARMul_State \<Rightarrow> ARMword \<Rightarrow> ARMword" where
  "double_addr s instr =
     (if BIT instr 24 \<noteq> 0 then double_sum s instr else Reg s (LHSReg instr))"

definition double_writeback :: "ARMword \<Rightarrow> ARMword \<Rightarrow> ARMword \<Rightarrow> 'io ARMul_State \<Rightarrow> 'io ARMul_State" where
  "double_writeback instr addr tot s =
     (if BIT instr 24 = 0 \<or> BIT instr 21 \<noteq> 0
      then set_reg (LHSReg instr) (if BIT instr 24 = 0 then tot else addr) s else s)"

definition Handle_Load_Double ::
  "'io cpu_env \<Rightarrow> 'io ARMul_State \<Rightarrow> ARMword \<Rightarrow> 'io ARMul_State sim" where
  "Handle_Load_Double env s instr =
     (let s = BUSUSEDINCPCS s; undefd = Inr (ARMul_UndefInstr (undf_trap env) s instr);
          tot = double_sum s instr; addr = double_addr s instr;
          addr_reg = LHSReg instr; dest_reg = DESTReg instr
      in if BIT instr 21 \<noteq> 0 \<and> BIT instr 24 = 0 then undefd
         else if odd dest_reg \<or> dest_reg = 14 then undefd
         else if addr AND 7 \<noteq> 0 then undefd
         else if (BIT instr 24 = 0 \<or> BIT instr 21 \<noteq> 0) \<and> (addr_reg = dest_reg \<or> addr_reg = dest_reg + 1)
         then undefd
         else bind_ok (ARMul_LoadWordN env s addr) (\<lambda>(value1, s).
                bind_ok (ARMul_LoadWordN env s (addr + 4)) (\<lambda>(value2, s).
                  if Aborted s \<noteq> 0 then Inr (TAKEABORT s)
                  else let s = ARMul_Icycles s 2;
                           s = set_reg (dest_reg + 1) value2 (set_reg dest_reg value1 s)
                       in Inr (double_writeback instr addr tot s))))"

definition Handle_Store_Double ::
  "'io cpu_env \<Rightarrow> 'io ARMul_State \<Rightarrow> ARMword \<Rightarrow> 'io ARMul_State sim" where
  "Handle_Store_Double env s instr =
     (let s = BUSUSEDINCPCS s; undefd = Inr (ARMul_UndefInstr (undf_trap env) s instr);
          tot = double_sum s instr; addr = double_addr s instr;
          addr_reg = LHSReg instr; src_reg = DESTReg instr
      in if BIT instr 21 \<noteq> 0 \<and> BIT instr 24 = 0 then undefd
         else if addr_reg = 15 then undefd
         else if odd src_reg then undefd
         else if addr AND 7 \<noteq> 0 then undefd
         else if (BIT instr 24 = 0 \<or> BIT instr 21 \<noteq> 0) \<and> (addr_reg = src_reg \<or> addr_reg = src_reg + 1)
         then undefd
         else bind_ok (ARMul_StoreWordN env s addr (Reg s src_reg)) (\<lambda>s.
                bind_ok (ARMul_StoreWordN env s (addr + 4) (Reg s (src_reg + 1))) (\<lambda>s.
                  if Aborted s \<noteq> 0 then Inr (TAKEABORT s)
                  else Inr (double_writeback instr addr tot s))))"

section \<open>Multiple transfers\<close>

text \<open>
  The search for the first register runs past bit 15 when the list is empty: the register number
  is then outside the register file.
\<close>

definition lsm_first :: "ARMword \<Rightarrow> nat option" where
  "lsm_first instr = find (\<lambda>temp. BIT instr temp \<noteq> 0) [0..<32]"

definition first_reg :: "ARMword \<Rightarrow> nat sim" where
  "first_reg instr =
     (case lsm_first instr of None \<Rightarrow> Inl OutOfBounds
      | Some temp \<Rightarrow> if temp < 16 then Inr temp else Inl OutOfBounds)"

text \<open>One loaded register; an access that raised the abort signal only sets \<^verbatim>\<open>Aborted\<close>.\<close>

definition load_into :: "nat \<Rightarrow> ARMword \<Rightarrow> 'io ARMul_State \<Rightarrow> 'io ARMul_State" where
  "load_into temp dest s =
     (if abortSig s = 0 \<and> Aborted s = 0 then set_reg temp dest s
      else if Aborted s = 0 then s\<lparr>Aborted := ARMul_DataAbortV\<rparr> else s)"

fun load_rest ::
  "'io cpu_env \<Rightarrow> ARMword \<Rightarrow> nat list \<Rightarrow> ARMword \<Rightarrow> 'io ARMul_State \<Rightarrow> 'io ARMul_State sim" where
  "load_rest env instr [] address s = Inr s"
| "load_rest env instr (temp # ts) address s =
     (if BIT instr temp \<noteq> 0
      then bind_ok (ARMul_LoadWordS env s (address + 4)) (\<lambda>(dest, s).
             let s = load_into temp dest s
             in if Aborted s \<noteq> 0 then Inr s else load_rest env instr ts (address + 4) s)
      else load_rest env instr ts address s)"

definition write_base :: "ARMword \<Rightarrow> ARMword \<Rightarrow> 'io ARMul_State \<Rightarrow> 'io ARMul_State" where
  "write_base instr WBBase s =
     (if BIT instr 21 \<noteq> 0 \<and> LHSReg instr \<noteq> 15 then set_reg (LHSReg instr) WBBase s else s)"

text \<open>When the first load faults the register number is not used.\<close>

definition LoadMult ::
  "'io cpu_env \<Rightarrow> 'io ARMul_State \<Rightarrow> ARMword \<Rightarrow> ARMword \<Rightarrow> ARMword \<Rightarrow> 'io ARMul_State sim" where
  "LoadMult env s instr address WBBase =
     bind_ok (ARMul_LoadWordN env (BUSUSEDINCPCS s) address) (\<lambda>(dest, s).
       bind_ok (if abortSig s = 0 \<and> Aborted s = 0
                then bind_ok (first_reg instr) (\<lambda>temp.
                       load_rest env instr [temp + 1..<16] address (set_reg temp dest s))
                else Inr (load_into 0 dest s)) (\<lambda>s.
         let s = (if BIT instr 15 \<noteq> 0 \<and> Aborted s = 0 then WriteR15Branch s (Reg s 15 AND PCBITS32) else s);
             s = ARMul_Icycles s 1
         in Inr (if Aborted s \<noteq> 0 then TAKEABORT s else write_base instr WBBase s)))"

definition late_write_base :: "ARMword \<Rightarrow> ARMword \<Rightarrow> 'io ARMul_State \<Rightarrow> 'io ARMul_State" where
  "late_write_base instr WBBase s =
     (if abortSig s \<noteq> 0 \<and> Aborted s \<noteq> 0 \<and> lateabtSig s = LOW then s else write_base instr WBBase s)"

text \<open>
  The user-bank form. Its first load tests the abort signal only, and it takes a data abort, which
  switches the mode, before it restores the bank.
\<close>

definition LoadSMult ::
  "'io cpu_env \<Rightarrow> 'io ARMul_State \<Rightarrow> ARMword \<Rightarrow> ARMword \<Rightarrow> ARMword \<Rightarrow> 'io ARMul_State sim" where
  "LoadSMult env s instr address WBBase =
     (let s = BUSUSEDINCPCS s;
          s = (if BIT instr 15 = 0 \<and> Bank s \<noteq> USERBANK then ARMul_SwitchMode s (Mode s) USER26MODE else s)
      in bind_ok (ARMul_LoadWordN env s address) (\<lambda>(dest, s).
           bind_ok (if abortSig s = 0
                    then bind_ok (first_reg instr) (\<lambda>temp.
                           let s = set_reg temp dest s
                           in if Aborted s \<noteq> 0 then Inr s
                              else load_rest env instr [temp + 1..<16] address s)
                    else Inr (if Aborted s = 0 then s\<lparr>Aborted := ARMul_DataAbortV\<rparr> else s)) (\<lambda>s.
             let s = (if Aborted s \<noteq> 0 then TAKEABORT (late_write_base instr WBBase s)
                      else write_base instr WBBase s);
                 s = (if BIT instr 15 \<noteq> 0 \<and> Aborted s = 0
                      then let s = (if Mode s \<noteq> USER26MODE \<and> Mode s \<noteq> USER32MODE
                                    then ARMul_CPSRAltered (s\<lparr>Cpsr := ARMul_GetSPSR s (Mode s)\<rparr>) else s)
                           in WriteR15 s (Reg s 15 AND PCBITS32)
                      else s);
                 s = (if BIT instr 15 = 0 \<and> Mode s \<noteq> USER26MODE \<and> Mode s \<noteq> USER32MODE
                      then ARMul_SwitchMode s USER26MODE (Mode s) else s)
             in Inr (ARMul_Icycles s 1))))"

definition note_abort :: "'io ARMul_State \<Rightarrow> 'io ARMul_State" where
  "note_abort s = (if abortSig s \<noteq> 0 \<and> Aborted s = 0 then s\<lparr>Aborted := ARMul_DataAbortV\<rparr> else s)"

fun store_rest ::
  "'io cpu_env \<Rightarrow> ARMword \<Rightarrow> nat list \<Rightarrow> ARMword \<Rightarrow> 'io ARMul_State \<Rightarrow> 'io ARMul_State sim" where
  "store_rest env instr [] address s = Inr s"
| "store_rest env instr (temp # ts) address s =
     (if BIT instr temp \<noteq> 0
      then bind_ok (ARMul_StoreWordS env s (address + 4) (Reg s temp)) (\<lambda>s.
             let s = note_abort s
             in if Aborted s \<noteq> 0 then Inr s else store_rest env instr ts (address + 4) s)
      else store_rest env instr ts address s)"

definition store_regs ::
  "'io cpu_env \<Rightarrow> ARMword \<Rightarrow> ARMword \<Rightarrow> 'io ARMul_State \<Rightarrow> 'io ARMul_State sim" where
  "store_regs env instr address s =
     bind_ok (first_reg instr) (\<lambda>temp.
       bind_ok (ARMul_StoreWordN env s address (Reg s temp)) (\<lambda>s.
         let s = note_abort s
         in if Aborted s \<noteq> 0 then Inr s else store_rest env instr [temp + 1..<16] address s))"

definition stm_end :: "ARMword \<Rightarrow> ARMword \<Rightarrow> 'io ARMul_State \<Rightarrow> 'io ARMul_State" where
  "stm_end instr WBBase s =
     (let s = late_write_base instr WBBase s in if Aborted s \<noteq> 0 then TAKEABORT s else s)"

definition StoreMult ::
  "'io cpu_env \<Rightarrow> 'io ARMul_State \<Rightarrow> ARMword \<Rightarrow> ARMword \<Rightarrow> ARMword \<Rightarrow> 'io ARMul_State sim" where
  "StoreMult env s instr address WBBase =
     (let s = (if TFlag s = 0 then BUSUSEDINCPCN s else s)
      in bind_ok (store_regs env instr address s) (\<lambda>s. Inr (stm_end instr WBBase s)))"

text \<open>The user-bank form leaves the bank switched when a store aborts.\<close>

definition StoreSMult ::
  "'io cpu_env \<Rightarrow> 'io ARMul_State \<Rightarrow> ARMword \<Rightarrow> ARMword \<Rightarrow> ARMword \<Rightarrow> 'io ARMul_State sim" where
  "StoreSMult env s instr address WBBase =
     (let s = BUSUSEDINCPCN s;
          s = (if Bank s \<noteq> USERBANK then ARMul_SwitchMode s (Mode s) USER26MODE else s)
      in bind_ok (store_regs env instr address s) (\<lambda>s.
           let s = (if Aborted s = 0 \<and> Mode s \<noteq> USER26MODE \<and> Mode s \<noteq> USER32MODE
                    then ARMul_SwitchMode s USER26MODE (Mode s) else s)
           in Inr (stm_end instr WBBase s)))"

section \<open>What a list of registers transfers\<close>

definition lsm_regs :: "ARMword \<Rightarrow> nat list" where
  "lsm_regs instr = filter (bit instr) [0..<16]"

text \<open>A register file or a memory with the values of a list of places replaced.\<close>

definition overlay :: "('k \<Rightarrow> 'v) \<Rightarrow> 'k list \<Rightarrow> 'v list \<Rightarrow> 'k \<Rightarrow> 'v" where
  "overlay f ks vs k = (case map_of (zip ks vs) k of Some v \<Rightarrow> v | None \<Rightarrow> f k)"

lemma overlay_Nil [simp]: "overlay f [] vs = f"
  by (simp add: overlay_def fun_eq_iff)

lemma overlay_Cons:
  "k \<notin> set ks \<Longrightarrow> overlay (f(k := v)) ks vs = overlay f (k # ks) (v # vs)"
  by (auto simp: overlay_def fun_eq_iff split: option.splits dest!: map_of_SomeD set_zip_leftD)

lemma overlay_map: "overlay f ks (map g ks) = (\<lambda>k. if k \<in> set ks then g k else f k)"
  by (simp add: overlay_def fun_eq_iff map_of_zip_map)

lemma lsm_first_regs:
  assumes "lsm_regs instr = r # rs"
  shows "first_reg instr = Inr r" "filter (bit instr) [r + 1..<16] = rs" "r < 16" "r \<notin> set rs" "distinct rs"
proof -
  have up: "[0..<16] = [0..<r] @ r # [Suc r..<16]" if "r < 16"
    using that by (metis upt_add_eq_append upt_conv_Cons le_add_diff_inverse less_imp_le_nat zero_le)
  have "r \<in> set (lsm_regs instr)" using assms by simp
  then show r: "r < 16" by (auto simp: lsm_regs_def)
  have "sorted_wrt (<) (lsm_regs instr)" by (simp add: lsm_regs_def sorted_wrt_filter)
  then have srt: "\<forall>x\<in>set rs. r < x" using assms by simp
  moreover have "distinct (lsm_regs instr)" by (simp add: lsm_regs_def)
  ultimately show "r \<notin> set rs" "distinct rs" using assms by auto
  have mem: "set (r # rs) = {x. x < 16 \<and> bit instr x}" using assms
    by (metis (no_types, lifting) lsm_regs_def set_filter set_upt atLeastLessThan_iff mem_Collect_eq Collect_cong zero_le)
  have lt: "\<not> bit instr x" if "x < r" for x
    using mem srt that r by (metis (mono_tags, lifting) Collect_cong list.set_intros(1) mem_Collect_eq not_less_iff_gr_or_eq order.strict_trans set_ConsD)
  have fr: "filter (bit instr) [0..<r] = []" using lt by (simp add: filter_empty_conv)
  have br: "bit instr r" using mem by auto
  have "r # rs = filter (bit instr) ([0..<r] @ r # [Suc r..<16])" using assms up [OF r] by (simp add: lsm_regs_def)
  then show "filter (bit instr) [r + 1..<16] = rs" using fr br by simp
  have "find (\<lambda>temp. BIT instr temp \<noteq> 0) [0..<32] = Some r"
    unfolding find_Some_iff using lt br r by (intro exI [of _ r]) simp
  then show "first_reg instr = Inr r" using r by (simp add: first_reg_def lsm_first_def)
qed

section \<open>Transfers of granted words\<close>

text \<open>What a transfer may change beside the registers it is to change.\<close>

definition mem_frame :: "'io ARMul_State \<Rightarrow> 'io ARMul_State \<Rightarrow> bool" where
  "mem_frame s t \<longleftrightarrow> (\<exists>m k a n c. t = s\<lparr>mmu := m, mem := k, abortSig := a, NumNcycles := n, NumScycles := c\<rparr>)"

lemma mem_frameD:
  assumes "mem_frame s t"
  shows "Reg t = Reg s" "Aborted t = Aborted s" "Mode t = Mode s" "Bank t = Bank s" "TFlag t = TFlag s"
    "lateabtSig t = lateabtSig s" "RegBank t = RegBank s" "NextInstr t = NextInstr s" "CPSR t = CPSR s"
  using assms by (auto simp: mem_frame_def CPSR_defs)

lemma mem_frame_trans: "mem_frame s t \<Longrightarrow> mem_frame t u \<Longrightarrow> mem_frame s u"
  unfolding mem_frame_def by (elim exE) (intro exI, simp)

lemma mem_frame_Reg: "mem_frame (s\<lparr>Reg := f\<rparr>) t \<Longrightarrow> mem_frame s (t\<lparr>Reg := Reg s\<rparr>)"
  unfolding mem_frame_def by (elim exE) (intro exI, simp)

context address_space
begin

definition same_view :: "'io ARMul_State \<Rightarrow> 'io ARMul_State \<Rightarrow> bool" where
  "same_view s t \<longleftrightarrow> ok t \<and> rw t = rw s \<and> loc t = loc s"

lemma same_view_trans: "same_view s t \<Longrightarrow> same_view t u \<Longrightarrow> same_view s u"
  by (simp add: same_view_def)

lemma frame_1: "mem_frame s (s\<lparr>NumNcycles := n\<rparr>)" "mem_frame s (s\<lparr>NumScycles := n\<rparr>)"
  unfolding mem_frame_def
  by (rule exI [of _ "mmu s"], rule exI [of _ "mem s"], rule exI [of _ "abortSig s"],
      rule exI [of _ n], rule exI [of _ "NumScycles s"], simp)
     (rule exI [of _ "mmu s"], rule exI [of _ "mem s"], rule exI [of _ "abortSig s"],
      rule exI [of _ "NumNcycles s"], rule exI [of _ n], simp)

lemma load_frame:
  assumes "t = s\<lparr>mmu := mmu t, mem := mem t, abortSig := LOW\<rparr>"
  shows "mem_frame s t" "abortSig t = LOW"
proof -
  obtain m k where t: "t = s\<lparr>mmu := m, mem := k, abortSig := LOW\<rparr>" using assms by blast
  show "mem_frame s t" unfolding mem_frame_def t
    by (rule exI [of _ m], rule exI [of _ k], rule exI [of _ LOW],
      rule exI [of _ "NumNcycles s"], rule exI [of _ "NumScycles s"]) simp
  show "abortSig t = LOW" by (simp add: t)
qed

lemma LoadWord_granted:
  assumes "ok s" "rw s a" and ld: "ld = ARMul_LoadWordN env \<or> ld = ARMul_LoadWordS env"
  obtains t where "ld s a = Inr (word_at s a, t)" "mem_frame s t" "abortSig t = LOW"
    "same_view s t" "word_at t = word_at s"
proof -
  note fin = that
  have *: thesis if s': "s' = s\<lparr>NumNcycles := n\<rparr> \<or> s' = s\<lparr>NumScycles := n\<rparr>" "ld s a = ARMul_ReadWord env s' a" for s' n
  proof -
    have v: "ok s'" "rw s' = rw s" "loc s' = loc s" "word_at s' = word_at s" "mem_frame s s'"
      using s'(1) assms(1) frame_1 by (auto simp: cycle_cong)
    then have "rw s' a" using assms(2) by simp
    from ReadWord_ok [OF v(1) this] obtain t where t: "ARMul_ReadWord env s' a = Inr (word_at s' a, t)"
      "t = s'\<lparr>mmu := mmu t, mem := mem t, abortSig := LOW\<rparr>" "ok t" "rw t = rw s'" "loc t = loc s'"
      "word_at t = word_at s'" by blast
    show thesis
      using fin [of t] t(1,3-6) v(2-4) s'(2) mem_frame_trans [OF v(5) load_frame(1) [OF t(2)]] load_frame(2) [OF t(2)]
      by (simp add: same_view_def)
  qed
  show thesis using ld
  proof
    assume "ld = ARMul_LoadWordN env" then show thesis
      using * [of "s\<lparr>NumNcycles := NumNcycles s + 1\<rparr>" "NumNcycles s + 1"] by (simp add: ARMul_LoadWordN_def)
  next
    assume "ld = ARMul_LoadWordS env" then show thesis
      using * [of "s\<lparr>NumScycles := NumScycles s + 1\<rparr>" "NumScycles s + 1"] by (simp add: ARMul_LoadWordS_def)
  qed
qed

lemma StoreWord_granted:
  assumes "ok s" "rw s a" and st: "st = ARMul_StoreWordN env \<or> st = ARMul_StoreWordS env"
  obtains t where "st s a d = Inr t" "mem_frame s t" "abortSig t = LOW" "same_view s t"
    "\<And>b. rw s b \<Longrightarrow> word_at t b = (if loc s b = loc s a then d else word_at s b)"
proof -
  note fin = that
  have *: thesis if s': "s' = s\<lparr>NumNcycles := n\<rparr> \<or> s' = s\<lparr>NumScycles := n\<rparr>" "st s a d = ARMul_WriteWord env s' a d" for s' n
  proof -
    have v: "ok s'" "rw s' = rw s" "loc s' = loc s" "word_at s' = word_at s" "mem_frame s s'"
      using s'(1) assms(1) frame_1 by (auto simp: cycle_cong)
    then have "rw s' a" using assms(2) by simp
    from WriteWord_ok [OF v(1) this, of d] obtain t where t: "ARMul_WriteWord env s' a d = Inr t"
      "t = s'\<lparr>mmu := mmu t, mem := mem t, abortSig := LOW\<rparr>" "ok t" "rw t = rw s'" "loc t = loc s'"
      "\<forall>b. rw s' b \<longrightarrow> word_at t b = (if loc s' b = loc s' a then d else word_at s' b)" by blast
    show thesis
      using fin [of t] t(1,3-6) v(2-4) s'(2) mem_frame_trans [OF v(5) load_frame(1) [OF t(2)]] load_frame(2) [OF t(2)]
      by (simp add: same_view_def)
  qed
  show thesis using st
  proof
    assume "st = ARMul_StoreWordN env" then show thesis
      using * [of "s\<lparr>NumNcycles := NumNcycles s + 1\<rparr>" "NumNcycles s + 1"] by (simp add: ARMul_StoreWordN_def)
  next
    assume "st = ARMul_StoreWordS env" then show thesis
      using * [of "s\<lparr>NumScycles := NumScycles s + 1\<rparr>" "NumScycles s + 1"] by (simp add: ARMul_StoreWordS_def)
  qed
qed

lemma store_rest_granted:
  assumes "ok s" "Aborted s = 0" "rs = filter (bit instr) ts"
    "\<forall>a\<in>set (word_addrs (address + 4) (length rs)). rw s a"
    "distinct (map (loc s) (word_addrs (address + 4) (length rs)))"
  shows "\<exists>t. store_rest env instr ts address s = Inr t \<and> mem_frame s t \<and> same_view s t
    \<and> (\<forall>b. rw s b \<longrightarrow> word_at t b =
         (case map_of (zip (map (loc s) (word_addrs (address + 4) (length rs))) (map (Reg s) rs)) (loc s b)
          of Some v \<Rightarrow> v | None \<Rightarrow> word_at s b))"
  using assms
proof (induction ts arbitrary: s address rs)
  case Nil
  have "mem_frame s s" using frame_1(1) [of s "NumNcycles s"] by simp
  then show ?case using Nil by (simp add: same_view_def word_addrs_def)
next
  case (Cons r ts)
  show ?case
  proof (cases "bit instr r")
    case False
    then show ?thesis using Cons.IH [OF Cons.prems(1,2), of rs address] Cons.prems(3-5) by simp
  next
    case True
    define qs where "qs = filter (bit instr) ts"
    have rs: "rs = r # qs" using Cons.prems(3) True by (simp add: qs_def)
    have a: "rw s (address + 4)" "\<forall>a\<in>set (word_addrs (address + 4 + 4) (length qs)). rw s a"
      "loc s (address + 4) \<notin> set (map (loc s) (word_addrs (address + 4 + 4) (length qs)))"
      "distinct (map (loc s) (word_addrs (address + 4 + 4) (length qs)))"
      using Cons.prems(4,5) by (simp_all add: rs word_addrs_Suc)
    obtain u where u: "ARMul_StoreWordS env s (address + 4) (Reg s r) = Inr u" "mem_frame s u" "abortSig u = LOW"
      "same_view s u" and uw: "\<And>b. rw s b \<Longrightarrow> word_at u b = (if loc s b = loc s (address + 4) then Reg s r else word_at s b)"
      using StoreWord_granted [OF Cons.prems(1) a(1), of "ARMul_StoreWordS env" "Reg s r"] by blast
    note f = mem_frameD [OF u(2)]
    have v: "ok u" "rw u = rw s" "loc u = loc s" using u(4) by (simp_all add: same_view_def)
    have na: "note_abort u = u" using u(3) by (simp add: note_abort_def)
    from Cons.IH [OF v(1), of qs "address + 4"] a Cons.prems(2) f(1,2) v(2,3) qs_def
    obtain t where t: "store_rest env instr ts (address + 4) u = Inr t" "mem_frame u t" "same_view u t"
      "\<And>b. rw s b \<Longrightarrow> word_at t b =
         (case map_of (zip (map (loc s) (word_addrs (address + 4 + 4) (length qs))) (map (Reg s) qs)) (loc s b)
          of Some v \<Rightarrow> v | None \<Rightarrow> word_at u b)" by auto
    have "store_rest env instr (r # ts) address s = Inr t"
      using True u(1) na t(1) f(2) Cons.prems(2) by simp
    moreover have "word_at t b = (case map_of (zip (map (loc s) (word_addrs (address + 4) (length rs))) (map (Reg s) rs)) (loc s b)
          of Some v \<Rightarrow> v | None \<Rightarrow> word_at s b)" if "rw s b" for b
      using t(4) [OF that] uw [OF that] a(3)
      by (auto simp: rs word_addrs_Suc split: option.splits dest!: map_of_SomeD set_zip_leftD)
    ultimately show ?thesis using mem_frame_trans [OF u(2) t(2)] same_view_trans [OF u(4) t(3)] by blast
  qed
qed

lemma load_rest_granted:
  assumes "ok s" "Aborted s = 0" "rs = filter (bit instr) ts" "distinct ts"
    "\<forall>a\<in>set (word_addrs (address + 4) (length rs)). rw s a"
  shows "\<exists>t. load_rest env instr ts address s = Inr t \<and> mem_frame s (t\<lparr>Reg := Reg s\<rparr>) \<and> same_view s t
    \<and> word_at t = word_at s
    \<and> Reg t = overlay (Reg s) rs (map (word_at s) (word_addrs (address + 4) (length rs)))"
  using assms
proof (induction ts arbitrary: s address rs)
  case Nil
  have "mem_frame s s" using frame_1(1) [of s "NumNcycles s"] by simp
  then show ?case using Nil by (simp add: same_view_def)
next
  case (Cons r ts)
  show ?case
  proof (cases "bit instr r")
    case False
    then show ?thesis using Cons.IH [OF Cons.prems(1,2), of rs address] Cons.prems(3-5) by simp
  next
    case True
    define qs where "qs = filter (bit instr) ts"
    have rs: "rs = r # qs" "r \<notin> set qs" using Cons.prems(3,4) True by (auto simp: qs_def)
    have a: "rw s (address + 4)" "\<forall>a\<in>set (word_addrs (address + 4 + 4) (length qs)). rw s a"
      using Cons.prems(5) by (simp_all add: rs word_addrs_Suc)
    obtain u where u: "ARMul_LoadWordS env s (address + 4) = Inr (word_at s (address + 4), u)" "mem_frame s u" "abortSig u = LOW"
      "same_view s u" "word_at u = word_at s"
      using LoadWord_granted [OF Cons.prems(1) a(1), of "ARMul_LoadWordS env"] by blast
    note f = mem_frameD [OF u(2)]
    define v where "v = set_reg r (word_at s (address + 4)) u"
    have cg: "ok v" "rw v = rw s" "loc v = loc s" "word_at v = word_at s"
      using u(4,5) by (simp_all add: v_def set_reg_def same_view_def cycle_cong)
    have li: "load_into r (word_at s (address + 4)) u = v" using u(3) f(2) Cons.prems(2) by (simp add: load_into_def v_def)
    have vr: "Reg v = (Reg s)(r := word_at s (address + 4))" "Aborted v = 0"
      using f(1,2) Cons.prems(2) by (simp_all add: v_def set_reg_def)
    from Cons.IH [OF cg(1) vr(2), of qs "address + 4"] a cg(2-4) qs_def Cons.prems(4)
    obtain t where t: "load_rest env instr ts (address + 4) v = Inr t" "mem_frame v (t\<lparr>Reg := Reg v\<rparr>)" "same_view v t"
      "word_at t = word_at s"
      "Reg t = overlay (Reg v) qs (map (word_at s) (word_addrs (address + 4 + 4) (length qs)))" by auto
    have "load_rest env instr (r # ts) address s = Inr t"
      using True u(1) li t(1) vr(2) by simp
    moreover have "mem_frame s (t\<lparr>Reg := Reg s\<rparr>)"
    proof -
      have "mem_frame u (t\<lparr>Reg := Reg u\<rparr>)"
        using mem_frame_Reg [where s = u and f = "(Reg u)(r := word_at s (address + 4))" and t = "t\<lparr>Reg := Reg v\<rparr>"] t(2) by (simp add: v_def set_reg_def)
      then show ?thesis using mem_frame_trans [OF u(2)] f(1) by simp
    qed
    moreover have "Reg t = overlay (Reg s) rs (map (word_at s) (word_addrs (address + 4) (length rs)))"
      using t(5) overlay_Cons [OF rs(2), of "Reg s"] by (simp add: rs(1) word_addrs_Suc vr(1))
    ultimately show ?thesis using t(3,4) cg by (auto simp: same_view_def)
  qed
qed

text \<open>The words that a multiple store leaves behind, by their place.\<close>

definition stored :: "'io ARMul_State \<Rightarrow> ARMword \<Rightarrow> ARMword list \<Rightarrow> 'io ARMul_State \<Rightarrow> bool" where
  "stored s address vs t \<longleftrightarrow> (\<forall>b. rw s b \<longrightarrow> word_at t b =
     (case map_of (zip (map (loc s) (word_addrs address (length vs))) vs) (loc s b)
      of Some v \<Rightarrow> v | None \<Rightarrow> word_at s b))"

lemma store_regs_granted:
  assumes "ok s" "Aborted s = 0" "lsm_regs instr = r # rs"
    "\<forall>a\<in>set (word_addrs address (length (r # rs))). rw s a"
    "distinct (map (loc s) (word_addrs address (length (r # rs))))"
  shows "\<exists>t. store_regs env instr address s = Inr t \<and> mem_frame s t \<and> same_view s t
    \<and> stored s address (map (Reg s) (lsm_regs instr)) t"
proof -
  note l = lsm_first_regs [OF assms(3)]
  have a: "rw s address" "\<forall>a\<in>set (word_addrs (address + 4) (length rs)). rw s a"
    "loc s address \<notin> set (map (loc s) (word_addrs (address + 4) (length rs)))"
    "distinct (map (loc s) (word_addrs (address + 4) (length rs)))"
    using assms(4,5) by (simp_all add: word_addrs_Suc)
  obtain u where u: "ARMul_StoreWordN env s address (Reg s r) = Inr u" "mem_frame s u" "abortSig u = LOW"
    "same_view s u" and uw: "\<And>b. rw s b \<Longrightarrow> word_at u b = (if loc s b = loc s address then Reg s r else word_at s b)"
    using StoreWord_granted [OF assms(1) a(1), of "ARMul_StoreWordN env" "Reg s r"] by blast
  note f = mem_frameD [OF u(2)]
  have v: "ok u" "rw u = rw s" "loc u = loc s" using u(4) by (simp_all add: same_view_def)
  have na: "note_abort u = u" using u(3) by (simp add: note_abort_def)
  from store_rest_granted [OF v(1) _ l(2) [symmetric], of address] a assms(2) f(1,2) v(2,3)
  obtain t where t: "store_rest env instr [r + 1..<16] address u = Inr t" "mem_frame u t" "same_view u t"
    "\<And>b. rw s b \<Longrightarrow> word_at t b =
       (case map_of (zip (map (loc s) (word_addrs (address + 4) (length rs))) (map (Reg s) rs)) (loc s b)
        of Some v \<Rightarrow> v | None \<Rightarrow> word_at u b)" by auto
  have "store_regs env instr address s = Inr t"
    using u(1) na t(1) f(2) assms(2) by (simp add: store_regs_def l(1))
  moreover have "stored s address (map (Reg s) (lsm_regs instr)) t"
    unfolding stored_def
  proof (intro allI impI)
    fix b assume "rw s b"
    then show "word_at t b = (case map_of (zip (map (loc s) (word_addrs address (length (map (Reg s) (lsm_regs instr)))))
        (map (Reg s) (lsm_regs instr))) (loc s b) of Some v \<Rightarrow> v | None \<Rightarrow> word_at s b)"
      using t(4) uw a(3)
      by (auto simp: assms(3) word_addrs_Suc split: option.splits dest!: map_of_SomeD set_zip_leftD)
  qed
  ultimately show ?thesis using mem_frame_trans [OF u(2) t(2)] same_view_trans [OF u(4) t(3)] by blast
qed

end

text \<open>A step of the pipeline on version 4 and later touches only \<^verbatim>\<open>NextInstr\<close>.\<close>

lemma bus_v4:
  assumes "is_v4 s \<noteq> 0"
  shows "BUSUSEDINCPCS s = s" "BUSUSEDINCPCN s = s\<lparr>NextInstr := NextInstr s OR 1\<rparr>"
  using assms by (simp_all add: BUSUSEDINCPCS_def BUSUSEDINCPCN_def BUSUSEDN_def)

definition written_base :: "ARMword \<Rightarrow> ARMword \<Rightarrow> (nat \<Rightarrow> ARMword) \<Rightarrow> nat \<Rightarrow> ARMword" where
  "written_base instr WBBase f =
     (if bit instr 21 \<and> LHSReg instr \<noteq> 15 then f(LHSReg instr := WBBase) else f)"

lemma write_base_Reg: "write_base instr wb s = s\<lparr>Reg := written_base instr wb (Reg s)\<rparr>"
  by (simp add: write_base_def written_base_def set_reg_def)

lemma CPSR_frame [simp]:
  "CPSR (s\<lparr>Reg := f\<rparr>) = CPSR s" "CPSR (ARMul_Icycles s n) = CPSR s" "CPSR (s\<lparr>NextInstr := n\<rparr>) = CPSR s"
  by (simp_all add: CPSR_defs ARMul_Icycles_def)

text \<open>What stays of the processor beside its registers.\<close>

definition ctl_frame :: "'io ARMul_State \<Rightarrow> 'io ARMul_State \<Rightarrow> bool" where
  "ctl_frame s t \<longleftrightarrow> Mode t = Mode s \<and> Bank t = Bank s \<and> CPSR t = CPSR s \<and> TFlag t = TFlag s
     \<and> RegBank t = RegBank s \<and> Aborted t = Aborted s"

context address_space
begin

lemma StoreMult_granted:
  assumes "ok s" "Aborted s = 0" "is_v4 s \<noteq> 0" "lsm_regs instr \<noteq> []"
    "\<forall>a\<in>set (word_addrs address (length (lsm_regs instr))). rw s a"
    "distinct (map (loc s) (word_addrs address (length (lsm_regs instr))))"
  shows "\<exists>t. StoreMult env s instr address wb = Inr t \<and> ctl_frame s t \<and> same_view s t
    \<and> Reg t = written_base instr wb (Reg s) \<and> stored s address (map (Reg s) (lsm_regs instr)) t"
proof -
  obtain r rs where rs: "lsm_regs instr = r # rs" using assms(4) by (cases "lsm_regs instr") auto
  define u where "u = (if TFlag s = 0 then s\<lparr>NextInstr := NextInstr s OR 1\<rparr> else s)"
  have "same_sys s u" by (simp add: u_def same_sys_def)
  then have c: "ok u" "rw u = rw s" "loc u = loc s" "word_at u = word_at s" using sys_cong assms(1) by blast+
  have f: "Reg u = Reg s" "Aborted u = 0" "ctl_frame s u" using assms(2) by (simp_all add: u_def ctl_frame_def)
  from store_regs_granted [OF c(1) f(2) rs, of address] assms(5,6) c f(1)
  obtain t where t: "store_regs env instr address u = Inr t" "mem_frame u t" "same_view u t"
    "stored u address (map (Reg u) (lsm_regs instr)) t" by (auto simp: rs)
  note g = mem_frameD [OF t(2)]
  let ?t = "t\<lparr>Reg := written_base instr wb (Reg t)\<rparr>"
  have "StoreMult env s instr address wb = bind_ok (store_regs env instr address u) (\<lambda>s. Inr (stm_end instr wb s))"
    by (simp add: StoreMult_def bus_v4 [OF assms(3)] u_def Let_def)
  moreover have "stm_end instr wb t = ?t"
    using f(2) g(2) by (simp add: stm_end_def late_write_base_def write_base_Reg Let_def)
  ultimately have "StoreMult env s instr address wb = Inr ?t" using t(1) by simp
  moreover have "ctl_frame s ?t" using f(3) g by (simp add: ctl_frame_def)
  moreover have "same_view s ?t" using t(3) c by (simp add: same_view_def cycle_cong)
  moreover have "stored s address (map (Reg s) (lsm_regs instr)) ?t" using t(4) unfolding stored_def c f(1) cycle_cong .
  ultimately show ?thesis using g(1) f(1) by auto
qed

lemma LoadMult_granted:
  assumes "ok s" "Aborted s = 0" "is_v4 s \<noteq> 0" "lsm_regs instr \<noteq> []" "\<not> bit instr 15"
    "\<forall>a\<in>set (word_addrs address (length (lsm_regs instr))). rw s a"
  shows "\<exists>t. LoadMult env s instr address wb = Inr t \<and> ctl_frame s t \<and> same_view s t \<and> word_at t = word_at s
    \<and> Reg t = written_base instr wb (overlay (Reg s) (lsm_regs instr)
               (map (word_at s) (word_addrs address (length (lsm_regs instr)))))"
proof -
  obtain r rs where rs: "lsm_regs instr = r # rs" using assms(4) by (cases "lsm_regs instr") auto
  note l = lsm_first_regs [OF rs]
  have a: "rw s address" "\<forall>a\<in>set (word_addrs (address + 4) (length rs)). rw s a"
    using assms(6) by (simp_all add: rs word_addrs_Suc)
  obtain u where u: "ARMul_LoadWordN env s address = Inr (word_at s address, u)" "mem_frame s u" "abortSig u = LOW"
    "same_view s u" "word_at u = word_at s"
    using LoadWord_granted [OF assms(1) a(1), of "ARMul_LoadWordN env"] by blast
  note f = mem_frameD [OF u(2)]
  define v where "v = set_reg r (word_at s address) u"
  have cg: "ok v" "rw v = rw s" "loc v = loc s" "word_at v = word_at s"
    using u(4,5) by (simp_all add: v_def set_reg_def same_view_def cycle_cong)
  have vr: "Reg v = (Reg s)(r := word_at s address)" "Aborted v = 0" "ctl_frame s v"
    using f assms(2) by (simp_all add: v_def set_reg_def ctl_frame_def)
  from load_rest_granted [OF cg(1) vr(2) l(2) [symmetric], of address] a cg(2-4)
  obtain t where t: "load_rest env instr [r + 1..<16] address v = Inr t" "mem_frame v (t\<lparr>Reg := Reg v\<rparr>)" "same_view v t"
    "word_at t = word_at s"
    "Reg t = overlay (Reg v) rs (map (word_at s) (word_addrs (address + 4) (length rs)))" by auto
  note g = mem_frameD [OF t(2), simplified]
  let ?t = "(ARMul_Icycles t 1)\<lparr>Reg := written_base instr wb (Reg t)\<rparr>"
  have ss: "same_sys t ?t" by (simp add: same_sys_def ARMul_Icycles_def)
  have "LoadMult env s instr address wb = Inr ?t"
    using u(1,3) f(2) assms(2,5) t(1) g vr(2)
    by (simp add: LoadMult_def bus_v4 [OF assms(3)] l(1) v_def [symmetric] write_base_Reg ARMul_Icycles_def Let_def)
  moreover have "ctl_frame s ?t" using vr(3) g by (simp add: ctl_frame_def) (simp add: ARMul_Icycles_def)
  moreover have "same_view s ?t" "word_at ?t = word_at s" using sys_cong [OF ss] t(3,4) cg by (simp_all add: same_view_def)
  moreover have "Reg t = overlay (Reg s) (lsm_regs instr) (map (word_at s) (word_addrs address (length (lsm_regs instr))))"
    using t(5) overlay_Cons [OF l(4), of "Reg s"] by (simp add: rs word_addrs_Suc vr(1))
  ultimately show ?thesis by auto
qed

text \<open>
  A multiple store followed by a multiple load of the same list at the same address, whatever the
  registers held in between.
\<close>

lemma block_transfer_roundtrip:
  assumes st: "ok s" "Aborted s = 0" "is_v4 s \<noteq> 0" "lsm_regs instr \<noteq> []"
    "\<forall>a\<in>set (word_addrs address (length (lsm_regs instr))). rw s a"
    "distinct (map (loc s) (word_addrs address (length (lsm_regs instr))))"
    and ld: "lsm_regs instr' = lsm_regs instr" "\<not> bit instr' 15"
  shows "\<exists>t. StoreMult env s instr address wb = Inr t \<and> Reg t = written_base instr wb (Reg s)
    \<and> (\<forall>u. same_sys t u \<and> Aborted u = 0 \<and> is_v4 u \<noteq> 0 \<longrightarrow>
        (\<exists>v. LoadMult env u instr' address wb' = Inr v \<and> ctl_frame u v
          \<and> Reg v = written_base instr' wb' (\<lambda>r. if r \<in> set (lsm_regs instr) then Reg s r else Reg u r)))"
proof -
  let ?rs = "lsm_regs instr" let ?as = "word_addrs address (length (lsm_regs instr))"
  obtain t where t: "StoreMult env s instr address wb = Inr t" "same_view s t" "Reg t = written_base instr wb (Reg s)"
    "stored s address (map (Reg s) ?rs) t" using StoreMult_granted [OF st] by blast
  have "\<exists>v. LoadMult env u instr' address wb' = Inr v \<and> ctl_frame u v
          \<and> Reg v = written_base instr' wb' (\<lambda>r. if r \<in> set ?rs then Reg s r else Reg u r)"
    if u: "same_sys t u" "Aborted u = 0" "is_v4 u \<noteq> 0" for u
  proof -
    have c: "ok u" "rw u = rw s" "word_at u = word_at t" using sys_cong [OF u(1)] t(2) by (auto simp: same_view_def)
    have len: "length ?as = length ?rs" by (simp add: word_addrs_def)
    have val: "map (word_at u) ?as = map (Reg s) ?rs"
    proof (rule nth_equalityI)
      fix i assume "i < length (map (word_at u) ?as)"
      then have i: "i < length ?as" by simp
      then have "rw s (?as ! i)" using st(5) by simp
      moreover have "map_of (zip (map (loc s) ?as) (map (Reg s) ?rs)) (map (loc s) ?as ! i) = Some (map (Reg s) ?rs ! i)"
        using st(6) i len by (intro map_of_zip_nth) simp_all
      ultimately show "map (word_at u) ?as ! i = map (Reg s) ?rs ! i"
        using t(4) i by (simp add: stored_def c(3))
    qed (simp add: len)
    obtain v where v: "LoadMult env u instr' address wb' = Inr v" "ctl_frame u v"
      "Reg v = written_base instr' wb' (overlay (Reg u) ?rs (map (word_at u) ?as))"
      using LoadMult_granted [OF c(1) u(2,3), of instr' address wb'] st(4,5) ld c(2) by auto
    then show ?thesis using val by (auto simp: overlay_map)
  qed
  then show ?thesis using t(1,3) by blast
qed

end

section \<open>An example\<close>

text \<open>A version 4 processor with a running MMU, and a stack at the top of its third section.\<close>

definition stack926 :: "unit ARMul_State" where
  "stack926 = (vm926 1 USER32MODE)\<lparr>Aborted := 0, is_v4 := 1, Reg := (\<lambda>r. of_nat r)(13 := 0x30800C)\<rparr>"

lemma vm926_plain:
  assumes "a \<in> {0x308000, 0x308004, 0x308008}"
  shows "plain_word (vm926 1 USER32MODE) a" "va_place (vm926 1 USER32MODE) a = drop_bit 2 (a - 0x300000)"
proof -
  let ?s = "vm926 1 USER32MODE"
  have rv: "mmu_pid_va_map ?s a = a" using assms by (auto simp: mmu_pid_va_map_def vm926_mem)
  have e: "va_entry ?s a = section_entry a 0xC02"
    using assms by (auto simp: va_entry_def rv vm926_section)
  have pa: "phys ?s ARM_WORD_TYPE a (section_entry a 0xC02) = a - 0x300000"
    using assms by (auto simp: phys_def rv tlb_va_to_pa_def section_entry_def mk_entry_def)
  have g: "grants ?s ARM_WORD_TYPE a b (section_entry a 0xC02)" for b
    unfolding grants_def rv align_fault_def access_ok_def vm926_mem(5-9) vm926_section check_perms_def Let_def
    using assms by (auto simp: section_entry_def mk_entry_def domain_of_def vm_mapped vm926_mem(2))
  have "drop_bit 2 (a - 0x300000) \<noteq> drop_bit 2 (l1_addr 0 v)" for v
    using l1_addr_0 [of v] assms unfolding word_drop2_eq word_less_nat_alt by auto
  moreover have "peek_word vm_state a = 0xC02" for a by (simp add: peek_word_def vm_state_def)
  ultimately have av: "tables_avoid ?s (a - 0x300000)" by (simp add: tables_avoid_def vm926_mem)
  have "ram_ok ?s (a - 0x300000)" using assms by (auto simp: vm926_mem vm_ram_ok)
  moreover have "\<not> in_window ?s a (section_entry a 0xC02)"
    using assms by (auto simp: in_window_def rv tlb_va_to_pa_def section_entry_def mk_entry_def)
  ultimately show "plain_word ?s a" using g av by (simp add: plain_word_def Let_def e pa)
  show "va_place ?s a = drop_bit 2 (a - 0x300000)" by (simp add: va_place_def e pa)
qed

lemma stack926_view:
  "vm_ok bare_env stack926" "plain_word stack926 = plain_word (vm926 1 USER32MODE)"
  "va_place stack926 = va_place (vm926 1 USER32MODE)"
proof -
  have "same_sys (vm926 1 USER32MODE) stack926" by (simp add: same_sys_def stack926_def)
  then show "vm_ok bare_env stack926" "plain_word stack926 = plain_word (vm926 1 USER32MODE)"
    "va_place stack926 = va_place (vm926 1 USER32MODE)"
    using arm926.sys_cong [of "vm926 1 USER32MODE" stack926] vm926_ok by simp_all
qed

end
