(* ===== verification/Arm_Mul.thy ===== *)
theory Arm_Mul
  imports Arm_Operand
begin

text \<open>
  The 64-bit multiplications, \<^verbatim>\<open>arch/arm/common/armemu.c\<close>: addition with a carry out, the product of
  two words from four halfword products, and the accumulating form. They are shown to compute the exact
  product of the operands as unsigned or signed numbers.
\<close>

definition Add32 :: "ARMword \<Rightarrow> ARMword \<Rightarrow> ARMword \<times> ARMword" where
  "Add32 a1 a2 =
     (let result = a1 + a2
      in (result, if (if result = a1 then a2 \<noteq> 0 else result < a1) then 1 else 0))"

text \<open>The product of two words as its high and its low word.\<close>

definition mul_halves :: "ARMword \<Rightarrow> ARMword \<Rightarrow> ARMword \<times> ARMword" where
  "mul_halves Rm Rs =
     (let lo = (Rs AND 0xFFFF) * (Rm AND 0xFFFF);
          mid1 = (Rs AND 0xFFFF) * (drop_bit 16 Rm AND 0xFFFF);
          mid2 = (drop_bit 16 Rs AND 0xFFFF) * (Rm AND 0xFFFF);
          hi = (drop_bit 16 Rs AND 0xFFFF) * (drop_bit 16 Rm AND 0xFFFF);
          (RdLo, carry) = Add32 lo (push_bit 16 mid1);
          RdHi = carry;
          (RdLo, carry) = Add32 RdLo (push_bit 16 mid2);
          RdHi = RdHi + (carry + (drop_bit 16 mid1 AND 0xFFFF) + (drop_bit 16 mid2 AND 0xFFFF) + hi)
      in (RdHi, RdLo))"

definition negate64 :: "ARMword \<times> ARMword \<Rightarrow> ARMword \<times> ARMword" where
  "negate64 p =
     (let RdHi = NOT (fst p); RdLo = NOT (snd p)
      in if RdLo = 0xFFFFFFFF then (RdHi + 1, 0) else (RdHi, RdLo + 1))"

definition abs_word :: "ARMword \<Rightarrow> ARMword" where
  "abs_word w = (if sint w < 0 then - w else w)"

definition mul_cycles :: "ARMword \<Rightarrow> ARMword" where
  "mul_cycles Rm =
     (if Rm AND 0xFFFFFF00 = 0 then 1 else if Rm AND 0xFFFF0000 = 0 then 2
      else if Rm AND 0xFF000000 = 0 then 3 else 4)"

definition mul_legal :: "ARMword \<Rightarrow> bool" where
  "mul_legal instr =
     (let nRdHi = BITS instr 16 19; nRdLo = BITS instr 12 15; nRs = BITS instr 8 11; nRm = BITS instr 0 3
      in nRdHi \<noteq> 15 \<and> nRdLo \<noteq> 15 \<and> nRs \<noteq> 15 \<and> nRm \<noteq> 15 \<and> nRdHi \<noteq> nRdLo \<and> nRdHi \<noteq> nRm \<and> nRdLo \<noteq> nRm)"

definition NegZero64 :: "ARMword \<Rightarrow> ARMword \<Rightarrow> 'io ARMul_State \<Rightarrow> 'io ARMul_State" where
  "NegZero64 RdHi RdLo s = ARMul_NegZero s (RdHi OR drop_bit 16 RdLo OR (RdLo AND 0xFFFF))"

text \<open>
  The result is the number of cycles and the state; registers that must not be used together only
  give a message and set the flags of 0.
\<close>

definition Multiply64 ::
  "'io ARMul_State \<Rightarrow> ARMword \<Rightarrow> bool \<Rightarrow> bool \<Rightarrow> ARMword \<times> 'io ARMul_State" where
  "Multiply64 s instr msigned scc =
     (let nRdHi = unat (BITS instr 16 19); nRdLo = unat (BITS instr 12 15);
          nRs = unat (BITS instr 8 11); nRm = unat (BITS instr 0 3);
          Rm = Reg s nRm;
          (Rm, RdHi, RdLo, s) =
            (if mul_legal instr
             then let Rs = Reg s nRs;
                      sign = msigned \<and> (Rm XOR Rs) AND 0x80000000 \<noteq> 0;
                      Rm = (if msigned then abs_word Rm else Rm);
                      Rs = (if msigned then abs_word Rs else Rs);
                      p = mul_halves Rm Rs;
                      (RdHi, RdLo) = (if sign then negate64 p else p)
                  in (Rm, RdHi, RdLo, set_reg nRdHi RdHi (set_reg nRdLo RdLo s))
             else (Rm, 0, 0, s));
          s = (if scc then NegZero64 RdHi RdLo s else s);
          Rm = (if msigned \<and> Rm AND push_bit 31 1 \<noteq> 0 then NOT Rm else Rm)
      in (2 + mul_cycles Rm, s))"

definition MultiplyAdd64 ::
  "'io ARMul_State \<Rightarrow> ARMword \<Rightarrow> bool \<Rightarrow> bool \<Rightarrow> ARMword \<times> 'io ARMul_State" where
  "MultiplyAdd64 s instr msigned scc =
     (let nRdHi = unat (BITS instr 16 19); nRdLo = unat (BITS instr 12 15);
          RdHi = Reg s nRdHi; RdLo = Reg s nRdLo;
          (scount, s) = Multiply64 s instr msigned False;
          (RdLo, carry) = Add32 RdLo (Reg s nRdLo);
          RdHi = (RdHi + Reg s nRdHi) + carry;
          s = set_reg nRdHi RdHi (set_reg nRdLo RdLo s);
          s = (if scc then NegZero64 RdHi RdLo s else s)
      in (scount + 1, s))"

section \<open>The halves make the whole product\<close>

text \<open>The number that a high and a low word stand for.\<close>

definition val64 :: "ARMword \<times> ARMword \<Rightarrow> int" where
  "val64 p = uint (fst p) * 2 ^ 32 + uint (snd p)"

lemma uint_bounds32: "0 \<le> uint (a :: ARMword)" "uint a < 2 ^ 32"
  using uint_lt2p [of a] by simp_all

lemma uint_arith32:
  fixes a b :: ARMword
  shows "uint (a + b) = (uint a + uint b) mod 2 ^ 32" "uint (a * b) = (uint a * uint b) mod 2 ^ 32"
    "uint (- a) = (- uint a) mod 2 ^ 32"
  by (simp_all add: uint_word_ariths)

lemma Add32_exact: "uint (fst (Add32 a b)) + uint (snd (Add32 a b)) * 2 ^ 32 = uint a + uint b"
proof -
  note ab = uint_bounds32 [of a] uint_bounds32 [of b]
  have r: "uint (a + b) = (if uint a + uint b < 2 ^ 32 then uint a + uint b else uint a + uint b - 2 ^ 32)"
  proof -
    obtain A B where A: "uint a = A" "0 \<le> A" "A < 2 ^ 32" and B: "uint b = B" "0 \<le> B" "B < 2 ^ 32"
      using uint_nonneg32 [of a] uint_nonneg32 [of b] by blast
    have "(A + B) mod 2 ^ 32 = (if A + B < 2 ^ 32 then A + B else A + B - 2 ^ 32)"
      using A B by (subst mod_2p32_cases) auto
    then show ?thesis by (simp only: uint_arith32 A(1) B(1))
  qed
  have c: "snd (Add32 a b) = (if uint a + uint b < 2 ^ 32 then 0 else 1)"
  proof (cases "uint a + uint b < 2 ^ 32")
    case True
    then show ?thesis using ab r by (auto simp: Add32_def Let_def word_less_def word_uint_eq_iff)
  next
    case False
    then have "uint (a + b) < uint a" using ab r by simp
    then show ?thesis using False by (auto simp: Add32_def Let_def word_less_def)
  qed
  have f: "fst (Add32 a b) = a + b" by (simp add: Add32_def Let_def)
  show ?thesis unfolding f c r by simp
qed

lemma uint_low16: "uint ((a :: ARMword) AND 0xFFFF) = uint a mod 2 ^ 16"
proof -
  have "a AND 0xFFFF = take_bit 16 a" unfolding take_bit_eq_mask by (simp add: mask_eq_exp_minus_1)
  then have "uint (a AND 0xFFFF) = uint (take_bit 16 a)" by (rule arg_cong)
  also have "\<dots> = take_bit 16 (uint a)" by (rule unsigned_take_bit_eq)
  finally show ?thesis unfolding take_bit_eq_mod .
qed

lemma uint_high16: "uint (drop_bit 16 (a :: ARMword)) = uint a div 2 ^ 16"
  using uint_bounds32 [of a] unfolding unsigned_drop_bit_eq by (simp add: drop_bit_eq_div take_bit_int_eq_self)

lemma high16_masked: "drop_bit 16 (a :: ARMword) AND 0xFFFF = drop_bit 16 a"
  by (rule word32_eqI) (simp only: all_less_32_iff, simp add: bit_simps bit_high_False)

lemma uint_shl16: "uint (push_bit 16 (a :: ARMword)) = (uint a mod 2 ^ 16) * 2 ^ 16"
proof -
  have "uint (push_bit 16 a) = (uint a * 2 ^ 16) mod (2 ^ 16 * 2 ^ 16)"
    by (simp add: push_bit_eq_mult uint_arith32)
  then show ?thesis by (simp only: mod_mult_mult2)
qed

lemma uint_mul_small:
  fixes a b :: ARMword
  assumes "uint a < 2 ^ 16" "uint b < 2 ^ 16"
  shows "uint (a * b) = uint a * uint b"
proof -
  have "uint a * uint b < 2 ^ 16 * 2 ^ 16"
    using assms uint_bounds32(1) [of a] uint_bounds32(1) [of b] by (intro mult_strict_mono) auto
  then show ?thesis using uint_bounds32(1) [of a] uint_bounds32(1) [of b]
    by (simp add: uint_arith32 mod_pos_pos_trivial)
qed

lemma halves_sum:
  fixes fp fq sp sq lo hi d1 d2 e1 e2 :: int
  assumes "fp + sp * 2 ^ 32 = lo + e1 * 2 ^ 16" "fq + sq * 2 ^ 32 = fp + e2 * 2 ^ 16"
  shows "fq + (sp + (sq + d1 + d2 + hi)) * 2 ^ 32 =
    lo + (d1 * 2 ^ 16 + e1) * 2 ^ 16 + (d2 * 2 ^ 16 + e2) * 2 ^ 16 + hi * 2 ^ 32"
  using assms by (simp add: algebra_simps)

lemma mul_halves_exact: "val64 (mul_halves m r) = uint m * uint r"
proof -
  define m0 m1 r0 r1 where d: "m0 = uint m mod 2 ^ 16" "m1 = uint m div 2 ^ 16"
    "r0 = uint r mod 2 ^ 16" "r1 = uint r div 2 ^ 16"
  have b: "0 \<le> m0" "m0 < 2 ^ 16" "0 \<le> m1" "m1 < 2 ^ 16" "0 \<le> r0" "r0 < 2 ^ 16" "0 \<le> r1" "r1 < 2 ^ 16"
    using uint_bounds32 [of m] uint_bounds32 [of r] by (auto simp: d pos_imp_zdiv_nonneg_iff)
  have w: "uint m = m1 * 2 ^ 16 + m0" "uint r = r1 * 2 ^ 16 + r0" by (simp_all add: d)
  define lo mid1 mid2 hi :: ARMword where
    e: "lo = (r AND 0xFFFF) * (m AND 0xFFFF)" "mid1 = (r AND 0xFFFF) * (drop_bit 16 m AND 0xFFFF)"
       "mid2 = (drop_bit 16 r AND 0xFFFF) * (m AND 0xFFFF)" "hi = (drop_bit 16 r AND 0xFFFF) * (drop_bit 16 m AND 0xFFFF)"
  have v: "uint lo = r0 * m0" "uint mid1 = r0 * m1" "uint mid2 = r1 * m0" "uint hi = r1 * m1"
  proof -
    have u: "uint (r AND 0xFFFF) = r0" "uint (m AND 0xFFFF) = m0" "uint (drop_bit 16 m) = m1" "uint (drop_bit 16 r) = r1"
      by (simp_all only: uint_low16 uint_high16 d)
    then show "uint lo = r0 * m0" "uint mid1 = r0 * m1" "uint mid2 = r1 * m0" "uint hi = r1 * m1"
      using b unfolding e high16_masked by (simp_all add: uint_mul_small)
  qed
  define p q where "p = Add32 lo (push_bit 16 mid1)" and "q = Add32 (fst p) (push_bit 16 mid2)"
  define H where "H = uint (snd p) + (uint (snd q) + uint mid1 div 2 ^ 16 + uint mid2 div 2 ^ 16 + uint hi)"
  have mh: "mul_halves m r = (snd p + (snd q + drop_bit 16 mid1 + drop_bit 16 mid2 + hi), fst q)"
    by (simp add: mul_halves_def Let_def case_prod_beta high16_masked p_def q_def e)
  have P: "uint (fst p) + uint (snd p) * 2 ^ 32 = uint lo + (uint mid1 mod 2 ^ 16) * 2 ^ 16"
    unfolding p_def Add32_exact uint_shl16 ..
  have Q: "uint (fst q) + uint (snd q) * 2 ^ 32 = uint (fst p) + (uint mid2 mod 2 ^ 16) * 2 ^ 16"
    unfolding q_def Add32_exact uint_shl16 ..
  have s: "x = (x div 2 ^ 16) * 2 ^ 16 + x mod 2 ^ 16" for x :: int by simp
  have tot: "uint (fst q) + H * 2 ^ 32 = uint m * uint r"
  proof -
    have "uint (fst q) + H * 2 ^ 32 = uint lo + ((uint mid1 div 2 ^ 16) * 2 ^ 16 + uint mid1 mod 2 ^ 16) * 2 ^ 16
        + ((uint mid2 div 2 ^ 16) * 2 ^ 16 + uint mid2 mod 2 ^ 16) * 2 ^ 16 + uint hi * 2 ^ 32"
      unfolding H_def by (rule halves_sum [OF P Q])
    also have "\<dots> = uint m * uint r"
      unfolding s [symmetric] v w by (simp add: algebra_simps)
    finally show ?thesis .
  qed
  have "uint m * uint r < 2 ^ 32 * 2 ^ 32"
    using uint_bounds32 [of m] uint_bounds32 [of r] by (intro mult_strict_mono) auto
  then have "H * 2 ^ 32 < 2 ^ 32 * 2 ^ 32" using tot uint_bounds32(1) [of "fst q"] by linarith
  then have "H < 2 ^ 32" by simp
  moreover have "0 \<le> H" unfolding H_def
    by (intro add_nonneg_nonneg) (simp_all add: pos_imp_zdiv_nonneg_iff)
  moreover have "uint (fst (mul_halves m r)) = H mod 2 ^ 32"
    unfolding mh fst_conv H_def uint_high16 [symmetric] by (simp add: uint_word_ariths mod_simps)
  ultimately show ?thesis using tot by (simp add: val64_def mh mod_pos_pos_trivial)
qed

lemma uint_not32: "uint (NOT (a :: ARMword)) = 2 ^ 32 - 1 - uint a"
proof -
  have "NOT a = - a - 1" by (rule not_eq_complement)
  then have "uint (NOT a) = (- uint a - 1) mod 2 ^ 32" by (simp add: uint_word_ariths mod_simps)
  also have "\<dots> = - uint a - 1 + 2 ^ 32"
  proof -
    obtain A where "uint a = A" "0 \<le> A" "A < 2 ^ 32" using uint_nonneg32 [of a] by blast
    then show ?thesis by (subst mod_2p32_cases) auto
  qed
  finally show ?thesis by simp
qed

lemma negate64_exact: "val64 (negate64 p) = (- val64 p) mod 2 ^ 64"
proof -
  obtain h l where p: "p = (h, l)" by (cases p)
  note b = uint_bounds32 [of h] uint_bounds32 [of l]
  define V where "V = uint h * 2 ^ 32 + uint l"
  have Vb: "0 \<le> V" "V < 2 ^ 64" using b by (auto simp: V_def)
  have neg: "(- V) mod 2 ^ 64 = (if V = 0 then 0 else 2 ^ 64 - V)"
    using Vb by (simp add: zmod_zminus1_eq_if mod_pos_pos_trivial)
  show ?thesis
  proof (cases "l = 0")
    case True
    have "uint (NOT h + 1) = (if uint h = 0 then 0 else 2 ^ 32 - uint h)"
      using b unfolding uint_arith32 uint_not32 by (simp add: mod_pos_pos_trivial zmod_zminus1_eq_if)
    moreover have "NOT (0 :: ARMword) = 0xFFFFFFFF" by simp
    ultimately show ?thesis using True b neg by (auto simp: p val64_def negate64_def Let_def V_def)
  next
    case False
    then have l: "0 < uint l" using b by (simp add: word_uint_eq_iff order.strict_iff_order)
    have "NOT l \<noteq> 0xFFFFFFFF"
    proof
      assume "NOT l = 0xFFFFFFFF"
      then have "uint (NOT l) = 2 ^ 32 - 1" by simp
      then show False using l unfolding uint_not32 by simp
    qed
    have "uint (NOT l + 1) = 2 ^ 32 - uint l"
      using b l unfolding uint_arith32 uint_not32 by (simp add: mod_pos_pos_trivial zmod_zminus1_eq_if)
    moreover have "0 < V" using b l by (simp add: V_def add_nonneg_pos)
    ultimately show ?thesis using \<open>NOT l \<noteq> 0xFFFFFFFF\<close> neg
      by (auto simp: p val64_def negate64_def Let_def V_def uint_not32 algebra_simps)
  qed
qed

lemma abs_word_exact: "uint (abs_word a) = \<bar>sint a\<bar>"
proof -
  obtain A where A: "uint a = A" "0 \<le> A" "A < 2 ^ 32" using uint_nonneg32 [of a] by blast
  show ?thesis
  proof (cases "A < 2 ^ 31")
    case True
    then show ?thesis using A by (simp add: abs_word_def sint_uint32)
  next
    case False
    have "uint (- a) = 2 ^ 32 - A"
      using A False unfolding uint_arith32 A(1) by (simp add: zmod_zminus1_eq_if mod_pos_pos_trivial)
    then show ?thesis using A False by (simp add: abs_word_def sint_uint32)
  qed
qed

lemma sign_bit: "bit (a XOR b) 31 \<longleftrightarrow> (sint a < 0) \<noteq> (sint (b :: ARMword) < 0)"
  unfolding bit31_sint [symmetric] by (simp add: bit_xor_iff)

definition mul_value :: "bool \<Rightarrow> ARMword \<Rightarrow> ARMword \<Rightarrow> int" where
  "mul_value msigned a b = (if msigned then sint a * sint b else uint a * uint b)"

lemma val64_range: "0 \<le> val64 p" "val64 p < 2 ^ 64"
  using uint_bounds32 [of "fst p"] uint_bounds32 [of "snd p"] by (auto simp: val64_def)

lemma signed_product_exact:
  "val64 (if (a XOR b) AND 0x80000000 \<noteq> 0 then negate64 (mul_halves (abs_word a) (abs_word b))
          else mul_halves (abs_word a) (abs_word b)) = (sint a * sint b) mod 2 ^ 64"
proof -
  let ?p = "mul_halves (abs_word a) (abs_word b)"
  have v: "val64 ?p = \<bar>sint a\<bar> * \<bar>sint b\<bar>" by (simp add: mul_halves_exact abs_word_exact)
  show ?thesis
  proof (cases "(sint a < 0) = (sint b < 0)")
    case True
    then have "val64 ?p = sint a * sint b" unfolding v by (auto simp: abs_if)
    then show ?thesis using True val64_range [of ?p] by (simp add: sign_bit mod_pos_pos_trivial)
  next
    case False
    then have "val64 ?p = - (sint a * sint b)" unfolding v by (auto simp: abs_if)
    then show ?thesis using False by (simp add: sign_bit negate64_exact)
  qed
qed

section \<open>The multiplications\<close>

lemma mul_legal_regs:
  assumes "mul_legal instr"
  shows "unat (BITS instr 16 19) \<noteq> unat (BITS instr 12 15)"
  using assms by (auto simp: mul_legal_def Let_def word_unat_eq_iff)

lemma NegZero64_facts:
  "Reg (NegZero64 h l s) = Reg s" "NFlag (NegZero64 h l s) = of_bool (2 ^ 63 \<le> val64 (h, l))"
  "ZFlag (NegZero64 h l s) = of_bool (val64 (h, l) = 0)" "CFlag (NegZero64 h l s) = CFlag s"
  "VFlag (NegZero64 h l s) = VFlag s"
proof -
  let ?w = "h OR drop_bit 16 l OR (l AND 0xFFFF)"
  have n: "bit ?w 31 \<longleftrightarrow> 2 ^ 63 \<le> val64 (h, l)"
  proof -
    have "bit ?w 31 \<longleftrightarrow> 2 ^ 31 \<le> uint h" unfolding bit31_uint [symmetric] by (simp add: bit_simps bit_high_False)
    moreover have "2 ^ 31 \<le> H \<longleftrightarrow> 2 ^ 63 \<le> H * 2 ^ 32 + L" if "0 \<le> L" "L < 2 ^ 32" for H L :: int
      using that by auto
    ultimately show ?thesis using uint_bounds32 [of l] by (simp only: val64_def fst_conv snd_conv)
  qed
  have z: "?w = 0 \<longleftrightarrow> val64 (h, l) = 0"
  proof -
    have "drop_bit 16 l = 0 \<and> l AND 0xFFFF = 0 \<longleftrightarrow> l = 0"
    proof
      assume "drop_bit 16 l = 0 \<and> l AND 0xFFFF = 0"
      then have "uint l div 2 ^ 16 = 0" "uint l mod 2 ^ 16 = 0"
        using uint_high16 [of l] uint_low16 [of l] by simp_all
      then have "uint l = 0" using div_mult_mod_eq [of "uint l" "2 ^ 16"] by simp
      then show "l = 0" by (simp add: word_uint_eq_iff)
    qed simp
    moreover have "?w = 0 \<longleftrightarrow> h = 0 \<and> drop_bit 16 l = 0 \<and> l AND 0xFFFF = 0"
      by (auto simp: or_eq_0_iff)
    ultimately show ?thesis using uint_bounds32 [of h] uint_bounds32 [of l]
      by (auto simp: val64_def word_uint_eq_iff add_nonneg_eq_0_iff)
  qed
  have zn: "?w = 0 \<Longrightarrow> \<not> bit ?w 31" by simp
  show "Reg (NegZero64 h l s) = Reg s" "NFlag (NegZero64 h l s) = of_bool (2 ^ 63 \<le> val64 (h, l))"
    "ZFlag (NegZero64 h l s) = of_bool (val64 (h, l) = 0)" "CFlag (NegZero64 h l s) = CFlag s"
    "VFlag (NegZero64 h l s) = VFlag s"
    unfolding n [symmetric] z [symmetric] NegZero64_def ARMul_NegZero_def NEG_of_bool using zn by simp_all
qed

lemma mul_cycles_range: "1 \<le> mul_cycles r \<and> mul_cycles r \<le> 4"
  by (simp add: mul_cycles_def)

lemma Multiply64_spec:
  assumes "mul_legal instr"
  shows "\<exists>h l c. Multiply64 s instr msigned scc =
      (2 + mul_cycles c, (if scc then NegZero64 h l else id)
         (set_reg (unat (BITS instr 16 19)) h (set_reg (unat (BITS instr 12 15)) l s)))
    \<and> val64 (h, l) = mul_value msigned (Reg s (unat (BITS instr 0 3))) (Reg s (unat (BITS instr 8 11))) mod 2 ^ 64"
proof -
  let ?m = "Reg s (unat (BITS instr 0 3))" let ?r = "Reg s (unat (BITS instr 8 11))"
  define p where "p = (if msigned then
      (if (?m XOR ?r) AND 0x80000000 \<noteq> 0 then negate64 (mul_halves (abs_word ?m) (abs_word ?r))
       else mul_halves (abs_word ?m) (abs_word ?r)) else mul_halves ?m ?r)"
  have v: "val64 p = mul_value msigned ?m ?r mod 2 ^ 64"
  proof (cases msigned)
    case True
    then show ?thesis using signed_product_exact [of ?m ?r] by (simp add: p_def mul_value_def)
  next
    case False
    then show ?thesis using val64_range [of p]
      by (simp add: p_def mul_value_def mul_halves_exact mod_pos_pos_trivial)
  qed
  obtain h l where hl: "p = (h, l)" by (cases p)
  have "\<exists>c. Multiply64 s instr msigned scc = (2 + mul_cycles c, (if scc then NegZero64 h l else id)
         (set_reg (unat (BITS instr 16 19)) h (set_reg (unat (BITS instr 12 15)) l s)))"
    using assms hl unfolding p_def
    by (cases msigned; cases scc) (auto simp: Multiply64_def Let_def case_prod_beta)
  then show ?thesis using v unfolding hl by blast
qed

text \<open>
  C9: the long multiplications. With registers that may be used together, the two result registers hold
  the 64-bit product of the operands as unsigned or as signed numbers; all other registers are kept; the
  flag-setting form sets N to the sign and Z exactly when the whole product is 0; the instruction
  takes from 3 to 6 cycles.
\<close>

theorem long_multiply_correct:
  assumes "mul_legal instr" "Multiply64 s instr msigned scc = (cycles, t)"
    "hi = unat (BITS instr 16 19)" "lo = unat (BITS instr 12 15)"
    "P = mul_value msigned (Reg s (unat (BITS instr 0 3))) (Reg s (unat (BITS instr 8 11))) mod 2 ^ 64"
  shows "uint (Reg t hi) * 2 ^ 32 + uint (Reg t lo) = P
    \<and> (\<forall>r. r \<noteq> hi \<and> r \<noteq> lo \<longrightarrow> Reg t r = Reg s r)
    \<and> NFlag t = (if scc then of_bool (2 ^ 63 \<le> P) else NFlag s)
    \<and> ZFlag t = (if scc then of_bool (P = 0) else ZFlag s)
    \<and> 3 \<le> cycles \<and> cycles \<le> 6"
proof -
  obtain h l c where m: "cycles = 2 + mul_cycles c" "val64 (h, l) = P"
    "t = (if scc then NegZero64 h l else id) (set_reg hi h (set_reg lo l s))"
    using Multiply64_spec [OF assms(1), of s msigned scc] assms(2-5) by auto
  have "mul_cycles c \<in> {1, 2, 3, 4}" by (simp add: mul_cycles_def)
  moreover have "hi \<noteq> lo" using mul_legal_regs [OF assms(1)] assms(3,4) by simp
  ultimately show ?thesis using m
    by (auto simp: NegZero64_facts set_reg_def val64_def)
qed

definition mul_state :: "unit ARMul_State" where
  "mul_state = boot_state\<lparr>Reg := (\<lambda>_. 0)(2 := 3, 3 := - 2, 4 := 10)\<rparr>"

theorem long_multiply_correct_witness:
  "uint (Reg (snd (Multiply64 mul_state 0xE0C54392 True True)) 5) * 2 ^ 32
      + uint (Reg (snd (Multiply64 mul_state 0xE0C54392 True True)) 4) = (- 6) mod 2 ^ 64
    \<and> NFlag (snd (Multiply64 mul_state 0xE0C54392 True True)) = 1"
proof -
  have legal: "mul_legal 0xE0C54392" by (simp add: mul_legal_def BITS_def)
  show ?thesis
    using long_multiply_correct [OF legal prod.collapse [symmetric] refl refl refl,
        where s = mul_state and msigned = True and scc = True]
    by (simp add: BITS_def mul_value_def mul_state_def)
qed

lemma val64_sum:
  assumes "uint x + uint c * 2 ^ 32 = uint l + uint l'"
  shows "val64 (h + h' + c, x) = (val64 (h, l) + val64 (h', l')) mod 2 ^ 64"
proof -
  let ?A = "uint h + uint h' + uint c"
  have "val64 (h + h' + c, x) = (?A mod 2 ^ 32) * 2 ^ 32 + uint x"
    by (simp add: val64_def uint_add3)
  also have "(?A mod 2 ^ 32) * 2 ^ 32 = (?A * 2 ^ 32) mod (2 ^ 32 * 2 ^ 32)" by (simp only: mod_mult_mult2)
  finally have v: "val64 (h + h' + c, x) = (?A * 2 ^ 32) mod 2 ^ 64 + uint x" by simp
  have "val64 (h + h' + c, x) = val64 (h + h' + c, x) mod 2 ^ 64"
    using val64_range [of "(h + h' + c, x)"] by (simp add: mod_pos_pos_trivial)
  also have "\<dots> = (?A * 2 ^ 32 + uint x) mod 2 ^ 64" unfolding v by (rule mod_add_left_eq)
  also have "?A * 2 ^ 32 + uint x = val64 (h, l) + val64 (h', l')"
    using assms by (simp add: val64_def algebra_simps)
  finally show ?thesis .
qed

text \<open>
  Multiply and accumulate. With registers that may be used together, the two result registers
  hold the sum, modulo 2 to the 64, of the product and of the number they held before; N and Z are those of the sum.
\<close>

lemma long_multiply_accumulate_correct:
  assumes "mul_legal instr" "MultiplyAdd64 s instr msigned scc = (cycles, t)"
    "hi = unat (BITS instr 16 19)" "lo = unat (BITS instr 12 15)"
    "P = (uint (Reg s hi) * 2 ^ 32 + uint (Reg s lo)
      + mul_value msigned (Reg s (unat (BITS instr 0 3))) (Reg s (unat (BITS instr 8 11)))) mod 2 ^ 64"
  shows "uint (Reg t hi) * 2 ^ 32 + uint (Reg t lo) = P
    \<and> (\<forall>r. r \<noteq> hi \<and> r \<noteq> lo \<longrightarrow> Reg t r = Reg s r)
    \<and> NFlag t = (if scc then of_bool (2 ^ 63 \<le> P) else NFlag s)
    \<and> ZFlag t = (if scc then of_bool (P = 0) else ZFlag s)
    \<and> 4 \<le> cycles \<and> cycles \<le> 7"
proof -
  obtain h l c where m: "Multiply64 s instr msigned False = (2 + mul_cycles c, set_reg hi h (set_reg lo l s))"
    "val64 (h, l) = mul_value msigned (Reg s (unat (BITS instr 0 3))) (Reg s (unat (BITS instr 8 11))) mod 2 ^ 64"
    using Multiply64_spec [OF assms(1), of s msigned False] assms(3,4) by auto
  have ne: "hi \<noteq> lo" using mul_legal_regs [OF assms(1)] assms(3,4) by simp
  obtain x k where a: "Add32 (Reg s lo) l = (x, k)" by (cases "Add32 (Reg s lo) l")
  let ?h = "Reg s hi + h + k"
  have t: "cycles = 2 + mul_cycles c + 1"
    "t = (if scc then NegZero64 ?h x else id) (set_reg hi ?h (set_reg lo x (set_reg hi h (set_reg lo l s))))"
    using assms(2) m(1) a ne unfolding MultiplyAdd64_def assms(3,4) [symmetric]
    by (auto simp: Let_def set_reg_def)
  have "val64 (?h, x) = (val64 (Reg s hi, Reg s lo) + val64 (h, l)) mod 2 ^ 64"
    using Add32_exact [of "Reg s lo" l] a by (intro val64_sum) simp
  also have "\<dots> = P" unfolding m(2) mod_add_right_eq using assms(5) by (simp add: val64_def)
  finally have v: "val64 (?h, x) = P" .
  have "mul_cycles c \<in> {1, 2, 3, 4}" by (simp add: mul_cycles_def)
  then show ?thesis using t v ne by (auto simp: NegZero64_facts set_reg_def val64_def)
qed

lemma long_multiply_accumulate_correct_witness:
  "uint (Reg (snd (MultiplyAdd64 mul_state 0xE0E54392 True True)) 5) * 2 ^ 32
      + uint (Reg (snd (MultiplyAdd64 mul_state 0xE0E54392 True True)) 4) = 4
    \<and> ZFlag (snd (MultiplyAdd64 mul_state 0xE0E54392 True True)) = 0"
proof -
  have legal: "mul_legal 0xE0E54392" by (simp add: mul_legal_def BITS_def)
  show ?thesis
    using long_multiply_accumulate_correct [OF legal prod.collapse [symmetric] refl refl refl,
        where s = mul_state and msigned = True and scc = True]
    by (simp add: BITS_def mul_value_def mul_state_def)
qed

end
