(* ===== verification/Arm_Dp.thy ===== *)
theory Arm_Dp
  imports Arm_Transfer Arm_Mul
begin

text \<open>
  Data processing, \<^verbatim>\<open>ARMul_Emulate32\<close> of \<^verbatim>\<open>arch/arm/common/armemu.c\<close>, the cases 0x00 to 0x3f of the
  instruction switch: arithmetic, logic and comparison with a register or an immediate operand, and the
  instructions that share their encodings (multiplications, halfword and doubleword transfers, swaps, moves to
  and from the status registers, exchange branches, saturating arithmetic). One definition per case, in the
  order of the code, with the order in which the code reads operands.
\<close>

section \<open>Halfword transfers\<close>

definition set_base :: "ARMword \<Rightarrow> ARMword \<Rightarrow> 'io ARMul_State \<Rightarrow> 'io ARMul_State" where
  "set_base instr v s = set_reg (LHSReg instr) v s"

text \<open>\<^verbatim>\<open>if (transfer) LSBase = v\<close>, where \<open>v\<close> is computed after the transfer.\<close>

definition then_base ::
  "ARMword \<Rightarrow> ('io ARMul_State \<Rightarrow> ARMword) \<Rightarrow> 'io transfer \<Rightarrow> 'io ARMul_State sim" where
  "then_base instr v r = bind_ok r (\<lambda>(wb, s). Inr (if wb then set_base instr (v s) s else s))"

definition no_base :: "'io transfer \<Rightarrow> 'io ARMul_State sim" where
  "no_base r = bind_ok r (\<lambda>(wb, s). Inr s)"

definition SHDOWNWB :: "'io cpu_env \<Rightarrow> 'io ARMul_State \<Rightarrow> ARMword \<Rightarrow> 'io ARMul_State sim" where
  "SHDOWNWB env s instr =
     (let lhs = LHS s instr
      in then_base instr (\<lambda>s. lhs - GetLS7RHS s instr) (StoreHalfWord env s instr lhs))"

definition SHUPWB :: "'io cpu_env \<Rightarrow> 'io ARMul_State \<Rightarrow> ARMword \<Rightarrow> 'io ARMul_State sim" where
  "SHUPWB env s instr =
     (let lhs = LHS s instr
      in then_base instr (\<lambda>s. lhs + GetLS7RHS s instr) (StoreHalfWord env s instr lhs))"

definition SHPREDOWN :: "'io cpu_env \<Rightarrow> 'io ARMul_State \<Rightarrow> ARMword \<Rightarrow> 'io ARMul_State sim" where
  "SHPREDOWN env s instr = no_base (StoreHalfWord env s instr (LHS s instr - GetLS7RHS s instr))"

definition SHPREDOWNWB :: "'io cpu_env \<Rightarrow> 'io ARMul_State \<Rightarrow> ARMword \<Rightarrow> 'io ARMul_State sim" where
  "SHPREDOWNWB env s instr =
     (let temp = LHS s instr - GetLS7RHS s instr
      in then_base instr (\<lambda>_. temp) (StoreHalfWord env s instr temp))"

definition SHPREUP :: "'io cpu_env \<Rightarrow> 'io ARMul_State \<Rightarrow> ARMword \<Rightarrow> 'io ARMul_State sim" where
  "SHPREUP env s instr = no_base (StoreHalfWord env s instr (LHS s instr + GetLS7RHS s instr))"

definition SHPREUPWB :: "'io cpu_env \<Rightarrow> 'io ARMul_State \<Rightarrow> ARMword \<Rightarrow> 'io ARMul_State sim" where
  "SHPREUPWB env s instr =
     (let temp = LHS s instr + GetLS7RHS s instr
      in then_base instr (\<lambda>_. temp) (StoreHalfWord env s instr temp))"

text \<open>
  The load macros: \<open>None\<close> when bits 5 and 6 are 0, where the code goes on with the rest of the case.
\<close>

definition LH_access :: "'io cpu_env \<Rightarrow> 'io ARMul_State \<Rightarrow> ARMword \<Rightarrow> ARMword \<Rightarrow> 'io transfer option" where
  "LH_access env s instr address =
     (if BITS instr 5 6 = 1 then Some (LoadHalfWord env s instr address False)
      else if BITS instr 5 6 = 2 then Some (LoadByte env s instr address True)
      else if BITS instr 5 6 = 3 then Some (LoadHalfWord env s instr address True)
      else None)"

definition LHPOSTDOWN :: "'io cpu_env \<Rightarrow> 'io ARMul_State \<Rightarrow> ARMword \<Rightarrow> 'io ARMul_State sim option" where
  "LHPOSTDOWN env s instr =
     (let lhs = LHS s instr; temp = lhs - GetLS7RHS s instr
      in map_option (then_base instr (\<lambda>_. temp)) (LH_access env s instr lhs))"

definition LHPOSTUP :: "'io cpu_env \<Rightarrow> 'io ARMul_State \<Rightarrow> ARMword \<Rightarrow> 'io ARMul_State sim option" where
  "LHPOSTUP env s instr =
     (let lhs = LHS s instr; temp = lhs + GetLS7RHS s instr
      in map_option (then_base instr (\<lambda>_. temp)) (LH_access env s instr lhs))"

definition LHPREDOWN :: "'io cpu_env \<Rightarrow> 'io ARMul_State \<Rightarrow> ARMword \<Rightarrow> 'io ARMul_State sim option" where
  "LHPREDOWN env s instr =
     (let temp = LHS s instr - GetLS7RHS s instr in map_option no_base (LH_access env s instr temp))"

definition LHPREDOWNWB :: "'io cpu_env \<Rightarrow> 'io ARMul_State \<Rightarrow> ARMword \<Rightarrow> 'io ARMul_State sim option" where
  "LHPREDOWNWB env s instr =
     (let temp = LHS s instr - GetLS7RHS s instr
      in map_option (then_base instr (\<lambda>_. temp)) (LH_access env s instr temp))"

definition LHPREUP :: "'io cpu_env \<Rightarrow> 'io ARMul_State \<Rightarrow> ARMword \<Rightarrow> 'io ARMul_State sim option" where
  "LHPREUP env s instr =
     (let temp = LHS s instr + GetLS7RHS s instr in map_option no_base (LH_access env s instr temp))"

definition LHPREUPWB :: "'io cpu_env \<Rightarrow> 'io ARMul_State \<Rightarrow> ARMword \<Rightarrow> 'io ARMul_State sim option" where
  "LHPREUPWB env s instr =
     (let temp = LHS s instr + GetLS7RHS s instr
      in map_option (then_base instr (\<lambda>_. temp)) (LH_access env s instr temp))"

text \<open>A guard with a load macro, and what follows when the macro is not done.\<close>

definition LH_or :: "bool \<Rightarrow> 'io ARMul_State sim option \<Rightarrow> 'io ARMul_State sim \<Rightarrow> 'io ARMul_State sim" where
  "LH_or g r k = (if g then (case r of Some x \<Rightarrow> x | None \<Rightarrow> k) else k)"

section \<open>Flags and results\<close>

definition adds_flags :: "ARMword \<Rightarrow> ARMword \<Rightarrow> ARMword \<Rightarrow> 'io ARMul_State \<Rightarrow> 'io ARMul_State" where
  "adds_flags lhs rhs dest s =
     (let s = s\<lparr>ZFlag := of_bool (dest = 0)\<rparr>
      in if drop_bit 30 (lhs OR rhs) \<noteq> 0
         then ARMul_AddOverflow (ARMul_AddCarry (s\<lparr>NFlag := NEG dest\<rparr>) lhs rhs dest) lhs rhs dest
         else s\<lparr>NFlag := 0, CFlag := 0, VFlag := 0\<rparr>)"

definition subs_flags :: "ARMword \<Rightarrow> ARMword \<Rightarrow> ARMword \<Rightarrow> 'io ARMul_State \<Rightarrow> 'io ARMul_State" where
  "subs_flags lhs rhs dest s =
     (if lhs \<ge> rhs \<or> drop_bit 31 (rhs OR lhs) \<noteq> 0
      then ARMul_SubOverflow (ARMul_SubCarry s lhs rhs dest) lhs rhs dest
      else s\<lparr>CFlag := 0, VFlag := 0\<rparr>)"

definition NOTC :: "'io ARMul_State \<Rightarrow> ARMword" where
  "NOTC s = (if CFlag s = 0 then 1 else 0)"

text \<open>\<open>op\<close> gets the state after the operand was fetched, as \<^verbatim>\<open>LHS\<close> and \<^verbatim>\<open>CFLAG\<close> do in the code.\<close>

definition dp_reg ::
  "('io ARMul_State \<Rightarrow> ARMword \<Rightarrow> ARMword \<Rightarrow> ARMword) \<Rightarrow> 'io ARMul_State \<Rightarrow> ARMword \<Rightarrow> 'io ARMul_State sim" where
  "dp_reg op s instr =
     (let (rhs, s) = DPRegRHS s instr; dest = op s (LHS s instr) rhs in Inr (WRITEDEST instr dest s))"

definition dp_reg_s ::
  "(ARMword \<Rightarrow> ARMword \<Rightarrow> ARMword) \<Rightarrow> 'io ARMul_State \<Rightarrow> ARMword \<Rightarrow> 'io ARMul_State sim" where
  "dp_reg_s op s instr =
     (let (rhs, s) = DPSRegRHS s instr; dest = op (LHS s instr) rhs in Inr (WRITESDEST instr dest s))"

text \<open>The flag-setting additions and subtractions read the left operand first.\<close>

definition adds_reg ::
  "('io ARMul_State \<Rightarrow> ARMword) \<Rightarrow> 'io ARMul_State \<Rightarrow> ARMword \<Rightarrow> 'io ARMul_State sim" where
  "adds_reg c s instr =
     (let lhs = LHS s instr; (rhs, s) = DPRegRHS s instr; dest = lhs + rhs + c s
      in Inr (WRITESDEST instr dest (adds_flags lhs rhs dest s)))"

definition subs_reg ::
  "('io ARMul_State \<Rightarrow> ARMword) \<Rightarrow> 'io ARMul_State \<Rightarrow> ARMword \<Rightarrow> 'io ARMul_State sim" where
  "subs_reg b s instr =
     (let lhs = LHS s instr; (rhs, s) = DPRegRHS s instr; dest = lhs - rhs - b s
      in Inr (WRITESDEST instr dest (subs_flags lhs rhs dest s)))"

definition rsbs_reg ::
  "('io ARMul_State \<Rightarrow> ARMword) \<Rightarrow> 'io ARMul_State \<Rightarrow> ARMword \<Rightarrow> 'io ARMul_State sim" where
  "rsbs_reg b s instr =
     (let lhs = LHS s instr; (rhs, s) = DPRegRHS s instr; dest = rhs - lhs - b s
      in Inr (WRITESDEST instr dest (subs_flags rhs lhs dest s)))"

abbreviation (input) no_carry :: "'io ARMul_State \<Rightarrow> ARMword" where "no_carry \<equiv> (\<lambda>_. 0)"

section \<open>Word multiplications\<close>

definition ARMul_MultTable :: "ARMword list" where
  "ARMul_MultTable = [1, 2, 2, 3, 3, 4, 4, 5, 5, 6, 6, 7, 7, 8, 8, 9, 9,
     10, 10, 11, 11, 12, 12, 13, 13, 14, 14, 15, 15, 16, 16, 16]"

text \<open>The loop that leaves the number of the highest set bit in \<^verbatim>\<open>temp\<close>, and its cycles.\<close>

definition top_bit :: "ARMword \<Rightarrow> nat" where
  "top_bit rhs = foldl (\<lambda>temp dest. if rhs AND push_bit dest 1 \<noteq> 0 then dest else temp) 0 [0..<32]"

definition mult_icycles :: "ARMword \<Rightarrow> 'io ARMul_State \<Rightarrow> 'io ARMul_State" where
  "mult_icycles rhs s = ARMul_Icycles s (ARMul_MultTable ! top_bit rhs)"

definition MULDESTReg :: "ARMword \<Rightarrow> nat" where "MULDESTReg instr = unat (BITS instr 16 19)"
definition MULLHSReg :: "ARMword \<Rightarrow> nat" where "MULLHSReg instr = unat (BITS instr 0 3)"
definition MULRHSReg :: "ARMword \<Rightarrow> nat" where "MULRHSReg instr = unat (BITS instr 8 11)"
definition MULACCReg :: "ARMword \<Rightarrow> nat" where "MULACCReg instr = unat (BITS instr 12 15)"

definition exec_MUL :: "'io ARMul_State \<Rightarrow> ARMword \<Rightarrow> 'io ARMul_State sim" where
  "exec_MUL s instr =
     (let rhs = Reg s (MULRHSReg instr);
          s = (if MULLHSReg instr = MULDESTReg instr then set_reg (MULDESTReg instr) 0 s
               else if MULDESTReg instr \<noteq> 15
               then set_reg (MULDESTReg instr) (Reg s (MULLHSReg instr) * rhs) s else s)
      in Inr (mult_icycles rhs s))"

definition exec_MULS :: "'io ARMul_State \<Rightarrow> ARMword \<Rightarrow> 'io ARMul_State sim" where
  "exec_MULS s instr =
     (let rhs = Reg s (MULRHSReg instr);
          s = (if MULLHSReg instr = MULDESTReg instr
               then (set_reg (MULDESTReg instr) 0 s)\<lparr>NFlag := 0, ZFlag := 1\<rparr>
               else if MULDESTReg instr \<noteq> 15
               then let dest = Reg s (MULLHSReg instr) * rhs
                    in set_reg (MULDESTReg instr) dest (ARMul_NegZero s dest)
               else s)
      in Inr (mult_icycles rhs s))"

definition exec_MLA :: "'io ARMul_State \<Rightarrow> ARMword \<Rightarrow> 'io ARMul_State sim" where
  "exec_MLA s instr =
     (let rhs = Reg s (MULRHSReg instr);
          s = (if MULLHSReg instr = MULDESTReg instr
               then set_reg (MULDESTReg instr) (Reg s (MULACCReg instr)) s
               else if MULDESTReg instr \<noteq> 15
               then set_reg (MULDESTReg instr) (Reg s (MULLHSReg instr) * rhs + Reg s (MULACCReg instr)) s
               else s)
      in Inr (mult_icycles rhs s))"

definition exec_MLAS :: "'io ARMul_State \<Rightarrow> ARMword \<Rightarrow> 'io ARMul_State sim" where
  "exec_MLAS s instr =
     (let rhs = Reg s (MULRHSReg instr);
          s = (if MULLHSReg instr = MULDESTReg instr
               then let dest = Reg s (MULACCReg instr)
                    in set_reg (MULDESTReg instr) dest (ARMul_NegZero s dest)
               else if MULDESTReg instr \<noteq> 15
               then let dest = Reg s (MULLHSReg instr) * rhs + Reg s (MULACCReg instr)
                    in set_reg (MULDESTReg instr) dest (ARMul_NegZero s dest)
               else s)
      in Inr (mult_icycles rhs s))"

definition long_mul :: "ARMword \<times> 'io ARMul_State \<Rightarrow> 'io ARMul_State sim" where
  "long_mul r = Inr (ARMul_Icycles (snd r) (fst r))"

section \<open>Register operands, cases 0x00 to 0x0f\<close>

definition exec_00 :: "'io cpu_env \<Rightarrow> 'io ARMul_State \<Rightarrow> ARMword \<Rightarrow> 'io ARMul_State sim" where
  "exec_00 env s instr =
     (if BITS instr 4 11 = 0xB then SHDOWNWB env s instr
      else if BITS instr 4 7 = 0xD then Handle_Load_Double env s instr
      else if BITS instr 4 7 = 0xF then Handle_Store_Double env s instr
      else if BITS instr 4 7 = 9 then exec_MUL s instr
      else dp_reg (\<lambda>_ lhs rhs. lhs AND rhs) s instr)"

definition exec_01 :: "'io cpu_env \<Rightarrow> 'io ARMul_State \<Rightarrow> ARMword \<Rightarrow> 'io ARMul_State sim" where
  "exec_01 env s instr =
     LH_or (BITS instr 4 11 AND 0xF9 = 9) (LHPOSTDOWN env s instr)
       (if BITS instr 4 7 = 9 then exec_MULS s instr else dp_reg_s (\<lambda>lhs rhs. lhs AND rhs) s instr)"

definition exec_02 :: "'io cpu_env \<Rightarrow> 'io ARMul_State \<Rightarrow> ARMword \<Rightarrow> 'io ARMul_State sim" where
  "exec_02 env s instr =
     (if BITS instr 4 11 = 0xB then SHDOWNWB env s instr
      else if BITS instr 4 7 = 9 then exec_MLA s instr
      else dp_reg (\<lambda>_ lhs rhs. lhs XOR rhs) s instr)"

definition exec_03 :: "'io cpu_env \<Rightarrow> 'io ARMul_State \<Rightarrow> ARMword \<Rightarrow> 'io ARMul_State sim" where
  "exec_03 env s instr =
     LH_or (BITS instr 4 11 AND 0xF9 = 9) (LHPOSTDOWN env s instr)
       (if BITS instr 4 7 = 9 then exec_MLAS s instr else dp_reg_s (\<lambda>lhs rhs. lhs XOR rhs) s instr)"

definition exec_04 :: "'io cpu_env \<Rightarrow> 'io ARMul_State \<Rightarrow> ARMword \<Rightarrow> 'io ARMul_State sim" where
  "exec_04 env s instr =
     (if BITS instr 4 7 = 0xB then SHDOWNWB env s instr
      else if BITS instr 4 7 = 0xD then Handle_Load_Double env s instr
      else if BITS instr 4 7 = 0xF then Handle_Store_Double env s instr
      else dp_reg (\<lambda>_ lhs rhs. lhs - rhs) s instr)"

definition exec_05 :: "'io cpu_env \<Rightarrow> 'io ARMul_State \<Rightarrow> ARMword \<Rightarrow> 'io ARMul_State sim" where
  "exec_05 env s instr =
     LH_or (BITS instr 4 7 AND 9 = 9) (LHPOSTDOWN env s instr) (subs_reg no_carry s instr)"

definition exec_06 :: "'io cpu_env \<Rightarrow> 'io ARMul_State \<Rightarrow> ARMword \<Rightarrow> 'io ARMul_State sim" where
  "exec_06 env s instr =
     (if BITS instr 4 7 = 0xB then SHDOWNWB env s instr else dp_reg (\<lambda>_ lhs rhs. rhs - lhs) s instr)"

definition exec_07 :: "'io cpu_env \<Rightarrow> 'io ARMul_State \<Rightarrow> ARMword \<Rightarrow> 'io ARMul_State sim" where
  "exec_07 env s instr =
     LH_or (BITS instr 4 7 AND 9 = 9) (LHPOSTDOWN env s instr) (rsbs_reg no_carry s instr)"

definition exec_08 :: "'io cpu_env \<Rightarrow> 'io ARMul_State \<Rightarrow> ARMword \<Rightarrow> 'io ARMul_State sim" where
  "exec_08 env s instr =
     (if BITS instr 4 11 = 0xB then SHUPWB env s instr
      else if BITS instr 4 7 = 0xD then Handle_Load_Double env s instr
      else if BITS instr 4 7 = 0xF then Handle_Store_Double env s instr
      else if BITS instr 4 7 = 9 then long_mul (Multiply64 s instr False False)
      else dp_reg (\<lambda>_ lhs rhs. lhs + rhs) s instr)"

definition exec_09 :: "'io cpu_env \<Rightarrow> 'io ARMul_State \<Rightarrow> ARMword \<Rightarrow> 'io ARMul_State sim" where
  "exec_09 env s instr =
     LH_or (BITS instr 4 11 AND 0xF9 = 9) (LHPOSTUP env s instr)
       (if BITS instr 4 7 = 9 then long_mul (Multiply64 s instr False True) else adds_reg no_carry s instr)"

definition exec_0a :: "'io cpu_env \<Rightarrow> 'io ARMul_State \<Rightarrow> ARMword \<Rightarrow> 'io ARMul_State sim" where
  "exec_0a env s instr =
     (if BITS instr 4 11 = 0xB then SHUPWB env s instr
      else if BITS instr 4 7 = 9 then long_mul (MultiplyAdd64 s instr False False)
      else dp_reg (\<lambda>s lhs rhs. lhs + rhs + CFlag s) s instr)"

definition exec_0b :: "'io cpu_env \<Rightarrow> 'io ARMul_State \<Rightarrow> ARMword \<Rightarrow> 'io ARMul_State sim" where
  "exec_0b env s instr =
     LH_or (BITS instr 4 11 AND 0xF9 = 9) (LHPOSTUP env s instr)
       (if BITS instr 4 7 = 9 then long_mul (MultiplyAdd64 s instr False True) else adds_reg CFlag s instr)"

definition exec_0c :: "'io cpu_env \<Rightarrow> 'io ARMul_State \<Rightarrow> ARMword \<Rightarrow> 'io ARMul_State sim" where
  "exec_0c env s instr =
     (if BITS instr 4 7 = 0xB then SHUPWB env s instr
      else if BITS instr 4 7 = 0xD then Handle_Load_Double env s instr
      else if BITS instr 4 7 = 0xF then Handle_Store_Double env s instr
      else if BITS instr 4 7 = 9 then long_mul (Multiply64 s instr True False)
      else dp_reg (\<lambda>s lhs rhs. lhs - rhs - NOTC s) s instr)"

definition exec_0d :: "'io cpu_env \<Rightarrow> 'io ARMul_State \<Rightarrow> ARMword \<Rightarrow> 'io ARMul_State sim" where
  "exec_0d env s instr =
     LH_or (BITS instr 4 7 AND 9 = 9) (LHPOSTUP env s instr)
       (if BITS instr 4 7 = 9 then long_mul (Multiply64 s instr True True) else subs_reg NOTC s instr)"

definition exec_0e :: "'io cpu_env \<Rightarrow> 'io ARMul_State \<Rightarrow> ARMword \<Rightarrow> 'io ARMul_State sim" where
  "exec_0e env s instr =
     (if BITS instr 4 7 = 0xB then SHUPWB env s instr
      else if BITS instr 4 7 = 9 then long_mul (MultiplyAdd64 s instr True False)
      else dp_reg (\<lambda>s lhs rhs. rhs - lhs - NOTC s) s instr)"

definition exec_0f :: "'io cpu_env \<Rightarrow> 'io ARMul_State \<Rightarrow> ARMword \<Rightarrow> 'io ARMul_State sim" where
  "exec_0f env s instr =
     LH_or (BITS instr 4 7 AND 9 = 9) (LHPOSTUP env s instr)
       (if BITS instr 4 7 = 9 then long_mul (MultiplyAdd64 s instr True True) else rsbs_reg NOTC s instr)"

section \<open>Signal processing and saturation\<close>

definition SETS :: "'io ARMul_State \<Rightarrow> 'io ARMul_State" where "SETS s = s\<lparr>SFlag := 1\<rparr>"

text \<open>The signed lower or upper half of an operand.\<close>

definition half_operand :: "bool \<Rightarrow> ARMword \<Rightarrow> ARMword" where
  "half_operand upper w =
     (let w = (if upper then drop_bit 16 w else w) AND 0xFFFF
      in if w AND 0x8000 \<noteq> 0 then w - 65536 else w)"

definition half_operand64 :: "bool \<Rightarrow> ARMdword \<Rightarrow> ARMdword" where
  "half_operand64 upper w =
     (let w = (if upper then drop_bit 16 w else w) AND 0xFFFF
      in if w AND 0x8000 \<noteq> 0 then w - 65536 else w)"

definition exec_SMLA :: "'io ARMul_State \<Rightarrow> ARMword \<Rightarrow> 'io ARMul_State" where
  "exec_SMLA s instr =
     (let op1 = half_operand (BIT instr 5 \<noteq> 0) (Reg s (unat (BITS instr 0 3)));
          op2 = half_operand (BIT instr 6 \<noteq> 0) (Reg s (unat (BITS instr 8 11)));
          Rn = Reg s (unat (BITS instr 12 15)); op1 = op1 * op2;
          s = (if AddOverflow op1 Rn (op1 + Rn) then SETS s else s)
      in set_reg (unat (BITS instr 16 19)) (op1 + Rn) s)"

definition saturate :: "ARMword \<Rightarrow> ARMword" where
  "saturate result = (if POS result \<noteq> 0 then 0x80000000 else 0x7fffffff)"

definition exec_QADD :: "'io ARMul_State \<Rightarrow> ARMword \<Rightarrow> 'io ARMul_State" where
  "exec_QADD s instr =
     (let op1 = Reg s (unat (BITS instr 0 3)); op2 = Reg s (unat (BITS instr 16 19)); result = op1 + op2;
          (result, s) = (if AddOverflow op1 op2 result then (saturate result, SETS s) else (result, s))
      in set_reg (unat (BITS instr 12 15)) result s)"

definition exec_QSUB :: "'io ARMul_State \<Rightarrow> ARMword \<Rightarrow> 'io ARMul_State" where
  "exec_QSUB s instr =
     (let op1 = Reg s (unat (BITS instr 0 3)); op2 = Reg s (unat (BITS instr 16 19)); result = op1 - op2;
          (result, s) = (if SubOverflow op1 op2 result then (saturate result, SETS s) else (result, s))
      in set_reg (unat (BITS instr 12 15)) result s)"

definition exec_QDADD :: "'io ARMul_State \<Rightarrow> ARMword \<Rightarrow> 'io ARMul_State" where
  "exec_QDADD s instr =
     (let op1 = Reg s (unat (BITS instr 0 3)); op2 = Reg s (unat (BITS instr 16 19)); op2d = op2 + op2;
          (op2d, s) = (if AddOverflow op2 op2 op2d then (saturate op2d, SETS s) else (op2d, s));
          result = op1 + op2d;
          (result, s) = (if AddOverflow op1 op2d result then (saturate result, SETS s) else (result, s))
      in set_reg (unat (BITS instr 12 15)) result s)"

definition exec_QDSUB :: "'io ARMul_State \<Rightarrow> ARMword \<Rightarrow> 'io ARMul_State" where
  "exec_QDSUB s instr =
     (let op1 = Reg s (unat (BITS instr 0 3)); op2 = Reg s (unat (BITS instr 16 19)); op2d = op2 + op2;
          (op2d, s) = (if AddOverflow op2 op2 op2d then (saturate op2d, SETS s) else (op2d, s));
          result = op1 - op2d;
          (result, s) = (if SubOverflow op1 op2d result then (saturate result, SETS s) else (result, s))
      in set_reg (unat (BITS instr 12 15)) result s)"

text \<open>The 64-bit products of the code, cut to a register at the end.\<close>

definition exec_SMLAW :: "'io ARMul_State \<Rightarrow> ARMword \<Rightarrow> 'io ARMul_State" where
  "exec_SMLAW s instr =
     (let op1 = (ucast (Reg s (unat (BITS instr 0 3))) :: ARMdword);
          op2 = (ucast (Reg s (unat (BITS instr 8 11))) :: ARMdword);
          op1 = (if op1 AND 0x80000000 \<noteq> 0 then op1 - push_bit 32 1 else op1);
          op2 = half_operand64 (BIT instr 6 \<noteq> 0) op2;
          result = drop_bit 16 (op1 * op2);
          (result, s) =
            (if BIT instr 5 = 0
             then let Rn = Reg s (unat (BITS instr 12 15));
                      total = result + ucast Rn
                  in (total, if AddOverflow (ucast result) Rn (ucast total) then SETS s else s)
             else (result, s))
      in set_reg (unat (BITS instr 16 19)) (ucast result) s)"

definition exec_SMLAL :: "'io ARMul_State \<Rightarrow> ARMword \<Rightarrow> 'io ARMul_State" where
  "exec_SMLAL s instr =
     (let op1 = half_operand64 (BIT instr 5 \<noteq> 0) (ucast (Reg s (unat (BITS instr 0 3))));
          op2 = half_operand64 (BIT instr 6 \<noteq> 0) (ucast (Reg s (unat (BITS instr 8 11))));
          dest = push_bit 32 (ucast (Reg s (unat (BITS instr 16 19)))) OR ucast (Reg s (unat (BITS instr 12 15)));
          dest = dest + op1 * op2
      in set_reg (unat (BITS instr 16 19)) (ucast (drop_bit 32 dest))
           (set_reg (unat (BITS instr 12 15)) (ucast dest) s))"

definition exec_SMUL :: "'io ARMul_State \<Rightarrow> ARMword \<Rightarrow> 'io ARMul_State" where
  "exec_SMUL s instr =
     (let op1 = half_operand (BIT instr 5 \<noteq> 0) (Reg s (unat (BITS instr 0 3)));
          op2 = half_operand (BIT instr 6 \<noteq> 0) (Reg s (unat (BITS instr 8 11)))
      in set_reg (unat (BITS instr 16 19)) (op1 * op2) s)"

text \<open>The loop of the count of leading zeros; on 0 it would run forever.\<close>

partial_function (option) clz_loop :: "ARMword \<Rightarrow> ARMword \<Rightarrow> ARMword option" where
  "clz_loop op1 result =
     (if op1 AND 0x80000000 = 0 then clz_loop (push_bit 1 op1) (result + 1) else Some result)"

definition exec_CLZ :: "'io ARMul_State \<Rightarrow> ARMword \<Rightarrow> 'io ARMul_State sim" where
  "exec_CLZ s instr =
     (let op1 = Reg s (unat (BITS instr 0 3))
      in case (if op1 \<noteq> 0 then clz_loop op1 0 else Some 32) of
           None \<Rightarrow> Inl BusyForever
         | Some result \<Rightarrow> Inr (set_reg (unat (BITS instr 12 15)) result s))"

section \<open>Register operands, cases 0x10 to 0x1f\<close>

definition restore_cpsr :: "'io ARMul_State \<Rightarrow> 'io ARMul_State" where
  "restore_cpsr s = ARMul_CPSRAltered (s\<lparr>Cpsr := ARMul_GetSPSR s (Mode s)\<rparr>)"

text \<open>The swap instructions take a data abort on the signal or the pending abort.\<close>

definition swap_abort :: "'io ARMul_State \<Rightarrow> 'io ARMul_State" where
  "swap_abort s = (if abortSig s \<noteq> 0 \<or> Aborted s \<noteq> 0 then TAKEABORT s else s)"

definition exec_SWP :: "'io cpu_env \<Rightarrow> 'io ARMul_State \<Rightarrow> ARMword \<Rightarrow> 'io ARMul_State sim" where
  "exec_SWP env s instr =
     (let temp = LHS s instr; s = BUSUSEDINCPCS s
      in bind_ok (ARMul_SwapWord env s temp (Reg s (RHSReg instr))) (\<lambda>(dest, s).
           let dest = (if temp AND 3 \<noteq> 0 then ARMul_Align temp dest else dest)
           in Inr (swap_abort (set_reg (DESTReg instr) dest s))))"

definition exec_SWPB :: "'io cpu_env \<Rightarrow> 'io ARMul_State \<Rightarrow> ARMword \<Rightarrow> 'io ARMul_State sim" where
  "exec_SWPB env s instr =
     (let temp = LHS s instr; s = BUSUSEDINCPCS s
      in bind_ok (ARMul_SwapByte env s temp (Reg s (RHSReg instr))) (\<lambda>(dest, s).
           Inr (swap_abort (set_reg (DESTReg instr) dest s))))"

definition test_reg ::
  "(ARMword \<Rightarrow> ARMword \<Rightarrow> ARMword) \<Rightarrow> 'io ARMul_State \<Rightarrow> ARMword \<Rightarrow> 'io ARMul_State sim" where
  "test_reg op s instr =
     (if DESTReg instr = 15 then Inr (restore_cpsr s)
      else let (rhs, s) = DPSRegRHS s instr in Inr (ARMul_NegZero s (op (LHS s instr) rhs)))"

definition BX_bits :: "ARMword \<Rightarrow> bool" where "BX_bits instr = (BITS instr 4 27 = 0x12FFF1)"

text \<open>\<^verbatim>\<open>ARMul_OSHandleSWI (state, SWI_Breakpoint)\<close> stops the simulator and answers true.\<close>

definition OS_Breakpoint :: "'io ARMul_State \<Rightarrow> 'io ARMul_State" where
  "OS_Breakpoint s = s\<lparr>Emulate := STOP\<rparr>"

definition exec_10 :: "'io cpu_env \<Rightarrow> 'io ARMul_State \<Rightarrow> ARMword \<Rightarrow> 'io ARMul_State sim" where
  "exec_10 env s instr =
     (if is_v5e s \<noteq> 0 \<and> BIT instr 4 = 0 \<and> BIT instr 7 = 1 then Inr (exec_SMLA s instr)
      else if is_v5e s \<noteq> 0 \<and> BITS instr 4 11 = 5 then Inr (exec_QADD s instr)
      else if BITS instr 4 11 = 0xB then SHPREDOWN env s instr
      else if BITS instr 4 7 = 0xD then Handle_Load_Double env s instr
      else if BITS instr 4 7 = 0xF then Handle_Store_Double env s instr
      else if BITS instr 4 11 = 9 then exec_SWP env s instr
      else if BITS instr 0 11 = 0 \<and> LHSReg instr = 15
      then Inr (set_reg (DESTReg instr) (ECC s OR EINT s OR Mode s) s)
      else Inr s)"

definition exec_11 :: "'io cpu_env \<Rightarrow> 'io ARMul_State \<Rightarrow> ARMword \<Rightarrow> 'io ARMul_State sim" where
  "exec_11 env s instr =
     LH_or (BITS instr 4 11 AND 0xF9 = 9) (LHPREDOWN env s instr) (test_reg (\<lambda>lhs rhs. lhs AND rhs) s instr)"

text \<open>The breakpoint instruction: \<^verbatim>\<open>SWI_vector_installed\<close> is a variable that nothing sets, so that its guard always passes.\<close>

definition exec_12 :: "'io cpu_env \<Rightarrow> ARMword \<Rightarrow> 'io ARMul_State \<Rightarrow> ARMword \<Rightarrow> 'io ARMul_State sim" where
  "exec_12 env pc s instr =
     (if is_v5 s \<noteq> 0 \<and> BITS instr 4 7 = 3
      then let temp = (if TFlag s \<noteq> 0 then (pc + 2) OR 1 else pc + 4)
           in Inr (set_reg 14 temp (WriteR15Branch s (Reg s (RHSReg instr))))
      else if is_v5e s \<noteq> 0 \<and> BIT instr 4 = 0 \<and> BIT instr 7 = 1 \<and> (BIT instr 5 = 0 \<or> BITS instr 12 15 = 0)
      then Inr (exec_SMLAW s instr)
      else if is_v5e s \<noteq> 0 \<and> BITS instr 4 11 = 5 then Inr (exec_QSUB s instr)
      else if BITS instr 4 11 = 0xB then SHPREDOWNWB env s instr
      else if BX_bits instr then Inr (WriteR15Branch s (Reg s (RHSReg instr)))
      else if BITS instr 4 7 = 0xD then Handle_Load_Double env s instr
      else if BITS instr 4 7 = 0xF then Handle_Store_Double env s instr
      else if is_v5 s \<noteq> 0 \<and> BITS instr 4 7 = 7 then Inr ((OS_Breakpoint s)\<lparr>NextInstr := RESUME\<rparr>)
      else if DESTReg instr = 15
      then let (temp, s) = DPRegRHS s instr in Inr (ARMul_FixCPSR s instr (temp AND NOT TBIT))
      else Inr s)"

definition exec_13 :: "'io cpu_env \<Rightarrow> 'io ARMul_State \<Rightarrow> ARMword \<Rightarrow> 'io ARMul_State sim" where
  "exec_13 env s instr =
     LH_or (BITS instr 4 11 AND 0xF9 = 9) (LHPREDOWNWB env s instr) (test_reg (\<lambda>lhs rhs. lhs XOR rhs) s instr)"

definition exec_14 :: "'io cpu_env \<Rightarrow> 'io ARMul_State \<Rightarrow> ARMword \<Rightarrow> 'io ARMul_State sim" where
  "exec_14 env s instr =
     (if is_v5e s \<noteq> 0 \<and> BIT instr 4 = 0 \<and> BIT instr 7 = 1 then Inr (exec_SMLAL s instr)
      else if is_v5e s \<noteq> 0 \<and> BITS instr 4 11 = 5 then Inr (exec_QDADD s instr)
      else if BITS instr 4 7 = 0xB then SHPREDOWN env s instr
      else if BITS instr 4 7 = 0xD then Handle_Load_Double env s instr
      else if BITS instr 4 7 = 0xF then Handle_Store_Double env s instr
      else if BITS instr 4 11 = 9 then exec_SWPB env s instr
      else if BITS instr 0 11 = 0 \<and> LHSReg instr = 15
      then Inr (set_reg (DESTReg instr) (ARMul_GetSPSR s (Mode s)) s)
      else Inr s)"

text \<open>The comparisons set N and Z before the carry and the overflow.\<close>

definition compare :: "ARMword \<Rightarrow> ARMword \<Rightarrow> 'io ARMul_State \<Rightarrow> 'io ARMul_State" where
  "compare lhs rhs s = (let dest = lhs - rhs in subs_flags lhs rhs dest (ARMul_NegZero s dest))"

definition compare_neg :: "ARMword \<Rightarrow> ARMword \<Rightarrow> 'io ARMul_State \<Rightarrow> 'io ARMul_State" where
  "compare_neg lhs rhs s = adds_flags lhs rhs (lhs + rhs) s"

definition compare_reg ::
  "(ARMword \<Rightarrow> ARMword \<Rightarrow> 'io ARMul_State \<Rightarrow> 'io ARMul_State) \<Rightarrow> 'io ARMul_State \<Rightarrow> ARMword
     \<Rightarrow> 'io ARMul_State sim" where
  "compare_reg cmp s instr =
     (if DESTReg instr = 15 then Inr (restore_cpsr s)
      else let lhs = LHS s instr; (rhs, s) = DPRegRHS s instr in Inr (cmp lhs rhs s))"

definition exec_15 :: "'io cpu_env \<Rightarrow> 'io ARMul_State \<Rightarrow> ARMword \<Rightarrow> 'io ARMul_State sim" where
  "exec_15 env s instr =
     LH_or (BITS instr 4 7 AND 9 = 9) (LHPREDOWN env s instr) (compare_reg compare s instr)"

definition exec_16 :: "'io cpu_env \<Rightarrow> 'io ARMul_State \<Rightarrow> ARMword \<Rightarrow> 'io ARMul_State sim" where
  "exec_16 env s instr =
     (if is_v5e s \<noteq> 0 \<and> BIT instr 4 = 0 \<and> BIT instr 7 = 1 \<and> BITS instr 12 15 = 0
      then Inr (exec_SMUL s instr)
      else if is_v5e s \<noteq> 0 \<and> BITS instr 4 11 = 5 then Inr (exec_QDSUB s instr)
      else if is_v5 s \<noteq> 0 \<and> BITS instr 4 11 = 0xF1 \<and> BITS instr 16 19 = 0xF then exec_CLZ s instr
      else if BITS instr 4 7 = 0xB then SHPREDOWNWB env s instr
      else if BITS instr 4 7 = 0xD then Handle_Load_Double env s instr
      else if BITS instr 4 7 = 0xF then Handle_Store_Double env s instr
      else if DESTReg instr = 15
      then let (temp, s) = DPRegRHS s instr in Inr (ARMul_FixSPSR s instr temp)
      else Inr s)"

definition exec_17 :: "'io cpu_env \<Rightarrow> 'io ARMul_State \<Rightarrow> ARMword \<Rightarrow> 'io ARMul_State sim" where
  "exec_17 env s instr =
     LH_or (BITS instr 4 7 AND 9 = 9) (LHPREDOWNWB env s instr) (compare_reg compare_neg s instr)"

definition exec_18 :: "'io cpu_env \<Rightarrow> 'io ARMul_State \<Rightarrow> ARMword \<Rightarrow> 'io ARMul_State sim" where
  "exec_18 env s instr =
     (if BITS instr 4 11 = 0xB then SHPREUP env s instr
      else if BITS instr 4 7 = 0xD then Handle_Load_Double env s instr
      else if BITS instr 4 7 = 0xF then Handle_Store_Double env s instr
      else dp_reg (\<lambda>_ lhs rhs. lhs OR rhs) s instr)"

definition exec_19 :: "'io cpu_env \<Rightarrow> 'io ARMul_State \<Rightarrow> ARMword \<Rightarrow> 'io ARMul_State sim" where
  "exec_19 env s instr =
     LH_or (BITS instr 4 11 AND 0xF9 = 9) (LHPREUP env s instr) (dp_reg_s (\<lambda>lhs rhs. lhs OR rhs) s instr)"

definition exec_1a :: "'io cpu_env \<Rightarrow> 'io ARMul_State \<Rightarrow> ARMword \<Rightarrow> 'io ARMul_State sim" where
  "exec_1a env s instr =
     (if BITS instr 4 11 = 0xB then SHPREUPWB env s instr
      else if BITS instr 4 7 = 0xD then Handle_Load_Double env s instr
      else if BITS instr 4 7 = 0xF then Handle_Store_Double env s instr
      else dp_reg (\<lambda>_ _ rhs. rhs) s instr)"

definition exec_1b :: "'io cpu_env \<Rightarrow> 'io ARMul_State \<Rightarrow> ARMword \<Rightarrow> 'io ARMul_State sim" where
  "exec_1b env s instr =
     LH_or (BITS instr 4 11 AND 0xF9 = 9) (LHPREUPWB env s instr) (dp_reg_s (\<lambda>_ rhs. rhs) s instr)"

definition exec_1c :: "'io cpu_env \<Rightarrow> 'io ARMul_State \<Rightarrow> ARMword \<Rightarrow> 'io ARMul_State sim" where
  "exec_1c env s instr =
     (if BITS instr 4 7 = 0xB then SHPREUP env s instr
      else if BITS instr 4 7 = 0xD then Handle_Load_Double env s instr
      else if BITS instr 4 7 = 0xF then Handle_Store_Double env s instr
      else dp_reg (\<lambda>_ lhs rhs. lhs AND NOT rhs) s instr)"

definition exec_1d :: "'io cpu_env \<Rightarrow> 'io ARMul_State \<Rightarrow> ARMword \<Rightarrow> 'io ARMul_State sim" where
  "exec_1d env s instr =
     LH_or (BITS instr 4 7 AND 9 = 9) (LHPREUP env s instr) (dp_reg_s (\<lambda>lhs rhs. lhs AND NOT rhs) s instr)"

definition exec_1e :: "'io cpu_env \<Rightarrow> 'io ARMul_State \<Rightarrow> ARMword \<Rightarrow> 'io ARMul_State sim" where
  "exec_1e env s instr =
     (if BITS instr 4 7 = 0xB then SHPREUPWB env s instr
      else if BITS instr 4 7 = 0xD then Handle_Load_Double env s instr
      else if BITS instr 4 7 = 0xF then Handle_Store_Double env s instr
      else dp_reg (\<lambda>_ _ rhs. NOT rhs) s instr)"

definition exec_1f :: "'io cpu_env \<Rightarrow> 'io ARMul_State \<Rightarrow> ARMword \<Rightarrow> 'io ARMul_State sim" where
  "exec_1f env s instr =
     LH_or (BITS instr 4 7 AND 9 = 9) (LHPREUPWB env s instr) (dp_reg_s (\<lambda>_ rhs. NOT rhs) s instr)"

section \<open>Immediate operands, cases 0x20 to 0x3f\<close>

definition dp_imm ::
  "('io ARMul_State \<Rightarrow> ARMword \<Rightarrow> ARMword \<Rightarrow> ARMword) \<Rightarrow> 'io ARMul_State \<Rightarrow> ARMword \<Rightarrow> 'io ARMul_State sim" where
  "dp_imm op s instr = Inr (WRITEDEST instr (op s (LHS s instr) (DPImmRHS instr)) s)"

definition dp_imm_s ::
  "(ARMword \<Rightarrow> ARMword \<Rightarrow> ARMword) \<Rightarrow> 'io ARMul_State \<Rightarrow> ARMword \<Rightarrow> 'io ARMul_State sim" where
  "dp_imm_s op s instr =
     (let (rhs, s) = DPSImmRHS s instr in Inr (WRITESDEST instr (op (LHS s instr) rhs) s))"

definition adds_imm ::
  "('io ARMul_State \<Rightarrow> ARMword) \<Rightarrow> 'io ARMul_State \<Rightarrow> ARMword \<Rightarrow> 'io ARMul_State sim" where
  "adds_imm c s instr =
     (let lhs = LHS s instr; rhs = DPImmRHS instr; dest = lhs + rhs + c s
      in Inr (WRITESDEST instr dest (adds_flags lhs rhs dest s)))"

definition subs_imm ::
  "('io ARMul_State \<Rightarrow> ARMword) \<Rightarrow> 'io ARMul_State \<Rightarrow> ARMword \<Rightarrow> 'io ARMul_State sim" where
  "subs_imm b s instr =
     (let lhs = LHS s instr; rhs = DPImmRHS instr; dest = lhs - rhs - b s
      in Inr (WRITESDEST instr dest (subs_flags lhs rhs dest s)))"

definition rsbs_imm ::
  "('io ARMul_State \<Rightarrow> ARMword) \<Rightarrow> 'io ARMul_State \<Rightarrow> ARMword \<Rightarrow> 'io ARMul_State sim" where
  "rsbs_imm b s instr =
     (let lhs = LHS s instr; rhs = DPImmRHS instr; dest = rhs - lhs - b s
      in Inr (WRITESDEST instr dest (subs_flags rhs lhs dest s)))"

definition test_imm ::
  "(ARMword \<Rightarrow> ARMword \<Rightarrow> ARMword) \<Rightarrow> 'io ARMul_State \<Rightarrow> ARMword \<Rightarrow> 'io ARMul_State sim" where
  "test_imm op s instr =
     (if DESTReg instr = 15 then Inr (restore_cpsr s)
      else let (rhs, s) = DPSImmRHS s instr in Inr (ARMul_NegZero s (op (LHS s instr) rhs)))"

definition compare_imm ::
  "(ARMword \<Rightarrow> ARMword \<Rightarrow> 'io ARMul_State \<Rightarrow> 'io ARMul_State) \<Rightarrow> 'io ARMul_State \<Rightarrow> ARMword
     \<Rightarrow> 'io ARMul_State sim" where
  "compare_imm cmp s instr =
     (if DESTReg instr = 15 then Inr (restore_cpsr s) else Inr (cmp (LHS s instr) (DPImmRHS instr) s))"

definition exec_20 :: "'io ARMul_State \<Rightarrow> ARMword \<Rightarrow> 'io ARMul_State sim" where
  "exec_20 s instr = dp_imm (\<lambda>_ lhs rhs. lhs AND rhs) s instr"

definition exec_21 :: "'io ARMul_State \<Rightarrow> ARMword \<Rightarrow> 'io ARMul_State sim" where
  "exec_21 s instr = dp_imm_s (\<lambda>lhs rhs. lhs AND rhs) s instr"

definition exec_22 :: "'io ARMul_State \<Rightarrow> ARMword \<Rightarrow> 'io ARMul_State sim" where
  "exec_22 s instr = dp_imm (\<lambda>_ lhs rhs. lhs XOR rhs) s instr"

definition exec_23 :: "'io ARMul_State \<Rightarrow> ARMword \<Rightarrow> 'io ARMul_State sim" where
  "exec_23 s instr = dp_imm_s (\<lambda>lhs rhs. lhs XOR rhs) s instr"

definition exec_24 :: "'io ARMul_State \<Rightarrow> ARMword \<Rightarrow> 'io ARMul_State sim" where
  "exec_24 s instr = dp_imm (\<lambda>_ lhs rhs. lhs - rhs) s instr"

definition exec_25 :: "'io ARMul_State \<Rightarrow> ARMword \<Rightarrow> 'io ARMul_State sim" where
  "exec_25 s instr = subs_imm no_carry s instr"

definition exec_26 :: "'io ARMul_State \<Rightarrow> ARMword \<Rightarrow> 'io ARMul_State sim" where
  "exec_26 s instr = dp_imm (\<lambda>_ lhs rhs. rhs - lhs) s instr"

definition exec_27 :: "'io ARMul_State \<Rightarrow> ARMword \<Rightarrow> 'io ARMul_State sim" where
  "exec_27 s instr = rsbs_imm no_carry s instr"

definition exec_28 :: "'io ARMul_State \<Rightarrow> ARMword \<Rightarrow> 'io ARMul_State sim" where
  "exec_28 s instr = dp_imm (\<lambda>_ lhs rhs. lhs + rhs) s instr"

definition exec_29 :: "'io ARMul_State \<Rightarrow> ARMword \<Rightarrow> 'io ARMul_State sim" where
  "exec_29 s instr = adds_imm no_carry s instr"

definition exec_2a :: "'io ARMul_State \<Rightarrow> ARMword \<Rightarrow> 'io ARMul_State sim" where
  "exec_2a s instr = dp_imm (\<lambda>s lhs rhs. lhs + rhs + CFlag s) s instr"

definition exec_2b :: "'io ARMul_State \<Rightarrow> ARMword \<Rightarrow> 'io ARMul_State sim" where
  "exec_2b s instr = adds_imm CFlag s instr"

definition exec_2c :: "'io ARMul_State \<Rightarrow> ARMword \<Rightarrow> 'io ARMul_State sim" where
  "exec_2c s instr = dp_imm (\<lambda>s lhs rhs. lhs - rhs - NOTC s) s instr"

definition exec_2d :: "'io ARMul_State \<Rightarrow> ARMword \<Rightarrow> 'io ARMul_State sim" where
  "exec_2d s instr = subs_imm NOTC s instr"

definition exec_2e :: "'io ARMul_State \<Rightarrow> ARMword \<Rightarrow> 'io ARMul_State sim" where
  "exec_2e s instr = dp_imm (\<lambda>s lhs rhs. rhs - lhs - NOTC s) s instr"

definition exec_2f :: "'io ARMul_State \<Rightarrow> ARMword \<Rightarrow> 'io ARMul_State sim" where
  "exec_2f s instr = rsbs_imm NOTC s instr"

definition exec_31 :: "'io ARMul_State \<Rightarrow> ARMword \<Rightarrow> 'io ARMul_State sim" where
  "exec_31 s instr = test_imm (\<lambda>lhs rhs. lhs AND rhs) s instr"

definition exec_32 :: "'io ARMul_State \<Rightarrow> ARMword \<Rightarrow> 'io ARMul_State sim" where
  "exec_32 s instr = Inr (if DESTReg instr = 15 then ARMul_FixCPSR s instr (DPImmRHS instr) else s)"

definition exec_33 :: "'io ARMul_State \<Rightarrow> ARMword \<Rightarrow> 'io ARMul_State sim" where
  "exec_33 s instr = test_imm (\<lambda>lhs rhs. lhs XOR rhs) s instr"

definition exec_35 :: "'io ARMul_State \<Rightarrow> ARMword \<Rightarrow> 'io ARMul_State sim" where
  "exec_35 s instr = compare_imm compare s instr"

definition exec_36 :: "'io ARMul_State \<Rightarrow> ARMword \<Rightarrow> 'io ARMul_State sim" where
  "exec_36 s instr = Inr (if DESTReg instr = 15 then ARMul_FixSPSR s instr (DPImmRHS instr) else s)"

definition exec_37 :: "'io ARMul_State \<Rightarrow> ARMword \<Rightarrow> 'io ARMul_State sim" where
  "exec_37 s instr = compare_imm compare_neg s instr"

definition exec_38 :: "'io ARMul_State \<Rightarrow> ARMword \<Rightarrow> 'io ARMul_State sim" where
  "exec_38 s instr = dp_imm (\<lambda>_ lhs rhs. lhs OR rhs) s instr"

definition exec_39 :: "'io ARMul_State \<Rightarrow> ARMword \<Rightarrow> 'io ARMul_State sim" where
  "exec_39 s instr = dp_imm_s (\<lambda>lhs rhs. lhs OR rhs) s instr"

definition exec_3a :: "'io ARMul_State \<Rightarrow> ARMword \<Rightarrow> 'io ARMul_State sim" where
  "exec_3a s instr = dp_imm (\<lambda>_ _ rhs. rhs) s instr"

definition exec_3b :: "'io ARMul_State \<Rightarrow> ARMword \<Rightarrow> 'io ARMul_State sim" where
  "exec_3b s instr = dp_imm_s (\<lambda>_ rhs. rhs) s instr"

definition exec_3c :: "'io ARMul_State \<Rightarrow> ARMword \<Rightarrow> 'io ARMul_State sim" where
  "exec_3c s instr = dp_imm (\<lambda>_ lhs rhs. lhs AND NOT rhs) s instr"

definition exec_3d :: "'io ARMul_State \<Rightarrow> ARMword \<Rightarrow> 'io ARMul_State sim" where
  "exec_3d s instr = dp_imm_s (\<lambda>lhs rhs. lhs AND NOT rhs) s instr"

definition exec_3e :: "'io ARMul_State \<Rightarrow> ARMword \<Rightarrow> 'io ARMul_State sim" where
  "exec_3e s instr = dp_imm (\<lambda>_ _ rhs. NOT rhs) s instr"

definition exec_3f :: "'io ARMul_State \<Rightarrow> ARMword \<Rightarrow> 'io ARMul_State sim" where
  "exec_3f s instr = dp_imm_s (\<lambda>_ rhs. NOT rhs) s instr"

section \<open>Condition codes\<close>

text \<open>The switch on the condition field; \<^verbatim>\<open>NV\<close> has effects of its own and is not part of it.\<close>

definition cond_pass :: "ARMword \<Rightarrow> 'io ARMul_State \<Rightarrow> bool" where
  "cond_pass cc s =
     (let n = NFlag s \<noteq> 0; z = ZFlag s \<noteq> 0; c = CFlag s \<noteq> 0; v = VFlag s \<noteq> 0
      in if cc = 0 then z else if cc = 1 then \<not> z
         else if cc = 2 then c else if cc = 3 then \<not> c
         else if cc = 4 then n else if cc = 5 then \<not> n
         else if cc = 6 then v else if cc = 7 then \<not> v
         else if cc = 8 then c \<and> \<not> z else if cc = 9 then \<not> c \<or> z
         else if cc = 10 then (\<not> n \<and> \<not> v) \<or> (n \<and> v)
         else if cc = 11 then (n \<and> \<not> v) \<or> (\<not> n \<and> v)
         else if cc = 12 then (\<not> n \<and> \<not> v \<and> \<not> z) \<or> (n \<and> v \<and> \<not> z)
         else if cc = 13 then (n \<and> \<not> v) \<or> (\<not> n \<and> v) \<or> z
         else cc = 14)"

section \<open>The flags of additions and subtractions\<close>

definition out_of_range :: "int \<Rightarrow> bool" where
  "out_of_range n \<longleftrightarrow> n < - (2 ^ 31) \<or> 2 ^ 31 \<le> n"

lemma drop_bit_uint_less:
  fixes w :: ARMword
  assumes "drop_bit k w = 0" "k < 32"
  shows "uint w < 2 ^ k"
proof -
  have "uint w div 2 ^ k = 0"
    using assms uint_bounds32 [of w] arg_cong [OF assms(1), of uint]
    unfolding unsigned_drop_bit_eq by (simp add: drop_bit_eq_div take_bit_int_eq_self)
  then have "uint w = uint w mod 2 ^ k" using div_mult_mod_eq [of "uint w" "2 ^ k"] by simp
  also have "\<dots> < 2 ^ k" by (rule pos_mod_bound) simp
  finally show ?thesis .
qed

lemma flag_frames [simp]:
  "NFlag (ARMul_AddCarry s a b d) = NFlag s" "ZFlag (ARMul_AddCarry s a b d) = ZFlag s"
  "NFlag (ARMul_AddOverflow s a b d) = NFlag s" "ZFlag (ARMul_AddOverflow s a b d) = ZFlag s"
  "CFlag (ARMul_AddOverflow s a b d) = CFlag s"
  "NFlag (ARMul_SubCarry s a b d) = NFlag s" "ZFlag (ARMul_SubCarry s a b d) = ZFlag s"
  "NFlag (ARMul_SubOverflow s a b d) = NFlag s" "ZFlag (ARMul_SubOverflow s a b d) = ZFlag s"
  "CFlag (ARMul_SubOverflow s a b d) = CFlag s"
  "Reg (ARMul_AddCarry s a b d) = Reg s" "Reg (ARMul_AddOverflow s a b d) = Reg s"
  "Reg (ARMul_SubCarry s a b d) = Reg s" "Reg (ARMul_SubOverflow s a b d) = Reg s"
  by (simp_all add: ARMul_AddCarry_def ARMul_AddOverflow_def ARMul_SubCarry_def ARMul_SubOverflow_def)

lemma NegZero_flags [simp]:
  "NFlag (ARMul_NegZero s d) = of_bool (bit d 31)" "ZFlag (ARMul_NegZero s d) = of_bool (d = 0)"
  "CFlag (ARMul_NegZero s d) = CFlag s" "VFlag (ARMul_NegZero s d) = VFlag s" "Reg (ARMul_NegZero s d) = Reg s"
  by (auto simp: ARMul_NegZero_def NEG_of_bool)

lemma adds_flags_spec:
  assumes "c \<le> 1"
  shows "NFlag (adds_flags a b (a + b + c) s) = of_bool (bit (a + b + c) 31)"
    "ZFlag (adds_flags a b (a + b + c) s) = of_bool (a + b + c = 0)"
    "CFlag (adds_flags a b (a + b + c) s) = of_bool (2 ^ 32 \<le> uint a + uint b + uint c)"
    "VFlag (adds_flags a b (a + b + c) s) = of_bool (out_of_range (sint a + sint b + uint c))"
    "Reg (adds_flags a b (a + b + c) s) = Reg s"
proof -
  obtain A B C where eqs: "uint a = A" "uint b = B" "uint c = C"
      "uint (a + b + c) = (if A + B + C < 2 ^ 32 then A + B + C else A + B + C - 2 ^ 32)"
    and rng: "0 \<le> A" "A < 2 ^ 32" "0 \<le> B" "B < 2 ^ 32" "0 \<le> C" "C \<le> 1"
    by (rule carry_operands [OF assms, of a b])
  have small: "A < 2 ^ 30 \<and> B < 2 ^ 30" if "drop_bit 30 (a OR b) = 0"
  proof -
    have "drop_bit 30 a = 0" "drop_bit 30 b = 0" using that by (simp_all add: drop_bit_or or_eq_0_iff)
    then show ?thesis using drop_bit_uint_less [of 30 a] drop_bit_uint_less [of 30 b] eqs by simp
  qed
  have neg: "bit (a + b + c) 31 \<longleftrightarrow> 2 ^ 31 \<le> uint (a + b + c)" by (rule bit31_uint)
  note cf = carry_flags [OF assms]
  show "NFlag (adds_flags a b (a + b + c) s) = of_bool (bit (a + b + c) 31)"
    unfolding neg eqs(4) using small rng by (auto simp: adds_flags_def Let_def NEG_of_bool neg eqs(4))
  show "ZFlag (adds_flags a b (a + b + c) s) = of_bool (a + b + c = 0)"
    by (simp add: adds_flags_def Let_def)
  show "CFlag (adds_flags a b (a + b + c) s) = of_bool (2 ^ 32 \<le> uint a + uint b + uint c)"
  proof (cases "drop_bit 30 (a OR b) = 0")
    case True
    then show ?thesis using small [OF True] rng by (simp add: adds_flags_def Let_def eqs)
  qed (simp add: adds_flags_def Let_def cf)
  show "VFlag (adds_flags a b (a + b + c) s) = of_bool (out_of_range (sint a + sint b + uint c))"
  proof (cases "drop_bit 30 (a OR b) = 0")
    case True
    then show ?thesis using small [OF True] rng
      by (simp add: adds_flags_def Let_def out_of_range_def sint_uint32 eqs)
  qed (simp add: adds_flags_def Let_def out_of_range_def cf)
  show "Reg (adds_flags a b (a + b + c) s) = Reg s"
    by (simp add: adds_flags_def Let_def)
qed

lemma subs_flags_spec:
  assumes "c \<le> 1"
  shows "NFlag (subs_flags a b (a - b - c) s) = NFlag s" "ZFlag (subs_flags a b (a - b - c) s) = ZFlag s"
    "CFlag (subs_flags a b (a - b - c) s) = of_bool (0 \<le> uint a - uint b - uint c)"
    "VFlag (subs_flags a b (a - b - c) s) = of_bool (out_of_range (sint a - sint b - uint c))"
    "Reg (subs_flags a b (a - b - c) s) = Reg s"
proof -
  obtain A B C where eqs: "uint a = A" "uint b = B" "uint c = C"
    and rng: "0 \<le> A" "A < 2 ^ 32" "0 \<le> B" "B < 2 ^ 32" "0 \<le> C" "C \<le> 1"
    by (rule carry_operands [OF assms, of a b])
  have small: "A < 2 ^ 31 \<and> B < 2 ^ 31" if "drop_bit 31 (b OR a) = 0"
  proof -
    have "drop_bit 31 a = 0" "drop_bit 31 b = 0" using that by (simp_all add: drop_bit_or or_eq_0_iff)
    then show ?thesis using drop_bit_uint_less [of 31 a] drop_bit_uint_less [of 31 b] eqs by simp
  qed
  have le: "b \<le> a \<longleftrightarrow> B \<le> A" by (simp add: word_le_def eqs)
  note cf = carry_flags [OF assms]
  show "NFlag (subs_flags a b (a - b - c) s) = NFlag s" "ZFlag (subs_flags a b (a - b - c) s) = ZFlag s"
    "Reg (subs_flags a b (a - b - c) s) = Reg s"
    by (simp_all add: subs_flags_def)
  have "CFlag (subs_flags a b (a - b - c) s) = of_bool (uint b + uint c \<le> uint a)"
  proof (cases "b \<le> a \<or> drop_bit 31 (b OR a) \<noteq> 0")
    case False
    then show ?thesis using small rng by (simp add: subs_flags_def eqs le)
  qed (simp add: subs_flags_def cf)
  moreover have "uint b + uint c \<le> uint a \<longleftrightarrow> 0 \<le> uint a - uint b - uint c" by linarith
  ultimately show "CFlag (subs_flags a b (a - b - c) s) = of_bool (0 \<le> uint a - uint b - uint c)" by simp
  show "VFlag (subs_flags a b (a - b - c) s) = of_bool (out_of_range (sint a - sint b - uint c))"
  proof (cases "b \<le> a \<or> drop_bit 31 (b OR a) \<noteq> 0")
    case False
    then show ?thesis using small rng by (simp add: subs_flags_def out_of_range_def sint_uint32 eqs le)
  qed (simp add: subs_flags_def out_of_range_def cf)
qed

text \<open>
  The results of the arithmetic instructions: the value written, the exact unsigned value that decides the
  carry, and the exact signed value that decides the overflow. The carry of a subtraction is the absence of a
  borrow.
\<close>

datatype arith = Sum | Diff | RevDiff

fun arith_result :: "arith \<Rightarrow> ARMword \<Rightarrow> ARMword \<Rightarrow> ARMword \<Rightarrow> ARMword" where
  "arith_result Sum a b c = a + b + c"
| "arith_result Diff a b c = a - b - c"
| "arith_result RevDiff a b c = b - a - c"

fun arith_exact :: "arith \<Rightarrow> int \<Rightarrow> int \<Rightarrow> int \<Rightarrow> int" where
  "arith_exact Sum a b c = a + b + c"
| "arith_exact Diff a b c = a - b - c"
| "arith_exact RevDiff a b c = b - a - c"

fun arith_carry :: "arith \<Rightarrow> int \<Rightarrow> bool" where
  "arith_carry Sum n \<longleftrightarrow> 2 ^ 32 \<le> n"
| "arith_carry _ n \<longleftrightarrow> 0 \<le> n"

text \<open>The destination is \<open>None\<close> for a comparison, which writes no register.\<close>

definition arith_spec ::
  "arith \<Rightarrow> ARMword \<Rightarrow> ARMword \<Rightarrow> ARMword \<Rightarrow> nat option \<Rightarrow> 'io ARMul_State \<Rightarrow> 'io ARMul_State \<Rightarrow> bool" where
  "arith_spec k a b c dest s t \<longleftrightarrow>
     Reg t = (case dest of Some rd \<Rightarrow> (Reg s)(rd := arith_result k a b c) | None \<Rightarrow> Reg s)
     \<and> NFlag t = of_bool (sint (arith_result k a b c) < 0) \<and> ZFlag t = of_bool (arith_result k a b c = 0)
     \<and> CFlag t = of_bool (arith_carry k (arith_exact k (uint a) (uint b) (uint c)))
     \<and> VFlag t = of_bool (out_of_range (arith_exact k (sint a) (sint b) (uint c)))"

lemma adds_spec:
  "c \<le> 1 \<Longrightarrow> DESTReg instr \<noteq> 15 \<Longrightarrow>
    arith_spec Sum a b c (Some (DESTReg instr)) s (WRITESDEST instr (a + b + c) (adds_flags a b (a + b + c) s))"
  by (simp add: arith_spec_def WRITESDEST_def set_reg_def adds_flags_spec bit31_sint)

lemma subs_spec:
  "c \<le> 1 \<Longrightarrow> DESTReg instr \<noteq> 15 \<Longrightarrow>
    arith_spec Diff a b c (Some (DESTReg instr)) s (WRITESDEST instr (a - b - c) (subs_flags a b (a - b - c) s))"
  by (simp add: arith_spec_def WRITESDEST_def set_reg_def subs_flags_spec bit31_sint)

lemma rsbs_spec:
  "c \<le> 1 \<Longrightarrow> DESTReg instr \<noteq> 15 \<Longrightarrow>
    arith_spec RevDiff a b c (Some (DESTReg instr)) s (WRITESDEST instr (b - a - c) (subs_flags b a (b - a - c) s))"
  by (simp add: arith_spec_def WRITESDEST_def set_reg_def subs_flags_spec bit31_sint)

lemma compare_specs:
  "arith_spec Diff a b 0 None s (compare a b s)" "arith_spec Sum a b 0 None s (compare_neg a b s)"
  by (simp_all add: arith_spec_def compare_def compare_neg_def Let_def bit31_sint subs_flags_spec [of 0 a b, simplified]
      adds_flags_spec [of 0 a b, simplified])

lemma LH_guard:
  assumes "\<not> (bit instr 4 \<and> bit instr 7)"
  shows "BITS instr 4 11 AND 0xF9 \<noteq> 9" "BITS instr 4 7 AND 9 \<noteq> 9" "BITS instr 4 7 \<noteq> 9"
proof -
  have b: "bit (BITS instr 4 11) 0 = bit instr 4" "bit (BITS instr 4 11) 3 = bit instr 7"
    "bit (BITS instr 4 7) 0 = bit instr 4" "bit (BITS instr 4 7) 3 = bit instr 7" by (simp_all add: bit_BITS)
  have n: "bit (9 :: ARMword) 0" "bit (9 :: ARMword) 3" by simp_all
  show "BITS instr 4 11 AND 0xF9 \<noteq> 9" "BITS instr 4 7 AND 9 \<noteq> 9" "BITS instr 4 7 \<noteq> 9"
    using assms b n by (metis bit_and_iff)+
qed

lemma DPRegRHS_flags [simp]: "CFlag (snd (DPRegRHS s instr)) = CFlag s"
  by (simp add: DPRegRHS_def GetDPRegRHS_def Let_def INCPC_def set_reg_def)

text \<open>
  C4: the arithmetic instructions. For the eight operations ADDS, SUBS, RSBS, ADCS, SBCS, RSCS, CMP and CMN, each with an
  immediate and with a register operand, and a destination field other than the PC: the first six put the sum or
  difference modulo 2 to the 32 into the destination, the two comparisons write no register, and N, Z, C and V are the
  sign of the result, whether it is 0, the carry out of the unsigned sum or the absence of a borrow, and whether the exact
  signed value does not fit. The short cut the code takes for small operands never gives another answer. The
  register forms with bits 4 and 7 both set are other instructions.
\<close>

theorem arithmetic_correct:
  assumes "DESTReg instr \<noteq> 15" "CFlag s \<le> 1"
    "(f, g, k, c, dest) \<in> set [(exec_25, exec_05 env, Diff, 0, Some (DESTReg instr)),
       (exec_27, exec_07 env, RevDiff, 0, Some (DESTReg instr)), (exec_29, exec_09 env, Sum, 0, Some (DESTReg instr)),
       (exec_2b, exec_0b env, Sum, CFlag s, Some (DESTReg instr)), (exec_2d, exec_0d env, Diff, 1 - CFlag s, Some (DESTReg instr)),
       (exec_2f, exec_0f env, RevDiff, 1 - CFlag s, Some (DESTReg instr)),
       (exec_35, exec_15 env, Diff, 0, None), (exec_37, exec_17 env, Sum, 0, None)]"
  shows "(\<exists>t. f s instr = Inr t \<and> arith_spec k (LHS s instr) (DPImmRHS instr) c dest s t)
    \<and> (\<not> (bit instr 4 \<and> bit instr 7) \<longrightarrow>
       (\<exists>t. g s instr = Inr t \<and> arith_spec k (LHS s instr) (fst (DPRegRHS s instr)) c dest (snd (DPRegRHS s instr)) t))"
proof -
  let ?i = "DPImmRHS instr" let ?r = "fst (DPRegRHS s instr)" let ?u = "snd (DPRegRHS s instr)" let ?l = "LHS s instr"
  have nc: "NOTC s = 1 - CFlag s" "NOTC ?u = 1 - CFlag s" "1 - CFlag s \<le> 1"
    using unat_le_1_cases [OF assms(2)] by (auto simp: NOTC_def)
  have c1: "c \<le> 1" using assms(2,3) nc by auto
  note sp = adds_spec [OF c1 assms(1)] subs_spec [OF c1 assms(1)] rsbs_spec [OF c1 assms(1)]
  have imm: "\<exists>t. f s instr = Inr t \<and> arith_spec k ?l ?i c dest s t"
    using assms(1,3) sp [of ?l ?i s] compare_specs [of ?l ?i s]
    by (auto simp: exec_25_def exec_27_def exec_29_def exec_2b_def exec_2d_def exec_2f_def exec_35_def exec_37_def
        adds_imm_def subs_imm_def rsbs_imm_def compare_imm_def Let_def nc)
  have reg: "\<exists>t. g s instr = Inr t \<and> arith_spec k ?l ?r c dest ?u t"
    if "\<not> (bit instr 4 \<and> bit instr 7)"
    using assms(1,3) sp [of ?l ?r ?u] compare_specs [of ?l ?r ?u] LH_guard [OF that]
    by (auto simp: exec_05_def exec_07_def exec_09_def exec_0b_def exec_0d_def exec_0f_def exec_15_def exec_17_def LH_or_def
        adds_reg_def subs_reg_def rsbs_reg_def compare_reg_def Let_def case_prod_beta nc)
  show ?thesis using imm reg by blast
qed

theorem arithmetic_correct_witness:
  "(\<exists>t. exec_29 mul_state 0xE2931001 = Inr t \<and> Reg t 1 = - 1 \<and> NFlag t = 1 \<and> CFlag t = 0)
    \<and> (\<exists>t. exec_09 demo_env mul_state 0xE0921003 = Inr t \<and> Reg t 1 = 1 \<and> CFlag t = 1 \<and> VFlag t = 0)"
proof -
  have d: "DESTReg 0xE2931001 = 1" "DESTReg 0xE0921003 = 1" "LHSReg 0xE2931001 = 3" "LHSReg 0xE0921003 = 2"
    by (simp_all add: DESTReg_def LHSReg_def BITS_def)
  have f: "CFlag mul_state \<le> 1" by (simp add: mul_state_def)
  have o: "DPImmRHS 0xE2931001 = 1" "DPRegRHS mul_state 0xE0921003 = (- 2, mul_state)"
    by (simp_all add: DPImmRHS_def ARMul_ImmedTable_def ROTATER_def BITS_def DPRegRHS_def RHSReg_def mul_state_def)
  have r: "Reg mul_state 3 = - 2" "Reg mul_state 2 = 3" by (simp_all add: mul_state_def)
  show ?thesis
    using arithmetic_correct [of "0xE2931001" mul_state exec_29 "exec_09 demo_env" Sum 0 "Some 1" demo_env]
      arithmetic_correct [of "0xE0921003" mul_state exec_29 "exec_09 demo_env" Sum 0 "Some 1" demo_env] f
    by (auto simp: d o r arith_spec_def LHS_def out_of_range_def)
qed

section \<open>Comparison and condition codes\<close>

lemma compare_cond:
  fixes a b :: ARMword
  assumes t_def: "t = compare a b s"
  shows "cond_pass 0 t = (a = b)" "cond_pass 1 t = (a \<noteq> b)" "cond_pass 2 t = (b \<le> a)" "cond_pass 3 t = (a < b)"
    "cond_pass 8 t = (b < a)" "cond_pass 9 t = (a \<le> b)" "cond_pass 10 t = (sint b \<le> sint a)"
    "cond_pass 11 t = (sint a < sint b)" "cond_pass 12 t = (sint b < sint a)" "cond_pass 13 t = (sint a \<le> sint b)"
    "Reg t = Reg s"
proof -
  note sp = subs_flags_spec [of 0 a b, simplified]
  obtain A B where e: "uint a = A" "uint b = B"
    "uint (a - b - 0) = (if A - B - uint (0 :: ARMword) < 0 then A - B - uint (0 :: ARMword) + 2 ^ 32 else A - B - uint (0 :: ARMword))"
    and r: "0 \<le> A" "A < 2 ^ 32" "0 \<le> B" "B < 2 ^ 32"
    by (rule carry_operands [of 0 a b]) auto
  have d: "uint (a - b) = (if A < B then A - B + 2 ^ 32 else A - B)" using e(3) by auto
  have c: "CFlag t = of_bool (B \<le> A)" by (simp add: t_def compare_def Let_def sp e)
  have n: "NFlag t = of_bool (2 ^ 31 \<le> uint (a - b))" unfolding bit31_uint [symmetric] by (simp add: t_def compare_def Let_def sp)
  have v: "VFlag t = of_bool (out_of_range (sint a - sint b))" by (simp add: t_def compare_def Let_def sp)
  have w: "a = b \<longleftrightarrow> A = B" "b \<le> a \<longleftrightarrow> B \<le> A" "a < b \<longleftrightarrow> A < B" "b < a \<longleftrightarrow> B < A" "a \<le> b \<longleftrightarrow> A \<le> B"
    by (simp_all add: word_uint_eq_iff word_le_def word_less_def e)
  have z: "ZFlag t = of_bool (A = B)" using w(1) by (simp add: t_def compare_def Let_def sp)
  show "Reg t = Reg s" by (simp add: t_def compare_def Let_def sp)
  show "cond_pass 0 t = (a = b)" "cond_pass 1 t = (a \<noteq> b)" "cond_pass 2 t = (b \<le> a)" "cond_pass 3 t = (a < b)"
    "cond_pass 8 t = (b < a)" "cond_pass 9 t = (a \<le> b)"
    unfolding w by (auto simp: cond_pass_def z c)
  have ge: "(NFlag t \<noteq> 0) = (VFlag t \<noteq> 0) \<longleftrightarrow> sint b \<le> sint a"
    using r by (auto simp: n v d out_of_range_def sint_uint32 e)
  have eq: "A = B \<longleftrightarrow> sint a = sint b" using r by (auto simp: sint_uint32 e)
  show "cond_pass 10 t = (sint b \<le> sint a)" "cond_pass 11 t = (sint a < sint b)"
    "cond_pass 12 t = (sint b < sint a)" "cond_pass 13 t = (sint a \<le> sint b)"
    using ge eq z by (auto simp: cond_pass_def)
qed

text \<open>The condition codes that a comparison decides, as relations of its operands.\<close>

definition cond_relations :: "(ARMword \<times> (ARMword \<Rightarrow> ARMword \<Rightarrow> bool)) list" where
  "cond_relations = [(0, (=)), (1, (\<noteq>)), (2, (\<ge>)), (3, (<)), (8, (>)), (9, (\<le>)),
     (10, \<lambda>a b. sint a \<ge> sint b), (11, \<lambda>a b. sint a < sint b), (12, \<lambda>a b. sint a > sint b), (13, \<lambda>a b. sint a \<le> sint b)]"

text \<open>
  Comparison and condition. After CMP of two values, with an immediate or a register operand, each
  condition field passes exactly when its relation holds of the values: EQ and NE equality, CS, CC, HI, LS
  the order as unsigned numbers, GE, LT, GT, LE the order as signed numbers; no register changes.
\<close>

lemma compare_conditions:
  assumes "DESTReg instr \<noteq> 15" "(cc, R) \<in> set cond_relations"
  shows "(\<exists>t. exec_35 s instr = Inr t \<and> cond_pass cc t = R (LHS s instr) (DPImmRHS instr) \<and> Reg t = Reg s)
    \<and> (\<not> (bit instr 4 \<and> bit instr 7) \<longrightarrow>
       (\<exists>t. exec_15 env s instr = Inr t \<and> cond_pass cc t = R (LHS s instr) (fst (DPRegRHS s instr))
          \<and> Reg t = Reg (snd (DPRegRHS s instr))))"
proof -
  have c: "cond_pass cc (compare a b u) = R a b" "Reg (compare a b u) = Reg u" for a b and u :: "'a ARMul_State"
    using assms(2) compare_cond [of "compare a b u" a b u, OF refl] by (auto simp: cond_relations_def)
  have "exec_15 env s instr = Inr (compare (LHS s instr) (fst (DPRegRHS s instr)) (snd (DPRegRHS s instr)))"
    if "\<not> (bit instr 4 \<and> bit instr 7)"
    using LH_guard [OF that] assms(1) by (simp add: exec_15_def LH_or_def compare_reg_def case_prod_beta Let_def)
  moreover have "exec_35 s instr = Inr (compare (LHS s instr) (DPImmRHS instr) s)"
    using assms(1) by (simp add: exec_35_def compare_imm_def)
  ultimately show ?thesis using c by auto
qed

lemma compare_conditions_witness:
  "(\<exists>t. exec_35 mul_state 0xE3530001 = Inr t \<and> cond_pass 11 t \<and> Reg t = Reg mul_state)
    \<and> (\<exists>t. exec_15 demo_env mul_state 0xE1530002 = Inr t \<and> cond_pass 11 t)"
proof -
  have d: "DESTReg 0xE3530001 = 0" "DESTReg 0xE1530002 = 0" "LHSReg 0xE3530001 = 3" "LHSReg 0xE1530002 = 3"
    by (simp_all add: DESTReg_def LHSReg_def BITS_def)
  have o: "DPImmRHS 0xE3530001 = 1" "DPRegRHS mul_state 0xE1530002 = (3, mul_state)"
    by (simp_all add: DPImmRHS_def ARMul_ImmedTable_def ROTATER_def BITS_def DPRegRHS_def RHSReg_def mul_state_def)
  have r: "Reg mul_state 3 = - 2" by (simp add: mul_state_def)
  have "(11, \<lambda>a b. sint a < sint b) \<in> set cond_relations" by (simp add: cond_relations_def)
  then show ?thesis
    using compare_conditions [of "0xE3530001" 11 "\<lambda>a b. sint a < sint b" mul_state demo_env]
      compare_conditions [of "0xE1530002" 11 "\<lambda>a b. sint a < sint b" mul_state demo_env]
    by (auto simp: d o r LHS_def)
qed

section \<open>Leading zeros\<close>

lemma clz_loop_steps:
  assumes "n \<le> 31" "bit w (31 - n)" "\<forall>j<n. \<not> bit w (31 - j)"
  shows "clz_loop w k = Some (k + of_nat n)"
  using assms
proof (induction n arbitrary: w k)
  case 0
  then show ?case by (subst clz_loop.simps) simp
next
  case (Suc n)
  have z: "\<not> bit w 31" using Suc.prems(3) by auto
  have s: "bit (push_bit 1 w) (31 - j) = bit w (31 - Suc j)" if "j \<le> 30" for j
    using that unfolding bit_push_bit_iff by (auto simp: Suc_le_eq)
  have "clz_loop (push_bit 1 w) (k + 1) = Some (k + 1 + of_nat n)"
  proof (rule Suc.IH)
    show "n \<le> 31" using Suc.prems(1) by simp
    show "bit (push_bit 1 w) (31 - n)" using s [of n] Suc.prems(1,2) by (cases "n \<le> 30") (blast, simp)
    show "\<forall>j<n. \<not> bit (push_bit 1 w) (31 - j)"
    proof (intro allI impI)
      fix j assume "j < n"
      then have "j \<le> 30" "Suc j < Suc n" using Suc.prems(1) by simp_all
      then show "\<not> bit (push_bit 1 w) (31 - j)" using s [of j] Suc.prems(3) by blast
    qed
  qed
  then show ?case using z by (subst clz_loop.simps) (simp add: algebra_simps)
qed

lemma leading_zeros:
  fixes w :: ARMword
  assumes "w \<noteq> 0"
  obtains n where "n \<le> 31" "bit w (31 - n)" "\<forall>j<n. \<not> bit w (31 - j)"
proof -
  obtain i where "bit w i" "i < 32" using assms by (metis bit_eqI bit_0_eq bot_apply bot_bool_def bit_high_False not_less)
  then have "bit w (31 - (31 - i))" by simp
  then have ex: "\<exists>n. bit w (31 - n)" by blast
  define n where "n = (LEAST n. bit w (31 - n))"
  have "bit w (31 - n)" unfolding n_def using ex by (rule LeastI_ex)
  moreover have "\<forall>j<n. \<not> bit w (31 - j)" unfolding n_def by (auto dest: not_less_Least)
  moreover have "n \<le> 31" unfolding n_def using \<open>bit w (31 - (31 - i))\<close> by (meson Least_le diff_le_self order_trans)
  ultimately show thesis using that by blast
qed

text \<open>
  C34: the count of leading zeros ends. On every register value the instruction returns, and its result
  is the number of zero bits above the highest one, or 32 for 0.
\<close>

theorem clz_returns:
  "\<exists>n. exec_CLZ s instr = Inr (set_reg (unat (BITS instr 12 15)) (of_nat n) s) \<and> n \<le> 32
    \<and> (\<forall>j<n. \<not> bit (Reg s (unat (BITS instr 0 3))) (31 - j))
    \<and> (n < 32 \<longrightarrow> bit (Reg s (unat (BITS instr 0 3))) (31 - n))"
proof (cases "Reg s (unat (BITS instr 0 3)) = 0")
  case True
  then show ?thesis by (intro exI [of _ 32]) (simp add: exec_CLZ_def)
next
  case False
  then obtain n where n: "n \<le> 31" "bit (Reg s (unat (BITS instr 0 3))) (31 - n)"
    "\<forall>j<n. \<not> bit (Reg s (unat (BITS instr 0 3))) (31 - j)" by (rule leading_zeros)
  have "clz_loop (Reg s (unat (BITS instr 0 3))) 0 = Some (of_nat n)" using clz_loop_steps [OF n, of 0] by simp
  then show ?thesis using n False by (intro exI [of _ n]) (simp add: exec_CLZ_def)
qed

theorem clz_returns_witness:
  "exec_CLZ mul_state 0xE16F5F12 = Inr (set_reg 5 30 mul_state)"
proof -
  have f: "BITS 0xE16F5F12 12 15 = 5" "BITS 0xE16F5F12 0 3 = 2" by (simp_all add: BITS_def)
  have r: "Reg mul_state 2 = 3" by (simp add: mul_state_def)
  obtain n where n: "exec_CLZ mul_state 0xE16F5F12 = Inr (set_reg 5 (of_nat n) mul_state)" "n \<le> 32"
    "\<forall>j<n. \<not> bit (3 :: ARMword) (31 - j)" "n < 32 \<longrightarrow> bit (3 :: ARMword) (31 - n)"
    using clz_returns [of mul_state "0xE16F5F12"] by (auto simp: f r)
  have le: "n \<le> 30" using n(3) [rule_format, of 30] by (cases "n \<le> 30") simp_all
  have "bit (3 :: ARMword) (31 - n)" using n(4) le by simp
  moreover have "\<not> bit (3 :: ARMword) k" if "2 \<le> k" for k
  proof -
    have "take_bit 2 (3 :: ARMword) = 3" by simp
    then show ?thesis using that by (metis bit_take_bit_iff not_le)
  qed
  ultimately have "31 - n < 2" using not_le by blast
  then have "n = 30" using le by simp
  then show ?thesis using n(1) by simp
qed

section \<open>Saturating arithmetic\<close>

definition clamp :: "int \<Rightarrow> int" where
  "clamp n = max (- (2 ^ 31)) (min (2 ^ 31 - 1) n)"

text \<open>What a saturating instruction leaves in the destination and in the sticky flag.\<close>

definition saturating :: "int \<Rightarrow> bool \<Rightarrow> ARMword \<Rightarrow> 'io ARMul_State \<Rightarrow> 'io ARMul_State \<Rightarrow> bool" where
  "saturating n clipped instr s t \<longleftrightarrow>
     t = (s\<lparr>SFlag := if clipped then 1 else SFlag s,
            Reg := (Reg s)(unat (BITS instr 12 15) := Reg t (unat (BITS instr 12 15)))\<rparr>)
     \<and> sint (Reg t (unat (BITS instr 12 15))) = clamp n"

lemma sat_add:
  fixes a b :: ARMword
  shows "AddOverflow a b (a + b) \<longleftrightarrow> out_of_range (sint a + sint b)"
    and "sint (if out_of_range (sint a + sint b) then saturate (a + b) else a + b) = clamp (sint a + sint b)"
    and "SubOverflow a b (a - b) \<longleftrightarrow> out_of_range (sint a - sint b)"
    and "sint (if out_of_range (sint a - sint b) then saturate (a - b) else a - b) = clamp (sint a - sint b)"
proof -
  obtain A B C where eqs: "uint a = A" "uint b = B" "uint (0 :: ARMword) = C"
      "uint (a + b + 0) = (if A + B + C < 2 ^ 32 then A + B + C else A + B + C - 2 ^ 32)"
      "uint (a - b - 0) = (if A - B - C < 0 then A - B - C + 2 ^ 32 else A - B - C)"
    and rng: "0 \<le> A" "A < 2 ^ 32" "0 \<le> B" "B < 2 ^ 32"
    by (rule carry_operands [of 0 a b]) auto
  have C: "C = 0" using eqs(3) by simp
  have ad: "uint (a + b) = (if A + B < 2 ^ 32 then A + B else A + B - 2 ^ 32)"
    and su: "uint (a - b) = (if A - B < 0 then A - B + 2 ^ 32 else A - B)"
    using eqs(4,5) by (simp_all add: C)
  have lim: "uint (0x80000000 :: ARMword) = 2 ^ 31" "uint (0x7fffffff :: ARMword) = 2 ^ 31 - 1" by simp_all
  note defs = AddOverflow_def SubOverflow_def sign_defs eqs(1,2) ad su out_of_range_def
  show "AddOverflow a b (a + b) \<longleftrightarrow> out_of_range (sint a + sint b)" unfolding defs using rng by auto
  show "SubOverflow a b (a - b) \<longleftrightarrow> out_of_range (sint a - sint b)" unfolding defs using rng by auto
  show "sint (if out_of_range (sint a + sint b) then saturate (a + b) else a + b) = clamp (sint a + sint b)"
    unfolding if_distrib [of sint] saturate_def clamp_def defs using rng by (auto simp: lim ad su)
  show "sint (if out_of_range (sint a - sint b) then saturate (a - b) else a - b) = clamp (sint a - sint b)"
    unfolding if_distrib [of sint] saturate_def clamp_def defs using rng by (auto simp: lim ad su)
qed

text \<open>
  C30: the saturating instructions never wrap. \<^verbatim>\<open>QADD\<close> and \<^verbatim>\<open>QSUB\<close> leave the exact signed sum or
  difference of the operands, clamped to 32 bits; \<^verbatim>\<open>QDADD\<close> and \<^verbatim>\<open>QDSUB\<close> double the second operand
  with one clamp before that. The sticky flag is set exactly when something was clipped and is never cleared,
  and nothing but the destination register and that flag changes.
\<close>

theorem saturation_correct:
  fixes s :: "'io ARMul_State" and instr :: ARMword
  shows "let a = sint (Reg s (unat (BITS instr 0 3))); b = sint (Reg s (unat (BITS instr 16 19)))
    in saturating (a + b) (out_of_range (a + b)) instr s (exec_QADD s instr)
    \<and> saturating (a - b) (out_of_range (a - b)) instr s (exec_QSUB s instr)
    \<and> saturating (a + clamp (2 * b)) (out_of_range (2 * b) \<or> out_of_range (a + clamp (2 * b))) instr s (exec_QDADD s instr)
    \<and> saturating (a - clamp (2 * b)) (out_of_range (2 * b) \<or> out_of_range (a - clamp (2 * b))) instr s (exec_QDSUB s instr)"
proof -
  let ?x = "Reg s (unat (BITS instr 0 3))" and ?y = "Reg s (unat (BITS instr 16 19))"
  define a b where ab: "a = sint ?x" "b = sint ?y"
  have two: "2 * b = sint ?y + sint ?y" by (simp add: ab)
  let ?d = "if out_of_range (sint ?y + sint ?y) then saturate (?y + ?y) else ?y + ?y"
  note ds = sat_add [of ?x ?d]
  have dv: "sint ?d = clamp (sint ?y + sint ?y)" by (rule sat_add(2))
  have "saturating (a + b) (out_of_range (a + b)) instr s (exec_QADD s instr)"
    using sat_add(2) [of ?x ?y]
    by (simp add: saturating_def exec_QADD_def Let_def sat_add(1) SETS_def set_reg_def ab split: if_split_asm)
  moreover have "saturating (a - b) (out_of_range (a - b)) instr s (exec_QSUB s instr)"
    using sat_add(4) [of ?x ?y]
    by (simp add: saturating_def exec_QSUB_def Let_def sat_add(3) SETS_def set_reg_def ab split: if_split_asm)
  moreover have "saturating (a + clamp (2 * b)) (out_of_range (2 * b) \<or> out_of_range (a + clamp (2 * b))) instr s (exec_QDADD s instr)"
    using ds(1,2) dv unfolding two ab(1) saturating_def exec_QDADD_def Let_def sat_add(1)
    by (cases "out_of_range (sint ?y + sint ?y)"; cases "out_of_range (sint ?x + clamp (sint ?y + sint ?y))")
      (simp_all add: SETS_def set_reg_def)
  moreover have "saturating (a - clamp (2 * b)) (out_of_range (2 * b) \<or> out_of_range (a - clamp (2 * b))) instr s (exec_QDSUB s instr)"
    using ds(3,4) dv unfolding two ab(1) saturating_def exec_QDSUB_def Let_def sat_add(1)
    by (cases "out_of_range (sint ?y + sint ?y)"; cases "out_of_range (sint ?x - clamp (sint ?y + sint ?y))")
      (simp_all add: SETS_def set_reg_def)
  ultimately show ?thesis unfolding Let_def ab by blast
qed

end
