(* ===== verification/Arm_Ls.thy ===== *)
theory Arm_Ls
  imports Arm_Dp
begin

text \<open>
  The load and store cases of the instruction switch, \<^verbatim>\<open>arch/arm/common/armemu.c\<close>: single transfers with an
  immediate or a register offset (0x40 to 0x7f), multiple transfers (0x80 to 0x9f) and the ARMv6
  instructions that share encodings with them. Each case is a definition of its own; the theorem
  at the end shows that the 64 cases of the single transfers are one addressing scheme.
\<close>

section \<open>ARMv6 extension instructions\<close>

definition v6_ror :: "ARMword \<Rightarrow> nat option" where
  "v6_ror instr =
     (let b = BITS instr 4 11
      in if b = 0x07 then Some 0 else if b = 0x47 then Some 8
         else if b = 0x87 then Some 16 else if b = 0xc7 then Some 24 else None)"

text \<open>
  \<^verbatim>\<open>None\<close> is the answer 0: every case that only prints a message, and an operand field that is not a
  rotation. The test of the halfword's sign is written with the decimal number 8000 in the source.
\<close>

definition handle_v6_insn :: "'io ARMul_State \<Rightarrow> ARMword \<Rightarrow> 'io ARMul_State option" where
  "handle_v6_insn s instr =
     (let op = BITS instr 20 27; Rd = unat (BITS instr 12 15); n = unat (BITS instr 16 19);
          m = Reg s (unat (BITS instr 0 3))
      in case v6_ror instr of
           None \<Rightarrow> None
         | Some ror \<Rightarrow>
             if op = 0x6a
             then let Rm = drop_bit ror m AND 0xFF; Rm = (if Rm AND 0x80 \<noteq> 0 then Rm OR 0xffffff00 else Rm)
                  in Some (set_reg Rd (if n = 15 then Rm else Reg s Rd + Rm) s)
             else if op = 0x6b
             then let Rm = drop_bit ror m AND 0xFFFF; Rm = (if Rm AND 8000 \<noteq> 0 then Rm OR 0xffff0000 else Rm)
                  in Some (set_reg Rd (if n = 15 then Rm else Reg s n + Rm) s)
             else if op = 0x6e
             then let Rm = drop_bit ror m AND 0xFF in Some (set_reg Rd (if n = 15 then Rm else Reg s n + Rm) s)
             else if op = 0x6f
             then let Rm = drop_bit ror m AND 0xFFFF in Some (set_reg Rd (if n = 15 then Rm else Reg s n + Rm) s)
             else None)"

section \<open>Single data transfers\<close>

text \<open>The base register is written when the worker allows it; the new base may be read after the access.\<close>

definition ls_base :: "ARMword \<Rightarrow> ('io ARMul_State \<Rightarrow> ARMword) \<Rightarrow> 'io transfer \<Rightarrow> 'io ARMul_State sim" where
  "ls_base instr f r = bind_ok r (\<lambda>(done, s). Inr (if done then set_reg (LHSReg instr) (f s) s else s))"

definition ls_void :: "'io transfer \<Rightarrow> 'io ARMul_State sim" where
  "ls_void r = bind_ok r (\<lambda>(done, s). Inr s)"

text \<open>The forms that access memory with the rights of user mode.\<close>

definition NTRANS_LOW :: "'io ARMul_State \<Rightarrow> 'io ARMul_State" where
  "NTRANS_LOW s = s\<lparr>NtransSig := LOW\<rparr>"

definition ntrans_restore :: "'io ARMul_State sim \<Rightarrow> 'io ARMul_State sim" where
  "ntrans_restore r = bind_ok r (\<lambda>s. Inr (s\<lparr>NtransSig := if Mode s AND 3 \<noteq> 0 then HIGH else LOW\<rparr>))"

text \<open>Bit 4 of the register forms marks an undefined instruction, or one of ARMv6.\<close>

definition ls_undef :: "'io cpu_env \<Rightarrow> 'io ARMul_State \<Rightarrow> ARMword \<Rightarrow> 'io ARMul_State sim \<Rightarrow> 'io ARMul_State sim" where
  "ls_undef env s instr r = (if BIT instr 4 \<noteq> 0 then Inr (ARMul_UndefInstr (undf_trap env) s instr) else r)"

definition ls_v6 :: "'io cpu_env \<Rightarrow> 'io ARMul_State \<Rightarrow> ARMword \<Rightarrow> 'io ARMul_State sim \<Rightarrow> 'io ARMul_State sim" where
  "ls_v6 env s instr r =
     (if BIT instr 4 \<noteq> 0
      then case (if is_v6 s \<noteq> 0 then handle_v6_insn s instr else None) of
             Some t \<Rightarrow> Inr t
           | None \<Rightarrow> Inr (ARMul_UndefInstr (undf_trap env) s instr)
      else r)"

text \<open>Post-indexed, with an immediate offset.\<close>

definition exec_40 :: "'io cpu_env \<Rightarrow> 'io ARMul_State \<Rightarrow> ARMword \<Rightarrow> 'io ARMul_State sim" where
  "exec_40 env s instr =
     (let lhs = LHS s instr
      in ls_base instr (\<lambda>s. lhs - LSImmRHS instr) (StoreWord env s instr lhs))"

definition exec_41 :: "'io cpu_env \<Rightarrow> 'io ARMul_State \<Rightarrow> ARMword \<Rightarrow> 'io ARMul_State sim" where
  "exec_41 env s instr =
     (let lhs = LHS s instr
      in ls_base instr (\<lambda>s. lhs - LSImmRHS instr) (LoadWord env s instr lhs))"

definition exec_42 :: "'io cpu_env \<Rightarrow> 'io ARMul_State \<Rightarrow> ARMword \<Rightarrow> 'io ARMul_State sim" where
  "exec_42 env s instr =
     (let lhs = LHS s instr; temp = lhs - LSImmRHS instr
      in ntrans_restore (ls_base instr (\<lambda>_. temp) (StoreWord env (NTRANS_LOW s) instr lhs)))"

definition exec_43 :: "'io cpu_env \<Rightarrow> 'io ARMul_State \<Rightarrow> ARMword \<Rightarrow> 'io ARMul_State sim" where
  "exec_43 env s instr =
     (let lhs = LHS s instr
      in ntrans_restore (ls_base instr (\<lambda>s. lhs - LSImmRHS instr) (LoadWord env (NTRANS_LOW s) instr lhs)))"

definition exec_44 :: "'io cpu_env \<Rightarrow> 'io ARMul_State \<Rightarrow> ARMword \<Rightarrow> 'io ARMul_State sim" where
  "exec_44 env s instr =
     (let lhs = LHS s instr
      in ls_base instr (\<lambda>s. lhs - LSImmRHS instr) (StoreByte env s instr lhs))"

definition exec_45 :: "'io cpu_env \<Rightarrow> 'io ARMul_State \<Rightarrow> ARMword \<Rightarrow> 'io ARMul_State sim" where
  "exec_45 env s instr =
     (let lhs = LHS s instr
      in ls_base instr (\<lambda>s. lhs - LSImmRHS instr) (LoadByte env s instr lhs False))"

definition exec_46 :: "'io cpu_env \<Rightarrow> 'io ARMul_State \<Rightarrow> ARMword \<Rightarrow> 'io ARMul_State sim" where
  "exec_46 env s instr =
     (let lhs = LHS s instr
      in ntrans_restore (ls_base instr (\<lambda>s. lhs - LSImmRHS instr) (StoreByte env (NTRANS_LOW s) instr lhs)))"

definition exec_47 :: "'io cpu_env \<Rightarrow> 'io ARMul_State \<Rightarrow> ARMword \<Rightarrow> 'io ARMul_State sim" where
  "exec_47 env s instr =
     (let lhs = LHS s instr
      in ntrans_restore (ls_base instr (\<lambda>s. lhs - LSImmRHS instr) (LoadByte env (NTRANS_LOW s) instr lhs False)))"

definition exec_48 :: "'io cpu_env \<Rightarrow> 'io ARMul_State \<Rightarrow> ARMword \<Rightarrow> 'io ARMul_State sim" where
  "exec_48 env s instr =
     (let lhs = LHS s instr
      in ls_base instr (\<lambda>s. lhs + LSImmRHS instr) (StoreWord env s instr lhs))"

definition exec_49 :: "'io cpu_env \<Rightarrow> 'io ARMul_State \<Rightarrow> ARMword \<Rightarrow> 'io ARMul_State sim" where
  "exec_49 env s instr =
     (let lhs = LHS s instr
      in ls_base instr (\<lambda>s. lhs + LSImmRHS instr) (LoadWord env s instr lhs))"

definition exec_4a :: "'io cpu_env \<Rightarrow> 'io ARMul_State \<Rightarrow> ARMword \<Rightarrow> 'io ARMul_State sim" where
  "exec_4a env s instr =
     (let lhs = LHS s instr
      in ntrans_restore (ls_base instr (\<lambda>s. lhs + LSImmRHS instr) (StoreWord env (NTRANS_LOW s) instr lhs)))"

definition exec_4b :: "'io cpu_env \<Rightarrow> 'io ARMul_State \<Rightarrow> ARMword \<Rightarrow> 'io ARMul_State sim" where
  "exec_4b env s instr =
     (let lhs = LHS s instr
      in ntrans_restore (ls_base instr (\<lambda>s. lhs + LSImmRHS instr) (LoadWord env (NTRANS_LOW s) instr lhs)))"

definition exec_4c :: "'io cpu_env \<Rightarrow> 'io ARMul_State \<Rightarrow> ARMword \<Rightarrow> 'io ARMul_State sim" where
  "exec_4c env s instr =
     (let lhs = LHS s instr
      in ls_base instr (\<lambda>s. lhs + LSImmRHS instr) (StoreByte env s instr lhs))"

definition exec_4d :: "'io cpu_env \<Rightarrow> 'io ARMul_State \<Rightarrow> ARMword \<Rightarrow> 'io ARMul_State sim" where
  "exec_4d env s instr =
     (let lhs = LHS s instr
      in ls_base instr (\<lambda>s. lhs + LSImmRHS instr) (LoadByte env s instr lhs False))"

definition exec_4e :: "'io cpu_env \<Rightarrow> 'io ARMul_State \<Rightarrow> ARMword \<Rightarrow> 'io ARMul_State sim" where
  "exec_4e env s instr =
     (let lhs = LHS s instr
      in ntrans_restore (ls_base instr (\<lambda>s. lhs + LSImmRHS instr) (StoreByte env (NTRANS_LOW s) instr lhs)))"

definition exec_4f :: "'io cpu_env \<Rightarrow> 'io ARMul_State \<Rightarrow> ARMword \<Rightarrow> 'io ARMul_State sim" where
  "exec_4f env s instr =
     (let lhs = LHS s instr
      in ntrans_restore (ls_base instr (\<lambda>s. lhs + LSImmRHS instr) (LoadByte env (NTRANS_LOW s) instr lhs False)))"

text \<open>Pre-indexed.\<close>

definition exec_50 :: "'io cpu_env \<Rightarrow> 'io ARMul_State \<Rightarrow> ARMword \<Rightarrow> 'io ARMul_State sim" where
  "exec_50 env s instr =
     ls_void (StoreWord env s instr (LHS s instr - LSImmRHS instr))"

definition exec_51 :: "'io cpu_env \<Rightarrow> 'io ARMul_State \<Rightarrow> ARMword \<Rightarrow> 'io ARMul_State sim" where
  "exec_51 env s instr =
     ls_void (LoadWord env s instr (LHS s instr - LSImmRHS instr))"

definition exec_52 :: "'io cpu_env \<Rightarrow> 'io ARMul_State \<Rightarrow> ARMword \<Rightarrow> 'io ARMul_State sim" where
  "exec_52 env s instr =
     (let temp = LHS s instr - LSImmRHS instr in ls_base instr (\<lambda>_. temp) (StoreWord env s instr temp))"

definition exec_53 :: "'io cpu_env \<Rightarrow> 'io ARMul_State \<Rightarrow> ARMword \<Rightarrow> 'io ARMul_State sim" where
  "exec_53 env s instr =
     (let temp = LHS s instr - LSImmRHS instr in ls_base instr (\<lambda>_. temp) (LoadWord env s instr temp))"

definition exec_54 :: "'io cpu_env \<Rightarrow> 'io ARMul_State \<Rightarrow> ARMword \<Rightarrow> 'io ARMul_State sim" where
  "exec_54 env s instr =
     ls_void (StoreByte env s instr (LHS s instr - LSImmRHS instr))"

definition exec_55 :: "'io cpu_env \<Rightarrow> 'io ARMul_State \<Rightarrow> ARMword \<Rightarrow> 'io ARMul_State sim" where
  "exec_55 env s instr =
     ls_void (LoadByte env s instr (LHS s instr - LSImmRHS instr) False)"

definition exec_56 :: "'io cpu_env \<Rightarrow> 'io ARMul_State \<Rightarrow> ARMword \<Rightarrow> 'io ARMul_State sim" where
  "exec_56 env s instr =
     (let temp = LHS s instr - LSImmRHS instr in ls_base instr (\<lambda>_. temp) (StoreByte env s instr temp))"

definition exec_57 :: "'io cpu_env \<Rightarrow> 'io ARMul_State \<Rightarrow> ARMword \<Rightarrow> 'io ARMul_State sim" where
  "exec_57 env s instr =
     (let temp = LHS s instr - LSImmRHS instr in ls_base instr (\<lambda>_. temp) (LoadByte env s instr temp False))"

definition exec_58 :: "'io cpu_env \<Rightarrow> 'io ARMul_State \<Rightarrow> ARMword \<Rightarrow> 'io ARMul_State sim" where
  "exec_58 env s instr =
     ls_void (StoreWord env s instr (LHS s instr + LSImmRHS instr))"

definition exec_59 :: "'io cpu_env \<Rightarrow> 'io ARMul_State \<Rightarrow> ARMword \<Rightarrow> 'io ARMul_State sim" where
  "exec_59 env s instr =
     ls_void (LoadWord env s instr (LHS s instr + LSImmRHS instr))"

definition exec_5a :: "'io cpu_env \<Rightarrow> 'io ARMul_State \<Rightarrow> ARMword \<Rightarrow> 'io ARMul_State sim" where
  "exec_5a env s instr =
     (let temp = LHS s instr + LSImmRHS instr in ls_base instr (\<lambda>_. temp) (StoreWord env s instr temp))"

definition exec_5b :: "'io cpu_env \<Rightarrow> 'io ARMul_State \<Rightarrow> ARMword \<Rightarrow> 'io ARMul_State sim" where
  "exec_5b env s instr =
     (let temp = LHS s instr + LSImmRHS instr in ls_base instr (\<lambda>_. temp) (LoadWord env s instr temp))"

definition exec_5c :: "'io cpu_env \<Rightarrow> 'io ARMul_State \<Rightarrow> ARMword \<Rightarrow> 'io ARMul_State sim" where
  "exec_5c env s instr =
     ls_void (StoreByte env s instr (LHS s instr + LSImmRHS instr))"

definition exec_5d :: "'io cpu_env \<Rightarrow> 'io ARMul_State \<Rightarrow> ARMword \<Rightarrow> 'io ARMul_State sim" where
  "exec_5d env s instr =
     ls_void (LoadByte env s instr (LHS s instr + LSImmRHS instr) False)"

definition exec_5e :: "'io cpu_env \<Rightarrow> 'io ARMul_State \<Rightarrow> ARMword \<Rightarrow> 'io ARMul_State sim" where
  "exec_5e env s instr =
     (let temp = LHS s instr + LSImmRHS instr in ls_base instr (\<lambda>_. temp) (StoreByte env s instr temp))"

definition exec_5f :: "'io cpu_env \<Rightarrow> 'io ARMul_State \<Rightarrow> ARMword \<Rightarrow> 'io ARMul_State sim" where
  "exec_5f env s instr =
     (let temp = LHS s instr + LSImmRHS instr in ls_base instr (\<lambda>_. temp) (LoadByte env s instr temp False))"

section \<open>Register offsets\<close>

definition exec_60 :: "'io cpu_env \<Rightarrow> 'io ARMul_State \<Rightarrow> ARMword \<Rightarrow> 'io ARMul_State sim" where
  "exec_60 env s instr =
     ls_undef env s instr
     (let lhs = LHS s instr
      in ls_base instr (\<lambda>s. lhs - LSRegRHS s instr) (StoreWord env s instr lhs))"

definition exec_61 :: "'io cpu_env \<Rightarrow> 'io ARMul_State \<Rightarrow> ARMword \<Rightarrow> 'io ARMul_State sim" where
  "exec_61 env s instr =
     ls_v6 env s instr
     (let lhs = LHS s instr; temp = lhs - LSRegRHS s instr
      in ls_base instr (\<lambda>_. temp) (LoadWord env s instr lhs))"

definition exec_62 :: "'io cpu_env \<Rightarrow> 'io ARMul_State \<Rightarrow> ARMword \<Rightarrow> 'io ARMul_State sim" where
  "exec_62 env s instr =
     ls_v6 env s instr
     (let lhs = LHS s instr
      in ntrans_restore (ls_base instr (\<lambda>s. lhs - LSRegRHS s instr) (StoreWord env (NTRANS_LOW s) instr lhs)))"

definition exec_63 :: "'io cpu_env \<Rightarrow> 'io ARMul_State \<Rightarrow> ARMword \<Rightarrow> 'io ARMul_State sim" where
  "exec_63 env s instr =
     ls_v6 env s instr
     (let lhs = LHS s instr; temp = lhs - LSRegRHS s instr
      in ntrans_restore (ls_base instr (\<lambda>_. temp) (LoadWord env (NTRANS_LOW s) instr lhs)))"

definition exec_64 :: "'io cpu_env \<Rightarrow> 'io ARMul_State \<Rightarrow> ARMword \<Rightarrow> 'io ARMul_State sim" where
  "exec_64 env s instr =
     ls_undef env s instr
     (let lhs = LHS s instr
      in ls_base instr (\<lambda>s. lhs - LSRegRHS s instr) (StoreByte env s instr lhs))"

definition exec_65 :: "'io cpu_env \<Rightarrow> 'io ARMul_State \<Rightarrow> ARMword \<Rightarrow> 'io ARMul_State sim" where
  "exec_65 env s instr =
     ls_v6 env s instr
     (let lhs = LHS s instr; temp = lhs - LSRegRHS s instr
      in ls_base instr (\<lambda>_. temp) (LoadByte env s instr lhs False))"

definition exec_66 :: "'io cpu_env \<Rightarrow> 'io ARMul_State \<Rightarrow> ARMword \<Rightarrow> 'io ARMul_State sim" where
  "exec_66 env s instr =
     ls_v6 env s instr
     (let lhs = LHS s instr
      in ntrans_restore (ls_base instr (\<lambda>s. lhs - LSRegRHS s instr) (StoreByte env (NTRANS_LOW s) instr lhs)))"

definition exec_67 :: "'io cpu_env \<Rightarrow> 'io ARMul_State \<Rightarrow> ARMword \<Rightarrow> 'io ARMul_State sim" where
  "exec_67 env s instr =
     ls_v6 env s instr
     (let lhs = LHS s instr; temp = lhs - LSRegRHS s instr
      in ntrans_restore (ls_base instr (\<lambda>_. temp) (LoadByte env (NTRANS_LOW s) instr lhs False)))"

definition exec_68 :: "'io cpu_env \<Rightarrow> 'io ARMul_State \<Rightarrow> ARMword \<Rightarrow> 'io ARMul_State sim" where
  "exec_68 env s instr =
     ls_v6 env s instr
     (let lhs = LHS s instr
      in ls_base instr (\<lambda>s. lhs + LSRegRHS s instr) (StoreWord env s instr lhs))"

definition exec_69 :: "'io cpu_env \<Rightarrow> 'io ARMul_State \<Rightarrow> ARMword \<Rightarrow> 'io ARMul_State sim" where
  "exec_69 env s instr =
     ls_undef env s instr
     (let lhs = LHS s instr; temp = lhs + LSRegRHS s instr
      in ls_base instr (\<lambda>_. temp) (LoadWord env s instr lhs))"

definition exec_6a :: "'io cpu_env \<Rightarrow> 'io ARMul_State \<Rightarrow> ARMword \<Rightarrow> 'io ARMul_State sim" where
  "exec_6a env s instr =
     ls_v6 env s instr
     (let lhs = LHS s instr
      in ntrans_restore (ls_base instr (\<lambda>s. lhs + LSRegRHS s instr) (StoreWord env (NTRANS_LOW s) instr lhs)))"

definition exec_6b :: "'io cpu_env \<Rightarrow> 'io ARMul_State \<Rightarrow> ARMword \<Rightarrow> 'io ARMul_State sim" where
  "exec_6b env s instr =
     ls_v6 env s instr
     (let lhs = LHS s instr; temp = lhs + LSRegRHS s instr
      in ntrans_restore (ls_base instr (\<lambda>_. temp) (LoadWord env (NTRANS_LOW s) instr lhs)))"

definition exec_6c :: "'io cpu_env \<Rightarrow> 'io ARMul_State \<Rightarrow> ARMword \<Rightarrow> 'io ARMul_State sim" where
  "exec_6c env s instr =
     ls_v6 env s instr
     (let lhs = LHS s instr
      in ls_base instr (\<lambda>s. lhs + LSRegRHS s instr) (StoreByte env s instr lhs))"

definition exec_6d :: "'io cpu_env \<Rightarrow> 'io ARMul_State \<Rightarrow> ARMword \<Rightarrow> 'io ARMul_State sim" where
  "exec_6d env s instr =
     ls_undef env s instr
     (let lhs = LHS s instr; temp = lhs + LSRegRHS s instr
      in ls_base instr (\<lambda>_. temp) (LoadByte env s instr lhs False))"

definition exec_6e :: "'io cpu_env \<Rightarrow> 'io ARMul_State \<Rightarrow> ARMword \<Rightarrow> 'io ARMul_State sim" where
  "exec_6e env s instr =
     ls_v6 env s instr
     (let lhs = LHS s instr
      in ntrans_restore (ls_base instr (\<lambda>s. lhs + LSRegRHS s instr) (StoreByte env (NTRANS_LOW s) instr lhs)))"

definition exec_6f :: "'io cpu_env \<Rightarrow> 'io ARMul_State \<Rightarrow> ARMword \<Rightarrow> 'io ARMul_State sim" where
  "exec_6f env s instr =
     ls_v6 env s instr
     (let lhs = LHS s instr; temp = lhs + LSRegRHS s instr
      in ntrans_restore (ls_base instr (\<lambda>_. temp) (LoadByte env (NTRANS_LOW s) instr lhs False)))"

definition exec_70 :: "'io cpu_env \<Rightarrow> 'io ARMul_State \<Rightarrow> ARMword \<Rightarrow> 'io ARMul_State sim" where
  "exec_70 env s instr =
     ls_v6 env s instr
     (ls_void (StoreWord env s instr (LHS s instr - LSRegRHS s instr)))"

definition exec_71 :: "'io cpu_env \<Rightarrow> 'io ARMul_State \<Rightarrow> ARMword \<Rightarrow> 'io ARMul_State sim" where
  "exec_71 env s instr =
     ls_undef env s instr
     (ls_void (LoadWord env s instr (LHS s instr - LSRegRHS s instr)))"

definition exec_72 :: "'io cpu_env \<Rightarrow> 'io ARMul_State \<Rightarrow> ARMword \<Rightarrow> 'io ARMul_State sim" where
  "exec_72 env s instr =
     ls_undef env s instr
     (let temp = LHS s instr - LSRegRHS s instr in ls_base instr (\<lambda>_. temp) (StoreWord env s instr temp))"

definition exec_73 :: "'io cpu_env \<Rightarrow> 'io ARMul_State \<Rightarrow> ARMword \<Rightarrow> 'io ARMul_State sim" where
  "exec_73 env s instr =
     ls_undef env s instr
     (let temp = LHS s instr - LSRegRHS s instr in ls_base instr (\<lambda>_. temp) (LoadWord env s instr temp))"

definition exec_74 :: "'io cpu_env \<Rightarrow> 'io ARMul_State \<Rightarrow> ARMword \<Rightarrow> 'io ARMul_State sim" where
  "exec_74 env s instr =
     ls_v6 env s instr
     (ls_void (StoreByte env s instr (LHS s instr - LSRegRHS s instr)))"

definition exec_75 :: "'io cpu_env \<Rightarrow> 'io ARMul_State \<Rightarrow> ARMword \<Rightarrow> 'io ARMul_State sim" where
  "exec_75 env s instr =
     ls_v6 env s instr
     (ls_void (LoadByte env s instr (LHS s instr - LSRegRHS s instr) False))"

definition exec_76 :: "'io cpu_env \<Rightarrow> 'io ARMul_State \<Rightarrow> ARMword \<Rightarrow> 'io ARMul_State sim" where
  "exec_76 env s instr =
     ls_undef env s instr
     (let temp = LHS s instr - LSRegRHS s instr in ls_base instr (\<lambda>_. temp) (StoreByte env s instr temp))"

definition exec_77 :: "'io cpu_env \<Rightarrow> 'io ARMul_State \<Rightarrow> ARMword \<Rightarrow> 'io ARMul_State sim" where
  "exec_77 env s instr =
     ls_undef env s instr
     (let temp = LHS s instr - LSRegRHS s instr in ls_base instr (\<lambda>_. temp) (LoadByte env s instr temp False))"

definition exec_78 :: "'io cpu_env \<Rightarrow> 'io ARMul_State \<Rightarrow> ARMword \<Rightarrow> 'io ARMul_State sim" where
  "exec_78 env s instr =
     ls_v6 env s instr
     (ls_void (StoreWord env s instr (LHS s instr + LSRegRHS s instr)))"

definition exec_79 :: "'io cpu_env \<Rightarrow> 'io ARMul_State \<Rightarrow> ARMword \<Rightarrow> 'io ARMul_State sim" where
  "exec_79 env s instr =
     ls_undef env s instr
     (ls_void (LoadWord env s instr (LHS s instr + LSRegRHS s instr)))"

definition exec_7a :: "'io cpu_env \<Rightarrow> 'io ARMul_State \<Rightarrow> ARMword \<Rightarrow> 'io ARMul_State sim" where
  "exec_7a env s instr =
     ls_v6 env s instr
     (let temp = LHS s instr + LSRegRHS s instr in ls_base instr (\<lambda>_. temp) (StoreWord env s instr temp))"

definition exec_7b :: "'io cpu_env \<Rightarrow> 'io ARMul_State \<Rightarrow> ARMword \<Rightarrow> 'io ARMul_State sim" where
  "exec_7b env s instr =
     ls_undef env s instr
     (let temp = LHS s instr + LSRegRHS s instr in ls_base instr (\<lambda>_. temp) (LoadWord env s instr temp))"

definition exec_7c :: "'io cpu_env \<Rightarrow> 'io ARMul_State \<Rightarrow> ARMword \<Rightarrow> 'io ARMul_State sim" where
  "exec_7c env s instr =
     ls_v6 env s instr
     (ls_void (StoreByte env s instr (LHS s instr + LSRegRHS s instr)))"

definition exec_7d :: "'io cpu_env \<Rightarrow> 'io ARMul_State \<Rightarrow> ARMword \<Rightarrow> 'io ARMul_State sim" where
  "exec_7d env s instr =
     ls_undef env s instr
     (ls_void (LoadByte env s instr (LHS s instr + LSRegRHS s instr) False))"

definition exec_7e :: "'io cpu_env \<Rightarrow> 'io ARMul_State \<Rightarrow> ARMword \<Rightarrow> 'io ARMul_State sim" where
  "exec_7e env s instr =
     ls_undef env s instr
     (let temp = LHS s instr + LSRegRHS s instr in ls_base instr (\<lambda>_. temp) (StoreByte env s instr temp))"

definition exec_7f :: "'io cpu_env \<Rightarrow> 'io ARMul_State \<Rightarrow> ARMword \<Rightarrow> 'io ARMul_State sim" where
  "exec_7f env s instr =
     (if BIT instr 4 \<noteq> 0
      then if BITS instr 0 19 = 0xfdefe then Inr (OS_Breakpoint s) else Inr (ARMul_UndefInstr (undf_trap env) s instr)
      else let temp = LHS s instr + LSRegRHS s instr in ls_base instr (\<lambda>_. temp) (LoadByte env s instr temp False))"

section \<open>Multiple data transfers\<close>

text \<open>The table of \<^verbatim>\<open>ARMul_EmulateInit\<close>: four times the number of bits set in a byte.\<close>

definition ARMul_BitList :: "ARMword \<Rightarrow> ARMword" where
  "ARMul_BitList i = 4 * sum_list (map (\<lambda>j. if i AND push_bit j 1 \<noteq> 0 then 1 else 0) [0..<8])"

definition LSMNumRegs :: "ARMword \<Rightarrow> ARMword" where
  "LSMNumRegs instr = ARMul_BitList (BITS instr 0 7) + ARMul_BitList (BITS instr 8 15)"

definition LSBase :: "'io ARMul_State \<Rightarrow> ARMword \<Rightarrow> ARMword" where
  "LSBase s instr = Reg s (LHSReg instr)"

definition exec_80 :: "'io cpu_env \<Rightarrow> 'io ARMul_State \<Rightarrow> ARMword \<Rightarrow> 'io ARMul_State sim" where
  "exec_80 env s instr = StoreMult env s instr (LSBase s instr - LSMNumRegs instr + 4) 0"

definition exec_81 :: "'io cpu_env \<Rightarrow> 'io ARMul_State \<Rightarrow> ARMword \<Rightarrow> 'io ARMul_State sim" where
  "exec_81 env s instr = LoadMult env s instr (LSBase s instr - LSMNumRegs instr + 4) 0"

definition exec_82 :: "'io cpu_env \<Rightarrow> 'io ARMul_State \<Rightarrow> ARMword \<Rightarrow> 'io ARMul_State sim" where
  "exec_82 env s instr = (let temp = LSBase s instr - LSMNumRegs instr in StoreMult env s instr (temp + 4) temp)"

definition exec_83 :: "'io cpu_env \<Rightarrow> 'io ARMul_State \<Rightarrow> ARMword \<Rightarrow> 'io ARMul_State sim" where
  "exec_83 env s instr = (let temp = LSBase s instr - LSMNumRegs instr in LoadMult env s instr (temp + 4) temp)"

definition exec_84 :: "'io cpu_env \<Rightarrow> 'io ARMul_State \<Rightarrow> ARMword \<Rightarrow> 'io ARMul_State sim" where
  "exec_84 env s instr = StoreSMult env s instr (LSBase s instr - LSMNumRegs instr + 4) 0"

definition exec_85 :: "'io cpu_env \<Rightarrow> 'io ARMul_State \<Rightarrow> ARMword \<Rightarrow> 'io ARMul_State sim" where
  "exec_85 env s instr = LoadSMult env s instr (LSBase s instr - LSMNumRegs instr + 4) 0"

definition exec_86 :: "'io cpu_env \<Rightarrow> 'io ARMul_State \<Rightarrow> ARMword \<Rightarrow> 'io ARMul_State sim" where
  "exec_86 env s instr = (let temp = LSBase s instr - LSMNumRegs instr in StoreSMult env s instr (temp + 4) temp)"

definition exec_87 :: "'io cpu_env \<Rightarrow> 'io ARMul_State \<Rightarrow> ARMword \<Rightarrow> 'io ARMul_State sim" where
  "exec_87 env s instr = (let temp = LSBase s instr - LSMNumRegs instr in LoadSMult env s instr (temp + 4) temp)"

definition exec_88 :: "'io cpu_env \<Rightarrow> 'io ARMul_State \<Rightarrow> ARMword \<Rightarrow> 'io ARMul_State sim" where
  "exec_88 env s instr = StoreMult env s instr (LSBase s instr) 0"

definition exec_89 :: "'io cpu_env \<Rightarrow> 'io ARMul_State \<Rightarrow> ARMword \<Rightarrow> 'io ARMul_State sim" where
  "exec_89 env s instr = LoadMult env s instr (LSBase s instr) 0"

definition exec_8a :: "'io cpu_env \<Rightarrow> 'io ARMul_State \<Rightarrow> ARMword \<Rightarrow> 'io ARMul_State sim" where
  "exec_8a env s instr = (let temp = LSBase s instr in StoreMult env s instr temp (temp + LSMNumRegs instr))"

definition exec_8b :: "'io cpu_env \<Rightarrow> 'io ARMul_State \<Rightarrow> ARMword \<Rightarrow> 'io ARMul_State sim" where
  "exec_8b env s instr = (let temp = LSBase s instr in LoadMult env s instr temp (temp + LSMNumRegs instr))"

definition exec_8c :: "'io cpu_env \<Rightarrow> 'io ARMul_State \<Rightarrow> ARMword \<Rightarrow> 'io ARMul_State sim" where
  "exec_8c env s instr = StoreSMult env s instr (LSBase s instr) 0"

definition exec_8d :: "'io cpu_env \<Rightarrow> 'io ARMul_State \<Rightarrow> ARMword \<Rightarrow> 'io ARMul_State sim" where
  "exec_8d env s instr = LoadSMult env s instr (LSBase s instr) 0"

definition exec_8e :: "'io cpu_env \<Rightarrow> 'io ARMul_State \<Rightarrow> ARMword \<Rightarrow> 'io ARMul_State sim" where
  "exec_8e env s instr = (let temp = LSBase s instr in StoreSMult env s instr temp (temp + LSMNumRegs instr))"

definition exec_8f :: "'io cpu_env \<Rightarrow> 'io ARMul_State \<Rightarrow> ARMword \<Rightarrow> 'io ARMul_State sim" where
  "exec_8f env s instr = (let temp = LSBase s instr in LoadSMult env s instr temp (temp + LSMNumRegs instr))"

definition exec_90 :: "'io cpu_env \<Rightarrow> 'io ARMul_State \<Rightarrow> ARMword \<Rightarrow> 'io ARMul_State sim" where
  "exec_90 env s instr = StoreMult env s instr (LSBase s instr - LSMNumRegs instr) 0"

definition exec_91 :: "'io cpu_env \<Rightarrow> 'io ARMul_State \<Rightarrow> ARMword \<Rightarrow> 'io ARMul_State sim" where
  "exec_91 env s instr = LoadMult env s instr (LSBase s instr - LSMNumRegs instr) 0"

definition exec_92 :: "'io cpu_env \<Rightarrow> 'io ARMul_State \<Rightarrow> ARMword \<Rightarrow> 'io ARMul_State sim" where
  "exec_92 env s instr = (let temp = LSBase s instr - LSMNumRegs instr in StoreMult env s instr temp temp)"

definition exec_93 :: "'io cpu_env \<Rightarrow> 'io ARMul_State \<Rightarrow> ARMword \<Rightarrow> 'io ARMul_State sim" where
  "exec_93 env s instr = (let temp = LSBase s instr - LSMNumRegs instr in LoadMult env s instr temp temp)"

definition exec_94 :: "'io cpu_env \<Rightarrow> 'io ARMul_State \<Rightarrow> ARMword \<Rightarrow> 'io ARMul_State sim" where
  "exec_94 env s instr = StoreSMult env s instr (LSBase s instr - LSMNumRegs instr) 0"

definition exec_95 :: "'io cpu_env \<Rightarrow> 'io ARMul_State \<Rightarrow> ARMword \<Rightarrow> 'io ARMul_State sim" where
  "exec_95 env s instr = LoadSMult env s instr (LSBase s instr - LSMNumRegs instr) 0"

definition exec_96 :: "'io cpu_env \<Rightarrow> 'io ARMul_State \<Rightarrow> ARMword \<Rightarrow> 'io ARMul_State sim" where
  "exec_96 env s instr = (let temp = LSBase s instr - LSMNumRegs instr in StoreSMult env s instr temp temp)"

definition exec_97 :: "'io cpu_env \<Rightarrow> 'io ARMul_State \<Rightarrow> ARMword \<Rightarrow> 'io ARMul_State sim" where
  "exec_97 env s instr = (let temp = LSBase s instr - LSMNumRegs instr in LoadSMult env s instr temp temp)"

definition exec_98 :: "'io cpu_env \<Rightarrow> 'io ARMul_State \<Rightarrow> ARMword \<Rightarrow> 'io ARMul_State sim" where
  "exec_98 env s instr = StoreMult env s instr (LSBase s instr + 4) 0"

definition exec_99 :: "'io cpu_env \<Rightarrow> 'io ARMul_State \<Rightarrow> ARMword \<Rightarrow> 'io ARMul_State sim" where
  "exec_99 env s instr = LoadMult env s instr (LSBase s instr + 4) 0"

definition exec_9a :: "'io cpu_env \<Rightarrow> 'io ARMul_State \<Rightarrow> ARMword \<Rightarrow> 'io ARMul_State sim" where
  "exec_9a env s instr = (let temp = LSBase s instr in StoreMult env s instr (temp + 4) (temp + LSMNumRegs instr))"

definition exec_9b :: "'io cpu_env \<Rightarrow> 'io ARMul_State \<Rightarrow> ARMword \<Rightarrow> 'io ARMul_State sim" where
  "exec_9b env s instr = (let temp = LSBase s instr in LoadMult env s instr (temp + 4) (temp + LSMNumRegs instr))"

definition exec_9c :: "'io cpu_env \<Rightarrow> 'io ARMul_State \<Rightarrow> ARMword \<Rightarrow> 'io ARMul_State sim" where
  "exec_9c env s instr = StoreSMult env s instr (LSBase s instr + 4) 0"

definition exec_9d :: "'io cpu_env \<Rightarrow> 'io ARMul_State \<Rightarrow> ARMword \<Rightarrow> 'io ARMul_State sim" where
  "exec_9d env s instr = LoadSMult env s instr (LSBase s instr + 4) 0"

definition exec_9e :: "'io cpu_env \<Rightarrow> 'io ARMul_State \<Rightarrow> ARMword \<Rightarrow> 'io ARMul_State sim" where
  "exec_9e env s instr = (let temp = LSBase s instr in StoreSMult env s instr (temp + 4) (temp + LSMNumRegs instr))"

definition exec_9f :: "'io cpu_env \<Rightarrow> 'io ARMul_State \<Rightarrow> ARMword \<Rightarrow> 'io ARMul_State sim" where
  "exec_9f env s instr = (let temp = LSBase s instr in LoadSMult env s instr (temp + 4) (temp + LSMNumRegs instr))"

section \<open>The cases of the switch in order\<close>

definition single_cases :: "('io cpu_env \<Rightarrow> 'io ARMul_State \<Rightarrow> ARMword \<Rightarrow> 'io ARMul_State sim) list" where
  "single_cases =
     [exec_40, exec_41, exec_42, exec_43, exec_44, exec_45, exec_46, exec_47,
      exec_48, exec_49, exec_4a, exec_4b, exec_4c, exec_4d, exec_4e, exec_4f,
      exec_50, exec_51, exec_52, exec_53, exec_54, exec_55, exec_56, exec_57,
      exec_58, exec_59, exec_5a, exec_5b, exec_5c, exec_5d, exec_5e, exec_5f,
      exec_60, exec_61, exec_62, exec_63, exec_64, exec_65, exec_66, exec_67,
      exec_68, exec_69, exec_6a, exec_6b, exec_6c, exec_6d, exec_6e, exec_6f,
      exec_70, exec_71, exec_72, exec_73, exec_74, exec_75, exec_76, exec_77,
      exec_78, exec_79, exec_7a, exec_7b, exec_7c, exec_7d, exec_7e, exec_7f]"

definition multiple_cases :: "('io cpu_env \<Rightarrow> 'io ARMul_State \<Rightarrow> ARMword \<Rightarrow> 'io ARMul_State sim) list" where
  "multiple_cases =
     [exec_80, exec_81, exec_82, exec_83, exec_84, exec_85, exec_86, exec_87,
      exec_88, exec_89, exec_8a, exec_8b, exec_8c, exec_8d, exec_8e, exec_8f,
      exec_90, exec_91, exec_92, exec_93, exec_94, exec_95, exec_96, exec_97,
      exec_98, exec_99, exec_9a, exec_9b, exec_9c, exec_9d, exec_9e, exec_9f]"

section \<open>One addressing scheme\<close>

text \<open>
  The scheme by the bits of the opcode: register offset, pre-indexed, up, byte, write back, load. The
  offset of a post-indexed store is read after the access.
\<close>

definition single_transfer ::
  "nat \<Rightarrow> 'io cpu_env \<Rightarrow> 'io ARMul_State \<Rightarrow> ARMword \<Rightarrow> 'io ARMul_State sim" where
  "single_transfer n env s instr =
     (let reg = bit n 5; pre = bit n 4; up = bit n 3; byte = bit n 2; wb = bit n 1; load = bit n 0;
          moved = (\<lambda>t. let off = (if reg then LSRegRHS t instr else LSImmRHS instr)
                       in if up then LHS s instr + off else LHS s instr - off);
          addr = (if pre then moved s else LHS s instr);
          user = (\<not> pre \<and> wb);
          u = (if user then NTRANS_LOW s else s);
          r = (if load then if byte then LoadByte env u instr addr False else LoadWord env u instr addr
               else if byte then StoreByte env u instr addr else StoreWord env u instr addr);
          r = (if pre \<and> \<not> wb then ls_void r
               else ls_base instr (if pre \<or> load then (\<lambda>_. moved s) else moved) r)
      in if user then ntrans_restore r else r)"

definition multiple_transfer ::
  "nat \<Rightarrow> 'io cpu_env \<Rightarrow> 'io ARMul_State \<Rightarrow> ARMword \<Rightarrow> 'io ARMul_State sim" where
  "multiple_transfer n env s instr =
     (let pre = bit n 4; up = bit n 3; flags = bit n 2; wb = bit n 1; load = bit n 0;
          size = 4 * of_nat (length (lsm_regs instr)); base = Reg s (LHSReg instr);
          low = (if up then base else base - size); addr = (if pre = up then low + 4 else low);
          new = (if wb then if up then base + size else base - size else 0)
      in (if load then if flags then LoadSMult else LoadMult
          else if flags then StoreSMult else StoreMult) env s instr addr new)"

lemmas exec_single_defs = exec_40_def exec_41_def exec_42_def exec_43_def exec_44_def exec_45_def exec_46_def exec_47_def
    exec_48_def exec_49_def exec_4a_def exec_4b_def exec_4c_def exec_4d_def exec_4e_def exec_4f_def
    exec_50_def exec_51_def exec_52_def exec_53_def exec_54_def exec_55_def exec_56_def exec_57_def
    exec_58_def exec_59_def exec_5a_def exec_5b_def exec_5c_def exec_5d_def exec_5e_def exec_5f_def
    exec_60_def exec_61_def exec_62_def exec_63_def exec_64_def exec_65_def exec_66_def exec_67_def
    exec_68_def exec_69_def exec_6a_def exec_6b_def exec_6c_def exec_6d_def exec_6e_def exec_6f_def
    exec_70_def exec_71_def exec_72_def exec_73_def exec_74_def exec_75_def exec_76_def exec_77_def
    exec_78_def exec_79_def exec_7a_def exec_7b_def exec_7c_def exec_7d_def exec_7e_def exec_7f_def

lemmas exec_multiple_defs = exec_80_def exec_81_def exec_82_def exec_83_def exec_84_def exec_85_def exec_86_def exec_87_def
    exec_88_def exec_89_def exec_8a_def exec_8b_def exec_8c_def exec_8d_def exec_8e_def exec_8f_def
    exec_90_def exec_91_def exec_92_def exec_93_def exec_94_def exec_95_def exec_96_def exec_97_def
    exec_98_def exec_99_def exec_9a_def exec_9b_def exec_9c_def exec_9d_def exec_9e_def exec_9f_def

lemma all_less_16_iff:
  "(\<forall>n<16. P n) \<longleftrightarrow> P 0 \<and> P 1 \<and> P 2 \<and> P 3 \<and> P 4 \<and> P 5 \<and> P 6 \<and> P 7 \<and> P 8 \<and> P 9 \<and> P 10 \<and> P 11
    \<and> P 12 \<and> P 13 \<and> P 14 \<and> P (15 :: nat)"
  by (simp add: numeral_eq_Suc All_less_Suc conj_ac)

lemma less_64_cases:
  assumes "\<forall>n<16. P n" "\<forall>n<16. P (16 + n)" "\<forall>n<16. P (32 + n)" "\<forall>n<16. P (48 + n)" "n < 64"
  shows "P (n :: nat)"
proof -
  consider "n < 16" | "16 \<le> n" "n < 32" | "32 \<le> n" "n < 48" | "48 \<le> n" "n < 64" using assms(5) by linarith
  then show ?thesis
  proof cases
    case 2 then show ?thesis using assms(2) [rule_format, of "n - 16"] by simp
  next
    case 3 then show ?thesis using assms(3) [rule_format, of "n - 32"] by simp
  next
    case 4 then show ?thesis using assms(4) [rule_format, of "n - 48"] by simp
  qed (use assms(1) in blast)
qed

lemma single_cases_scheme:
  assumes "n < 64" "n < 32 \<or> \<not> bit instr 4"
  shows "(single_cases ! n) env s instr = single_transfer n env s instr"
proof -
  let ?P = "\<lambda>n. n < 32 \<or> \<not> bit instr 4 \<longrightarrow> (single_cases ! n) env s instr = single_transfer n env s instr"
  have "?P n"
  proof (rule less_64_cases [of ?P, OF _ _ _ _ assms(1)])
    show "\<forall>n<16. ?P n" unfolding all_less_16_iff
      by (intro conjI) (simp_all add: single_cases_def exec_single_defs single_transfer_def Let_def bit_0)
    show "\<forall>n<16. ?P (16 + n)" unfolding all_less_16_iff
      by (intro conjI) (simp_all add: single_cases_def exec_single_defs single_transfer_def Let_def bit_0)
    show "\<forall>n<16. ?P (32 + n)" unfolding all_less_16_iff
      by (intro conjI) (simp_all add: single_cases_def exec_single_defs single_transfer_def Let_def bit_0 ls_undef_def ls_v6_def)
    show "\<forall>n<16. ?P (48 + n)" unfolding all_less_16_iff
      by (intro conjI) (simp_all add: single_cases_def exec_single_defs single_transfer_def Let_def bit_0 ls_undef_def ls_v6_def)
  qed
  then show ?thesis using assms(2) by simp
qed

lemma sum_list_count: "sum_list (map (\<lambda>j. if P j then 1 else 0) xs) = (of_nat (length (filter P xs)) :: ARMword)"
  by (induction xs) simp_all

lemma BitList_length: "ARMul_BitList b = 4 * of_nat (length (filter (bit b) [0..<8]))"
  by (simp add: ARMul_BitList_def sum_list_count and_exp_eq_0_iff_not_bit)

lemma LSMNumRegs_length: "LSMNumRegs instr = 4 * of_nat (length (lsm_regs instr))"
proof -
  have "[0..<16] = [0..<8] @ map ((+) 8) [0..<8]" by (simp add: upt_rec)
  then have "length (lsm_regs instr) = length (filter (bit instr) [0..<8]) + length (filter (\<lambda>k. bit instr (8 + k)) [0..<8])"
    by (simp add: lsm_regs_def filter_map o_def)
  moreover have "filter (bit (BITS instr 0 7)) [0..<8] = filter (bit instr) [0..<8]"
    "filter (bit (BITS instr 8 15)) [0..<8] = filter (\<lambda>k. bit instr (8 + k)) [0..<8]"
    by (auto intro!: filter_cong simp: bit_BITS)
  ultimately show ?thesis by (simp add: LSMNumRegs_def BitList_length)
qed

lemma multiple_cases_scheme:
  assumes "n < 32"
  shows "(multiple_cases ! n) env s instr = multiple_transfer n env s instr"
proof -
  have "\<forall>n<32. (multiple_cases ! n) env s instr = multiple_transfer n env s instr"
    unfolding all_less_32_iff
    by (intro conjI) (simp_all add: multiple_cases_def exec_multiple_defs multiple_transfer_def Let_def bit_0
        LSMNumRegs_length LSBase_def)
  then show ?thesis using assms by blast
qed

lemma opcode_index:
  "unat (BITS instr 20 25) < 64" "unat (BITS instr 20 24) < 32"
  "\<not> bit instr 25 \<Longrightarrow> unat (BITS instr 20 25) < 32"
proof -
  show "unat (BITS instr 20 25) < 64" "unat (BITS instr 20 24) < 32"
    using unat_BITS_bound [of 20 25 instr] unat_BITS_bound [of 20 24 instr] by simp_all
  assume "\<not> bit instr 25"
  then have "BITS instr 20 25 = BITS instr 20 24"
    by (intro bit_word_eqI) (auto simp: bit_BITS dest: le_antisym [rotated] elim: le_neq_implies_less)
  then show "unat (BITS instr 20 25) < 32" using unat_BITS_bound [of 20 24 instr] by simp
qed

text \<open>
  C29: the 64 cases of the single data transfers are one addressing scheme. For every opcode, the case that the
  switch selects with the bits 20 to 25 moves the word or byte that the load and byte bits name, at the address
  that the pre/post, up/down and immediate/register bits give, writes the base register back exactly in the
  forms that ask for it, and runs the post-indexed forms with write back under the rights of user mode. The
  register forms with bit 4 set are other instructions.
\<close>

theorem single_transfers:
  assumes "bit instr 25 \<longrightarrow> \<not> bit instr 4"
  shows "(single_cases ! unat (BITS instr 20 25)) env s instr = single_transfer (unat (BITS instr 20 25)) env s instr"
  using assms opcode_index [of instr] by (intro single_cases_scheme) blast+

theorem single_transfers_witness:
  "(single_cases ! 0x29) demo_env mul_state 0xE6910002 = single_transfer 0x29 demo_env mul_state 0xE6910002"
  using single_transfers [where instr = "0xE6910002" and env = demo_env and s = mul_state] by (simp add: BITS_def)

text \<open>
  The 32 cases of the multiple transfers use the lowest address of the block. The register list of length
  \<open>n\<close> occupies the words from the base up, from the base plus 4, down to the base, or below it, by the up and
  pre bits, and the new base is the old one moved by \<open>4 * n\<close>; the tables of bit counts give \<open>4 * n\<close> for
  every list.
\<close>

lemma multiple_transfers:
  "(multiple_cases ! unat (BITS instr 20 24)) env s instr = multiple_transfer (unat (BITS instr 20 24)) env s instr"
  by (rule multiple_cases_scheme) (rule opcode_index)

section \<open>Stacks\<close>

text \<open>
  The words of a block transfer by the bits of the instruction and the base: \<open>n\<close> registers occupy \<open>4 * n\<close> bytes above (bit
  23 set) or below the base, with the word at the base left out exactly when bit 24 is set; \<open>moved_base\<close> is the base after it.
\<close>

definition block_size :: "ARMword \<Rightarrow> ARMword" where
  "block_size instr = 4 * of_nat (length (lsm_regs instr))"

definition moved_base :: "ARMword \<Rightarrow> ARMword \<Rightarrow> ARMword" where
  "moved_base instr base = (if bit instr 23 then base + block_size instr else base - block_size instr)"

definition block_low :: "ARMword \<Rightarrow> ARMword \<Rightarrow> ARMword" where
  "block_low instr base =
     (let low = (if bit instr 23 then base else base - block_size instr) in if bit instr 24 = bit instr 23 then low + 4 else low)"

definition block_words :: "ARMword \<Rightarrow> ARMword \<Rightarrow> ARMword list" where
  "block_words instr base = word_addrs (block_low instr base) (length (lsm_regs instr))"

text \<open>The instruction that undoes another: a load for the store, of the same registers, in the opposite direction.\<close>

definition pops :: "ARMword \<Rightarrow> ARMword \<Rightarrow> bool" where
  "pops instr' instr \<longleftrightarrow> bit instr' 20 \<and> \<not> bit instr 20 \<and> bit instr' 21 \<and> bit instr 21 \<and> \<not> bit instr' 22 \<and> \<not> bit instr 22 \<and>
     bit instr' 23 \<noteq> bit instr 23 \<and> bit instr' 24 \<noteq> bit instr 24 \<and> lsm_regs instr' = lsm_regs instr \<and> LHSReg instr' = LHSReg instr"

lemma pops_block:
  assumes "pops instr' instr"
  shows "block_low instr' (moved_base instr base) = block_low instr base" "moved_base instr' (moved_base instr base) = base"
  using assms by (auto simp: pops_def block_low_def moved_base_def block_size_def Let_def)

lemma opcode_bits: "k < 5 \<Longrightarrow> bit (unat (BITS instr 20 24)) k = bit instr (20 + k)"
  by (simp add: bit_unsigned_iff bit_BITS)

text \<open>The case of the switch for a multiple transfer with write back and without the user bank.\<close>

lemma multiple_case:
  assumes "bit instr 21" "\<not> bit instr 22"
  shows "(multiple_cases ! unat (BITS instr 20 24)) env s instr =
    (if bit instr 20 then LoadMult else StoreMult) env s instr (block_low instr (Reg s (LHSReg instr))) (moved_base instr (Reg s (LHSReg instr)))"
  using assms opcode_bits [of 0 instr] opcode_bits [of 1 instr] opcode_bits [of 2 instr] opcode_bits [of 3 instr] opcode_bits [of 4 instr]
  by (simp add: multiple_cases_scheme opcode_index multiple_transfer_def block_low_def moved_base_def block_size_def Let_def)

text \<open>
  C8: push and pop. For each of the four kinds of stack, that is, for the store that decrements or increments the base
  before or after each word and the load that undoes it, both with write back: when the words of the block are granted, the
  cases of the switch for the store and then for the load of the same list with the same base register (not the PC and not in the list)
  give every register of the list and the base its value back, whatever the program put into the other registers of the list in
  between, and change no other register; the mode and the status register stay. The list does not hold the PC.
\<close>

theorem push_pop_roundtrip:
  assumes "vm_ok aenv s" "Aborted s = 0" "is_v4 s \<noteq> 0" "pops instr' instr" "lsm_regs instr \<noteq> []" "\<not> bit instr' 15"
    "LHSReg instr \<noteq> 15" "LHSReg instr \<notin> set (lsm_regs instr)"
    "\<forall>a\<in>set (block_words instr (Reg s (LHSReg instr))). plain_word s a"
    "distinct (map (va_place s) (block_words instr (Reg s (LHSReg instr))))"
  shows "\<exists>t. (multiple_cases ! unat (BITS instr 20 24)) (with_arm926 e aenv) s instr = Inr t
    \<and> Reg t = (Reg s)(LHSReg instr := moved_base instr (Reg s (LHSReg instr)))
    \<and> (\<forall>u. same_sys t u \<and> Aborted u = 0 \<and> is_v4 u \<noteq> 0 \<and> Reg u (LHSReg instr) = Reg t (LHSReg instr) \<longrightarrow>
        (\<exists>v. (multiple_cases ! unat (BITS instr' 20 24)) (with_arm926 e aenv) u instr' = Inr v \<and> ctl_frame u v
          \<and> Reg v = (\<lambda>r. if r \<in> set (lsm_regs instr) \<or> r = LHSReg instr then Reg s r else Reg u r)))"
proof -
  let ?b = "LHSReg instr"
  let ?low = "block_low instr (Reg s ?b)" and ?new = "moved_base instr (Reg s ?b)"
  note p = assms(4) [unfolded pops_def]
  have st: "(multiple_cases ! unat (BITS instr 20 24)) (with_arm926 e aenv) s instr = StoreMult (with_arm926 e aenv) s instr ?low ?new"
    using p by (simp add: multiple_case)
  have ld: "(multiple_cases ! unat (BITS instr' 20 24)) (with_arm926 e aenv) u instr' = LoadMult (with_arm926 e aenv) u instr' ?low (Reg s ?b)"
    if "Reg u ?b = ?new" for u
    using p that pops_block [OF assms(4), of "Reg s ?b"] by (simp add: multiple_case)
  from arm926.block_transfer_roundtrip [OF assms(1-3,5), of ?low instr' e ?new "Reg s ?b"] assms(6,9,10) p
  obtain t where t: "StoreMult (with_arm926 e aenv) s instr ?low ?new = Inr t" "Reg t = written_base instr ?new (Reg s)"
    "\<And>u. same_sys t u \<Longrightarrow> Aborted u = 0 \<Longrightarrow> is_v4 u \<noteq> 0 \<Longrightarrow>
        \<exists>v. LoadMult (with_arm926 e aenv) u instr' ?low (Reg s ?b) = Inr v \<and> ctl_frame u v
          \<and> Reg v = written_base instr' (Reg s ?b) (\<lambda>r. if r \<in> set (lsm_regs instr) then Reg s r else Reg u r)"
    by (auto simp: block_words_def)
  have r: "Reg t = (Reg s)(?b := ?new)" using t(2) p assms(7) by (simp add: written_base_def)
  have "\<exists>v. (multiple_cases ! unat (BITS instr' 20 24)) (with_arm926 e aenv) u instr' = Inr v \<and> ctl_frame u v
          \<and> Reg v = (\<lambda>r. if r \<in> set (lsm_regs instr) \<or> r = ?b then Reg s r else Reg u r)"
    if "same_sys t u" "Aborted u = 0" "is_v4 u \<noteq> 0" "Reg u ?b = Reg t ?b" for u
    using t(3) [OF that(1-3)] ld [of u] that(4) r p assms(7) by (auto simp: written_base_def fun_eq_iff)
  then show ?thesis using st t(1) r by auto
qed

theorem push_pop_roundtrip_witness:
  "\<exists>t. exec_92 (with_arm926 demo_env bare_env) stack926 0xE92D4030 = Inr t \<and> Reg t 13 = 0x308000
    \<and> (\<forall>u. same_sys t u \<and> Aborted u = 0 \<and> is_v4 u \<noteq> 0 \<and> Reg u 13 = Reg t 13 \<longrightarrow>
        (\<exists>v. exec_8b (with_arm926 demo_env bare_env) u 0xE8BD4030 = Inr v \<and> ctl_frame u v
          \<and> Reg v 4 = 4 \<and> Reg v 5 = 5 \<and> Reg v 14 = 14 \<and> Reg v 13 = 0x30800C \<and> Reg v 6 = Reg u 6))"
proof -
  have r: "lsm_regs 0xE92D4030 = [4, 5, 14]" "lsm_regs 0xE8BD4030 = [4, 5, 14]" "LHSReg 0xE92D4030 = 13" "LHSReg 0xE8BD4030 = 13"
    by (simp_all add: lsm_regs_def upt_rec LHSReg_def BITS_def)
  have s: "Reg stack926 13 = 0x30800C" "Aborted stack926 = 0" "is_v4 stack926 \<noteq> 0" "Reg stack926 4 = 4" "Reg stack926 5 = 5" "Reg stack926 14 = 14"
    by (simp_all add: stack926_def)
  have a: "block_words 0xE92D4030 0x30800C = [0x308000, 0x308004, 0x308008]"
    by (simp add: block_words_def block_low_def block_size_def r word_addrs_def upt_rec)
  have p: "pops 0xE8BD4030 0xE92D4030" by (simp add: pops_def r)
  have i: "multiple_cases ! unat (BITS 0xE92D4030 20 24) = exec_92" "multiple_cases ! unat (BITS 0xE8BD4030 20 24) = exec_8b"
    by (simp_all add: BITS_def multiple_cases_def)
  have m: "moved_base 0xE92D4030 0x30800C = 0x308000" by (simp add: moved_base_def block_size_def r)
  have w: "\<forall>x\<in>set (block_words 0xE92D4030 (Reg stack926 (LHSReg 0xE92D4030))). plain_word stack926 x"
    "distinct (map (va_place stack926) (block_words 0xE92D4030 (Reg stack926 (LHSReg 0xE92D4030))))"
    using vm926_plain by (simp_all add: r s a stack926_view)
  show ?thesis
    using push_pop_roundtrip [OF stack926_view(1) s(2,3) p _ _ _ _ w, of demo_env] by (fastforce simp: r s i m)
qed

end
