(* ===== verification/Arm_Copro.thy ===== *)
theory Arm_Copro
  imports Arm_Ls
begin

text \<open>
  The coprocessor interface: the busy-waiting workers of \<^verbatim>\<open>arch/arm/common/armsupp.c\<close>, the
  coprocessors of \<^verbatim>\<open>armcopro.c\<close> (the validation coprocessor and the system control coprocessor in front
  of the MMU) and the coprocessor cases of the instruction switch (0xc0 to 0xef). The waiting loops
  take \<open>busy_limit\<close> as fuel; the theorems show that for the coprocessors of the simulator every wait
  ends within a number of turns that is known in advance.
\<close>

abbreviation (input) ARMul_FIRST :: ARMword where "ARMul_FIRST \<equiv> 0"
abbreviation (input) ARMul_TRANSFER :: ARMword where "ARMul_TRANSFER \<equiv> 1"
abbreviation (input) ARMul_BUSY :: ARMword where "ARMul_BUSY \<equiv> 2"
abbreviation (input) ARMul_DATA :: ARMword where "ARMul_DATA \<equiv> 3"
abbreviation (input) ARMul_INTERRUPT :: ARMword where "ARMul_INTERRUPT \<equiv> 4"
abbreviation (input) ARMul_DONE :: ARMword where "ARMul_DONE \<equiv> 0"
abbreviation (input) ARMul_CANT :: ARMword where "ARMul_CANT \<equiv> 1"
abbreviation (input) ARMul_INC :: ARMword where "ARMul_INC \<equiv> 3"

section \<open>Aborts inside a coprocessor instruction\<close>

definition ADDREXCEPT :: "ARMword \<Rightarrow> 'io ARMul_State \<Rightarrow> bool" where
  "ADDREXCEPT address s \<longleftrightarrow> address > 0x03ffffff \<and> data32Sig s = 0"

definition VECTORACCESS :: "ARMword \<Rightarrow> 'io ARMul_State \<Rightarrow> bool" where
  "VECTORACCESS address s \<longleftrightarrow> address < 0x20 \<and> Mode s \<le> 3 \<and> prog32Sig s \<noteq> 0"

definition INTERNALABORT :: "ARMword \<Rightarrow> 'io ARMul_State \<Rightarrow> 'io ARMul_State" where
  "INTERNALABORT address s =
     s\<lparr>Aborted := if address < 0x20 then ARMul_DataAbortV else ARMul_AddrExceptnV\<rparr>"

text \<open>\<^verbatim>\<open>TAKEABORT\<close> as \<^verbatim>\<open>armsupp.c\<close> is compiled, without \<^verbatim>\<open>MODE32\<close>.\<close>

definition TAKEABORT26 :: "'io ARMul_State \<Rightarrow> 'io ARMul_State" where
  "TAKEABORT26 s =
     (if Aborted s = ARMul_AddrExceptnV then ARMul_Abort s ARMul_AddrExceptnV else ARMul_Abort s ARMul_DataAbortV)"

definition CPTAKEABORT :: "'io ARMul_State \<Rightarrow> 'io ARMul_State" where
  "CPTAKEABORT s = (if Aborted s = 0 then ARMul_Abort s ARMul_UndefinedInstrV else TAKEABORT26 s)"

section \<open>Busy waiting\<close>

text \<open>
  A call of a handler with the type of the cycle: its answer, and what it stored through its output
  argument. On an interrupt that argument is a null pointer.
\<close>

type_synonym 'io cp_call = "ARMword \<Rightarrow> 'io ARMul_State \<Rightarrow> (ARMword \<times> ARMword option \<times> 'io ARMul_State) sim"

text \<open>\<open>None\<close> in front of the state says that an interrupt ended the wait.\<close>

fun busy_wait ::
  "nat \<Rightarrow> 'io cp_call \<Rightarrow> ARMword \<Rightarrow> ARMword option \<Rightarrow> 'io ARMul_State
     \<Rightarrow> ((ARMword \<times> ARMword option) option \<times> 'io ARMul_State) sim" where
  "busy_wait 0 call cpab cell s =
     (if cpab = ARMul_BUSY then Inl BusyForever else Inr (Some (cpab, cell), s))"
| "busy_wait (Suc n) call cpab cell s =
     (if cpab = ARMul_BUSY
      then let (pending, s) = IntPending (ARMul_Icycles s 1)
           in if pending
              then bind_ok (call ARMul_INTERRUPT s) (\<lambda>(_, out, s).
                     case out of None \<Rightarrow> Inr (None, s) | Some _ \<Rightarrow> Inl NullPointer)
              else bind_ok (call ARMul_BUSY s) (\<lambda>(cpab, out, s).
                     busy_wait n call cpab (case out of None \<Rightarrow> cell | Some v \<Rightarrow> Some v) s)
      else Inr (Some (cpab, cell), s))"

definition cp_start ::
  "nat \<Rightarrow> 'io cp_call \<Rightarrow> ARMword option \<Rightarrow> 'io ARMul_State
     \<Rightarrow> ((ARMword \<times> ARMword option) option \<times> 'io ARMul_State) sim" where
  "cp_start n call cell s =
     bind_ok (call ARMul_FIRST s) (\<lambda>(cpab, out, s).
       busy_wait n call cpab (case out of None \<Rightarrow> cell | Some v \<Rightarrow> Some v) s)"

definition no_out :: "(ARMword \<times> 'io ARMul_State) sim \<Rightarrow> (ARMword \<times> ARMword option \<times> 'io ARMul_State) sim" where
  "no_out r = bind_ok r (\<lambda>(cpab, s). Inr (cpab, None, s))"

section \<open>The five kinds of coprocessor instruction (armsupp.c)\<close>

definition CPNum :: "ARMword \<Rightarrow> nat" where "CPNum instr = unat (BITS instr 8 11)"

definition abort_seen :: "'io ARMul_State \<Rightarrow> bool" where
  "abort_seen s \<longleftrightarrow> abortSig s \<noteq> 0 \<or> Aborted s \<noteq> 0"

text \<open>What follows the label of the abort in \<^verbatim>\<open>ARMul_LDC\<close> and \<^verbatim>\<open>ARMul_STC\<close>.\<close>

definition cp_transfer_end :: "ARMword \<Rightarrow> 'io ARMul_State \<Rightarrow> 'io ARMul_State" where
  "cp_transfer_end instr s =
     (let s = (if BIT instr 21 \<noteq> 0 \<and> \<not> (abort_seen s \<and> lateabtSig s = LOW)
               then set_reg (LHSReg instr) (Base s) s else s)
      in if abort_seen s then TAKEABORT26 s else s)"

text \<open>The words after the first one: as many as the coprocessor asks for.\<close>

fun ldc_loop ::
  "nat \<Rightarrow> 'io cpu_env \<Rightarrow> ARMword \<Rightarrow> ARMword \<Rightarrow> ARMword \<Rightarrow> 'io ARMul_State \<Rightarrow> 'io ARMul_State sim" where
  "ldc_loop 0 env instr cpab address s = (if cpab = ARMul_INC then Inl BusyForever else Inr s)"
| "ldc_loop (Suc n) env instr cpab address s =
     (if cpab = ARMul_INC
      then bind_ok (ARMul_LoadWordN env s (address + 4)) (\<lambda>(data, s).
             if abort_seen s then Inr s
             else bind_ok (cp_LDC env (CPNum instr) s ARMul_DATA instr data) (\<lambda>(cpab, s).
                    ldc_loop n env instr cpab (address + 4) s))
      else Inr s)"

definition ARMul_LDC :: "'io cpu_env \<Rightarrow> 'io ARMul_State \<Rightarrow> ARMword \<Rightarrow> ARMword \<Rightarrow> 'io ARMul_State sim" where
  "ARMul_LDC env s instr address =
     (let call = (\<lambda>ty s. no_out (cp_LDC env (CPNum instr) s ty instr 0));
          s = (if ADDREXCEPT address s then INTERNALABORT address s else s)
      in bind_ok (cp_start (busy_limit env) call None s) (\<lambda>(r, s).
           case r of
             None \<Rightarrow> Inr s
           | Some (cpab, _) \<Rightarrow>
               if cpab = ARMul_CANT then Inr (CPTAKEABORT s)
               else bind_ok (call ARMul_TRANSFER s) (\<lambda>(_, _, s).
                    bind_ok (ARMul_LoadWordN env s address) (\<lambda>(data, s).
                      if abort_seen s then Inr (cp_transfer_end instr s)
                      else bind_ok (cp_LDC env (CPNum instr) (BUSUSEDINCPCN s) ARMul_DATA instr data) (\<lambda>(cpab, s).
                             bind_ok (ldc_loop (busy_limit env) env instr cpab address s) (\<lambda>s.
                               Inr (cp_transfer_end instr s)))))))"

text \<open>One word of a store: the handler fills \<^verbatim>\<open>data\<close>, which is uninitialised before the first call.\<close>

definition stc_word ::
  "'io cpu_env \<Rightarrow> ARMword \<Rightarrow> ARMword \<Rightarrow> ARMword option \<Rightarrow> 'io ARMul_State
     \<Rightarrow> (ARMword \<times> ARMword option \<times> 'io ARMul_State) sim" where
  "stc_word env instr address cell s =
     bind_ok (cp_STC env (CPNum instr) s ARMul_DATA instr) (\<lambda>(cpab, out, s).
       let cell = (case out of None \<Rightarrow> cell | Some v \<Rightarrow> Some v)
       in case cell of None \<Rightarrow> Inl Uninitialised
          | Some data \<Rightarrow> bind_ok (ARMul_StoreWordN env s address data) (\<lambda>s. Inr (cpab, cell, s)))"

fun stc_loop ::
  "nat \<Rightarrow> 'io cpu_env \<Rightarrow> ARMword \<Rightarrow> ARMword \<Rightarrow> ARMword \<Rightarrow> ARMword option \<Rightarrow> 'io ARMul_State \<Rightarrow> 'io ARMul_State sim" where
  "stc_loop 0 env instr cpab address cell s =
     (if \<not> abort_seen s \<and> cpab = ARMul_INC then Inl BusyForever else Inr s)"
| "stc_loop (Suc n) env instr cpab address cell s =
     (if \<not> abort_seen s \<and> cpab = ARMul_INC
      then bind_ok (stc_word env instr (address + 4) cell s) (\<lambda>(cpab, cell, s).
             stc_loop n env instr cpab (address + 4) cell s)
      else Inr s)"

definition ARMul_STC :: "'io cpu_env \<Rightarrow> 'io ARMul_State \<Rightarrow> ARMword \<Rightarrow> ARMword \<Rightarrow> 'io ARMul_State sim" where
  "ARMul_STC env s instr address =
     (let call = (\<lambda>ty s. cp_STC env (CPNum instr) s ty instr);
          exceptional = (\<lambda>s. ADDREXCEPT address s \<or> VECTORACCESS address s);
          s = (if exceptional s then INTERNALABORT address s else s)
      in bind_ok (cp_start (busy_limit env) call None s) (\<lambda>(r, s).
           case r of
             None \<Rightarrow> Inr s
           | Some (cpab, cell) \<Rightarrow>
               if cpab = ARMul_CANT then Inr (CPTAKEABORT s)
               else let s = (if exceptional s then INTERNALABORT address s else s)
                    in bind_ok (stc_word env instr address cell (BUSUSEDINCPCN s)) (\<lambda>(cpab, cell, s).
                         bind_ok (stc_loop (busy_limit env) env instr cpab address cell s) (\<lambda>s.
                           Inr (cp_transfer_end instr s)))))"

definition ARMul_MCR :: "'io cpu_env \<Rightarrow> 'io ARMul_State \<Rightarrow> ARMword \<Rightarrow> ARMword \<Rightarrow> 'io ARMul_State sim" where
  "ARMul_MCR env s instr source =
     (let call = (\<lambda>ty s. no_out (cp_MCR env (CPNum instr) s ty instr (if ty = ARMul_INTERRUPT then 0 else source)))
      in bind_ok (cp_start (busy_limit env) call None s) (\<lambda>(r, s).
           case r of
             None \<Rightarrow> Inr s
           | Some (cpab, _) \<Rightarrow>
               if cpab = ARMul_CANT then Inr (ARMul_Abort s ARMul_UndefinedInstrV)
               else Inr (ARMul_Ccycles (BUSUSEDINCPCN s) 1)))"

definition ARMul_MRC :: "'io cpu_env \<Rightarrow> 'io ARMul_State \<Rightarrow> ARMword \<Rightarrow> (ARMword \<times> 'io ARMul_State) sim" where
  "ARMul_MRC env s instr =
     (let call = (\<lambda>ty s. cp_MRC env (CPNum instr) s ty instr)
      in bind_ok (cp_start (busy_limit env) call (Some 0) s) (\<lambda>(r, s).
           case r of
             None \<Rightarrow> Inr (0, s)
           | Some (cpab, cell) \<Rightarrow>
               if cpab = ARMul_CANT
               then let s = ARMul_Abort s ARMul_UndefinedInstrV in Inr (ECC s, s)
               else case cell of None \<Rightarrow> Inl Uninitialised
                    | Some result \<Rightarrow> Inr (result, ARMul_Icycles (ARMul_Ccycles (BUSUSEDINCPCN s) 1) 1)))"

definition ARMul_CDP :: "'io cpu_env \<Rightarrow> 'io ARMul_State \<Rightarrow> ARMword \<Rightarrow> 'io ARMul_State sim" where
  "ARMul_CDP env s instr =
     (let call = (\<lambda>ty s. no_out (cp_CDP env (CPNum instr) s ty instr))
      in bind_ok (cp_start (busy_limit env) call None s) (\<lambda>(r, s).
           case r of
             None \<Rightarrow> Inr s
           | Some (cpab, _) \<Rightarrow>
               if cpab = ARMul_CANT then Inr (ARMul_Abort s ARMul_UndefinedInstrV) else Inr (BUSUSEDN s)))"

section \<open>The coprocessors of the simulator (armcopro.c)\<close>

text \<open>
  The static variables of \<^verbatim>\<open>armcopro.c\<close>, in front of the machine's own state: the registers of the
  validation coprocessor, the two counters \<^verbatim>\<open>words\<close> and the two times \<^verbatim>\<open>finish\<close>. \<^verbatim>\<open>MMUReg\<close> is
  written once by \<^verbatim>\<open>MMUInit\<close> and never read.
\<close>

record 'm copro_io =
  ValReg :: "nat \<Rightarrow> ARMword"
  ldc_words :: ARMword
  stc_words :: ARMword
  val_finish :: ARMword
  int_finish :: ARMword
  machine :: 'm

type_synonym 'm copro_state = "'m copro_io ARMul_State"

definition upd_cp :: "('m copro_io \<Rightarrow> 'm copro_io) \<Rightarrow> 'm copro_state \<Rightarrow> 'm copro_state" where
  "upd_cp f s = s\<lparr>mach_io := f (mach_io s)\<rparr>"

definition NoCoPro3R :: "'io ARMul_State \<Rightarrow> ARMword \<Rightarrow> ARMword \<Rightarrow> (ARMword \<times> 'io ARMul_State) sim" where
  "NoCoPro3R s a b = Inr (ARMul_CANT, s)"

definition NoCoPro4R :: "'io ARMul_State \<Rightarrow> ARMword \<Rightarrow> ARMword \<Rightarrow> ARMword \<Rightarrow> (ARMword \<times> 'io ARMul_State) sim" where
  "NoCoPro4R s a b c = Inr (ARMul_CANT, s)"

definition NoCoPro4W ::
  "'io ARMul_State \<Rightarrow> ARMword \<Rightarrow> ARMword \<Rightarrow> (ARMword \<times> ARMword option \<times> 'io ARMul_State) sim" where
  "NoCoPro4W s a b = Inr (ARMul_CANT, None, s)"

definition MMUMRC ::
  "'io cpu_env \<Rightarrow> 'io ARMul_State \<Rightarrow> ARMword \<Rightarrow> ARMword \<Rightarrow> (ARMword \<times> ARMword option \<times> 'io ARMul_State) sim" where
  "MMUMRC env s type instr = bind_ok (op_mrc (mmu_ops env) s instr) (\<lambda>(v, s). Inr (ARMul_DONE, Some v, s))"

definition MMUMCR ::
  "'io cpu_env \<Rightarrow> 'io ARMul_State \<Rightarrow> ARMword \<Rightarrow> ARMword \<Rightarrow> ARMword \<Rightarrow> (ARMword \<times> 'io ARMul_State) sim" where
  "MMUMCR env s type instr value = bind_ok (op_mcr (mmu_ops env) s instr value) (\<lambda>s. Inr (ARMul_DONE, s))"

definition ValLDC ::
  "'m copro_state \<Rightarrow> ARMword \<Rightarrow> ARMword \<Rightarrow> ARMword \<Rightarrow> (ARMword \<times> 'm copro_state) sim" where
  "ValLDC s type instr data =
     (if type \<noteq> ARMul_DATA then Inr (ARMul_DONE, upd_cp (\<lambda>c. c\<lparr>ldc_words := 0\<rparr>) s)
      else let s = upd_cp (\<lambda>c. c\<lparr>ValReg := (ValReg c)(unat (BITS instr 12 15) := data)\<rparr>) s
           in if BIT instr 22 \<noteq> 0
              then let words = ldc_words (mach_io s); s = upd_cp (\<lambda>c. c\<lparr>ldc_words := words + 1\<rparr>) s
                   in Inr (if words \<noteq> 4 then ARMul_INC else ARMul_DONE, s)
              else Inr (ARMul_DONE, s))"

definition ValSTC ::
  "'m copro_state \<Rightarrow> ARMword \<Rightarrow> ARMword \<Rightarrow> (ARMword \<times> ARMword option \<times> 'm copro_state) sim" where
  "ValSTC s type instr =
     (if type \<noteq> ARMul_DATA then Inr (ARMul_DONE, None, upd_cp (\<lambda>c. c\<lparr>stc_words := 0\<rparr>) s)
      else let data = ValReg (mach_io s) (unat (BITS instr 12 15))
           in if BIT instr 22 \<noteq> 0
              then let words = stc_words (mach_io s); s = upd_cp (\<lambda>c. c\<lparr>stc_words := words + 1\<rparr>) s
                   in Inr (if words \<noteq> 4 then ARMul_INC else ARMul_DONE, Some data, s)
              else Inr (ARMul_DONE, Some data, s))"

definition ValMRC ::
  "'m copro_state \<Rightarrow> ARMword \<Rightarrow> ARMword \<Rightarrow> (ARMword \<times> ARMword option \<times> 'm copro_state) sim" where
  "ValMRC s type instr = Inr (ARMul_DONE, Some (ValReg (mach_io s) (unat (BITS instr 16 19))), s)"

definition ValMCR ::
  "'m copro_state \<Rightarrow> ARMword \<Rightarrow> ARMword \<Rightarrow> ARMword \<Rightarrow> (ARMword \<times> 'm copro_state) sim" where
  "ValMCR s type instr value =
     Inr (ARMul_DONE, upd_cp (\<lambda>c. c\<lparr>ValReg := (ValReg c)(unat (BITS instr 16 19) := value)\<rparr>) s)"

definition ValCDP :: "'m copro_state \<Rightarrow> ARMword \<Rightarrow> ARMword \<Rightarrow> (ARMword \<times> 'm copro_state) sim" where
  "ValCDP s type instr =
     (if BITS instr 20 23 \<noteq> 0 then Inr (ARMul_CANT, s)
      else if type = ARMul_FIRST
      then let howlong = ValReg (mach_io s) (unat (BITS instr 0 3));
               s = upd_cp (\<lambda>c. c\<lparr>val_finish := ARMul_Time s + howlong\<rparr>) s
           in Inr (if howlong = 0 then ARMul_DONE else ARMul_BUSY, s)
      else if type = ARMul_BUSY
      then Inr (if ARMul_Time s \<ge> val_finish (mach_io s) then ARMul_DONE else ARMul_BUSY, s)
      else Inr (ARMul_CANT, s))"

text \<open>The two event functions, by the number under which they are scheduled.\<close>

definition DoAFIQ :: "'io ARMul_State \<Rightarrow> 'io ARMul_State" where "DoAFIQ s = s\<lparr>NfiqSig := LOW\<rparr>"

definition DoAIRQ :: "'io ARMul_State \<Rightarrow> 'io ARMul_State" where "DoAIRQ s = s\<lparr>NirqSig := LOW\<rparr>"

definition copro_event :: "nat \<Rightarrow> 'io ARMul_State \<Rightarrow> 'io ARMul_State" where
  "copro_event n = (if n = 0 then DoAFIQ else if n = 1 then DoAIRQ else id)"

definition IntCDP :: "'m copro_state \<Rightarrow> ARMword \<Rightarrow> ARMword \<Rightarrow> (ARMword \<times> 'm copro_state) sim" where
  "IntCDP s type instr =
     (let howlong = ValReg (mach_io s) (unat (BITS instr 0 3)); op = BITS instr 20 23
      in if op = 0
         then if type = ARMul_FIRST
              then let s = upd_cp (\<lambda>c. c\<lparr>int_finish := ARMul_Time s + howlong\<rparr>) s
                   in Inr (if howlong = 0 then ARMul_DONE else ARMul_BUSY, s)
              else if type = ARMul_BUSY
              then Inr (if ARMul_Time s \<ge> int_finish (mach_io s) then ARMul_DONE else ARMul_BUSY, s)
              else Inr (ARMul_DONE, s)
         else if op = 1
         then Inr (ARMul_DONE, if howlong = 0 then ARMul_Abort s ARMul_FIQV else ARMul_ScheduleEvent s howlong 0)
         else if op = 2
         then Inr (ARMul_DONE, if howlong = 0 then ARMul_Abort s ARMul_IRQV else ARMul_ScheduleEvent s howlong 1)
         else if op = 3 then Inr (ARMul_DONE, s\<lparr>NfiqSig := HIGH\<rparr>)
         else if op = 4 then Inr (ARMul_DONE, s\<lparr>NirqSig := HIGH\<rparr>)
         else if op = 5
         then Inr (ARMul_DONE, upd_cp (\<lambda>c. c\<lparr>ValReg := (ValReg c)(unat (BITS instr 0 3) := ARMul_Time s)\<rparr>) s)
         else Inr (ARMul_CANT, s))"

section \<open>The tables of handlers\<close>

definition attach :: "nat \<Rightarrow> 'f option \<Rightarrow> (nat \<Rightarrow> 'f) \<Rightarrow> nat \<Rightarrow> 'f" where
  "attach number f tab = (case f of None \<Rightarrow> tab | Some h \<Rightarrow> tab(number := h))"

definition ARMul_CoProAttach where
  "ARMul_CoProAttach number ldc stc mrc mcr cdp env =
     env\<lparr>cp_LDC := attach number ldc (cp_LDC env), cp_STC := attach number stc (cp_STC env),
         cp_MRC := attach number mrc (cp_MRC env), cp_MCR := attach number mcr (cp_MCR env),
         cp_CDP := attach number cdp (cp_CDP env)\<rparr>"

definition ARMul_CoProDetach :: "nat \<Rightarrow> 'io cpu_env \<Rightarrow> 'io cpu_env" where
  "ARMul_CoProDetach number =
     ARMul_CoProAttach number (Some NoCoPro4R) (Some NoCoPro4W) (Some NoCoPro4W) (Some NoCoPro4R) (Some NoCoPro3R)"

text \<open>The system control coprocessor reaches the MMU through the operations of the environment.\<close>

definition ARMul_CoProInit :: "'m copro_io cpu_env \<Rightarrow> 'm copro_io cpu_env" where
  "ARMul_CoProInit env =
     (let env = fold ARMul_CoProDetach [0..<16] env;
          env = ARMul_CoProAttach 4 (Some ValLDC) (Some ValSTC) (Some ValMRC) (Some ValMCR) (Some ValCDP) env;
          env = ARMul_CoProAttach 5 None None (Some ValMRC) (Some ValMCR) (Some IntCDP) env;
          env = ARMul_CoProAttach 15 None None (Some (MMUMRC env)) (Some (MMUMCR env)) None env;
          env = ARMul_CoProAttach 1 None None (Some ValMRC) (Some ValMCR) None env
      in ARMul_CoProAttach 2 (Some ValLDC) (Some ValSTC) None None None env)"

definition ARMul_CoProExit :: "'io cpu_env \<Rightarrow> 'io cpu_env" where
  "ARMul_CoProExit env = fold ARMul_CoProDetach [0..<16] env"

section \<open>The coprocessor cases of the switch\<close>

definition LSCOff :: "ARMword \<Rightarrow> ARMword" where "LSCOff instr = push_bit 2 (BITS instr 0 7)"

definition SETBASE :: "ARMword \<Rightarrow> 'io ARMul_State \<Rightarrow> 'io ARMul_State" where "SETBASE v s = s\<lparr>Base := v\<rparr>"

definition exec_c0 :: "'io cpu_env \<Rightarrow> 'io ARMul_State \<Rightarrow> ARMword \<Rightarrow> 'io ARMul_State sim" where
  "exec_c0 env s instr = ARMul_STC env s instr (LHS s instr)"

definition exec_c1 :: "'io cpu_env \<Rightarrow> 'io ARMul_State \<Rightarrow> ARMword \<Rightarrow> 'io ARMul_State sim" where
  "exec_c1 env s instr = ARMul_LDC env s instr (LHS s instr)"

definition exec_c2 :: "'io cpu_env \<Rightarrow> 'io ARMul_State \<Rightarrow> ARMword \<Rightarrow> 'io ARMul_State sim" where
  "exec_c2 env s instr = (let lhs = LHS s instr in ARMul_STC env (SETBASE (lhs - LSCOff instr) s) instr lhs)"

definition exec_c3 :: "'io cpu_env \<Rightarrow> 'io ARMul_State \<Rightarrow> ARMword \<Rightarrow> 'io ARMul_State sim" where
  "exec_c3 env s instr = (let lhs = LHS s instr in ARMul_LDC env (SETBASE (lhs - LSCOff instr) s) instr lhs)"

text \<open>Both branches of the inner test of 0xc4 and 0xc5 are undefined.\<close>

definition exec_c4 :: "'io cpu_env \<Rightarrow> 'io ARMul_State \<Rightarrow> ARMword \<Rightarrow> 'io ARMul_State sim" where
  "exec_c4 env s instr =
     (if is_v5 s \<noteq> 0 then Inr (ARMul_UndefInstr (undf_trap env) s instr) else exec_c0 env s instr)"

definition exec_c5 :: "'io cpu_env \<Rightarrow> 'io ARMul_State \<Rightarrow> ARMword \<Rightarrow> 'io ARMul_State sim" where
  "exec_c5 env s instr =
     (if is_v5 s \<noteq> 0 then Inr (ARMul_UndefInstr (undf_trap env) s instr) else exec_c1 env s instr)"

definition exec_ca :: "'io cpu_env \<Rightarrow> 'io ARMul_State \<Rightarrow> ARMword \<Rightarrow> 'io ARMul_State sim" where
  "exec_ca env s instr = (let lhs = LHS s instr in ARMul_STC env (SETBASE (lhs + LSCOff instr) s) instr lhs)"

definition exec_cb :: "'io cpu_env \<Rightarrow> 'io ARMul_State \<Rightarrow> ARMword \<Rightarrow> 'io ARMul_State sim" where
  "exec_cb env s instr = (let lhs = LHS s instr in ARMul_LDC env (SETBASE (lhs + LSCOff instr) s) instr lhs)"

definition exec_d0 :: "'io cpu_env \<Rightarrow> 'io ARMul_State \<Rightarrow> ARMword \<Rightarrow> 'io ARMul_State sim" where
  "exec_d0 env s instr = ARMul_STC env s instr (LHS s instr - LSCOff instr)"

definition exec_d1 :: "'io cpu_env \<Rightarrow> 'io ARMul_State \<Rightarrow> ARMword \<Rightarrow> 'io ARMul_State sim" where
  "exec_d1 env s instr = ARMul_LDC env s instr (LHS s instr - LSCOff instr)"

definition exec_d2 :: "'io cpu_env \<Rightarrow> 'io ARMul_State \<Rightarrow> ARMword \<Rightarrow> 'io ARMul_State sim" where
  "exec_d2 env s instr = (let lhs = LHS s instr - LSCOff instr in ARMul_STC env (SETBASE lhs s) instr lhs)"

definition exec_d3 :: "'io cpu_env \<Rightarrow> 'io ARMul_State \<Rightarrow> ARMword \<Rightarrow> 'io ARMul_State sim" where
  "exec_d3 env s instr = (let lhs = LHS s instr - LSCOff instr in ARMul_LDC env (SETBASE lhs s) instr lhs)"

definition exec_d8 :: "'io cpu_env \<Rightarrow> 'io ARMul_State \<Rightarrow> ARMword \<Rightarrow> 'io ARMul_State sim" where
  "exec_d8 env s instr = ARMul_STC env s instr (LHS s instr + LSCOff instr)"

definition exec_d9 :: "'io cpu_env \<Rightarrow> 'io ARMul_State \<Rightarrow> ARMword \<Rightarrow> 'io ARMul_State sim" where
  "exec_d9 env s instr = ARMul_LDC env s instr (LHS s instr + LSCOff instr)"

definition exec_da :: "'io cpu_env \<Rightarrow> 'io ARMul_State \<Rightarrow> ARMword \<Rightarrow> 'io ARMul_State sim" where
  "exec_da env s instr = (let lhs = LHS s instr + LSCOff instr in ARMul_STC env (SETBASE lhs s) instr lhs)"

definition exec_db :: "'io cpu_env \<Rightarrow> 'io ARMul_State \<Rightarrow> ARMword \<Rightarrow> 'io ARMul_State sim" where
  "exec_db env s instr = (let lhs = LHS s instr + LSCOff instr in ARMul_LDC env (SETBASE lhs s) instr lhs)"

definition exec_e0 :: "'io cpu_env \<Rightarrow> 'io ARMul_State \<Rightarrow> ARMword \<Rightarrow> 'io ARMul_State sim" where
  "exec_e0 env s instr =
     (if BIT instr 4 \<noteq> 0
      then ARMul_MCR env s instr
             (if DESTReg instr = 15 then Reg s 15 + isize s else Reg s (DESTReg instr))
      else ARMul_CDP env s instr)"

definition exec_e1 :: "'io cpu_env \<Rightarrow> 'io ARMul_State \<Rightarrow> ARMword \<Rightarrow> 'io ARMul_State sim" where
  "exec_e1 env s instr =
     (if BIT instr 4 \<noteq> 0
      then bind_ok (ARMul_MRC env s instr) (\<lambda>(temp, s).
             if DESTReg instr = 15
             then Inr (s\<lparr>NFlag := of_bool (temp AND NBIT \<noteq> 0), ZFlag := of_bool (temp AND ZBIT \<noteq> 0),
                         CFlag := of_bool (temp AND CBIT \<noteq> 0), VFlag := of_bool (temp AND VBIT \<noteq> 0)\<rparr>)
             else Inr (set_reg (DESTReg instr) temp s))
      else ARMul_CDP env s instr)"

section \<open>Every wait ends\<close>

lemma fold_detach:
  "cp_CDP (fold ARMul_CoProDetach ns env) n = (if n \<in> set ns then NoCoPro3R else cp_CDP env n)"
  "cp_LDC (fold ARMul_CoProDetach ns env) n = (if n \<in> set ns then NoCoPro4R else cp_LDC env n)"
  "cp_STC (fold ARMul_CoProDetach ns env) n = (if n \<in> set ns then NoCoPro4W else cp_STC env n)"
  "cp_MRC (fold ARMul_CoProDetach ns env) n = (if n \<in> set ns then NoCoPro4W else cp_MRC env n)"
  "cp_MCR (fold ARMul_CoProDetach ns env) n = (if n \<in> set ns then NoCoPro4R else cp_MCR env n)"
  by (induction ns arbitrary: env) (simp_all add: ARMul_CoProDetach_def ARMul_CoProAttach_def attach_def)

lemma fold_detach_rest:
  "busy_limit (fold ARMul_CoProDetach ns env) = busy_limit env" "mmu_ops (fold ARMul_CoProDetach ns env) = mmu_ops env"
  by (induction ns arbitrary: env) (simp_all add: ARMul_CoProDetach_def ARMul_CoProAttach_def)

lemma CoProInit_table:
  assumes "n < 16"
  shows "cp_CDP (ARMul_CoProInit env) n = (if n = 4 then ValCDP else if n = 5 then IntCDP else NoCoPro3R)"
    and "cp_LDC (ARMul_CoProInit env) n = (if n = 2 \<or> n = 4 then ValLDC else NoCoPro4R)"
    and "cp_STC (ARMul_CoProInit env) n = (if n = 2 \<or> n = 4 then ValSTC else NoCoPro4W)"
  using assms by (simp_all add: ARMul_CoProInit_def Let_def ARMul_CoProAttach_def attach_def fold_detach)

lemma CoProInit_busy_limit [simp]: "busy_limit (ARMul_CoProInit env) = busy_limit env"
  by (simp add: ARMul_CoProInit_def Let_def ARMul_CoProAttach_def fold_detach_rest)

lemma CPNum_less: "CPNum instr < 16"
  using unat_BITS_bound [of 8 11 instr] by (simp add: CPNum_def)

lemma Icycles_time [simp]:
  "ARMul_Time (ARMul_Icycles s n) = ARMul_Time s + n" "mach_io (ARMul_Icycles s n) = mach_io s"
  by (simp_all add: ARMul_Time_def ARMul_Icycles_def)

lemma IntPending_no: "IntPending s = (False, t) \<Longrightarrow> t = s"
  by (auto simp: IntPending_def split: if_splits)

lemma busy_wait_ends:
  fixes call :: "'io cp_call" and fin :: "'io ARMul_State \<Rightarrow> ARMword"
  assumes busy: "\<And>s. call ARMul_BUSY s = Inr (if ARMul_Time s \<ge> fin s then ARMul_DONE else ARMul_BUSY, None, s)"
    and int: "\<And>s. \<exists>c t. call ARMul_INTERRUPT s = Inr (c, None, t)"
    and fin: "\<And>s n. fin (ARMul_Icycles s n) = fin s"
    and "unat (fin s - ARMul_Time s) \<le> n" "cpab = ARMul_BUSY \<longrightarrow> fin s \<noteq> ARMul_Time s"
  shows "\<exists>r t. busy_wait n call cpab cell s = Inr (r, t)"
  using assms(4,5)
proof (induction n arbitrary: s cpab cell)
  case 0
  then show ?case by (simp add: unat_eq_0)
next
  case (Suc n)
  let ?s = "ARMul_Icycles s 1"
  have step: "unat (fin ?s - ARMul_Time ?s) \<le> n" if "fin s \<noteq> ARMul_Time s"
  proof -
    have "unat (fin s - ARMul_Time s) \<noteq> 0" using that by (simp add: unsigned_eq_0_iff)
    then have "unat (fin s - ARMul_Time s - 1) = unat (fin s - ARMul_Time s) - 1"
      by (metis unat_minus_one unat_0)
    then show ?thesis using Suc.prems(1) by (simp add: fin algebra_simps)
  qed
  obtain p u where p: "IntPending ?s = (p, u)" by (cases "IntPending ?s")
  show ?case
  proof (cases "cpab = ARMul_BUSY \<and> \<not> p")
    case True
    then have u: "u = ?s" using p IntPending_no [of ?s u] by simp
    have "\<exists>r t. busy_wait n call (if ARMul_Time u \<ge> fin u then ARMul_DONE else ARMul_BUSY) cell u = Inr (r, t)"
      unfolding u using step Suc.prems True by (intro Suc.IH) auto
    then show ?thesis using True p busy [of u] by simp
  next
    case False
    then show ?thesis using p int [of u] by auto
  qed
qed

lemma Icycles_add: "ARMul_Icycles (ARMul_Icycles s m) n = ARMul_Icycles s (m + n)"
  by (simp add: ARMul_Icycles_def algebra_simps)

lemma busy_wait_exact:
  fixes call :: "'io cp_call" and fin :: "'io ARMul_State \<Rightarrow> ARMword"
  assumes busy: "\<And>s. call ARMul_BUSY s = Inr (if ARMul_Time s \<ge> fin s then ARMul_DONE else ARMul_BUSY, None, s)"
    and fin: "\<And>s n. fin (ARMul_Icycles s n) = fin s"
    and quiet: "\<And>n. IntPending (ARMul_Icycles s n) = (False, ARMul_Icycles s n)"
    and "k \<le> n" "0 < k" "uint (ARMul_Time s) + int k = uint (fin s)"
  shows "busy_wait n call ARMul_BUSY cell s = Inr (Some (ARMul_DONE, cell), ARMul_Icycles s (of_nat k))"
  using quiet assms(4-)
proof (induction n arbitrary: s k)
  case 0
  then show ?case by simp
next
  case (Suc n)
  let ?s = "ARMul_Icycles s 1"
  have "uint (ARMul_Time s) + 1 < 2 ^ 32" if "1 < k"
    using Suc.prems(4) that uint_bounds32 [of "fin s"] by linarith
  have lt: "uint (ARMul_Time s) + int k < 2 ^ 32" using Suc.prems(4) uint_lt2p [of "fin s"] by simp
  have T: "uint (ARMul_Time ?s) = uint (ARMul_Time s) + 1"
    using lt Suc.prems(3) by (simp add: uint_word_ariths mod_pos_pos_trivial)
  show ?case
  proof (cases "k = 1")
    case True
    then have "fin ?s \<le> ARMul_Time ?s" using T Suc.prems(4) by (simp add: word_le_def fin)
    then show ?thesis using True Suc.prems(1) [of 1] busy [of ?s] by (cases n) simp_all
  next
    case False
    then have "\<not> fin ?s \<le> ARMul_Time ?s" using T Suc.prems(3,4) by (simp add: word_le_def fin)
    moreover have "busy_wait n call ARMul_BUSY cell ?s = Inr (Some (ARMul_DONE, cell), ARMul_Icycles ?s (of_nat (k - 1)))"
    proof (rule Suc.IH)
      show "IntPending (ARMul_Icycles ?s m) = (False, ARMul_Icycles ?s m)" for m
        using Suc.prems(1) by (simp add: Icycles_add)
      show "k - 1 \<le> n" "0 < k - 1" using Suc.prems(2,3) False by simp_all
      show "uint (ARMul_Time ?s) + int (k - 1) = uint (fin ?s)" using T Suc.prems(3,4) by (simp add: fin)
    qed
    moreover have "1 + (of_nat (k - 1) :: ARMword) = of_nat k" using Suc.prems(3) by (simp add: of_nat_diff)
    ultimately show ?thesis using Suc.prems(1) [of 1] busy [of ?s] by (simp add: Icycles_add)
  qed
qed

text \<open>The busy-waiting operation 0 of the two validation coprocessors, with the clock it waits for.\<close>

definition howlong :: "'m copro_state \<Rightarrow> ARMword \<Rightarrow> ARMword" where
  "howlong s instr = ValReg (mach_io s) (unat (BITS instr 0 3))"

definition cdp_finish :: "ARMword \<Rightarrow> 'm copro_state \<Rightarrow> ARMword" where
  "cdp_finish instr s = (if CPNum instr = 4 then val_finish (mach_io s) else int_finish (mach_io s))"

definition cdp_begin :: "ARMword \<Rightarrow> 'm copro_state \<Rightarrow> 'm copro_state" where
  "cdp_begin instr s =
     upd_cp (\<lambda>c. if CPNum instr = 4 then c\<lparr>val_finish := ARMul_Time s + howlong s instr\<rparr>
                 else c\<lparr>int_finish := ARMul_Time s + howlong s instr\<rparr>) s"

definition waiting_cdp :: "ARMword \<Rightarrow> bool" where
  "waiting_cdp instr \<longleftrightarrow> CPNum instr \<in> {4, 5} \<and> BITS instr 20 23 = 0"

abbreviation (input) cdp_call :: "'m copro_io cpu_env \<Rightarrow> ARMword \<Rightarrow> 'm copro_io cp_call" where
  "cdp_call env instr \<equiv> \<lambda>ty s. no_out (cp_CDP (ARMul_CoProInit env) (CPNum instr) s ty instr)"

lemma waiting_calls:
  assumes "waiting_cdp instr"
  shows "cdp_call env instr ARMul_FIRST s =
      Inr (if howlong s instr = 0 then ARMul_DONE else ARMul_BUSY, None, cdp_begin instr s)"
    and "cdp_call env instr ARMul_BUSY s =
      Inr (if ARMul_Time s \<ge> cdp_finish instr s then ARMul_DONE else ARMul_BUSY, None, s)"
    and "\<exists>c t. cdp_call env instr ARMul_INTERRUPT s = Inr (c, None, t)"
  using assms CoProInit_table(1) [OF CPNum_less, of env instr]
  by (auto simp: waiting_cdp_def no_out_def ValCDP_def IntCDP_def howlong_def cdp_begin_def cdp_finish_def Let_def)

lemma cdp_begin_time [simp]:
  "ARMul_Time (cdp_begin instr s) = ARMul_Time s" "cdp_finish instr (cdp_begin instr s) = ARMul_Time s + howlong s instr"
  by (simp_all add: cdp_begin_def cdp_finish_def upd_cp_def ARMul_Time_def)

lemma other_cdp_answers:
  assumes "\<not> waiting_cdp instr"
  shows "\<exists>c t. cdp_call env instr ARMul_FIRST s = Inr (c, None, t) \<and> c \<noteq> ARMul_BUSY"
  using assms CoProInit_table(1) [OF CPNum_less, of env instr]
  by (auto simp: waiting_cdp_def no_out_def ValCDP_def IntCDP_def NoCoPro3R_def Let_def)

lemma busy_wait_over [simp]: "cpab \<noteq> ARMul_BUSY \<Longrightarrow> busy_wait n call cpab cell s = Inr (Some (cpab, cell), s)"
  by (cases n) simp_all

lemma CDP_returns:
  assumes "cp_start (busy_limit env) (cdp_call env instr) None s = Inr (r, t)"
  shows "\<exists>u. ARMul_CDP (ARMul_CoProInit env) s instr = Inr u"
  using assms by (cases r) (auto simp: ARMul_CDP_def Let_def)

lemma copro_wait_returns:
  assumes "unat (howlong s instr) \<le> busy_limit env"
  shows "\<exists>t. ARMul_CDP (ARMul_CoProInit env) s instr = Inr t"
proof (cases "waiting_cdp instr")
  case True
  let ?n = "busy_limit env" and ?c = "if howlong s instr = 0 then ARMul_DONE else ARMul_BUSY"
  have "\<exists>r t. busy_wait ?n (cdp_call env instr) ?c None (cdp_begin instr s) = Inr (r, t)"
  proof (rule busy_wait_ends [where fin = "cdp_finish instr"])
    show "cdp_finish instr (ARMul_Icycles u m) = cdp_finish instr u" for u :: "'a copro_state" and m
      by (simp add: cdp_finish_def)
    show "unat (cdp_finish instr (cdp_begin instr s) - ARMul_Time (cdp_begin instr s)) \<le> ?n" using assms by simp
    show "?c = ARMul_BUSY \<longrightarrow> cdp_finish instr (cdp_begin instr s) \<noteq> ARMul_Time (cdp_begin instr s)" by simp
  qed (rule waiting_calls [OF True])+
  then show ?thesis using CDP_returns [of env instr s] waiting_calls(1) [OF True, of env s] by (auto simp: cp_start_def)
next
  case False
  then show ?thesis using other_cdp_answers [OF False, of env s] CDP_returns [of env instr s] by (auto simp: cp_start_def)
qed

text \<open>No reset is requested, and a requested interrupt is masked.\<close>

definition no_interrupt :: "'io ARMul_State \<Rightarrow> bool" where
  "no_interrupt s \<longleftrightarrow> NresetSig s \<noteq> LOW \<and> (NfiqSig s \<noteq> 0 \<or> FFLAG s \<noteq> 0) \<and> (NirqSig s \<noteq> 0 \<or> IFLAG s \<noteq> 0)"

lemma no_interrupt_Icycles: "no_interrupt s \<Longrightarrow> IntPending (ARMul_Icycles s n) = (False, ARMul_Icycles s n)"
  by (simp add: no_interrupt_def IntPending_def ARMul_Icycles_def FFLAG_def IFLAG_def)

lemma copro_wait_exact:
  assumes "unat (howlong s instr) \<le> busy_limit env" "waiting_cdp instr" "no_interrupt s"
    "uint (ARMul_Time s) + uint (howlong s instr) < 2 ^ 32"
  shows "\<exists>t. ARMul_CDP (ARMul_CoProInit env) s instr = Inr t \<and> NumIcycles t = NumIcycles s + howlong s instr"
proof (cases "howlong s instr = 0")
  case True
  then have "cp_start (busy_limit env) (cdp_call env instr) None s = Inr (Some (ARMul_DONE, None), cdp_begin instr s)"
    using waiting_calls(1) [OF assms(2), of env s] by (simp add: cp_start_def)
  then show ?thesis using True by (simp add: ARMul_CDP_def Let_def BUSUSEDN_def cdp_begin_def upd_cp_def)
next
  case False
  let ?b = "cdp_begin instr s"
  have ni: "no_interrupt ?b" using assms(3) by (simp add: no_interrupt_def cdp_begin_def upd_cp_def FFLAG_def IFLAG_def)
  have "busy_wait (busy_limit env) (cdp_call env instr) ARMul_BUSY None ?b
      = Inr (Some (ARMul_DONE, None), ARMul_Icycles ?b (of_nat (unat (howlong s instr))))"
  proof (rule busy_wait_exact [where fin = "cdp_finish instr"])
    show "cdp_finish instr (ARMul_Icycles u m) = cdp_finish instr u" for u :: "'a copro_state" and m
      by (simp add: cdp_finish_def)
    show "IntPending (ARMul_Icycles ?b n) = (False, ARMul_Icycles ?b n)" for n by (rule no_interrupt_Icycles [OF ni])
    show "0 < unat (howlong s instr)" using False by (simp add: unat_gt_0)
    have "uint (ARMul_Time s + howlong s instr) = uint (ARMul_Time s) + uint (howlong s instr)"
      using assms(4) by (simp add: uint_word_ariths mod_pos_pos_trivial)
    then show "uint (ARMul_Time ?b) + int (unat (howlong s instr)) = uint (cdp_finish instr ?b)" by simp
    show "cdp_call env instr ARMul_BUSY u =
        Inr (if ARMul_Time u \<ge> cdp_finish instr u then ARMul_DONE else ARMul_BUSY, None, u)" for u
      by (rule waiting_calls(2) [OF assms(2)])
  qed (rule assms(1))
  then have "cp_start (busy_limit env) (cdp_call env instr) None s
      = Inr (Some (ARMul_DONE, None), ARMul_Icycles ?b (howlong s instr))"
    using waiting_calls(1) [OF assms(2), of env s] False by (simp add: cp_start_def)
  then show ?thesis
    by (simp add: ARMul_CDP_def Let_def BUSUSEDN_def cdp_begin_def upd_cp_def ARMul_Icycles_def)
qed

text \<open>
  A coprocessor operation never hangs the processor. With the coprocessors that \<^verbatim>\<open>ARMul_CoProInit\<close>
  installs, every \<^verbatim>\<open>CDP\<close> instruction returns within as many turns of the waiting loop as the register that it
  names says; on the waiting operation of the coprocessors 4 and 5 it waits for exactly that number of internal
  cycles, as long as no interrupt ends the wait and the 32-bit clock does not wrap before its end.
\<close>

lemma copro_wait_ends:
  fixes s :: "'m copro_state"
  assumes "unat (howlong s instr) \<le> busy_limit env"
  shows "\<exists>t. ARMul_CDP (ARMul_CoProInit env) s instr = Inr t
    \<and> (waiting_cdp instr \<and> no_interrupt s \<and> uint (ARMul_Time s) + uint (howlong s instr) < 2 ^ 32
       \<longrightarrow> NumIcycles t = NumIcycles s + howlong s instr)"
  using copro_wait_returns [OF assms] copro_wait_exact [OF assms] by blast

definition copro_demo :: "ARMword \<Rightarrow> unit copro_state" where
  "copro_demo n = ARMul_Reset_cpu (ARMul_SelectProcessor (ARMul_NewState mem_zero
     \<lparr>ValReg = (\<lambda>_. 0)(2 := n), ldc_words = 0, stc_words = 0, val_finish = 0, int_finish = 0, machine = ()\<rparr>) 0x180)"

definition copro_env :: "unit copro_io cpu_env" where
  "copro_env = \<lparr>mmu_ops = arm926ejs_mmu_ops bare_env, skyeye_cachetype = INSTCACHE, undf_trap = None,
     cp_LDC = (\<lambda>_. NoCoPro4R), cp_STC = (\<lambda>_. NoCoPro4W), cp_MRC = (\<lambda>_. NoCoPro4W),
     cp_MCR = (\<lambda>_. NoCoPro4R), cp_CDP = (\<lambda>_. NoCoPro3R), busy_limit = 100\<rparr>"

lemma copro_wait_ends_witness:
  "\<exists>t. ARMul_CDP (ARMul_CoProInit copro_env) (copro_demo 7) 0xEE000402 = Inr t
    \<and> NumIcycles t = NumIcycles (copro_demo 7) + 7"
proof -
  have h: "howlong (copro_demo 7) 0xEE000402 = 7" "busy_limit copro_env = 100" "waiting_cdp 0xEE000402"
      "no_interrupt (copro_demo 7)" "ARMul_Time (copro_demo 7) = 0"
    by (simp_all add: howlong_def copro_demo_def copro_env_def waiting_cdp_def no_interrupt_def ARMul_Time_def CPNum_def BITS_def
        ARMul_Reset_cpu_def ARMul_SelectProcessor_def ARMul_NewState_def Let_def FLUSHPIPE_def ARMul_CPSRAltered_def
        cpsr_switch_mode_def cpsr_assign_flags_def set_reg_def)
  then show ?thesis using copro_wait_ends [of "copro_demo 7" "0xEE000402" copro_env] by auto
qed

end
