(* ===== verification/Thumb.thy ===== *)
theory Thumb
  imports Arm_Ls
begin

text \<open>
  The Thumb decoder, \<^verbatim>\<open>ARMul_ThumbDecode\<close> of \<^verbatim>\<open>arch/arm/common/thumbemu.c\<close>: most 16-bit instructions become
  one ARM instruction, the branches are executed by the decoder itself. One definition per instruction
  format, in the order of the switch; then the instruction set of the manual as a table of halfwords and ARM instructions, the
  encodings of the ARM instructions, and the proof that the decoder follows the table.
\<close>

datatype tdstate = t_undefined | t_decoded | t_branch

section \<open>Formats that become an ARM instruction\<close>

definition thumb_fmt1 :: "ARMword \<Rightarrow> ARMword" where
  "thumb_fmt1 t =
     0xE1B00000 OR drop_bit 6 (t AND 0x1800) OR push_bit 1 (t AND 0x07C0) OR drop_bit 3 (t AND 0x0038)
     OR push_bit 12 (t AND 0x0007)"

definition thumb_fmt2 :: "ARMword \<Rightarrow> ARMword" where
  "thumb_fmt2 t =
     [0xE0900000, 0xE0500000, 0xE2900000, 0xE2500000] ! unat (drop_bit 9 (t AND 0x0600))
     OR drop_bit 6 (t AND 0x01C0) OR push_bit 13 (t AND 0x0038) OR push_bit 12 (t AND 0x0007)"

definition thumb_fmt3 :: "ARMword \<Rightarrow> ARMword" where
  "thumb_fmt3 t =
     [0xE3B00000, 0xE3500000, 0xE2900000, 0xE2500000] ! unat (drop_bit 11 (t AND 0x1800))
     OR (t AND 0x00FF) OR push_bit 8 (t AND 0x0700) OR push_bit 4 (t AND 0x0700)"

datatype otype = t_norm | t_shift | t_neg | t_mul

definition thumb_alu :: "(ARMword \<times> otype) list" where
  "thumb_alu =
     [(0xE0100000, t_norm), (0xE0300000, t_norm), (0xE1B00010, t_shift), (0xE1B00030, t_shift),
      (0xE1B00050, t_shift), (0xE0B00000, t_norm), (0xE0D00000, t_norm), (0xE1B00070, t_shift),
      (0xE1100000, t_norm), (0xE2700000, t_neg), (0xE1500000, t_norm), (0xE1700000, t_norm),
      (0xE1900000, t_norm), (0xE0100090, t_mul), (0xE1D00000, t_norm), (0xE1F00000, t_norm)]"

definition thumb_fmt4 :: "ARMword \<Rightarrow> ARMword" where
  "thumb_fmt4 t =
     (let (opcode, otype) = thumb_alu ! unat (drop_bit 6 (t AND 0x03C0)); d = t AND 0x0007; s = t AND 0x0038
      in case otype of
           t_norm \<Rightarrow> opcode OR push_bit 16 d OR push_bit 12 d OR drop_bit 3 s
         | t_shift \<Rightarrow> opcode OR push_bit 12 d OR d OR push_bit 5 s
         | t_neg \<Rightarrow> opcode OR push_bit 12 d OR push_bit 13 s
         | t_mul \<Rightarrow> opcode OR push_bit 16 d OR push_bit 8 d OR drop_bit 3 s)"

text \<open>The high register operations and the exchanging branches; \<open>None\<close> is an undefined instruction.\<close>

definition thumb_fmt5 :: "bool \<Rightarrow> ARMword \<Rightarrow> ARMword option" where
  "thumb_fmt5 v5 t =
     (let Rd = (t AND 0x0007) + (if t AND 0x80 \<noteq> 0 then 8 else 0);
          Rs = drop_bit 3 (t AND 0x0038) + (if t AND 0x40 \<noteq> 0 then 8 else 0);
          regs = push_bit 16 Rd OR push_bit 12 Rd OR Rs;
          op = drop_bit 6 (t AND 0x03C0)
      in if op = 1 \<or> op = 2 \<or> op = 3 then Some (0xE0800000 OR regs)
         else if op = 5 \<or> op = 6 \<or> op = 7 then Some (0xE1500000 OR regs)
         else if op = 9 \<or> op = 0xA \<or> op = 0xB then Some (0xE1A00000 OR regs)
         else if op = 0xC \<or> op = 0xD then Some (0xE12FFF10 OR drop_bit 3 (t AND 0x0078))
         else if op = 0xE \<or> op = 0xF then if v5 then Some (0xE1200030 OR Rs) else None
         else None)"

definition thumb_fmt6 :: "ARMword \<Rightarrow> ARMword" where
  "thumb_fmt6 t = 0xE59F0000 OR push_bit 4 (t AND 0x0700) OR push_bit 2 (t AND 0x00FF)"

definition thumb_fmt7_8 :: "ARMword \<Rightarrow> ARMword" where
  "thumb_fmt7_8 t =
     (if t AND 0x200 = 0 then [0xE7800000, 0xE7C00000, 0xE7900000, 0xE7D00000]
      else [0xE18000B0, 0xE19000D0, 0xE19000B0, 0xE19000F0]) ! unat (drop_bit 10 (t AND 0x0C00))
     OR push_bit 12 (t AND 0x0007) OR push_bit 13 (t AND 0x0038) OR drop_bit 6 (t AND 0x01C0)"

definition thumb_fmt9 :: "ARMword \<Rightarrow> ARMword" where
  "thumb_fmt9 t =
     [0xE5800000, 0xE5900000, 0xE5C00000, 0xE5D00000] ! unat (drop_bit 11 (t AND 0x1800))
     OR push_bit 12 (t AND 0x0007) OR push_bit 13 (t AND 0x0038)
     OR drop_bit (6 - (if t AND 0x1000 \<noteq> 0 then 0 else 2)) (t AND 0x07C0)"

definition thumb_fmt10 :: "ARMword \<Rightarrow> ARMword" where
  "thumb_fmt10 t =
     (if t AND 0x800 \<noteq> 0 then 0xE1D000B0 else 0xE1C000B0)
     OR push_bit 12 (t AND 0x0007) OR push_bit 13 (t AND 0x0038)
     OR drop_bit 5 (t AND 0x01C0) OR drop_bit 1 (t AND 0x0600)"

definition thumb_fmt11 :: "ARMword \<Rightarrow> ARMword" where
  "thumb_fmt11 t =
     (if t AND 0x800 \<noteq> 0 then 0xE59D0000 else 0xE58D0000)
     OR push_bit 4 (t AND 0x0700) OR push_bit 2 (t AND 0x00FF)"

definition thumb_fmt12 :: "ARMword \<Rightarrow> ARMword" where
  "thumb_fmt12 t =
     (if t AND 0x800 = 0 then 0xE28F0F00 else 0xE28D0F00) OR push_bit 4 (t AND 0x0700) OR (t AND 0x00FF)"

abbreviation (input) SWI_Breakpoint :: ARMword where "SWI_Breakpoint \<equiv> 0x180000"

definition thumb_fmt13_14 :: "ARMword \<Rightarrow> ARMword" where
  "thumb_fmt13_14 t =
     (if t AND 0x0F00 = 0 then (if t AND 0x80 \<noteq> 0 then 0xE24DDF00 else 0xE28DDF00) OR (t AND 0x007F)
      else if t AND 0x0F00 = 0x0E00 then 0xEF000000 OR SWI_Breakpoint
      else [0xE92D0000, 0xE92D4000, 0xE8BD0000, 0xE8BD8000]
             ! unat (drop_bit 10 (t AND 0x800) OR drop_bit 8 (t AND 0x100)) OR (t AND 0x00FF))"

definition thumb_fmt15 :: "ARMword \<Rightarrow> ARMword" where
  "thumb_fmt15 t =
     (if t AND 0x800 \<noteq> 0 then 0xE8B00000 else 0xE8A00000) OR push_bit 8 (t AND 0x0700) OR (t AND 0x00FF)"

text \<open>A software interrupt; a word that an aborted fetch left is passed on as it is.\<close>

definition thumb_fmt17 :: "'io ARMul_State \<Rightarrow> ARMword \<Rightarrow> ARMword \<Rightarrow> ARMword" where
  "thumb_fmt17 s pc t =
     (if t = ARMul_ABORTWORD s AND 0xffff \<and> AbortAddr s = pc then ARMul_ABORTWORD s
      else if t AND 0x00FF = 0x18 then 0xEF000000 OR push_bit 16 (t AND 0x00FF)
      else if t AND 0x00FF = 0xFE then 0xEF000000 OR SWI_Breakpoint
      else 0xEF000000 OR (t AND 0x00FF))"

section \<open>Branches\<close>

definition thumb_jump :: "ARMword \<Rightarrow> 'io ARMul_State \<Rightarrow> 'io ARMul_State" where
  "thumb_jump dest s = FLUSHPIPE (set_reg 15 dest s)"

definition thumb_fmt16 :: "'io ARMul_State \<Rightarrow> ARMword \<Rightarrow> ARMword \<Rightarrow> 'io ARMul_State" where
  "thumb_fmt16 s pc t =
     (if cond_pass (drop_bit 8 (t AND 0x0F00)) s
      then thumb_jump (pc + 4 + (push_bit 1 (t AND 0x7F) OR (if t AND 0x80 \<noteq> 0 then 0xFFFFFF00 else 0))) s
      else s)"

definition thumb_fmt18 :: "'io ARMul_State \<Rightarrow> ARMword \<Rightarrow> ARMword \<Rightarrow> 'io ARMul_State" where
  "thumb_fmt18 s pc t =
     thumb_jump (pc + 4 + (push_bit 1 (t AND 0x3FF) OR (if t AND 0x400 \<noteq> 0 then 0xFFFFF800 else 0))) s"

text \<open>The second half of a long branch: the return address goes to the link register with its Thumb bit.\<close>

definition thumb_bl_low :: "'io ARMul_State \<Rightarrow> ARMword \<Rightarrow> ARMword \<Rightarrow> tdstate \<times> 'io ARMul_State" where
  "thumb_bl_low s pc t =
     (let tmp = drop_bit 11 (t AND 0xF800)
      in if is_v5 s = 0 \<and> tmp = 29 then (t_undefined, s)
         else let dest = Reg s 14 + push_bit 1 (t AND 0x07FF);
                  s = set_reg 14 ((pc + 2) OR 1) s;
                  s = (if tmp = 29
                       then let s = set_reg 15 (dest AND 0xfffffffc) (s\<lparr>TFlag := 0\<rparr>) in s\<lparr>Cpsr := ARMul_GetCPSR s\<rparr>
                       else set_reg 15 dest s)
              in (t_branch, FLUSHPIPE s))"

text \<open>The first half, which executes the second one when that follows.\<close>

definition thumb_bl_high :: "'io ARMul_State \<Rightarrow> ARMword \<Rightarrow> ARMword \<Rightarrow> ARMword \<Rightarrow> tdstate \<times> 'io ARMul_State" where
  "thumb_bl_high s pc t next_instr =
     (let tmp = drop_bit 11 (next_instr AND 0xF800);
          s = set_reg 14 (Reg s 15 + (push_bit 12 (t AND 0x07FF) OR (if t AND 0x400 \<noteq> 0 then 0xFF800000 else 0))) s
      in if tmp \<noteq> 31 \<and> (is_v5 s = 0 \<or> tmp \<noteq> 29) then (t_branch, s) else thumb_bl_low s (pc + 2) next_instr)"

section \<open>The decoder\<close>

definition thumb_switch ::
  "'io ARMul_State \<Rightarrow> ARMword \<Rightarrow> ARMword \<Rightarrow> ARMword \<Rightarrow> tdstate \<times> ARMword \<times> 'io ARMul_State" where
  "thumb_switch s pc t next_instr =
     (let n = unat (drop_bit 11 (t AND 0xF800)); dead = 0xDEADC0DE; decoded = (\<lambda>a. (t_decoded, a, s));
          branch = (\<lambda>(v, s). (v, dead, s))
      in if n \<le> 2 then decoded (thumb_fmt1 t)
         else if n = 3 then decoded (thumb_fmt2 t)
         else if n \<le> 7 then decoded (thumb_fmt3 t)
         else if n = 8
         then if t AND 0x400 = 0 then decoded (thumb_fmt4 t)
              else case thumb_fmt5 (is_v5 s \<noteq> 0) t of None \<Rightarrow> (t_undefined, dead, s) | Some a \<Rightarrow> decoded a
         else if n = 9 then decoded (thumb_fmt6 t)
         else if n \<le> 11 then decoded (thumb_fmt7_8 t)
         else if n \<le> 15 then decoded (thumb_fmt9 t)
         else if n \<le> 17 then decoded (thumb_fmt10 t)
         else if n \<le> 19 then decoded (thumb_fmt11 t)
         else if n \<le> 21 then decoded (thumb_fmt12 t)
         else if n \<le> 23 then decoded (thumb_fmt13_14 t)
         else if n \<le> 25 then decoded (thumb_fmt15 t)
         else if n \<le> 27
         then if t AND 0x0F00 = 0x0F00 then decoded (thumb_fmt17 s pc t)
              else if t AND 0x0F00 \<noteq> 0x0E00 then branch (t_branch, thumb_fmt16 s pc t)
              else (t_undefined, dead, s)
         else if n = 28 then branch (t_branch, thumb_fmt18 s pc t)
         else if n = 30 then branch (thumb_bl_high s pc t next_instr)
         else branch (thumb_bl_low s pc t))"

definition ARMul_ThumbDecode ::
  "'io ARMul_State \<Rightarrow> ARMword \<Rightarrow> ARMword \<Rightarrow> tdstate \<times> ARMword \<times> 'io ARMul_State" where
  "ARMul_ThumbDecode s pc tinstr =
     (if bigendSig s \<noteq> 0 then thumb_switch s pc (drop_bit 16 tinstr) (tinstr AND 0xFFFF)
      else thumb_switch s pc (tinstr AND 0xFFFF) (drop_bit 16 tinstr))"

section \<open>The ARM instruction of a Thumb instruction\<close>

text \<open>
  The unconditional instructions of the ARM manual, by their operands: registers, immediate values and shift amounts are numbers.
  The flag of a data processing instruction says whether it sets the condition codes; the flags of a transfer are load and byte,
  or load, signed and halfword, and its address is the sum of a base and an offset; the flags of a multiple transfer, which writes its base
  back, are load, before and up.
\<close>

datatype shift_kind = Lsl | Lsr | Asr | Ror

datatype dp_op =
  DpAnd | DpEor | DpSub | DpRsb | DpAdd | DpAdc | DpSbc | DpRsc | DpTst | DpTeq | DpCmp | DpCmn | DpOrr | DpMov | DpBic | DpMvn

datatype arm_insn =
  ArmShifted dp_op bool ARMword ARMword ARMword shift_kind ARMword
| ArmShiftedBy dp_op bool ARMword ARMword ARMword shift_kind ARMword
| ArmImmediate dp_op bool ARMword ARMword ARMword ARMword
| ArmMul bool ARMword ARMword ARMword
| ArmMem bool bool ARMword ARMword ARMword
| ArmMemReg bool bool ARMword ARMword ARMword
| ArmHalf bool bool bool ARMword ARMword ARMword
| ArmHalfReg bool bool bool ARMword ARMword ARMword
| ArmMultiple bool bool bool ARMword ARMword
| ArmBx ARMword
| ArmBlx ARMword
| ArmSwi ARMword

fun shift_code :: "shift_kind \<Rightarrow> ARMword" where
  "shift_code Lsl = 0" | "shift_code Lsr = 1" | "shift_code Asr = 2" | "shift_code Ror = 3"

fun dp_code :: "dp_op \<Rightarrow> ARMword" where
  "dp_code DpAnd = 0" | "dp_code DpEor = 1" | "dp_code DpSub = 2" | "dp_code DpRsb = 3"
| "dp_code DpAdd = 4" | "dp_code DpAdc = 5" | "dp_code DpSbc = 6" | "dp_code DpRsc = 7"
| "dp_code DpTst = 8" | "dp_code DpTeq = 9" | "dp_code DpCmp = 10" | "dp_code DpCmn = 11"
| "dp_code DpOrr = 12" | "dp_code DpMov = 13" | "dp_code DpBic = 14" | "dp_code DpMvn = 15"

text \<open>
  A word is a data processing instruction: a move has no first operand, a comparison no destination. The destination field of a comparison is not 15,
  which is the form that restores the status register, unless the PC is compared, which the manual leaves open.
\<close>

definition encodes_dp :: "dp_op \<Rightarrow> bool \<Rightarrow> ARMword \<Rightarrow> ARMword \<Rightarrow> ARMword \<Rightarrow> bool" where
  "encodes_dp op s rn rd a \<longleftrightarrow> \<not> bit a 27 \<and> \<not> bit a 26 \<and> BITS a 21 24 = dp_code op \<and> bit a 20 = s \<and>
     (op \<noteq> DpMov \<and> op \<noteq> DpMvn \<longrightarrow> BITS a 16 19 = rn) \<and> (if op \<in> {DpTst, DpTeq, DpCmp, DpCmn} then BITS a 12 15 = 15 \<longrightarrow> BITS a 16 19 = 15 else BITS a 12 15 = rd)"

text \<open>
  A word is an instruction by the encodings of the ARM manual; the fields that the manual says should be zero or one, and that the
  processor does not look at, are free.
\<close>

fun encodes :: "arm_insn \<Rightarrow> ARMword \<Rightarrow> bool" where
  "encodes (ArmShifted op s rn rd rm sh n) a \<longleftrightarrow> BITS a 28 31 = 14 \<and> encodes_dp op s rn rd a \<and> \<not> bit a 25 \<and> \<not> bit a 4 \<and>
     BITS a 0 3 = rm \<and> BITS a 5 6 = shift_code sh \<and> BITS a 7 11 = n"
| "encodes (ArmShiftedBy op s rn rd rm sh rs) a \<longleftrightarrow> BITS a 28 31 = 14 \<and> encodes_dp op s rn rd a \<and> \<not> bit a 25 \<and> bit a 4 \<and> \<not> bit a 7 \<and>
     BITS a 0 3 = rm \<and> BITS a 5 6 = shift_code sh \<and> BITS a 8 11 = rs"
| "encodes (ArmImmediate op s rn rd rot v) a \<longleftrightarrow> BITS a 28 31 = 14 \<and> encodes_dp op s rn rd a \<and> bit a 25 \<and> BITS a 8 11 = rot \<and> BITS a 0 7 = v"
| "encodes (ArmMul s rd rm rs) a \<longleftrightarrow> BITS a 28 31 = 14 \<and> BITS a 21 27 = 0 \<and> bit a 20 = s \<and> BITS a 4 7 = 9 \<and>
     BITS a 16 19 = rd \<and> BITS a 0 3 = rm \<and> BITS a 8 11 = rs"
| "encodes (ArmMem ld by rn rd off) a \<longleftrightarrow> BITS a 28 31 = 14 \<and> BITS a 23 27 = 11 \<and> bit a 22 = by \<and> \<not> bit a 21 \<and> bit a 20 = ld \<and>
     BITS a 16 19 = rn \<and> BITS a 12 15 = rd \<and> BITS a 0 11 = off"
| "encodes (ArmMemReg ld by rn rd rm) a \<longleftrightarrow> BITS a 28 31 = 14 \<and> BITS a 23 27 = 15 \<and> bit a 22 = by \<and> \<not> bit a 21 \<and> bit a 20 = ld \<and>
     BITS a 16 19 = rn \<and> BITS a 12 15 = rd \<and> BITS a 4 11 = 0 \<and> BITS a 0 3 = rm"
| "encodes (ArmHalf ld sg hw rn rd off) a \<longleftrightarrow> BITS a 28 31 = 14 \<and> BITS a 21 27 = 14 \<and> bit a 20 = ld \<and> bit a 7 \<and> bit a 6 = sg \<and>
     bit a 5 = hw \<and> bit a 4 \<and> BITS a 16 19 = rn \<and> BITS a 12 15 = rd \<and> push_bit 4 (BITS a 8 11) OR BITS a 0 3 = off"
| "encodes (ArmHalfReg ld sg hw rn rd rm) a \<longleftrightarrow> BITS a 28 31 = 14 \<and> BITS a 21 27 = 12 \<and> bit a 20 = ld \<and> bit a 7 \<and> bit a 6 = sg \<and>
     bit a 5 = hw \<and> bit a 4 \<and> BITS a 16 19 = rn \<and> BITS a 12 15 = rd \<and> BITS a 8 11 = 0 \<and> BITS a 0 3 = rm"
| "encodes (ArmMultiple ld before up rn rs) a \<longleftrightarrow> BITS a 28 31 = 14 \<and> BITS a 25 27 = 4 \<and> bit a 24 = before \<and> bit a 23 = up \<and> \<not> bit a 22 \<and>
     bit a 21 \<and> bit a 20 = ld \<and> BITS a 16 19 = rn \<and> BITS a 0 15 = rs"
| "encodes (ArmBx rm) a \<longleftrightarrow> BITS a 28 31 = 14 \<and> BITS a 20 27 = 0x12 \<and> BITS a 4 7 = 1 \<and> BITS a 0 3 = rm"
| "encodes (ArmBlx rm) a \<longleftrightarrow> BITS a 28 31 = 14 \<and> BITS a 20 27 = 0x12 \<and> BITS a 4 7 = 3 \<and> BITS a 0 3 = rm"
| "encodes (ArmSwi n) a \<longleftrightarrow> BITS a 28 31 = 14 \<and> BITS a 24 27 = 15 \<and> BITS a 0 23 = n"

text \<open>
  The Thumb instruction set of the manual, except branches: the ARM instruction that each halfword stands for. The breakpoint and two
  software interrupts are the breakpoint call of the simulator.
\<close>

definition thumb_alu_arm :: "ARMword \<Rightarrow> ARMword \<Rightarrow> arm_insn list" where
  "thumb_alu_arm rd rs =
     [ArmShifted DpAnd True rd rd rs Lsl 0, ArmShifted DpEor True rd rd rs Lsl 0, ArmShiftedBy DpMov True 0 rd rd Lsl rs,
      ArmShiftedBy DpMov True 0 rd rd Lsr rs, ArmShiftedBy DpMov True 0 rd rd Asr rs, ArmShifted DpAdc True rd rd rs Lsl 0,
      ArmShifted DpSbc True rd rd rs Lsl 0, ArmShiftedBy DpMov True 0 rd rd Ror rs, ArmShifted DpTst True rd 0 rs Lsl 0,
      ArmImmediate DpRsb True rs rd 0 0, ArmShifted DpCmp True rd 0 rs Lsl 0, ArmShifted DpCmn True rd 0 rs Lsl 0,
      ArmShifted DpOrr True rd rd rs Lsl 0, ArmMul True rd rs rd, ArmShifted DpBic True rd rd rs Lsl 0, ArmShifted DpMvn True 0 rd rs Lsl 0]"

definition thumb_high_arm :: "bool \<Rightarrow> ARMword \<Rightarrow> arm_insn option" where
  "thumb_high_arm v5 t =
     (let h = BITS t 0 2 OR (if bit t 7 then 8 else 0); r = BITS t 3 6
      in if bit t 9 \<and> bit t 8 then if bit t 7 then if v5 then Some (ArmBlx r) else None else Some (ArmBx r)
         else if \<not> bit t 7 \<and> \<not> bit t 6 then None
         else Some (if bit t 9 then ArmShifted DpMov False 0 h r Lsl 0
                    else if bit t 8 then ArmShifted DpCmp True h 0 r Lsl 0 else ArmShifted DpAdd False h h r Lsl 0))"

definition thumb_mem_arm :: "ARMword \<Rightarrow> ARMword \<Rightarrow> ARMword \<Rightarrow> arm_insn list" where
  "thumb_mem_arm ro rb rd =
     [ArmMemReg False False rb rd ro, ArmHalfReg False False True rb rd ro, ArmMemReg False True rb rd ro, ArmHalfReg True True False rb rd ro,
      ArmMemReg True False rb rd ro, ArmHalfReg True False True rb rd ro, ArmMemReg True True rb rd ro, ArmHalfReg True True True rb rd ro]"

definition thumb_misc_arm :: "ARMword \<Rightarrow> arm_insn option" where
  "thumb_misc_arm t =
     (let rs = BITS t 0 7; k = unat (BITS t 8 11)
      in if k = 0 then Some (ArmImmediate (if bit t 7 then DpSub else DpAdd) False 13 13 15 (BITS t 0 6))
         else if k = 4 then Some (ArmMultiple False True False 13 rs) else if k = 5 then Some (ArmMultiple False True False 13 (rs OR 0x4000))
         else if k = 12 then Some (ArmMultiple True False True 13 rs) else if k = 13 then Some (ArmMultiple True False True 13 (rs OR 0x8000))
         else if k = 14 then Some (ArmSwi 0x180000) else None)"

definition thumb_arm :: "bool \<Rightarrow> ARMword \<Rightarrow> arm_insn option" where
  "thumb_arm v5 t =
     (let n = unat (BITS t 11 15); rd = BITS t 0 2; rs = BITS t 3 5; ro = BITS t 6 8; r8 = BITS t 8 10; imm5 = BITS t 6 10; imm8 = BITS t 0 7
      in if n \<le> 2 then Some (ArmShifted DpMov True 0 rd rs ([Lsl, Lsr, Asr] ! n) imm5)
         else if n = 3
         then let op = (if bit t 9 then DpSub else DpAdd)
              in Some (if bit t 10 then ArmImmediate op True rs rd 0 ro else ArmShifted op True rs rd ro Lsl 0)
         else if n \<le> 7 then Some (ArmImmediate ([DpMov, DpCmp, DpAdd, DpSub] ! (n - 4)) True r8 r8 0 imm8)
         else if n = 8 then if bit t 10 then thumb_high_arm v5 t else Some (thumb_alu_arm rd rs ! unat (BITS t 6 9))
         else if n = 9 then Some (ArmMem True False 15 r8 (4 * imm8))
         else if n \<le> 11 then Some (thumb_mem_arm ro rs rd ! unat (BITS t 9 11))
         else if n \<le> 15 then Some (ArmMem (bit t 11) (bit t 12) rs rd (if bit t 12 then imm5 else 4 * imm5))
         else if n \<le> 17 then Some (ArmHalf (bit t 11) False True rs rd (2 * imm5))
         else if n \<le> 19 then Some (ArmMem (bit t 11) False 13 r8 (4 * imm8))
         else if n \<le> 21 then Some (ArmImmediate DpAdd False (if bit t 11 then 13 else 15) r8 15 imm8)
         else if n \<le> 23 then thumb_misc_arm t
         else if n \<le> 25 then Some (ArmMultiple (bit t 11) False True r8 imm8)
         else if n = 27 \<and> BITS t 8 11 = 15 then Some (ArmSwi (if imm8 = 0x18 \<or> imm8 = 0xFE then 0x180000 else imm8))
         else None)"

text \<open>
  The halfwords that are undefined: high register operations on two low registers, the branch with link to a register and the second half of
  an exchanging branch before ARMv5, and the branch under the condition 14.
\<close>

definition thumb_unassigned :: "bool \<Rightarrow> ARMword \<Rightarrow> bool" where
  "thumb_unassigned v5 t \<longleftrightarrow> BITS t 10 15 = 0x11 \<and> thumb_high_arm v5 t = None \<or> BITS t 8 15 = 0xDE \<or> BITS t 11 15 = 0x1D \<and> \<not> v5"

section \<open>Decoding is right\<close>

lemma BITS_eq_iff: "m \<le> n \<Longrightarrow> n \<le> 31 \<Longrightarrow> BITS a m n = v \<longleftrightarrow> (\<forall>k<32. (m + k \<le> n \<and> bit a (m + k)) = bit v k)"
  using word32_eqI [of "BITS a m n" v] by (auto simp: bit_BITS)

lemma bit_times_2: "bit (a * 2 :: ARMword) n \<longleftrightarrow> n \<noteq> 0 \<and> n < 32 \<and> bit a (n - 1)"
  using bit_push_bit_iff [of 1 a n] by (auto simp: push_bit_eq_mult)

lemmas enc_simps = encodes_dp_def BITS_eq_iff all_less_32_iff bit_BITS bit_simps bit_high_False bit_times_2 numeral_2_eq_2 [symmetric]

lemma field_masks:
  "drop_bit 11 (t AND 0xF800) = BITS t 11 15" "drop_bit 6 (t AND 0x03C0) = BITS t 6 9" "drop_bit 8 (t AND 0x0F00) = BITS t 8 11"
  by (rule word32_eqI; simp only: all_less_32_iff, simp add: bit_BITS bit_simps bit_high_False)+

lemma two_bits: "(w :: ARMword) AND 3 = (if bit w 1 then if bit w 0 then 3 else 2 else if bit w 0 then 1 else 0)"
  by (rule word32_eqI) (simp only: all_less_32_iff, simp add: bit_simps bit_high_False)

lemma unat_eq_of_nat: "k < 32 \<Longrightarrow> unat (w :: ARMword) = k \<longleftrightarrow> w = of_nat k"
  by (auto simp: unat_of_nat take_bit_nat_eq_self)

lemma times_4: "4 * (a :: ARMword) = push_bit 2 a" "2 * (a :: ARMword) = push_bit 1 a"
  by (simp_all add: push_bit_eq_mult)

lemma enc_add_sub:
  "encodes (let op = (if bit t 9 then DpSub else DpAdd)
     in if bit t 10 then ArmImmediate op True (BITS t 3 5) (BITS t 0 2) 0 (BITS t 6 8) else ArmShifted op True (BITS t 3 5) (BITS t 0 2) (BITS t 6 8) Lsl 0)
   (thumb_fmt2 t)"
  by (cases "bit t 9"; cases "bit t 10"; simp add: thumb_fmt2_def two_bits bit_drop_bit_eq; simp add: enc_simps)

lemma enc_fields:
  "BITS t 11 15 = 0 \<Longrightarrow> encodes (ArmShifted DpMov True 0 (BITS t 0 2) (BITS t 3 5) Lsl (BITS t 6 10)) (thumb_fmt1 t)"
  "BITS t 11 15 = 1 \<Longrightarrow> encodes (ArmShifted DpMov True 0 (BITS t 0 2) (BITS t 3 5) Lsr (BITS t 6 10)) (thumb_fmt1 t)"
  "BITS t 11 15 = 2 \<Longrightarrow> encodes (ArmShifted DpMov True 0 (BITS t 0 2) (BITS t 3 5) Asr (BITS t 6 10)) (thumb_fmt1 t)"
  by (simp_all add: thumb_fmt1_def, simp_all add: enc_simps)

lemma enc_immediates:
  "BITS t 11 15 = 4 \<Longrightarrow> encodes (ArmImmediate DpMov True (BITS t 8 10) (BITS t 8 10) 0 (BITS t 0 7)) (thumb_fmt3 t)"
  "BITS t 11 15 = 5 \<Longrightarrow> encodes (ArmImmediate DpCmp True (BITS t 8 10) (BITS t 8 10) 0 (BITS t 0 7)) (thumb_fmt3 t)"
  "BITS t 11 15 = 6 \<Longrightarrow> encodes (ArmImmediate DpAdd True (BITS t 8 10) (BITS t 8 10) 0 (BITS t 0 7)) (thumb_fmt3 t)"
  "BITS t 11 15 = 7 \<Longrightarrow> encodes (ArmImmediate DpSub True (BITS t 8 10) (BITS t 8 10) 0 (BITS t 0 7)) (thumb_fmt3 t)"
  by (simp_all add: thumb_fmt3_def two_bits bit_drop_bit_eq BITS_eq_iff all_less_32_iff; simp add: enc_simps)+

lemma enc_alu: "encodes (thumb_alu_arm (BITS t 0 2) (BITS t 3 5) ! unat (BITS t 6 9)) (thumb_fmt4 t)"
proof -
  have "\<forall>n<16. unat (BITS t 6 9) = n \<longrightarrow> encodes (thumb_alu_arm (BITS t 0 2) (BITS t 3 5) ! n) (thumb_fmt4 t)"
    unfolding all_less_16_iff thumb_fmt4_def thumb_alu_arm_def thumb_alu_def field_masks
    by (intro conjI impI; simp; simp add: enc_simps)
  moreover have "unat (BITS t 6 9) < 16" using unat_BITS_bound [of 6 9 t] by simp
  ultimately show ?thesis by blast
qed

lemma enc_pc_load: "encodes (ArmMem True False 15 (BITS t 8 10) (4 * BITS t 0 7)) (thumb_fmt6 t)"
  unfolding times_4 by (simp add: thumb_fmt6_def, simp add: enc_simps)

lemma plus_8: "(t AND 7) + 8 = (t AND 7) OR (8 :: ARMword)" "drop_bit 3 (t AND 0x38) + 8 = drop_bit 3 (t AND 0x38) OR (8 :: ARMword)"
proof -
  have b8: "n = 3" if "bit (8 :: ARMword) n" for n
    using that bit_exp_iff [where ?'a = "32 word", of 3 n] by simp
  show "(t AND 7) + 8 = (t AND 7) OR (8 :: ARMword)"
  proof (rule disjunctive_add)
    show "\<not> bit (t AND 7) n \<or> \<not> bit (8 :: ARMword) n" for n
      using b8 [of n] bit_and_iff [of t 7 n] by (cases "n = 3") (simp, blast)
  qed
  show "drop_bit 3 (t AND 0x38) + 8 = drop_bit 3 (t AND 0x38) OR (8 :: ARMword)"
  proof (rule disjunctive_add)
    show "\<not> bit (drop_bit 3 (t AND 0x38)) n \<or> \<not> bit (8 :: ARMword) n" for n
      using b8 [of n] bit_drop_bit_eq [of 3 "t AND 0x38"] by (cases "n = 3") (simp add: bit_and_iff, blast)
  qed
qed

lemma high_fields:
  "(t AND 7) + (if bit t 7 then 8 else 0) = BITS t 0 2 OR (if bit t 7 then 8 else 0)"
  "drop_bit 3 (t AND 0x38) + (if bit t 6 then 8 else 0) = BITS t 3 6" "drop_bit 3 (t AND 0x78) = BITS t 3 6"
  by (cases "bit t 7"; cases "bit t 6"; simp add: plus_8; rule word32_eqI; simp only: all_less_32_iff;
      simp add: bit_BITS bit_simps bit_high_False numeral_2_eq_2 [symmetric])+

lemma enc_high_regs:
  assumes "\<forall>n\<ge>4. \<not> bit h n \<and> \<not> bit r n"
  shows "encodes (ArmShifted DpAdd False h h r Lsl 0) (0xE0800000 OR (push_bit 16 h OR push_bit 12 h OR r))"
    "encodes (ArmShifted DpCmp True h 0 r Lsl 0) (0xE1500000 OR (push_bit 16 h OR push_bit 12 h OR r))"
    "encodes (ArmShifted DpMov False 0 h r Lsl 0) (0xE1A00000 OR (push_bit 16 h OR push_bit 12 h OR r))"
    "encodes (ArmBx r) (0xE12FFF10 OR r)" "encodes (ArmBlx r) (0xE1200030 OR r)"
  using assms by (simp_all add: enc_simps)

lemma fmt5_cases:
  assumes "h = BITS t 0 2 OR (if bit t 7 then 8 else 0)" "r = BITS t 3 6"
  shows "thumb_fmt5 v5 t =
    (if bit t 9 \<and> bit t 8 then if bit t 7 then if v5 then Some (0xE1200030 OR r) else None else Some (0xE12FFF10 OR r)
     else if \<not> bit t 7 \<and> \<not> bit t 6 then None
     else Some ((if bit t 9 then 0xE1A00000 else if bit t 8 then 0xE1500000 else 0xE0800000) OR (push_bit 16 h OR push_bit 12 h OR r)))"
proof -
  have m: "t AND 0x80 \<noteq> 0 \<longleftrightarrow> bit t 7" "t AND 0x40 \<noteq> 0 \<longleftrightarrow> bit t 6"
    using and_exp_eq_0_iff_not_bit [of t 7] and_exp_eq_0_iff_not_bit [of t 6] by simp_all
  have op: "BITS t 6 9 =
    (if bit t 9 then if bit t 8 then if bit t 7 then if bit t 6 then 15 else 14 else if bit t 6 then 13 else 12
       else if bit t 7 then if bit t 6 then 11 else 10 else if bit t 6 then 9 else 8
     else if bit t 8 then if bit t 7 then if bit t 6 then 7 else 6 else if bit t 6 then 5 else 4
       else if bit t 7 then if bit t 6 then 3 else 2 else if bit t 6 then 1 else 0)"
    by (rule word32_eqI) (simp only: all_less_32_iff, simp add: bit_BITS bit_simps bit_high_False)
  show ?thesis unfolding thumb_fmt5_def field_masks m high_fields op assms [symmetric] Let_def
    by (cases "bit t 6"; cases "bit t 7"; cases "bit t 8"; cases "bit t 9"; simp)
qed

lemma enc_high:
  "case thumb_high_arm v5 t of None \<Rightarrow> thumb_fmt5 v5 t = None | Some i \<Rightarrow> \<exists>a. thumb_fmt5 v5 t = Some a \<and> encodes i a"
proof -
  define h r where "h = BITS t 0 2 OR (if bit t 7 then 8 else 0)" and "r = BITS t 3 6"
  have "\<not> bit (8 :: ARMword) n" if "4 \<le> n" for n using that bit_exp_iff [where ?'a = "32 word", of 3 n] by simp
  then have "\<forall>n\<ge>4. \<not> bit h n \<and> \<not> bit r n" by (simp add: h_def r_def bit_or_iff bit_BITS)
  note e = enc_high_regs [OF this]
  show ?thesis
    unfolding thumb_high_arm_def fmt5_cases [OF h_def r_def] h_def [symmetric] r_def [symmetric] Let_def
    by (simp add: e del: encodes.simps)
qed

lemma enc_transfers: "encodes (thumb_mem_arm (BITS t 6 8) (BITS t 3 5) (BITS t 0 2) ! unat (BITS t 9 11)) (thumb_fmt7_8 t)"
proof -
  have m: "t AND 0x200 = 0 \<longleftrightarrow> \<not> bit t 9" using and_exp_eq_0_iff_not_bit [of t 9] by simp
  have b: "BITS t 9 11 = (if bit t 11 then if bit t 10 then if bit t 9 then 7 else 6 else if bit t 9 then 5 else 4
      else if bit t 10 then if bit t 9 then 3 else 2 else if bit t 9 then 1 else 0)"
    by (rule word32_eqI) (simp only: all_less_32_iff, simp add: bit_BITS bit_simps bit_high_False)
  have c: "drop_bit 10 (t AND 0x0C00) = (if bit t 11 then if bit t 10 then 3 else 2 else if bit t 10 then 1 else 0)"
    by (rule word32_eqI) (simp only: all_less_32_iff, simp add: bit_simps bit_high_False)
  show ?thesis unfolding thumb_fmt7_8_def thumb_mem_arm_def m b c
    by (cases "bit t 9"; cases "bit t 10"; cases "bit t 11"; simp; simp add: enc_simps)
qed

lemma enc_offsets:
  "encodes (ArmMem (bit t 11) (bit t 12) (BITS t 3 5) (BITS t 0 2) (if bit t 12 then BITS t 6 10 else 4 * BITS t 6 10)) (thumb_fmt9 t)"
  "encodes (ArmHalf (bit t 11) False True (BITS t 3 5) (BITS t 0 2) (2 * BITS t 6 10)) (thumb_fmt10 t)"
  "encodes (ArmMem (bit t 11) False 13 (BITS t 8 10) (4 * BITS t 0 7)) (thumb_fmt11 t)"
proof -
  have m: "t AND 0x800 \<noteq> 0 \<longleftrightarrow> bit t 11" "t AND 0x1000 \<noteq> 0 \<longleftrightarrow> bit t 12"
    using and_exp_eq_0_iff_not_bit [of t 11] and_exp_eq_0_iff_not_bit [of t 12] by simp_all
  show "encodes (ArmMem (bit t 11) (bit t 12) (BITS t 3 5) (BITS t 0 2) (if bit t 12 then BITS t 6 10 else 4 * BITS t 6 10)) (thumb_fmt9 t)"
    unfolding thumb_fmt9_def m times_4
    by (cases "bit t 11"; cases "bit t 12"; simp add: two_bits bit_drop_bit_eq; simp add: enc_simps)
  show "encodes (ArmMem (bit t 11) False 13 (BITS t 8 10) (4 * BITS t 0 7)) (thumb_fmt11 t)"
    unfolding thumb_fmt11_def m times_4 by (cases "bit t 11"; simp; simp add: enc_simps)
  have "push_bit 4 (BITS (thumb_fmt10 t) 8 11) OR BITS (thumb_fmt10 t) 0 3 = 2 * BITS t 6 10"
    unfolding times_4 thumb_fmt10_def m
    by (cases "bit t 11"; rule word32_eqI; simp only: all_less_32_iff; simp add: bit_BITS bit_simps bit_high_False bit_times_2)
  then show "encodes (ArmHalf (bit t 11) False True (BITS t 3 5) (BITS t 0 2) (2 * BITS t 6 10)) (thumb_fmt10 t)"
    unfolding encodes.simps by (simp add: thumb_fmt10_def m del: push_bit_of_1; cases "bit t 11"; simp add: enc_simps)
qed

lemma enc_adds:
  "encodes (ArmImmediate DpAdd False (if bit t 11 then 13 else 15) (BITS t 8 10) 15 (BITS t 0 7)) (thumb_fmt12 t)"
  "encodes (ArmMultiple (bit t 11) False True (BITS t 8 10) (BITS t 0 7)) (thumb_fmt15 t)"
proof -
  have m: "t AND 0x800 = 0 \<longleftrightarrow> \<not> bit t 11" using and_exp_eq_0_iff_not_bit [of t 11] by simp
  show "encodes (ArmImmediate DpAdd False (if bit t 11 then 13 else 15) (BITS t 8 10) 15 (BITS t 0 7)) (thumb_fmt12 t)"
   "encodes (ArmMultiple (bit t 11) False True (BITS t 8 10) (BITS t 0 7)) (thumb_fmt15 t)"
    unfolding thumb_fmt12_def thumb_fmt15_def m
    by (cases "bit t 11"; simp; simp add: enc_simps)+
qed

lemma middle_field: "t AND 0x0F00 = push_bit 8 (BITS t 8 11)"
  by (rule word32_eqI) (simp only: all_less_32_iff, simp add: bit_BITS bit_simps bit_high_False)

lemma stack_index:
  "drop_bit 10 (t AND 0x800) OR drop_bit 8 (t AND 0x100) = (if bit t 11 then if bit t 8 then 3 else 2 else if bit t 8 then 1 else (0 :: ARMword))"
  by (rule word32_eqI) (simp only: all_less_32_iff, simp add: bit_simps bit_high_False)

lemma enc_misc:
  assumes "thumb_misc_arm t = Some i"
  shows "encodes i (thumb_fmt13_14 t)"
proof -
  have m: "t AND 0x80 \<noteq> 0 \<longleftrightarrow> bit t 7" using and_exp_eq_0_iff_not_bit [of t 7] by simp
  have "\<forall>n<16. unat (BITS t 8 11) = n \<longrightarrow> thumb_misc_arm t = Some i \<longrightarrow> encodes i (thumb_fmt13_14 t)"
    unfolding all_less_16_iff thumb_fmt13_14_def middle_field m stack_index thumb_misc_arm_def Let_def
    by (intro conjI impI; simp add: unat_eq_of_nat; simp add: BITS_eq_iff all_less_32_iff; elim conjE; hypsubst; simp add: enc_simps)
  moreover have "unat (BITS t 8 11) < 16" using unat_BITS_bound [of 8 11 t] by simp
  ultimately show ?thesis using assms by blast
qed

lemma enc_swi:
  assumes "\<not> (t = ARMul_ABORTWORD s AND 0xffff \<and> AbortAddr s = pc)"
  shows "encodes (ArmSwi (if BITS t 0 7 = 0x18 \<or> BITS t 0 7 = 0xFE then 0x180000 else BITS t 0 7)) (thumb_fmt17 s pc t)"
proof -
  have "t AND 0xFF = BITS t 0 7"
    by (rule word32_eqI) (simp only: all_less_32_iff, simp add: bit_BITS bit_simps bit_high_False numeral_2_eq_2 [symmetric])
  then have "thumb_fmt17 s pc t = 0xEF000000 OR (if BITS t 0 7 = 0x18 \<or> BITS t 0 7 = 0xFE then 0x180000 else BITS t 0 7)"
    using assms by (auto simp: thumb_fmt17_def)
  moreover have "encodes (ArmSwi 0x180000) (0xEF000000 OR 0x180000)" "encodes (ArmSwi (BITS t 0 7)) (0xEF000000 OR BITS t 0 7)"
    by (simp_all add: enc_simps)
  ultimately show ?thesis by presburger
qed

lemma enc_shift:
  assumes "unat (BITS t 11 15) \<le> 2"
  shows "encodes (ArmShifted DpMov True 0 (BITS t 0 2) (BITS t 3 5) ([Lsl, Lsr, Asr] ! unat (BITS t 11 15)) (BITS t 6 10)) (thumb_fmt1 t)"
proof -
  have "unat (BITS t 11 15) = 0 \<or> unat (BITS t 11 15) = 1 \<or> unat (BITS t 11 15) = 2" using assms by linarith
  then show ?thesis using enc_fields [of t] by (elim disjE) (simp_all add: unat_eq_of_nat)
qed

lemma enc_immediate:
  assumes "4 \<le> unat (BITS t 11 15)" "unat (BITS t 11 15) \<le> 7"
  shows "encodes (ArmImmediate ([DpMov, DpCmp, DpAdd, DpSub] ! (unat (BITS t 11 15) - 4)) True (BITS t 8 10) (BITS t 8 10) 0 (BITS t 0 7)) (thumb_fmt3 t)"
proof -
  have "unat (BITS t 11 15) = 4 \<or> unat (BITS t 11 15) = 5 \<or> unat (BITS t 11 15) = 6 \<or> unat (BITS t 11 15) = 7" using assms by linarith
  then show ?thesis using enc_immediates [of t] by (elim disjE) (simp_all add: unat_eq_of_nat)
qed

lemma unassigned_numbers:
  assumes "thumb_unassigned v5 t"
  shows "unat (BITS t 11 15) = 8 \<and> bit t 10 \<and> thumb_high_arm v5 t = None \<or> unat (BITS t 11 15) = 27 \<and> unat (BITS t 8 11) = 14 \<or>
    unat (BITS t 11 15) = 29 \<and> \<not> v5"
proof -
  have "BITS t 10 15 = 0x11 \<Longrightarrow> BITS t 11 15 = 8 \<and> bit t 10" "BITS t 8 15 = 0xDE \<Longrightarrow> BITS t 11 15 = 27 \<and> BITS t 8 11 = 14"
    by (simp_all add: BITS_eq_iff all_less_32_iff)
  then show ?thesis using assms by (auto simp: thumb_unassigned_def)
qed

lemma bl_undefined: "is_v5 s = 0 \<Longrightarrow> unat (BITS t 11 15) = 29 \<Longrightarrow> thumb_bl_low s pc t = (t_undefined, s)"
  unfolding thumb_bl_low_def field_masks by (simp add: unat_eq_of_nat)

lemma thumb_numbers: "n \<le> 2 \<or> n = 3 \<or> 4 \<le> n \<and> n \<le> 7 \<or> n = 8 \<or> n = 9 \<or> 10 \<le> n \<and> n \<le> 11 \<or> 12 \<le> n \<and> n \<le> 15 \<or> 16 \<le> n \<and> n \<le> 17
  \<or> 18 \<le> n \<and> n \<le> 19 \<or> 20 \<le> n \<and> n \<le> 21 \<or> 22 \<le> n \<and> n \<le> 23 \<or> 24 \<le> n \<and> n \<le> 25 \<or> 26 \<le> (n :: nat)"
  by presburger



section \<open>Long branches\<close>

text \<open>The signed offset of a pair of halves: 22 bits, times two.\<close>

definition long_offset :: "ARMword \<Rightarrow> int" where
  "long_offset tinstr = signed_take_bit 22 (uint (push_bit 12 (tinstr AND 0x7FF) OR push_bit 1 (drop_bit 16 tinstr AND 0x7FF)))"

lemma long_offset_word:
  "(push_bit 12 (t AND 0x7FF) OR (if t AND 0x400 \<noteq> 0 then 0xFF800000 else 0)) + push_bit 1 (drop_bit 16 t AND 0x7FF)
    = word_of_int (long_offset t)"
proof -
  let ?h = "push_bit 12 (t AND 0x7FF) OR (if t AND 0x400 \<noteq> 0 then 0xFF800000 else 0)" and ?l = "push_bit 1 (drop_bit 16 t AND 0x7FF)"
  have t10: "t AND 0x400 \<noteq> 0 \<longleftrightarrow> bit t 10" using and_exp_eq_0_iff_not_bit [of t 10] by simp
  have "?h + ?l = ?h OR ?l"
  proof (rule disjunctive_add)
    have "\<forall>n<32. \<not> bit ?h n \<or> \<not> bit ?l n" unfolding all_less_32_iff by (simp add: bit_simps)
    then show "\<not> bit ?h n \<or> \<not> bit ?l n" for n by (cases "n < 32") (simp_all add: bit_high_False)
  qed
  also have "\<dots> = word_of_int (long_offset t)"
    by (rule word32_eqI) (simp only: all_less_32_iff t10, simp add: long_offset_def bit_simps)
  finally show ?thesis .
qed

text \<open>
  A pair of Thumb halves is one branch with link of range 4 MB. When the decoder meets the first half of a long
  branch with its second half behind it, it jumps to the address of the instruction plus 4 plus the signed offset
  that both halves spell, leaves the address behind the pair in the link register with the Thumb bit set, and asks
  for the pipeline to be filled again. The exchanging form, from ARMv5 on, aligns the target to a word and leaves
  Thumb state.
\<close>

lemma thumb_long_branch:
  assumes "bigendSig s = 0" "Reg s 15 = pc + 4" "tinstr AND 0xF800 = 0xF000"
    "drop_bit 16 tinstr AND 0xF800 = (if exchange then 0xE800 else 0xF800)" "exchange \<longrightarrow> is_v5 s \<noteq> 0"
  shows "\<exists>t. ARMul_ThumbDecode s pc tinstr = (t_branch, 0xDEADC0DE, t)
    \<and> Reg t = (Reg s)(14 := (pc + 4) OR 1,
        15 := (pc + 4 + word_of_int (long_offset tinstr)) AND (if exchange then 0xFFFFFFFC else 0xFFFFFFFF))
    \<and> TFlag t = (if exchange then 0 else TFlag s) \<and> NextInstr t = NextInstr s OR PRIMEPIPE"
proof -
  let ?t = "tinstr AND 0xFFFF" and ?n = "drop_bit 16 tinstr"
  have m: "?t AND 0xF800 = tinstr AND 0xF800" "?t AND 0x7FF = tinstr AND 0x7FF" "?t AND 0x400 = tinstr AND 0x400"
    by (simp_all add: and.assoc)
  have sw: "ARMul_ThumbDecode s pc tinstr = (case thumb_bl_high s pc ?t ?n of (v, u) \<Rightarrow> (v, 0xDEADC0DE, u))"
    unfolding ARMul_ThumbDecode_def thumb_switch_def Let_def m assms(3) using assms(1) by simp
  define r where "r = pc + 4 + (push_bit 12 (tinstr AND 0x7FF) OR (if tinstr AND 0x400 \<noteq> 0 then 0xFF800000 else 0))"
  have r: "r + push_bit 1 (?n AND 0x7FF) = pc + 4 + word_of_int (long_offset tinstr)"
    unfolding r_def by (simp only: add.assoc long_offset_word)
  have hi: "thumb_bl_high s pc ?t ?n = thumb_bl_low (set_reg 14 r s) (pc + 2) ?n"
    unfolding thumb_bl_high_def Let_def m assms(2,4) r_def using assms(5) by (cases exchange) (simp_all add: set_reg_def)
  have pc4: "pc + 2 + 2 = pc + 4" by simp
  have r14: "Reg (set_reg 14 r s) 14 + push_bit 1 (?n AND 0x7FF) = pc + 4 + word_of_int (long_offset tinstr)"
    using r by (simp add: set_reg_def)
  show ?thesis
  proof (cases exchange)
    case True
    then show ?thesis unfolding sw hi thumb_bl_low_def Let_def assms(4) pc4 r14 using assms(5)
      by (simp add: set_reg_def FLUSHPIPE_def r fun_upd_twist)
  next
    case False
    then show ?thesis unfolding sw hi thumb_bl_low_def Let_def assms(4) pc4 r14
      by (simp add: set_reg_def FLUSHPIPE_def r fun_upd_twist)
  qed
qed

lemma thumb_long_branch_witness:
  "\<exists>t. ARMul_ThumbDecode (boot_state\<lparr>Reg := (\<lambda>_. 0)(15 := 0x1004), TFlag := 1\<rparr>) 0x1000 0xFFFEF7FF = (t_branch, 0xDEADC0DE, t)
    \<and> Reg t 15 = 0x1000 \<and> Reg t 14 = 0x1005"
proof -
  have o: "long_offset 0xFFFEF7FF = - 4" by (simp add: long_offset_def)
  have b: "bigendSig boot_state = 0" by (simp add: boot_state_def ARMul_Reset_cpu_def ARMul_NewState_def Let_def FLUSHPIPE_def
        ARMul_CPSRAltered_def cpsr_switch_mode_def cpsr_assign_flags_def set_reg_def)
  show ?thesis
    using thumb_long_branch [where s = "boot_state\<lparr>Reg := (\<lambda>_. 0)(15 := 0x1004), TFlag := 1\<rparr>"
        and pc = "0x1000" and tinstr = "0xFFFEF7FF" and exchange = False]
    by (auto simp: o b)
qed

end
