(* ===== verification/Arm_Emulate.thy ===== *)
theory Arm_Emulate
  imports Arm_Copro Thumb
begin

text \<open>
  The interpreter of \<^verbatim>\<open>arch/arm/common/armemu.c\<close> as one machine: branches and software interrupts, the switch
  over the opcode, condition codes and Thumb decoding, the three-stage pipeline, and the main loop
  \<^verbatim>\<open>ARMul_Emulate32\<close> with the entry points of \<^verbatim>\<open>arminit.c\<close>. The parts of the loop that serve the debugger,
  the tracing and the logging are left out: they are off unless the user asks for them.
\<close>

section \<open>Branches and software interrupts\<close>

definition POSBRANCH :: "ARMword \<Rightarrow> ARMword" where "POSBRANCH instr = push_bit 2 (instr AND 0x7fffff)"

definition NEGBRANCH :: "ARMword \<Rightarrow> ARMword" where
  "NEGBRANCH instr = push_bit 2 (0xff000000 OR (instr AND 0xffffff))"

type_synonym 'io exec = "'io cpu_env \<Rightarrow> ARMword \<Rightarrow> 'io ARMul_State \<Rightarrow> ARMword \<Rightarrow> 'io ARMul_State sim"

definition exec_B_pos :: "'io exec" where
  "exec_B_pos env pc s instr = Inr (FLUSHPIPE (set_reg 15 (pc + 8 + POSBRANCH instr) s))"

definition exec_B_neg :: "'io exec" where
  "exec_B_neg env pc s instr = Inr (FLUSHPIPE (set_reg 15 (pc + 8 + NEGBRANCH instr) s))"

definition exec_BL_pos :: "'io exec" where
  "exec_BL_pos env pc s instr = Inr (FLUSHPIPE (set_reg 15 (pc + 8 + POSBRANCH instr) (set_reg 14 (pc + 4) s)))"

definition exec_BL_neg :: "'io exec" where
  "exec_BL_neg env pc s instr = Inr (FLUSHPIPE (set_reg 15 (pc + 8 + NEGBRANCH instr) (set_reg 14 (pc + 4) s)))"

text \<open>A word left by an aborted fetch is a software interrupt that takes the prefetch abort.\<close>

definition exec_SWI :: "'io exec" where
  "exec_SWI env pc s instr =
     (if instr = ARMul_ABORTWORD s \<and> AbortAddr s = pc then Inr (ARMul_Abort s ARMul_PrefetchAbortV)
      else case undf_trap env of
             Some trap \<Rightarrow> let (res, s) = trap s instr in Inr (if \<not> res then ARMul_Abort s ARMul_SWIV else s)
           | None \<Rightarrow> Inr (ARMul_Abort s ARMul_SWIV))"

section \<open>The switch over the opcode\<close>

definition nopc :: "('io cpu_env \<Rightarrow> 'io ARMul_State \<Rightarrow> ARMword \<Rightarrow> 'io ARMul_State sim) \<Rightarrow> 'io exec" where
  "nopc f env pc s instr = f env s instr"

definition noenv :: "('io ARMul_State \<Rightarrow> ARMword \<Rightarrow> 'io ARMul_State sim) \<Rightarrow> 'io exec" where
  "noenv f env pc s instr = f s instr"

text \<open>The cases 0x30 and 0x34 only warn.\<close>

definition skip_case :: "'io exec" where "skip_case env pc s instr = Inr s"

definition switch_0 :: "'io exec list" where
  "switch_0 =
     [nopc exec_00, nopc exec_01, nopc exec_02, nopc exec_03,
      nopc exec_04, nopc exec_05, nopc exec_06, nopc exec_07,
      nopc exec_08, nopc exec_09, nopc exec_0a, nopc exec_0b,
      nopc exec_0c, nopc exec_0d, nopc exec_0e, nopc exec_0f]"

definition switch_1 :: "'io exec list" where
  "switch_1 =
     [nopc exec_10, nopc exec_11, exec_12, nopc exec_13,
      nopc exec_14, nopc exec_15, nopc exec_16, nopc exec_17,
      nopc exec_18, nopc exec_19, nopc exec_1a, nopc exec_1b,
      nopc exec_1c, nopc exec_1d, nopc exec_1e, nopc exec_1f]"

definition switch_2 :: "'io exec list" where
  "switch_2 =
     [noenv exec_20, noenv exec_21, noenv exec_22, noenv exec_23,
      noenv exec_24, noenv exec_25, noenv exec_26, noenv exec_27,
      noenv exec_28, noenv exec_29, noenv exec_2a, noenv exec_2b,
      noenv exec_2c, noenv exec_2d, noenv exec_2e, noenv exec_2f]"

definition switch_3 :: "'io exec list" where
  "switch_3 =
     [skip_case, noenv exec_31, noenv exec_32, noenv exec_33,
      skip_case, noenv exec_35, noenv exec_36, noenv exec_37,
      noenv exec_38, noenv exec_39, noenv exec_3a, noenv exec_3b,
      noenv exec_3c, noenv exec_3d, noenv exec_3e, noenv exec_3f]"

definition switch_4 :: "'io exec list" where
  "switch_4 =
     [nopc exec_40, nopc exec_41, nopc exec_42, nopc exec_43,
      nopc exec_44, nopc exec_45, nopc exec_46, nopc exec_47,
      nopc exec_48, nopc exec_49, nopc exec_4a, nopc exec_4b,
      nopc exec_4c, nopc exec_4d, nopc exec_4e, nopc exec_4f]"

definition switch_5 :: "'io exec list" where
  "switch_5 =
     [nopc exec_50, nopc exec_51, nopc exec_52, nopc exec_53,
      nopc exec_54, nopc exec_55, nopc exec_56, nopc exec_57,
      nopc exec_58, nopc exec_59, nopc exec_5a, nopc exec_5b,
      nopc exec_5c, nopc exec_5d, nopc exec_5e, nopc exec_5f]"

definition switch_6 :: "'io exec list" where
  "switch_6 =
     [nopc exec_60, nopc exec_61, nopc exec_62, nopc exec_63,
      nopc exec_64, nopc exec_65, nopc exec_66, nopc exec_67,
      nopc exec_68, nopc exec_69, nopc exec_6a, nopc exec_6b,
      nopc exec_6c, nopc exec_6d, nopc exec_6e, nopc exec_6f]"

definition switch_7 :: "'io exec list" where
  "switch_7 =
     [nopc exec_70, nopc exec_71, nopc exec_72, nopc exec_73,
      nopc exec_74, nopc exec_75, nopc exec_76, nopc exec_77,
      nopc exec_78, nopc exec_79, nopc exec_7a, nopc exec_7b,
      nopc exec_7c, nopc exec_7d, nopc exec_7e, nopc exec_7f]"

definition switch_8 :: "'io exec list" where
  "switch_8 =
     [nopc exec_80, nopc exec_81, nopc exec_82, nopc exec_83,
      nopc exec_84, nopc exec_85, nopc exec_86, nopc exec_87,
      nopc exec_88, nopc exec_89, nopc exec_8a, nopc exec_8b,
      nopc exec_8c, nopc exec_8d, nopc exec_8e, nopc exec_8f]"

definition switch_9 :: "'io exec list" where
  "switch_9 =
     [nopc exec_90, nopc exec_91, nopc exec_92, nopc exec_93,
      nopc exec_94, nopc exec_95, nopc exec_96, nopc exec_97,
      nopc exec_98, nopc exec_99, nopc exec_9a, nopc exec_9b,
      nopc exec_9c, nopc exec_9d, nopc exec_9e, nopc exec_9f]"

definition switch_a :: "'io exec list" where
  "switch_a =
     [exec_B_pos, exec_B_pos, exec_B_pos, exec_B_pos,
      exec_B_pos, exec_B_pos, exec_B_pos, exec_B_pos,
      exec_B_neg, exec_B_neg, exec_B_neg, exec_B_neg,
      exec_B_neg, exec_B_neg, exec_B_neg, exec_B_neg]"

definition switch_b :: "'io exec list" where
  "switch_b =
     [exec_BL_pos, exec_BL_pos, exec_BL_pos, exec_BL_pos,
      exec_BL_pos, exec_BL_pos, exec_BL_pos, exec_BL_pos,
      exec_BL_neg, exec_BL_neg, exec_BL_neg, exec_BL_neg,
      exec_BL_neg, exec_BL_neg, exec_BL_neg, exec_BL_neg]"

definition switch_c :: "'io exec list" where
  "switch_c =
     [nopc exec_c0, nopc exec_c1, nopc exec_c2, nopc exec_c3,
      nopc exec_c4, nopc exec_c5, nopc exec_c2, nopc exec_c3,
      nopc exec_c0, nopc exec_c1, nopc exec_ca, nopc exec_cb,
      nopc exec_c0, nopc exec_c1, nopc exec_ca, nopc exec_cb]"

definition switch_d :: "'io exec list" where
  "switch_d =
     [nopc exec_d0, nopc exec_d1, nopc exec_d2, nopc exec_d3,
      nopc exec_d0, nopc exec_d1, nopc exec_d2, nopc exec_d3,
      nopc exec_d8, nopc exec_d9, nopc exec_da, nopc exec_db,
      nopc exec_d8, nopc exec_d9, nopc exec_da, nopc exec_db]"

definition switch_e :: "'io exec list" where
  "switch_e =
     [nopc exec_e0, nopc exec_e1, nopc exec_e0, nopc exec_e1,
      nopc exec_e0, nopc exec_e1, nopc exec_e0, nopc exec_e1,
      nopc exec_e0, nopc exec_e1, nopc exec_e0, nopc exec_e1,
      nopc exec_e0, nopc exec_e1, nopc exec_e0, nopc exec_e1]"

definition switch_f :: "'io exec list" where
  "switch_f =
     [exec_SWI, exec_SWI, exec_SWI, exec_SWI,
      exec_SWI, exec_SWI, exec_SWI, exec_SWI,
      exec_SWI, exec_SWI, exec_SWI, exec_SWI,
      exec_SWI, exec_SWI, exec_SWI, exec_SWI]"

definition switches :: "'io exec list list" where
  "switches =
     [switch_0, switch_1, switch_2, switch_3, switch_4, switch_5, switch_6, switch_7,
      switch_8, switch_9, switch_a, switch_b, switch_c, switch_d, switch_e, switch_f]"

definition mainswitch :: "'io exec" where
  "mainswitch env pc s instr =
     (switches ! unat (BITS instr 24 27) ! unat (BITS instr 20 23)) env pc s instr"

section \<open>Conditions\<close>

definition exec_BLX1 :: "ARMword \<Rightarrow> 'io ARMul_State \<Rightarrow> ARMword \<Rightarrow> 'io ARMul_State" where
  "exec_BLX1 pc s instr =
     (let s = set_reg 14 (pc + 4) s; dest = pc + 8 + 1;
          dest = (if BIT instr 23 \<noteq> 0 then dest + (NEGBRANCH instr + push_bit 1 (BIT instr 24))
                  else dest + (POSBRANCH instr + push_bit 1 (BIT instr 24)))
      in WriteR15Branch s dest)"

definition execute :: "'io exec" where
  "execute env pc s instr =
     (let cc = drop_bit 28 instr
      in if cc = 14 then mainswitch env pc s instr
         else if cc = 15
         then if is_v5 s \<noteq> 0
              then if BITS instr 25 27 = 5 then Inr (exec_BLX1 pc s instr)
                   else if instr AND 0xFC70F000 = 0xF450F000 then Inr s
                   else if instr AND 0xfe500f00 = 0xfc100100 \<or> instr AND 0xfe500f00 = 0xfc000100
                   then mainswitch env pc s instr
                   else Inr (ARMul_UndefInstr (undf_trap env) s instr)
              else Inr s
         else if cond_pass cc s then mainswitch env pc s instr else Inr s)"

section \<open>One turn of the loop\<close>

text \<open>
  The local variables of \<^verbatim>\<open>ARMul_Emulate32\<close>, and the counter of \<^verbatim>\<open>io_do_cycle\<close>, a static variable of
  \<^verbatim>\<open>armio.c\<close>.
\<close>

record pipeline =
  l_pc :: ARMword
  l_decoded :: ARMword
  l_loaded :: ARMword
  prescale :: int

text \<open>
  What the loop calls beside the processor: the updates of the devices, the machine's own cycle, the functions
  of scheduled events, the flag \<^verbatim>\<open>stop_simulator\<close> that other threads of control set, and \<^verbatim>\<open>ARMul_Emulate26\<close>,
  the same source compiled for the 26-bit modes.
\<close>

record 'io emu_env =
  cpu :: "'io cpu_env"
  dev_updates :: "('io ARMul_State \<Rightarrow> 'io ARMul_State sim) list"
  mach_io_do_cycle :: "'io ARMul_State \<Rightarrow> 'io ARMul_State sim"
  event_fun :: "nat \<Rightarrow> 'io ARMul_State \<Rightarrow> 'io ARMul_State"
  stop_simulator :: "'io ARMul_State \<Rightarrow> bool"
  emulate26 :: "int \<Rightarrow> 'io ARMul_State \<Rightarrow> (ARMword \<times> int \<times> 'io ARMul_State) sim option"

text \<open>The four cases that advance the pipeline by one instruction.\<close>

definition advance ::
  "bool \<Rightarrow> bool \<Rightarrow> 'io cpu_env \<Rightarrow> pipeline \<Rightarrow> 'io ARMul_State \<Rightarrow> (ARMword \<times> pipeline \<times> 'io ARMul_State) sim" where
  "advance incpc nonseq env p s =
     (let isz = isize s; s = (if incpc then set_reg 15 (Reg s 15 + isz) s else s); pc = l_pc p + isz
      in bind_ok ((if nonseq then ARMul_LoadInstrN else ARMul_LoadInstrS) env s (pc + isz * 2) isz) (\<lambda>(loaded, s).
           Inr (l_decoded p, p\<lparr>l_pc := pc, l_decoded := l_loaded p, l_loaded := loaded\<rparr>,
                if incpc \<and> \<not> nonseq then s else s\<lparr>NextInstr := 0\<rparr>)))"

text \<open>The two cases that fill it again after the program counter has changed.\<close>

definition refill ::
  "bool \<Rightarrow> 'io cpu_env \<Rightarrow> pipeline \<Rightarrow> 'io ARMul_State \<Rightarrow> (ARMword \<times> pipeline \<times> 'io ARMul_State) sim" where
  "refill resume env p s =
     (let isz = isize s; pc = Reg s 15;
          s = (set_reg 15 (pc + isz * 2) s)\<lparr>Aborted := 0, AbortAddr := 1\<rparr>;
          first = (if resume then ARMul_ReLoadInstr else ARMul_LoadInstrN);
          rest = (if resume then ARMul_ReLoadInstr else ARMul_LoadInstrS)
      in bind_ok (first env s pc isz) (\<lambda>(instr, s).
         bind_ok (rest env s (pc + isz) isz) (\<lambda>(decoded, s).
         bind_ok (rest env s (pc + isz * 2) isz) (\<lambda>(loaded, s).
           Inr (instr, p\<lparr>l_pc := pc, l_decoded := decoded, l_loaded := loaded\<rparr>, s\<lparr>NextInstr := 0\<rparr>)))))"

definition fetch ::
  "'io cpu_env \<Rightarrow> pipeline \<Rightarrow> 'io ARMul_State \<Rightarrow> (ARMword \<times> pipeline \<times> 'io ARMul_State) sim" where
  "fetch env p s =
     (let s = s\<lparr>isize := INSN_SIZE s\<rparr>; n = NextInstr s
      in if n = 0 then advance True False env p s
         else if n = 1 then advance True True env p s
         else if n = 2 then advance False False env p s
         else if n = 3 then advance False True env p s
         else refill (n = RESUME) env p s)"

fun run_devices :: "('io ARMul_State \<Rightarrow> 'io ARMul_State sim) list \<Rightarrow> 'io ARMul_State \<Rightarrow> 'io ARMul_State sim" where
  "run_devices [] s = Inr s"
| "run_devices (f # fs) s = bind_ok (f s) (run_devices fs)"

definition io_do_cycle :: "'io emu_env \<Rightarrow> pipeline \<Rightarrow> 'io ARMul_State \<Rightarrow> (pipeline \<times> 'io ARMul_State) sim" where
  "io_do_cycle e p s =
     (let p = p\<lparr>prescale := prescale p - 1\<rparr>
      in if prescale p < 0
         then bind_ok (run_devices (dev_updates e) s) (\<lambda>s.
                bind_ok (mach_io_do_cycle e s) (\<lambda>s. Inr (p\<lparr>prescale := 50\<rparr>, s)))
         else Inr (p, s))"

text \<open>Thumb decoding and execution, up to the label \<^verbatim>\<open>donext\<close>.\<close>

definition decode_execute :: "'io exec" where
  "decode_execute env pc s instr =
     (if TFlag s \<noteq> 0
      then case ARMul_ThumbDecode s pc instr of
             (t_undefined, _, s) \<Rightarrow> Inr (ARMul_UndefInstr (undf_trap env) s instr)
           | (t_branch, _, s) \<Rightarrow> Inr s
           | (t_decoded, new, s) \<Rightarrow> execute env pc s new
      else execute env pc s instr)"

text \<open>The first component says whether the loop goes on.\<close>

definition emulate_step ::
  "'io emu_env \<Rightarrow> pipeline \<times> 'io ARMul_State \<Rightarrow> (bool \<times> pipeline \<times> 'io ARMul_State) sim" where
  "emulate_step e = (\<lambda>(p, s).
     bind_ok (fetch (cpu e) p s) (\<lambda>(instr, p, s).
       let s = (if EventSet s \<noteq> 0 then ARMul_EnvokeEvent (event_fun e) s else s);
           (pending, s) = IntPending s
       in if pending then Inr (False, p, s)
          else if Emulate s < ONCE then Inr (False, p, s\<lparr>NextInstr := RESUME\<rparr>)
          else bind_ok (io_do_cycle e p s) (\<lambda>(p, s).
                 bind_ok (decode_execute (cpu e) (l_pc p) (s\<lparr>NumInstrs := NumInstrs s + 1\<rparr>) instr) (\<lambda>s.
                   if Emulate s = ONCE then Inr (\<not> stop_simulator e s, p, s\<lparr>Emulate := STOP\<rparr>)
                   else if Emulate s \<noteq> RUN then Inr (False, p, s)
                   else Inr (\<not> stop_simulator e s, p, s)))))"

section \<open>The loop\<close>

text \<open>A loop that does not end is \<open>None\<close>.\<close>

partial_function (option) emulate_loop ::
  "'io emu_env \<Rightarrow> pipeline \<times> 'io ARMul_State \<Rightarrow> (pipeline \<times> 'io ARMul_State) sim option" where
  "emulate_loop e st =
     (case emulate_step e st of
        Inl x \<Rightarrow> Some (Inl x)
      | Inr (go, st') \<Rightarrow> if go then emulate_loop e st' else Some (Inr st'))"

text \<open>The answer is the address of the last instruction, with the counter of the devices.\<close>

definition ARMul_Emulate32 ::
  "'io emu_env \<Rightarrow> int \<Rightarrow> 'io ARMul_State \<Rightarrow> (ARMword \<times> int \<times> 'io ARMul_State) sim option" where
  "ARMul_Emulate32 e pre s =
     (let p = (if NextInstr s < PRIMEPIPE
               then \<lparr>l_pc = pipe_pc s, l_decoded = pipe_decoded s, l_loaded = pipe_loaded s, prescale = pre\<rparr>
               else \<lparr>l_pc = 0, l_decoded = 0, l_loaded = 0, prescale = pre\<rparr>)
      in case emulate_loop e (p, s) of
           None \<Rightarrow> None
         | Some (Inl x) \<Rightarrow> Some (Inl x)
         | Some (Inr (p, s)) \<Rightarrow>
             Some (Inr (l_pc p, prescale p, s\<lparr>pipe_decoded := l_decoded p, pipe_loaded := l_loaded p, pipe_pc := l_pc p\<rparr>)))"

text \<open>One instruction, and a whole program.\<close>

definition ARMul_Emulate ::
  "'io emu_env \<Rightarrow> int \<Rightarrow> 'io ARMul_State \<Rightarrow> (ARMword \<times> int \<times> 'io ARMul_State) sim option" where
  "ARMul_Emulate e pre s =
     (if prog32Sig s \<noteq> 0 \<and> Mode s > 3 then ARMul_Emulate32 e pre s else emulate26 e pre s)"

definition ARMul_DoInstr ::
  "'io emu_env \<Rightarrow> int \<Rightarrow> 'io ARMul_State \<Rightarrow> (ARMword \<times> int \<times> 'io ARMul_State) sim option" where
  "ARMul_DoInstr e pre s = ARMul_Emulate e pre (s\<lparr>Emulate := ONCE\<rparr>)"

partial_function (option) prog_loop ::
  "'io emu_env \<Rightarrow> ARMword \<Rightarrow> int \<Rightarrow> 'io ARMul_State \<Rightarrow> (ARMword \<times> int \<times> 'io ARMul_State) sim option" where
  "prog_loop e pc pre s =
     (if Emulate s = STOP then Some (Inr (pc, pre, s))
      else case ARMul_Emulate e pre (s\<lparr>Emulate := RUN\<rparr>) of
             None \<Rightarrow> None
           | Some r \<Rightarrow> (case r of Inl x \<Rightarrow> Some (Inl x) | Inr (pc, pre, s) \<Rightarrow> prog_loop e pc pre s))"

definition ARMul_DoProg ::
  "'io emu_env \<Rightarrow> int \<Rightarrow> 'io ARMul_State \<Rightarrow> (ARMword \<times> int \<times> 'io ARMul_State) sim option" where
  "ARMul_DoProg e pre s = prog_loop e 0 pre (s\<lparr>Emulate := RUN\<rparr>)"

section \<open>Branches\<close>

definition branch_offset :: "ARMword \<Rightarrow> int" where
  "branch_offset instr = 4 * signed_take_bit 23 (uint instr)"

lemma branch_offsets:
  "\<not> bit instr 23 \<Longrightarrow> POSBRANCH instr = word_of_int (branch_offset instr)"
  "bit instr 23 \<Longrightarrow> NEGBRANCH instr = word_of_int (branch_offset instr)"
proof -
  have w: "word_of_int (branch_offset instr) = push_bit 2 (word_of_int (signed_take_bit 23 (uint instr)) :: ARMword)"
    by (simp add: branch_offset_def push_bit_eq_mult)
  show "POSBRANCH instr = word_of_int (branch_offset instr)" if "\<not> bit instr 23"
    unfolding w POSBRANCH_def using that
    by (intro arg_cong [of _ _ "push_bit 2"] word32_eqI) (simp only: all_less_32_iff, simp add: bit_simps)
  show "NEGBRANCH instr = word_of_int (branch_offset instr)" if "bit instr 23"
    unfolding w NEGBRANCH_def using that
    by (intro arg_cong [of _ _ "push_bit 2"] word32_eqI) (simp only: all_less_32_iff, simp add: bit_simps)
qed

lemma branch_index:
  assumes "BITS instr 25 27 = 5"
  shows "unat (BITS instr 24 27) = (if bit instr 24 then 11 else 10)"
    "unat (BITS instr 20 23) < 16" "unat (BITS instr 20 23) < 8 \<longleftrightarrow> \<not> bit instr 23"
proof -
  have "bit (BITS instr 25 27) k = bit (5 :: ARMword) k" for k by (simp add: assms)
  then have b: "bit instr 25" "\<not> bit instr 26" "bit instr 27"
    using bit_BITS [of 25 27 instr 0] bit_BITS [of 25 27 instr 1] bit_BITS [of 25 27 instr 2] by simp_all
  have "BITS instr 24 27 = (if bit instr 24 then 11 else 10)"
    by (rule word32_eqI) (simp only: all_less_32_iff, simp add: bit_BITS b)
  then show "unat (BITS instr 24 27) = (if bit instr 24 then 11 else 10)" by simp
  show "unat (BITS instr 20 23) < 16" using unat_BITS_bound [of 20 23 instr] by simp
  show "unat (BITS instr 20 23) < 8 \<longleftrightarrow> \<not> bit instr 23"
  proof (cases "bit instr 23")
    case True
    then have "bit (unat (BITS instr 20 23)) 3" by (simp add: bit_unsigned_iff bit_BITS)
    then have "odd (unat (BITS instr 20 23) div 8)" by (simp add: bit_iff_odd)
    then show ?thesis using True by (auto simp: div_less)
  next
    case False
    then have "BITS instr 20 23 = BITS instr 20 22"
      by (intro word32_eqI) (simp only: all_less_32_iff, simp add: bit_BITS)
    then show ?thesis using False unat_BITS_bound [of 20 22 instr] by simp
  qed
qed

lemma branch_switch:
  assumes "k < 16"
  shows "switch_a ! k = (if k < 8 then exec_B_pos else exec_B_neg)" "switch_b ! k = (if k < 8 then exec_BL_pos else exec_BL_neg)"
proof -
  have "\<forall>k<16. switch_a ! k = (if k < 8 then exec_B_pos else exec_B_neg) \<and> switch_b ! k = (if k < 8 then exec_BL_pos else exec_BL_neg)"
    unfolding all_less_16_iff by (simp add: switch_a_def switch_b_def)
  then show "switch_a ! k = (if k < 8 then exec_B_pos else exec_B_neg)" "switch_b ! k = (if k < 8 then exec_BL_pos else exec_BL_neg)"
    using assms by blast+
qed

lemma mainswitch_branch:
  assumes "BITS instr 25 27 = 5"
  shows "mainswitch env pc s instr = Inr (FLUSHPIPE (set_reg 15 (pc + 8 + word_of_int (branch_offset instr))
    (if bit instr 24 then set_reg 14 (pc + 4) s else s)))"
  using branch_offsets [of instr]
  by (cases "bit instr 24"; cases "bit instr 23")
    (simp_all add: mainswitch_def switches_def branch_switch branch_index [OF assms]
      exec_B_pos_def exec_B_neg_def exec_BL_pos_def exec_BL_neg_def)

lemma refill_pc: "refill r env p s = Inr (i, q, u) \<Longrightarrow> l_pc q = Reg s 15"
  by (auto simp: refill_def Let_def bind_ok_def split: sum.splits prod.splits)

lemma fetch_refills:
  assumes "fetch env p s = Inr (i, q, u)" "bit (NextInstr s) 2"
  shows "l_pc q = Reg s 15"
proof -
  have "NextInstr s \<notin> {0, 1, 2, 3}" using assms(2) by auto
  then have "\<exists>v. refill (NextInstr s = 8) env p (s\<lparr>isize := v\<rparr>) = Inr (i, q, u)"
    using assms(1) by (auto simp: fetch_def Let_def)
  then show ?thesis by (auto dest: refill_pc)
qed

lemma fetch_after_flush: "fetch env p (FLUSHPIPE s) = Inr (i, q, u) \<Longrightarrow> l_pc q = Reg s 15"
  by (drule fetch_refills) (simp_all add: FLUSHPIPE_def bit_or_iff)

text \<open>
  C28: branches go where they say. A branch at address \<open>pc\<close> sets the program counter to \<open>pc\<close> plus 8 plus four times its
  signed 24-bit field, forwards and backwards; with link, it leaves the address of the next instruction in
  register 14. No other register changes, and the next instruction that the pipeline delivers, whatever it held
  before, is the one at the target.
\<close>

theorem branch_taken:
  assumes "BITS instr 25 27 = 5"
  shows "\<exists>t. mainswitch env pc s instr = Inr t
    \<and> Reg t 15 = pc + 8 + word_of_int (4 * signed_take_bit 23 (uint instr))
    \<and> Reg t 14 = (if bit instr 24 then pc + 4 else Reg s 14)
    \<and> (\<forall>r. r < 14 \<longrightarrow> Reg t r = Reg s r)
    \<and> (\<forall>p i q u. fetch env p t = Inr (i, q, u) \<longrightarrow> l_pc q = pc + 8 + word_of_int (4 * signed_take_bit 23 (uint instr)))"
proof -
  let ?u = "set_reg 15 (pc + 8 + word_of_int (branch_offset instr)) (if bit instr 24 then set_reg 14 (pc + 4) s else s)"
  have "mainswitch env pc s instr = Inr (FLUSHPIPE ?u)" by (rule mainswitch_branch [OF assms])
  moreover have "Reg (FLUSHPIPE ?u) = Reg ?u" by (simp add: FLUSHPIPE_def)
  moreover have "\<forall>p i q v. fetch env p (FLUSHPIPE ?u) = Inr (i, q, v) \<longrightarrow> l_pc q = Reg ?u 15"
    using fetch_after_flush by blast
  ultimately show ?thesis by (intro exI [of _ "FLUSHPIPE ?u"]) (simp add: branch_offset_def set_reg_def)
qed

theorem branch_taken_witness:
  "\<exists>t. mainswitch demo_env 0x8000 mul_state 0xEBFFFFFE = Inr t \<and> Reg t 15 = 0x8000 \<and> Reg t 14 = 0x8004"
proof -
  have "BITS 0xEBFFFFFE 25 27 = 5" by (simp add: BITS_def)
  from branch_taken [OF this, of demo_env "0x8000" mul_state] show ?thesis by auto
qed

section \<open>Interrupts\<close>

definition pending_vector :: "'io ARMul_State \<Rightarrow> (ARMword \<times> ARMword) option" where
  "pending_vector s =
     (if NfiqSig s = 0 \<and> FFLAG s = 0 then Some (ARMul_FIQV, FIQ32MODE)
      else if NirqSig s = 0 \<and> IFLAG s = 0 then Some (ARMul_IRQV, IRQ32MODE) else None)"

lemma loop_go: "emulate_step e st = Inr (True, st') \<Longrightarrow> emulate_loop e st = emulate_loop e st'"
  by (subst emulate_loop.simps) simp

lemma loop_leave: "emulate_step e st = Inr (False, st') \<Longrightarrow> emulate_loop e st = Some (Inr st')"
  by (subst emulate_loop.simps) simp

lemma step_interrupted:
  assumes "fetch (cpu e) p s = Inr (instr, q, u)" "EventSet u = 0" "NresetSig u \<noteq> 0" "pending_vector u = Some (vec, m)"
  shows "emulate_loop e (p, s) = Some (Inr (q, ARMul_Abort u vec))"
proof -
  have "IntPending u = (True, ARMul_Abort u vec)"
    using assms(3,4) by (auto simp: IntPending_def pending_vector_def split: if_splits)
  then have "emulate_step e (p, s) = Inr (False, q, ARMul_Abort u vec)"
    using assms(1,2) by (simp add: emulate_step_def)
  then show ?thesis by (rule loop_leave)
qed

lemma interrupt_taken:
  assumes "fetch (cpu e) p s = Inr (instr, q, u)" "EventSet u = 0" "exc_pre u" "NresetSig u \<noteq> 0"
    "TFlag u = 0" "Reg u 15 = l_pc q + 8" "pending_vector u = Some (vec, m)"
  shows "\<exists>t. emulate_loop e (p, s) = Some (Inr (q, t)) \<and> t = ARMul_Abort u vec \<and> Mode t = m \<and> Reg t 14 = l_pc q + 4
    \<and> Spsr t (ModeToBank m) = CPSR u \<and> mem t = mem u
    \<and> (\<forall>p i r v. fetch (cpu e) p t = Inr (i, r, v) \<longrightarrow> l_pc r = handler_address u vec)"
proof -
  let ?t = "ARMul_Abort u vec"
  have "(vec, m) = (ARMul_FIQV, FIQ32MODE) \<or> (vec, m) = (ARMul_IRQV, IRQ32MODE)"
    using assms(7) by (auto simp: pending_vector_def split: if_splits)
  then obtain i where tab: "(vec, m, i, 4, 0) \<in> set exc_table" by (auto simp: exc_table_def)
  note t = Abort_entry_facts [OF assms(3) tab]
  have "Bank ?t = ModeToBank m" using t(1,3) by (simp add: cpu_ok_def bank_ok_def)
  then have "Reg ?t 14 = l_pc q + 4" using t(5) [of "ModeToBank m" 14] assms(5,6) by (simp add: physreg_def)
  moreover have "Reg ?t 15 = handler_address u vec" using t(5) [of 0 15] by (simp add: physreg_def)
  moreover have "bit (NextInstr ?t) 2" by (simp add: t(6) bit_or_iff)
  ultimately show ?thesis
    using step_interrupted [OF assms(1,2,4,7)] t(1,4,7) fetch_refills [of "cpu e" _ ?t]
    by (intro exI [of _ ?t]) auto
qed

text \<open>
  C5: a requested interrupt is taken before the next instruction, and can be returned from. When, after a fetch in
  ARM state, a fast or a normal interrupt is requested and not masked, the loop returns without executing the
  instruction: the processor is in the mode of that interrupt, the fast one first; the link register of that mode
  holds the address of the instruction that was not executed plus 4, and its saved status register the status before;
  no memory has changed, and the next instruction that the pipeline delivers is the first one of the handler.
\<close>

theorem interrupt_preempts:
  assumes "fetch (cpu e) p s = Inr (instr, q, u)" "EventSet u = 0" "exc_pre u" "NresetSig u \<noteq> 0"
    "TFlag u = 0" "Reg u 15 = l_pc q + 8" "pending_vector u = Some (vec, m)"
  shows "\<exists>t. emulate_loop e (p, s) = Some (Inr (q, t)) \<and> Mode t = m \<and> Reg t 14 = l_pc q + 4
    \<and> Spsr t (ModeToBank m) = CPSR u \<and> mem t = mem u
    \<and> (\<forall>p i r v. fetch (cpu e) p t = Inr (i, r, v) \<longrightarrow> l_pc r = handler_address u vec)"
  using interrupt_taken [OF assms] by blast

section \<open>Single steps\<close>

lemma step_runs:
  assumes "fetch (cpu e) p s = Inr (i, q, u)" "EventSet u = 0" "no_interrupt u" "\<not> Emulate u < ONCE" "0 < prescale q"
    "decode_execute (cpu e) (l_pc q) (u\<lparr>NumInstrs := NumInstrs u + 1\<rparr>) i = Inr v" "Emulate v = ONCE"
  shows "emulate_step e (p, s) = Inr (\<not> stop_simulator e v, q\<lparr>prescale := prescale q - 1\<rparr>, v\<lparr>Emulate := STOP\<rparr>)"
proof -
  have "IntPending u = (False, u)" using assms(3) by (simp add: no_interrupt_def IntPending_def)
  then show ?thesis using assms by (simp add: emulate_step_def io_do_cycle_def)
qed

lemma step_stops:
  assumes "fetch (cpu e) p s = Inr (i, q, u)" "EventSet u = 0" "no_interrupt u" "Emulate u < ONCE"
  shows "emulate_step e (p, s) = Inr (False, q, u\<lparr>NextInstr := RESUME\<rparr>)"
proof -
  have "IntPending u = (False, u)" using assms(3) by (simp add: no_interrupt_def IntPending_def)
  then show ?thesis using assms by (simp add: emulate_step_def)
qed

text \<open>
  C33: a single step ends. With the processor in the state that \<^verbatim>\<open>ARMul_DoInstr\<close> sets up, the loop executes the one
  instruction it fetches, fetches once more, and returns: it does not run on. What the step leaves is the state after
  that instruction and that second fetch, marked to be resumed. The hypotheses follow the turn: no event and no
  interrupt is due, the devices are not due, and neither the instruction nor the fetches touch the run state.
\<close>

theorem single_step_returns:
  assumes "fetch (cpu e) p s = Inr (i, q, u)" "Emulate u = ONCE" "EventSet u = 0" "no_interrupt u" "0 < prescale q"
    "decode_execute (cpu e) (l_pc q) (u\<lparr>NumInstrs := NumInstrs u + 1\<rparr>) i = Inr v" "Emulate v = ONCE"
    "\<not> stop_simulator e v"
    "fetch (cpu e) (q\<lparr>prescale := prescale q - 1\<rparr>) (v\<lparr>Emulate := STOP\<rparr>) = Inr (j, r, w)"
    "Emulate w = STOP" "EventSet w = 0" "no_interrupt w"
  shows "emulate_loop e (p, s) = Some (Inr (r, w\<lparr>NextInstr := RESUME\<rparr>))"
proof -
  have "emulate_step e (p, s) = Inr (True, q\<lparr>prescale := prescale q - 1\<rparr>, v\<lparr>Emulate := STOP\<rparr>)"
    using step_runs [OF assms(1,3,4) _ assms(5-7)] assms(2,8) by simp
  from loop_go [OF this] show ?thesis by (simp only:) (intro loop_leave step_stops [OF assms(9,11,12)], simp add: assms(10))
qed

text \<open>An emulator whose memory holds \<^verbatim>\<open>mov r0, r0\<close> everywhere.\<close>

definition nop_emu :: "unit emu_env" where
  "nop_emu = \<lparr>cpu = demo_env\<lparr>mmu_ops := (arm926ejs_mmu_ops bare_env)
       \<lparr>op_load_instr := (\<lambda>s _. Inr (NO_FAULT, Some 0xE1A00000, s))\<rparr>\<rparr>,
     dev_updates = [], mach_io_do_cycle = Inr, event_fun = (\<lambda>_ s. s), stop_simulator = (\<lambda>_. False),
     emulate26 = (\<lambda>_ _. None)\<rparr>"

definition idle_pipe :: pipeline where
  "idle_pipe = \<lparr>l_pc = 0, l_decoded = 0, l_loaded = 0, prescale = 50\<rparr>"

definition at_100 :: "unit ARMul_State" where
  "at_100 = boot_state\<lparr>NextInstr := 4, Reg := (\<lambda>_. 0)(15 := 0x100)\<rparr>"

lemma nop_fetch:
  "ARMul_ReLoadInstr (cpu nop_emu) s a 4 = Inr (0xE1A00000, ARMul_CLEARABORT s)"
  by (simp add: ARMul_ReLoadInstr_def fetch_word_def LoadInstr_def nop_emu_def demo_env_def)

lemma nop_refill:
  assumes "NextInstr s = 4" "TFlag s = 0" "Reg s 15 = a"
  shows "\<exists>u. fetch (cpu nop_emu) p s = Inr (0xE1A00000, p\<lparr>l_pc := a, l_decoded := 0xE1A00000, l_loaded := 0xE1A00000\<rparr>, u)
    \<and> u = s\<lparr>isize := 4, Reg := (Reg s)(15 := a + 8), Aborted := 0, AbortAddr := 1, NumNcycles := NumNcycles s + 1,
          NumScycles := NumScycles s + 2, NextInstr := 0, abortSig := LOW\<rparr>"
  using assms
  by (simp add: fetch_def refill_def INSN_SIZE_def Let_def ARMul_LoadInstrN_def ARMul_LoadInstrS_def nop_fetch
      set_reg_def ARMul_CLEARABORT_def)

theorem interrupt_preempts_witness:
  "\<exists>q t. emulate_loop nop_emu (idle_pipe, at_100\<lparr>IFFlags := 0, NirqSig := 0, NfiqSig := 1\<rparr>) = Some (Inr (q, t))
    \<and> Mode t = IRQ32MODE \<and> Reg t 14 = 0x104 \<and> l_pc q = 0x100"
proof -
  let ?s = "at_100\<lparr>IFFlags := 0, NirqSig := 0, NfiqSig := 1\<rparr>"
  obtain u where f: "fetch (cpu nop_emu) idle_pipe ?s
      = Inr (0xE1A00000, idle_pipe\<lparr>l_pc := 0x100, l_decoded := 0xE1A00000, l_loaded := 0xE1A00000\<rparr>, u)"
    and u: "u = ?s\<lparr>isize := 4, Reg := (Reg ?s)(15 := 0x100 + 8), Aborted := 0, AbortAddr := 1, NumNcycles := NumNcycles ?s + 1,
          NumScycles := NumScycles ?s + 2, NextInstr := 0, abortSig := LOW\<rparr>"
    using nop_refill [of ?s "0x100" idle_pipe] by (auto simp: at_100_def)
  have x: "EventSet u = 0" "exc_pre u" "NresetSig u \<noteq> 0" "TFlag u = 0" "Reg u 15 = 0x108"
    "pending_vector u = Some (ARMul_IRQV, IRQ32MODE)"
    by (simp_all add: u at_100_def exc_pre_def cpu_ok_def bank_ok_def pending_vector_def IFLAG_def FFLAG_def)
  show ?thesis using interrupt_preempts [OF f x(1-4) _ x(6)] x(5) by auto
qed

lemma nop_execute:
  assumes "TFlag s = 0" "Reg s 0 = 0"
  shows "decode_execute (cpu nop_emu) pc s 0xE1A00000 = Inr s"
proof -
  have "set_reg 0 0 s = s" using assms(2) by (simp add: set_reg_def fun_upd_idem)
  then show ?thesis using assms
    by (simp add: decode_execute_def execute_def mainswitch_def switches_def switch_1_def nopc_def BITS_def exec_1a_def dp_reg_def
        DPRegRHS_def RHSReg_def WRITEDEST_def DESTReg_def)
qed

lemma nop_advance:
  assumes "NextInstr s = 0" "TFlag s = 0" "l_decoded p = 0xE1A00000" "l_loaded p = 0xE1A00000"
  shows "\<exists>u. fetch (cpu nop_emu) p s = Inr (0xE1A00000, p\<lparr>l_pc := l_pc p + 4\<rparr>, u)
    \<and> u = s\<lparr>isize := 4, Reg := (Reg s)(15 := Reg s 15 + 4), NumScycles := NumScycles s + 1, abortSig := LOW\<rparr>"
  using assms
  by (simp add: fetch_def advance_def INSN_SIZE_def Let_def ARMul_LoadInstrS_def nop_fetch set_reg_def ARMul_CLEARABORT_def)

theorem single_step_returns_witness:
  "\<exists>r w. emulate_loop nop_emu (idle_pipe, at_100\<lparr>Emulate := ONCE, NfiqSig := 1, NirqSig := 1\<rparr>) = Some (Inr (r, w))
    \<and> NumInstrs w = 1 \<and> l_pc r = 0x104"
proof -
  let ?s = "at_100\<lparr>Emulate := ONCE, NfiqSig := 1, NirqSig := 1\<rparr>"
    and ?q = "idle_pipe\<lparr>l_pc := 0x100, l_decoded := 0xE1A00000, l_loaded := 0xE1A00000\<rparr>"
  obtain u where f: "fetch (cpu nop_emu) idle_pipe ?s = Inr (0xE1A00000, ?q, u)"
    and u: "u = ?s\<lparr>isize := 4, Reg := (Reg ?s)(15 := 0x100 + 8), Aborted := 0, AbortAddr := 1, NumNcycles := NumNcycles ?s + 1,
          NumScycles := NumScycles ?s + 2, NextInstr := 0, abortSig := LOW\<rparr>"
    using nop_refill [of ?s "0x100" idle_pipe] by (auto simp: at_100_def)
  have ux: "Emulate u = ONCE" "EventSet u = 0" "no_interrupt u" "TFlag u = 0" "Reg u 0 = 0" "NextInstr u = 0" "NumInstrs u = 0"
    by (simp_all add: u at_100_def no_interrupt_def boot_state_def ARMul_Reset_cpu_def ARMul_NewState_def Let_def FLUSHPIPE_def
        ARMul_CPSRAltered_def cpsr_switch_mode_def cpsr_assign_flags_def set_reg_def)
  let ?v = "u\<lparr>NumInstrs := NumInstrs u + 1\<rparr>" and ?p = "?q\<lparr>prescale := prescale ?q - 1\<rparr>"
  have d: "decode_execute (cpu nop_emu) (l_pc ?q) ?v 0xE1A00000 = Inr ?v" using ux by (intro nop_execute) simp_all
  obtain w where g: "fetch (cpu nop_emu) ?p (?v\<lparr>Emulate := STOP\<rparr>) = Inr (0xE1A00000, ?p\<lparr>l_pc := l_pc ?p + 4\<rparr>, w)"
    and w: "w = (?v\<lparr>Emulate := STOP\<rparr>)\<lparr>isize := 4, Reg := (Reg ?v)(15 := Reg ?v 15 + 4), NumScycles := NumScycles ?v + 1, abortSig := LOW\<rparr>"
    using nop_advance [of "?v\<lparr>Emulate := STOP\<rparr>" ?p] ux by auto
  have wx: "Emulate w = STOP" "EventSet w = 0" "no_interrupt w" "NumInstrs w = 1"
    using ux by (simp_all add: w no_interrupt_def FFLAG_def IFLAG_def)
  have "emulate_loop nop_emu (idle_pipe, ?s) = Some (Inr (?p\<lparr>l_pc := l_pc ?p + 4\<rparr>, w\<lparr>NextInstr := RESUME\<rparr>))"
    by (rule single_step_returns [OF f ux(1-3) _ d _ _ g wx(1-3)]) (simp_all add: idle_pipe_def ux nop_emu_def)
  then show ?thesis using wx(4) by auto
qed

end
