(* ===== verification/Starlet.thy ===== *)
theory Starlet
  imports Starlet_Ipc Starlet_Seeprom Arm_Emulate
begin

text \<open>
  The machine as a whole: which address reaches which device, the reset, the start, and the machine as the
  environment in which the processor runs.
\<close>

section \<open>Controllers without function\<close>

definition starlet_sdio_write :: "starlet \<Rightarrow> ARMword \<Rightarrow> ARMword \<Rightarrow> starlet" where
  "starlet_sdio_write s addr data = s"

definition starlet_sdio_read :: "ARMword \<Rightarrow> ARMword" where
  "starlet_sdio_read addr =
     (let a = addr AND 0xFFFF
      in if a = 0x0024 then 0x01ff0000 else if a = 0x002C then 0x00000002 else if a = 0x0040 then 0x01e130b0 else 0)"

definition starlet_ohc_write :: "starlet \<Rightarrow> int \<Rightarrow> ARMword \<Rightarrow> ARMword \<Rightarrow> starlet" where
  "starlet_ohc_write s i addr data = s"

definition starlet_ohc_read :: "int \<Rightarrow> ARMword \<Rightarrow> ARMword" where
  "starlet_ohc_read i addr = (if addr AND 0xFFFF = 0x00 then 0x110 else 0)"

section \<open>The address map\<close>

text \<open>
  A register of the first page that is none of the three groups falls through to the AES engine, one of the second
  copy of that page to the memory controller.
\<close>

definition sram_area :: "ARMword \<Rightarrow> bool" where
  "sram_area addr \<longleftrightarrow> drop_bit 20 addr = 0x0d4 \<or> drop_bit 20 addr = 0x0dc \<or> drop_bit 20 addr = 0xfff"

definition sram_access :: "(ARMword \<times> starlet_io_t) sim \<Rightarrow> starlet \<Rightarrow> (ARMword \<times> starlet) sim" where
  "sram_access r s = bind_ok r (\<lambda>(v, i). Inr (v, set_io i s))"

definition starlet_io_read_word :: "starlet_t mem_reader" where
  "starlet_io_read_word s addr =
     (let page = drop_bit 16 addr; sub = addr AND 0xFC00; ret = (\<lambda>v. Inr (v, s))
      in if page = 0x0D00 \<and> sub = 0x0000 then bind_ok (starlet_hollywood_read (mach_io s) addr) ret
         else if page = 0x0D00 \<and> sub = 0x6000 then ret (starlet_di_read (get_io s) addr)
         else if page = 0x0D00 \<and> sub = 0x6800 then ret (starlet_exi_read (get_io s) addr)
         else if page = 0x0D00 \<or> page = 0x0D02 then ret (starlet_aes_read addr)
         else if page = 0x0D03 then ret (starlet_sha_read (mach_io s) addr)
         else if page = 0x0D05 then ret (starlet_ohc_read 0 addr)
         else if page = 0x0D06 then ret (starlet_ohc_read 1 addr)
         else if page = 0x0D07 then ret (starlet_sdhc_read (mach_io s) addr)
         else if page = 0x0D08 then ret (starlet_sdio_read addr)
         else if page = 0x0D80 \<and> sub = 0x0000 then bind_ok (starlet_hollywood_read (mach_io s) addr) ret
         else if page = 0x0D80 \<and> sub = 0x6000 then ret (starlet_di_read (get_io s) addr)
         else if page = 0x0D80 \<and> sub = 0x6800 then ret (starlet_exi_read (get_io s) addr)
         else if page = 0x0D80 \<or> page = 0x0D8B then ret (starlet_dram_read (mach_io s) addr)
         else if sram_area addr then sram_access (starlet_sram_read_word (get_io s) addr) s
         else ret 0)"

definition starlet_io_read_byte :: "starlet_t mem_reader" where
  "starlet_io_read_byte s addr =
     (if sram_area addr then sram_access (starlet_sram_read_byte (get_io s) addr) s else starlet_io_read_word s addr)"

definition starlet_io_read_halfword :: "starlet_t mem_reader" where
  "starlet_io_read_halfword s addr =
     (if drop_bit 16 addr = 0x0d8b then Inr (starlet_ahb_read_halfword (get_io s) addr, s)
      else if sram_area addr then sram_access (starlet_sram_read_halfword (get_io s) addr) s
      else starlet_io_read_word s addr)"

text \<open>\<open>env\<close> is the memory that the commands of the engines copy from and to.\<close>

definition starlet_io_write_word :: "host_files \<Rightarrow> aes_cbc \<Rightarrow> starlet_t arm_env \<Rightarrow> starlet_t mem_writer" where
  "starlet_io_write_word files cbc env s addr data =
     (let page = drop_bit 16 addr; sub = addr AND 0xFC00
      in if page = 0x0D00 \<and> sub = 0x0000 then starlet_hollywood_write files s addr data
         else if page = 0x0D00 \<and> sub = 0x6000 then starlet_di_write files env s addr data
         else if page = 0x0D00 \<and> sub = 0x6800 then Inr (map_mach (starlet_exi_write addr data) s)
         else if page = 0x0D00 \<or> page = 0x0D02 then starlet_aes_write cbc env s addr data
         else if page = 0x0D03 then starlet_sha_write env s addr data
         else if page = 0x0D05 then Inr (starlet_ohc_write s 0 addr data)
         else if page = 0x0D06 then Inr (starlet_ohc_write s 1 addr data)
         else if page = 0x0D07 then starlet_sdhc_write files env s addr data
         else if page = 0x0D08 then Inr (starlet_sdio_write s addr data)
         else if page = 0x0D80 \<and> sub = 0x0000 then starlet_hollywood_write files s addr data
         else if page = 0x0D80 \<and> sub = 0x6000 then starlet_di_write files env s addr data
         else if page = 0x0D80 \<and> sub = 0x6800 then Inr (map_mach (starlet_exi_write addr data) s)
         else if page = 0x0D80 \<or> page = 0x0D8B then Inr (map_mach (\<lambda>m. starlet_dram_write m addr data) s)
         else if sram_area addr then bind_ok (starlet_sram_write_word (get_io s) addr data) (\<lambda>i. Inr (set_io i s))
         else Inr s)"

definition starlet_io_write_byte :: "host_files \<Rightarrow> aes_cbc \<Rightarrow> starlet_t arm_env \<Rightarrow> starlet_t mem_writer" where
  "starlet_io_write_byte files cbc env s addr data =
     (if sram_area addr then bind_ok (starlet_sram_write_byte (get_io s) addr data) (\<lambda>i. Inr (set_io i s))
      else starlet_io_write_word files cbc env s addr data)"

definition starlet_io_write_halfword :: "host_files \<Rightarrow> aes_cbc \<Rightarrow> starlet_t arm_env \<Rightarrow> starlet_t mem_writer" where
  "starlet_io_write_halfword files cbc env s addr data =
     (if drop_bit 16 addr = 0x0d8b then Inr (map_io (\<lambda>i. starlet_ahb_write_halfword i addr data) s)
      else if sram_area addr then bind_ok (starlet_sram_write_halfword (get_io s) addr data) (\<lambda>i. Inr (set_io i s))
      else starlet_io_write_word files cbc env s addr data)"

text \<open>
  The machine as the memory sees it. A command of an engine writes to memory, which may be the registers of the
  machine again; the last number bounds how deep the calls nest before the stack of the host is used up.
\<close>

definition starlet_handlers ::
  "starlet_t device_desc list \<Rightarrow> nat \<Rightarrow> starlet_t mem_writer \<Rightarrow> starlet_t mem_writer \<Rightarrow> starlet_t mem_writer \<Rightarrow> starlet_t arm_env" where
  "starlet_handlers devs depth wb wh ww =
     \<lparr>stack_depth = depth, devices = devs, mach_io_read_byte = starlet_io_read_byte,
      mach_io_read_halfword = starlet_io_read_halfword, mach_io_read_word = starlet_io_read_word,
      mach_io_write_byte = wb, mach_io_write_halfword = wh, mach_io_write_word = ww\<rparr>"

fun starlet_env :: "host_files \<Rightarrow> aes_cbc \<Rightarrow> starlet_t device_desc list \<Rightarrow> nat \<Rightarrow> nat \<Rightarrow> starlet_t arm_env" where
  "starlet_env files cbc devs depth 0 =
     starlet_handlers devs depth (\<lambda>s a d. Inl StackOverflow) (\<lambda>s a d. Inl StackOverflow) (\<lambda>s a d. Inl StackOverflow)"
| "starlet_env files cbc devs depth (Suc n) =
     (let env = starlet_env files cbc devs depth n
      in starlet_handlers devs depth (starlet_io_write_byte files cbc env) (starlet_io_write_halfword files cbc env)
           (starlet_io_write_word files cbc env))"

section \<open>Start and reset\<close>

text \<open>\<open>heap k\<close> is what the \<open>k\<close>-th call of \<^verbatim>\<open>malloc\<close> finds in memory.\<close>

definition boot0_array :: "octet list \<Rightarrow> nat \<Rightarrow> octet" where
  "boot0_array f k = (if k < length f then f ! k else 0)"

definition starlet_io_reset :: "host_files \<Rightarrow> (nat \<Rightarrow> nat \<Rightarrow> octet) \<Rightarrow> starlet \<Rightarrow> starlet sim" where
  "starlet_io_reset files heap s =
     (case boot0_bin files of
        None \<Rightarrow> Inl SkyeyeExit
      | Some f \<Rightarrow>
          if length f < 0x2000 then Inl SkyeyeExit
          else let s = set_io (io_zero\<lparr>srama := Some (heap 0), sramb := Some (heap 1), boot0 := Some (boot0_array (take 0x2000 f))\<rparr>) s;
                   s = ARMul_Abort (s\<lparr>mmu := (mmu s)\<lparr>control := control (mmu s) OR 0x2000\<rparr>\<rparr>) ARMul_ResetV
               in Inr (map_io (\<lambda>i. i\<lparr>gpio1_latch := 0x20\<rparr>) s))"

definition starlet_mach_init :: "host_files \<Rightarrow> starlet \<Rightarrow> starlet sim" where
  "starlet_mach_init files s =
     (if bigendSig s \<noteq> HIGH then Inl SkyeyeExit
      else let s = map_mach (\<lambda>m. m\<lparr>hollywood_port_state := \<lambda>_. 0\<rparr>) s;
               s = (ARMul_SelectProcessor s 0x80)\<lparr>lateabtSig := HIGH\<rparr>
           in Inr (map_mach (starlet_sdhc_init files) s))"

section \<open>What the processor runs\<close>

datatype context_id =
  C_UNKNOWN | C_BOOT0 | C_BOOT1 | C_BOOT2L | C_IOSLDR | C_KERNEL | C_CRYPTO | C_FS | C_ES | C_DIP | C_STM | C_SDI | C_OH0 | C_OH1
  | C_SO | C_KD | C_WD | C_WL | C_NCD | C_ETH | C_KBD | C_SSL | C_BOOTMII

definition get_context_id :: "starlet_io_t \<Rightarrow> ARMword \<Rightarrow> context_id" where
  "get_context_id i pc =
     (let pc = (if drop_bit 17 pc = 0x7ff8 then (pc AND 0x1ffff) OR 0x0d400000 else pc); p = drop_bit 16 pc
      in if p = 0x13a7 then C_CRYPTO else if p = 0x2000 then C_FS else if p = 0x2010 then C_ES
         else if p = 0x2020 then C_DIP else if p = 0x2030 then C_STM else if p = 0x2040 then C_SDI
         else if p = 0x138a then C_OH0 else if p = 0x138b then C_OH1
         else if p \<in> {0x13b4, 0x13b5, 0x13b6} then C_SO
         else if p \<in> {0x13db, 0x13dc, 0x13dd, 0x13de, 0x13df, 0x13e0} then C_KD
         else if p = 0x13eb then C_WD
         else if p \<in> {0x13ed, 0x13ee, 0x13ef, 0x13f0, 0x13f1, 0x13f2, 0x13f3} then C_WL
         else if p = 0x13d9 then C_NCD else if p = 0x13aa then C_ETH else if p = 0x1365 then C_KBD
         else if p \<in> {0x13cc, 0x13cd, 0x13ce, 0x13cf, 0x13d0, 0x13d1} then C_SSL
         else if p = 0xFFFF
         then if boot0_flags i AND 0x1000 \<noteq> 0 \<or> mirror_flags i AND 0x20 \<noteq> 0 then C_KERNEL else C_BOOT0
         else if p = 0x0002 then C_BOOT2L else if p = 0x1010 then C_IOSLDR else if p = 0x0d40 then C_BOOT1
         else if p = 0x1040 then C_BOOTMII
         else C_UNKNOWN)"

section \<open>The boot ROM runs first\<close>

text \<open>What an exception entry leaves alone: the devices and the number of instructions executed.\<close>

definition beside :: "'io ARMul_State \<Rightarrow> 'io \<times> 64 word" where
  "beside s = (mach_io s, NumInstrs s)"

lemma beside_update:
  "beside (s\<lparr>Reg := r\<rparr>) = beside s" "beside (s\<lparr>RegBank := b\<rparr>) = beside s" "beside (s\<lparr>Bank := n\<rparr>) = beside s"
  "beside (s\<lparr>Cpsr := w\<rparr>) = beside s" "beside (s\<lparr>Spsr := r\<rparr>) = beside s" "beside (s\<lparr>Mode := w\<rparr>) = beside s"
  "beside (s\<lparr>NtransSig := w\<rparr>) = beside s" "beside (s\<lparr>Emulate := w\<rparr>) = beside s" "beside (s\<lparr>IFFlags := w\<rparr>) = beside s"
  "beside (s\<lparr>NFlag := w\<rparr>) = beside s" "beside (s\<lparr>ZFlag := w\<rparr>) = beside s" "beside (s\<lparr>CFlag := w\<rparr>) = beside s"
  "beside (s\<lparr>VFlag := w\<rparr>) = beside s" "beside (s\<lparr>SFlag := w\<rparr>) = beside s" "beside (s\<lparr>TFlag := w\<rparr>) = beside s"
  "beside (s\<lparr>NextInstr := w\<rparr>) = beside s" "beside (s\<lparr>Aborted := w\<rparr>) = beside s" "beside (s\<lparr>AbortAddr := w\<rparr>) = beside s"
  by (simp_all add: beside_def)

lemmas beside_frame = if_distrib [of beside] Let_def if_cancel beside_update

lemma set_reg_beside: "beside (set_reg i v s) = beside s"
  by (simp add: set_reg_def beside_update)

lemma SwitchMode_beside: "beside (ARMul_SwitchMode s a b) = beside s"
  by (simp only: ARMul_SwitchMode_def restore_new_regs_def save_old_regs_def beside_frame)

lemma CPSRAltered_beside: "beside (ARMul_CPSRAltered s) = beside s"
  by (simp only: ARMul_CPSRAltered_def cpsr_assign_flags_def cpsr_switch_mode_def SwitchMode_beside set_reg_beside beside_frame)

lemma SETABORT_beside: "beside (SETABORT i m d temp s) = beside s"
  by (simp only: SETABORT_def ARMul_SetCPSR_def ARMul_SetSPSR_def CPSRAltered_beside set_reg_beside beside_frame)

lemma R15Altered_beside: "beside (ARMul_R15Altered s) = beside s"
  by (simp only: ARMul_R15Altered_def SwitchMode_beside beside_frame)

lemma Abort_beside: "beside (ARMul_Abort s vec) = beside s"
  by (simp only: ARMul_Abort_def abort_switch_def SETABORT_beside ARMul_SetR15_def R15Altered_beside FLUSHPIPE_def
      set_reg_beside beside_frame)

lemma Abort_keeps: "mach_io (ARMul_Abort s vec) = mach_io s" "NumInstrs (ARMul_Abort s vec) = NumInstrs s"
  using Abort_beside [of s vec] by (simp_all add: beside_def)

lemma boot_address:
  assumes "k < 0x2000"
  shows "unat ((0xffff0000 + of_nat k :: ARMword) AND 0x1fff) = k" "0xffff0000 \<le> (0xffff0000 + of_nat k :: ARMword)"
    "drop_bit 16 (0xffff0000 + of_nat k :: ARMword) = 0xffff" "drop_bit 20 (0xffff0000 + of_nat k :: ARMword) = 0xfff"
proof -
  have u: "unat (0xffff0000 + of_nat k :: ARMword) = 0xffff0000 + k"
    using assms by (simp add: unat_word_ariths unat_of_nat take_bit_nat_eq_self)
  then show "0xffff0000 \<le> (0xffff0000 + of_nat k :: ARMword)" by (simp add: word_le_nat_alt)
  have m: "(0x1fff :: ARMword) = mask 13" by (simp add: mask_eq_exp_minus_1)
  have "(0x2000 * 0x7fff8 + k) mod 0x2000 = k" using assms by (simp only: mod_mult_self4 mod_less)
  then show "unat ((0xffff0000 + of_nat k :: ARMword) AND 0x1fff) = k"
    unfolding m take_bit_eq_mask [symmetric] unsigned_take_bit_eq u by (simp add: take_bit_eq_mod)
  show "drop_bit 16 (0xffff0000 + of_nat k :: ARMword) = 0xffff" "drop_bit 20 (0xffff0000 + of_nat k :: ARMword) = 0xfff"
    using assms by (simp_all add: word_unat_eq_iff drop_bit_eq_div unat_div u)
qed

text \<open>
  C17. The reset starts the boot ROM: with a complete \<^verbatim>\<open>boot0.bin\<close>, and the processor in a 32-bit mode with no
  remapping of the vectors, it leaves the processor in supervisor mode at the start of the high vectors, where every
  word that the machine returns is the one of the file. All device registers are cleared with it, those of the SD
  controller included that the start of the machine had set; with a missing or short file the simulator ends.
\<close>

theorem starlet_boots:
  assumes "boot0_bin files = Some f" "exc_pre s" "vector_remap_flag s = 0"
  shows "if length f < 0x2000 then starlet_io_reset files heap s = Inl SkyeyeExit
    else \<exists>t. starlet_io_reset files heap s = Inr t \<and> Mode t = SVC32MODE \<and> Reg t 15 = 0xffff0000 \<and>
      get_context_id (get_io t) (Reg t 15) = C_BOOT0 \<and> sdhc_reg (get_io t) = sdhc_zero \<and>
      (\<forall>k<0x2000. 4 dvd k \<longrightarrow>
         starlet_io_read_word t (0xffff0000 + of_nat k) = Inr (be32 (f ! k) (f ! (k + 1)) (f ! (k + 2)) (f ! (k + 3)), t))"
proof (cases "length f < 0x2000")
  case True
  then show ?thesis using assms(1) by (simp add: starlet_io_reset_def)
next
  case False
  define i where "i = io_zero\<lparr>srama := Some (heap 0), sramb := Some (heap 1), boot0 := Some (boot0_array (take 0x2000 f))\<rparr>"
  define u where "u = (set_io i s)\<lparr>mmu := (mmu s)\<lparr>control := control (mmu s) OR 0x2000\<rparr>\<rparr>"
  define t where "t = map_io (\<lambda>i. i\<lparr>gpio1_latch := 0x20\<rparr>) (ARMul_Abort u ARMul_ResetV)"
  have "starlet_io_reset files heap s = Inr t"
    using False assms(1) by (simp add: starlet_io_reset_def Let_def t_def u_def i_def set_io_def)
  moreover have pre: "exc_pre u"
    using assms(2) by (simp add: exc_pre_def u_def set_io_def cpu_ok_def bank_ok_def)
  have "(ARMul_ResetV, SVC32MODE, INTBITS, 0, 0) \<in> set exc_table" by (simp add: exc_table_def)
  note a = Abort_entry_facts [OF pre this]
  have "bit (0x2000 :: ARMword) 13" using bit_exp_iff [where ?'a = "32 word", of 13 13] by simp
  then have "handler_address u ARMul_ResetV = 0xffff0000"
    using assms(3) by (simp add: handler_address_def u_def set_io_def bit_or_iff)
  then have "Mode t = SVC32MODE" "Reg t 15 = 0xffff0000"
    using a(1) a(5) [of 0 15] by (simp_all add: t_def map_io_def set_io_def physreg_def)
  moreover have io: "get_io t = i\<lparr>gpio1_latch := 0x20\<rparr>"
    by (simp add: t_def get_io_def Abort_keeps u_def set_io_def)
  moreover have "starlet_io_read_word t (0xffff0000 + of_nat k) = Inr (be32 (f ! k) (f ! (k + 1)) (f ! (k + 2)) (f ! (k + 3)), t)"
    if "k < 0x2000" "4 dvd k" for k
  proof -
    have "k + 3 < 0x2000" using that by presburger
    then have "starlet_sram_read_word (get_io t) (0xffff0000 + of_nat k) =
        Inr (be32 (f ! k) (f ! (k + 1)) (f ! (k + 2)) (f ! (k + 3)), get_io t)"
      using boot_address [OF that(1)] False
      by (simp add: starlet_sram_read_word_def sram_read_def starlet_sram_decode_def io i_def io_zero_def deref_def get_be32_def
          boot0_array_def not_less)
    then show ?thesis
      using boot_address [OF that(1)]
      by (simp add: starlet_io_read_word_def sram_area_def sram_access_def) (simp add: set_io_def get_io_def)
  qed
  ultimately show ?thesis
    using False by (simp add: i_def io_zero_def get_context_id_def)
qed

definition boot_image :: "octet list" where
  "boot_image = replicate 0x2000 0x11"

definition boot_files :: host_files where
  "boot_files = \<lparr>boot0_bin = Some boot_image, otp_bin = None, seeprom_bin = None, disc_iso = None, sd_bin = None\<rparr>"

definition reset_state :: starlet where
  "reset_state = ARMul_Reset_cpu (ARMul_NewState mem_zero starlet_zero)"

lemma reset_state_pre: "exc_pre reset_state" "vector_remap_flag reset_state = 0"
  by (simp_all add: exc_pre_def cpu_ok_def bank_ok_def reset_state_def ARMul_Reset_cpu_def ARMul_NewState_def Let_def
      ARMul_CPSRAltered_def cpsr_switch_mode_def cpsr_assign_flags_def FLUSHPIPE_def set_reg_def ASSIGNINT_def)

theorem starlet_boots_witness:
  "\<exists>t. starlet_io_reset boot_files (\<lambda>_ _. 0xff) reset_state = Inr t \<and> Reg t 15 = 0xffff0000 \<and>
     starlet_io_read_word t 0xffff0004 = Inr (0x11111111, t)"
proof -
  have f: "boot0_bin boot_files = Some boot_image" by (simp add: boot_files_def)
  have n: "\<not> length boot_image < 0x2000" by (simp add: boot_image_def)
  have b: "boot_image ! k = 0x11" if "k < 0x2000" for k unfolding boot_image_def using that by (rule nth_replicate)
  have "be32 (boot_image ! 4) (boot_image ! (4 + 1)) (boot_image ! (4 + 2)) (boot_image ! (4 + 3)) = 0x11111111"
    by (simp add: b be32_def)
  moreover from starlet_boots [OF f reset_state_pre, of "\<lambda>_ _. 0xff"] n
  obtain t where "starlet_io_reset boot_files (\<lambda>_ _. 0xff) reset_state = Inr t" "Reg t 15 = 0xffff0000"
    "\<forall>k<0x2000. 4 dvd k \<longrightarrow> starlet_io_read_word t (0xffff0000 + of_nat k) =
       Inr (be32 (boot_image ! k) (boot_image ! (k + 1)) (boot_image ! (k + 2)) (boot_image ! (k + 3)), t)"
    by auto
  ultimately show ?thesis
    using spec [of "\<lambda>k. k < 0x2000 \<longrightarrow> 4 dvd k \<longrightarrow> starlet_io_read_word t (0xffff0000 + of_nat k) =
       Inr (be32 (boot_image ! k) (boot_image ! (k + 1)) (boot_image ! (k + 2)) (boot_image ! (k + 3)), t)" 4] by auto
qed

section \<open>The machine on the bus\<close>

definition io_mapped :: "'io ARMul_State \<Rightarrow> ARMword \<Rightarrow> bool" where
  "io_mapped s a \<longleftrightarrow> banks_disjoint (mem_banks (mem s)) \<and> cache_ok (mem s) \<and>
     (\<exists>i<length (live_banks (mem_banks (mem s))). in_bank (mem_banks (mem s) ! i) a \<and> mb_write (mem_banks (mem s) ! i) = Some IoWrite)"

lemma io_mapped_map [simp]: "io_mapped (map_io f s) a = io_mapped s a" "io_mapped (map_mach g s) a = io_mapped s a"
  by (simp_all add: io_mapped_def map_io_def set_io_def map_mach_def)

lemma io_mapped_same: "same_memory s t \<Longrightarrow> io_mapped s a \<Longrightarrow> io_mapped t a"
  by (auto simp: same_memory_def io_mapped_def)

lemma same_memory_mach_io: "same_memory s t \<Longrightarrow> mach_io t = mach_io s \<and> get_io t = get_io s"
  by (auto simp: same_memory_def get_io_def)

text \<open>A byte written to an address of an I/O bank that no plug-in device takes goes to the machine.\<close>

lemma bus_write_byte:
  assumes "io_mapped s a" "devices env = []"
  shows "\<exists>t. mem_write_byte env (Suc d) s a v = mach_io_write_byte env t a v \<and> same_memory s t"
proof -
  obtain i where i: "i < length (live_banks (mem_banks (mem s)))" "in_bank (mem_banks (mem s) ! i) a"
      "mb_write (mem_banks (mem s) ! i) = Some IoWrite" and b: "banks_disjoint (mem_banks (mem s))" "cache_ok (mem s)"
    using assms(1) by (auto simp: io_mapped_def)
  obtain g t where t: "set_global_mbp a s = (g, t)" "same_memory s t" "mem_banks (mem t) = mem_banks (mem s)"
      "\<And>i. g = Some i \<longleftrightarrow> i < length (live_banks (mem_banks (mem s))) \<and> in_bank (mem_banks (mem s) ! i) a"
    using set_global_mbp_spec [OF b, of a] by metis
  have "g = Some i" using t(4) i(1,2) by simp
  then have "mem_write_byte env (Suc d) s a v = mach_io_write_byte env t a v"
    using t(1,3) i(3) assms(2) by (simp add: mem_write_byte.simps io_write_byte_def)
  then show ?thesis using t(2) by blast
qed

text \<open>A disc read that is set up to store into the control register of the disc interface.\<close>

definition di_loop :: "octet list \<Rightarrow> starlet \<Rightarrow> bool" where
  "di_loop f s \<longleftrightarrow>
     (let c = dicmdbuf (get_io s)
      in c ! 0 = 0xa8000000 \<and> 0 < c ! 2 \<and> c ! 2 \<le> 32768 \<and> 4 * unat (c ! 1) + unat (c ! 2) \<le> length f \<and>
         bit (f ! (4 * unat (c ! 1))) 0 \<and> dimar (get_io s) = 0x0d00601c) \<and> io_mapped s 0x0d00601c"

lemma di_loop_io:
  "di_loop f s \<Longrightarrow> dicmdbuf (g (get_io s)) = dicmdbuf (get_io s) \<Longrightarrow> dimar (g (get_io s)) = dimar (get_io s) \<Longrightarrow> di_loop f (map_io g s)"
  by (simp add: di_loop_def)

lemma di_loop_same: "di_loop f s \<Longrightarrow> same_memory s t \<Longrightarrow> di_loop f t"
  using io_mapped_same by (auto simp: di_loop_def same_memory_mach_io)

lemma di_command_first_byte:
  assumes f: "disc_iso files = Some f" and s: "di_loop f s" and env: "stack_depth env = Suc d" "devices env = []"
    and wr: "\<And>t v. di_loop f t \<Longrightarrow> bit v 0 \<Longrightarrow> mach_io_write_byte env t 0x0d00601c v = Inl StackOverflow"
  shows "starlet_do_di_command files env s = Inl StackOverflow"
proof -
  define off where "off = 4 * unat (dicmdbuf (get_io s) ! 1)"
  define len where "len = dicmdbuf (get_io s) ! 2"
  have c: "dicmdbuf (get_io s) ! 0 = 0xa8000000" "0 < len" "\<not> len > 32768" "off + unat len \<le> length f" "bit (f ! off) 0"
      "dimar (get_io s) = 0x0d00601c"
    using s by (auto simp: di_loop_def off_def len_def Let_def)
  obtain m where m: "unat len = Suc m" using c(2) by (cases "unat len") (auto simp: unat_eq_zero)
  have bs: "take (unat len) (drop off f) = f ! off # take m (drop (Suc off) f)"
    using Cons_nth_drop_Suc [of off f] c(4) m by (metis add_Suc_right le_add1 less_le_trans not_less_eq take_Suc_Cons)
  have u: "di_loop f (enter_internal s)" unfolding enter_internal_def using s by (intro di_loop_io) simp_all
  then obtain t where t: "mem_write_byte env (Suc d) (enter_internal s) 0x0d00601c (ucast (f ! off)) =
      mach_io_write_byte env t 0x0d00601c (ucast (f ! off))" "same_memory (enter_internal s) t"
    using bus_write_byte [of "enter_internal s" "0x0d00601c" env d "ucast (f ! off)"] env(2) by (auto simp: di_loop_def)
  have "mach_io_write_byte env t 0x0d00601c (ucast (f ! off)) = Inl StackOverflow"
    using wr [OF di_loop_same [OF u t(2)]] c(5) by (simp add: bit_ucast_iff del: bit_0)
  then have "starlet_host2arm env s 0x0d00601c (take (unat len) (drop off f)) len = Inl StackOverflow"
    using t(1) by (simp add: starlet_host2arm_def env(1) bs [unfolded m] m del: mem_write_byte.simps)
  then show ?thesis
    using f c by (simp add: starlet_do_di_command_def Let_def off_def [unfolded One_nat_def, symmetric] len_def [symmetric])
qed

lemma env_fields [simp]:
  "stack_depth (starlet_env files cbc devs depth n) = depth" "devices (starlet_env files cbc devs depth n) = devs"
  by (cases n; simp add: starlet_handlers_def Let_def)+

lemma di_command_diverges:
  assumes "disc_iso files = Some f" "di_loop f s"
  shows "starlet_do_di_command files (starlet_env files cbc [] (Suc d) n) s = Inl StackOverflow"
  using assms(2)
proof (induction n arbitrary: s)
  case 0
  then show ?case by (intro di_command_first_byte [OF assms(1) 0]) (simp_all add: starlet_handlers_def)
next
  case (Suc n)
  show ?case
  proof (rule di_command_first_byte [OF assms(1) Suc.prems])
    fix t :: starlet and v :: ARMword
    assume t: "di_loop f t" and v: "bit v 0"
    have "v AND 1 \<noteq> 0" using v low_bit_test(1) [of v] by simp
    moreover have "di_loop f (map_io (\<lambda>i. i\<lparr>dicr := v\<rparr>) t)" using t by (intro di_loop_io) simp_all
    ultimately have "starlet_di_write files (starlet_env files cbc [] (Suc d) n) t 0x0d00601c v = Inl StackOverflow"
      using Suc.IH by (simp add: starlet_di_write_def)
    then show "mach_io_write_byte (starlet_env files cbc [] (Suc d) (Suc n)) t 0x0d00601c v = Inl StackOverflow"
      by (simp add: starlet_handlers_def Let_def starlet_io_write_byte_def starlet_io_write_word_def sram_area_def)
  qed (simp_all del: starlet_env.simps)
qed

text \<open>
  C38. A disc read may call itself without end: when the address of the transfer is the control register of the disc
  interface and the first byte read has its start bit set, then starting the command overflows the stack of the
  simulator, however deep it is.
\<close>

theorem disc_dma_diverges:
  assumes "disc_iso files = Some f" "di_loop f s" "bit data 0"
  shows "starlet_io_write_word files cbc (starlet_env files cbc [] (Suc d) n) s 0x0d00601c data = Inl StackOverflow"
proof -
  have "data AND 1 \<noteq> 0" using assms(3) low_bit_test(1) [of data] by simp
  moreover have "di_loop f (map_io (\<lambda>i. i\<lparr>dicr := data\<rparr>) s)" using assms(2) by (intro di_loop_io) simp_all
  ultimately show ?thesis
    using di_command_diverges [OF assms(1)] by (simp add: starlet_io_write_word_def starlet_di_write_def)
qed

definition di_state :: starlet where
  "di_state = abc_state\<lparr>mem := \<lparr>rom = (\<lambda>_ _. 0),
       mem_banks = [\<lparr>mb_read = Some IoRead, mb_write = Some IoWrite, mb_addr = 0x0d000000, mb_len = 0x100000, mb_dest = 0\<rparr>],
       mbp_cache = None, global_mbp = None\<rparr>,
     mach_io := starlet_zero\<lparr>io := io_zero\<lparr>dicmdbuf := [0xa8000000, 0, 1], dimar := 0x0d00601c\<rparr>\<rparr>\<rparr>"

theorem disc_dma_diverges_witness:
  "starlet_io_write_word (card_files\<lparr>disc_iso := Some [1]\<rparr>) plain_cbc
     (starlet_env (card_files\<lparr>disc_iso := Some [1]\<rparr>) plain_cbc [] 8 1000) di_state 0x0d00601c 1 = Inl StackOverflow"
proof -
  have m: "io_mapped di_state 0x0d00601c"
    by (simp add: io_mapped_def di_state_def banks_disjoint_def live_banks_def cache_ok_def in_bank_def)
  have "di_loop [1] di_state" by (simp add: di_loop_def m) (simp add: di_state_def get_io_def)
  from disc_dma_diverges [OF _ this, of "card_files\<lparr>disc_iso := Some [1]\<rparr>" 1 plain_cbc 7 1000] show ?thesis by simp
qed

end
