(* ===== verification/Starlet_Run.thy ===== *)
theory Starlet_Run
  imports Starlet
begin

text \<open>
  The machine and the emulation loop together: a program that runs on the Starlet is interrupted by the timer after the
  number of instructions that the alarm and the counter of \<^verbatim>\<open>io_do_cycle\<close> prescribe.
\<close>

section \<open>Cycles of an undisturbed machine\<close>

text \<open>
  An undisturbed machine: no peer, nothing to say in the mailbox, no enabled interrupt requested, and that of the timer
  enabled.
\<close>

definition undisturbed :: "host_net \<Rightarrow> starlet \<Rightarrow> bool" where
  "undisturbed h s \<longleftrightarrow> no_peer h s \<and> \<not> ipc_wants_int (ipc_ppcctrl (get_io s)) \<and> \<not> ipc_wants_int (ipc_armctrl (get_io s)) \<and>
     irq_active (get_io s) AND irq_enabled (get_io s) = 0 \<and> bit (irq_enabled (get_io s)) 0"

text \<open>Nothing but the devices and the two interrupt lines differs.\<close>

definition dev_changed :: "starlet \<Rightarrow> starlet \<Rightarrow> bool" where
  "dev_changed s t \<longleftrightarrow> t\<lparr>mach_io := mach_io s, NirqSig := NirqSig s, NfiqSig := NfiqSig s\<rparr> = s"

lemma dev_changed_refl [simp]: "dev_changed s s"
  by (simp add: dev_changed_def)

lemma dev_changed_step:
  "dev_changed s t \<Longrightarrow> dev_changed s (map_io f t)" "dev_changed s t \<Longrightarrow> dev_changed s (map_mach g t)"
  "dev_changed s t \<Longrightarrow> dev_changed s (starlet_update_int t)"
  by (simp_all add: dev_changed_def map_io_def set_io_def map_mach_def starlet_update_int_def)

lemma dev_changed_form: "dev_changed s t \<Longrightarrow> t = s\<lparr>mach_io := mach_io t, NirqSig := NirqSig t, NfiqSig := NfiqSig t\<rparr>"
  by (cases s; cases t) (simp add: dev_changed_def)

lemma undisturbed_update: "undisturbed h s \<Longrightarrow> ipc_update_int s = s"
  by (simp add: undisturbed_def ipc_update_int_def Let_def)

lemma undisturbed_tick:
  assumes "undisturbed h s" "timer (get_io s) + 1 \<noteq> alarm (get_io s)"
  shows "\<exists>t. starlet_io_do_cycle h env s = Inr t \<and> undisturbed h t \<and> dev_changed s t \<and> NirqSig t = NirqSig s \<and> NfiqSig t = NfiqSig s \<and>
    timer (get_io t) = timer (get_io s) + 1 \<and> alarm (get_io t) = alarm (get_io s)"
proof -
  define u where "u = map_io (\<lambda>i. i\<lparr>timer := timer i + 1\<rparr>) s"
  define t where "t = set_net (sys_call (net (mach_io u))) u"
  have u: "timer_tick s = u" "undisturbed h u" using assms by (simp_all add: timer_tick_def u_def undisturbed_def no_peer_def)
  have t: "undisturbed h t" using u(2) by (simp add: t_def undisturbed_def no_peer_def)
  have "starlet_do_ipc h env u = Inr t"
    using u(2) by (simp add: starlet_do_ipc_def ipc_accept_def undisturbed_def no_peer_def t_def)
  then have "starlet_io_do_cycle h env s = Inr t"
    by (simp add: starlet_io_do_cycle_def u undisturbed_update [OF u(2)] undisturbed_update [OF t])
  moreover have "dev_changed s t" by (simp add: t_def u_def set_net_def dev_changed_step)
  moreover have "NirqSig t = NirqSig s" "NfiqSig t = NfiqSig s"
    by (simp_all add: t_def u_def set_net_def map_mach_def map_io_def set_io_def)
  ultimately show ?thesis using t by (intro exI [of _ t]) (simp add: t_def u_def)
qed

lemma undisturbed_alarm:
  assumes "undisturbed h s" "timer (get_io s) + 1 = alarm (get_io s)"
  shows "\<exists>t. starlet_io_do_cycle h env s = Inr t \<and> dev_changed s t \<and> NirqSig t = LOW \<and> NfiqSig t = HIGH"
proof -
  obtain t where t: "starlet_io_do_cycle h env s = Inr t" "NirqSig t = LOW"
    using no_peer_cycle [of h s env] assms by (auto simp: undisturbed_def)
  define u where "u = ipc_update_int (timer_tick s)"
  define v where "v = set_net (sys_call (net (mach_io u))) u"
  have "starlet_do_ipc h env u = Inr v"
    using assms(1) by (simp add: starlet_do_ipc_def ipc_accept_def undisturbed_def no_peer_def u_def v_def ipc_update_int_same timer_tick_same)
  then have "t = ipc_update_int v" using t(1) by (simp add: starlet_io_do_cycle_def u_def [symmetric])
  moreover have "\<not> ipc_wants_int (ipc_ppcctrl (get_io w)) \<and> \<not> ipc_wants_int (ipc_armctrl (get_io w))" if "w \<in> {timer_tick s, v}" for w
    using assms(1) that by (auto simp: undisturbed_def v_def u_def ipc_update_int_same timer_tick_same)
  then have "ipc_update_int (timer_tick s) = timer_tick s" "ipc_update_int v = v"
    by (simp_all add: ipc_update_int_def Let_def)
  moreover have "NfiqSig (timer_tick s) = HIGH" using assms(2) by (simp add: timer_tick_def starlet_update_int_def)
  moreover have "dev_changed s (timer_tick s)" by (simp add: timer_tick_def Let_def dev_changed_step)
  ultimately show ?thesis
    using t by (intro exI [of _ t]) (simp add: v_def u_def set_net_def dev_changed_step, simp add: map_mach_def)
qed

section \<open>Programs\<close>

text \<open>
  Between fetch and execution the loop may take an interrupt: what it needs of the processor then.
\<close>

definition interruptible :: "pipeline \<Rightarrow> starlet \<Rightarrow> bool" where
  "interruptible q u \<longleftrightarrow> EventSet u = 0 \<and> NresetSig u \<noteq> 0 \<and> IFLAG u = 0 \<and> Emulate u = RUN \<and> exc_pre u \<and> TFlag u = 0 \<and>
     Reg u 15 = l_pc q + 8"

definition dev_same :: "starlet \<Rightarrow> starlet \<Rightarrow> bool" where
  "dev_same s t \<longleftrightarrow> mach_io t = mach_io s \<and> NirqSig t = NirqSig s \<and> NfiqSig t = NfiqSig s"

text \<open>
  A program that leaves interrupts enabled and the devices alone: \<open>J\<close> holds before every fetch, whatever the devices do
  in between.
\<close>

lemma undisturbed_same: "undisturbed h s \<Longrightarrow> dev_same s t \<Longrightarrow> undisturbed h t"
  by (simp add: undisturbed_def no_peer_def dev_same_def get_io_def)

locale program =
  fixes e :: "starlet_t emu_env" and J :: "pipeline \<Rightarrow> starlet \<Rightarrow> bool" and code :: "ARMword set"
  assumes no_devices: "dev_updates e = []"
    and turn: "J p s \<Longrightarrow> \<exists>i q u. fetch (cpu e) p s = Inr (i, q, u) \<and> prescale q = prescale p \<and> dev_same s u \<and>
      NumInstrs u = NumInstrs s \<and> interruptible q u \<and> l_pc q \<in> code \<and>
      (\<forall>t. dev_changed u t \<longrightarrow> (\<exists>v. decode_execute (cpu e) (l_pc q) (t\<lparr>NumInstrs := NumInstrs t + 1\<rparr>) i = Inr v \<and>
         dev_same t v \<and> NumInstrs v = NumInstrs u + 1 \<and> Emulate v = RUN \<and> \<not> stop_simulator e v \<and>
         (\<forall>k. J (q\<lparr>prescale := k\<rparr>) v)))"
begin

text \<open>One turn of the loop, from the cycle of the machine on.\<close>

lemma step_program:
  assumes "J p s" "NirqSig s = HIGH" "NfiqSig s = HIGH"
  shows "\<exists>q u. dev_same s u \<and> NumInstrs u = NumInstrs s \<and> prescale q = prescale p \<and>
    (\<forall>k t. io_do_cycle e q u = Inr (q\<lparr>prescale := k\<rparr>, t) \<and> dev_changed u t \<longrightarrow>
       (\<exists>v. emulate_step e (p, s) = Inr (True, q\<lparr>prescale := k\<rparr>, v) \<and> J (q\<lparr>prescale := k\<rparr>) v \<and> dev_same t v \<and>
          NumInstrs v = NumInstrs s + 1))"
proof -
  obtain i q u where f: "fetch (cpu e) p s = Inr (i, q, u)" "prescale q = prescale p" "dev_same s u" "NumInstrs u = NumInstrs s"
      "interruptible q u"
    and run: "\<And>t. dev_changed u t \<Longrightarrow> (\<exists>v. decode_execute (cpu e) (l_pc q) (t\<lparr>NumInstrs := NumInstrs t + 1\<rparr>) i = Inr v \<and>
         dev_same t v \<and> NumInstrs v = NumInstrs u + 1 \<and> Emulate v = RUN \<and> \<not> stop_simulator e v \<and>
         (\<forall>k. J (q\<lparr>prescale := k\<rparr>) v))"
    using turn [OF assms(1)] by blast
  have "IntPending u = (False, u)"
    using f(3,5) assms(2,3) by (simp add: IntPending_def dev_same_def interruptible_def)
  then have "\<exists>v. emulate_step e (p, s) = Inr (True, q\<lparr>prescale := k\<rparr>, v) \<and> J (q\<lparr>prescale := k\<rparr>) v \<and> dev_same t v \<and> NumInstrs v = NumInstrs s + 1"
    if "io_do_cycle e q u = Inr (q\<lparr>prescale := k\<rparr>, t)" "dev_changed u t" for k t
    using run [OF that(2)] that(1) f(1,4,5) by (auto simp: emulate_step_def interruptible_def)
  then show ?thesis using f(2,3,4) by blast
qed

lemma interrupted:
  assumes "J p s" "NirqSig s = LOW" "NfiqSig s = HIGH"
  shows "\<exists>q t. emulate_loop e (p, s) = Some (Inr (q, t)) \<and> Mode t = IRQ32MODE \<and> Reg t 14 - 4 \<in> code \<and> NumInstrs t = NumInstrs s"
proof -
  obtain i q u where f: "fetch (cpu e) p s = Inr (i, q, u)" "dev_same s u" "NumInstrs u = NumInstrs s" "interruptible q u"
      "l_pc q \<in> code"
    using turn [OF assms(1)] by blast
  have "pending_vector u = Some (ARMul_IRQV, IRQ32MODE)"
    using f(2,4) assms(2,3) by (simp add: pending_vector_def dev_same_def interruptible_def)
  then obtain t where "emulate_loop e (p, s) = Some (Inr (q, t))" "Mode t = IRQ32MODE" "Reg t 14 = l_pc q + 4"
      "t = ARMul_Abort u ARMul_IRQV"
    using interrupt_taken [OF f(1)] f(4) unfolding interruptible_def by blast
  then show ?thesis using f(3,5) by (auto simp: Abort_keeps)
qed

lemma runs_until_alarm:
  assumes "mach_io_do_cycle e = starlet_io_do_cycle h env" "J p s" "undisturbed h s" "NirqSig s = HIGH" "NfiqSig s = HIGH" "0 \<le> prescale p"
    "timer (get_io s) \<noteq> alarm (get_io s)"
  shows "\<exists>q t. emulate_loop e (p, s) = Some (Inr (q, t)) \<and> Mode t = IRQ32MODE \<and> Reg t 14 - 4 \<in> code \<and>
    NumInstrs t = NumInstrs s + of_nat (nat (prescale p) + 1 + 51 * (unat (alarm (get_io s) - timer (get_io s)) - 1))"
  using assms(2-)
proof (induction "nat (prescale p) + 51 * unat (alarm (get_io s) - timer (get_io s))" arbitrary: p s rule: less_induct)
  case less
  note s = less.prems
  let ?d = "\<lambda>s. alarm (get_io s) - timer (get_io s)" and ?n = "\<lambda>p s. nat (prescale p) + 1 + 51 * (unat (alarm (get_io s) - timer (get_io s)) - 1)"
  have d: "0 < unat (?d s)" using s(6) by (simp add: unat_gt_0)
  obtain q u where u: "dev_same s u" "NumInstrs u = NumInstrs s" "prescale q = prescale p"
    and step: "\<And>k t. io_do_cycle e q u = Inr (q\<lparr>prescale := k\<rparr>, t) \<Longrightarrow> dev_changed u t \<Longrightarrow>
       \<exists>v. emulate_step e (p, s) = Inr (True, q\<lparr>prescale := k\<rparr>, v) \<and> J (q\<lparr>prescale := k\<rparr>) v \<and> dev_same t v \<and>
          NumInstrs v = NumInstrs s + 1"
    using step_program [OF s(1,3,4)] by blast
  have qu: "undisturbed h u" using s(2) u(1) by (rule undisturbed_same)
  have goes_on: ?case if v: "emulate_step e (p, s) = Inr (True, q\<lparr>prescale := k\<rparr>, v)" "J (q\<lparr>prescale := k\<rparr>) v" "undisturbed h v"
      "NirqSig v = HIGH" "NfiqSig v = HIGH" "0 \<le> k" "timer (get_io v) \<noteq> alarm (get_io v)" "NumInstrs v = NumInstrs s + 1"
      "nat k + 51 * unat (?d v) + 1 = nat (prescale p) + 51 * unat (?d s)" "0 < unat (?d v)" for k v
  proof -
    have "nat (prescale (q\<lparr>prescale := k\<rparr>)) + 51 * unat (?d v) < nat (prescale p) + 51 * unat (?d s)" using v(9) by simp
    from less.hyps [OF this v(2-5) _ v(7)] v(6)
    obtain r t where t: "emulate_loop e (q\<lparr>prescale := k\<rparr>, v) = Some (Inr (r, t))" "Mode t = IRQ32MODE" "Reg t 14 - 4 \<in> code"
        "NumInstrs t = NumInstrs v + of_nat (?n (q\<lparr>prescale := k\<rparr>) v)" by auto
    moreover have "1 + ?n (q\<lparr>prescale := k\<rparr>) v = ?n p s" using v(9,10) d by simp
    ultimately show ?thesis
      using loop_go [OF v(1)] v(8) by (metis (no_types) add.assoc of_nat_1 of_nat_add)
  qed
  show ?case
  proof (cases "0 < prescale p")
    case True
    then have "io_do_cycle e q u = Inr (q\<lparr>prescale := prescale p - 1\<rparr>, u)" using u(3) by (simp add: io_do_cycle_def)
    from step [OF this] obtain v where v: "emulate_step e (p, s) = Inr (True, q\<lparr>prescale := prescale p - 1\<rparr>, v)"
      "J (q\<lparr>prescale := prescale p - 1\<rparr>) v" "dev_same u v" "NumInstrs v = NumInstrs s + 1" by auto
    have "get_io v = get_io s" using u(1) v(3) by (simp add: dev_same_def get_io_def)
    then show ?thesis
      using goes_on [OF v(1,2) undisturbed_same [OF qu v(3)]] True v(3,4) u(1) s(3,4,6) d by (simp add: dev_same_def)
  next
    case False
    then have p: "prescale p = 0" using s(5) by simp
    have cycle: "io_do_cycle e q u = Inr (q\<lparr>prescale := 50\<rparr>, t)" if "starlet_io_do_cycle h env u = Inr t" for t
      using that assms(1) p u(3) no_devices by (simp add: io_do_cycle_def)
    have io: "get_io u = get_io s" using u(1) by (simp add: dev_same_def get_io_def)
    show ?thesis
    proof (cases "timer (get_io s) + 1 = alarm (get_io s)")
      case True
      then obtain t where t: "starlet_io_do_cycle h env u = Inr t" "dev_changed u t" "NirqSig t = LOW" "NfiqSig t = HIGH"
        using undisturbed_alarm [OF qu] io by auto
      from step [OF cycle [OF t(1)] t(2)] obtain v where v: "emulate_step e (p, s) = Inr (True, q\<lparr>prescale := 50\<rparr>, v)"
        "J (q\<lparr>prescale := 50\<rparr>) v" "dev_same t v" "NumInstrs v = NumInstrs s + 1" by auto
      have "?d s = 1" using True by (simp add: algebra_simps)
      then show ?thesis
        using interrupted [OF v(2)] v(3,4) t(3,4) loop_go [OF v(1)] p by (auto simp: dev_same_def)
    next
      case False
      then obtain t where t: "starlet_io_do_cycle h env u = Inr t" "undisturbed h t" "dev_changed u t" "NirqSig t = NirqSig u"
          "NfiqSig t = NfiqSig u" "timer (get_io t) = timer (get_io s) + 1" "alarm (get_io t) = alarm (get_io s)"
        using undisturbed_tick [OF qu] io by auto
      from step [OF cycle [OF t(1)] t(3)] obtain v where v: "emulate_step e (p, s) = Inr (True, q\<lparr>prescale := 50\<rparr>, v)"
        "J (q\<lparr>prescale := 50\<rparr>) v" "dev_same t v" "NumInstrs v = NumInstrs s + 1" by auto
      have "get_io v = get_io t" using v(3) by (simp add: dev_same_def get_io_def)
      then have dv: "?d v = ?d s - 1" "timer (get_io v) \<noteq> alarm (get_io v)" using t(6,7) False by (simp_all add: algebra_simps)
      then have n: "unat (?d v) = unat (?d s) - 1" using d by (simp add: unat_minus_one unat_gt_0)
      have "0 < unat (?d v)" using dv(2) by (simp add: unat_gt_0)
      then show ?thesis
        using goes_on [OF v(1,2) undisturbed_same [OF t(2) v(3)]] v(3,4) t(4,5) u(1) s(3,4) dv(2) n p by (simp add: dev_same_def)
    qed
  qed
qed

end

section \<open>An idle loop\<close>

text \<open>
  The emulator as it is configured for the Starlet: an ARM926 with its memory management unit in front of the memory
  of the machine, no other devices, and no debugger that stops it. \<open>c\<close> gives the coprocessors.
\<close>

definition starlet_emu :: "host_net \<Rightarrow> starlet_t arm_env \<Rightarrow> starlet_t cpu_env \<Rightarrow> starlet_t emu_env" where
  "starlet_emu h env c =
     \<lparr>cpu = (with_arm926 c env)\<lparr>skyeye_cachetype := INSTCACHE\<rparr>, dev_updates = [], mach_io_do_cycle = starlet_io_do_cycle h env,
      event_fun = (\<lambda>_ s. s), stop_simulator = (\<lambda>_. False), emulate26 = (\<lambda>_ _. None)\<rparr>"

text \<open>The instruction cache holds a word.\<close>

definition cached :: "'io ARMul_State \<Rightarrow> ARMword \<Rightarrow> ARMword \<Rightarrow> bool" where
  "cached s a w \<longleftrightarrow> (case mmu_cache_search (i_cache (the926 s)) a of
     None \<Rightarrow> False | Some sw \<Rightarrow> cache_word (i_cache (the926 s)) sw a = w)"

text \<open>
  A program that waits: the instruction \<^verbatim>\<open>b .\<close> at address \<open>a\<close>, in the instruction cache with what the pipeline fetches
  behind it, address translation off, and interrupts enabled.
\<close>

definition idle_loop :: "ARMword \<Rightarrow> starlet \<Rightarrow> bool" where
  "idle_loop a s \<longleftrightarrow> NextInstr s = PRIMEPIPE \<and> Reg s 15 = a \<and> \<not> MMU_Enabled s \<and> process_id (mmu s) = 0 \<and>
     cached s a 0xEAFFFFFE \<and> (\<exists>w. cached s (a + 4) w) \<and> (\<exists>w. cached s (a + 8) w) \<and>
     EventSet s = 0 \<and> NresetSig s \<noteq> 0 \<and> IFLAG s = 0 \<and> Emulate s = RUN \<and> exc_pre s \<and> TFlag s = 0"

lemma cached_mmu: "mmu t = mmu s \<Longrightarrow> cached t = cached s"
  by (simp add: cached_def fun_eq_iff cong: option.case_cong)

lemma cached_fetch:
  assumes "cached s a w" "\<not> MMU_Enabled s" "process_id (mmu s) = 0"
  shows "ARMul_ReLoadInstr (cpu (starlet_emu h env c)) s a 4 = Inr (w, ARMul_CLEARABORT s)"
  using assms
  by (auto simp: ARMul_ReLoadInstr_def fetch_word_def LoadInstr_def starlet_emu_def with_arm926_def arm926ejs_mmu_ops_def
      arm926ejs_mmu_load_instr_def mmu_pid_va_map_def fetch_cached_def cached_def split: option.splits)

lemma idle_fetch:
  assumes "idle_loop a s"
  shows "\<exists>d l u. fetch (cpu (starlet_emu h env c)) p s = Inr (0xEAFFFFFE, p\<lparr>l_pc := a, l_decoded := d, l_loaded := l\<rparr>, u) \<and>
    u = s\<lparr>isize := 4, Reg := (Reg s)(15 := a + 8), Aborted := 0, AbortAddr := 1, NumNcycles := NumNcycles s + 1,
          NumScycles := NumScycles s + 2, NextInstr := 0, abortSig := LOW\<rparr>"
proof -
  obtain d l where w: "cached s a 0xEAFFFFFE" "cached s (a + 4) d" "cached s (a + 8) l" "\<not> MMU_Enabled s" "process_id (mmu s) = 0"
    using assms by (auto simp: idle_loop_def)
  have r: "ARMul_ReLoadInstr (cpu (starlet_emu h env c)) t b 4 = Inr (x, ARMul_CLEARABORT t)"
    if "cached s b x" "mmu t = mmu s" for t b x
  proof (rule cached_fetch)
    show "cached t b x" using that cached_mmu by metis
    show "\<not> MMU_Enabled t" "process_id (mmu t) = 0" using w(4,5) that(2) by (simp_all add: MMU_Enabled_def)
  qed
  show ?thesis
    using assms
    by (intro exI [of _ d] exI [of _ l])
      (simp add: fetch_def refill_def INSN_SIZE_def Let_def ARMul_LoadInstrN_def ARMul_LoadInstrS_def set_reg_def
        ARMul_CLEARABORT_def idle_loop_def r [OF w(1)] r [OF w(2)] r [OF w(3)])
qed

lemma idle_execute:
  assumes "TFlag s = 0"
  shows "decode_execute env a s 0xEAFFFFFE = Inr (FLUSHPIPE (set_reg 15 a s))"
proof -
  have "BITS 0xEAFFFFFE 25 27 = 5" "branch_offset 0xEAFFFFFE = -8" by (simp_all add: BITS_def branch_offset_def)
  moreover have "\<not> bit (0xEAFFFFFE :: ARMword) 24" by simp
  ultimately show ?thesis using assms mainswitch_branch [of "0xEAFFFFFE" env a s] by (simp add: decode_execute_def execute_def)
qed

interpretation idle: program "starlet_emu h env c" "\<lambda>p s. idle_loop a s" "{a}" for h env c a
proof (unfold_locales, goal_cases)
  case 1
  show ?case by (simp add: starlet_emu_def)
next
  case (2 p s)
  obtain d l u where f: "fetch (cpu (starlet_emu h env c)) p s = Inr (0xEAFFFFFE, p\<lparr>l_pc := a, l_decoded := d, l_loaded := l\<rparr>, u)"
    and u: "u = s\<lparr>isize := 4, Reg := (Reg s)(15 := a + 8), Aborted := 0, AbortAddr := 1, NumNcycles := NumNcycles s + 1,
          NumScycles := NumScycles s + 2, NextInstr := 0, abortSig := LOW\<rparr>"
    using idle_fetch [OF 2] by blast
  let ?q = "p\<lparr>l_pc := a, l_decoded := d, l_loaded := l\<rparr>"
  have "interruptible ?q u"
    using 2 by (simp add: u interruptible_def idle_loop_def IFLAG_def exc_pre_def cpu_ok_def bank_ok_def)
  moreover have "\<exists>v. decode_execute (cpu (starlet_emu h env c)) (l_pc ?q) (t\<lparr>NumInstrs := NumInstrs t + 1\<rparr>) 0xEAFFFFFE = Inr v \<and>
      dev_same t v \<and> NumInstrs v = NumInstrs u + 1 \<and> Emulate v = RUN \<and> \<not> stop_simulator (starlet_emu h env c) v \<and> idle_loop a v"
    if c: "dev_changed u t" for t
  proof -
    obtain io n f where t: "t = u\<lparr>mach_io := io, NirqSig := n, NfiqSig := f\<rparr>" using dev_changed_form [OF c] by blast
    let ?v = "FLUSHPIPE (set_reg 15 a (t\<lparr>NumInstrs := NumInstrs t + 1\<rparr>))"
    have "TFlag t = 0" using 2 by (simp add: t u idle_loop_def)
    then have "decode_execute (cpu (starlet_emu h env c)) (l_pc ?q) (t\<lparr>NumInstrs := NumInstrs t + 1\<rparr>) 0xEAFFFFFE = Inr ?v"
      by (simp add: idle_execute)
    moreover have "cached ?v = cached s" by (rule cached_mmu) (simp add: t u FLUSHPIPE_def set_reg_def)
    moreover have "Emulate ?v = RUN" "NumInstrs ?v = NumInstrs u + 1" "NextInstr ?v = PRIMEPIPE" "Reg ?v 15 = a" "\<not> MMU_Enabled ?v"
        "process_id (mmu ?v) = 0" "EventSet ?v = 0" "NresetSig ?v \<noteq> 0" "IFLAG ?v = 0" "exc_pre ?v" "TFlag ?v = 0"
      using 2 by (simp_all add: t u idle_loop_def FLUSHPIPE_def set_reg_def exc_pre_def cpu_ok_def bank_ok_def MMU_Enabled_def IFLAG_def)
    moreover from calculation have "idle_loop a ?v" using 2 by (simp add: idle_loop_def)
    ultimately show ?thesis by (simp add: dev_same_def starlet_emu_def FLUSHPIPE_def set_reg_def)
  qed
  ultimately show ?case
    using f by (intro exI [of _ "0xEAFFFFFE"] exI [of _ ?q] exI [of _ u]) (auto simp: u dev_same_def idle_loop_def)
qed

text \<open>
  C16. The simulator, with processor, memory management unit, loop and machine together, delivers the interrupt of the
  timer after the number of instructions that the alarm prescribes. A processor that waits in the one-instruction loop
  at \<open>a\<close> with interrupts enabled executes as many instructions as are left of the current cycle of the machine, and
  51 for every further tick; then the loop returns with the processor in interrupt mode and the address to return
  to in its link register. The counter may wrap around on the way.
\<close>

theorem idle_until_alarm:
  assumes "idle_loop a s" "undisturbed h s" "NirqSig s = HIGH" "NfiqSig s = HIGH" "0 \<le> prescale p" "timer (get_io s) \<noteq> alarm (get_io s)"
  shows "\<exists>q t. emulate_loop (starlet_emu h env c) (p, s) = Some (Inr (q, t)) \<and> Mode t = IRQ32MODE \<and> Reg t 14 = a + 4 \<and>
    NumInstrs t = NumInstrs s + of_nat (nat (prescale p) + 1 + 51 * (unat (alarm (get_io s) - timer (get_io s)) - 1))"
proof -
  have "mach_io_do_cycle (starlet_emu h env c) = starlet_io_do_cycle h env" by (simp add: starlet_emu_def)
  from idle.runs_until_alarm [OF this assms] show ?thesis by (auto simp: algebra_simps)
qed

definition idle_cache :: cache_t where
  "idle_cache = \<lparr>c_width = 16, c_way = 1, c_set = 1, c_w_mode = CACHE_WRITE_BACK,
     c_sets = [\<lparr>cs_lines = [\<lparr>tag = 0x201, cl_pa = 0x200, cl_data = [0xEAFFFFFE, 0, 0, 0]\<rparr>], cs_cycle = 0\<rparr>]\<rparr>"

definition idle_state :: starlet where
  "idle_state = reset_state\<lparr>IFFlags := 0, Reg := (\<lambda>_. 0x200), NextInstr := PRIMEPIPE, NirqSig := HIGH, NfiqSig := HIGH,
     mach_io := starlet_zero\<lparr>io := io_zero\<lparr>timer := 0xffffffff, alarm := 1, irq_enabled := 1\<rparr>, ipcs := IPC_ACCEPT\<rparr>,
     mmu := mmu_zero\<lparr>arm926ejs_mmu := (arm926ejs_mmu mmu_zero)\<lparr>i_cache := idle_cache\<rparr>\<rparr>\<rparr>"

lemma idle_state_calm: "undisturbed demo_net idle_state"
  by (simp add: undisturbed_def no_peer_def demo_net_def idle_state_def get_io_def io_zero_def ipc_wants_int_def)

lemma idle_cached: "cached idle_state 0x200 0xEAFFFFFE" "cached idle_state 0x204 0" "cached idle_state 0x208 0"
proof -
  have i: "i_cache (the926 idle_state) = idle_cache" by (simp add: idle_state_def)
  show "cached idle_state 0x200 0xEAFFFFFE" "cached idle_state 0x204 0" "cached idle_state 0x208 0"
    unfolding cached_def i by (simp_all add: idle_cache_def mmu_cache_search_def line_hit_def va_cache_set_def va_cache_align_def
        va_cache_index_def cache_word_def line_at_def)
qed

lemma idle_state_loops: "idle_loop 0x200 idle_state"
proof -
  have "exc_pre idle_state" using reset_state_pre by (simp add: exc_pre_def cpu_ok_def bank_ok_def idle_state_def)
  moreover have "EventSet reset_state = 0" "NresetSig reset_state \<noteq> 0" "TFlag reset_state = 0" "Emulate reset_state = RUN"
    by (simp_all add: reset_state_def ARMul_Reset_cpu_def ARMul_NewState_def Let_def ARMul_CPSRAltered_def cpsr_switch_mode_def
        cpsr_assign_flags_def FLUSHPIPE_def set_reg_def ASSIGNINT_def)
  ultimately show ?thesis
    using idle_cached by (auto simp: idle_loop_def idle_state_def MMU_Enabled_def mmu_zero_def IFLAG_def)
qed

definition no_copros :: "starlet_t cpu_env" where
  "no_copros = \<lparr>mmu_ops = arm926ejs_mmu_ops bare_env, skyeye_cachetype = INSTCACHE, undf_trap = None,
     cp_LDC = (\<lambda>_ s _ _ _. Inr (1, s)), cp_STC = (\<lambda>_ s _ _. Inr (1, None, s)),
     cp_MRC = (\<lambda>_ s _ _. Inr (1, None, s)), cp_MCR = (\<lambda>_ s _ _ _. Inr (1, s)),
     cp_CDP = (\<lambda>_ s _ _. Inr (1, s)), busy_limit = 1\<rparr>"

theorem idle_until_alarm_witness:
  "\<exists>q t. emulate_loop (starlet_emu demo_net bare_env no_copros) (idle_pipe\<lparr>prescale := 7\<rparr>, idle_state) = Some (Inr (q, t)) \<and>
     Mode t = IRQ32MODE \<and> Reg t 14 = 0x204 \<and> NumInstrs t = 59"
proof -
  have "NirqSig idle_state = HIGH" "NfiqSig idle_state = HIGH" by (simp_all add: idle_state_def)
  moreover have t: "timer (get_io idle_state) = 0xffffffff" "alarm (get_io idle_state) = 1" "NumInstrs idle_state = 0"
    by (simp_all add: idle_state_def get_io_def reset_state_def ARMul_Reset_cpu_def ARMul_NewState_def Let_def ARMul_CPSRAltered_def
        cpsr_switch_mode_def cpsr_assign_flags_def FLUSHPIPE_def set_reg_def ASSIGNINT_def)
  ultimately show ?thesis
    using idle_until_alarm [OF idle_state_loops idle_state_calm, of "idle_pipe\<lparr>prescale := 7\<rparr>" bare_env no_copros] by simp
qed

end
