(* ===== verification/Gdb_Packet.thy ===== *)
theory Gdb_Packet
  imports Arm_Emulate
begin

text \<open>
  The remote protocol of the debugger, the first part of \<^verbatim>\<open>utils/debugger/gdbserver.c\<close>: the connection, packets with
  checksum and acknowledgement, and bytes as hexadecimal digits.
\<close>

unbundle bit_operations_syntax

section \<open>The connection\<close>

text \<open>
  \<open>rx_buf\<close> is what is left in the static buffer of \<^verbatim>\<open>readchar\<close>. \<open>incoming\<close> holds what the peer sends, in the pieces in
  which \<^verbatim>\<open>read\<close> returns it; an empty piece, or none, is the end of the connection or an error. \<open>outgoing\<close> are the
  writes so far that succeeded, \<open>writes\<close> the number of all of them; \<open>w\<close> says which succeed.
\<close>

record conn =
  rx_buf :: "ARMbyte list"
  incoming :: "ARMbyte list list"
  outgoing :: "ARMbyte list list"
  writes :: nat

definition BUFSIZ :: nat where
  "BUFSIZ = 8192"

definition Read :: "nat \<Rightarrow> conn \<Rightarrow> ARMbyte list \<times> conn" where
  "Read n c =
     (case incoming c of
        [] \<Rightarrow> ([], c)
      | bs # rest \<Rightarrow> (take n bs, c\<lparr>incoming := (if drop n bs = [] then rest else drop n bs # rest)\<rparr>))"

definition Write :: "(nat \<Rightarrow> bool) \<Rightarrow> ARMbyte list \<Rightarrow> conn \<Rightarrow> bool \<times> conn" where
  "Write w bs c =
     (w (writes c), c\<lparr>writes := writes c + 1, outgoing := (if w (writes c) then outgoing c @ [bs] else outgoing c)\<rparr>)"

text \<open>\<open>None\<close> is the answer -1.\<close>

definition readchar :: "conn \<Rightarrow> ARMbyte option \<times> conn" where
  "readchar c =
     (case rx_buf c of
        b # bs \<Rightarrow> (Some (b AND 0x7f), c\<lparr>rx_buf := bs\<rparr>)
      | [] \<Rightarrow> (case Read BUFSIZ c of
                ([], c) \<Rightarrow> (None, c)
              | (b # bs, c) \<Rightarrow> (Some (b AND 0x7f), c\<lparr>rx_buf := bs\<rparr>)))"

definition conn_size :: "conn \<Rightarrow> nat" where
  "conn_size c = length (rx_buf c) + sum_list (map length (incoming c))"

lemma Read_size:
  assumes "Read n c = (bs, d)" "0 < n"
  shows "conn_size d \<le> conn_size c" "bs \<noteq> [] \<Longrightarrow> conn_size d + length bs = conn_size c" "rx_buf d = rx_buf c"
  using assms by (auto simp: Read_def conn_size_def split: list.splits if_splits)

lemma readchar_size:
  assumes "readchar c = (r, d)"
  shows "conn_size d \<le> conn_size c" "r \<noteq> None \<Longrightarrow> conn_size d < conn_size c"
proof -
  have "conn_size d \<le> conn_size c \<and> (r \<noteq> None \<longrightarrow> conn_size d < conn_size c)"
  proof (cases "rx_buf c")
    case Nil
    obtain bs e where e: "Read BUFSIZ c = (bs, e)" by force
    note s = Read_size [OF e]
    have "d = e \<and> r = None \<and> bs = [] \<or> (\<exists>b r'. bs = b # r' \<and> d = e\<lparr>rx_buf := r'\<rparr>)"
      using assms Nil e by (auto simp: readchar_def split: list.splits)
    then show ?thesis using s Nil by (auto simp: BUFSIZ_def conn_size_def)
  qed (use assms in \<open>auto simp: readchar_def conn_size_def\<close>)
  then show "conn_size d \<le> conn_size c" "r \<noteq> None \<Longrightarrow> conn_size d < conn_size c" by simp_all
qed

lemma Write_size [simp]: "conn_size (snd (Write w bs c)) = conn_size c"
  by (simp add: Write_def conn_size_def)

section \<open>Hexadecimal digits\<close>

definition fromhex :: "ARMbyte \<Rightarrow> ARMbyte" where
  "fromhex a =
     (if of_char CHR ''0'' \<le> a \<and> a \<le> of_char CHR ''9'' then a - of_char CHR ''0''
      else if of_char CHR ''a'' \<le> a \<and> a \<le> of_char CHR ''f'' then a - of_char CHR ''a'' + 10
      else if of_char CHR ''A'' \<le> a \<and> a \<le> of_char CHR ''F'' then a - of_char CHR ''A'' + 10
      else 0)"

definition tohex :: "ARMbyte \<Rightarrow> ARMbyte" where
  "tohex nib = (if nib < 10 then of_char CHR ''0'' + nib else of_char CHR ''a'' + nib - 10)"

text \<open>The digits of the checksum; the end of the connection counts as 0.\<close>

definition fromhex_read :: "ARMbyte option \<Rightarrow> ARMbyte" where
  "fromhex_read r = (case r of None \<Rightarrow> 0 | Some a \<Rightarrow> fromhex a)"

definition hex_pair :: "ARMbyte \<Rightarrow> ARMbyte list" where
  "hex_pair b = [tohex (drop_bit 4 b AND 0xf), tohex (b AND 0xf)]"

section \<open>Buffers\<close>

definition get_at :: "ARMbyte list \<Rightarrow> nat \<Rightarrow> ARMbyte sim" where
  "get_at buf i = (if i < length buf then Inr (buf ! i) else Inl OutOfBounds)"

definition put_at :: "ARMbyte list \<Rightarrow> nat \<Rightarrow> ARMbyte \<Rightarrow> ARMbyte list sim" where
  "put_at buf i b = (if i < length buf then Inr (buf[i := b]) else Inl OutOfBounds)"

fun put_all :: "ARMbyte list \<Rightarrow> nat \<Rightarrow> ARMbyte list \<Rightarrow> ARMbyte list sim" where
  "put_all buf i [] = Inr buf"
| "put_all buf i (b # bs) = bind_ok (put_at buf i b) (\<lambda>buf. put_all buf (Suc i) bs)"

text \<open>A string with its final zero.\<close>

definition put_string :: "ARMbyte list \<Rightarrow> ARMbyte list \<Rightarrow> ARMbyte list sim" where
  "put_string buf s = put_all buf 0 (s @ [0])"

definition c_string :: "ARMbyte list \<Rightarrow> ARMbyte list" where
  "c_string buf = takeWhile (\<lambda>b. b \<noteq> 0) buf"

definition write_ok :: "ARMbyte list \<Rightarrow> ARMbyte list sim" where
  "write_ok buf = put_string buf (map of_char ''OK'')"

definition write_enn :: "ARMbyte list \<Rightarrow> ARMbyte list sim" where
  "write_enn buf = put_string buf (map of_char ''E01'')"

definition convert_int_to_ascii :: "ARMbyte list \<Rightarrow> ARMbyte list \<Rightarrow> nat \<Rightarrow> nat \<Rightarrow> ARMbyte list sim" where
  "convert_int_to_ascii from to j n =
     (if n \<le> length from then put_all to j (concat (map hex_pair (take n from)) @ [0]) else Inl OutOfBounds)"

fun convert_ascii_to_int :: "ARMbyte list \<Rightarrow> nat \<Rightarrow> ARMbyte list \<Rightarrow> nat \<Rightarrow> nat \<Rightarrow> ARMbyte list sim" where
  "convert_ascii_to_int from i to j 0 = Inr to"
| "convert_ascii_to_int from i to j (Suc n) =
     bind_ok (get_at from i) (\<lambda>a.
     bind_ok (get_at from (i + 1)) (\<lambda>b.
     bind_ok (put_at to j ((push_bit 4 (fromhex a AND 0x0f) AND 0xf0) OR (fromhex b AND 0x0f))) (\<lambda>to.
       convert_ascii_to_int from (i + 2) to (Suc j) n)))"

section \<open>Sending a packet\<close>

definition frame :: "ARMbyte list \<Rightarrow> ARMbyte list" where
  "frame s = of_char CHR ''$'' # s @ of_char CHR ''#'' # hex_pair (sum_list s)"

text \<open>The packet is sent until it is acknowledged. Every turn takes a byte from the connection.\<close>

function send_frame :: "(nat \<Rightarrow> bool) \<Rightarrow> ARMbyte list \<Rightarrow> conn \<Rightarrow> int \<times> conn" where
  "send_frame w bs c =
     (case Write w bs c of
        (False, c) \<Rightarrow> (-1, c)
      | (True, c) \<Rightarrow>
          (case Read 1 c of
             ([], c) \<Rightarrow> (-1, c)
           | (b # _, c) \<Rightarrow> if b = of_char CHR ''+'' then (1, c) else send_frame w bs c))"
  by pat_completeness auto

termination
proof (relation "measure (\<lambda>(w, bs, c). conn_size c)", goal_cases)
  case (2 w bs c ok d r e b _)
  then have "conn_size e + length r = conn_size d" using Read_size(2) [of 1 d r e] by simp
  moreover have "conn_size d = conn_size c" using 2(1) Write_size by (metis snd_conv)
  ultimately show ?case using 2(4) by simp
qed simp

definition putpkt :: "(nat \<Rightarrow> bool) \<Rightarrow> ARMbyte list \<Rightarrow> conn \<Rightarrow> (int \<times> conn) sim" where
  "putpkt w buf c =
     (let s = c_string buf
      in if length s = length buf \<or> 2000 < length (frame s) + 1 then Inl OutOfBounds
         else Inr (send_frame w (frame s) c))"

section \<open>Receiving a packet\<close>

function find_start :: "conn \<Rightarrow> bool \<times> conn" where
  "find_start c =
     (case readchar c of
        (None, c) \<Rightarrow> (False, c)
      | (Some ch, c) \<Rightarrow> if ch = of_char CHR ''$'' then (True, c) else find_start c)"
  by pat_completeness auto

termination
proof (relation "measure conn_size", goal_cases)
  case (2 c r d ch)
  then show ?case using readchar_size(2) [of c r d] by simp
qed simp

text \<open>The body, up to the character \<^verbatim>\<open>#\<close>: its length and sum, or \<open>None\<close> when the connection ends.\<close>

function read_body ::
  "ARMbyte list \<Rightarrow> nat \<Rightarrow> ARMbyte \<Rightarrow> conn \<Rightarrow> ((nat \<times> ARMbyte) option \<times> ARMbyte list \<times> conn) sim" where
  "read_body buf n csum c =
     (case readchar c of
        (None, c) \<Rightarrow> Inr (None, buf, c)
      | (Some ch, c) \<Rightarrow>
          if ch = of_char CHR ''#'' then Inr (Some (n, csum), buf, c)
          else case put_at buf n ch of Inl e \<Rightarrow> Inl e | Inr buf \<Rightarrow> read_body buf (Suc n) (csum + ch) c)"
  by pat_completeness auto

termination
proof (relation "measure (\<lambda>(buf, n, csum, c). conn_size c)", goal_cases)
  case (2 buf n csum c r d ch b)
  then show ?case using readchar_size(2) [of c r d] by simp
qed simp

declare send_frame.simps [simp del] find_start.simps [simp del] read_body.simps [simp del]

datatype rx = RxLost | RxBad | RxGood nat

definition recv_frame :: "ARMbyte list \<Rightarrow> conn \<Rightarrow> (rx \<times> ARMbyte list \<times> conn) sim" where
  "recv_frame buf c =
     (case find_start c of
        (False, c) \<Rightarrow> Inr (RxLost, buf, c)
      | (True, c) \<Rightarrow>
          bind_ok (read_body buf 0 0 c) (\<lambda>(r, buf, c).
            case r of
              None \<Rightarrow> Inr (RxLost, buf, c)
            | Some (n, csum) \<Rightarrow>
                bind_ok (put_at buf n 0) (\<lambda>buf.
                  let (c1, c) = readchar c; (c2, c) = readchar c
                  in Inr (if csum = push_bit 4 (fromhex_read c1) + fromhex_read c2 then RxGood n else RxBad, buf, c))))"

lemma find_start_size:
  "find_start c = (b, d) \<Longrightarrow> conn_size d \<le> conn_size c \<and> (b \<longrightarrow> conn_size d < conn_size c)"
proof (induction c rule: find_start.induct)
  case (1 c)
  obtain r e where e: "readchar c = (r, e)" by force
  show ?case
    using 1(1) [OF e [symmetric]] 1(2) readchar_size [OF e] e
    by (subst (asm) (2) find_start.simps) (fastforce split: option.splits if_splits)
qed

lemma read_body_size: "read_body buf n csum c = Inr (r, buf', d) \<Longrightarrow> conn_size d \<le> conn_size c"
proof (induction buf n csum c rule: read_body.induct)
  case (1 buf n csum c)
  obtain r e where e: "readchar c = (r, e)" by force
  show ?case
    using 1(1) [OF e [symmetric]] 1(2) readchar_size [OF e] e
    by (subst (asm) (2) read_body.simps) (fastforce split: option.splits if_splits sum.splits)
qed

lemma recv_frame_size: "recv_frame buf c = Inr (RxBad, buf', d) \<Longrightarrow> conn_size d < conn_size c"
proof -
  assume r: "recv_frame buf c = Inr (RxBad, buf', d)"
  obtain b e where f: "find_start c = (b, e)" by force
  with r have b: "b" by (cases b) (auto simp: recv_frame_def)
  with r f obtain n csum buf1 e1 where body: "read_body buf 0 0 e = Inr (Some (n, csum), buf1, e1)"
    by (auto simp: recv_frame_def bind_ok_def split: sum.splits option.splits)
  obtain c1 e2 where c1: "readchar e1 = (c1, e2)" by force
  obtain c2 e3 where c2: "readchar e2 = (c2, e3)" by force
  have "d = e3" using r f b body c1 c2 by (auto simp: recv_frame_def bind_ok_def Let_def split: sum.splits)
  then show ?thesis
    using find_start_size [OF f] read_body_size [OF body] readchar_size(1) [OF c1] readchar_size(1) [OF c2] b by simp
qed

function getpkt :: "(nat \<Rightarrow> bool) \<Rightarrow> ARMbyte list \<Rightarrow> conn \<Rightarrow> (int \<times> ARMbyte list \<times> conn) sim" where
  "getpkt w buf c =
     (case recv_frame buf c of
        Inl e \<Rightarrow> Inl e
      | Inr (RxLost, buf, c) \<Rightarrow> Inr (-1, buf, c)
      | Inr (RxGood n, buf, c) \<Rightarrow> Inr (int n, buf, snd (Write w [of_char CHR ''+''] c))
      | Inr (RxBad, buf, c) \<Rightarrow> getpkt w buf (snd (Write w [of_char CHR ''-''] c)))"
  by pat_completeness auto

termination
proof (relation "measure (\<lambda>(w, buf, c). conn_size c)", goal_cases)
  case (2 w buf c r st x buf' d)
  then show ?case using recv_frame_size [of buf c buf' d] by simp
qed simp

declare getpkt.simps [simp del]

section \<open>What arrives\<close>

text \<open>
  What \<^verbatim>\<open>readchar\<close> is going to return, however it is cut into pieces, of a connection that does not end between two of
  them.
\<close>

definition arriving :: "conn \<Rightarrow> ARMbyte list" where
  "arriving c = map (\<lambda>b. b AND 0x7f) (rx_buf c @ concat (incoming c))"

definition live :: "conn \<Rightarrow> bool" where
  "live c \<longleftrightarrow> [] \<notin> set (incoming c)"

text \<open>The two connections differ in what has been read only.\<close>

definition same_tx :: "conn \<Rightarrow> conn \<Rightarrow> bool" where
  "same_tx c d \<longleftrightarrow> outgoing d = outgoing c \<and> writes d = writes c"

lemma same_tx_trans: "same_tx c d \<Longrightarrow> same_tx d e \<Longrightarrow> same_tx c e"
  by (simp add: same_tx_def)

lemma readchar_live:
  assumes "live c" "arriving c = x # xs"
  shows "\<exists>d. readchar c = (Some x, d) \<and> live d \<and> arriving d = xs \<and> same_tx c d"
proof (cases "rx_buf c")
  case Nil
  obtain a rest where a: "incoming c = a # rest" using assms(2) Nil by (cases "incoming c") (auto simp: arriving_def)
  obtain b bs where b: "a = b # bs" using assms(1) a by (cases a) (auto simp: live_def)
  have "map (\<lambda>b. b AND 0x7f) (take 8191 bs @ drop 8191 bs @ concat rest) = xs"
    using assms(2) Nil a b by (simp add: arriving_def append.assoc [symmetric] del: append.assoc)
  then show ?thesis
    using assms Nil a b by (auto simp: readchar_def Read_def BUFSIZ_def arriving_def live_def same_tx_def)
qed (use assms in \<open>auto simp: readchar_def arriving_def live_def same_tx_def\<close>)

lemma find_start_live:
  "live c \<Longrightarrow> arriving c = junk @ of_char CHR ''$'' # rest \<Longrightarrow> of_char CHR ''$'' \<notin> set junk \<Longrightarrow>
    \<exists>d. find_start c = (True, d) \<and> live d \<and> arriving d = rest \<and> same_tx c d"
proof (induction junk arbitrary: c)
  case Nil
  then show ?case using readchar_live [of c] by (auto simp: find_start.simps)
next
  case (Cons x junk)
  then obtain d where "readchar c = (Some x, d)" "live d" "arriving d = junk @ of_char CHR ''$'' # rest" "same_tx c d"
    using readchar_live [of c] by auto
  then show ?case using Cons.IH [of d] Cons.prems(3) same_tx_trans [of c d] by (subst find_start.simps) auto
qed

lemma read_body_live:
  "live c \<Longrightarrow> arriving c = s @ of_char CHR ''#'' # rest \<Longrightarrow> of_char CHR ''#'' \<notin> set s \<Longrightarrow> n + length s \<le> length buf \<Longrightarrow>
    \<exists>d. read_body buf n csum c = Inr (Some (n + length s, csum + sum_list s), take n buf @ s @ drop (n + length s) buf, d) \<and>
      live d \<and> arriving d = rest \<and> same_tx c d"
proof (induction s arbitrary: c buf n csum)
  case Nil
  then show ?case using readchar_live [of c] by (auto simp: read_body.simps)
next
  case (Cons x s)
  then obtain d where d: "readchar c = (Some x, d)" "live d" "arriving d = s @ of_char CHR ''#'' # rest" "same_tx c d"
    using readchar_live [of c] by auto
  have "take (Suc n) (buf[n := x]) @ s @ drop (Suc n + length s) (buf[n := x]) = take n buf @ (x # s) @ drop (n + length (x # s)) buf"
    using Cons.prems(4) by (simp add: take_Suc_conv_app_nth)
  moreover have "Suc n + length s \<le> length (buf[n := x])" using Cons.prems(4) by simp
  ultimately show ?case
    using Cons.IH [OF d(2,3), of "Suc n" "buf[n := x]" "csum + x"] Cons.prems(3,4) d(1,4) same_tx_trans [of c d]
    by (subst read_body.simps) (auto simp: put_at_def add.assoc)
qed

text \<open>A frame on the wire, whose checksum may be wrong.\<close>

definition wire :: "ARMbyte list \<Rightarrow> ARMbyte \<Rightarrow> ARMbyte \<Rightarrow> ARMbyte list" where
  "wire s h1 h2 = of_char CHR ''$'' # s @ [of_char CHR ''#'', h1, h2]"

definition checks :: "ARMbyte list \<Rightarrow> ARMbyte \<Rightarrow> ARMbyte \<Rightarrow> bool" where
  "checks s h1 h2 \<longleftrightarrow> sum_list s = push_bit 4 (fromhex h1) + fromhex h2"

lemma recv_frame_live:
  assumes "live c" "arriving c = junk @ wire s h1 h2 @ rest" "of_char CHR ''$'' \<notin> set junk" "of_char CHR ''#'' \<notin> set s"
    "length s < length buf"
  shows "\<exists>d. recv_frame buf c = Inr (if checks s h1 h2 then RxGood (length s) else RxBad, s @ 0 # drop (Suc (length s)) buf, d) \<and>
    live d \<and> arriving d = rest \<and> same_tx c d"
proof -
  obtain c1 where c1: "find_start c = (True, c1)" "live c1" "arriving c1 = s @ of_char CHR ''#'' # h1 # h2 # rest" "same_tx c c1"
    using find_start_live [OF assms(1) _ assms(3)] assms(2) unfolding wire_def by auto
  obtain c2 where c2: "read_body buf 0 0 c1 = Inr (Some (length s, sum_list s), s @ drop (length s) buf, c2)" "live c2"
      "arriving c2 = h1 # h2 # rest" "same_tx c1 c2"
    using read_body_live [OF c1(2,3) assms(4), of 0 buf 0] assms(5) by auto
  obtain c3 where c3: "readchar c2 = (Some h1, c3)" "live c3" "arriving c3 = h2 # rest" "same_tx c2 c3"
    using readchar_live [OF c2(2,3)] by auto
  obtain c4 where c4: "readchar c3 = (Some h2, c4)" "live c4" "arriving c4 = rest" "same_tx c3 c4"
    using readchar_live [OF c3(2,3)] by auto
  have "put_at (s @ drop (length s) buf) (length s) 0 = Inr (s @ 0 # drop (Suc (length s)) buf)"
    using assms(5) by (simp add: put_at_def list_update_append drop_Suc Cons_nth_drop_Suc [symmetric])
  then show ?thesis
    using c1 c2 c3 c4 by (auto simp: recv_frame_def checks_def fromhex_read_def same_tx_def Let_def)
qed

section \<open>Digits\<close>

lemma nibble_cases: "(x :: ARMbyte) AND 0xf \<in> {0, 1, 2, 3, 4, 5, 6, 7, 8, 9, 10, 11, 12, 13, 14, 15}"
proof -
  have "x AND 0xf = take_bit 4 x" by (simp add: take_bit_eq_mask mask_numeral)
  then have "unat (x AND 0xf) < 16" using take_bit_nat_less_exp [of 4 "unat x"] by (simp add: unsigned_take_bit_eq)
  moreover have "\<forall>n<16. n \<in> {0, 1, 2, 3, 4, 5, 6, 7, 8, 9, 10, 11, 12, 13, 14, 15 :: nat}" unfolding all_less_16_iff by simp
  ultimately have "unat (x AND 0xf) \<in> {0, 1, 2, 3, 4, 5, 6, 7, 8, 9, 10, 11, 12, 13, 14, 15}" by blast
  then have "of_nat (unat (x AND 0xf)) \<in> (of_nat :: nat \<Rightarrow> ARMbyte) ` {0, 1, 2, 3, 4, 5, 6, 7, 8, 9, 10, 11, 12, 13, 14, 15}"
    by (rule imageI)
  then show ?thesis by (simp del: unsigned_and_eq)
qed

lemma fromhex_tohex [simp]: "fromhex (tohex (x AND 0xf)) = x AND 0xf"
proof -
  have "fromhex (tohex y) = y" if "y \<in> {0, 1, 2, 3, 4, 5, 6, 7, 8, 9, 10, 11, 12, 13, 14, 15}" for y
    using that by (elim insertE emptyE) (simp_all add: fromhex_def tohex_def)
  then show ?thesis using nibble_cases by blast
qed

lemma tohex_plain: "tohex (x AND 0xf) \<noteq> 0 \<and> tohex (x AND 0xf) AND 0x7f = tohex (x AND 0xf)"
proof -
  have "tohex y \<noteq> 0 \<and> tohex y AND 0x7f = tohex y" if "y \<in> {0, 1, 2, 3, 4, 5, 6, 7, 8, 9, 10, 11, 12, 13, 14, 15}" for y
    using that by (elim insertE emptyE) (simp_all add: tohex_def)
  then show ?thesis using nibble_cases by blast
qed

lemma nibble_take: "y AND 0xf = take_bit 4 (y :: ARMbyte)"
  by (simp add: take_bit_eq_mask mask_numeral)

lemma high_nibble: "take_bit 4 (drop_bit 4 x) = drop_bit 4 (x :: ARMbyte)"
proof -
  have "take_bit 4 (drop_bit 4 x) = drop_bit 4 (take_bit 8 x)" by (simp add: drop_bit_take_bit)
  also have "take_bit 8 x = x" using take_bit_length_eq [of x] by simp
  finally show ?thesis .
qed

lemma nibbles: "push_bit 4 (drop_bit 4 x AND 0xf) + (x AND 0xf) = (x :: ARMbyte)"
  by (simp only: nibble_take high_nibble bits_ident)

lemma nibbles_or: "(push_bit 4 (drop_bit 4 x AND 0xf AND 0xf) AND 0xf0) OR (x AND 0xf AND 0xf) = (x :: ARMbyte)"
proof -
  have "(push_bit 4 (drop_bit 4 x AND 0xf AND 0xf) AND 0xf0) = push_bit 4 (drop_bit 4 x AND 0xf AND 0xf AND 0xf)"
    using push_bit_and [of 4 "drop_bit 4 x AND 0xf AND 0xf" "0xf"] by simp
  also have "drop_bit 4 x AND 0xf AND 0xf AND 0xf = drop_bit 4 x AND 0xf" by simp
  finally have "(push_bit 4 (drop_bit 4 x AND 0xf AND 0xf) AND 0xf0) = push_bit 4 (drop_bit 4 x)"
    by (simp only: nibble_take high_nibble)
  moreover have "push_bit 4 (drop_bit 4 x) OR take_bit 4 x = x" by (rule bit_word_eqI) (auto simp: bit_simps)
  ultimately show ?thesis by (simp add: nibble_take)
qed

lemma nibbles_or_norm: "push_bit 4 (drop_bit 4 x) AND 0xf0 OR x AND 0xf = (x :: ARMbyte)"
  using nibbles_or [of x] by simp

lemma frame_wire: "frame s = wire s (tohex (drop_bit 4 (sum_list s) AND 0xf)) (tohex (sum_list s AND 0xf))"
  by (simp add: frame_def wire_def hex_pair_def)

lemma frame_checks: "checks s (tohex (drop_bit 4 (sum_list s) AND 0xf)) (tohex (sum_list s AND 0xf))"
  unfolding checks_def fromhex_tohex nibbles ..

section \<open>Packets are received\<close>

text \<open>What arrives before a good packet: rubbish and damaged packets.\<close>

definition noise :: "(ARMbyte list \<times> ARMbyte list \<times> ARMbyte \<times> ARMbyte) list \<Rightarrow> ARMbyte list" where
  "noise bad = concat (map (\<lambda>(junk, s, h1, h2). junk @ wire s h1 h2) bad)"

definition damaged :: "nat \<Rightarrow> ARMbyte list \<times> ARMbyte list \<times> ARMbyte \<times> ARMbyte \<Rightarrow> bool" where
  "damaged n = (\<lambda>(junk, s, h1, h2). of_char CHR ''$'' \<notin> set junk \<and> of_char CHR ''#'' \<notin> set s \<and> length s < n \<and> \<not> checks s h1 h2)"

lemma Write_live [simp]: "live (snd (Write w bs c)) = live c" "arriving (snd (Write w bs c)) = arriving c"
  by (simp_all add: Write_def live_def arriving_def)

lemma Write_outgoing:
  "w (writes c) \<Longrightarrow> outgoing (snd (Write w bs c)) = outgoing c @ [bs]" "writes (snd (Write w bs c)) = Suc (writes c)"
  by (simp_all add: Write_def)

text \<open>
  C23: packets survive the connection. Whatever pieces the bytes of the connection arrive in, and whatever rubbish and
  whatever packets with a wrong checksum come first, \<^verbatim>\<open>getpkt\<close> returns the text that \<^verbatim>\<open>putpkt\<close> framed on the other
  side, terminated, with its length, and takes nothing of what follows. It asks once for the repetition of every
  damaged packet and acknowledges the good one.
\<close>

theorem packet_received:
  assumes "live c" "arriving c = noise bad @ junk @ frame s @ rest" "\<forall>b\<in>set bad. damaged (length buf) b"
    "of_char CHR ''$'' \<notin> set junk" "of_char CHR ''#'' \<notin> set s" "length s < length buf" "\<forall>k. w k"
  shows "\<exists>buf' d. getpkt w buf c = Inr (int (length s), buf', d) \<and> take (Suc (length s)) buf' = s @ [0] \<and>
    length buf' = length buf \<and> live d \<and> arriving d = rest \<and>
    outgoing d = outgoing c @ replicate (length bad) [of_char CHR ''-''] @ [[of_char CHR ''+'']]"
  using assms(1-3,6)
proof (induction bad arbitrary: c buf)
  case Nil
  then obtain d where "recv_frame buf c = Inr (RxGood (length s), s @ 0 # drop (Suc (length s)) buf, d)" "live d" "arriving d = rest"
      "same_tx c d"
    using recv_frame_live [of c junk s "tohex (drop_bit 4 (sum_list s) AND 0xf)" "tohex (sum_list s AND 0xf)" rest buf,
        OF Nil(1) _ assms(4,5) Nil(4)] Nil(2) frame_checks [of s] by (auto simp: noise_def frame_wire)
  then show ?case using assms(7) Nil by (subst getpkt.simps) (auto simp: Write_outgoing same_tx_def)
next
  case (Cons b bad)
  obtain j t h1 h2 where b: "b = (j, t, h1, h2)" by (cases b) auto
  have m: "damaged (length buf) (j, t, h1, h2)" using Cons.prems(3) b by simp
  have "arriving c = j @ wire t h1 h2 @ noise bad @ junk @ frame s @ rest" using Cons.prems(2) b by (simp add: noise_def)
  then obtain d where d: "recv_frame buf c = Inr (RxBad, t @ 0 # drop (Suc (length t)) buf, d)" "live d"
      "arriving d = noise bad @ junk @ frame s @ rest" "same_tx c d"
    using recv_frame_live [OF Cons.prems(1), of j t h1 h2 _ buf] m by (auto simp: damaged_def)
  let ?buf = "t @ 0 # drop (Suc (length t)) buf" and ?d = "snd (Write w [of_char CHR ''-''] d)"
  have l: "length ?buf = length buf" using m by (auto simp: damaged_def)
  have "live ?d" "arriving ?d = noise bad @ junk @ frame s @ rest" "\<forall>b\<in>set bad. damaged (length ?buf) b" "length s < length ?buf"
    using d(2,3) Cons.prems(3,4) unfolding l by simp_all
  from Cons.IH [OF this] obtain buf' e where "getpkt w ?buf ?d = Inr (int (length s), buf', e)"
      "take (Suc (length s)) buf' = s @ [0]" "length buf' = length ?buf" "live e" "arriving e = rest"
      "outgoing e = outgoing ?d @ replicate (length bad) [of_char CHR ''-''] @ [[of_char CHR ''+'']]" by blast
  then show ?case
    using d(1,4) assms(7) l by (subst getpkt.simps) (simp add: Write_outgoing same_tx_def)
qed

theorem packet_received_witness:
  "\<exists>buf d. getpkt (\<lambda>_. True) (replicate 8 7) \<lparr>rx_buf = map of_char ''+'', incoming = map (map of_char) [''$g#6'', ''8$m'', ''#6d''],
       outgoing = [], writes = 0\<rparr> = Inr (1, buf, d) \<and> take 2 buf = [of_char CHR ''m'', 0] \<and> arriving d = [] \<and>
     outgoing d = [map of_char ''-'', map of_char ''+'']"
proof -
  let ?c = "\<lparr>rx_buf = map of_char ''+'', incoming = map (map of_char) [''$g#6'', ''8$m'', ''#6d''], outgoing = [], writes = 0\<rparr>"
    and ?bad = "[(map of_char ''+'', map of_char ''g'', of_char CHR ''6'', of_char CHR ''8'')]"
  have "damaged 8 (map of_char ''+'', map of_char ''g'', of_char CHR ''6'', of_char CHR ''8'')"
    by (simp add: damaged_def checks_def fromhex_def)
  moreover have "arriving ?c = noise ?bad @ [] @ frame (map of_char ''m'') @ []"
    by (simp add: arriving_def noise_def wire_def frame_def hex_pair_def tohex_def)
  ultimately show ?thesis
    using packet_received [of ?c ?bad "[]" "map of_char ''m''" "[]" "replicate 8 7" "\<lambda>_. True"] by (simp add: live_def) (metis numeral_2_eq_2)
qed

section \<open>Hexadecimal data\<close>

lemma put_all_simps:
  "i + length bs \<le> length buf \<Longrightarrow> put_all buf i bs = Inr (take i buf @ bs @ drop (i + length bs) buf)"
proof (induction bs arbitrary: buf i)
  case (Cons b bs)
  then show ?case by (simp add: put_at_def take_Suc_conv_app_nth)
qed simp

lemma put_all_overflow: "length buf < i + length bs \<Longrightarrow> i \<le> length buf \<Longrightarrow> put_all buf i bs = Inl OutOfBounds"
proof (induction bs arbitrary: buf i)
  case (Cons b bs)
  then show ?case by (cases "i < length buf") (simp_all add: put_at_def)
qed simp

lemma put_string_ok: "length s < length buf \<Longrightarrow> put_string buf s = Inr (s @ 0 # drop (Suc (length s)) buf)"
  by (simp add: put_string_def put_all_simps)

lemma length_hex_dump [simp]: "length (concat (map hex_pair bs)) = 2 * length bs"
  by (induction bs) (simp_all add: hex_pair_def)

lemma hex_dump_plain: "b \<in> set (concat (map hex_pair bs)) \<Longrightarrow> b \<noteq> 0 \<and> b AND 0x7f = b"
  using tohex_plain by (auto simp: hex_pair_def)

lemma convert_ascii_to_int_hex:
  "j + length bs \<le> length to \<Longrightarrow> i + 2 * length bs \<le> length from \<Longrightarrow>
   take (2 * length bs) (drop i from) = concat (map hex_pair bs) \<Longrightarrow>
   convert_ascii_to_int from i to j (length bs) = Inr (take j to @ bs @ drop (j + length bs) to)"
proof (induction bs arbitrary: i to j)
  case (Cons b bs)
  have f: "take (2 * length bs) (drop (i + 2) from) = concat (map hex_pair bs)" "from ! i = tohex (drop_bit 4 b AND 0xf)"
    "from ! Suc i = tohex (b AND 0xf)" "Suc i < length from"
    using Cons.prems(2,3) by (auto simp: hex_pair_def numeral_2_eq_2 take_Suc drop_Suc hd_drop_conv_nth nth_tl tl_drop hex_pair_def [abs_def])
  show ?case
    using Cons.IH [of "Suc j" "to[j := b]" "i + 2"] Cons.prems f
    by (simp add: get_at_def put_at_def nibbles_or_norm take_Suc_conv_app_nth and.assoc)
qed simp

lemma c_string_put: "0 \<notin> set s \<Longrightarrow> c_string (s @ 0 # rest) = s"
  by (simp add: c_string_def takeWhile_append)

end
