(* ===== verification/Gdb_Ice.thy ===== *)
theory Gdb_Ice
  imports Gdb_Packet
begin

text \<open>
  What the debugger does to the processor: registers and memory as bytes (\<^verbatim>\<open>arm_regdefs.c\<close>, \<^verbatim>\<open>skyeye2gdb.c\<close>),
  breakpoints, and tracepoints that collect registers and memory into frames (\<^verbatim>\<open>gdb_tracepoint.c\<close>).
\<close>

unbundle bit_operations_syntax

section \<open>Registers as bytes\<close>

text \<open>\<^verbatim>\<open>endian_flag\<close> of the ARM is a static variable that nothing sets.\<close>

definition endian_flag :: ARMword where
  "endian_flag = LOW"

definition frommem :: "ARMbyte list \<Rightarrow> ARMword" where
  "frommem m =
     (let b = (\<lambda>i k. push_bit k (ucast (m ! i)))
      in if endian_flag = HIGH then b 0 24 OR b 1 16 OR b 2 8 OR b 3 0 else b 3 24 OR b 2 16 OR b 1 8 OR b 0 0)"

definition tomem :: "ARMword \<Rightarrow> ARMbyte list" where
  "tomem v =
     (let b = (\<lambda>k. ucast (drop_bit k v))
      in if endian_flag = HIGH then [b 24, b 16, b 8, b 0] else [b 0, b 8, b 16, b 24])"

definition arm_register_raw_size :: "int \<Rightarrow> nat" where
  "arm_register_raw_size x = (if x > 15 \<and> x < 24 then 12 else 4)"

definition arm_register_byte :: "int \<Rightarrow> int" where
  "arm_register_byte x =
     (if x < 16 then x * 4
      else if x > 15 \<and> x < 24 then 16 * 4 + (x - 16) * 12
      else if x = 24 then 16 * 4 + 8 * 12
      else if x = 25 then 16 * 4 + 8 * 12 + 4 else 0)"

definition register_bytes :: nat where
  "register_bytes = 16 * 4 + 12 * 8 + 4 + 4"

definition arm_store_register :: "'io ARMul_State \<Rightarrow> int \<Rightarrow> ARMbyte list \<Rightarrow> 'io ARMul_State" where
  "arm_store_register s rn m =
     (if rn = 25 then ARMul_SetCPSR s (frommem m)
      else if rn < 16 then ARMul_SetReg s (Mode s) (nat rn) (frommem m) else s)"

definition arm_fetch_register :: "'io ARMul_State \<Rightarrow> int \<Rightarrow> ARMbyte list" where
  "arm_fetch_register s rn =
     tomem (if rn < 16 then ARMul_GetReg s (Mode s) (nat rn) else if rn = 25 then ARMul_GetCPSR s else 0)"

text \<open>An offset into an array of bytes; a negative one is out of bounds.\<close>

definition put_register :: "'io ARMul_State \<Rightarrow> ARMbyte list \<Rightarrow> int \<Rightarrow> ARMbyte list sim" where
  "put_register s m rn =
     (if arm_register_byte rn < 0 then Inl OutOfBounds
      else put_all m (nat (arm_register_byte rn)) (arm_fetch_register s rn))"

fun put_registers :: "'io ARMul_State \<Rightarrow> ARMbyte list \<Rightarrow> int list \<Rightarrow> ARMbyte list sim" where
  "put_registers s m [] = Inr m"
| "put_registers s m (r # rs) = bind_ok (put_register s m r) (\<lambda>m. put_registers s m rs)"

definition fetch_inferior_registers :: "'io ARMul_State \<Rightarrow> int \<Rightarrow> ARMbyte list \<Rightarrow> ARMbyte list sim" where
  "fetch_inferior_registers s regno m =
     (if regno = -1 \<or> regno = 0 then put_registers s m [0..25] else put_register s m regno)"

text \<open>\<^verbatim>\<open>store_inferior_registers\<close> is called for all registers only, and the array has room for them.\<close>

fun get_registers :: "'io ARMul_State \<Rightarrow> ARMbyte list \<Rightarrow> int list \<Rightarrow> 'io ARMul_State" where
  "get_registers s m [] = s"
| "get_registers s m (r # rs) = get_registers (arm_store_register s r (drop (nat (arm_register_byte r)) m)) m rs"

definition store_inferior_registers :: "'io ARMul_State \<Rightarrow> ARMbyte list \<Rightarrow> 'io ARMul_State sim" where
  "store_inferior_registers s m = (if length m < register_bytes then Inl OutOfBounds else Inr (get_registers s m [0..25]))"

section \<open>Memory as bytes\<close>

fun ice_write_bytes :: "'io cpu_env \<Rightarrow> 'io ARMul_State \<Rightarrow> ARMword \<Rightarrow> ARMbyte list \<Rightarrow> (bool \<times> 'io ARMul_State) sim" where
  "ice_write_bytes env s a [] = Inr (True, s)"
| "ice_write_bytes env s a (b # bs) =
     bind_ok (ARMul_ICE_WriteByte env s a (ucast b)) (\<lambda>(fault, s). if fault then Inr (False, s) else ice_write_bytes env s (a + 1) bs)"

fun ice_read_bytes :: "'io cpu_env \<Rightarrow> 'io ARMul_State \<Rightarrow> ARMword \<Rightarrow> ARMbyte list \<Rightarrow> nat \<Rightarrow> nat \<Rightarrow> (bool \<times> ARMbyte list \<times> 'io ARMul_State) sim" where
  "ice_read_bytes env s a buf i 0 = Inr (True, buf, s)"
| "ice_read_bytes env s a buf i (Suc n) =
     bind_ok (ARMul_ICE_ReadByte env s a) (\<lambda>(fault, v, s).
       if fault then Inr (False, buf, s)
       else bind_ok (put_at buf i v) (\<lambda>buf. ice_read_bytes env s (a + 1) buf (Suc i) n))"

text \<open>The size is a signed integer, and a negative one is no loop. The answers are \<open>True\<close> for the size and \<open>False\<close> for -1.\<close>

definition sim_write :: "'io cpu_env \<Rightarrow> 'io ARMul_State \<Rightarrow> ARMword \<Rightarrow> ARMbyte list \<Rightarrow> ARMword \<Rightarrow> (bool \<times> 'io ARMul_State) sim" where
  "sim_write env s addr buf len =
     (if nat (sint len) \<le> length buf then ice_write_bytes env s addr (take (nat (sint len)) buf) else Inl OutOfBounds)"

definition sim_read ::
  "'io cpu_env \<Rightarrow> 'io ARMul_State \<Rightarrow> ARMword \<Rightarrow> ARMbyte list \<Rightarrow> ARMword \<Rightarrow> (bool \<times> ARMbyte list \<times> 'io ARMul_State) sim" where
  "sim_read env s addr buf len = ice_read_bytes env s addr buf 0 (nat (sint len))"

section \<open>The data of the debugger\<close>

text \<open>
  A collection holds its kind with the data of that kind, an action the same. Siblings are lists. A record keeps a
  pointer to its action, whose data do not change while it is there.
\<close>

datatype collect_action =
  CollectUnassigned | CollectRegisters ARMword | CollectMemory ARMword ARMword ARMword | CollectExpression ARMword

datatype action = Unassigned | Collect collect_action | While ARMword ARMword "action list"

record collect_record =
  rec_ca :: collect_action
  collect_data :: "ARMbyte list"
  collect_data_length :: ARMword

record frame_buffer =
  tp_number :: ARMword
  frame_number :: ARMword
  fb_records :: "collect_record option list"

datatype tracepoint_status = TRACEPOINT_DISABLED | TRACEPOINT_ENABLED | TRACEPOINT_STEPPING

datatype trace_status = TRACE_STARTED | TRACE_STOPPED | TRACE_FOCUSING

record tracepoint_def =
  tp_address :: ARMword
  tp_num :: ARMword
  actions :: "action list"
  tp_status :: tracepoint_status
  pass_count :: ARMword
  remaining_pass :: ARMword
  remaining_step :: ARMword

text \<open>\<open>selected_fb\<close> is the position of a frame in the list.\<close>

record SkyEye_ICE =
  bps :: "ARMword list"
  num_bps :: nat
  tps_status :: trace_status
  tps :: "tracepoint_def list"
  num_tps :: nat
  fb :: "frame_buffer list"
  num_fb :: ARMword
  selected_fb :: "nat option"
  ro_regions :: "(ARMword \<times> ARMword) list"

definition MAX_BREAKPOINTS :: nat where "MAX_BREAKPOINTS = 16"
definition MAX_TRACEPOINTS :: nat where "MAX_TRACEPOINTS = 16"

section \<open>Breakpoints\<close>

definition find_bp :: "ARMword \<Rightarrow> SkyEye_ICE \<Rightarrow> nat option" where
  "find_bp addr ice = find (\<lambda>i. bps ice ! i = addr) [0..<num_bps ice]"

definition sim_ice_breakpoint_insert :: "ARMword \<Rightarrow> SkyEye_ICE \<Rightarrow> int \<times> SkyEye_ICE" where
  "sim_ice_breakpoint_insert addr ice =
     (case find_bp addr ice of
        Some _ \<Rightarrow> (1, ice)
      | None \<Rightarrow>
          if num_bps ice \<ge> MAX_BREAKPOINTS then (-1, ice)
          else (0, ice\<lparr>bps := (bps ice)[num_bps ice := addr], num_bps := num_bps ice + 1\<rparr>))"

definition sim_ice_breakpoint_remove :: "ARMword \<Rightarrow> SkyEye_ICE \<Rightarrow> int \<times> SkyEye_ICE" where
  "sim_ice_breakpoint_remove addr ice =
     (case find_bp addr ice of
        None \<Rightarrow> (0, ice)
      | Some i \<Rightarrow>
          let n = num_bps ice - 1
          in (1, ice\<lparr>num_bps := n, bps := (if i < n then (bps ice)[i := bps ice ! n] else bps ice)\<rparr>))"

section \<open>Tracepoints\<close>

definition upd_tp :: "nat \<Rightarrow> (tracepoint_def \<Rightarrow> tracepoint_def) \<Rightarrow> SkyEye_ICE \<Rightarrow> SkyEye_ICE" where
  "upd_tp i f ice = ice\<lparr>tps := (tps ice)[i := f (tps ice ! i)]\<rparr>"

text \<open>\<open>None\<close> is the answer -1.\<close>

definition add_tracepoint :: "ARMword \<Rightarrow> ARMword \<Rightarrow> SkyEye_ICE \<Rightarrow> nat option \<times> SkyEye_ICE" where
  "add_tracepoint number address ice =
     (if num_tps ice < MAX_TRACEPOINTS
      then (Some (num_tps ice),
            (upd_tp (num_tps ice) (\<lambda>t. t\<lparr>tp_address := address, tp_num := number, tp_status := TRACEPOINT_DISABLED,
               pass_count := 0, remaining_pass := 0, remaining_step := 0\<rparr>) ice)\<lparr>num_tps := num_tps ice + 1\<rparr>)
      else (None, ice))"

definition find_tp_id :: "ARMword \<Rightarrow> ARMword \<Rightarrow> SkyEye_ICE \<Rightarrow> nat option" where
  "find_tp_id number address ice =
     find (\<lambda>i. tp_num (tps ice ! i) = number \<and> tp_address (tps ice ! i) = address) [0..<num_tps ice]"

definition clear_ro_regions :: "SkyEye_ICE \<Rightarrow> SkyEye_ICE" where
  "clear_ro_regions ice = ice\<lparr>ro_regions := []\<rparr>"

definition is_in_ro_region :: "ARMword \<Rightarrow> ARMword \<Rightarrow> SkyEye_ICE \<Rightarrow> bool" where
  "is_in_ro_region addr len ice = (\<exists>(start, finish)\<in>set (ro_regions ice). start \<le> addr \<and> finish \<ge> addr + len)"

definition add_ro_region :: "ARMword \<Rightarrow> ARMword \<Rightarrow> SkyEye_ICE \<Rightarrow> SkyEye_ICE" where
  "add_ro_region start finish ice = ice\<lparr>ro_regions := ro_regions ice @ [(start, finish)]\<rparr>"

definition clear_frame_buffers :: "SkyEye_ICE \<Rightarrow> SkyEye_ICE" where
  "clear_frame_buffers ice = (if fb ice \<noteq> [] then ice\<lparr>fb := [], num_fb := 0\<rparr> else ice)"

definition clear_tracepoints :: "SkyEye_ICE \<Rightarrow> SkyEye_ICE" where
  "clear_tracepoints ice = ice\<lparr>num_tps := 0, tps := map (\<lambda>t. t\<lparr>actions := []\<rparr>) (tps ice)\<rparr>"

definition init_tracepoints :: "SkyEye_ICE \<Rightarrow> SkyEye_ICE" where
  "init_tracepoints ice =
     clear_ro_regions ((clear_frame_buffers ((clear_tracepoints ice)\<lparr>tps_status := TRACE_STOPPED\<rparr>))\<lparr>selected_fb := None\<rparr>)"

definition start_trace_recording :: "SkyEye_ICE \<Rightarrow> SkyEye_ICE" where
  "start_trace_recording ice = ice\<lparr>tps_status := TRACE_STARTED\<rparr>"

definition stop_trace_recording :: "SkyEye_ICE \<Rightarrow> SkyEye_ICE" where
  "stop_trace_recording ice = ice\<lparr>tps_status := TRACE_STOPPED\<rparr>"

definition start_trace_focusing :: "SkyEye_ICE \<Rightarrow> SkyEye_ICE" where
  "start_trace_focusing ice = ice\<lparr>tps_status := TRACE_FOCUSING\<rparr>"

definition stop_trace_focusing :: "SkyEye_ICE \<Rightarrow> SkyEye_ICE" where
  "stop_trace_focusing ice = ice\<lparr>tps_status := TRACE_STARTED, selected_fb := None\<rparr>"

section \<open>Collecting\<close>

text \<open>Memory from \<^verbatim>\<open>malloc\<close> holds what it held; \<open>junk\<close> stands for that.\<close>

definition malloc_bytes :: "(nat \<Rightarrow> ARMbyte) \<Rightarrow> nat \<Rightarrow> ARMbyte list" where
  "malloc_bytes junk n = map junk [0..<n]"

definition base_value :: "(nat \<Rightarrow> ARMbyte) \<Rightarrow> 'io ARMul_State \<Rightarrow> ARMword \<Rightarrow> ARMword sim" where
  "base_value junk s base_reg =
     (if base_reg = -1 then Inr 0
      else bind_ok (fetch_inferior_registers s (sint base_reg) (malloc_bytes junk register_bytes)) (\<lambda>m.
             if arm_register_byte (sint base_reg) < 0 then Inl OutOfBounds
             else bind_ok (get_at m (nat (arm_register_byte (sint base_reg)))) (\<lambda>b. Inr (ucast b))))"

text \<open>
  A new record at the end of the frame; for an action that collects neither registers nor memory it stays as \<^verbatim>\<open>malloc\<close>
  left it, which is \<open>None\<close>.
\<close>

definition do_action ::
  "'io cpu_env \<Rightarrow> (nat \<Rightarrow> ARMbyte) \<Rightarrow> 'io ARMul_State \<Rightarrow> collect_action \<Rightarrow> frame_buffer \<Rightarrow> (frame_buffer \<times> 'io ARMul_State) sim" where
  "do_action env junk s ca f =
     (let add = (\<lambda>r s. Inr (f\<lparr>fb_records := fb_records f @ [r]\<rparr>, s))
      in case ca of
           CollectRegisters _ \<Rightarrow>
             bind_ok (fetch_inferior_registers s (-1) (malloc_bytes junk register_bytes)) (\<lambda>m.
               add (Some \<lparr>rec_ca = ca, collect_data = m, collect_data_length = of_nat register_bytes\<rparr>) s)
         | CollectMemory base_reg offset len \<Rightarrow>
             bind_ok (base_value junk s base_reg) (\<lambda>base.
             bind_ok (sim_read env s (base + offset) (malloc_bytes junk (unat len)) len) (\<lambda>(ok, m, s).
               add (Some \<lparr>rec_ca = ca, collect_data = m, collect_data_length = (if ok then len else -1)\<rparr>) s))
         | _ \<Rightarrow> add None s)"

text \<open>
  The actions of a tracepoint, with the state they change: the processor, the tracepoint and the frame; the result also
  has the actions, whose counters of steps change.
\<close>

fun do_action_list ::
  "'io cpu_env \<Rightarrow> (nat \<Rightarrow> ARMbyte) \<Rightarrow> 'io ARMul_State \<times> tracepoint_status \<times> frame_buffer \<Rightarrow> action list
     \<Rightarrow> (('io ARMul_State \<times> tracepoint_status \<times> frame_buffer) \<times> action list) sim" where
  "do_action_list env junk st [] = Inr (st, [])"
| "do_action_list env junk st (Unassigned # as) = Inl SkyeyeExit"
| "do_action_list env junk (s, status, f) (Collect ca # as) =
     bind_ok (do_action env junk s ca f) (\<lambda>(f, s).
     bind_ok (do_action_list env junk (s, status, f) as) (\<lambda>(st, as). Inr (st, Collect ca # as)))"
| "do_action_list env junk (s, status, f) (While n k ch # as) =
     bind_ok (if k \<noteq> 0 then do_action_list env junk (s, TRACEPOINT_STEPPING, f) ch else Inr ((s, status, f), ch)) (\<lambda>((s, status, f), ch).
       let k = (if k \<noteq> 0 then k - 1 else k);
           (status, k) = (if k = 0 then (TRACEPOINT_ENABLED, n) else (status, k))
       in bind_ok (do_action_list env junk (s, status, f) as) (\<lambda>(st, as). Inr (st, While n k ch # as)))"

definition is_While :: "action \<Rightarrow> bool" where
  "is_While a = (case a of While _ _ _ \<Rightarrow> True | _ \<Rightarrow> False)"

text \<open>A new frame with what the actions \<open>as\<close> collect; \<open>pre\<close> are the actions of the tracepoint before them.\<close>

definition record_frame ::
  "'io cpu_env \<Rightarrow> (nat \<Rightarrow> ARMbyte) \<Rightarrow> SkyEye_ICE \<Rightarrow> 'io ARMul_State \<Rightarrow> nat \<Rightarrow> action list \<Rightarrow> action list
     \<Rightarrow> (SkyEye_ICE \<times> 'io ARMul_State) sim" where
  "record_frame env junk ice s i pre as =
     (let t = tps ice ! i; f = \<lparr>tp_number = tp_num t, frame_number = num_fb ice, fb_records = []\<rparr>
      in bind_ok (do_action_list env junk (s, tp_status t, f) as) (\<lambda>((s, status, f), as).
           Inr ((upd_tp i (\<lambda>t. t\<lparr>tp_status := status, actions := pre @ as\<rparr>) ice)\<lparr>fb := fb ice @ [f], num_fb := num_fb ice + 1\<rparr>, s)))"

definition handle_tracepoint ::
  "'io cpu_env \<Rightarrow> (nat \<Rightarrow> ARMbyte) \<Rightarrow> SkyEye_ICE \<Rightarrow> 'io ARMul_State \<Rightarrow> nat \<Rightarrow> (SkyEye_ICE \<times> 'io ARMul_State) sim" where
  "handle_tracepoint env junk ice s i =
     (let t = tps ice ! i
      in case tp_status t of
           TRACEPOINT_STEPPING \<Rightarrow>
             (case (actions t, dropWhile (\<lambda>a. \<not> is_While a) (actions t)) of
                ([], _) \<Rightarrow> Inl NullPointer
              | (_, []) \<Rightarrow> Inr (ice, s)
              | (_, as) \<Rightarrow> record_frame env junk ice s i (takeWhile (\<lambda>a. \<not> is_While a) (actions t)) as)
         | TRACEPOINT_ENABLED \<Rightarrow>
             if pass_count t \<noteq> 0 \<and> remaining_pass t = 0 then Inr (ice, s)
             else let ice = (if pass_count t \<noteq> 0 then upd_tp i (\<lambda>t. t\<lparr>remaining_pass := remaining_pass t - 1\<rparr>) ice else ice)
                  in record_frame env junk ice s i [] (actions t)
         | TRACEPOINT_DISABLED \<Rightarrow> Inr (ice, s))"

fun handle_tracepoints ::
  "'io cpu_env \<Rightarrow> (nat \<Rightarrow> ARMbyte) \<Rightarrow> ARMword \<Rightarrow> nat list \<Rightarrow> SkyEye_ICE \<Rightarrow> 'io ARMul_State \<Rightarrow> (SkyEye_ICE \<times> 'io ARMul_State) sim" where
  "handle_tracepoints env junk addr [] ice s = Inr (ice, s)"
| "handle_tracepoints env junk addr (i # is) ice s =
     (if tp_address (tps ice ! i) = addr \<and> tp_status (tps ice ! i) = TRACEPOINT_ENABLED \<or> tp_status (tps ice ! i) = TRACEPOINT_STEPPING
      then bind_ok (handle_tracepoint env junk ice s i) (\<lambda>(ice, s). handle_tracepoints env junk addr is ice s)
      else handle_tracepoints env junk addr is ice s)"

text \<open>
  The hook in the emulation loop: whether there is a breakpoint. \<^verbatim>\<open>debugmode\<close> is on. It also clears \<^verbatim>\<open>EndCondition\<close>, the exit
  code, which is not part of the state.
\<close>

definition ARMul_ICE_debug ::
  "'io cpu_env \<Rightarrow> (nat \<Rightarrow> ARMbyte) \<Rightarrow> SkyEye_ICE \<Rightarrow> 'io ARMul_State \<Rightarrow> ARMword \<Rightarrow> ARMword
     \<Rightarrow> (bool \<times> SkyEye_ICE \<times> 'io ARMul_State) sim" where
  "ARMul_ICE_debug env junk ice s instr addr =
     (if instr = ARMul_ABORTWORD s then Inr (False, ice, s)
      else if find_bp addr ice \<noteq> None then Inr (True, ice, s\<lparr>Emulate := STOP\<rparr>)
      else if tps_status ice = TRACE_STARTED
      then bind_ok (handle_tracepoints env junk addr [0..<num_tps ice] ice s) (\<lambda>(ice, s). Inr (False, ice, s))
      else Inr (False, ice, s))"

section \<open>Looking at frames\<close>

fun first_registers :: "collect_record option list \<Rightarrow> collect_record option sim" where
  "first_registers [] = Inr None"
| "first_registers (None # rs) = Inl Uninitialised"
| "first_registers (Some r # rs) = (case rec_ca r of CollectRegisters _ \<Rightarrow> Inr (Some r) | _ \<Rightarrow> first_registers rs)"

definition memcpy :: "ARMbyte list \<Rightarrow> ARMbyte list \<Rightarrow> nat \<Rightarrow> nat \<Rightarrow> ARMbyte list sim" where
  "memcpy to from k n = (if k + n \<le> length from then put_all to 0 (take n (drop k from)) else Inl OutOfBounds)"

definition trace_fetch_registers :: "SkyEye_ICE \<Rightarrow> ARMbyte list \<Rightarrow> ARMbyte list sim" where
  "trace_fetch_registers ice m =
     (case selected_fb ice of
        None \<Rightarrow> Inr m
      | Some k \<Rightarrow> bind_ok (first_registers (fb_records (fb ice ! k))) (\<lambda>r.
          case r of None \<Rightarrow> Inr m | Some r \<Rightarrow> memcpy m (collect_data r) 0 (unat (collect_data_length r))))"

fun covering :: "ARMword \<Rightarrow> ARMword \<Rightarrow> collect_record option list \<Rightarrow> (collect_record \<times> ARMword) option sim" where
  "covering addr len [] = Inr None"
| "covering addr len (None # rs) = Inl Uninitialised"
| "covering addr len (Some r # rs) =
     (case rec_ca r of
        CollectMemory _ offset n \<Rightarrow> if addr \<ge> offset \<and> addr + len \<le> offset + n then Inr (Some (r, addr - offset)) else covering addr len rs
      | _ \<Rightarrow> covering addr len rs)"

text \<open>\<open>False\<close> is the answer -1.\<close>

definition trace_read :: "SkyEye_ICE \<Rightarrow> ARMword \<Rightarrow> ARMbyte list \<Rightarrow> ARMword \<Rightarrow> (bool \<times> ARMbyte list) sim" where
  "trace_read ice addr buf len =
     (case selected_fb ice of
        None \<Rightarrow> Inr (False, buf)
      | Some k \<Rightarrow> bind_ok (covering addr len (fb_records (fb ice ! k))) (\<lambda>r.
          case r of
            None \<Rightarrow> Inr (False, buf)
          | Some (r, k) \<Rightarrow> bind_ok (memcpy buf (collect_data r) (unat k) (unat len)) (\<lambda>buf. Inr (True, buf))))"

definition select_frame_buffer_by_fn :: "ARMword \<Rightarrow> SkyEye_ICE \<Rightarrow> ARMword option \<times> SkyEye_ICE" where
  "select_frame_buffer_by_fn n ice =
     (if sint n > sint (num_fb ice) then (None, ice)
      else let ice = ice\<lparr>selected_fb := (if fb ice = [] then None else Some 0)\<rparr>
           in case find (\<lambda>k. frame_number (fb ice ! k) = n) [0..<length (fb ice)] of
                None \<Rightarrow> (None, ice)
              | Some k \<Rightarrow> (Some (tp_number (fb ice ! k)), ice\<lparr>selected_fb := Some k\<rparr>))"

definition select_frame_buffer_by_tpn :: "ARMword \<Rightarrow> SkyEye_ICE \<Rightarrow> ARMword option \<times> SkyEye_ICE" where
  "select_frame_buffer_by_tpn n ice =
     (let ice = (if selected_fb ice = None then ice\<lparr>selected_fb := (if fb ice = [] then None else Some 0)\<rparr> else ice)
      in case selected_fb ice of
           None \<Rightarrow> (None, ice)
         | Some j \<Rightarrow>
             (case find (\<lambda>k. tp_number (fb ice ! k) = n) [Suc j..<length (fb ice)] of
                None \<Rightarrow> (None, ice)
              | Some k \<Rightarrow> (Some (frame_number (fb ice ! k)), ice\<lparr>selected_fb := Some k\<rparr>)))"

section \<open>Breakpoints are a set\<close>

text \<open>
  The contract of a bounded set: what the debugger relies on when it sets and clears breakpoints one after another.
\<close>

datatype 'a set_cmd = Insert 'a | Remove 'a

fun set_run :: "('a \<Rightarrow> 's \<Rightarrow> int \<times> 's) \<Rightarrow> ('a \<Rightarrow> 's \<Rightarrow> int \<times> 's) \<Rightarrow> 'a set_cmd list \<Rightarrow> 's \<Rightarrow> 's" where
  "set_run ins del [] s = s"
| "set_run ins del (Insert a # cs) s = set_run ins del cs (snd (ins a s))"
| "set_run ins del (Remove a # cs) s = set_run ins del cs (snd (del a s))"

fun set_spec :: "nat \<Rightarrow> 'a set_cmd list \<Rightarrow> 'a set \<Rightarrow> 'a set" where
  "set_spec cap [] A = A"
| "set_spec cap (Insert a # cs) A = set_spec cap cs (if card A < cap then insert a A else A)"
| "set_spec cap (Remove a # cs) A = set_spec cap cs (A - {a})"

locale bounded_set =
  fixes ins del :: "'a \<Rightarrow> 's \<Rightarrow> int \<times> 's"
    and isin :: "'s \<Rightarrow> 'a \<Rightarrow> bool"
    and abs :: "'s \<Rightarrow> 'a set"
    and invar :: "'s \<Rightarrow> bool"
    and cap :: nat
  assumes ins_law: "invar s \<Longrightarrow> ins a s = (r, t) \<Longrightarrow> invar t \<and> abs t = (if card (abs s) < cap then insert a (abs s) else abs s) \<and>
      (r < 0 \<longleftrightarrow> a \<notin> abs t)"
    and del_law: "invar s \<Longrightarrow> del a s = (r, t) \<Longrightarrow> invar t \<and> abs t = abs s - {a} \<and> 0 \<le> r"
    and isin_law: "invar s \<Longrightarrow> isin s a \<longleftrightarrow> a \<in> abs s"
begin

lemma run_refines: "invar s \<Longrightarrow> invar (set_run ins del cs s) \<and> abs (set_run ins del cs s) = set_spec cap cs (abs s)"
proof (induction cs arbitrary: s)
  case (Cons c cs)
  show ?case
  proof (cases c)
    case (Insert a)
    then show ?thesis using Cons ins_law [OF Cons.prems, of a "fst (ins a s)" "snd (ins a s)"] by simp
  next
    case (Remove a)
    then show ?thesis using Cons del_law [OF Cons.prems, of a "fst (del a s)" "snd (del a s)"] by simp
  qed
qed simp

lemma isin_run: "invar s \<Longrightarrow> isin (set_run ins del cs s) a \<longleftrightarrow> a \<in> set_spec cap cs (abs s)"
  using run_refines isin_law by blast

end

definition bp_set :: "SkyEye_ICE \<Rightarrow> ARMword set" where
  "bp_set ice = set (take (num_bps ice) (bps ice))"

definition bp_ok :: "SkyEye_ICE \<Rightarrow> bool" where
  "bp_ok ice \<longleftrightarrow> length (bps ice) = MAX_BREAKPOINTS \<and> num_bps ice \<le> MAX_BREAKPOINTS \<and> distinct (take (num_bps ice) (bps ice))"

lemma bp_set_nth: "bp_ok ice \<Longrightarrow> bp_set ice = (\<lambda>i. bps ice ! i) ` {0..<num_bps ice}"
  by (simp add: bp_set_def bp_ok_def nth_image [symmetric])

lemma bp_set_card: "bp_ok ice \<Longrightarrow> card (bp_set ice) = num_bps ice"
  by (simp add: bp_set_def bp_ok_def distinct_card)

lemma find_bp_None: "bp_ok ice \<Longrightarrow> find_bp a ice = None \<longleftrightarrow> a \<notin> bp_set ice"
  by (auto simp: find_bp_def find_None_iff bp_set_nth)

lemma find_bp_Some: "find_bp a ice = Some i \<Longrightarrow> i < num_bps ice \<and> bps ice ! i = a"
  by (auto simp: find_bp_def find_Some_iff)

lemma insert_law:
  assumes "bp_ok ice" "sim_ice_breakpoint_insert a ice = (r, ice')"
  shows "bp_ok ice' \<and> bp_set ice' = (if card (bp_set ice) < MAX_BREAKPOINTS then insert a (bp_set ice) else bp_set ice) \<and>
    (r < 0 \<longleftrightarrow> a \<notin> bp_set ice')"
proof (cases "find_bp a ice")
  case None
  then have "a \<notin> bp_set ice" using find_bp_None assms(1) by blast
  then show ?thesis
    using assms None bp_set_card [OF assms(1)]
    by (auto simp: sim_ice_breakpoint_insert_def bp_ok_def bp_set_def take_Suc_conv_app_nth split: if_splits)
next
  case (Some i)
  then have "a \<in> bp_set ice" using find_bp_None [OF assms(1), of a] by auto
  then show ?thesis using assms Some by (auto simp: sim_ice_breakpoint_insert_def)
qed

lemma remove_law:
  assumes "bp_ok ice" "sim_ice_breakpoint_remove a ice = (r, ice')"
  shows "bp_ok ice' \<and> bp_set ice' = bp_set ice - {a} \<and> 0 \<le> r"
proof (cases "find_bp a ice")
  case None
  then show ?thesis using assms find_bp_None [OF assms(1), of a] by (auto simp: sim_ice_breakpoint_remove_def)
next
  case (Some i)
  let ?n = "num_bps ice - 1"
  have i: "i < num_bps ice" "bps ice ! i = a" using find_bp_Some [OF Some] by auto
  have ok: "length (bps ice) = 16" "num_bps ice \<le> 16" "distinct (take (num_bps ice) (bps ice))"
    using assms(1) by (auto simp: bp_ok_def MAX_BREAKPOINTS_def)
  have t: "take (num_bps ice) (bps ice) = take ?n (bps ice) @ [bps ice ! ?n]"
    using i(1) ok(2) ok(1) by (cases "num_bps ice") (auto simp: take_Suc_conv_app_nth)
  have new: "num_bps ice' = ?n" "bps ice' = (if i < ?n then (bps ice)[i := bps ice ! ?n] else bps ice)" "0 \<le> r"
    using assms(2) Some by (auto simp: sim_ice_breakpoint_remove_def Let_def)
  show ?thesis
  proof (cases "i < ?n")
    case True
    have d: "distinct (take ?n (bps ice))" "bps ice ! ?n \<notin> set (take ?n (bps ice))" using ok(3) unfolding t by auto
    have "take ?n (bps ice') = (take ?n (bps ice))[i := bps ice ! ?n]" using new(2) True by (simp add: take_update_swap)
    moreover have "set ((take ?n (bps ice))[i := bps ice ! ?n]) = insert (bps ice ! ?n) (set (take ?n (bps ice)) - {a})"
      using d(1) True i(2) ok(1,2) by (subst set_update_distinct) auto
    moreover have "distinct ((take ?n (bps ice))[i := bps ice ! ?n])" using d by (intro distinct_list_update) auto
    ultimately show ?thesis
      using new ok d True i(2) by (auto simp: bp_ok_def bp_set_def t MAX_BREAKPOINTS_def)
  next
    case False
    then have "a = bps ice ! ?n" using i by (metis Suc_pred' less_antisym less_nat_zero_code neq0_conv)
    then show ?thesis using new False ok unfolding bp_set_def bp_ok_def t by (auto simp: MAX_BREAKPOINTS_def t)
  qed
qed

interpretation bp: bounded_set sim_ice_breakpoint_insert sim_ice_breakpoint_remove "\<lambda>ice a. find_bp a ice \<noteq> None" bp_set bp_ok
  MAX_BREAKPOINTS
  by unfold_locales (blast dest: insert_law, blast dest: remove_law, metis find_bp_None)

section \<open>The hook in the loop\<close>

text \<open>A part \<open>g\<close> of the processor that reading memory for the debugger leaves alone.\<close>

definition reads_keep :: "'io cpu_env \<Rightarrow> ('io ARMul_State \<Rightarrow> 'v) \<Rightarrow> bool" where
  "reads_keep env g \<longleftrightarrow> (\<forall>s a f v t. ARMul_ICE_ReadByte env s a = Inr (f, v, t) \<longrightarrow> g t = g s)"

text \<open>A tracepoint acts on the instruction at \<open>addr\<close>.\<close>

definition traces_at :: "SkyEye_ICE \<Rightarrow> ARMword \<Rightarrow> bool" where
  "traces_at ice addr \<longleftrightarrow> tps_status ice = TRACE_STARTED \<and> (\<exists>k<num_tps ice.
     tp_address (tps ice ! k) = addr \<and> tp_status (tps ice ! k) = TRACEPOINT_ENABLED \<or> tp_status (tps ice ! k) = TRACEPOINT_STEPPING)"

lemma ice_read_keeps:
  assumes "reads_keep env g"
  shows "ice_read_bytes env s a buf i n = Inr (ok, m, t) \<Longrightarrow> g t = g s"
proof (induction n arbitrary: s a buf i)
  case (Suc n)
  then show ?case using assms unfolding reads_keep_def by (fastforce simp: bind_ok_def split: sum.splits if_splits)
qed simp

lemma do_action_keeps:
  assumes "reads_keep env g" "do_action env junk s ca f = Inr (f', t)"
  shows "g t = g s"
  using assms(2) ice_read_keeps [OF assms(1)] by (fastforce simp: do_action_def sim_read_def bind_ok_def split: collect_action.splits sum.splits)

lemma do_action_list_keeps:
  "do_action_list env junk st xs = Inr (r, ys) \<Longrightarrow> reads_keep env g \<Longrightarrow> g (fst r) = g (fst st)"
proof (induction env junk st xs arbitrary: r ys rule: do_action_list.induct)
  case (3 env junk s status f ca xs)
  from "3.prems"(1) obtain f1 s1 zs where a: "do_action env junk s ca f = Inr (f1, s1)"
    and l: "do_action_list env junk (s1, status, f1) xs = Inr (r, zs)"
    by (auto simp: bind_ok_def split: sum.splits)
  have "g (fst r) = g s1" using "3.IH" l "3.prems"(2) by fastforce
  then show ?case using do_action_keeps [OF "3.prems"(2) a] by simp
next
  case (4 env junk s status f n k ch xs)
  let ?w = "if k \<noteq> 0 then do_action_list env junk (s, TRACEPOINT_STEPPING, f) ch else Inr ((s, status, f), ch)"
  from "4.prems"(1) obtain s1 status1 f1 ch1 where a: "?w = Inr ((s1, status1, f1), ch1)"
    by (cases ?w) (auto simp: bind_ok_def simp del: if_split)
  let ?k = "if k \<noteq> 0 then k - 1 else k"
  obtain status2 k2 where e: "(status2, k2) = (if ?k = 0 then (TRACEPOINT_ENABLED, n) else (status1, ?k))" by (metis surj_pair)
  obtain zs where l: "do_action_list env junk (s1, status2, f1) xs = Inr (r, zs)"
    using "4.prems"(1) a unfolding do_action_list.simps Let_def
    by (auto simp: bind_ok_def e [symmetric] simp del: if_split split: sum.splits)
  have "g s1 = g s" using a "4.IH"(1) "4.prems"(2) by (fastforce split: if_splits)
  moreover have "g (fst r) = g s1" using "4.IH"(2) [OF refl refl e l "4.prems"(2)] by simp
  ultimately show ?case by simp
qed simp_all

lemma record_frame_effect:
  assumes "record_frame env junk ice s i pre as = Inr (ice', t)"
  shows "bps ice' = bps ice" "num_bps ice' = num_bps ice" "reads_keep env g \<Longrightarrow> g t = g s"
  using assms do_action_list_keeps [where g = g] by (fastforce simp: record_frame_def upd_tp_def bind_ok_def Let_def split: sum.splits)+

lemma handle_tracepoint_effect:
  assumes "handle_tracepoint env junk ice s i = Inr (ice', t)"
  shows "bps ice' = bps ice \<and> num_bps ice' = num_bps ice \<and> (reads_keep env g \<longrightarrow> g t = g s)"
  using assms record_frame_effect [of env junk]
  by (fastforce simp: handle_tracepoint_def upd_tp_def Let_def split: tracepoint_status.splits list.splits if_splits)

lemma handle_tracepoints_effect:
  "handle_tracepoints env junk addr is ice s = Inr (ice', t) \<Longrightarrow>
    bps ice' = bps ice \<and> num_bps ice' = num_bps ice \<and> (reads_keep env g \<longrightarrow> g t = g s)"
proof (induction "is" arbitrary: ice s)
  case (Cons i "is")
  then show ?case using handle_tracepoint_effect [of env junk ice s i _ _ g] by (fastforce simp: bind_ok_def split: sum.splits if_splits)
qed simp

lemma handle_tracepoints_idle:
  assumes "\<not> traces_at ice addr" "tps_status ice = TRACE_STARTED"
  shows "handle_tracepoints env junk addr [0..<num_tps ice] ice s = Inr (ice, s)"
proof -
  have "handle_tracepoints env junk addr is ice s = Inr (ice, s)" if "set is \<subseteq> {..<num_tps ice}" for "is"
    using that assms by (induction "is") (auto simp: traces_at_def)
  then show ?thesis by (simp add: lessThan_atLeast0)
qed

lemma hook_effect:
  assumes "ARMul_ICE_debug env junk ice s instr addr = Inr (bp, ice', t)"
  shows "bps ice' = bps ice" "num_bps ice' = num_bps ice" "\<not> bp \<Longrightarrow> reads_keep env g \<Longrightarrow> g t = g s"
  using assms handle_tracepoints_effect [of env junk addr "[0..<num_tps ice]" ice s ice' t g]
  by (auto simp: ARMul_ICE_debug_def bind_ok_def split: sum.splits if_splits)

lemma hook_idle:
  assumes "find_bp addr ice = None" "\<not> traces_at ice addr"
  shows "ARMul_ICE_debug env junk ice s instr addr = Inr (False, ice, s)"
  using assms by (simp add: ARMul_ICE_debug_def handle_tracepoints_idle)

lemma hook_stops:
  assumes "ARMul_ICE_debug env junk ice s instr addr = Inr (bp, ice', t)" "instr \<noteq> ARMul_ABORTWORD s"
  shows "bp \<longleftrightarrow> find_bp addr ice \<noteq> None"
  using assms by (auto simp: ARMul_ICE_debug_def bind_ok_def split: sum.splits if_splits)

lemma same_bps:
  assumes "bps ice' = bps ice" "num_bps ice' = num_bps ice"
  shows "bp_ok ice' = bp_ok ice" "bp_set ice' = bp_set ice"
  using assms by (simp_all add: bp_ok_def bp_set_def)

text \<open>
  C21: the breakpoints are a set of at most sixteen addresses. After any sequence of insertions and removals, the
  hook in the emulation loop stops the processor at an address exactly when the address is in the set that these
  commands build, where an insertion into a full set changes nothing, whether or not a trace is running. At every other address it lets the
  processor go on: where no tracepoint acts it changes nothing at all, and where one does, and the collection succeeds, the breakpoints
  stay and so does every part of the processor that reading memory leaves alone.
\<close>

theorem breakpoints_stop:
  assumes "bp_ok ice" "instr \<noteq> ARMul_ABORTWORD s"
    "ice' = set_run sim_ice_breakpoint_insert sim_ice_breakpoint_remove cmds ice"
  shows "bp_ok ice' \<and>
    (addr \<in> set_spec MAX_BREAKPOINTS cmds (bp_set ice) \<longrightarrow> ARMul_ICE_debug env junk ice' s instr addr = Inr (True, ice', s\<lparr>Emulate := STOP\<rparr>)) \<and>
    (addr \<notin> set_spec MAX_BREAKPOINTS cmds (bp_set ice) \<longrightarrow>
      (\<not> traces_at ice' addr \<longrightarrow> ARMul_ICE_debug env junk ice' s instr addr = Inr (False, ice', s)) \<and>
      (\<forall>bp i t. ARMul_ICE_debug env junk ice' s instr addr = Inr (bp, i, t) \<longrightarrow>
         \<not> bp \<and> bp_ok i \<and> bp_set i = bp_set ice' \<and> (reads_keep env g \<longrightarrow> g t = g s)))"
proof -
  note r = bp.run_refines [OF assms(1), of cmds] bp.isin_run [OF assms(1), of addr cmds]
  have "\<not> bp \<and> bp_ok i \<and> bp_set i = bp_set ice' \<and> (reads_keep env g \<longrightarrow> g t = g s)"
    if "addr \<notin> set_spec MAX_BREAKPOINTS cmds (bp_set ice)" "ARMul_ICE_debug env junk ice' s instr addr = Inr (bp, i, t)" for bp i t
    using hook_stops [OF that(2) assms(2)] hook_effect [OF that(2)] same_bps [of i ice'] r that(1) assms(3) by metis
  moreover have "ARMul_ICE_debug env junk ice' s instr addr = Inr (True, ice', s\<lparr>Emulate := STOP\<rparr>)"
    if "addr \<in> set_spec MAX_BREAKPOINTS cmds (bp_set ice)"
    using r(2) that assms(2,3) by (simp add: ARMul_ICE_debug_def)
  moreover have "ARMul_ICE_debug env junk ice' s instr addr = Inr (False, ice', s)"
    if "addr \<notin> set_spec MAX_BREAKPOINTS cmds (bp_set ice)" "\<not> traces_at ice' addr"
    using r(2) that assms(3) by (intro hook_idle) auto
  ultimately show ?thesis using r(1) assms(3) by blast
qed

definition ice_zero :: SkyEye_ICE where
  "ice_zero = \<lparr>bps = replicate MAX_BREAKPOINTS 0, num_bps = 0, tps_status = TRACE_STARTED,
     tps = replicate MAX_TRACEPOINTS \<lparr>tp_address = 0, tp_num = 0, actions = [], tp_status = TRACEPOINT_DISABLED, pass_count = 0,
       remaining_pass = 0, remaining_step = 0\<rparr>,
     num_tps = 0, fb = [], num_fb = 0, selected_fb = None, ro_regions = []\<rparr>"

theorem breakpoints_stop_witness:
  "\<exists>ice. ARMul_ICE_debug demo_env (\<lambda>_. 0) ice mul_state 0xE1A00000 0x8004 = Inr (True, ice, mul_state\<lparr>Emulate := STOP\<rparr>) \<and>
     ARMul_ICE_debug demo_env (\<lambda>_. 0) ice mul_state 0xE1A00000 0x8000 = Inr (False, ice, mul_state) \<and> tps_status ice = TRACE_STARTED"
proof -
  let ?cmds = "[Insert 0x8000, Insert 0x8004, Insert 0x8008, Remove 0x8000]"
  let ?ice = "set_run sim_ice_breakpoint_insert sim_ice_breakpoint_remove ?cmds ice_zero"
  have b: "bp_ok ice_zero" "bp_set ice_zero = {}" by (simp_all add: bp_ok_def bp_set_def ice_zero_def)
  have i: "0xE1A00000 \<noteq> ARMul_ABORTWORD mul_state" by (simp add: ARMul_ABORTWORD_def)
  have e: "tps_status ?ice = TRACE_STARTED" "num_tps ?ice = 0"
    by (simp_all add: sim_ice_breakpoint_insert_def sim_ice_breakpoint_remove_def find_bp_def ice_zero_def MAX_BREAKPOINTS_def)
  have m: "0x8004 \<in> set_spec MAX_BREAKPOINTS ?cmds (bp_set ice_zero)" "0x8000 \<notin> set_spec MAX_BREAKPOINTS ?cmds (bp_set ice_zero)"
    by (simp_all add: b MAX_BREAKPOINTS_def)
  have "\<not> traces_at ?ice 0x8000" using e(2) by (simp add: traces_at_def del: set_run.simps)
  then have "ARMul_ICE_debug demo_env (\<lambda>_. 0) ?ice mul_state 0xE1A00000 0x8000 = Inr (False, ?ice, mul_state)"
    using breakpoints_stop [OF b(1) i refl, where addr = "0x8000" and cmds = ?cmds and env = demo_env and junk = "\<lambda>_. 0" and g = Emulate] m(2)
    by blast
  moreover have "ARMul_ICE_debug demo_env (\<lambda>_. 0) ?ice mul_state 0xE1A00000 0x8004 = Inr (True, ?ice, mul_state\<lparr>Emulate := STOP\<rparr>)"
    using breakpoints_stop [OF b(1) i refl, where addr = "0x8004" and cmds = ?cmds and env = demo_env and junk = "\<lambda>_. 0" and g = Emulate] m(1)
    by blast
  ultimately show ?thesis using e(1) by blast
qed

section \<open>The registers in memory\<close>

lemma register_byte_bounds: "0 \<le> r \<Longrightarrow> r \<le> 25 \<Longrightarrow> 0 \<le> arm_register_byte r \<and> arm_register_byte r + 4 \<le> int register_bytes"
  by (auto simp: arm_register_byte_def register_bytes_def)

lemma register_byte_less: "0 \<le> r \<Longrightarrow> r < r' \<Longrightarrow> r' \<le> 25 \<Longrightarrow> arm_register_byte r + 4 \<le> arm_register_byte r'"
  by (auto simp: arm_register_byte_def)

lemma length_tomem [simp]: "length (tomem v) = 4"
  by (simp add: tomem_def Let_def)

lemma frommem_tomem: "frommem (tomem v @ rest) = v"
  by (rule word32_eqI, simp only: all_less_32_iff) (simp add: frommem_def tomem_def endian_flag_def bit_simps)

lemma put_register_ok:
  assumes "length m = register_bytes" "0 \<le> r" "r \<le> 25"
  shows "\<exists>m'. put_register s m r = Inr m' \<and> length m' = register_bytes \<and> take 4 (drop (nat (arm_register_byte r)) m') = arm_fetch_register s r \<and>
    (\<forall>r'. 0 \<le> r' \<and> r' \<le> 25 \<and> r' \<noteq> r \<longrightarrow> take 4 (drop (nat (arm_register_byte r')) m') = take 4 (drop (nat (arm_register_byte r')) m))"
proof -
  let ?k = "nat (arm_register_byte r)" and ?bs = "arm_fetch_register s r"
  have l: "length ?bs = 4" by (simp add: arm_fetch_register_def)
  have b: "0 \<le> arm_register_byte r" "?k + 4 \<le> length m" using register_byte_bounds [OF assms(2,3)] assms(1) by auto
  let ?m = "take ?k m @ ?bs @ drop (?k + 4) m"
  have "put_register s m r = Inr ?m" using b l by (simp add: put_register_def put_all_simps)
  moreover have "length ?m = register_bytes" "take 4 (drop ?k ?m) = ?bs" using b l assms(1) by auto
  moreover have "take 4 (drop (nat (arm_register_byte r')) ?m) = take 4 (drop (nat (arm_register_byte r')) m)"
    if "0 \<le> r'" "r' \<le> 25" "r' \<noteq> r" for r'
  proof -
    let ?j = "nat (arm_register_byte r')"
    have "?j + 4 \<le> ?k \<or> ?k + 4 \<le> ?j"
      using that assms(2,3) register_byte_less [of r r'] register_byte_less [of r' r] register_byte_bounds [of r'] b(1) by (cases "r' < r") auto
    then show ?thesis using b l by (auto simp: take_drop min_def)
  qed
  ultimately show ?thesis by blast
qed

lemma put_registers_ok:
  "length m = register_bytes \<Longrightarrow> \<forall>r\<in>set rs. 0 \<le> r \<and> r \<le> 25 \<Longrightarrow>
    \<exists>m'. put_registers s m rs = Inr m' \<and> length m' = register_bytes \<and>
      (\<forall>r. 0 \<le> r \<and> r \<le> 25 \<longrightarrow> take 4 (drop (nat (arm_register_byte r)) m') =
         (if r \<in> set rs then arm_fetch_register s r else take 4 (drop (nat (arm_register_byte r)) m)))"
proof (induction rs arbitrary: m)
  case (Cons r rs)
  obtain m1 where m1: "put_register s m r = Inr m1" "length m1 = register_bytes"
      "take 4 (drop (nat (arm_register_byte r)) m1) = arm_fetch_register s r"
      "\<forall>r'. 0 \<le> r' \<and> r' \<le> 25 \<and> r' \<noteq> r \<longrightarrow> take 4 (drop (nat (arm_register_byte r')) m1) = take 4 (drop (nat (arm_register_byte r')) m)"
    using put_register_ok [OF Cons.prems(1), of r s] Cons.prems(2) by auto
  then show ?case using Cons.IH [OF m1(2)] Cons.prems(2) by auto
qed auto

text \<open>An array that holds the registers of a state.\<close>

definition holds_registers :: "ARMbyte list \<Rightarrow> 'io ARMul_State \<Rightarrow> bool" where
  "holds_registers m s \<longleftrightarrow> length m = register_bytes \<and> (\<forall>r<16. frommem (drop (4 * r) m) = ARMul_GetReg s (Mode s) r) \<and>
     frommem (drop 164 m) = ARMul_GetCPSR s"

lemma fetch_all_registers:
  assumes "length m = register_bytes"
  shows "\<exists>m'. fetch_inferior_registers s (-1) m = Inr m' \<and> holds_registers m' s"
proof -
  obtain m' where m: "put_registers s m [0..25] = Inr m'" "length m' = register_bytes"
    and r: "\<And>r. 0 \<le> r \<Longrightarrow> r \<le> 25 \<Longrightarrow> take 4 (drop (nat (arm_register_byte r)) m') = arm_fetch_register s r"
    using put_registers_ok [OF assms, of "[0..25]" s] by auto
  have f: "frommem (drop k m') = frommem (take 4 (drop k m') @ drop 4 (drop k m'))" for k by (simp only: append_take_drop_id)
  have "frommem (drop (4 * r) m') = ARMul_GetReg s (Mode s) r" if "r < 16" for r
    using r [of "int r"] that by (subst f) (simp add: arm_register_byte_def arm_fetch_register_def frommem_tomem nat_mult_distrib mult.commute del: append_take_drop_id)
  moreover have "frommem (drop 164 m') = ARMul_GetCPSR s"
    using r [of 25] by (subst f) (simp add: arm_register_byte_def arm_fetch_register_def frommem_tomem del: append_take_drop_id)
  ultimately show ?thesis using m by (simp add: fetch_inferior_registers_def holds_registers_def)
qed

section \<open>Tracepoints\<close>

text \<open>The tracepoint \<open>i\<close> is passed, in the states \<open>ss\<close> one after another.\<close>

fun passes :: "'io cpu_env \<Rightarrow> (nat \<Rightarrow> ARMbyte) \<Rightarrow> nat \<Rightarrow> 'io ARMul_State list \<Rightarrow> SkyEye_ICE \<Rightarrow> SkyEye_ICE sim" where
  "passes env junk i [] ice = Inr ice"
| "passes env junk i (s # ss) ice = bind_ok (handle_tracepoint env junk ice s i) (\<lambda>(ice, s). passes env junk i ss ice)"

definition numbered :: "SkyEye_ICE \<Rightarrow> bool" where
  "numbered ice \<longleftrightarrow> num_fb ice = of_nat (length (fb ice)) \<and> (\<forall>k<length (fb ice). frame_number (fb ice ! k) = of_nat k)"

text \<open>A frame that holds the registers of a state, recorded by the tracepoint with number \<open>n\<close>.\<close>

definition register_frame :: "ARMword \<Rightarrow> 'io ARMul_State \<Rightarrow> frame_buffer \<Rightarrow> bool" where
  "register_frame n s f \<longleftrightarrow> tp_number f = n \<and> (\<exists>r ca. fb_records f = [Some r] \<and> rec_ca r = CollectRegisters ca \<and>
     collect_data_length r = of_nat register_bytes \<and> holds_registers (collect_data r) s)"

lemma collect_registers:
  assumes "i < length (tps ice)" "actions (tps ice ! i) = [Collect (CollectRegisters ca)]" "numbered ice"
  shows "\<exists>f. record_frame env junk ice s i [] (actions (tps ice ! i)) = Inr (ice\<lparr>fb := fb ice @ [f], num_fb := num_fb ice + 1\<rparr>, s) \<and>
    register_frame (tp_num (tps ice ! i)) s f \<and> numbered (ice\<lparr>fb := fb ice @ [f], num_fb := num_fb ice + 1\<rparr>)"
proof -
  have "length (malloc_bytes junk register_bytes) = register_bytes" by (simp add: malloc_bytes_def)
  from fetch_all_registers [OF this, of s] obtain m where
    m: "fetch_inferior_registers s (-1) (malloc_bytes junk register_bytes) = Inr m" "holds_registers m s" by blast
  let ?f = "\<lparr>tp_number = tp_num (tps ice ! i), frame_number = num_fb ice,
     fb_records = [Some \<lparr>rec_ca = CollectRegisters ca, collect_data = m, collect_data_length = of_nat register_bytes\<rparr>]\<rparr>"
  have "upd_tp i (\<lambda>t. t\<lparr>tp_status := tp_status (tps ice ! i), actions := [Collect (CollectRegisters ca)]\<rparr>) ice = ice"
    using assms(1,2) by (simp add: upd_tp_def list_update_same_conv [THEN iffD2])
  then have "record_frame env junk ice s i [] (actions (tps ice ! i)) = Inr (ice\<lparr>fb := fb ice @ [?f], num_fb := num_fb ice + 1\<rparr>, s)"
    using m(1) assms(2) by (simp add: record_frame_def do_action_def Let_def)
  moreover have "numbered (ice\<lparr>fb := fb ice @ [?f], num_fb := num_fb ice + 1\<rparr>)"
    using assms(3) by (auto simp: numbered_def nth_append less_Suc_eq)
  ultimately show ?thesis using m(2) by (auto simp: register_frame_def)
qed

lemma passes_recorded:
  "i < length (tps ice) \<Longrightarrow> actions (tps ice ! i) = [Collect (CollectRegisters ca)] \<Longrightarrow> numbered ice \<Longrightarrow>
   tp_status (tps ice ! i) = TRACEPOINT_ENABLED \<Longrightarrow> pass_count (tps ice ! i) \<noteq> 0 \<Longrightarrow>
   \<exists>ice' fs. passes env junk i ss ice = Inr ice' \<and> fb ice' = fb ice @ fs \<and> numbered ice' \<and>
     list_all2 (register_frame (tp_num (tps ice ! i))) (take (unat (remaining_pass (tps ice ! i))) ss) fs"
proof (induction ss arbitrary: ice)
  case (Cons s ss)
  let ?t = "tps ice ! i"
  show ?case
  proof (cases "remaining_pass ?t = 0")
    case True
    then have "handle_tracepoint env junk ice s i = Inr (ice, s)" using Cons.prems by (simp add: handle_tracepoint_def)
    then show ?thesis using Cons.IH [OF Cons.prems] True by simp
  next
    case False
    let ?ice = "upd_tp i (\<lambda>t. t\<lparr>remaining_pass := remaining_pass t - 1\<rparr>) ice"
    have u: "i < length (tps ?ice)" "tps ?ice ! i = ?t\<lparr>remaining_pass := remaining_pass ?t - 1\<rparr>" "numbered ?ice" "fb ?ice = fb ice"
      using Cons.prems(1,3) by (simp_all add: upd_tp_def numbered_def)
    have "actions (tps ?ice ! i) = [Collect (CollectRegisters ca)]" using u(2) Cons.prems(2) by simp
    from collect_registers [OF u(1) this u(3), of env junk s] obtain f where
      f: "record_frame env junk ?ice s i [] (actions (tps ?ice ! i)) = Inr (?ice\<lparr>fb := fb ?ice @ [f], num_fb := num_fb ?ice + 1\<rparr>, s)"
        "register_frame (tp_num (tps ?ice ! i)) s f" "numbered (?ice\<lparr>fb := fb ?ice @ [f], num_fb := num_fb ?ice + 1\<rparr>)" by blast
    let ?new = "?ice\<lparr>fb := fb ?ice @ [f], num_fb := num_fb ?ice + 1\<rparr>"
    have "handle_tracepoint env junk ice s i = Inr (?new, s)"
      using f(1) u(2) Cons.prems(4,5) False by (simp add: handle_tracepoint_def Let_def)
    moreover obtain ice' fs where "passes env junk i ss ?new = Inr ice'" "fb ice' = fb ?new @ fs" "numbered ice'"
        "list_all2 (register_frame (tp_num (tps ?new ! i))) (take (unat (remaining_pass (tps ?new ! i))) ss) fs"
      using Cons.IH [of ?new] u f(3) Cons.prems by fastforce
    moreover have "unat (remaining_pass ?t) = Suc (unat (remaining_pass ?t - 1))"
      using False by (simp add: unat_minus_one unat_gt_0 Suc_pred')
    ultimately show ?thesis using f(2) u(2,4) by (intro exI [of _ ice'] exI [of _ "f # fs"]) simp
  qed
qed simp

lemma sint_small: "n < 2 ^ 31 \<Longrightarrow> sint (of_nat n :: ARMword) = int n"
  by (simp add: signed_of_nat signed_take_bit_int_eq_self)

lemma of_nat_eq_small: "m < 2 ^ 31 \<Longrightarrow> n < 2 ^ 31 \<Longrightarrow> (of_nat m :: ARMword) = of_nat n \<longleftrightarrow> m = n"
  using sint_small by (metis of_nat_eq_iff)

lemma select_by_number:
  assumes "numbered ice" "n < 2 ^ 31" "length (fb ice) < 2 ^ 31"
  shows "n < length (fb ice) \<Longrightarrow>
      select_frame_buffer_by_fn (of_nat n) ice = (Some (tp_number (fb ice ! n)), ice\<lparr>selected_fb := Some n\<rparr>)"
    and "length (fb ice) \<le> n \<Longrightarrow> fst (select_frame_buffer_by_fn (of_nat n) ice) = None"
proof -
  have num: "num_fb ice = of_nat (length (fb ice))" "\<And>k. k < length (fb ice) \<Longrightarrow> frame_number (fb ice ! k) = of_nat n \<longleftrightarrow> k = n"
    using assms of_nat_eq_small [of _ n] by (auto simp: numbered_def)
  have le: "sint (of_nat n :: ARMword) > sint (num_fb ice) \<longleftrightarrow> length (fb ice) < n" using sint_small assms(2,3) num(1) by simp
  show "select_frame_buffer_by_fn (of_nat n) ice = (Some (tp_number (fb ice ! n)), ice\<lparr>selected_fb := Some n\<rparr>)" if "n < length (fb ice)"
  proof -
    have "find (\<lambda>k. frame_number (fb ice ! k) = of_nat n) [0..<length (fb ice)] = Some n"
      using that num(2) by (auto simp: find_Some_iff intro!: exI [of _ n])
    then show ?thesis using that le by (auto simp: select_frame_buffer_by_fn_def Let_def)
  qed
  show "fst (select_frame_buffer_by_fn (of_nat n) ice) = None" if "length (fb ice) \<le> n"
  proof -
    have "find (\<lambda>k. frame_number (fb ice ! k) = of_nat n) [0..<length (fb ice)] = None"
      using that num(2) by (auto simp: find_None_iff)
    then show ?thesis by (simp add: select_frame_buffer_by_fn_def Let_def)
  qed
qed

lemma register_frame_shown:
  assumes "register_frame n s (fb ice ! k)" "selected_fb ice = Some k" "length m = register_bytes"
  shows "\<exists>m'. trace_fetch_registers ice m = Inr m' \<and> holds_registers m' s"
proof -
  obtain r ca where r: "fb_records (fb ice ! k) = [Some r]" "rec_ca r = CollectRegisters ca"
      "collect_data_length r = of_nat register_bytes" "holds_registers (collect_data r) s"
    using assms(1) by (auto simp: register_frame_def)
  have "length (collect_data r) = register_bytes" using r(4) by (simp add: holds_registers_def)
  moreover have "unat (of_nat register_bytes :: ARMword) = register_bytes" by (simp add: register_bytes_def)
  ultimately show ?thesis using r assms(2,3) by (simp add: trace_fetch_registers_def memcpy_def put_all_simps)
qed

text \<open>
  C36: a tracepoint that collects registers records exactly as many passes as it has left, and shows them again. When an
  enabled tracepoint with a pass count is passed in the states \<open>ss\<close>, the frame with the number of a recorded pass can
  be selected, belongs to the tracepoint, and shows sixteen registers and status register of the processor at
  that pass; for the passes after the last one that counts there is no frame.
\<close>

theorem traced_registers:
  assumes "i < length (tps ice)" "actions (tps ice ! i) = [Collect (CollectRegisters ca)]" "numbered ice"
    "tp_status (tps ice ! i) = TRACEPOINT_ENABLED" "pass_count (tps ice ! i) \<noteq> 0" "length (fb ice) + length ss < 2 ^ 31"
  shows "\<exists>ice'. passes env junk i ss ice = Inr ice' \<and>
    (\<forall>k<length ss. \<forall>m. length m = register_bytes \<longrightarrow>
       (if k < unat (remaining_pass (tps ice ! i))
        then \<exists>ice'' m'. select_frame_buffer_by_fn (of_nat (length (fb ice) + k)) ice' = (Some (tp_num (tps ice ! i)), ice'') \<and>
               trace_fetch_registers ice'' m = Inr m' \<and> holds_registers m' (ss ! k)
        else fst (select_frame_buffer_by_fn (of_nat (length (fb ice) + k)) ice') = None))"
proof -
  let ?n = "unat (remaining_pass (tps ice ! i))"
  obtain ice' fs where p: "passes env junk i ss ice = Inr ice'" "fb ice' = fb ice @ fs" "numbered ice'"
      "list_all2 (register_frame (tp_num (tps ice ! i))) (take ?n ss) fs"
    using passes_recorded [OF assms(1-5)] by blast
  have l: "length fs = min (length ss) ?n" using p(4) by (simp add: list_all2_lengthD [symmetric])
  have len: "length (fb ice') < 2 ^ 31" using p(2) l assms(6) by simp
  have "\<exists>ice'' m'. select_frame_buffer_by_fn (of_nat (length (fb ice) + k)) ice' = (Some (tp_num (tps ice ! i)), ice'') \<and>
      trace_fetch_registers ice'' m = Inr m' \<and> holds_registers m' (ss ! k)"
    if k: "k < length ss" "k < ?n" and m: "length m = register_bytes" for k m
  proof -
    have f: "register_frame (tp_num (tps ice ! i)) (ss ! k) (fb ice' ! (length (fb ice) + k))"
      using list_all2_nthD [OF p(4), of k] k p(2) by simp
    let ?ice = "ice'\<lparr>selected_fb := Some (length (fb ice) + k)\<rparr>"
    have "select_frame_buffer_by_fn (of_nat (length (fb ice) + k)) ice' = (Some (tp_num (tps ice ! i)), ?ice)"
      using select_by_number(1) [OF p(3) _ len, of "length (fb ice) + k"] f k assms(6) l p(2) by (simp add: register_frame_def)
    then show ?thesis using register_frame_shown [of _ _ ?ice, OF _ _ m] f by auto
  qed
  moreover have "fst (select_frame_buffer_by_fn (of_nat (length (fb ice) + k)) ice') = None" if "k < length ss" "?n \<le> k" for k
    using select_by_number(2) [OF p(3) _ len, of "length (fb ice) + k"] that assms(6) l p(2) by simp
  ultimately show ?thesis using p(1) by auto
qed

definition trace_state :: SkyEye_ICE where
  "trace_state = ice_zero\<lparr>tps := [\<lparr>tp_address = 0x8000, tp_num = 3, actions = [Collect (CollectRegisters 0)],
     tp_status = TRACEPOINT_ENABLED, pass_count = 1, remaining_pass = 1, remaining_step = 0\<rparr>], num_tps := 1\<rparr>"

theorem traced_registers_witness:
  "\<exists>ice. passes demo_env (\<lambda>_. 0) 0 [mul_state, mul_state\<lparr>Reg := (\<lambda>_. 7)\<rparr>] trace_state = Inr ice \<and>
     fst (select_frame_buffer_by_fn 0 ice) = Some 3 \<and> fst (select_frame_buffer_by_fn 1 ice) = None"
proof -
  let ?ss = "[mul_state, mul_state\<lparr>Reg := (\<lambda>_. 7)\<rparr>]"
  have f: "fb trace_state = []" "numbered trace_state" "0 < length (tps trace_state)" "tp_num (tps trace_state ! 0) = 3"
    "actions (tps trace_state ! 0) = [Collect (CollectRegisters 0)]" "tp_status (tps trace_state ! 0) = TRACEPOINT_ENABLED"
    "pass_count (tps trace_state ! 0) \<noteq> 0" "remaining_pass (tps trace_state ! 0) = 1"
    by (simp_all add: trace_state_def ice_zero_def numbered_def)
  have "length (fb trace_state) + length ?ss < 2 ^ 31" by (simp add: f(1))
  from traced_registers [OF f(3,5,2,6,7) this, of demo_env "\<lambda>_. 0"] obtain ice where
    ice: "passes demo_env (\<lambda>_. 0) 0 ?ss trace_state = Inr ice" and k: "\<forall>k<length ?ss. \<forall>m. length m = register_bytes \<longrightarrow>
       (if k < unat (remaining_pass (tps trace_state ! 0))
        then \<exists>ice'' m'. select_frame_buffer_by_fn (of_nat (length (fb trace_state) + k)) ice = (Some (tp_num (tps trace_state ! 0)), ice'') \<and>
               trace_fetch_registers ice'' m = Inr m' \<and> holds_registers m' (?ss ! k)
        else fst (select_frame_buffer_by_fn (of_nat (length (fb trace_state) + k)) ice) = None)" by blast
  have "fst (select_frame_buffer_by_fn 0 ice) = Some 3"
    using k [rule_format, of 0 "replicate register_bytes 0"] by (auto simp: f)
  moreover have "fst (select_frame_buffer_by_fn 1 ice) = None"
    using k [rule_format, of 1 "replicate register_bytes 0"] by (simp add: f)
  ultimately show ?thesis using ice by blast
qed

end
