(* ===== verification/Gdb_Loop.thy ===== *)
theory Gdb_Loop
  imports Gdb_Ice
begin

text \<open>
  The emulation loop of \<^verbatim>\<open>armemu.c\<close> with the debugger attached (\<^verbatim>\<open>debugmode\<close>): the hook for breakpoints and tracepoints
  in the fetch, and the poll of the connection. Without breakpoints, tracepoints and input it is the loop of
  \<open>Arm_Emulate\<close>.
\<close>

unbundle bit_operations_syntax

section \<open>State and environment\<close>

text \<open>
  \<open>ready\<close> says whether the poll with a given number finds input; \<open>tx_ok\<close> which writes to the connection succeed; \<open>heap\<close> is
  the content of fresh memory.
\<close>

record 'io dbg_env =
  emu :: "'io emu_env"
  ready :: "nat \<Rightarrow> bool"
  tx_ok :: "nat \<Rightarrow> bool"
  heap :: "nat \<Rightarrow> ARMbyte"

record debugger =
  ice :: SkyEye_ICE
  link :: conn
  polls :: nat
  remote_interrupt_test_time :: ARMword
  saved_decoded_addr :: ARMword
  saved_loaded_addr :: ARMword

text \<open>The local variables of the loop, with the addresses of the instructions in the pipeline.\<close>

record dpipe =
  pipe :: pipeline
  decoded_addr :: ARMword
  loaded_addr :: ARMword

type_synonym 'io dstate = "dpipe \<times> 'io ARMul_State \<times> debugger"

text \<open>Any input interrupts, and up to 100 bytes of it are lost.\<close>

definition remote_interrupt :: "'io dbg_env \<Rightarrow> debugger \<Rightarrow> bool \<times> debugger" where
  "remote_interrupt x d =
     (let k = polls d; d = d\<lparr>polls := k + 1\<rparr>
      in if ready x k then (True, d\<lparr>link := snd (Read 100 (link d))\<rparr>) else (False, d))"

section \<open>Fetching\<close>

definition hook ::
  "'io dbg_env \<Rightarrow> 'io ARMul_State \<Rightarrow> debugger \<Rightarrow> ARMword \<Rightarrow> ARMword \<Rightarrow> (bool \<times> debugger \<times> 'io ARMul_State) sim" where
  "hook x s d instr addr =
     bind_ok (ARMul_ICE_debug (cpu (emu x)) (heap x) (ice d) s instr addr) (\<lambda>(bp, i, s). Inr (bp, d\<lparr>ice := i\<rparr>, s))"

definition advance_debug ::
  "bool \<Rightarrow> bool \<Rightarrow> 'io dbg_env \<Rightarrow> dpipe \<Rightarrow> 'io ARMul_State \<Rightarrow> debugger \<Rightarrow> (bool \<times> ARMword \<times> 'io dstate) sim" where
  "advance_debug incpc nonseq x p s d =
     (let isz = isize s; s = (if incpc then set_reg 15 (Reg s 15 + isz) s else s); pc = l_pc (pipe p) + isz; instr = l_decoded (pipe p)
      in bind_ok (hook x s d instr (decoded_addr p)) (\<lambda>(bp, d, s).
         bind_ok ((if nonseq then ARMul_LoadInstrN else ARMul_LoadInstrS) (cpu (emu x)) s (pc + isz * 2) isz) (\<lambda>(loaded, s).
           Inr (bp, instr,
                p\<lparr>pipe := (pipe p)\<lparr>l_pc := pc, l_decoded := l_loaded (pipe p), l_loaded := loaded\<rparr>,
                  decoded_addr := loaded_addr p, loaded_addr := pc + isz * 2\<rparr>,
                if incpc \<and> \<not> nonseq then s else s\<lparr>NextInstr := 0\<rparr>, d))))"

definition refill_debug ::
  "bool \<Rightarrow> 'io dbg_env \<Rightarrow> dpipe \<Rightarrow> 'io ARMul_State \<Rightarrow> debugger \<Rightarrow> (bool \<times> ARMword \<times> 'io dstate) sim" where
  "refill_debug resume x p s d =
     (let isz = isize s; pc = Reg s 15;
          s = (set_reg 15 (pc + isz * 2) s)\<lparr>Aborted := 0, AbortAddr := 1\<rparr>;
          first = (if resume then ARMul_ReLoadInstr else ARMul_LoadInstrN);
          rest = (if resume then ARMul_ReLoadInstr else ARMul_LoadInstrS)
      in bind_ok (first (cpu (emu x)) s pc isz) (\<lambda>(instr, s).
         bind_ok (hook x s d instr pc) (\<lambda>(bp, d, s).
         bind_ok (rest (cpu (emu x)) s (pc + isz) isz) (\<lambda>(decoded, s).
         bind_ok (rest (cpu (emu x)) s (pc + isz * 2) isz) (\<lambda>(loaded, s).
           Inr (bp, instr,
                p\<lparr>pipe := (pipe p)\<lparr>l_pc := pc, l_decoded := decoded, l_loaded := loaded\<rparr>, decoded_addr := pc + isz,
                  loaded_addr := pc + isz * 2\<rparr>,
                s\<lparr>NextInstr := 0\<rparr>, d))))))"

definition fetch_debug :: "'io dbg_env \<Rightarrow> 'io dstate \<Rightarrow> (bool \<times> ARMword \<times> 'io dstate) sim" where
  "fetch_debug x = (\<lambda>(p, s, d).
     let s = s\<lparr>isize := INSN_SIZE s\<rparr>; n = NextInstr s
     in if n = 0 then advance_debug True False x p s d
        else if n = 1 then advance_debug True True x p s d
        else if n = 2 then advance_debug False False x p s d
        else if n = 3 then advance_debug False True x p s d
        else refill_debug (n = RESUME) x p s d)"

section \<open>One turn\<close>

text \<open>The variable \<^verbatim>\<open>instr\<close> after Thumb decoding.\<close>

definition executed_instr :: "ARMword \<Rightarrow> 'io ARMul_State \<Rightarrow> ARMword \<Rightarrow> ARMword" where
  "executed_instr pc s instr =
     (if TFlag s \<noteq> 0 then case ARMul_ThumbDecode s pc instr of (t_decoded, new, _) \<Rightarrow> new | _ \<Rightarrow> instr else instr)"

definition poll_debugger :: "'io dbg_env \<Rightarrow> ARMword \<Rightarrow> 'io ARMul_State \<Rightarrow> debugger \<Rightarrow> 'io ARMul_State \<times> debugger" where
  "poll_debugger x instr s d =
     (if instr = ARMul_ABORTWORD s then (s, d)
      else let t = remote_interrupt_test_time d + 1
           in if t \<ge> 2000
              then let (hit, d) = remote_interrupt x (d\<lparr>remote_interrupt_test_time := 0\<rparr>)
                   in (if hit then s\<lparr>Emulate := STOP\<rparr> else s, d)
              else (s, d\<lparr>remote_interrupt_test_time := t\<rparr>))"

text \<open>From the label \<^verbatim>\<open>TEST_EMULATE\<close>: whether the loop goes on.\<close>

definition test_emulate :: "'io dbg_env \<Rightarrow> 'io ARMul_State \<Rightarrow> bool \<times> 'io ARMul_State" where
  "test_emulate x s =
     (if Emulate s = ONCE then (\<not> stop_simulator (emu x) s, s\<lparr>Emulate := STOP\<rparr>)
      else if Emulate s \<noteq> RUN then (False, s) else (\<not> stop_simulator (emu x) s, s))"

definition debug_step :: "'io dbg_env \<Rightarrow> 'io dstate \<Rightarrow> (bool \<times> 'io dstate) sim" where
  "debug_step x st =
     bind_ok (fetch_debug x st) (\<lambda>(bp, instr, p, s, d).
       if bp then let (go, s) = test_emulate x s in Inr (go, p, s, d)
       else let s = (if EventSet s \<noteq> 0 then ARMul_EnvokeEvent (event_fun (emu x)) s else s);
                (pending, s) = IntPending s
            in if pending then Inr (False, p, s, d)
               else if Emulate s < ONCE then Inr (False, p, s\<lparr>NextInstr := RESUME\<rparr>, d)
               else bind_ok (io_do_cycle (emu x) (pipe p) s) (\<lambda>(q, s).
                      let s = s\<lparr>NumInstrs := NumInstrs s + 1\<rparr>; instr' = executed_instr (l_pc q) s instr
                      in bind_ok (decode_execute (cpu (emu x)) (l_pc q) s instr) (\<lambda>s.
                           let (s, d) = poll_debugger x instr' s d; (go, s) = test_emulate x s
                           in Inr (go, p\<lparr>pipe := q\<rparr>, s, d))))"

section \<open>The loop\<close>

partial_function (option) debug_loop :: "'io dbg_env \<Rightarrow> 'io dstate \<Rightarrow> 'io dstate sim option" where
  "debug_loop x st =
     (case debug_step x st of
        Inl e \<Rightarrow> Some (Inl e)
      | Inr (go, st') \<Rightarrow> if go then debug_loop x st' else Some (Inr st'))"

definition debug_Emulate32 ::
  "'io dbg_env \<Rightarrow> int \<Rightarrow> 'io ARMul_State \<times> debugger \<Rightarrow> (ARMword \<times> int \<times> 'io ARMul_State \<times> debugger) sim option" where
  "debug_Emulate32 x pre = (\<lambda>(s, d).
     let keep = NextInstr s < PRIMEPIPE;
         p = \<lparr>pipe = \<lparr>l_pc = (if keep then pipe_pc s else 0), l_decoded = (if keep then pipe_decoded s else 0),
                       l_loaded = (if keep then pipe_loaded s else 0), prescale = pre\<rparr>,
              decoded_addr = (if keep then saved_decoded_addr d else 0), loaded_addr = (if keep then saved_loaded_addr d else 0)\<rparr>
     in case debug_loop x (p, s, d) of
          None \<Rightarrow> None
        | Some (Inl e) \<Rightarrow> Some (Inl e)
        | Some (Inr (p, s, d)) \<Rightarrow>
            let q = pipe p
            in Some (Inr (l_pc q, prescale q, s\<lparr>pipe_decoded := l_decoded q, pipe_loaded := l_loaded q, pipe_pc := l_pc q\<rparr>,
                          d\<lparr>saved_decoded_addr := decoded_addr p, saved_loaded_addr := loaded_addr p\<rparr>)))"

text \<open>
  The 26-bit interpreter is the parameter \<open>emulate26\<close> of \<open>Arm_Emulate\<close>, without its debugger: the source compiles the hook into it
  too, but the mode is not modelled.
\<close>

definition debug_Emulate ::
  "'io dbg_env \<Rightarrow> int \<Rightarrow> 'io ARMul_State \<times> debugger \<Rightarrow> (ARMword \<times> int \<times> 'io ARMul_State \<times> debugger) sim option" where
  "debug_Emulate x pre = (\<lambda>(s, d).
     if prog32Sig s \<noteq> 0 \<and> Mode s > 3 then debug_Emulate32 x pre (s, d)
     else case emulate26 (emu x) pre s of
            None \<Rightarrow> None
          | Some (Inl e) \<Rightarrow> Some (Inl e)
          | Some (Inr (pc, pre, s)) \<Rightarrow> Some (Inr (pc, pre, s, d)))"

definition debug_DoInstr ::
  "'io dbg_env \<Rightarrow> int \<Rightarrow> 'io ARMul_State \<times> debugger \<Rightarrow> (ARMword \<times> int \<times> 'io ARMul_State \<times> debugger) sim option" where
  "debug_DoInstr x pre = (\<lambda>(s, d). debug_Emulate x pre (s\<lparr>Emulate := ONCE\<rparr>, d))"

partial_function (option) debug_prog_loop ::
  "'io dbg_env \<Rightarrow> ARMword \<Rightarrow> int \<Rightarrow> 'io ARMul_State \<times> debugger \<Rightarrow> (ARMword \<times> int \<times> 'io ARMul_State \<times> debugger) sim option" where
  "debug_prog_loop x pc pre sd =
     (if Emulate (fst sd) = STOP then Some (Inr (pc, pre, sd))
      else case debug_Emulate x pre ((fst sd)\<lparr>Emulate := RUN\<rparr>, snd sd) of
             None \<Rightarrow> None
           | Some r \<Rightarrow> (case r of Inl e \<Rightarrow> Some (Inl e) | Inr (pc, pre, sd) \<Rightarrow> debug_prog_loop x pc pre sd))"

definition debug_DoProg ::
  "'io dbg_env \<Rightarrow> int \<Rightarrow> 'io ARMul_State \<times> debugger \<Rightarrow> (ARMword \<times> int \<times> 'io ARMul_State \<times> debugger) sim option" where
  "debug_DoProg x pre = (\<lambda>(s, d). debug_prog_loop x 0 pre (s\<lparr>Emulate := RUN\<rparr>, d))"

text \<open>The commands to go on and to step; the counter of the devices is passed on.\<close>

definition gdbserver_cont :: "'io dbg_env \<Rightarrow> int \<Rightarrow> 'io ARMul_State \<times> debugger \<Rightarrow> (int \<times> 'io ARMul_State \<times> debugger) sim option" where
  "gdbserver_cont x pre = (\<lambda>(s, d).
     case debug_DoProg x pre (s\<lparr>NextInstr := RESUME\<rparr>, d) of
       None \<Rightarrow> None
     | Some (Inl e) \<Rightarrow> Some (Inl e)
     | Some (Inr (pc, pre, s, d)) \<Rightarrow> Some (Inr (pre, set_reg 15 pc s, d)))"

definition gdbserver_step :: "'io dbg_env \<Rightarrow> int \<Rightarrow> 'io ARMul_State \<times> debugger \<Rightarrow> (int \<times> 'io ARMul_State \<times> debugger) sim option" where
  "gdbserver_step x pre = (\<lambda>(s, d).
     case debug_DoInstr x pre (s\<lparr>NextInstr := RESUME\<rparr>, d) of
       None \<Rightarrow> None
     | Some (Inl e) \<Rightarrow> Some (Inl e)
     | Some (Inr (pc, pre, s, d)) \<Rightarrow> Some (Inr (pre, set_reg 15 pc s, d)))"

section \<open>A debugger that does nothing\<close>

definition detached :: "'io dbg_env \<Rightarrow> debugger \<Rightarrow> bool" where
  "detached x d \<longleftrightarrow> num_bps (ice d) = 0 \<and> (tps_status (ice d) \<noteq> TRACE_STARTED \<or> num_tps (ice d) = 0) \<and> (\<forall>k. \<not> ready x k)"

lemma hook_detached: "detached x d \<Longrightarrow> hook x s d instr addr = Inr (False, d, s)"
  by (auto simp: hook_def ARMul_ICE_debug_def find_bp_def detached_def)

text \<open>A fetch with the hook follows one without it.\<close>

definition follows ::
  "debugger \<Rightarrow> (ARMword \<times> pipeline \<times> 'io ARMul_State) sim \<Rightarrow> (bool \<times> ARMword \<times> 'io dstate) sim \<Rightarrow> bool" where
  "follows d r r' \<longleftrightarrow> (case r of Inl e \<Rightarrow> r' = Inl e | Inr (i, q, u) \<Rightarrow> \<exists>p'. r' = Inr (False, i, p', u, d) \<and> pipe p' = q)"

lemma advance_detached: "detached x d \<Longrightarrow> follows d (advance a b (cpu (emu x)) (pipe p) s) (advance_debug a b x p s d)"
  by (auto simp: follows_def advance_def advance_debug_def hook_detached bind_ok_def Let_def split: sum.splits)

lemma refill_detached: "detached x d \<Longrightarrow> follows d (refill b (cpu (emu x)) (pipe p) s) (refill_debug b x p s d)"
  by (auto simp: follows_def refill_def refill_debug_def hook_detached bind_ok_def Let_def split: sum.splits)

lemma fetch_detached: "detached x d \<Longrightarrow> follows d (fetch (cpu (emu x)) (pipe p) s) (fetch_debug x (p, s, d))"
  by (simp add: fetch_def fetch_debug_def Let_def advance_detached refill_detached)

lemma poll_detached: "detached x d \<Longrightarrow> \<exists>d'. poll_debugger x i s d = (s, d') \<and> detached x d'"
  by (auto simp: poll_debugger_def remote_interrupt_def detached_def Let_def)

lemma step_detached:
  assumes "detached x d"
  shows "case emulate_step (emu x) (pipe p, s) of
      Inl e \<Rightarrow> debug_step x (p, s, d) = Inl e
    | Inr (go, q, u) \<Rightarrow> \<exists>p' d'. debug_step x (p, s, d) = Inr (go, p', u, d') \<and> pipe p' = q \<and> detached x d'"
proof (cases "fetch (cpu (emu x)) (pipe p) s")
  case (Inl e)
  then show ?thesis using fetch_detached [OF assms, of p s] by (simp add: follows_def emulate_step_def debug_step_def)
next
  case (Inr r)
  obtain i q u where r: "r = (i, q, u)" by (cases r) auto
  then obtain p1 where f: "fetch_debug x (p, s, d) = Inr (False, i, p1, u, d)" "pipe p1 = q"
    using fetch_detached [OF assms, of p s] Inr by (auto simp: follows_def)
  let ?u = "if EventSet u \<noteq> 0 then ARMul_EnvokeEvent (event_fun (emu x)) u else u"
  obtain b v where v: "IntPending ?u = (b, v)" by force
  show ?thesis
  proof (cases "b \<or> Emulate v < ONCE")
    case True
    then show ?thesis
      using Inr r f v assms by (auto simp: emulate_step_def debug_step_def Let_def simp del: if_split)
  next
    case False
    show ?thesis
    proof (cases "io_do_cycle (emu x) q v")
      case (Inl e)
      then show ?thesis using Inr r f v False by (simp add: emulate_step_def debug_step_def Let_def del: if_split)
    next
      case (Inr qw)
      obtain q1 w where qw: "qw = (q1, w)" by (cases qw) auto
      let ?w = "w\<lparr>NumInstrs := NumInstrs w + 1\<rparr>"
      show ?thesis
      proof (cases "decode_execute (cpu (emu x)) (l_pc q1) ?w i")
        case (Inl e)
        then show ?thesis using \<open>fetch _ _ _ = Inr r\<close> r f v False Inr qw by (simp add: emulate_step_def debug_step_def Let_def del: if_split)
      next
        case (Inr y)
        obtain d' where "poll_debugger x (executed_instr (l_pc q1) ?w i) y d = (y, d')" "detached x d'"
          using poll_detached [OF assms] by blast
        then show ?thesis
          using \<open>fetch _ _ _ = Inr r\<close> r f v False \<open>io_do_cycle _ _ _ = Inr qw\<close> qw Inr
          by (auto simp: emulate_step_def debug_step_def Let_def test_emulate_def split: prod.splits)
      qed
    qed
  qed
qed

lemma loop_detached_returns:
  "emulate_loop e ps = Some r \<Longrightarrow> e = emu x \<Longrightarrow> ps = (pipe p, s) \<Longrightarrow> detached x d \<Longrightarrow>
    (case r of Inl err \<Rightarrow> debug_loop x (p, s, d) = Some (Inl err)
     | Inr (q, t) \<Rightarrow> \<exists>p' d'. debug_loop x (p, s, d) = Some (Inr (p', t, d')) \<and> pipe p' = q)"
proof (induction arbitrary: p s d rule: emulate_loop.raw_induct [rotated 1, consumes 1])
  case (1 loop e ps r)
  show ?case
  proof (cases "emulate_step (emu x) (pipe p, s)")
    case (Inl err)
    then show ?thesis using step_detached [OF 1(5), of p s] 1(2-4) by (auto simp: debug_loop.simps)
  next
    case (Inr y)
    obtain go q u where y: "y = (go, q, u)" by (cases y) auto
    then obtain p' d' where s: "debug_step x (p, s, d) = Inr (go, p', u, d')" "pipe p' = q" "detached x d'"
      using step_detached [OF 1(5), of p s] Inr by auto
    show ?thesis
    proof (cases go)
      case True
      then have "loop (emu x) (pipe p', u) = Some r" using 1(2-4) Inr y s(2) by simp
      moreover have "debug_loop x (p, s, d) = debug_loop x (p', u, d')" using s(1) True by (subst debug_loop.simps) simp
      ultimately show ?thesis using 1(1) [OF _ refl refl s(3), of p' u r] by (simp cong: sum.case_cong)
    next
      case False
      then show ?thesis using 1(2-4) Inr y s by (auto simp: debug_loop.simps [of x "(p, s, d)"])
    qed
  qed
qed

lemmas debug_loop_induct = debug_loop.raw_induct [where xa = "(x, st)" for x st, unfolded prod.case, rotated 1, consumes 1]

lemma loop_detached_ends:
  "debug_loop x st = Some r \<Longrightarrow> st = (p, s, d) \<Longrightarrow> detached x d \<Longrightarrow> emulate_loop (emu x) (pipe p, s) \<noteq> None"
proof (induction arbitrary: p s d rule: debug_loop_induct)
  case (1 loop x st r)
  show ?case
  proof (cases "emulate_step (emu x) (pipe p, s)")
    case (Inl err)
    then show ?thesis by (simp add: emulate_loop.simps)
  next
    case (Inr y)
    obtain go q u where y: "y = (go, q, u)" by (cases y) auto
    then obtain p' d' where s: "debug_step x (p, s, d) = Inr (go, p', u, d')" "pipe p' = q" "detached x d'"
      using step_detached [OF 1(4), of p s] Inr by auto
    show ?thesis
    proof (cases go)
      case True
      then have "loop x (p', u, d') = Some r" using 1(2,3) s(1) by simp
      from 1(1) [OF this refl s(3)] show ?thesis
        using Inr y True s(2) by (simp add: emulate_loop.simps [of "emu x" "(pipe p, s)"])
    next
      case False
      then show ?thesis using Inr y by (simp add: emulate_loop.simps)
    qed
  qed
qed

text \<open>
  C20: an idle debugger is transparent. With no breakpoint set, no trace running and no input on the connection, the loop
  that the debugger watches does what the loop without it does: it ends when that ends, with the same error, or
  the same processor and pipeline, and it does not end when that does not.
\<close>

theorem debugger_transparent:
  assumes "detached x d"
  shows "case emulate_loop (emu x) (pipe p, s) of
      None \<Rightarrow> debug_loop x (p, s, d) = None
    | Some (Inl e) \<Rightarrow> debug_loop x (p, s, d) = Some (Inl e)
    | Some (Inr (q, t)) \<Rightarrow> \<exists>p' d'. debug_loop x (p, s, d) = Some (Inr (p', t, d')) \<and> pipe p' = q"
proof (cases "emulate_loop (emu x) (pipe p, s)")
  case None
  then show ?thesis using loop_detached_ends [OF _ refl assms, of p s] by (cases "debug_loop x (p, s, d)") auto
next
  case (Some r)
  then show ?thesis using loop_detached_returns [OF Some refl refl assms] by (auto split: sum.splits)
qed

section \<open>Breakpoints in the loop\<close>

text \<open>Fetching an instruction does not touch the flag that ends the loop.\<close>

definition keeps_running :: "'io cpu_env \<Rightarrow> bool" where
  "keeps_running env \<longleftrightarrow> (\<forall>s a f v t. fetch_word env s a = Inr (f, v, t) \<longrightarrow> Emulate t = Emulate s)"

lemma ReLoadInstr_running:
  "keeps_running env \<Longrightarrow> ARMul_ReLoadInstr env s a isz = Inr (i, t) \<Longrightarrow> Emulate t = Emulate s"
  by (auto simp: ARMul_ReLoadInstr_def keeps_running_def bind_ok_def prefetch_abort_def ARMul_PREFETCHABORT_def ARMul_CLEARABORT_def Let_def
      split: sum.splits option.splits if_splits)

lemma LoadInstr_running:
  assumes "keeps_running env"
  shows "ARMul_LoadInstrN env s a isz = Inr (i, t) \<Longrightarrow> Emulate t = Emulate s" "ARMul_LoadInstrS env s a isz = Inr (i, t) \<Longrightarrow> Emulate t = Emulate s"
  using ReLoadInstr_running [OF assms] by (fastforce simp: ARMul_LoadInstrN_def ARMul_LoadInstrS_def)+

lemma hook_bp:
  assumes "hook x s d instr addr = Inr (bp, d', s')" "bp_ok (ice d)" "instr \<notin> {0xefffffff, 0xefffdfff}"
  shows "(bp \<longleftrightarrow> addr \<in> bp_set (ice d)) \<and> (bp \<longrightarrow> Emulate s' = STOP)"
  using assms find_bp_None [OF assms(2), of addr]
  by (auto simp: hook_def ARMul_ICE_debug_def ARMul_ABORTWORD_def bind_ok_def split: sum.splits if_splits)

lemma hook_bps: "hook x s d instr addr = Inr (bp, d', s') \<Longrightarrow> bps (ice d') = bps (ice d) \<and> num_bps (ice d') = num_bps (ice d)"
  using hook_effect(1,2) by (fastforce simp: hook_def bind_ok_def split: sum.splits)

text \<open>
  While the pipeline goes on, the addresses beside it are those of the two instructions behind the current one; before it
  is refilled they do not matter.
\<close>

definition in_step :: "dpipe \<Rightarrow> 'io ARMul_State \<Rightarrow> bool" where
  "in_step p s \<longleftrightarrow> (NextInstr s \<in> {0, 1, 2, 3} \<longrightarrow>
     decoded_addr p = l_pc (pipe p) + INSN_SIZE s \<and> loaded_addr p = l_pc (pipe p) + INSN_SIZE s * 2)"

text \<open>The pipeline after a fetch of an instruction of size \<open>isz\<close> at \<open>pc\<close>.\<close>

definition filled :: "ARMword \<Rightarrow> ARMword \<Rightarrow> dpipe \<Rightarrow> bool" where
  "filled pc isz p \<longleftrightarrow> l_pc (pipe p) = pc \<and> decoded_addr p = pc + isz \<and> loaded_addr p = pc + isz * 2"

definition same_breakpoints :: "debugger \<Rightarrow> debugger \<Rightarrow> bool" where
  "same_breakpoints d d' \<longleftrightarrow> bps (ice d') = bps (ice d) \<and> num_bps (ice d') = num_bps (ice d)"

lemma advance_bp:
  assumes "advance_debug a b x p s d = Inr (bp, instr, p', s', d')"
    "decoded_addr p = l_pc (pipe p) + isize s" "loaded_addr p = l_pc (pipe p) + isize s * 2"
  shows "filled (l_pc (pipe p) + isize s) (isize s) p' \<and> same_breakpoints d d' \<and>
    (bp_ok (ice d) \<and> instr \<notin> {0xefffffff, 0xefffdfff} \<and> keeps_running (cpu (emu x)) \<longrightarrow>
      (bp \<longleftrightarrow> l_pc (pipe p') \<in> bp_set (ice d)) \<and> (bp \<longrightarrow> Emulate s' = STOP))"
proof -
  let ?s = "if a then set_reg 15 (Reg s 15 + isize s) s else s"
  let ?load = "if b then ARMul_LoadInstrN else ARMul_LoadInstrS"
  obtain t l u where h: "hook x ?s d (l_decoded (pipe p)) (decoded_addr p) = Inr (bp, d', t)"
    and l: "?load (cpu (emu x)) t (l_pc (pipe p) + isize s + isize s * 2) (isize s) = Inr (l, u)"
    and r: "instr = l_decoded (pipe p)" "l_pc (pipe p') = l_pc (pipe p) + isize s" "Emulate s' = Emulate u"
      "decoded_addr p' = loaded_addr p" "loaded_addr p' = l_pc (pipe p) + isize s + isize s * 2"
    using assms(1) by (auto simp: advance_debug_def Let_def bind_ok_def split: sum.splits if_splits)
  have "Emulate u = Emulate t" if "keeps_running (cpu (emu x))" using l LoadInstr_running [OF that] by (simp split: if_splits)
  then show ?thesis using hook_bp [OF h] hook_bps [OF h] assms(2,3) r by (auto simp: filled_def same_breakpoints_def)
qed

lemma refill_bp:
  assumes "refill_debug b x p s d = Inr (bp, instr, p', s', d')"
  shows "filled (Reg s 15) (isize s) p' \<and> same_breakpoints d d' \<and>
    (bp_ok (ice d) \<and> instr \<notin> {0xefffffff, 0xefffdfff} \<and> keeps_running (cpu (emu x)) \<longrightarrow>
      (bp \<longleftrightarrow> l_pc (pipe p') \<in> bp_set (ice d)) \<and> (bp \<longrightarrow> Emulate s' = STOP))"
proof -
  let ?rest = "if b then ARMul_ReLoadInstr else ARMul_LoadInstrS"
  obtain s1 s2 i2 s3 i3 s4 where h: "hook x s1 d instr (Reg s 15) = Inr (bp, d', s2)"
    and l: "?rest (cpu (emu x)) s2 (Reg s 15 + isize s) (isize s) = Inr (i2, s3)"
      "?rest (cpu (emu x)) s3 (Reg s 15 + isize s * 2) (isize s) = Inr (i3, s4)"
    and r: "filled (Reg s 15) (isize s) p'" "Emulate s' = Emulate s4"
    using assms(1) by (auto simp: refill_debug_def filled_def Let_def bind_ok_def split: sum.splits)
  have "Emulate s4 = Emulate s2" if "keeps_running (cpu (emu x))"
    using l LoadInstr_running [OF that] ReLoadInstr_running [OF that] by (auto split: if_splits)
  then show ?thesis using hook_bp [OF h] hook_bps [OF h] r by (auto simp: filled_def same_breakpoints_def)
qed

text \<open>The address of the next instruction: behind the current one, or where register 15 points.\<close>

definition next_pc :: "dpipe \<Rightarrow> 'io ARMul_State \<Rightarrow> ARMword" where
  "next_pc p s = (if NextInstr s \<in> {0, 1, 2, 3} then l_pc (pipe p) + INSN_SIZE s else Reg s 15)"

lemma fetch_bp:
  assumes "fetch_debug x (p, s, d) = Inr (bp, instr, p', s', d')" "in_step p s"
  shows "filled (next_pc p s) (INSN_SIZE s) p' \<and> same_breakpoints d d' \<and>
    (bp_ok (ice d) \<and> instr \<notin> {0xefffffff, 0xefffdfff} \<and> keeps_running (cpu (emu x)) \<longrightarrow>
      (bp \<longleftrightarrow> l_pc (pipe p') \<in> bp_set (ice d)) \<and> (bp \<longrightarrow> Emulate s' = STOP))"
proof (cases "NextInstr s \<in> {0, 1, 2, 3}")
  case True
  then obtain a b where "advance_debug a b x p (s\<lparr>isize := INSN_SIZE s\<rparr>) d = Inr (bp, instr, p', s', d')"
    using assms(1) by (auto simp: fetch_debug_def Let_def)
  moreover have "decoded_addr p = l_pc (pipe p) + INSN_SIZE s" "loaded_addr p = l_pc (pipe p) + INSN_SIZE s * 2"
    using assms(2) True by (auto simp: in_step_def)
  ultimately show ?thesis using advance_bp [of a b x p "s\<lparr>isize := INSN_SIZE s\<rparr>" d] True by (simp add: next_pc_def)
next
  case False
  then have "refill_debug (NextInstr s = RESUME) x p (s\<lparr>isize := INSN_SIZE s\<rparr>) d = Inr (bp, instr, p', s', d')"
    using assms(1) by (simp add: fetch_debug_def Let_def)
  from refill_bp [OF this] show ?thesis using False by (simp add: next_pc_def)
qed

lemma debug_loop_leave: "debug_step x st = Inr (False, st') \<Longrightarrow> debug_loop x st = Some (Inr st')"
  by (simp add: debug_loop.simps)

text \<open>
  A run of the loop: turns after which it goes on. An instruction that changes the instruction set has the
  pipeline refilled, as the exchanging branches do.
\<close>

inductive turns :: "'io dbg_env \<Rightarrow> 'io dstate \<Rightarrow> 'io dstate \<Rightarrow> bool" for x where
  turns_start: "turns x st st"
| turns_step: "turns x st (p, s, d) \<Longrightarrow> debug_step x (p, s, d) = Inr (True, p', s', d') \<Longrightarrow>
    (NextInstr s' \<in> {0, 1, 2, 3} \<Longrightarrow> INSN_SIZE s' = INSN_SIZE s) \<Longrightarrow> turns x st (p', s', d')"

lemma turns_loop: "turns x st st' \<Longrightarrow> debug_loop x st = debug_loop x st'"
proof (induction rule: turns.induct)
  case (turns_step st p s d p' s' d')
  then show ?case by (simp add: debug_loop.simps [of x "(p, s, d)"])
qed simp

lemma io_do_cycle_pc: "io_do_cycle e q s = Inr (q', s') \<Longrightarrow> l_pc q' = l_pc q"
  by (auto simp: io_do_cycle_def bind_ok_def Let_def split: sum.splits if_splits)

lemma poll_ice: "poll_debugger x i s d = (s', d') \<Longrightarrow> ice d' = ice d"
  by (auto simp: poll_debugger_def remote_interrupt_def Let_def split: if_splits)

text \<open>The rest of the turn leaves the addresses and the breakpoints alone.\<close>

lemma debug_step_fetch:
  assumes "debug_step x (p, s, d) = Inr (go, p', s', d')"
  shows "\<exists>bp instr q u e. fetch_debug x (p, s, d) = Inr (bp, instr, q, u, e) \<and> l_pc (pipe p') = l_pc (pipe q) \<and>
    decoded_addr p' = decoded_addr q \<and> loaded_addr p' = loaded_addr q \<and> ice d' = ice e"
proof -
  obtain bp instr q u e where f: "fetch_debug x (p, s, d) = Inr (bp, instr, q, u, e)"
    using assms by (cases "fetch_debug x (p, s, d)") (auto simp: debug_step_def)
  have "l_pc (pipe p') = l_pc (pipe q) \<and> decoded_addr p' = decoded_addr q \<and> loaded_addr p' = loaded_addr q \<and> ice d' = ice e"
    using assms f
    by (auto simp: debug_step_def bind_ok_def Let_def dest!: io_do_cycle_pc poll_ice split: if_split_asm sum.split_asm prod.split_asm)
  then show ?thesis using f by blast
qed

lemma turns_in_step:
  "turns x st st' \<Longrightarrow> st = (p0, s0, d0) \<Longrightarrow> st' = (p, s, d) \<Longrightarrow> in_step p0 s0 \<Longrightarrow> in_step p s \<and> same_breakpoints d0 d"
proof (induction arbitrary: p s d rule: turns.induct)
  case (turns_start st)
  then show ?case by (simp add: same_breakpoints_def)
next
  case (turns_step st p1 s1 d1 p' s' d')
  have i: "in_step p1 s1" "same_breakpoints d0 d1" using turns_step.IH [OF turns_step.prems(1) refl turns_step.prems(3)] by auto
  obtain bp instr q u e where f: "fetch_debug x (p1, s1, d1) = Inr (bp, instr, q, u, e)" and r: "l_pc (pipe p') = l_pc (pipe q)"
    "decoded_addr p' = decoded_addr q" "loaded_addr p' = loaded_addr q" "ice d' = ice e"
    using debug_step_fetch [OF turns_step.hyps(2)] by blast
  have "filled (next_pc p1 s1) (INSN_SIZE s1) q" "same_breakpoints d1 e" using fetch_bp [OF f i(1)] by auto
  then show ?case using i(2) r turns_step.hyps(3) turns_step.prems(2) by (auto simp: in_step_def filled_def same_breakpoints_def)
qed

text \<open>
  C22: a breakpoint is taken before the instruction at its address, and nowhere else. After any run of the loop
  that began with an empty pipeline, as at a reset, after a branch and with every command of the debugger, the next fetch
  delivers the instruction behind the last one, or the one register 15 points to when the pipeline has to be
  refilled. When its address is in the set of breakpoints, the loop, from the beginning of the run, returns the state after
  this fetch, stopped at that address, without executing the instruction, taking an interrupt or running the devices; when the address is
  not in the set, the turn is an ordinary one.
\<close>

theorem breakpoint_halts:
  assumes "turns x (p0, s0, d0) (p, s, d)" "NextInstr s0 \<notin> {0, 1, 2, 3}" "bp_ok (ice d0)"
    "fetch_debug x (p, s, d) = Inr (bp, instr, p', s', d')" "instr \<notin> {0xefffffff, 0xefffdfff}" "keeps_running (cpu (emu x))"
  shows "l_pc (pipe p') = (if NextInstr s \<in> {0, 1, 2, 3} then l_pc (pipe p) + INSN_SIZE s else Reg s 15) \<and>
    (l_pc (pipe p') \<in> bp_set (ice d0) \<longrightarrow> debug_loop x (p0, s0, d0) = Some (Inr (p', s', d')) \<and> Emulate s' = STOP) \<and>
    (l_pc (pipe p') \<notin> bp_set (ice d0) \<and> EventSet s' = 0 \<and> no_interrupt s' \<and> \<not> Emulate s' < ONCE \<and> 0 < prescale (pipe p') \<longrightarrow>
       debug_step x (p, s, d) =
         bind_ok (decode_execute (cpu (emu x)) (l_pc (pipe p')) (s'\<lparr>NumInstrs := NumInstrs s' + 1\<rparr>) instr) (\<lambda>u.
           let (u, e) = poll_debugger x (executed_instr (l_pc (pipe p')) (s'\<lparr>NumInstrs := NumInstrs s' + 1\<rparr>) instr) u d';
               (go, u) = test_emulate x u
           in Inr (go, p'\<lparr>pipe := (pipe p')\<lparr>prescale := prescale (pipe p') - 1\<rparr>\<rparr>, u, e)))"
proof -
  have i: "in_step p s" "same_breakpoints d0 d"
    using turns_in_step [OF assms(1) refl refl] assms(2) by (simp_all add: in_step_def)
  then have b: "bp_ok (ice d)" "bp_set (ice d) = bp_set (ice d0)"
    using same_bps [of "ice d" "ice d0"] assms(3) by (simp_all add: same_breakpoints_def)
  have f: "filled (next_pc p s) (INSN_SIZE s) p'" "bp \<longleftrightarrow> l_pc (pipe p') \<in> bp_set (ice d0)" "bp \<longrightarrow> Emulate s' = STOP"
    using fetch_bp [OF assms(4) i(1)] b assms(5,6) by auto
  have "debug_loop x (p0, s0, d0) = Some (Inr (p', s', d')) \<and> Emulate s' = STOP" if "l_pc (pipe p') \<in> bp_set (ice d0)"
  proof -
    have b: "bp" "Emulate s' = STOP" using f that by auto
    then have "debug_step x (p, s, d) = Inr (False, p', s', d')" using assms(4) by (simp add: debug_step_def test_emulate_def)
    then show ?thesis using b turns_loop [OF assms(1)] by (simp add: debug_loop_leave)
  qed
  moreover have "IntPending s' = (False, s')" if "no_interrupt s'" using that by (simp add: no_interrupt_def IntPending_def)
  ultimately show ?thesis using assms(4) f by (auto simp: debug_step_def io_do_cycle_def Let_def filled_def next_pc_def)
qed

section \<open>Where the program goes on\<close>

text \<open>The pipeline with which the commands start.\<close>

definition fresh_dpipe :: "int \<Rightarrow> dpipe" where
  "fresh_dpipe pre = \<lparr>pipe = \<lparr>l_pc = 0, l_decoded = 0, l_loaded = 0, prescale = pre\<rparr>, decoded_addr = 0, loaded_addr = 0\<rparr>"

lemma debug_Emulate_left:
  assumes "debug_step x (fresh_dpipe pre, s, d) = Inr (False, p', t, d')" "NextInstr s = RESUME" "prog32Sig s \<noteq> 0" "3 < Mode s"
  shows "debug_Emulate x pre (s, d) = Some (Inr (l_pc (pipe p'), prescale (pipe p'),
    t\<lparr>pipe_decoded := l_decoded (pipe p'), pipe_loaded := l_loaded (pipe p'), pipe_pc := l_pc (pipe p')\<rparr>,
    d'\<lparr>saved_decoded_addr := decoded_addr p', saved_loaded_addr := loaded_addr p'\<rparr>))"
  using assms debug_loop_leave [OF assms(1)] by (simp add: debug_Emulate_def debug_Emulate32_def fresh_dpipe_def Let_def)

text \<open>
  C39: a step at which an interrupt is requested loses the interrupt. The processor enters the mode of the interrupt,
  with the address of the instruction plus four in its link register, but the step command then writes the address of the
  instruction that was not executed over the address of the handler, and the next command goes on there,
  in the mode of the interrupt.
\<close>

theorem step_loses_interrupt:
  assumes "fetch_debug x (fresh_dpipe pre, s\<lparr>NextInstr := RESUME, Emulate := ONCE\<rparr>, d) = Inr (False, instr, p, u, d')"
    "prog32Sig s \<noteq> 0" "3 < Mode s" "EventSet u = 0" "NresetSig u \<noteq> 0" "exc_pre u" "TFlag u = 0" "Reg u 15 = l_pc (pipe p) + 8"
    "pending_vector u = Some (vec, m)"
  shows "\<exists>k t e. gdbserver_step x pre (s, d) = Some (Inr (k, t, e)) \<and> Mode t = m \<and> Reg t 14 = l_pc (pipe p) + 4 \<and>
    Reg t 15 = l_pc (pipe p) \<and> (\<forall>q i r v. fetch (cpu (emu x)) q (t\<lparr>NextInstr := RESUME\<rparr>) = Inr (i, r, v) \<longrightarrow> l_pc r = l_pc (pipe p))"
proof -
  let ?t = "ARMul_Abort u vec"
  have "IntPending u = (True, ?t)" using assms(5,9) by (auto simp: IntPending_def pending_vector_def split: if_splits)
  then have "debug_step x (fresh_dpipe pre, s\<lparr>NextInstr := RESUME, Emulate := ONCE\<rparr>, d) = Inr (False, p, ?t, d')"
    using assms(1,4) by (simp add: debug_step_def)
  from debug_Emulate_left [OF this] obtain k e t where
    g: "gdbserver_step x pre (s, d) = Some (Inr (k, set_reg 15 (l_pc (pipe p)) t, e))" "Mode t = Mode ?t" "Reg t = Reg ?t"
    using assms(2,3) by (simp add: gdbserver_step_def debug_DoInstr_def)
  have "(vec, m) = (ARMul_FIQV, FIQ32MODE) \<or> (vec, m) = (ARMul_IRQV, IRQ32MODE)"
    using assms(9) by (auto simp: pending_vector_def split: if_splits)
  then obtain i where tab: "(vec, m, i, 4, 0) \<in> set exc_table" by (auto simp: exc_table_def)
  note a = Abort_entry_facts [OF assms(6) tab]
  have "Bank ?t = ModeToBank m" using a(1,3) by (simp add: cpu_ok_def bank_ok_def)
  then have "Reg ?t 14 = l_pc (pipe p) + 4" using a(5) [of "ModeToBank m" 14] assms(7,8) by (simp add: physreg_def)
  moreover have "l_pc r = l_pc (pipe p)" if "fetch (cpu (emu x)) q ((set_reg 15 (l_pc (pipe p)) t)\<lparr>NextInstr := RESUME\<rparr>) = Inr (i, r, v)"
    for q i r v using that by (auto simp: fetch_def Let_def set_reg_def dest: refill_pc)
  ultimately show ?thesis using g a(1) by (auto simp: set_reg_def)
qed

text \<open>
  Interrupting a running program makes it execute an instruction twice. When the poll after an instruction finds
  input, the loop ends with the instruction executed, and the command to go on leaves the address of that same
  instruction in register 15, whatever the instruction did to it.
\<close>

lemma interrupted_instruction_repeats:
  assumes "fetch_debug x (fresh_dpipe pre, s\<lparr>NextInstr := RESUME, Emulate := RUN\<rparr>, d) = Inr (False, instr, p, u, d')"
    "prog32Sig s \<noteq> 0" "3 < Mode s" "EventSet u = 0" "no_interrupt u" "\<not> Emulate u < ONCE" "0 < prescale (pipe p)" "TFlag u = 0"
    "decode_execute (cpu (emu x)) (l_pc (pipe p)) (u\<lparr>NumInstrs := NumInstrs u + 1\<rparr>) instr = Inr v" "instr \<noteq> ARMul_ABORTWORD v"
    "remote_interrupt_test_time d' = 1999" "ready x (polls d')"
  shows "\<exists>k t e. gdbserver_cont x pre (s, d) = Some (Inr (k, t, e)) \<and> Emulate t = STOP \<and> NumInstrs t = NumInstrs v \<and>
    (\<forall>r. Reg t r = (if r = 15 then l_pc (pipe p) else Reg v r)) \<and> mem t = mem v"
proof -
  let ?u = "u\<lparr>NumInstrs := NumInstrs u + 1\<rparr>" and ?v = "v\<lparr>Emulate := STOP\<rparr>" and ?q = "(pipe p)\<lparr>prescale := prescale (pipe p) - 1\<rparr>"
  have "IntPending u = (False, u)" using assms(5) by (simp add: no_interrupt_def IntPending_def)
  moreover obtain e where "poll_debugger x instr v d' = (?v, e)"
    using assms(10-12) by (auto simp: poll_debugger_def remote_interrupt_def Let_def)
  ultimately have "debug_step x (fresh_dpipe pre, s\<lparr>NextInstr := RESUME, Emulate := RUN\<rparr>, d) = Inr (False, p\<lparr>pipe := ?q\<rparr>, ?v, e)"
    using assms(1,4,6-9) by (simp add: debug_step_def io_do_cycle_def executed_instr_def test_emulate_def Let_def)
  from debug_Emulate_left [OF this] obtain k t e' where
    t: "debug_Emulate x pre (s\<lparr>NextInstr := RESUME, Emulate := RUN\<rparr>, d) = Some (Inr (l_pc (pipe p), k, t, e'))"
      "Emulate t = STOP" "Reg t = Reg v" "NumInstrs t = NumInstrs v" "mem t = mem v"
    using assms(2,3) by fastforce
  have "debug_prog_loop x 0 pre (s\<lparr>NextInstr := RESUME, Emulate := RUN\<rparr>, d) = Some (Inr (l_pc (pipe p), k, t, e'))"
    using t(1,2) by (subst debug_prog_loop.simps, simp, subst debug_prog_loop.simps) simp
  then show ?thesis using t by (simp add: gdbserver_cont_def debug_DoProg_def set_reg_def)
qed

section \<open>Examples\<close>

definition nop_dbg :: "(nat \<Rightarrow> bool) \<Rightarrow> unit dbg_env" where
  "nop_dbg rdy = \<lparr>emu = nop_emu, ready = rdy, tx_ok = (\<lambda>_. True), heap = (\<lambda>_. 0)\<rparr>"

definition dbg_zero :: debugger where
  "dbg_zero = \<lparr>ice = ice_zero, link = \<lparr>rx_buf = [], incoming = [], outgoing = [], writes = 0\<rparr>, polls = 0,
     remote_interrupt_test_time = 1999, saved_decoded_addr = 0, saved_loaded_addr = 0\<rparr>"

lemma nop_dbg_emu [simp]: "emu (nop_dbg rdy) = nop_emu" "ready (nop_dbg rdy) = rdy"
  by (simp_all add: nop_dbg_def)

lemma dbg_zero_hook: "hook (nop_dbg rdy) s dbg_zero i a = Inr (False, dbg_zero, s)"
  by (simp add: hook_def ARMul_ICE_debug_def find_bp_def dbg_zero_def ice_zero_def)

lemma nop_resume:
  assumes "NextInstr s = RESUME" "TFlag s = 0" "Reg s 15 = a" "\<And>s i. hook (nop_dbg rdy) s d i a = Inr (False, d, s)"
  shows "\<exists>p u. fetch_debug (nop_dbg rdy) (fresh_dpipe pre, s, d) = Inr (False, 0xE1A00000, p, u, d) \<and>
    pipe p = \<lparr>l_pc = a, l_decoded = 0xE1A00000, l_loaded = 0xE1A00000, prescale = pre\<rparr> \<and> decoded_addr p = a + 4 \<and>
    u = s\<lparr>isize := 4, Reg := (Reg s)(15 := a + 8), Aborted := 0, AbortAddr := 1, NextInstr := 0, abortSig := LOW\<rparr>"
  using assms nop_fetch
  by (simp add: fetch_debug_def refill_debug_def INSN_SIZE_def Let_def set_reg_def ARMul_CLEARABORT_def fresh_dpipe_def)

lemmas at_100_simps = at_100_def boot_state_def ARMul_Reset_cpu_def ARMul_NewState_def Let_def FLUSHPIPE_def ARMul_CPSRAltered_def
  cpsr_switch_mode_def cpsr_assign_flags_def set_reg_def ASSIGNINT_def

theorem step_loses_interrupt_witness:
  "\<exists>k t e. gdbserver_step (nop_dbg (\<lambda>_. False)) 50 (at_100\<lparr>IFFlags := 0, NirqSig := 0, NfiqSig := 1\<rparr>, dbg_zero) = Some (Inr (k, t, e)) \<and>
     Mode t = IRQ32MODE \<and> Reg t 14 = 0x104 \<and> Reg t 15 = 0x100"
proof -
  let ?s = "at_100\<lparr>IFFlags := 0, NirqSig := 0, NfiqSig := 1\<rparr>" and ?x = "nop_dbg (\<lambda>_. False)"
  let ?t = "?s\<lparr>NextInstr := RESUME, Emulate := ONCE\<rparr>"
  obtain p u where f: "fetch_debug ?x (fresh_dpipe 50, ?t, dbg_zero) = Inr (False, 0xE1A00000, p, u, dbg_zero)" "l_pc (pipe p) = 0x100"
    and u: "u = ?t\<lparr>isize := 4, Reg := (Reg ?t)(15 := 0x100 + 8), Aborted := 0, AbortAddr := 1, NextInstr := 0, abortSig := LOW\<rparr>"
    using nop_resume [of ?t "0x100" "\<lambda>_. False" dbg_zero 50] dbg_zero_hook by (auto simp: at_100_def)
  have s: "prog32Sig ?s \<noteq> 0" "3 < Mode ?s" by (simp_all add: at_100_simps)
  have x: "EventSet u = 0" "NresetSig u \<noteq> 0" "exc_pre u" "TFlag u = 0" "Reg u 15 = l_pc (pipe p) + 8"
    "pending_vector u = Some (ARMul_IRQV, IRQ32MODE)"
    using f(2) by (simp_all add: u at_100_def exc_pre_def cpu_ok_def bank_ok_def pending_vector_def IFLAG_def FFLAG_def)
  show ?thesis using step_loses_interrupt [OF f(1) s x] f(2) by auto
qed

lemma interrupted_instruction_repeats_witness:
  "\<exists>k t e. gdbserver_cont (nop_dbg (\<lambda>_. True)) 50 (at_100\<lparr>NfiqSig := 1, NirqSig := 1\<rparr>, dbg_zero) = Some (Inr (k, t, e)) \<and>
     NumInstrs t = 1 \<and> Reg t 15 = 0x100"
proof -
  let ?s = "at_100\<lparr>NfiqSig := 1, NirqSig := 1\<rparr>" and ?x = "nop_dbg (\<lambda>_. True)"
  let ?t = "?s\<lparr>NextInstr := RESUME, Emulate := RUN\<rparr>"
  obtain p u where f: "fetch_debug ?x (fresh_dpipe 50, ?t, dbg_zero) = Inr (False, 0xE1A00000, p, u, dbg_zero)"
      "pipe p = \<lparr>l_pc = 0x100, l_decoded = 0xE1A00000, l_loaded = 0xE1A00000, prescale = 50\<rparr>"
    and u: "u = ?t\<lparr>isize := 4, Reg := (Reg ?t)(15 := 0x100 + 8), Aborted := 0, AbortAddr := 1, NextInstr := 0, abortSig := LOW\<rparr>"
    using nop_resume [of ?t "0x100" "\<lambda>_. True" dbg_zero 50] dbg_zero_hook by (auto simp: at_100_def)
  have s: "prog32Sig ?s \<noteq> 0" "3 < Mode ?s" by (simp_all add: at_100_simps)
  have x: "EventSet u = 0" "no_interrupt u" "\<not> Emulate u < ONCE" "0 < prescale (pipe p)" "TFlag u = 0" "Reg u 0 = 0" "NumInstrs u = 0"
    using f(2) by (simp_all add: u no_interrupt_def FFLAG_def IFLAG_def at_100_simps)
  let ?v = "u\<lparr>NumInstrs := NumInstrs u + 1\<rparr>"
  have "decode_execute (cpu (emu ?x)) (l_pc (pipe p)) ?v 0xE1A00000 = Inr ?v"
    using nop_execute [of ?v] x(5,6) by (simp add: nop_dbg_def)
  moreover have "0xE1A00000 \<noteq> ARMul_ABORTWORD ?v" by (simp add: ARMul_ABORTWORD_def)
  moreover have "remote_interrupt_test_time dbg_zero = 1999" "ready ?x (polls dbg_zero)" by (simp_all add: dbg_zero_def nop_dbg_def)
  ultimately obtain k t e where "gdbserver_cont ?x 50 (?s, dbg_zero) = Some (Inr (k, t, e))" "NumInstrs t = NumInstrs ?v"
      "\<forall>r. Reg t r = (if r = 15 then l_pc (pipe p) else Reg ?v r)"
    using interrupted_instruction_repeats [OF f(1) s x(1-5)] by blast
  then show ?thesis using x(7) f(2) by auto
qed

text \<open>A breakpoint on the second instruction of a straight line.\<close>

definition dbg_104 :: debugger where
  "dbg_104 = dbg_zero\<lparr>ice := ice_zero\<lparr>bps := 0x104 # replicate 15 0, num_bps := 1\<rparr>\<rparr>"

lemma dbg_104_hook:
  "hook (nop_dbg rdy) s dbg_104 0xE1A00000 0x104 = Inr (True, dbg_104, s\<lparr>Emulate := STOP\<rparr>)"
  "hook (nop_dbg rdy) s dbg_104 i 0x100 = Inr (False, dbg_104, s)"
  by (simp_all add: hook_def ARMul_ICE_debug_def ARMul_ABORTWORD_def find_bp_def dbg_104_def dbg_zero_def ice_zero_def MAX_BREAKPOINTS_def)

lemma nop_advance_debug:
  assumes "NextInstr s = 0" "TFlag s = 0" "l_pc (pipe p) = 0x100" "l_decoded (pipe p) = 0xE1A00000" "decoded_addr p = 0x104"
    "\<And>s. hook (nop_dbg rdy) s d 0xE1A00000 0x104 = Inr (True, d, s\<lparr>Emulate := STOP\<rparr>)"
  shows "\<exists>q u. fetch_debug (nop_dbg rdy) (p, s, d) = Inr (True, 0xE1A00000, q, u, d) \<and> l_pc (pipe q) = 0x104"
  using assms nop_fetch by (simp add: fetch_debug_def advance_debug_def INSN_SIZE_def Let_def set_reg_def ARMul_LoadInstrS_def)

theorem breakpoint_halts_witness:
  "\<exists>p s d. debug_loop (nop_dbg (\<lambda>_. False)) (fresh_dpipe 50, at_100\<lparr>NfiqSig := 1, NirqSig := 1, NextInstr := RESUME, Emulate := RUN\<rparr>, dbg_104)
     = Some (Inr (p, s, d)) \<and> Emulate s = STOP \<and> l_pc (pipe p) = 0x104"
proof -
  let ?x = "nop_dbg (\<lambda>_. False)" and ?t = "at_100\<lparr>NfiqSig := 1, NirqSig := 1, NextInstr := RESUME, Emulate := RUN\<rparr>"
  obtain p u where f: "fetch_debug ?x (fresh_dpipe 50, ?t, dbg_104) = Inr (False, 0xE1A00000, p, u, dbg_104)"
      "pipe p = \<lparr>l_pc = 0x100, l_decoded = 0xE1A00000, l_loaded = 0xE1A00000, prescale = 50\<rparr>" "decoded_addr p = 0x104"
    and u: "u = ?t\<lparr>isize := 4, Reg := (Reg ?t)(15 := 0x100 + 8), Aborted := 0, AbortAddr := 1, NextInstr := 0, abortSig := LOW\<rparr>"
    using nop_resume [of ?t "0x100" "\<lambda>_. False" dbg_104 50] dbg_104_hook by (auto simp: at_100_def)
  have x: "EventSet u = 0" "no_interrupt u" "\<not> Emulate u < ONCE" "TFlag u = 0" "Reg u 0 = 0" "Emulate u = RUN" "NextInstr u = 0" "TFlag ?t = 0"
    by (simp_all add: u no_interrupt_def FFLAG_def IFLAG_def at_100_simps)
  let ?v = "u\<lparr>NumInstrs := NumInstrs u + 1\<rparr>"
  let ?p = "p\<lparr>pipe := (pipe p)\<lparr>prescale := 49\<rparr>\<rparr>" and ?e = "dbg_104\<lparr>remote_interrupt_test_time := 0, polls := 1\<rparr>"
  have e: "decode_execute (cpu (emu ?x)) 0x100 ?v 0xE1A00000 = Inr ?v" using nop_execute [of ?v] x(4,5) by simp
  have "IntPending u = (False, u)" using x(2) by (simp add: no_interrupt_def IntPending_def)
  moreover have "poll_debugger ?x 0xE1A00000 ?v dbg_104 = (?v, ?e)"
    by (simp add: poll_debugger_def remote_interrupt_def ARMul_ABORTWORD_def dbg_104_def dbg_zero_def Let_def)
  ultimately have "debug_step ?x (fresh_dpipe 50, ?t, dbg_104) = Inr (True, ?p, ?v, ?e)"
    using f e x(1,3,4,6) by (simp add: debug_step_def io_do_cycle_def executed_instr_def test_emulate_def nop_emu_def Let_def)
  then have t: "turns ?x (fresh_dpipe 50, ?t, dbg_104) (?p, ?v, ?e)"
    using x(4,8) by (intro turns.turns_step [OF turns.turns_start]) (simp_all add: INSN_SIZE_def)
  have h: "hook ?x s ?e 0xE1A00000 0x104 = Inr (True, ?e, s\<lparr>Emulate := STOP\<rparr>)" for s :: "unit ARMul_State"
    by (simp add: hook_def ARMul_ICE_debug_def ARMul_ABORTWORD_def find_bp_def dbg_104_def dbg_zero_def ice_zero_def MAX_BREAKPOINTS_def)
  obtain q w where g: "fetch_debug ?x (?p, ?v, ?e) = Inr (True, 0xE1A00000, q, w, ?e)" "l_pc (pipe q) = 0x104"
    using nop_advance_debug [of ?v ?p "\<lambda>_. False" ?e] h f x(4,7) by auto
  have "keeps_running (cpu (emu ?x))"
    by (auto simp: keeps_running_def fetch_word_def LoadInstr_def nop_dbg_def nop_emu_def demo_env_def)
  moreover have "bp_ok (ice dbg_104)" "bp_set (ice dbg_104) = {0x104}"
    by (simp_all add: bp_ok_def bp_set_def dbg_104_def dbg_zero_def ice_zero_def MAX_BREAKPOINTS_def take_Cons')
  ultimately show ?thesis using breakpoint_halts [OF t _ _ g(1)] g(2) by auto
qed

theorem debugger_transparent_witness:
  "\<exists>p t d. debug_loop (nop_dbg (\<lambda>_. False)) ((fresh_dpipe 50)\<lparr>pipe := idle_pipe\<rparr>, at_100\<lparr>IFFlags := 0, NirqSig := 0, NfiqSig := 1\<rparr>, dbg_zero)
     = Some (Inr (p, t, d)) \<and> Mode t = IRQ32MODE \<and> l_pc (pipe p) = 0x100"
proof -
  let ?s = "at_100\<lparr>IFFlags := 0, NirqSig := 0, NfiqSig := 1\<rparr>" and ?x = "nop_dbg (\<lambda>_. False)"
  obtain u where f: "fetch (cpu nop_emu) idle_pipe ?s
      = Inr (0xE1A00000, idle_pipe\<lparr>l_pc := 0x100, l_decoded := 0xE1A00000, l_loaded := 0xE1A00000\<rparr>, u)"
    and u: "u = ?s\<lparr>isize := 4, Reg := (Reg ?s)(15 := 0x100 + 8), Aborted := 0, AbortAddr := 1, NumNcycles := NumNcycles ?s + 1,
          NumScycles := NumScycles ?s + 2, NextInstr := 0, abortSig := LOW\<rparr>"
    using nop_refill [of ?s "0x100" idle_pipe] by (auto simp: at_100_def)
  have x: "EventSet u = 0" "exc_pre u" "NresetSig u \<noteq> 0" "TFlag u = 0" "Reg u 15 = 0x108"
    "pending_vector u = Some (ARMul_IRQV, IRQ32MODE)"
    by (simp_all add: u at_100_def exc_pre_def cpu_ok_def bank_ok_def pending_vector_def IFLAG_def FFLAG_def)
  obtain q t where "emulate_loop nop_emu (idle_pipe, ?s) = Some (Inr (q, t))" "Mode t = IRQ32MODE" "l_pc q = 0x100"
    using interrupt_taken [OF f x(1-4) _ x(6)] x(5) by auto
  moreover have "detached ?x dbg_zero" by (simp add: detached_def nop_dbg_def dbg_zero_def ice_zero_def)
  ultimately show ?thesis
    using debugger_transparent [of ?x dbg_zero "(fresh_dpipe 50)\<lparr>pipe := idle_pipe\<rparr>" ?s] by (auto simp: nop_dbg_def)
qed

end
