(* ===== verification/Gdb_Server.thy ===== *)
theory Gdb_Server
  imports Gdb_Loop
begin

text \<open>
  The second part of \<^verbatim>\<open>utils/debugger/gdbserver.c\<close>: the commands of the remote protocol, and the loop of \<^verbatim>\<open>sim_debug\<close>
  that serves a connection.
\<close>

unbundle bit_operations_syntax

section \<open>Numbers in packets\<close>

text \<open>
  The loops that read hexadecimal digits up to one of the characters \<open>stops\<close>, and where they end. They do not stop at the
  end of the text.
\<close>

function scan_hex :: "ARMbyte list \<Rightarrow> ARMbyte list \<Rightarrow> nat \<Rightarrow> ARMword \<Rightarrow> (ARMword \<times> nat) sim" where
  "scan_hex stops buf i acc =
     (if i < length buf
      then if buf ! i \<in> set stops then Inr (acc, i)
           else scan_hex stops buf (Suc i) (push_bit 4 acc OR (ucast (fromhex (buf ! i)) AND 0x0f))
      else Inl OutOfBounds)"
  by pat_completeness auto

termination
  by (relation "measure (\<lambda>(stops, buf, i, acc). length buf - i)") auto

declare scan_hex.simps [simp del]

fun scan_len :: "nat \<Rightarrow> ARMbyte list \<Rightarrow> nat \<Rightarrow> ARMword \<Rightarrow> ARMword sim" where
  "scan_len 0 buf i acc = Inr acc"
| "scan_len (Suc n) buf i acc =
     bind_ok (get_at buf i) (\<lambda>ch. if ch = 0 then Inr acc else scan_len n buf (Suc i) (push_bit 4 acc OR (ucast (fromhex ch) AND 0x0f)))"

definition decode_m_packet :: "ARMbyte list \<Rightarrow> nat \<Rightarrow> (ARMword \<times> ARMword) sim" where
  "decode_m_packet from i =
     bind_ok (scan_hex [of_char CHR '',''] from i 0) (\<lambda>(addr, i).
     bind_ok (scan_len 4 from (i + 1) 0) (\<lambda>len. Inr (addr, len)))"

definition decode_M_packet :: "ARMbyte list \<Rightarrow> nat \<Rightarrow> ARMbyte list \<Rightarrow> (ARMword \<times> ARMword \<times> ARMbyte list) sim" where
  "decode_M_packet from i to =
     bind_ok (scan_hex [of_char CHR '',''] from i 0) (\<lambda>(addr, i).
     bind_ok (scan_hex [of_char CHR '':''] from (i + 1) 0) (\<lambda>(len, i).
     bind_ok (convert_ascii_to_int from (i + 1) to 0 (unat len)) (\<lambda>to. Inr (addr, len, to))))"

text \<open>\<^verbatim>\<open>%x\<close> of \<^verbatim>\<open>sprintf\<close>.\<close>

fun hex_digits :: "nat \<Rightarrow> ARMbyte list" where
  "hex_digits n = (if n < 16 then [tohex (of_nat n)] else hex_digits (n div 16) @ [tohex (of_nat (n mod 16))])"

declare hex_digits.simps [simp del]

text \<open>
  \<^verbatim>\<open>strtoul\<close> of the C library, for 64-bit longs, on a text: the value and the rest of the text. The base 0 stands for that
  of the prefix.
\<close>

definition is_space :: "ARMbyte \<Rightarrow> bool" where
  "is_space b \<longleftrightarrow> b = 0x20 \<or> 0x09 \<le> b \<and> b \<le> 0x0d"

definition is_xdigit :: "ARMbyte \<Rightarrow> bool" where
  "is_xdigit b \<longleftrightarrow> fromhex b \<noteq> 0 \<or> b = of_char CHR ''0''"

definition is_digit :: "nat \<Rightarrow> ARMbyte \<Rightarrow> bool" where
  "is_digit base b \<longleftrightarrow> is_xdigit b \<and> unat (fromhex b) < base"

definition digits_value :: "nat \<Rightarrow> ARMbyte list \<Rightarrow> nat" where
  "digits_value base ds = foldl (\<lambda>n d. base * n + unat (fromhex d)) 0 ds"

definition strtoul :: "nat \<Rightarrow> ARMbyte list \<Rightarrow> nat \<times> ARMbyte list" where
  "strtoul base t =
     (let t1 = dropWhile is_space t;
          (neg, t2) = (case t1 of
             [] \<Rightarrow> (False, t1)
           | b # r \<Rightarrow> if b = of_char CHR ''-'' then (True, r) else if b = of_char CHR ''+'' then (False, r) else (False, t1));
          plain = (if base \<noteq> 0 then base else if take 1 t2 = [of_char CHR ''0''] then 8 else 10);
          (base, t3) = (case t2 of
             a # b # c # r \<Rightarrow>
               if (base = 0 \<or> base = 16) \<and> a = of_char CHR ''0'' \<and> (b = of_char CHR ''x'' \<or> b = of_char CHR ''X'') \<and> is_xdigit c
               then (16, c # r) else (plain, t2)
           | _ \<Rightarrow> (plain, t2));
          ds = takeWhile (is_digit base) t3;
          v = digits_value base ds
      in if ds = [] then (0, t)
         else (if v \<ge> 2 ^ 64 then 2 ^ 64 - 1 else if neg then (2 ^ 64 - v) mod 2 ^ 64 else v, dropWhile (is_digit base) t3))"

definition skip_comma :: "ARMbyte list \<Rightarrow> ARMbyte list" where
  "skip_comma t = (case t of b # r \<Rightarrow> if b = of_char CHR '','' then r else t | [] \<Rightarrow> [])"

text \<open>Type and address of a breakpoint; the length is read and not used.\<close>

definition decode_breakpoint :: "ARMbyte list \<Rightarrow> nat \<times> ARMword" where
  "decode_breakpoint t =
     (let (ty, t) = strtoul 16 t; (addr, t) = strtoul 16 (skip_comma t) in (ty mod 2 ^ 32, of_nat addr))"

section \<open>Packets for tracepoints\<close>

text \<open>
  The tracepoint after a description of it, and the new action, if there is one. In \<^verbatim>\<open>M\<close> with a base register the first
  digit of the register is skipped, and the comma behind it is taken for the end of the offset.
\<close>

function decode_DP_playload :: "ARMbyte list \<Rightarrow> nat \<Rightarrow> tracepoint_def \<Rightarrow> (tracepoint_def \<times> action option) sim" where
  "decode_DP_playload buf i tp =
     (if length buf \<le> i then Inl OutOfBounds
      else let ch = buf ! i; stop = [of_char CHR ''-'', 0] in
        if ch = of_char CHR ''E'' \<or> ch = of_char CHR ''D''
        then bind_ok (scan_hex [of_char CHR '':''] buf (i + 2) 0) (\<lambda>(step, i).
             bind_ok (scan_hex stop buf (i + 1) 0) (\<lambda>(pass, i).
               Inr (tp\<lparr>tp_status := (if ch = of_char CHR ''E'' then TRACEPOINT_ENABLED else TRACEPOINT_DISABLED),
                       remaining_step := step, pass_count := pass, remaining_pass := pass\<rparr>, None)))
        else if ch = of_char CHR ''R''
        then bind_ok (scan_hex stop buf (i + 1) 0) (\<lambda>(mask, i). Inr (tp, Some (Collect (CollectRegisters mask))))
        else if ch = of_char CHR ''M''
        then bind_ok (get_at buf (i + 1)) (\<lambda>b.
             bind_ok (if b = of_char CHR ''-''
                      then bind_ok (scan_hex [of_char CHR '',''] buf (i + 1) 0) (\<lambda>(_, j). Inr (-1, j + 1))
                      else scan_hex [of_char CHR '','', 0] buf (i + 2) 0) (\<lambda>(base, j).
             bind_ok (scan_hex [of_char CHR '','', 0] buf j 0) (\<lambda>(offset, j).
             bind_ok (scan_hex stop buf (j + 1) 0) (\<lambda>(len, j).
               Inr (tp, Some (Collect (CollectMemory base offset len)))))))
        else if ch = of_char CHR ''S''
        then (case decode_DP_playload buf (Suc i) tp of
                Inl e \<Rightarrow> Inl e
              | Inr (tp', a) \<Rightarrow> Inr (tp', Some (While (remaining_step tp) (remaining_step tp) (case a of None \<Rightarrow> [] | Some a \<Rightarrow> [a]))))
        else Inr (tp, None))"
  by pat_completeness auto

termination
  by (relation "measure (\<lambda>(buf, i, tp). length buf - i)") auto

declare decode_DP_playload.simps [simp del]

text \<open>
  When the table is full, \<^verbatim>\<open>add_tracepoint\<close> answers -1, and a description that is not empty is stored at that index.
\<close>

definition decode_DP_packet :: "ARMbyte list \<Rightarrow> nat \<Rightarrow> SkyEye_ICE \<Rightarrow> SkyEye_ICE sim" where
  "decode_DP_packet buf i ic =
     bind_ok (get_at buf i) (\<lambda>ch.
     bind_ok (scan_hex [of_char CHR '':''] buf (if ch = of_char CHR ''-'' then i + 1 else i) 0) (\<lambda>(number, i).
     bind_ok (scan_hex [of_char CHR '':''] buf (i + 1) 0) (\<lambda>(address, i).
       let (tp_id, ic) = (case find_tp_id number address ic of
                             Some k \<Rightarrow> (Some k, ic) | None \<Rightarrow> add_tracepoint number address ic)
       in case tp_id of
            None \<Rightarrow> bind_ok (get_at buf (i + 1)) (\<lambda>ch.
                      if ch \<in> set (map of_char ''EDRMS'') then Inl OutOfBounds else Inr ic)
          | Some k \<Rightarrow>
              bind_ok (decode_DP_playload buf (i + 1) (tps ic ! k)) (\<lambda>(tp, a).
                Inr (upd_tp k (\<lambda>_. tp\<lparr>actions := actions tp @ (case a of None \<Rightarrow> [] | Some a \<Rightarrow> [a])\<rparr>) ic)))))"

definition frame_reply :: "ARMword \<Rightarrow> ARMword \<Rightarrow> ARMbyte list" where
  "frame_reply f t = map of_char ''F'' @ hex_digits (unat f) @ map of_char ''T'' @ hex_digits (unat t)"

text \<open>No answer leaves the buffer as it is.\<close>

definition decode_Frame_packet :: "ARMbyte list \<Rightarrow> nat \<Rightarrow> SkyEye_ICE \<Rightarrow> (ARMbyte list option \<times> SkyEye_ICE) sim" where
  "decode_Frame_packet buf i ic0 =
     (let ic = start_trace_focusing ic0 in
      bind_ok (get_at buf i) (\<lambda>ch.
        if ch \<in> set (map of_char ''pro'') then Inr (None, ic)
        else if ch = of_char CHR ''t''
        then bind_ok (scan_hex [0] buf (i + 4) 0) (\<lambda>(n, _).
               case select_frame_buffer_by_tpn n ic of
                 (Some f, ic) \<Rightarrow> Inr (Some (frame_reply f n), ic)
               | (None, ic) \<Rightarrow> Inr (Some (map of_char ''F-1''), ic))
        else bind_ok (scan_hex [0] buf i 0) (\<lambda>(f, _).
               if f = 0xFFFFFFFF then Inr (Some (map of_char ''OK''), stop_trace_focusing ic)
               else case select_frame_buffer_by_fn f ic of
                      (Some n, ic) \<Rightarrow> Inr (Some (frame_reply f n), ic)
                    | (None, ic) \<Rightarrow> Inr (Some (map of_char ''F-1''), ic))))"

text \<open>\<open>at_end\<close> says which of the two addresses the digits belong to.\<close>

function decode_ro_packet :: "ARMbyte list \<Rightarrow> nat \<Rightarrow> bool \<Rightarrow> ARMword \<Rightarrow> ARMword \<Rightarrow> SkyEye_ICE \<Rightarrow> SkyEye_ICE sim" where
  "decode_ro_packet buf i at_end start finish ic =
     (if length buf \<le> i then Inl OutOfBounds
      else let ch = buf ! i; more = (\<lambda>v. push_bit 4 v OR (ucast (fromhex ch) AND 0x0f)) in
        if ch = 0 then Inr (if start \<noteq> 0 \<or> finish \<noteq> 0 then add_ro_region start finish ic else ic)
        else if ch = of_char CHR '','' then decode_ro_packet buf (Suc i) True start finish ic
        else if ch = of_char CHR '':'' then decode_ro_packet buf (Suc i) False 0 0 (add_ro_region start finish ic)
        else if at_end then decode_ro_packet buf (Suc i) True start (more finish) ic
        else decode_ro_packet buf (Suc i) False (more start) finish ic)"
  by pat_completeness auto

termination
  by (relation "measure (\<lambda>(buf, i, at_end, start, finish, ic). length buf - i)") auto

declare decode_ro_packet.simps [simp del]

text \<open>The packets that begin with \<^verbatim>\<open>Q\<close>. \<open>None\<close> is the answer 0, after which the reply is empty.\<close>

definition decode_Q_packet :: "ARMbyte list \<Rightarrow> SkyEye_ICE \<Rightarrow> (ARMbyte list option \<times> SkyEye_ICE) sim" where
  "decode_Q_packet buf ic =
     (let ok = (\<lambda>ic. bind_ok (write_ok buf) (\<lambda>b. Inr (Some b, ic))) in
      bind_ok (get_at buf 1) (\<lambda>ch1. if ch1 \<noteq> of_char CHR ''T'' then Inr (None, ic) else
      bind_ok (get_at buf 2) (\<lambda>ch2.
        if ch2 = of_char CHR ''i'' then ok (init_tracepoints ic)
        else if ch2 = of_char CHR ''S''
        then bind_ok (get_at buf 4) (\<lambda>ch4.
               if ch4 = of_char CHR ''a'' then ok (start_trace_recording ic)
               else if ch4 = of_char CHR ''o'' then ok (stop_trace_recording ic) else Inr (None, ic))
        else if ch2 = of_char CHR ''D'' then bind_ok (decode_DP_packet buf 5 ic) ok
        else if ch2 = of_char CHR ''F''
        then bind_ok (decode_Frame_packet buf 8 ic) (\<lambda>(r, ic).
               case r of None \<Rightarrow> Inr (Some buf, ic) | Some t \<Rightarrow> bind_ok (put_string buf t) (\<lambda>b. Inr (Some b, ic)))
        else if ch2 = of_char CHR ''r'' then bind_ok (decode_ro_packet buf 5 False 0 0 ic) ok
        else Inr (None, ic))))"

section \<open>Replies\<close>

text \<open>The numbers of the registers for program counter, frame and stack pointer are never set and are 0.\<close>

definition outreg :: "ARMbyte list \<Rightarrow> int \<Rightarrow> ARMbyte list" where
  "outreg regs regno =
     [tohex (of_int regno div 16), tohex (of_int regno mod 16), of_char CHR '':''] @
     concat (map hex_pair (take (arm_register_raw_size regno) (drop (nat (arm_register_byte regno)) regs))) @ [of_char CHR '';'']"

definition prepare_resume_reply :: "ARMbyte list \<Rightarrow> ARMbyte list \<Rightarrow> ARMbyte \<Rightarrow> ARMbyte \<Rightarrow> ARMbyte list sim" where
  "prepare_resume_reply regs buf status signo =
     put_string buf (status # hex_pair signo @
       (if status = of_char CHR ''T'' then outreg regs 0 @ outreg regs 0 @ outreg regs 0 else []))"

fun swabx :: "ARMbyte list \<Rightarrow> ARMbyte list" where
  "swabx (a # b # c # d # r) = d # c # b # a # swabx r"
| "swabx r = r"

section \<open>The commands\<close>

text \<open>
  The variables of \<^verbatim>\<open>sim_debug\<close>. \<^verbatim>\<open>status\<close> and \<^verbatim>\<open>signal\<close> have no initial value. \<open>counter\<close> is the one of \<^verbatim>\<open>io_do_cycle\<close>.
\<close>

record session =
  own_buf :: "ARMbyte list"
  mem_buf :: "ARMbyte list"
  registers :: "ARMbyte list"
  gdb_status :: ARMbyte
  gdb_signal :: ARMbyte
  remote_debug :: bool
  counter :: int

type_synonym 'io gstate = "session \<times> 'io ARMul_State \<times> debugger"

definition replied :: "session \<Rightarrow> 'io ARMul_State \<Rightarrow> debugger \<Rightarrow> ARMbyte list sim \<Rightarrow> 'io gstate sim" where
  "replied v s d r = bind_ok r (\<lambda>b. Inr (v\<lparr>own_buf := b\<rparr>, s, d))"

definition cmd_g :: "'io gstate \<Rightarrow> 'io gstate sim" where
  "cmd_g = (\<lambda>(v, s, d).
     bind_ok (if tps_status (ice d) = TRACE_FOCUSING then trace_fetch_registers (ice d) (registers v)
              else fetch_inferior_registers s (-1) (registers v)) (\<lambda>m.
       let m = swabx m
       in replied (v\<lparr>registers := m\<rparr>) s d (convert_int_to_ascii m (own_buf v) 0 register_bytes)))"

definition cmd_G :: "'io gstate \<Rightarrow> 'io gstate sim" where
  "cmd_G = (\<lambda>(v, s, d).
     bind_ok (convert_ascii_to_int (own_buf v) 1 (registers v) 0 register_bytes) (\<lambda>m.
     bind_ok (store_inferior_registers s m) (\<lambda>s. replied (v\<lparr>registers := m\<rparr>) s d (write_ok (own_buf v)))))"

definition cmd_m :: "'io cpu_env \<Rightarrow> 'io gstate \<Rightarrow> 'io gstate sim" where
  "cmd_m env = (\<lambda>(v, s, d).
     bind_ok (decode_m_packet (own_buf v) 1) (\<lambda>(addr, len).
     bind_ok (if tps_status (ice d) = TRACE_FOCUSING \<and> \<not> is_in_ro_region addr len (ice d)
              then bind_ok (trace_read (ice d) addr (mem_buf v) len) (\<lambda>(ok, m). Inr (ok, m, s))
              else sim_read env s addr (mem_buf v) len) (\<lambda>(ok, m, s).
       replied (v\<lparr>mem_buf := m\<rparr>) s d (if ok then convert_int_to_ascii m (own_buf v) 0 (unat len) else write_enn (own_buf v)))))"

definition cmd_M :: "'io cpu_env \<Rightarrow> 'io gstate \<Rightarrow> 'io gstate sim" where
  "cmd_M env = (\<lambda>(v, s, d).
     bind_ok (decode_M_packet (own_buf v) 1 (mem_buf v)) (\<lambda>(addr, len, m).
     bind_ok (sim_write env s addr m len) (\<lambda>(ok, s).
       replied (v\<lparr>mem_buf := m\<rparr>) s d (if ok then write_ok (own_buf v) else write_enn (own_buf v)))))"

definition cmd_Q :: "'io gstate \<Rightarrow> 'io gstate sim" where
  "cmd_Q = (\<lambda>(v, s, d).
     bind_ok (decode_Q_packet (own_buf v) (ice d)) (\<lambda>(r, ic).
       replied v s (d\<lparr>ice := ic\<rparr>) (case r of None \<Rightarrow> put_at (own_buf v) 0 0 | Some b \<Rightarrow> Inr b)))"

definition cmd_q :: "'io gstate \<Rightarrow> 'io gstate sim" where
  "cmd_q = (\<lambda>(v, s, d).
     bind_ok (get_at (own_buf v) 1) (\<lambda>ch.
       replied v s d (if ch = of_char CHR ''T''
                      then put_string (own_buf v) (map of_char (if tps_status (ice d) = TRACE_STARTED then ''T1'' else ''T0''))
                      else put_at (own_buf v) 0 0)))"

text \<open>Insertion and removal of a breakpoint.\<close>

definition cmd_breakpoint :: "(ARMword \<Rightarrow> SkyEye_ICE \<Rightarrow> int \<times> SkyEye_ICE) \<Rightarrow> 'io gstate \<Rightarrow> 'io gstate sim" where
  "cmd_breakpoint f = (\<lambda>(v, s, d).
     let (ty, addr) = decode_breakpoint (c_string (drop 1 (own_buf v)))
     in if ty = 0 \<or> ty = 1
        then let (r, ic) = f addr (ice d)
             in replied v s (d\<lparr>ice := ic\<rparr>) (if r < 0 then write_enn (own_buf v) else write_ok (own_buf v))
        else replied v s d (write_enn (own_buf v)))"

text \<open>The commands that run the program.\<close>

definition resumed :: "session \<Rightarrow> (int \<times> 'io ARMul_State \<times> debugger) sim option \<Rightarrow> 'io gstate sim option" where
  "resumed v r =
     (case r of
        None \<Rightarrow> None
      | Some (Inl e) \<Rightarrow> Some (Inl e)
      | Some (Inr (k, s, d)) \<Rightarrow>
          Some (replied (v\<lparr>counter := k\<rparr>) s d (prepare_resume_reply (registers v) (own_buf v) (gdb_status v) (gdb_signal v))))"

definition handle_command :: "'io dbg_env \<Rightarrow> 'io gstate \<Rightarrow> 'io gstate sim option" where
  "handle_command x = (\<lambda>(v, s, d).
     let ch = own_buf v ! 0
     in if ch = of_char CHR ''d'' then Some (Inr (v\<lparr>remote_debug := \<not> remote_debug v\<rparr>, s, d))
        else if ch = of_char CHR ''?''
        then let v = v\<lparr>gdb_status := of_char CHR ''S'', gdb_signal := 1\<rparr>
             in Some (replied v s d (prepare_resume_reply (registers v) (own_buf v) (gdb_status v) (gdb_signal v)))
        else if ch = of_char CHR ''g'' then Some (cmd_g (v, s, d))
        else if ch = of_char CHR ''G'' then Some (cmd_G (v, s, d))
        else if ch = of_char CHR ''m'' then Some (cmd_m (cpu (emu x)) (v, s, d))
        else if ch = of_char CHR ''M'' then Some (cmd_M (cpu (emu x)) (v, s, d))
        else if ch = of_char CHR ''Q'' then Some (cmd_Q (v, s, d))
        else if ch = of_char CHR ''q'' then Some (cmd_q (v, s, d))
        else if ch = of_char CHR ''c'' then resumed v (gdbserver_cont x (counter v) (s, d))
        else if ch = of_char CHR ''s'' then resumed v (gdbserver_step x (counter v) (s, d))
        else if ch = of_char CHR ''z'' then Some (cmd_breakpoint sim_ice_breakpoint_remove (v, s, d))
        else if ch = of_char CHR ''Z'' then Some (cmd_breakpoint sim_ice_breakpoint_insert (v, s, d))
        else Some (replied v s d (put_at (own_buf v) 0 0)))"

text \<open>
  One packet: whether the connection goes on. The result of \<^verbatim>\<open>putpkt\<close> is not looked at. \<^verbatim>\<open>extended_protocol\<close> is never set.
\<close>

definition send_reply :: "'io dbg_env \<Rightarrow> 'io gstate \<Rightarrow> (bool \<times> 'io gstate) sim" where
  "send_reply x = (\<lambda>(v, s, d).
     bind_ok (putpkt (tx_ok x) (own_buf v) (link d)) (\<lambda>(_, c).
       if gdb_status v = of_char CHR ''W'' \<or> gdb_status v = of_char CHR ''X'' then Inl SkyeyeExit
       else Inr (True, v, s, d\<lparr>link := c\<rparr>)))"

definition serve_packet :: "'io dbg_env \<Rightarrow> 'io gstate \<Rightarrow> (bool \<times> 'io gstate) sim option" where
  "serve_packet x = (\<lambda>(v, s, d).
     case getpkt (tx_ok x) (own_buf v) (link d) of
       Inl e \<Rightarrow> Some (Inl e)
     | Inr (n, b, c) \<Rightarrow>
         let v = v\<lparr>own_buf := b\<rparr>; d = d\<lparr>link := c\<rparr>
         in if n > 0
            then (case handle_command x (v, s, d) of
                    None \<Rightarrow> None
                  | Some r \<Rightarrow> Some (bind_ok r (send_reply x)))
            else Some (Inr (False, v, s, d)))"

partial_function (option) serve :: "'io dbg_env \<Rightarrow> 'io gstate \<Rightarrow> 'io gstate sim option" where
  "serve x st =
     (case serve_packet x st of
        None \<Rightarrow> None
      | Some r \<Rightarrow> (case r of Inl e \<Rightarrow> Some (Inl e) | Inr (go, st) \<Rightarrow> if go then serve x st else Some (Inr st)))"

text \<open>\<^verbatim>\<open>sim_debug\<close>, from its start to the end of the first connection.\<close>

definition sim_debug :: "'io dbg_env \<Rightarrow> 'io gstate \<Rightarrow> 'io gstate sim option" where
  "sim_debug x = (\<lambda>(v, s, d).
     serve x (v\<lparr>registers := malloc_bytes (heap x) register_bytes\<rparr>, s, d\<lparr>ice := (ice d)\<lparr>num_bps := 0\<rparr>\<rparr>))"

section \<open>Reading numbers back\<close>

definition add_digit :: "ARMword \<Rightarrow> ARMbyte \<Rightarrow> ARMword" where
  "add_digit acc d = push_bit 4 acc OR (ucast (fromhex d) AND 0x0f)"

lemma scan_hex_digits:
  "set ds \<inter> set stops = {} \<Longrightarrow> c \<in> set stops \<Longrightarrow>
    scan_hex stops (pre @ ds @ c # rest) (length pre) acc = Inr (foldl add_digit acc ds, length pre + length ds)"
proof (induction ds arbitrary: pre acc)
  case Nil
  then show ?case by (simp add: scan_hex.simps)
next
  case (Cons d ds)
  have "scan_hex stops ((pre @ [d]) @ ds @ c # rest) (length (pre @ [d])) (add_digit acc d) =
      Inr (foldl add_digit (add_digit acc d) ds, length (pre @ [d]) + length ds)"
    using Cons.prems by (intro Cons.IH) auto
  then show ?case using Cons.prems by (subst scan_hex.simps) (simp add: nth_append add_digit_def)
qed

lemma scan_len_digits:
  "0 \<notin> set ds \<Longrightarrow> length ds \<le> n \<Longrightarrow> scan_len n (pre @ ds @ 0 # rest) (length pre) acc = Inr (foldl add_digit acc ds)"
proof (induction ds arbitrary: n pre acc)
  case Nil
  then show ?case by (cases n) (simp_all add: get_at_def)
next
  case (Cons d ds)
  then obtain m where n: "n = Suc m" by (cases n) auto
  have "scan_len m ((pre @ [d]) @ ds @ 0 # rest) (length (pre @ [d])) (add_digit acc d) = Inr (foldl add_digit (add_digit acc d) ds)"
    using Cons.prems n by (intro Cons.IH) auto
  then show ?case using Cons.prems by (simp add: n get_at_def nth_append add_digit_def [symmetric])
qed

lemma tohex_nat:
  assumes "k < 16"
  shows "tohex (of_nat k) \<in> set (map of_char ''0123456789abcdef'')" "ucast (fromhex (tohex (of_nat k))) AND 0x0f = (of_nat k :: ARMword)"
proof -
  have "\<forall>k<16. tohex (of_nat k) \<in> set (map of_char ''0123456789abcdef'') \<and> ucast (fromhex (tohex (of_nat k))) AND 0x0f = (of_nat k :: ARMword)"
    unfolding all_less_16_iff by (simp add: tohex_def fromhex_def)
  then show "tohex (of_nat k) \<in> set (map of_char ''0123456789abcdef'')" "ucast (fromhex (tohex (of_nat k))) AND 0x0f = (of_nat k :: ARMword)"
    using assms by blast+
qed

lemma hex_digits_chars: "set (hex_digits n) \<subseteq> set (map of_char ''0123456789abcdef'')"
proof (induction n rule: hex_digits.induct)
  case (1 n)
  have d: "{tohex (of_nat k)} \<subseteq> set (map of_char ''0123456789abcdef'')" if "k < 16" for k using tohex_nat(1) [OF that] by blast
  have e: "set (hex_digits n) = (if n < 16 then {tohex (of_nat n)} else set (hex_digits (n div 16)) \<union> {tohex (of_nat (n mod 16))})"
    by (subst hex_digits.simps) simp
  have m: "n mod 16 < 16" by simp
  show ?case
  proof (cases "n < 16")
    case True
    show ?thesis using d [OF True] unfolding e if_P [OF True] .
  next
    case False
    show ?thesis using 1 [OF False] d [OF m] unfolding e if_not_P [OF False] by (rule Un_least)
  qed
qed

lemma add_digit_nat:
  assumes "k < 16"
  shows "add_digit x (tohex (of_nat k)) = 16 * x + of_nat k"
proof -
  have "push_bit 4 x + (of_nat k AND 0xf) = push_bit 4 x OR (of_nat k AND 0xf)" for x :: ARMword
  proof (rule disjunctive_add)
    fix n
    have "of_nat k AND 0xf = take_bit 4 (of_nat k :: ARMword)" by (simp add: take_bit_eq_mask mask_numeral)
    then show "\<not> bit (push_bit 4 x) n \<or> \<not> bit ((of_nat k :: ARMword) AND 0xf) n" by (simp add: bit_simps)
  qed
  moreover have "of_nat k AND 0xf = (of_nat k :: ARMword)" using tohex_nat(2) [OF assms] by (metis and.idem and.assoc)
  ultimately show ?thesis using tohex_nat(2) [OF assms] by (simp add: add_digit_def push_bit_eq_mult mult.commute)
qed

lemma hex_digits_value: "foldl add_digit 0 (hex_digits n) = of_nat n"
proof (induction n rule: hex_digits.induct)
  case (1 n)
  show ?case
  proof (cases "n < 16")
    case True
    then show ?thesis using add_digit_nat [of n 0] by (subst hex_digits.simps) simp
  next
    case False
    have "16 * of_nat (n div 16) + of_nat (n mod 16) = (of_nat n :: ARMword)"
      by (metis mult_div_mod_eq of_nat_add of_nat_mult of_nat_numeral)
    then show ?thesis
      using 1 False add_digit_nat [of "n mod 16" "of_nat (n div 16)"] by (subst hex_digits.simps) (simp del: of_nat_mod of_nat_div)
  qed
qed

lemma hex_digits_length: "n < 16 ^ Suc k \<Longrightarrow> length (hex_digits n) \<le> Suc k"
proof (induction n arbitrary: k rule: hex_digits.induct)
  case (1 n)
  show ?case
  proof (cases "n < 16")
    case False
    then obtain j where k: "k = Suc j" using 1(2) by (cases k) auto
    have "n div 16 < 16 ^ Suc j" using 1(2) k by (simp add: less_mult_imp_div_less mult.commute)
    then show ?thesis using 1(1) [OF False] False k by (subst hex_digits.simps) simp
  qed (simp add: hex_digits.simps)
qed

text \<open>The two packets for memory, as a client writes them.\<close>

definition M_packet :: "ARMword \<Rightarrow> ARMbyte list \<Rightarrow> ARMbyte list" where
  "M_packet a bs = map of_char ''M'' @ hex_digits (unat a) @ map of_char '','' @ hex_digits (length bs) @ map of_char '':'' @
     concat (map hex_pair bs)"

definition m_packet :: "ARMword \<Rightarrow> nat \<Rightarrow> ARMbyte list" where
  "m_packet a n = map of_char ''m'' @ hex_digits (unat a) @ map of_char '','' @ hex_digits n"

lemma digits_disjoint: "set stops \<inter> set (map of_char ''0123456789abcdef'') = {} \<Longrightarrow> set (hex_digits n) \<inter> set stops = {}"
  using hex_digits_chars [of n] by blast

lemma stops_plain:
  "set [of_char CHR '','' :: ARMbyte] \<inter> set (map of_char ''0123456789abcdef'') = {}"
  "set [of_char CHR '':'' :: ARMbyte] \<inter> set (map of_char ''0123456789abcdef'') = {}"
  "(0 :: ARMbyte) \<notin> set (map of_char ''0123456789abcdef'')"
  by simp_all

lemma decode_m_packet_text:
  assumes "n < 0x10000"
  shows "decode_m_packet (m_packet a n @ 0 # rest) 1 = Inr (a, of_nat n)"
proof -
  let ?A = "hex_digits (unat a)" and ?N = "hex_digits n"
  have "scan_hex [of_char CHR '',''] ([of_char CHR ''m''] @ ?A @ of_char CHR '','' # ?N @ 0 # rest) (length [of_char CHR ''m'' :: ARMbyte]) 0 =
      Inr (foldl add_digit 0 ?A, length [of_char CHR ''m'' :: ARMbyte] + length ?A)"
    by (rule scan_hex_digits) (use digits_disjoint [OF stops_plain(1)] in simp_all)
  moreover have "scan_len 4 ((of_char CHR ''m'' # ?A @ [of_char CHR '','']) @ ?N @ 0 # rest) (length (of_char CHR ''m'' # ?A @ [of_char CHR '','' :: ARMbyte])) 0
      = Inr (foldl add_digit 0 ?N)"
  proof (rule scan_len_digits)
    show "0 \<notin> set ?N" using hex_digits_chars [of n] stops_plain(3) by blast
    show "length ?N \<le> 4" using hex_digits_length [of n 3] assms by simp
  qed
  ultimately show ?thesis by (simp add: decode_m_packet_def m_packet_def hex_digits_value)
qed

lemma decode_M_packet_text:
  assumes "length bs \<le> length to" "length bs < 2 ^ 32"
  shows "decode_M_packet (M_packet a bs @ 0 # rest) 1 to = Inr (a, of_nat (length bs), bs @ drop (length bs) to)"
proof -
  let ?A = "hex_digits (unat a)" and ?N = "hex_digits (length bs)" and ?D = "concat (map hex_pair bs)"
  let ?buf = "M_packet a bs @ 0 # rest"
  have "scan_hex [of_char CHR '',''] ([of_char CHR ''M''] @ ?A @ of_char CHR '','' # ?N @ of_char CHR '':'' # ?D @ 0 # rest) (length [of_char CHR ''M'' :: ARMbyte]) 0 =
      Inr (foldl add_digit 0 ?A, length [of_char CHR ''M'' :: ARMbyte] + length ?A)"
    by (rule scan_hex_digits) (use digits_disjoint [OF stops_plain(1)] in simp_all)
  then have a: "scan_hex [of_char CHR '',''] ?buf 1 0 = Inr (a, 1 + length ?A)" by (simp add: M_packet_def hex_digits_value)
  have "scan_hex [of_char CHR '':''] ((of_char CHR ''M'' # ?A @ [of_char CHR '','']) @ ?N @ of_char CHR '':'' # ?D @ 0 # rest)
      (length (of_char CHR ''M'' # ?A @ [of_char CHR '','' :: ARMbyte])) 0 =
      Inr (foldl add_digit 0 ?N, length (of_char CHR ''M'' # ?A @ [of_char CHR '','' :: ARMbyte]) + length ?N)"
    by (rule scan_hex_digits) (use digits_disjoint [OF stops_plain(2)] in simp_all)
  then have n: "scan_hex [of_char CHR '':''] ?buf (1 + length ?A + 1) 0 = Inr (of_nat (length bs), 1 + length ?A + 1 + length ?N)"
    by (simp add: M_packet_def hex_digits_value)
  have "convert_ascii_to_int ?buf (1 + length ?A + 1 + length ?N + 1) to 0 (length bs) = Inr (take 0 to @ bs @ drop (0 + length bs) to)"
    by (rule convert_ascii_to_int_hex) (use assms in \<open>simp_all add: M_packet_def\<close>)
  moreover have "unat (of_nat (length bs) :: ARMword) = length bs" using assms(2) by (simp add: unsigned_of_nat take_bit_nat_eq_self)
  ultimately show ?thesis using a n by (simp add: decode_M_packet_def)
qed

section \<open>Memory through the debugger\<close>

text \<open>Accesses of the debugger that do not fault, as a store.\<close>

definition ice_read :: "'io cpu_env \<Rightarrow> 'io ARMul_State \<Rightarrow> ARMword \<Rightarrow> (ARMbyte \<times> 'io ARMul_State) sim" where
  "ice_read env s a = bind_ok (ARMul_ICE_ReadByte env s a) (\<lambda>(fault, v, s). if fault then Inl Uninitialised else Inr (v, s))"

definition ice_write :: "'io cpu_env \<Rightarrow> 'io ARMul_State \<Rightarrow> ARMword \<Rightarrow> ARMbyte \<Rightarrow> 'io ARMul_State sim" where
  "ice_write env s a v = bind_ok (ARMul_ICE_WriteByte env s a (ucast v)) (\<lambda>(fault, s). if fault then Inl Uninitialised else Inr s)"

definition ice_byte :: "'io ARMul_State \<Rightarrow> ARMword \<Rightarrow> ARMbyte" where
  "ice_byte s a = ucast (peek_byte s a)"

text \<open>RAM of a processor whose address translation is off.\<close>

definition ice_ok :: "'io arm_env \<Rightarrow> 'io ARMul_State \<Rightarrow> ARMword \<Rightarrow> bool" where
  "ice_ok env s a \<longleftrightarrow> 0 < stack_depth env \<and> \<not> MMU_Enabled s \<and> process_id (mmu s) = 0 \<and> ram_ok s a"

lemma ice_read_ram:
  assumes "ice_ok env s a"
  shows "\<exists>t. ice_read (with_arm926 c env) s a = Inr (ice_byte s a, t) \<and> (\<forall>b. ice_ok env t b = ice_ok env s b) \<and>
    (\<forall>b. ice_ok env s b \<longrightarrow> ice_byte t b = ice_byte s b)"
proof -
  obtain n where n: "stack_depth env = Suc n" using assms by (cases "stack_depth env") (auto simp: ice_ok_def)
  have ok: "ram_ok s a" "\<not> MMU_Enabled s" "process_id (mmu s) = 0" using assms by (auto simp: ice_ok_def)
  obtain t where t: "mem_read_byte env (Suc n) s a = Inr (peek_byte s a, t)" "same_memory s t" using mem_read_ram(3) [OF ok(1)] by blast
  have "ice_read (with_arm926 c env) s a = Inr (ice_byte s a, t)"
    using ok t n by (simp add: ice_read_def ice_byte_def ARMul_ICE_ReadByte_def GetByte_def arm926ejs_mmu_ops_def arm926ejs_mmu_read_def mmu_pid_va_map_def)
  moreover have "mmu t = mmu s" using t(2) by (auto simp: same_memory_def)
  ultimately show ?thesis
    using same_memory_peek [OF t(2) ok(1)] by (auto simp: ice_ok_def ice_byte_def MMU_Enabled_def)
qed

lemma ice_write_ram:
  assumes "ice_ok env s a"
  shows "\<exists>t. ice_write (with_arm926 c env) s a v = Inr t \<and> (\<forall>b. ice_ok env t b = ice_ok env s b) \<and>
    (\<forall>b. ice_ok env s b \<longrightarrow> ice_byte t b = (if a = b then v else ice_byte s b))"
proof -
  obtain n where n: "stack_depth env = Suc n" using assms by (cases "stack_depth env") (auto simp: ice_ok_def)
  have ok: "ram_ok s a" "\<not> MMU_Enabled s" "process_id (mmu s) = 0" using assms by (auto simp: ice_ok_def)
  let ?w = "\<lambda>d. (peek_word s a AND NOT (push_bit (byte_offset (bigendSig s) a) 0xff)) OR push_bit (byte_offset (bigendSig s) a) (d AND 0xff)"
  obtain t where t: "mem_write_byte env (Suc n) s a (ucast v) = Inr t" "poke s a (?w (ucast v)) t" using mem_write_ram(3) [OF ok(1)] by blast
  have "ice_write (with_arm926 c env) s a v = Inr t"
    using ok t(1) n by (simp add: ice_write_def ARMul_ICE_WriteByte_def PutByte_def arm926ejs_mmu_ops_def arm926ejs_mmu_write_def mmu_pid_va_map_def)
  moreover have "mmu t = mmu s" using t(2) by (auto simp: poke_def same_memory_def put_cell_def)
  moreover have "(ucast v AND 0xff :: ARMword) = take_bit 8 (ucast v)" by (simp add: take_bit_eq_mask mask_numeral)
  then have "ucast (ucast v AND 0xff :: ARMword) = v" by (simp only:) (rule bit_word_eqI, auto simp: bit_simps)
  ultimately show ?thesis
    using poke_peek(2) [OF t(2) ok(1)] peek_byte_poke [OF t(2) ok(1)] by (auto simp: ice_ok_def ice_byte_def MMU_Enabled_def)
qed

interpretation ice_store: store "ice_read (with_arm926 c env)" "ice_write (with_arm926 c env)" ice_byte "ice_ok env" "(=)" "\<lambda>v. v" for c env
proof (unfold_locales, goal_cases)
  case (1 s a)
  then show ?case by (rule ice_read_ram)
next
  case (2 s a v)
  then show ?case by (rule ice_write_ram)
qed auto

definition addresses :: "ARMword \<Rightarrow> nat \<Rightarrow> ARMword list" where
  "addresses a n = map (\<lambda>k. a + of_nat k) [0..<n]"

lemma addresses_simps [simp]: "addresses a 0 = []" "addresses a (Suc n) = a # addresses (a + 1) n" "length (addresses a n) = n"
proof -
  have "[0..<Suc n] = 0 # map Suc [0..<n]" by (simp add: map_Suc_upt upt_conv_Cons)
  then show "addresses a (Suc n) = a # addresses (a + 1) n" by (simp add: addresses_def algebra_simps)
qed (simp_all add: addresses_def)

lemma addresses_distinct: "n < 2 ^ 32 \<Longrightarrow> distinct (addresses a n)"
proof -
  assume n: "n < 2 ^ 32"
  have "inj_on (\<lambda>k. a + of_nat k) {0..<n}"
  proof (rule inj_onI)
    fix j k assume jk: "j \<in> {0..<n}" "k \<in> {0..<n}" "a + of_nat j = a + (of_nat k :: ARMword)"
    then have "unat (of_nat j :: ARMword) = unat (of_nat k :: ARMword)" by simp
    then show "j = k" using jk n by (simp add: unsigned_of_nat take_bit_nat_eq_self)
  qed
  then show ?thesis by (simp add: addresses_def distinct_map)
qed

lemma read_bytes_list:
  "store.read_list (ice_read (with_arm926 c env)) s (addresses a n) = Inr (vs, t) \<Longrightarrow> i + n \<le> length buf \<Longrightarrow>
    ice_read_bytes (with_arm926 c env) s a buf i n = Inr (True, take i buf @ vs @ drop (i + n) buf, t)"
proof (induction n arbitrary: s a buf i vs)
  case (Suc n)
  obtain v u ws where r: "ice_read (with_arm926 c env) s a = Inr (v, u)" "vs = v # ws"
      "store.read_list (ice_read (with_arm926 c env)) u (addresses (a + 1) n) = Inr (ws, t)"
    using Suc.prems(1) by (auto simp: bind_ok_def split: sum.splits)
  have "ARMul_ICE_ReadByte (with_arm926 c env) s a = Inr (False, v, u)"
    using r(1) by (auto simp: ice_read_def bind_ok_def split: sum.splits if_splits)
  moreover have "ice_read_bytes (with_arm926 c env) u (a + 1) (buf[i := v]) (Suc i) n =
      Inr (True, take (Suc i) (buf[i := v]) @ ws @ drop (Suc i + n) (buf[i := v]), t)"
    using Suc.prems(2) by (intro Suc.IH [OF r(3)]) simp
  ultimately show ?case using Suc.prems(2) r(2) by (simp add: put_at_def take_Suc_conv_app_nth)
qed simp

lemma write_bytes_list:
  "store.write_list (ice_write (with_arm926 c env)) s (zip (addresses a (length bs)) bs) = Inr t \<Longrightarrow>
    ice_write_bytes (with_arm926 c env) s a bs = Inr (True, t)"
proof (induction bs arbitrary: s a)
  case (Cons b bs)
  obtain u where r: "ice_write (with_arm926 c env) s a b = Inr u"
      "store.write_list (ice_write (with_arm926 c env)) u (zip (addresses (a + 1) (length bs)) bs) = Inr t"
    using Cons.prems by (auto simp: bind_ok_def split: sum.splits)
  have "ARMul_ICE_WriteByte (with_arm926 c env) s a (ucast b) = Inr (False, u)"
    using r(1) by (auto simp: ice_write_def bind_ok_def split: sum.splits if_splits)
  then show ?case using Cons.IH [OF r(2)] by simp
qed simp

lemma distinct_cells: "distinct (map f xs) \<Longrightarrow> sorted_wrt (\<lambda>p q. \<not> f p = f q) xs"
  by (induction xs) auto

lemma bytes_written:
  assumes "\<forall>b\<in>set (addresses a (length bs)). ice_ok env s b" "length bs < 2 ^ 32"
  shows "\<exists>t. ice_write_bytes (with_arm926 c env) s a bs = Inr (True, t) \<and> (\<forall>b. ice_ok env t b = ice_ok env s b) \<and>
    map (ice_byte t) (addresses a (length bs)) = bs"
proof -
  let ?z = "zip (addresses a (length bs)) bs"
  have "distinct (map fst ?z)" using addresses_distinct [OF assms(2), of a] by simp
  then have "sorted_wrt (\<lambda>p q. \<not> fst p = fst q) ?z" by (rule distinct_cells)
  moreover have "\<forall>p\<in>set ?z. ice_ok env s (fst p)" using assms(1) by (auto dest: set_zip_leftD)
  ultimately obtain t where t: "store.write_list (ice_write (with_arm926 c env)) s ?z = Inr t" "\<forall>b. ice_ok env t b = ice_ok env s b"
      "\<forall>p\<in>set ?z. ice_byte t (fst p) = snd p"
    using ice_store.write_list_values [of ?z env s c] by auto
  have "map (ice_byte t \<circ> fst) ?z = map snd ?z" by (rule map_cong) (use t(3) in auto)
  then have "map (ice_byte t) (map fst ?z) = map snd ?z" by (simp only: map_map)
  then show ?thesis using write_bytes_list [OF t(1)] t(2) by (simp add: map_fst_zip map_snd_zip)
qed

lemma bytes_read:
  assumes "\<forall>b\<in>set (addresses a n). ice_ok env s b" "n \<le> length buf"
  shows "\<exists>t. ice_read_bytes (with_arm926 c env) s a buf 0 n = Inr (True, map (ice_byte s) (addresses a n) @ drop n buf, t)"
  using ice_store.read_list_values [OF assms(1)] read_bytes_list [of c env s a n _ _ 0 buf] assms(2) by fastforce

lemma sint_length: "n < 0x10000 \<Longrightarrow> nat (sint (of_nat n :: ARMword)) = n"
  using sint_small [of n] by simp

lemma M_command:
  assumes "own_buf v = M_packet a bs @ 0 # rest" "length bs \<le> length (mem_buf v)" "length bs < 0x10000"
    "\<forall>b\<in>set (addresses a (length bs)). ice_ok env s b" "cpu (emu x) = with_arm926 c env"
  shows "\<exists>v' t. handle_command x (v, s, d) = Some (Inr (v', t, d)) \<and> c_string (own_buf v') = map of_char ''OK'' \<and>
    (\<forall>b. ice_ok env t b = ice_ok env s b) \<and> map (ice_byte t) (addresses a (length bs)) = bs"
proof -
  let ?m = "bs @ drop (length bs) (mem_buf v)"
  have d: "decode_M_packet (own_buf v) 1 (mem_buf v) = Inr (a, of_nat (length bs), ?m)"
    using decode_M_packet_text [OF assms(2), of a rest] assms(1,3) by simp
  obtain t where t: "ice_write_bytes (with_arm926 c env) s a bs = Inr (True, t)" "\<forall>b. ice_ok env t b = ice_ok env s b"
      "map (ice_byte t) (addresses a (length bs)) = bs"
    using bytes_written [OF assms(4)] assms(3) by auto
  have w: "sim_write (with_arm926 c env) s a ?m (of_nat (length bs)) = Inr (True, t)"
    using t(1) sint_length [OF assms(3)] by (simp add: sim_write_def)
  have "2 < length (own_buf v)" using assms(1) by (simp add: M_packet_def)
  then have ok: "write_ok (own_buf v) = Inr (map of_char ''OK'' @ 0 # drop 3 (own_buf v))"
    using put_string_ok [of "map of_char ''OK''" "own_buf v"] by (simp add: write_ok_def numeral_3_eq_3)
  have "own_buf v ! 0 = of_char CHR ''M''" using assms(1) by (simp add: M_packet_def)
  then have "handle_command x (v, s, d) = Some (Inr (v\<lparr>mem_buf := ?m, own_buf := map of_char ''OK'' @ 0 # drop 3 (own_buf v)\<rparr>, t, d))"
    using d w ok assms(5) by (simp add: handle_command_def cmd_M_def replied_def)
  then show ?thesis using t(2,3) c_string_put [of "map of_char ''OK''" "drop 3 (own_buf v)"] by auto
qed

lemma m_command:
  assumes "own_buf v = m_packet a n @ 0 # rest" "n \<le> length (mem_buf v)" "n < 0x10000" "2 * n < length (own_buf v)"
    "\<forall>b\<in>set (addresses a n). ice_ok env s b" "cpu (emu x) = with_arm926 c env" "tps_status (ice d) \<noteq> TRACE_FOCUSING"
  shows "\<exists>v' t. handle_command x (v, s, d) = Some (Inr (v', t, d)) \<and>
    c_string (own_buf v') = concat (map hex_pair (map (ice_byte s) (addresses a n))) \<and> length (own_buf v') = length (own_buf v) \<and>
    gdb_status v' = gdb_status v"
proof -
  let ?bs = "map (ice_byte s) (addresses a n)"
  let ?m = "?bs @ drop n (mem_buf v)" and ?t = "concat (map hex_pair ?bs)"
  have d: "decode_m_packet (own_buf v) 1 = Inr (a, of_nat n)" using decode_m_packet_text [OF assms(3)] assms(1) by simp
  obtain t where "ice_read_bytes (with_arm926 c env) s a (mem_buf v) 0 n = Inr (True, ?m, t)" using bytes_read [OF assms(5,2)] by blast
  then have r: "sim_read (with_arm926 c env) s a (mem_buf v) (of_nat n) = Inr (True, ?m, t)"
    using sint_length [OF assms(3)] by (simp add: sim_read_def)
  have u: "unat (of_nat n :: ARMword) = n" using assms(3) by (simp add: unsigned_of_nat take_bit_nat_eq_self)
  have "length ?t = 2 * n" using length_hex_dump [of ?bs] by simp
  then have c: "convert_int_to_ascii ?m (own_buf v) 0 n = Inr (?t @ 0 # drop (Suc (2 * n)) (own_buf v))"
    using put_all_simps [of 0 "?t @ [0]" "own_buf v"] assms(4) by (simp add: convert_int_to_ascii_def del: length_hex_dump)
  have "own_buf v ! 0 = of_char CHR ''m''" using assms(1) by (simp add: m_packet_def)
  then have "handle_command x (v, s, d) = Some (Inr (v\<lparr>mem_buf := ?m, own_buf := ?t @ 0 # drop (Suc (2 * n)) (own_buf v)\<rparr>, t, d))"
    using d r u c assms(6,7) by (simp add: handle_command_def cmd_m_def replied_def)
  moreover have "0 \<notin> set ?t" using hex_dump_plain by blast
  ultimately show ?thesis
    using c_string_put [of ?t] \<open>length ?t = 2 * n\<close> assms(4) by auto
qed

text \<open>
  C24: what the debugger writes to memory it reads back. On RAM with address translation off, the packet that writes the
  bytes \<open>bs\<close> at an address is answered with \<^verbatim>\<open>OK\<close>, and the packet that then reads as many bytes there is answered with
  their hexadecimal digits, whatever was in the buffers before.
\<close>

theorem memory_packets:
  assumes "own_buf v = M_packet a bs @ 0 # rest" "length bs \<le> length (mem_buf v)" "length bs < 0x10000"
    "\<forall>b\<in>set (addresses a (length bs)). ice_ok env s b" "cpu (emu x) = with_arm926 c env" "tps_status (ice d) \<noteq> TRACE_FOCUSING"
  shows "\<exists>v1 t. handle_command x (v, s, d) = Some (Inr (v1, t, d)) \<and> c_string (own_buf v1) = map of_char ''OK'' \<and>
    (\<forall>v2 rest'. own_buf v2 = m_packet a (length bs) @ 0 # rest' \<longrightarrow> length bs \<le> length (mem_buf v2) \<longrightarrow>
       2 * length bs < length (own_buf v2) \<longrightarrow>
       (\<exists>v3 u. handle_command x (v2, t, d) = Some (Inr (v3, u, d)) \<and> c_string (own_buf v3) = concat (map hex_pair bs)))"
proof -
  obtain v1 t where w: "handle_command x (v, s, d) = Some (Inr (v1, t, d))" "c_string (own_buf v1) = map of_char ''OK''"
      "\<forall>b. ice_ok env t b = ice_ok env s b" "map (ice_byte t) (addresses a (length bs)) = bs"
    using M_command [OF assms(1-5)] by blast
  have ok: "\<forall>b\<in>set (addresses a (length bs)). ice_ok env t b" using assms(4) w(3) by simp
  show ?thesis using w(1,2) m_command [OF _ _ assms(3) _ ok assms(5,6)] unfolding w(4) by blast
qed

text \<open>
  Reading a thousand bytes overruns a buffer on the stack. The digits of 998 bytes and more fit the buffer of
  the command but not that of \<^verbatim>\<open>putpkt\<close>, which copies them without looking at its size.
\<close>

lemma long_read_overflows:
  assumes "own_buf v = m_packet a n @ 0 # rest" "n \<le> length (mem_buf v)" "998 \<le> n" "n < 0x10000" "2 * n < length (own_buf v)"
    "\<forall>b\<in>set (addresses a n). ice_ok env s b" "cpu (emu x) = with_arm926 c env" "tps_status (ice d) \<noteq> TRACE_FOCUSING"
  shows "\<exists>r. handle_command x (v, s, d) = Some (Inr r) \<and> send_reply x r = Inl OutOfBounds"
proof -
  obtain v' t where h: "handle_command x (v, s, d) = Some (Inr (v', t, d))"
      "c_string (own_buf v') = concat (map hex_pair (map (ice_byte s) (addresses a n)))"
    using m_command [OF assms(1,2,4-8)] by blast
  have "length (concat (map hex_pair (map (ice_byte s) (addresses a n)))) = 2 * n"
    using length_hex_dump [of "map (ice_byte s) (addresses a n)"] by simp
  then have "length (c_string (own_buf v')) = 2 * n" unfolding h(2) .
  then have "2000 < length (frame (c_string (own_buf v'))) + 1" using assms(3) by (simp add: frame_def hex_pair_def)
  then have "putpkt (tx_ok x) (own_buf v') (link d) = Inl OutOfBounds" by (simp add: putpkt_def Let_def)
  then show ?thesis using h(1) by (auto simp: send_reply_def)
qed

section \<open>Registers through the debugger\<close>

definition G_packet :: "ARMbyte list \<Rightarrow> ARMbyte list" where
  "G_packet m = map of_char ''G'' @ concat (map hex_pair m)"

definition swapped :: "ARMword \<Rightarrow> ARMword" where
  "swapped v = frommem (rev (tomem v))"

lemma length_swabx [simp]: "length (swabx m) = length m"
  by (induction m rule: swabx.induct) simp_all

lemma drop_swabx: "drop (4 * r) (swabx m) = swabx (drop (4 * r) m)"
proof (induction m arbitrary: r rule: swabx.induct)
  case (1 a b c d m)
  show ?case
  proof (cases r)
    case (Suc k)
    then have k: "4 * r = Suc (Suc (Suc (Suc (4 * k))))" by simp
    show ?thesis using 1 [of k] unfolding k by simp
  qed simp
qed (case_tac r; simp)+

lemma four_bytes: "4 \<le> length m \<Longrightarrow> \<exists>a b c d r. m = a # b # c # d # r"
  by (cases m; cases "tl m"; cases "tl (tl m)"; cases "tl (tl (tl m))") auto

lemma tomem_frommem: "tomem (frommem (a # b # c # d # r)) = [a, b, c, d]"
proof -
  have far: "\<not> bit w (8 + n)" "\<not> bit w (16 + n)" "\<not> bit w (24 + n)" for w :: ARMbyte and n
    by (auto dest: bit_imp_le_length)
  show ?thesis by (auto simp: tomem_def frommem_def endian_flag_def Let_def bit_simps far intro!: bit_word_eqI)
qed

lemma frommem_swabx:
  assumes "4 \<le> length m"
  shows "frommem (swabx m) = swapped (frommem m)"
proof -
  obtain a b c d r where m: "m = a # b # c # d # r" using four_bytes [OF assms] by blast
  then show ?thesis unfolding swapped_def m tomem_frommem by (simp add: frommem_def)
qed

lemma SetCPSR_low: "r < 8 \<Longrightarrow> Reg (ARMul_SetCPSR s v) r = Reg s r"
  by (simp add: ARMul_SetCPSR_def ARMul_CPSRAltered_def cpsr_switch_mode_def cpsr_assign_flags_def set_reg_def Let_def)

lemma get_registers_append: "get_registers s m (rs @ qs) = get_registers (get_registers s m rs) m qs"
  by (induction rs arbitrary: s) simp_all

lemma get_registers_current:
  "Mode s AND MODEBITS = Mode s \<Longrightarrow> \<forall>r\<in>set rs. 0 \<le> r \<and> r < 25 \<Longrightarrow> k < 16 \<Longrightarrow>
    Reg (get_registers s m rs) k = (if int k \<in> set rs then frommem (drop (4 * k) m) else Reg s k)"
proof (induction rs arbitrary: s)
  case (Cons r rs)
  let ?s = "arm_store_register s r (drop (nat (arm_register_byte r)) m)"
  have "Mode ?s = Mode s" "Reg ?s k = (if int k = r then frommem (drop (4 * k) m) else Reg s k)"
    using Cons.prems by (auto simp: arm_store_register_def ARMul_SetReg_def set_reg_def arm_register_byte_def nat_mult_distrib mult.commute)
  then show ?case using Cons.IH [of ?s] Cons.prems by simp
qed simp

lemma store_low_registers:
  assumes "Mode s AND MODEBITS = Mode s" "length m = register_bytes"
  shows "\<exists>t. store_inferior_registers s m = Inr t \<and> (\<forall>r<8. Reg t r = frommem (drop (4 * r) m))"
proof -
  have "[0..25] = [0..24] @ [25]" by (simp add: upto.simps)
  then have "Reg (get_registers s m [0..25]) r = frommem (drop (4 * r) m)" if "r < 8" for r
    using that assms(1) by (simp add: get_registers_append arm_store_register_def SetCPSR_low get_registers_current)
  then show ?thesis using assms(2) by (simp add: store_inferior_registers_def)
qed

lemma g_command:
  assumes "own_buf v ! 0 = of_char CHR ''g''" "2 * register_bytes < length (own_buf v)" "length (registers v) = register_bytes"
    "tps_status (ice d) \<noteq> TRACE_FOCUSING"
  shows "\<exists>v' m. handle_command x (v, s, d) = Some (Inr (v', s, d)) \<and> holds_registers m s \<and>
    c_string (own_buf v') = concat (map hex_pair (swabx m))"
proof -
  obtain m where m: "fetch_inferior_registers s (-1) (registers v) = Inr m" "holds_registers m s"
    using fetch_all_registers [OF assms(3)] by blast
  have l: "length m = register_bytes" using m(2) by (simp add: holds_registers_def)
  let ?t = "concat (map hex_pair (swabx m))"
  have "length ?t = 2 * register_bytes" using length_hex_dump [of "swabx m"] l by simp
  then have "convert_int_to_ascii (swabx m) (own_buf v) 0 register_bytes = Inr (?t @ 0 # drop (Suc (2 * register_bytes)) (own_buf v))"
    using put_all_simps [of 0 "?t @ [0]" "own_buf v"] assms(2) l by (simp add: convert_int_to_ascii_def del: length_hex_dump)
  then have "handle_command x (v, s, d) = Some (Inr (v\<lparr>registers := swabx m, own_buf := ?t @ 0 # drop (Suc (2 * register_bytes)) (own_buf v)\<rparr>, s, d))"
    using m(1) assms(1,4) by (simp add: handle_command_def cmd_g_def replied_def Let_def)
  moreover have "0 \<notin> set ?t" using hex_dump_plain by blast
  ultimately show ?thesis using m(2) c_string_put [of ?t] by auto
qed

lemma G_command:
  assumes "own_buf v = G_packet m @ 0 # rest" "length m = register_bytes" "length (registers v) = register_bytes"
    "Mode s AND MODEBITS = Mode s"
  shows "\<exists>v' t. handle_command x (v, s, d) = Some (Inr (v', t, d)) \<and> c_string (own_buf v') = map of_char ''OK'' \<and>
    (\<forall>r<8. Reg t r = frommem (drop (4 * r) m))"
proof -
  have "convert_ascii_to_int (own_buf v) 1 (registers v) 0 (length m) = Inr (take 0 (registers v) @ m @ drop (0 + length m) (registers v))"
    by (rule convert_ascii_to_int_hex) (use assms in \<open>simp_all add: G_packet_def\<close>)
  then have c: "convert_ascii_to_int (own_buf v) 1 (registers v) 0 register_bytes = Inr m" using assms(2,3) by simp
  obtain t where t: "store_inferior_registers s m = Inr t" "\<forall>r<8. Reg t r = frommem (drop (4 * r) m)"
    using store_low_registers [OF assms(4,2)] by blast
  have "2 < length (own_buf v)" using assms(1,2) by (simp add: G_packet_def register_bytes_def)
  then have ok: "write_ok (own_buf v) = Inr (map of_char ''OK'' @ 0 # drop 3 (own_buf v))"
    using put_string_ok [of "map of_char ''OK''" "own_buf v"] by (simp add: write_ok_def numeral_3_eq_3)
  have "own_buf v ! 0 = of_char CHR ''G''" using assms(1) by (simp add: G_packet_def)
  then have "handle_command x (v, s, d) = Some (Inr (v\<lparr>registers := m, own_buf := map of_char ''OK'' @ 0 # drop 3 (own_buf v)\<rparr>, t, d))"
    using c t(1) ok by (simp add: handle_command_def cmd_G_def replied_def)
  then show ?thesis using t(2) c_string_put [of "map of_char ''OK''" "drop 3 (own_buf v)"] by auto
qed

text \<open>
  A client that writes back the registers it read changes them. The reply to \<^verbatim>\<open>g\<close> holds every register with its bytes
  in the opposite order, and the command \<^verbatim>\<open>G\<close> with the same digits stores them in that order.
\<close>

lemma registers_written_swapped:
  assumes "own_buf v ! 0 = of_char CHR ''g''" "2 * register_bytes < length (own_buf v)" "length (registers v) = register_bytes"
    "tps_status (ice d) \<noteq> TRACE_FOCUSING" "Mode s AND MODEBITS = Mode s"
  shows "\<exists>v1 m. handle_command x (v, s, d) = Some (Inr (v1, s, d)) \<and> c_string (own_buf v1) = concat (map hex_pair m) \<and>
    (\<forall>v2 rest. own_buf v2 = G_packet m @ 0 # rest \<longrightarrow> length (registers v2) = register_bytes \<longrightarrow>
      (\<exists>v3 t. handle_command x (v2, s, d) = Some (Inr (v3, t, d)) \<and> c_string (own_buf v3) = map of_char ''OK'' \<and>
         (\<forall>r<8. Reg t r = swapped (Reg s r))))"
proof -
  obtain v1 m where g: "handle_command x (v, s, d) = Some (Inr (v1, s, d))" "holds_registers m s"
      "c_string (own_buf v1) = concat (map hex_pair (swabx m))"
    using g_command [OF assms(1-4)] by blast
  have l: "length m = register_bytes" using g(2) by (simp add: holds_registers_def)
  have r: "frommem (drop (4 * r) (swabx m)) = swapped (Reg s r)" if "r < 8" for r
  proof -
    have "4 \<le> length (drop (4 * r) m)" using that l by (simp add: register_bytes_def)
    then show ?thesis
      using frommem_swabx that g(2) assms(5) by (simp add: drop_swabx holds_registers_def ARMul_GetReg_def)
  qed
  have "length (swabx m) = register_bytes" using l by simp
  note G = G_command [OF _ this _ assms(5), of _ _ x d]
  then show ?thesis using g(1,3) r by (intro exI [of _ v1] exI [of _ "swabx m"]) fastforce
qed

section \<open>Examples\<close>

definition plain_dbg :: "unit dbg_env" where
  "plain_dbg = (nop_dbg (\<lambda>_. False))\<lparr>emu := nop_emu\<lparr>cpu := with_arm926 demo_env bare_env\<rparr>\<rparr>"

definition new_session :: "ARMbyte list \<Rightarrow> session" where
  "new_session b = \<lparr>own_buf = b, mem_buf = replicate 2000 0, registers = replicate register_bytes 0, gdb_status = 0, gdb_signal = 0,
     remote_debug = False, counter = 0\<rparr>"

lemma new_session_simps [simp]:
  "own_buf (new_session b) = b" "mem_buf (new_session b) = replicate 2000 0" "registers (new_session b) = replicate register_bytes 0"
  by (simp_all add: new_session_def)

lemma plain_dbg_cpu: "cpu (emu plain_dbg) = with_arm926 demo_env bare_env"
  by (simp add: plain_dbg_def)

lemma demo_ice_ok:
  assumes "n \<le> 0x8000" "b \<in> set (addresses 0x8000 n)"
  shows "ice_ok bare_env demo_state b"
proof -
  obtain k where k: "k < n" "b = 0x8000 + of_nat k" using assms(2) by (auto simp: addresses_def)
  have "unat (of_nat k :: ARMword) = k" using k(1) assms(1) by (simp add: unsigned_of_nat take_bit_nat_eq_self)
  then have "b < 0x100000" using k assms(1) by (simp add: word_less_nat_alt unat_word_ariths)
  then show ?thesis using demo_ram_ok
    by (simp add: ice_ok_def bare_env_def demo_state_def boot_state_def ARMul_Reset_cpu_def ARMul_NewState_def Let_def MMU_Enabled_def mmu_zero_def
       ARMul_CPSRAltered_def cpsr_switch_mode_def cpsr_assign_flags_def FLUSHPIPE_def set_reg_def)
qed

theorem memory_packets_witness:
  "\<exists>v1 v3 t u. handle_command plain_dbg (new_session (M_packet 0x8000 [0x12, 0xab] @ [0]), demo_state, dbg_zero) = Some (Inr (v1, t, dbg_zero)) \<and>
    c_string (own_buf v1) = map of_char ''OK'' \<and>
    handle_command plain_dbg (new_session (m_packet 0x8000 2 @ [0]), t, dbg_zero) = Some (Inr (v3, u, dbg_zero)) \<and>
    c_string (own_buf v3) = map of_char ''12ab''"
proof -
  let ?v = "new_session (M_packet 0x8000 [0x12, 0xab] @ [0])" and ?w = "new_session (m_packet 0x8000 2 @ [0])"
  have "\<forall>b\<in>set (addresses 0x8000 (length [0x12, 0xab :: ARMbyte])). ice_ok bare_env demo_state b"
    using demo_ice_ok [of 2] by (simp add: eval_nat_numeral)
  then obtain v1 t where w: "handle_command plain_dbg (?v, demo_state, dbg_zero) = Some (Inr (v1, t, dbg_zero))" "c_string (own_buf v1) = map of_char ''OK''"
    "\<forall>v2 rest'. own_buf v2 = m_packet 0x8000 (length [0x12, 0xab :: ARMbyte]) @ 0 # rest' \<longrightarrow> length [0x12, 0xab :: ARMbyte] \<le> length (mem_buf v2) \<longrightarrow>
       2 * length [0x12, 0xab :: ARMbyte] < length (own_buf v2) \<longrightarrow>
       (\<exists>v3 u. handle_command plain_dbg (v2, t, dbg_zero) = Some (Inr (v3, u, dbg_zero)) \<and> c_string (own_buf v3) = concat (map hex_pair [0x12, 0xab]))"
    using memory_packets [of ?v "0x8000" "[0x12, 0xab]" "[]" bare_env demo_state plain_dbg demo_env dbg_zero] plain_dbg_cpu
    by (auto simp: dbg_zero_def ice_zero_def)
  have "4 < length (m_packet 0x8000 2 @ [0])" by (simp add: m_packet_def hex_digits.simps)
  then obtain v3 u where "handle_command plain_dbg (?w, t, dbg_zero) = Some (Inr (v3, u, dbg_zero))" "c_string (own_buf v3) = concat (map hex_pair [0x12, 0xab])"
    using w(3) [rule_format, of ?w "[]"] by (auto simp: numeral_2_eq_2)
  moreover have "concat (map hex_pair [0x12, 0xab]) = map of_char ''12ab''" by (simp add: hex_pair_def tohex_def)
  ultimately show ?thesis using w(1,2) by auto
qed

lemma long_read_overflows_witness:
  "\<exists>r. handle_command plain_dbg (new_session (m_packet 0x8000 1000 @ 0 # replicate 2000 0), demo_state, dbg_zero\<lparr>ice := ice_zero\<lparr>tps_status := TRACE_STOPPED\<rparr>\<rparr>) = Some (Inr r) \<and>
    send_reply plain_dbg r = Inl OutOfBounds"
  by (rule long_read_overflows [of _ "0x8000" 1000 "replicate 2000 0" bare_env demo_state _ demo_env])
    (use demo_ice_ok [of 1000] plain_dbg_cpu in simp_all)

lemma registers_written_swapped_witness:
  "\<exists>v1 m. handle_command plain_dbg (new_session (of_char CHR ''g'' # replicate 999 0), demo_state\<lparr>Reg := (\<lambda>_. 0x12345678)\<rparr>, dbg_zero) =
      Some (Inr (v1, demo_state\<lparr>Reg := (\<lambda>_. 0x12345678)\<rparr>, dbg_zero)) \<and> c_string (own_buf v1) = concat (map hex_pair m) \<and>
    (\<exists>v3 t. handle_command plain_dbg (new_session (G_packet m @ [0]), demo_state\<lparr>Reg := (\<lambda>_. 0x12345678)\<rparr>, dbg_zero) = Some (Inr (v3, t, dbg_zero)) \<and>
       Reg t 3 = 0x78563412)"
proof -
  let ?s = "demo_state\<lparr>Reg := (\<lambda>_. 0x12345678)\<rparr>" and ?v = "new_session (of_char CHR ''g'' # replicate 999 0)"
  have "Mode ?s AND MODEBITS = Mode ?s"
    by (simp add: demo_state_def boot_state_def ARMul_Reset_cpu_def ARMul_NewState_def Let_def
       ARMul_CPSRAltered_def cpsr_switch_mode_def cpsr_assign_flags_def FLUSHPIPE_def set_reg_def)
  then obtain v1 m where w: "handle_command plain_dbg (?v, ?s, dbg_zero) = Some (Inr (v1, ?s, dbg_zero))" "c_string (own_buf v1) = concat (map hex_pair m)"
    "\<forall>v2 rest. own_buf v2 = G_packet m @ 0 # rest \<longrightarrow> length (registers v2) = register_bytes \<longrightarrow>
      (\<exists>v3 t. handle_command plain_dbg (v2, ?s, dbg_zero) = Some (Inr (v3, t, dbg_zero)) \<and> c_string (own_buf v3) = map of_char ''OK'' \<and>
         (\<forall>r<8. Reg t r = swapped (Reg ?s r)))"
    using registers_written_swapped [of ?v dbg_zero ?s plain_dbg] by (auto simp: dbg_zero_def ice_zero_def register_bytes_def)
  have "swapped 0x12345678 = 0x78563412" by (simp add: swapped_def frommem_def tomem_def endian_flag_def)
  then show ?thesis using w(1,2) w(3) [rule_format, of "new_session (G_packet m @ [0])" "[]"] by fastforce
qed

end
