(* ===== verification/Config.thy ===== *)
theory Config
  imports Gdb_Server
begin

text \<open>
  The configuration file: \<^verbatim>\<open>utils/config/skyeye_config.c\<close>, the options of \<^verbatim>\<open>utils/config/skyeye_options.c\<close> that do not set up
  devices, and the options of the ARM in \<^verbatim>\<open>arm_arch_interface.c\<close>, which describe the memory. Texts are lists of bytes without
  the final zero, and share the model of \<^verbatim>\<open>strtoul\<close> with the debugger.
\<close>

unbundle bit_operations_syntax

section \<open>Texts\<close>

abbreviation str :: "string \<Rightarrow> ARMbyte list" where
  "str s \<equiv> map of_char s"

definition strncmp_eq :: "ARMbyte list \<Rightarrow> ARMbyte list \<Rightarrow> nat \<Rightarrow> bool" where
  "strncmp_eq a b n \<longleftrightarrow> take n a = take n b"

definition strtok :: "ARMbyte \<Rightarrow> ARMbyte list \<Rightarrow> (ARMbyte list \<times> ARMbyte list) option" where
  "strtok d s =
     (let t = dropWhile (\<lambda>c. c = d) s
      in if t = [] then None else Some (takeWhile (\<lambda>c. c \<noteq> d) t, drop 1 (dropWhile (\<lambda>c. c \<noteq> d) t)))"

lemma strtok_shorter: "strtok d s = Some (t, r) \<Longrightarrow> length r < length s"
proof -
  assume a: "strtok d s = Some (t, r)"
  let ?t = "dropWhile (\<lambda>c. c = d) s"
  have "?t \<noteq> []" "r = drop 1 (dropWhile (\<lambda>c. c \<noteq> d) ?t)" using a by (auto simp: strtok_def Let_def split: if_splits)
  moreover from this(1) have "d \<noteq> hd ?t" using hd_dropWhile by force
  moreover obtain c cs where "?t = c # cs" using calculation(1) by (cases ?t) auto
  ultimately have "length r < length ?t" using length_dropWhile_le [of "\<lambda>c. c \<noteq> d" cs] by simp
  also have "\<dots> \<le> length s" by (rule length_dropWhile_le)
  finally show ?thesis .
qed

section \<open>The state\<close>

datatype memtype = MEMTYPE_IO | MEMTYPE_RAM | MEMTYPE_ROM | MEMTYPE_ALIAS

record cpu_config_t =
  cpu_arch_name :: "ARMbyte list"
  cpu_name :: "ARMbyte list"
  cfg_cpu_val :: ARMword
  cfg_cpu_mask :: ARMword
  cfg_cachetype :: ARMword

record bank_cfg =
  bk :: mem_bank_t
  bk_type :: memtype
  bk_file :: "ARMbyte list"

text \<open>
  \<open>banks\<close>, \<open>bank_num\<close> and \<open>current_num\<close> are \<^verbatim>\<open>arm_mem\<close>; architecture and machine are kept by name, and \<open>do_num\<close> counts how
  often an option was given.
\<close>

record config =
  cf_arch :: "ARMbyte list option"
  cf_mach :: "ARMbyte list option"
  p_arm_cpu :: "cpu_config_t option"
  bank_num :: nat
  current_num :: nat
  banks :: "bank_cfg list"
  start_address :: ARMword
  no_dbct :: ARMword
  tb_tbt_size :: ARMword
  tb_tbp_size :: ARMword
  can_step_disassemble :: ARMword
  energy_prof :: ARMword
  energy_filename :: "ARMbyte list"
  energy_logfile :: "ARMbyte list"
  do_num :: "ARMbyte list \<Rightarrow> nat"

definition MAX_BANK :: nat where "MAX_BANK = 8"
definition MAX_PARAM_NAME :: nat where "MAX_PARAM_NAME = 32"
definition MAX_OPTION_NAME :: nat where "MAX_OPTION_NAME = 32"
definition MAX_PARAMS_LEN :: nat where "MAX_PARAMS_LEN = 40"
definition MAX_STR :: nat where "MAX_STR = 1024"

definition bank_zero :: bank_cfg where
  "bank_zero = \<lparr>bk = \<lparr>mb_read = None, mb_write = None, mb_addr = 0, mb_len = 0, mb_dest = 0\<rparr>, bk_type = MEMTYPE_IO, bk_file = []\<rparr>"

section \<open>Options\<close>

text \<open>The name and, if there is one, the value; without a value the buffer keeps what it held, which at first is nothing.\<close>

definition split_param :: "ARMbyte list \<Rightarrow> ARMbyte list option \<Rightarrow> (bool \<times> ARMbyte list \<times> ARMbyte list option) sim" where
  "split_param param old =
     (let name = takeWhile (\<lambda>c. c \<noteq> of_char CHR ''='') param; rest = drop (length name) param
      in if length name \<ge> MAX_PARAM_NAME then Inl OutOfBounds
         else if rest = [] then Inr (False, name, old)
         else if length (tl rest) \<ge> MAX_PARAM_NAME then Inl OutOfBounds else Inr (True, name, Some (tl rest)))"

definition value_of :: "ARMbyte list option \<Rightarrow> (ARMbyte list \<Rightarrow> 'a) \<Rightarrow> 'a sim" where
  "value_of v f = (case v of None \<Rightarrow> Inl Uninitialised | Some v \<Rightarrow> Inr (f v))"

text \<open>A parameter whose name or value is a prefix of the word passes for it.\<close>

definition matches :: "string \<Rightarrow> ARMbyte list \<Rightarrow> bool" where
  "matches w name \<longleftrightarrow> strncmp_eq (str w) name (length name)"

definition param_number :: "ARMbyte list \<Rightarrow> ARMword" where
  "param_number v = of_nat (fst (strtoul (if take 2 v = str ''0x'' then 16 else 10) v))"

definition set_map :: "read_fn \<Rightarrow> write_fn \<Rightarrow> memtype \<Rightarrow> bank_cfg \<Rightarrow> bank_cfg" where
  "set_map r w ty b = b\<lparr>bk := (bk b)\<lparr>mb_read := Some r, mb_write := Some w\<rparr>, bk_type := ty\<rparr>"

definition mem_map :: "ARMbyte list \<Rightarrow> bank_cfg \<Rightarrow> bank_cfg" where
  "mem_map v b =
     (if matches ''M'' v then set_map RealRead RealWrite MEMTYPE_RAM b
      else if matches ''A'' v then set_map AliasRead AliasWrite MEMTYPE_ALIAS b
      else if matches ''I'' v then set_map IoRead IoWrite MEMTYPE_IO b else b)"

definition mem_type :: "ARMbyte list \<Rightarrow> bank_cfg \<Rightarrow> bank_cfg" where
  "mem_type v b =
     (if matches ''R'' v
      then b\<lparr>bk := (bk b)\<lparr>mb_write := Some WarnWrite\<rparr>, bk_type := (if bk_type b = MEMTYPE_RAM then MEMTYPE_ROM else bk_type b)\<rparr>
      else b)"

text \<open>One parameter of a bank, with the start address of the program.\<close>

definition mem_param :: "ARMbyte list \<Rightarrow> ARMbyte list option \<Rightarrow> bank_cfg \<times> ARMword \<Rightarrow> (bank_cfg \<times> ARMword) sim" where
  "mem_param name value = (\<lambda>(b, start).
     if matches ''map'' name then value_of value (\<lambda>v. (mem_map v b, start))
     else if matches ''type'' name then value_of value (\<lambda>v. (mem_type v b, start))
     else if matches ''addr'' name then value_of value (\<lambda>v. (b\<lparr>bk := (bk b)\<lparr>mb_addr := param_number v\<rparr>\<rparr>, start))
     else if matches ''size'' name then value_of value (\<lambda>v. (b\<lparr>bk := (bk b)\<lparr>mb_len := param_number v\<rparr>\<rparr>, start))
     else if matches ''dest'' name then value_of value (\<lambda>v. (b\<lparr>bk := (bk b)\<lparr>mb_dest := param_number v\<rparr>\<rparr>, start))
     else if matches ''file'' name then value_of value (\<lambda>v. (b\<lparr>bk_file := v\<rparr>, start))
     else if matches ''boot'' name then value_of value (\<lambda>v. (b, if matches ''yes'' v then mb_addr (bk b) else start))
     else Inr (b, start))"

fun mem_params :: "ARMbyte list list \<Rightarrow> ARMbyte list option \<Rightarrow> bank_cfg \<times> ARMword \<Rightarrow> (bank_cfg \<times> ARMword) sim" where
  "mem_params [] value st = Inr st"
| "mem_params (p # ps) value st =
     bind_ok (split_param p value) (\<lambda>(_, name, value).
     bind_ok (mem_param name value st) (\<lambda>st. mem_params ps value st))"

definition arm_parse_mem :: "ARMbyte list list \<Rightarrow> config \<Rightarrow> (int \<times> config) sim" where
  "arm_parse_mem params cf =
     (let num = current_num cf; cf = cf\<lparr>bank_num := num, current_num := num + 1\<rparr>
      in if num < length (banks cf)
         then bind_ok (mem_params params None ((banks cf ! num)\<lparr>bk_file := []\<rparr>, start_address cf)) (\<lambda>(b, start).
                Inr (0, cf\<lparr>banks := (banks cf)[num := b], start_address := start\<rparr>))
         else Inl OutOfBounds)"

definition arm_cpus :: "cpu_config_t list" where
  "arm_cpus = [\<lparr>cpu_arch_name = str ''armv5'', cpu_name = str ''arm926ejs'', cfg_cpu_val = 0x41069260, cfg_cpu_mask = 0xff0ffff0,
     cfg_cachetype = INSTCACHE\<rparr>]"

definition arm_machines :: "ARMbyte list list" where
  "arm_machines = [str ''starlet'']"

definition skyeye_archs :: "ARMbyte list list" where
  "skyeye_archs = [str ''arm'']"

text \<open>The first parameter; without one it is a null pointer.\<close>

definition first_param :: "ARMbyte list list \<Rightarrow> ARMbyte list sim" where
  "first_param params = (case params of [] \<Rightarrow> Inl NullPointer | p # _ \<Rightarrow> Inr p)"

definition arm_parse_cpu :: "ARMbyte list list \<Rightarrow> config \<Rightarrow> (int \<times> config) sim" where
  "arm_parse_cpu params cf =
     bind_ok (first_param params) (\<lambda>p.
       case find (\<lambda>c. strncmp_eq p (cpu_name c) MAX_PARAM_NAME) arm_cpus of
         None \<Rightarrow> Inr (-1, cf) | Some c \<Rightarrow> Inr (0, cf\<lparr>p_arm_cpu := Some c\<rparr>))"

definition arm_parse_mach :: "ARMbyte list list \<Rightarrow> config \<Rightarrow> (int \<times> config) sim" where
  "arm_parse_mach params cf =
     bind_ok (first_param params) (\<lambda>p.
       case find (\<lambda>m. strncmp_eq p m MAX_PARAM_NAME) arm_machines of
         None \<Rightarrow> Inr (-1, cf) | Some m \<Rightarrow> Inr (0, cf\<lparr>cf_mach := Some m\<rparr>))"

definition do_arch_option :: "ARMbyte list list \<Rightarrow> config \<Rightarrow> (int \<times> config) sim" where
  "do_arch_option params cf =
     bind_ok (first_param params) (\<lambda>p.
       case find (\<lambda>a. strncmp_eq p a MAX_PARAM_NAME) skyeye_archs of
         None \<Rightarrow> Inr (-1, cf) | Some a \<Rightarrow> Inr (0, cf\<lparr>cf_arch := Some a\<rparr>))"

definition do_cpu_option :: "ARMbyte list list \<Rightarrow> config \<Rightarrow> (int \<times> config) sim" where
  "do_cpu_option params cf =
     (let cf = (if cf_arch cf = None
                then cf\<lparr>cf_arch := find (\<lambda>a. strncmp_eq (str ''arm'') a MAX_PARAM_NAME) skyeye_archs\<rparr> else cf)
      in if cf_arch cf = None then Inl SkyeyeExit else arm_parse_cpu params cf)"

definition do_mach_option :: "ARMbyte list list \<Rightarrow> config \<Rightarrow> (int \<times> config) sim" where
  "do_mach_option params cf = (if cf_arch cf = None then Inl NullPointer else arm_parse_mach params cf)"

definition do_mem_bank_option :: "ARMbyte list list \<Rightarrow> config \<Rightarrow> (int \<times> config) sim" where
  "do_mem_bank_option params cf = (if cf_arch cf = None then Inl NullPointer else arm_parse_mem params cf)"

text \<open>A parameter at a time, for the options that do no more.\<close>

fun each_param ::
  "(ARMbyte list \<Rightarrow> ARMbyte list option \<Rightarrow> config \<Rightarrow> config sim) \<Rightarrow> ARMbyte list list \<Rightarrow> ARMbyte list option \<Rightarrow> config \<Rightarrow> (int \<times> config) sim" where
  "each_param f [] value cf = Inr (0, cf)"
| "each_param f (p # ps) value cf =
     bind_ok (split_param p value) (\<lambda>(_, name, value).
     bind_ok (f name value cf) (\<lambda>cf. each_param f ps value cf))"

definition do_energy_option :: "ARMbyte list list \<Rightarrow> config \<Rightarrow> (int \<times> config) sim" where
  "do_energy_option params =
     each_param (\<lambda>name value cf.
       if matches ''state'' name then value_of value (\<lambda>v. cf\<lparr>energy_prof := (if matches ''on'' v then 1 else 0)\<rparr>)
       else if matches ''filename'' name then value_of value (\<lambda>v. cf\<lparr>energy_filename := v\<rparr>)
       else if matches ''logfile'' name then value_of value (\<lambda>v. cf\<lparr>energy_logfile := v\<rparr>)
       else Inr cf) params None"

definition do_dbct_option :: "ARMbyte list list \<Rightarrow> config \<Rightarrow> (int \<times> config) sim" where
  "do_dbct_option params =
     each_param (\<lambda>name value cf.
       bind_ok (if matches ''state'' name then value_of value (\<lambda>v. cf\<lparr>no_dbct := (if matches ''on'' v then 0 else 1)\<rparr>) else Inr cf) (\<lambda>cf.
       bind_ok (if matches ''tbt'' name then value_of value (\<lambda>v. cf\<lparr>tb_tbt_size := of_nat (fst (strtoul 0 v))\<rparr>) else Inr cf) (\<lambda>cf.
       if matches ''tbp'' name then value_of value (\<lambda>v. cf\<lparr>tb_tbp_size := of_nat (fst (strtoul 0 v))\<rparr>) else Inr cf))) params None"

text \<open>Only the first parameter is looked at, however many there are.\<close>

definition do_step_disassemble_option :: "ARMbyte list list \<Rightarrow> config \<Rightarrow> (int \<times> config) sim" where
  "do_step_disassemble_option params cf =
     (case params of
        [] \<Rightarrow> Inr (-1, cf)
      | p # _ \<Rightarrow>
          if strncmp_eq p (str ''on'') 2 \<or> strncmp_eq p (str ''ON'') 2 then Inr (0, cf\<lparr>can_step_disassemble := 1\<rparr>)
          else if strncmp_eq p (str ''off'') 3 \<or> strncmp_eq p (str ''OFF'') 3 then Inr (0, cf\<lparr>can_step_disassemble := 0\<rparr>)
          else Inr (-1, cf))"

section \<open>Lines\<close>

definition skyeye_options :: "(string \<times> nat) list" where
  "skyeye_options =
     [(''arch'', 1), (''cpu'', 1), (''mach'', 1), (''mem_bank'', MAX_BANK), (''net'', 10), (''energy'', 1), (''lcd'', 1), (''flash'', 1),
      (''nandflash'', 1), (''touchscreen'', 1), (''sound'', 1), (''dbct'', 3), (''log'', 1), (''step_disassemble'', 1)]"

text \<open>\<open>dev\<close> gives the options that set up devices and the log file.\<close>

type_synonym handler = "ARMbyte list list \<Rightarrow> config \<Rightarrow> (int \<times> config) sim"

definition do_option :: "(string \<Rightarrow> handler) \<Rightarrow> string \<Rightarrow> handler" where
  "do_option dev name =
     (if name = ''arch'' then do_arch_option
      else if name = ''cpu'' then do_cpu_option
      else if name = ''mach'' then do_mach_option
      else if name = ''mem_bank'' then do_mem_bank_option
      else if name = ''energy'' then do_energy_option
      else if name = ''dbct'' then do_dbct_option
      else if name = ''step_disassemble'' then do_step_disassemble_option
      else dev name)"

text \<open>The answer of the option is compared with 0, and the result of the comparison is returned.\<close>

definition parse_line_formatted :: "(string \<Rightarrow> handler) \<Rightarrow> handler" where
  "parse_line_formatted dev params cf =
     (case params of
        [] \<Rightarrow> Inr (0, cf)
      | p # ps \<Rightarrow>
          (case find (\<lambda>(name, _). strncmp_eq (str name) p MAX_OPTION_NAME) skyeye_options of
             None \<Rightarrow> Inr (-1, cf)
           | Some (name, max_do_num) \<Rightarrow>
               let n = do_num cf (str name) + 1; cf = cf\<lparr>do_num := (do_num cf)(str name := n)\<rparr>
               in if n > max_do_num then Inr (-1, cf)
                  else bind_ok (do_option dev name ps cf) (\<lambda>(r, cf). Inr (if r < 0 then 1 else 0, cf))))"

text \<open>One piece of a line: whether a quotation is open, whether a comment has begun, and the characters that are kept.\<close>

fun clean :: "bool \<Rightarrow> ARMbyte list \<Rightarrow> bool \<times> bool \<times> ARMbyte list" where
  "clean q [] = (q, False, [])"
| "clean q (c # cs) =
     (if c = 0x22 then clean (\<not> q) cs
      else if c = of_char CHR ''#'' \<and> \<not> q then (q, True, [])
      else let (q', comment, s) = clean q cs in (q', comment, if \<not> is_space c \<or> q then c # s else s))"

text \<open>
  The pieces of a line, the first one up to the colon. The array of parameters is read at its end before the number of
  parameters is compared with its size.
\<close>

function collect_params :: "bool \<Rightarrow> ARMbyte \<Rightarrow> ARMbyte list \<Rightarrow> ARMbyte list list \<Rightarrow> ARMbyte list list sim" where
  "collect_params q d s ps =
     (case strtok d s of
        None \<Rightarrow> Inr ps
      | Some (t, r) \<Rightarrow>
          let (q, comment, p) = clean q t
          in if length p \<ge> 512 then Inl OutOfBounds
             else if p = [] then Inr ps
             else if length ps \<ge> MAX_PARAMS_LEN then Inl OutOfBounds
             else if comment then Inr (ps @ [p]) else collect_params q (of_char CHR '','') r (ps @ [p]))"
  by pat_completeness auto

termination
  by (relation "measure (\<lambda>(q, d, s, ps). length s)") (auto dest: strtok_shorter)

declare collect_params.simps [simp del]

definition parse_line_unformatted :: "(string \<Rightarrow> handler) \<Rightarrow> ARMbyte list \<Rightarrow> config \<Rightarrow> (int \<times> config) sim" where
  "parse_line_unformatted dev line cf =
     (if \<forall>c\<in>set line. is_space c then Inr (0, cf)
      else bind_ok (collect_params False (of_char CHR '':'') line []) (\<lambda>ps. parse_line_formatted dev ps cf))"

section \<open>The file\<close>

definition fgets :: "nat \<Rightarrow> ARMbyte list \<Rightarrow> ARMbyte list \<times> ARMbyte list" where
  "fgets n s =
     (let k = length (takeWhile (\<lambda>c. c \<noteq> 0x0a) s); m = min (k + 1) (n - 1) in (take m s, drop m s))"

text \<open>The last character of what was read is dropped, whether it ends the line or not.\<close>

function read_lines :: "(string \<Rightarrow> handler) \<Rightarrow> ARMbyte list \<Rightarrow> config \<Rightarrow> (int \<times> config) sim" where
  "read_lines dev s cf =
     (if s = [] then Inr (0, cf)
      else let (l, r) = fgets (MAX_STR - 1) s; line = butlast (c_string l)
           in if line = [] then read_lines dev r cf
              else case parse_line_unformatted dev line cf of
                     Inl e \<Rightarrow> Inl e
                   | Inr (ret, cf) \<Rightarrow> if ret < 0 then Inr (-1, cf) else read_lines dev r cf)"
  by pat_completeness auto

termination
  by (relation "measure (\<lambda>(dev, s, cf). length s)") (auto simp: fgets_def Let_def MAX_STR_def min_def)

declare read_lines.simps [simp del]

text \<open>No file is a file that cannot be opened.\<close>

definition skyeye_read_config :: "(string \<Rightarrow> handler) \<Rightarrow> ARMbyte list option \<Rightarrow> config \<Rightarrow> (int \<times> config) sim" where
  "skyeye_read_config dev content cf = (case content of None \<Rightarrow> Inr (-1, cf) | Some s \<Rightarrow> read_lines dev s cf)"

definition skyeye_option_init :: "config \<Rightarrow> config" where
  "skyeye_option_init cf = cf\<lparr>no_dbct := 1, tb_tbt_size := 0, tb_tbp_size := 1024 * 1024 * 64\<rparr>"

definition config_zero :: config where
  "config_zero = \<lparr>cf_arch = None, cf_mach = None, p_arm_cpu = None, bank_num = 0, current_num = 0, banks = replicate MAX_BANK bank_zero,
     start_address = 0, no_dbct = 0, tb_tbt_size = 0, tb_tbp_size = 0, can_step_disassemble = 0, energy_prof = 0, energy_filename = [],
     energy_logfile = [], do_num = (\<lambda>_. 0)\<rparr>"

section \<open>Reading numbers\<close>

lemma digit_value: "m < 16 \<Longrightarrow> is_digit 16 (tohex (of_nat m)) \<and> unat (fromhex (tohex (of_nat m))) = m"
proof -
  have "\<forall>m<16. is_digit 16 (tohex (of_nat m)) \<and> unat (fromhex (tohex (of_nat m))) = m"
    unfolding all_less_16_iff by (simp add: is_digit_def is_xdigit_def tohex_def fromhex_def)
  then show "m < 16 \<Longrightarrow> is_digit 16 (tohex (of_nat m)) \<and> unat (fromhex (tohex (of_nat m))) = m" by blast
qed

lemma digits_value_hex: "digits_value 16 (hex_digits n) = n"
proof (induction n rule: hex_digits.induct)
  case (1 n)
  show ?case
  proof (cases "n < 16")
    case False
    then have "digits_value 16 (hex_digits n) = 16 * digits_value 16 (hex_digits (n div 16)) + n mod 16"
      using digit_value [of "n mod 16"] by (subst hex_digits.simps) (simp add: digits_value_def)
    then show ?thesis using 1 [OF False] by simp
  qed (use digit_value [of n] in \<open>simp add: hex_digits.simps digits_value_def\<close>)
qed

lemma hex_digits_are: "list_all (is_digit 16) (hex_digits n)"
proof (induction n rule: hex_digits.induct)
  case (1 n)
  then show ?case using digit_value [of n] digit_value [of "n mod 16"] by (subst hex_digits.simps) simp
qed

lemma hex_digits_some: "hex_digits n \<noteq> []"
  by (subst hex_digits.simps) simp

lemma strtoul_hex:
  assumes "n < 2 ^ 64"
  shows "strtoul 16 (str ''0x'' @ hex_digits n) = (n, [])"
proof -
  obtain c r where h: "hex_digits n = c # r" using hex_digits_some by (cases "hex_digits n") auto
  have d: "list_all (is_digit 16) (c # r)" using hex_digits_are [of n] h by simp
  then have "takeWhile (is_digit 16) (c # r) = c # r" "dropWhile (is_digit 16) (c # r) = []"
    by (auto simp: takeWhile_eq_all_conv list_all_iff)
  moreover have "is_xdigit c" using d by (simp add: is_digit_def)
  moreover have "digits_value 16 (c # r) = n" using digits_value_hex [of n] h by simp
  ultimately show ?thesis using assms by (simp add: strtoul_def h is_space_def Let_def)
qed

lemma param_number_hex: "param_number (str ''0x'' @ hex_digits (unat a)) = a"
proof -
  have "unat a < 2 ^ 32" using unsigned_less [of a] by simp
  then have "unat a < 2 ^ 64" by simp
  from strtoul_hex [OF this] show ?thesis by (simp add: param_number_def)
qed

section \<open>Reading lines\<close>

text \<open>Pieces that are kept as they are.\<close>

definition plain :: "ARMbyte list \<Rightarrow> bool" where
  "plain s \<longleftrightarrow> s \<noteq> [] \<and> length s < 512 \<and> (\<forall>c\<in>set s. \<not> is_space c \<and> c \<notin> {0, 0x22, of_char CHR ''#'', of_char CHR '','', of_char CHR '':''})"

lemma clean_plain: "\<forall>c\<in>set s. \<not> is_space c \<and> c \<noteq> 0x22 \<and> c \<noteq> of_char CHR ''#'' \<Longrightarrow> clean False s = (False, False, s)"
  by (induction s) auto

lemma clean_blank: "clean False (0x20 # s) = clean False s"
  by (simp add: is_space_def split: prod.split)

lemma strtok_piece: "s \<noteq> [] \<Longrightarrow> d \<notin> set s \<Longrightarrow> strtok d (s @ d # r) = Some (s, r)" "s \<noteq> [] \<Longrightarrow> d \<notin> set s \<Longrightarrow> strtok d s = Some (s, [])"
proof -
  assume s: "s \<noteq> []" "d \<notin> set s"
  then have "hd s \<noteq> d" by auto
  then have n: "dropWhile (\<lambda>c. c = d) (s @ x) = s @ x" for x using s(1) by (cases s) auto
  have "takeWhile (\<lambda>c. c \<noteq> d) s = s" "dropWhile (\<lambda>c. c \<noteq> d) s = []" using s(2) by (auto simp: takeWhile_eq_all_conv)
  moreover have "takeWhile (\<lambda>c. c \<noteq> d) (s @ d # r) = s" "dropWhile (\<lambda>c. c \<noteq> d) (s @ d # r) = d # r" using s(2) by (induction s) auto
  ultimately show "strtok d (s @ d # r) = Some (s, r)" "strtok d s = Some (s, [])"
    using s(1) n [of "d # r"] n [of "[]"] by (simp_all add: strtok_def Let_def del: dropWhile_eq_Nil_conv)
qed

fun params_text :: "ARMbyte list list \<Rightarrow> ARMbyte list" where
  "params_text [] = []"
| "params_text [p] = 0x20 # p"
| "params_text (p # ps) = 0x20 # p @ of_char CHR '','' # params_text ps"

lemma collect_params_text:
  "\<forall>p\<in>set ps. plain p \<Longrightarrow> length acc + length ps \<le> MAX_PARAMS_LEN \<Longrightarrow>
    collect_params False (of_char CHR '','') (params_text ps) acc = Inr (acc @ ps)"
proof (induction ps arbitrary: acc rule: params_text.induct)
  case 1
  then show ?case by (subst collect_params.simps) (simp add: strtok_def)
next
  case (2 p)
  have "strtok (of_char CHR '','') (0x20 # p) = Some (0x20 # p, [])" by (rule strtok_piece) (use 2 in \<open>auto simp: plain_def\<close>)
  moreover have "clean False (0x20 # p) = (False, False, p)" unfolding clean_blank by (rule clean_plain) (use 2 in \<open>auto simp: plain_def\<close>)
  moreover have "collect_params False (of_char CHR '','') [] (acc @ [p]) = Inr (acc @ [p])" by (subst collect_params.simps) (simp add: strtok_def)
  ultimately show ?case using 2 by (subst collect_params.simps) (simp add: plain_def)
next
  case (3 p q ps)
  have "strtok (of_char CHR '','') ((0x20 # p) @ of_char CHR '','' # params_text (q # ps)) = Some (0x20 # p, params_text (q # ps))"
    by (rule strtok_piece) (use 3 in \<open>auto simp: plain_def\<close>)
  moreover have "clean False (0x20 # p) = (False, False, p)" unfolding clean_blank by (rule clean_plain) (use 3 in \<open>auto simp: plain_def\<close>)
  moreover have "collect_params False (of_char CHR '','') (params_text (q # ps)) (acc @ [p]) = Inr ((acc @ [p]) @ q # ps)"
    by (rule 3) (use 3 in simp_all)
  ultimately show ?case using 3(2,3) by (subst collect_params.simps) (simp add: plain_def)
qed

lemma parse_plain_line:
  assumes "plain name" "\<forall>p\<in>set ps. plain p" "length ps < MAX_PARAMS_LEN"
  shows "parse_line_unformatted dev (name @ of_char CHR '':'' # params_text ps) cf = parse_line_formatted dev (name # ps) cf"
proof -
  have "strtok (of_char CHR '':'') (name @ of_char CHR '':'' # params_text ps) = Some (name, params_text ps)"
    by (rule strtok_piece) (use assms(1) in \<open>auto simp: plain_def\<close>)
  moreover have "clean False name = (False, False, name)" by (rule clean_plain) (use assms(1) in \<open>auto simp: plain_def\<close>)
  moreover have "collect_params False (of_char CHR '','') (params_text ps) [name] = Inr ([name] @ ps)"
    by (rule collect_params_text) (use assms in simp_all)
  ultimately have "collect_params False (of_char CHR '':'') (name @ of_char CHR '':'' # params_text ps) [] = Inr (name # ps)"
    using assms(1) by (subst collect_params.simps) (simp add: plain_def MAX_PARAMS_LEN_def)
  moreover have "\<not> (\<forall>c\<in>set (name @ of_char CHR '':'' # params_text ps). is_space c)" by (simp add: is_space_def)
  ultimately show ?thesis by (simp only: parse_line_unformatted_def if_False bind_ok_simps)
qed

lemma fgets_line:
  "0x0a \<notin> set l \<Longrightarrow> length l + 2 \<le> n \<Longrightarrow> fgets n (l @ 0x0a # r) = (l @ [0x0a], r)"
proof -
  assume l: "0x0a \<notin> set l" "length l + 2 \<le> n"
  then have "takeWhile (\<lambda>c. c \<noteq> 0x0a) (l @ 0x0a # r) = l" by (induction l) auto
  moreover have "min (length l + 1) (n - 1) = length l + 1" using l(2) by simp
  ultimately show ?thesis by (simp only: fgets_def Let_def) simp
qed

lemma read_line:
  assumes "0x0a \<notin> set l" "0 \<notin> set l" "l \<noteq> []" "length l \<le> 1000" "parse_line_unformatted dev l cf = Inr (ret, cf')"
  shows "read_lines dev (l @ 0x0a # r) cf = (if ret < 0 then Inr (-1, cf') else read_lines dev r cf')"
proof -
  have "fgets (MAX_STR - 1) (l @ 0x0a # r) = (l @ [0x0a], r)" by (rule fgets_line) (use assms(1,4) in \<open>simp_all add: MAX_STR_def\<close>)
  moreover have "butlast (c_string (l @ [0x0a])) = l" using assms(2) by (simp add: c_string_def takeWhile_append)
  ultimately show ?thesis using assms(3,5) by (subst read_lines.simps) simp
qed

lemma length_params_text: "length (params_text ps) \<le> sum_list (map (\<lambda>p. length p + 2) ps)"
  by (induction ps rule: params_text.induct) auto

lemma params_text_chars: "set (params_text ps) \<subseteq> {0x20, of_char CHR '',''} \<union> (\<Union>p\<in>set ps. set p)"
  by (induction ps rule: params_text.induct) auto

definition config_line :: "ARMbyte list \<Rightarrow> ARMbyte list list \<Rightarrow> ARMbyte list" where
  "config_line name ps = name @ of_char CHR '':'' # params_text ps @ [0x0a]"

lemma read_config_line_cases:
  assumes "plain name" "\<forall>p\<in>set ps. plain p" "length ps < MAX_PARAMS_LEN" "length name + sum_list (map (\<lambda>p. length p + 2) ps) < 1000"
    "parse_line_formatted dev (name # ps) cf = Inr (ret, cf')"
  shows "read_lines dev (config_line name ps @ r) cf = (if ret < 0 then Inr (-1, cf') else read_lines dev r cf')"
proof -
  let ?l = "name @ of_char CHR '':'' # params_text ps"
  have c: "set ?l \<subseteq> {0x20, of_char CHR '','', of_char CHR '':''} \<union> (\<Union>p\<in>set (name # ps). set p)"
    using params_text_chars [of ps] by auto
  have p: "c \<noteq> 0 \<and> c \<noteq> 0x0a" if "plain q" "c \<in> set q" for q c
  proof -
    have "\<not> is_space c" "c \<noteq> 0" using that by (auto simp: plain_def)
    then show ?thesis by (auto simp: is_space_def)
  qed
  have "\<forall>c\<in>set ?l. c \<noteq> 0 \<and> c \<noteq> 0x0a"
  proof
    fix c assume "c \<in> set ?l"
    with c consider "c \<in> {0x20, of_char CHR '','', of_char CHR '':''}" | q where "q \<in> set (name # ps)" "c \<in> set q" by blast
    then show "c \<noteq> 0 \<and> c \<noteq> 0x0a"
    proof cases
      case 2
      then show ?thesis using p assms(1,2) by auto
    qed auto
  qed
  then have "0x0a \<notin> set ?l" "0 \<notin> set ?l" by blast+
  moreover have "length ?l \<le> 1000" using assms(4) length_params_text [of ps] by simp
  moreover have "parse_line_unformatted dev ?l cf = Inr (ret, cf')" using parse_plain_line [OF assms(1-3)] assms(5) by simp
  ultimately have "read_lines dev (?l @ 0x0a # r) cf = (if ret < 0 then Inr (-1, cf') else read_lines dev r cf')"
    by (intro read_line) simp_all
  then show ?thesis by (simp add: config_line_def)
qed

lemma read_config_line:
  assumes "plain name" "\<forall>p\<in>set ps. plain p" "length ps < MAX_PARAMS_LEN" "length name + sum_list (map (\<lambda>p. length p + 2) ps) < 1000"
    "parse_line_formatted dev (name # ps) cf = Inr (ret, cf')" "0 \<le> ret"
  shows "read_lines dev (config_line name ps @ r) cf = read_lines dev r cf'"
  using read_config_line_cases [OF assms(1-5)] assms(6) by simp

section \<open>The memory map\<close>

text \<open>A bank as it is written in the file: what it is, whether it is read only, its address, size and the target of an alias.\<close>

datatype bank_kind = RamBank | AliasBank | IoBank

type_synonym bank_desc = "bank_kind \<times> bool \<times> ARMword \<times> ARMword \<times> ARMword"

fun kind_letter :: "bank_kind \<Rightarrow> string" where
  "kind_letter RamBank = ''M''" | "kind_letter AliasBank = ''A''" | "kind_letter IoBank = ''I''"

definition bank_params :: "bank_desc \<Rightarrow> ARMbyte list list" where
  "bank_params = (\<lambda>(k, ro, a, n, d).
     [str ''map='' @ str (kind_letter k), str ''type='' @ str (if ro then ''R'' else ''RW''), str ''addr='' @ str ''0x'' @ hex_digits (unat a),
      str ''size='' @ str ''0x'' @ hex_digits (unat n), str ''dest='' @ str ''0x'' @ hex_digits (unat d)])"

fun bank_fns :: "bank_kind \<Rightarrow> read_fn \<times> write_fn" where
  "bank_fns RamBank = (RealRead, RealWrite)" | "bank_fns AliasBank = (AliasRead, AliasWrite)" | "bank_fns IoBank = (IoRead, IoWrite)"

definition bank_of :: "bank_desc \<Rightarrow> mem_bank_t" where
  "bank_of = (\<lambda>(k, ro, a, n, d).
     \<lparr>mb_read = Some (fst (bank_fns k)), mb_write = Some (if ro then WarnWrite else snd (bank_fns k)), mb_addr = a, mb_len = n, mb_dest = d\<rparr>)"

lemma split_param_text:
  assumes "of_char CHR ''='' \<notin> set name" "length name < MAX_PARAM_NAME" "length v < MAX_PARAM_NAME"
  shows "split_param (name @ of_char CHR ''='' # v) old = Inr (True, name, Some v)"
proof -
  have "takeWhile (\<lambda>c. c \<noteq> of_char CHR ''='') (name @ of_char CHR ''='' # v) = name" using assms(1) by (induction name) auto
  then show ?thesis using assms(2,3) by (simp add: split_param_def Let_def)
qed

lemma hex_word_length: "length (hex_digits (unat (a :: ARMword))) \<le> 8"
  using hex_digits_length [of "unat a" 7] unsigned_less [of a] by simp

lemma mem_params_step:
  assumes "w \<in> {''map'', ''type'', ''addr'', ''size'', ''dest''}" "length v < 32"
  shows "mem_params ((str w @ of_char CHR ''='' # v) # ps) old st = bind_ok (mem_param (str w) (Some v) st) (\<lambda>st. mem_params ps (Some v) st)"
proof -
  have "split_param (str w @ of_char CHR ''='' # v) old = Inr (True, str w, Some v)"
    by (rule split_param_text) (use assms in \<open>auto simp: MAX_PARAM_NAME_def\<close>)
  then show ?thesis by simp
qed

lemma mem_param_words:
  "mem_param (str ''map'') (Some v) (b, st) = Inr (mem_map v b, st)"
  "mem_param (str ''type'') (Some v) (b, st) = Inr (mem_type v b, st)"
  "mem_param (str ''addr'') (Some v) (b, st) = Inr (b\<lparr>bk := (bk b)\<lparr>mb_addr := param_number v\<rparr>\<rparr>, st)"
  "mem_param (str ''size'') (Some v) (b, st) = Inr (b\<lparr>bk := (bk b)\<lparr>mb_len := param_number v\<rparr>\<rparr>, st)"
  "mem_param (str ''dest'') (Some v) (b, st) = Inr (b\<lparr>bk := (bk b)\<lparr>mb_dest := param_number v\<rparr>\<rparr>, st)"
  by (simp_all add: mem_param_def matches_def strncmp_eq_def value_of_def)

lemma mem_params_bank:
  "\<exists>b'. mem_params (bank_params D) None (b, start) = Inr (b', start) \<and> bk b' = bank_of D"
proof -
  obtain k ro a n d where D: "D = (k, ro, a, n, d)" by (cases D)
  let ?h = "\<lambda>a. str ''0x'' @ hex_digits (unat a)"
  have h: "length (?h a) < 32" "length (?h n) < 32" "length (?h d) < 32"
    using hex_word_length [of a] hex_word_length [of n] hex_word_length [of d] by simp_all
  have k: "length (str (kind_letter k)) < 32" "length (str (if ro then ''R'' else ''RW'')) < 32" by (cases k) simp_all
  have "bank_params D = [str ''map'' @ of_char CHR ''='' # str (kind_letter k), str ''type'' @ of_char CHR ''='' # str (if ro then ''R'' else ''RW''),
      str ''addr'' @ of_char CHR ''='' # ?h a, str ''size'' @ of_char CHR ''='' # ?h n, str ''dest'' @ of_char CHR ''='' # ?h d]"
    by (simp add: D bank_params_def)
  then have "mem_params (bank_params D) None (b, start) =
      Inr ((let b = mem_type (str (if ro then ''R'' else ''RW'')) (mem_map (str (kind_letter k)) b)
            in b\<lparr>bk := (bk b)\<lparr>mb_addr := a, mb_len := n, mb_dest := d\<rparr>\<rparr>), start)"
    using h k by (simp only: mem_params_step mem_param_words bind_ok_simps insert_iff simp_thms param_number_hex mem_params.simps(1)) (simp add: Let_def)
  moreover have "bk (let b = mem_type (str (if ro then ''R'' else ''RW'')) (mem_map (str (kind_letter k)) b)
            in b\<lparr>bk := (bk b)\<lparr>mb_addr := a, mb_len := n, mb_dest := d\<rparr>\<rparr>) = bank_of D"
    by (cases k; cases ro) (simp_all add: D bank_of_def mem_type_def mem_map_def matches_def strncmp_eq_def set_map_def)
  ultimately show ?thesis by blast
qed

lemma hex_plain: "c \<in> set (hex_digits n) \<Longrightarrow> \<not> is_space c \<and> c \<notin> {0, 0x22, of_char CHR ''#'', of_char CHR '','', of_char CHR '':''}"
proof -
  assume "c \<in> set (hex_digits n)"
  then have "c \<in> set (map of_char ''0123456789abcdef'')" using hex_digits_chars by blast
  then show ?thesis by (auto simp: is_space_def)
qed

lemma bank_params_plain: "\<forall>p\<in>set (bank_params D). plain p \<and> length p \<le> 20" "length (bank_params D) = 5"
proof -
  obtain k ro a n d where D: "D = (k, ro, a, n, d)" by (cases D)
  have h: "plain (str w @ str ''0x'' @ hex_digits (unat a)) \<and> length (str w @ str ''0x'' @ hex_digits (unat a)) \<le> 20"
    if "w \<in> {''addr='', ''size='', ''dest=''}" for w and a :: ARMword
    using that hex_plain [of _ "unat a"] hex_word_length [of a] by (auto simp: plain_def is_space_def)
  have "plain (str ''map='' @ str (kind_letter k))" "plain (str ''type='' @ str (if ro then ''R'' else ''RW''))"
    by (cases k; simp add: plain_def is_space_def)+
  then show "\<forall>p\<in>set (bank_params D). plain p \<and> length p \<le> 20"
    using h [of "''addr=''" a] h [of "''size=''" n] h [of "''dest=''" d] by (cases k) (simp_all add: D bank_params_def)
  show "length (bank_params D) = 5" by (simp add: D bank_params_def)
qed

definition bank_line :: "bank_desc \<Rightarrow> ARMbyte list" where
  "bank_line D = config_line (str ''mem_bank'') (bank_params D)"

text \<open>What the file leads to: the counts of the banks agree, and there is room for more.\<close>

definition mem_counts :: "config \<Rightarrow> bool" where
  "mem_counts cf \<longleftrightarrow> cf_arch cf \<noteq> None \<and> do_num cf (str ''mem_bank'') = current_num cf \<and> length (banks cf) = MAX_BANK"

lemma parse_bank:
  assumes "mem_counts cf" "current_num cf < MAX_BANK"
  shows "\<exists>b cf'. parse_line_formatted dev (str ''mem_bank'' # bank_params D) cf = Inr (0, cf') \<and> mem_counts cf' \<and> current_num cf' = current_num cf + 1 \<and>
    banks cf' = (banks cf)[current_num cf := b] \<and> bk b = bank_of D"
proof -
  let ?n = "current_num cf" and ?cf = "cf\<lparr>do_num := (do_num cf)(str ''mem_bank'' := do_num cf (str ''mem_bank'') + 1)\<rparr>"
  obtain b where b: "mem_params (bank_params D) None ((banks cf ! ?n)\<lparr>bk_file := []\<rparr>, start_address cf) = Inr (b, start_address cf)" "bk b = bank_of D"
    using mem_params_bank by blast
  let ?r = "?cf\<lparr>bank_num := ?n, current_num := ?n + 1, banks := (banks cf)[?n := b]\<rparr>"
  have f: "find (\<lambda>(name, _). strncmp_eq (str name) (str ''mem_bank'') MAX_OPTION_NAME) skyeye_options = Some (''mem_bank'', MAX_BANK)"
    by (simp add: skyeye_options_def strncmp_eq_def MAX_OPTION_NAME_def)
  have "do_option dev ''mem_bank'' (bank_params D) ?cf = Inr (0, ?r)"
    using assms b(1) by (simp add: do_option_def do_mem_bank_option_def arm_parse_mem_def mem_counts_def Let_def)
  moreover have "\<not> MAX_BANK < do_num cf (str ''mem_bank'') + 1" using assms by (simp add: mem_counts_def)
  ultimately have "parse_line_formatted dev (str ''mem_bank'' # bank_params D) cf = Inr (0, ?r)"
    unfolding parse_line_formatted_def list.case f option.case prod.case Let_def by simp
  then show ?thesis using assms b(2) by (auto simp: mem_counts_def)
qed

lemma mem_bank_plain: "plain (str ''mem_bank'')"
  by (simp add: plain_def is_space_def)

lemma read_bank_line:
  assumes "parse_line_formatted dev (str ''mem_bank'' # bank_params D) cf = Inr (0, cf')"
  shows "read_lines dev (bank_line D @ r) cf = read_lines dev r cf'"
  unfolding bank_line_def
proof (rule read_config_line [OF mem_bank_plain])
  have "sum_list (map (\<lambda>p. length p + 2) (bank_params D)) \<le> sum_list (map (\<lambda>p. 22) (bank_params D))"
    by (rule sum_list_mono) (use bank_params_plain(1) in auto)
  then show "length (str ''mem_bank'') + sum_list (map (\<lambda>p. length p + 2) (bank_params D)) < 1000"
    using bank_params_plain(2) [of D] by (simp add: sum_list_triv)
qed (use assms bank_params_plain [of D] in \<open>auto simp: MAX_PARAMS_LEN_def\<close>)

lemma read_banks:
  assumes "mem_counts cf" "current_num cf + length ds \<le> MAX_BANK"
  shows "\<exists>cf'. read_lines dev (concat (map bank_line ds)) cf = Inr (0, cf') \<and> mem_counts cf' \<and> current_num cf' = current_num cf + length ds \<and>
    map bk (banks cf') = map bk (take (current_num cf) (banks cf)) @ map bank_of ds @ map bk (drop (current_num cf + length ds) (banks cf))"
  using assms
proof (induction ds arbitrary: cf)
  case Nil
  then show ?case by (subst read_lines.simps) (simp flip: map_append)
next
  case (Cons D ds)
  obtain b cf1 where c: "parse_line_formatted dev (str ''mem_bank'' # bank_params D) cf = Inr (0, cf1)" "mem_counts cf1"
      "current_num cf1 = current_num cf + 1" "banks cf1 = (banks cf)[current_num cf := b]" "bk b = bank_of D"
    using parse_bank [OF Cons.prems(1), of dev D] Cons.prems(2) by auto
  obtain cf' where r: "read_lines dev (concat (map bank_line ds)) cf1 = Inr (0, cf')" "mem_counts cf'" "current_num cf' = current_num cf1 + length ds"
      "map bk (banks cf') = map bk (take (current_num cf1) (banks cf1)) @ map bank_of ds @ map bk (drop (current_num cf1 + length ds) (banks cf1))"
    using Cons.IH [OF c(2)] Cons.prems(2) c(3) by auto
  have l: "current_num cf < length (banks cf)" using Cons.prems by (simp add: mem_counts_def)
  have "take (current_num cf1) (banks cf1) = take (current_num cf) (banks cf) @ [b]"
    using l c(3,4) by (simp add: take_Suc_conv_app_nth)
  moreover have "drop (current_num cf1 + length ds) (banks cf1) = drop (current_num cf + length (D # ds)) (banks cf)"
    using c(3,4) by simp
  ultimately have "map bk (banks cf') =
      map bk (take (current_num cf) (banks cf)) @ map bank_of (D # ds) @ map bk (drop (current_num cf + length (D # ds)) (banks cf))"
    using r(4) c(5) by simp
  moreover have "read_lines dev (concat (map bank_line (D # ds))) cf = Inr (0, cf')"
    using read_bank_line [OF c(1)] r(1) by simp
  ultimately show ?case using r(2,3) c(3) by auto
qed

lemma read_option_line:
  assumes "plain name" "plain v" "length name + length v < 900" "parse_line_formatted dev [name, v] cf = Inr (ret, cf')" "0 \<le> ret"
  shows "read_lines dev (config_line name [v] @ r) cf = read_lines dev r cf'"
  by (rule read_config_line) (use assms in \<open>simp_all add: MAX_PARAMS_LEN_def\<close>)

definition machine_lines :: "ARMbyte list" where
  "machine_lines = config_line (str ''arch'') [str ''arm''] @ config_line (str ''cpu'') [str ''arm926ejs''] @ config_line (str ''mach'') [str ''starlet'']"

lemma read_machine_lines:
  "\<exists>cf. read_lines dev (machine_lines @ r) (skyeye_option_init config_zero) = read_lines dev r cf \<and> mem_counts cf \<and> current_num cf = 0 \<and>
    banks cf = replicate MAX_BANK bank_zero \<and> p_arm_cpu cf = Some (hd arm_cpus) \<and> cf_mach cf = Some (str ''starlet'')"
proof -
  let ?c0 = "skyeye_option_init config_zero"
  let ?n = "\<lambda>w cf. cf\<lparr>do_num := (do_num cf)(str w := 1)\<rparr>"
  let ?c1 = "(?n ''arch'' ?c0)\<lparr>cf_arch := Some (str ''arm'')\<rparr>"
  let ?c2 = "(?n ''cpu'' ?c1)\<lparr>p_arm_cpu := Some (hd arm_cpus)\<rparr>"
  let ?c3 = "(?n ''mach'' ?c2)\<lparr>cf_mach := Some (str ''starlet'')\<rparr>"
  note d = parse_line_formatted_def skyeye_options_def strncmp_eq_def MAX_OPTION_NAME_def MAX_PARAM_NAME_def do_option_def first_param_def Let_def
    skyeye_option_init_def config_zero_def
  have p: "plain (str ''arch'')" "plain (str ''arm'')" "plain (str ''cpu'')" "plain (str ''arm926ejs'')" "plain (str ''mach'')" "plain (str ''starlet'')"
    by (simp_all add: plain_def is_space_def)
  have "parse_line_formatted dev [str ''arch'', str ''arm''] ?c0 = Inr (0, ?c1)"
    by (simp add: d do_arch_option_def skyeye_archs_def)
  note 1 = read_option_line [OF p(1,2) _ this]
  have "parse_line_formatted dev [str ''cpu'', str ''arm926ejs''] ?c1 = Inr (0, ?c2)"
    by (simp add: d do_cpu_option_def arm_parse_cpu_def arm_cpus_def)
  note 2 = read_option_line [OF p(3,4) _ this]
  have "parse_line_formatted dev [str ''mach'', str ''starlet''] ?c2 = Inr (0, ?c3)"
    by (simp add: d do_mach_option_def arm_parse_mach_def arm_machines_def)
  note 3 = read_option_line [OF p(5,6) _ this]
  have "read_lines dev (machine_lines @ r) ?c0 = read_lines dev r ?c3"
    unfolding machine_lines_def append_assoc by (subst 1, simp, simp, subst 2, simp, simp, subst 3, simp, simp, rule refl)
  moreover have "mem_counts ?c3" "current_num ?c3 = 0" "banks ?c3 = replicate MAX_BANK bank_zero"
    by (simp_all add: mem_counts_def skyeye_option_init_def config_zero_def)
  ultimately show ?thesis by (intro exI [of _ ?c3]) simp
qed

lemma read_description:
  assumes "length ds \<le> MAX_BANK"
  shows "\<exists>cf. read_lines dev (machine_lines @ concat (map bank_line ds)) (skyeye_option_init config_zero) = Inr (0, cf) \<and>
    map bk (banks cf) = map bank_of ds @ replicate (MAX_BANK - length ds) (bk bank_zero) \<and> current_num cf = length ds"
proof -
  obtain c where c: "read_lines dev (machine_lines @ concat (map bank_line ds)) (skyeye_option_init config_zero) = read_lines dev (concat (map bank_line ds)) c"
      "mem_counts c" "current_num c = 0" "banks c = replicate MAX_BANK bank_zero"
    using read_machine_lines by blast
  show ?thesis using read_banks [OF c(2), of ds dev] assms c by auto
qed

text \<open>
  C26: the memory map of the configuration file is the memory map of the simulator. A file that names architecture, processor and
  machine and then describes up to eight banks is read without an error, and the banks are those that it describes, in its
  order, with the other entries of the table empty.
\<close>

theorem configured_memory:
  assumes "length ds \<le> MAX_BANK"
  shows "\<exists>cf. skyeye_read_config dev (Some (machine_lines @ concat (map bank_line ds))) (skyeye_option_init config_zero) = Inr (0, cf) \<and>
    map bk (banks cf) = map bank_of ds @ replicate (MAX_BANK - length ds) (bk bank_zero) \<and> current_num cf = length ds"
  using read_description [OF assms] by (simp add: skyeye_read_config_def)

theorem configured_memory_witness:
  "\<exists>cf. skyeye_read_config (\<lambda>_ _ cf. Inr (0, cf)) (Some (machine_lines @ concat (map bank_line [(RamBank, False, 0, 0x4000000, 0), (IoBank, True, 0xd000000, 0x1000, 0)])))
      (skyeye_option_init config_zero) = Inr (0, cf) \<and>
    map bk (banks cf) = map bank_of [(RamBank, False, 0, 0x4000000, 0), (IoBank, True, 0xd000000, 0x1000, 0)] @ replicate 6 (bk bank_zero) \<and> current_num cf = 2"
  using configured_memory [of "[(RamBank, False, 0, 0x4000000, 0), (IoBank, True, 0xd000000, 0x1000, 0)]" "\<lambda>_ _ cf. Inr (0, cf)"]
  by (simp add: MAX_BANK_def numeral_2_eq_2)

section \<open>The memory that a file describes\<close>

text \<open>A processor on the configured banks; \<open>r\<close> is the contents of their arrays.\<close>

definition with_banks :: "config \<Rightarrow> (nat \<Rightarrow> nat \<Rightarrow> ARMword) \<Rightarrow> 'io ARMul_State \<Rightarrow> 'io ARMul_State" where
  "with_banks cf r s = s\<lparr>mem := \<lparr>rom = r, mem_banks = map bk (banks cf), mbp_cache = None, global_mbp = None\<rparr>\<rparr>"

definition disjoint_descs :: "bank_desc list \<Rightarrow> bool" where
  "disjoint_descs ds \<longleftrightarrow> (\<forall>D\<in>set ds. mb_len (bank_of D) \<noteq> 0) \<and>
     (\<forall>i<length ds. \<forall>j<length ds. \<forall>x. in_bank (bank_of (ds ! i)) x \<longrightarrow> in_bank (bank_of (ds ! j)) x \<longrightarrow> i = j)"

lemma configured_ram_ok:
  assumes "map bk (banks cf) = map bank_of ds @ replicate m (bk bank_zero)" "disjoint_descs ds" "(RamBank, False, a, n, d) \<in> set ds" "a AND 3 = 0"
    "in_bank (bank_of (RamBank, False, a, n, d)) x" "bigendSig s \<le> 1" "vector_remap_flag s = 0"
  shows "ram_ok (with_banks cf r s) x"
proof -
  let ?bs = "map bank_of ds @ replicate m (bk bank_zero)"
  have "takeWhile (\<lambda>b. mb_len b \<noteq> 0) (map bank_of ds) = map bank_of ds" using assms(2) by (auto simp: takeWhile_eq_all_conv disjoint_descs_def)
  moreover have "takeWhile (\<lambda>b. mb_len b \<noteq> 0) (replicate m (bk bank_zero)) = []" by (cases m) (simp_all add: bank_zero_def)
  ultimately have live: "live_banks ?bs = map bank_of ds"
    using assms(2) by (subst live_banks_def, subst takeWhile_append2) (auto simp: disjoint_descs_def)
  have nth: "?bs ! i = bank_of (ds ! i)" if "i < length ds" for i using that by (simp add: nth_append)
  have "banks_disjoint ?bs" using assms(2) by (auto simp: banks_disjoint_def live nth disjoint_descs_def)
  moreover obtain i where i: "i < length ds" "ds ! i = (RamBank, False, a, n, d)" using assms(3) by (auto simp: in_set_conv_nth)
  moreover have "fst (bank_search ?bs x 0) = i"
  proof -
    obtain k found where k: "bank_search ?bs x 0 = (k, found)" by fastforce
    have c: "if found then k < length ds \<and> in_bank (?bs ! k) x else (\<forall>j<length ds. \<not> in_bank (?bs ! j) x)"
      using bank_search_cases [where bs = ?bs and a = x and k = 0] unfolding k live by (simp split: if_splits)
    have "in_bank (?bs ! i) x" using i assms(5) by (simp add: nth)
    with c i(1) have "found" "k < length ds" "in_bank (?bs ! k) x" by (auto split: if_splits)
    then show ?thesis using \<open>in_bank (?bs ! i) x\<close> i(1) assms(2) k by (auto simp: nth disjoint_descs_def)
  qed
  moreover have "mb_read (bank_of (RamBank, False, a, n, d)) = Some RealRead" "mb_write (bank_of (RamBank, False, a, n, d)) = Some RealWrite"
    "mb_addr (bank_of (RamBank, False, a, n, d)) = a"
    by (simp_all add: bank_of_def)
  moreover have "mem_banks (mem (with_banks cf r s)) = ?bs" "mbp_cache (mem (with_banks cf r s)) = None"
    using assms(1) by (simp_all add: with_banks_def)
  ultimately show ?thesis
    using assms(4-7) by (simp add: ram_ok_def cache_ok_def ram_bank_def bank_no_def live nth with_banks_def)
qed

text \<open>
  C27: RAM that the configuration file describes works. When the banks of a file do not overlap, a byte written to any address of a
  writable RAM bank is read back, through the search for the bank and the arrays behind it.
\<close>

theorem configured_ram:
  assumes "length ds \<le> MAX_BANK" "disjoint_descs ds" "(RamBank, False, a, n, d) \<in> set ds" "a AND 3 = 0"
    "in_bank (bank_of (RamBank, False, a, n, d)) x" "bigendSig s \<le> 1" "vector_remap_flag s = 0"
  shows "\<exists>cf t u. skyeye_read_config dev (Some (machine_lines @ concat (map bank_line ds))) (skyeye_option_init config_zero) = Inr (0, cf) \<and>
    mem_write_byte env (Suc k) (with_banks cf r s) x v = Inr t \<and> mem_read_byte env (Suc k) t x = Inr (v AND 0xff, u)"
proof -
  obtain cf where cf: "read_lines dev (machine_lines @ concat (map bank_line ds)) (skyeye_option_init config_zero) = Inr (0, cf)"
      "map bk (banks cf) = map bank_of ds @ replicate (MAX_BANK - length ds) (bk bank_zero)"
    using read_description [OF assms(1), of dev] by blast
  note ok = configured_ram_ok [OF cf(2) assms(2-7), of r]
  obtain t u where "mem_write_byte env (Suc k) (with_banks cf r s) x v = Inr t" "mem_read_byte env (Suc k) t x = Inr (v AND 0xff, u)"
    using ram_byte.read_after_write [OF ok ok, of env k v] by auto
  then show ?thesis using cf(1) by (auto simp: skyeye_read_config_def)
qed

lemma demo_descs: "disjoint_descs [(RamBank, False, 0, 0x4000000, 0), (IoBank, True, 0xd000000, 0x1000, 0)]"
  by (auto simp: disjoint_descs_def bank_of_def in_bank_def less_Suc_eq word_less_nat_alt word_le_nat_alt unat_diff_le)

theorem configured_ram_witness:
  "\<exists>cf t u. skyeye_read_config (\<lambda>_ _ cf. Inr (0, cf))
      (Some (machine_lines @ concat (map bank_line [(RamBank, False, 0, 0x4000000, 0), (IoBank, True, 0xd000000, 0x1000, 0)])))
      (skyeye_option_init config_zero) = Inr (0, cf) \<and>
    mem_write_byte bare_env (Suc 0) (with_banks cf (\<lambda>_ _. 0) boot_state) 0x8001 0x7f = Inr t \<and> mem_read_byte bare_env (Suc 0) t 0x8001 = Inr (0x7f, u)"
  using configured_ram [OF _ demo_descs, of 0 "0x4000000" 0 "0x8001" boot_state "\<lambda>_ _ cf. Inr (0, cf)" bare_env 0 "\<lambda>_ _. 0" "0x7f"]
  by (simp add: MAX_BANK_def bank_of_def in_bank_def)

section \<open>Errors in the file\<close>

text \<open>The option that a word names, with the number of times it may be given, and the configuration with one more of it.\<close>

definition named_option :: "ARMbyte list \<Rightarrow> (string \<times> nat) option" where
  "named_option w = find (\<lambda>(name, _). strncmp_eq (str name) w MAX_OPTION_NAME) skyeye_options"

definition counted :: "string \<Rightarrow> config \<Rightarrow> config" where
  "counted name cf = cf\<lparr>do_num := (do_num cf)(str name := do_num cf (str name) + 1)\<rparr>"

lemma parse_line_formatted_cases:
  "parse_line_formatted dev (w # ps) cf =
    (case named_option w of
       None \<Rightarrow> Inr (-1, cf)
     | Some (name, limit) \<Rightarrow>
         if do_num cf (str name) \<ge> limit then Inr (-1, counted name cf)
         else bind_ok (do_option dev name ps (counted name cf)) (\<lambda>(r, cf). Inr (if r < 0 then 1 else 0, cf)))"
  by (auto simp: parse_line_formatted_def named_option_def counted_def Let_def split: option.splits)

text \<open>
  C40: what the reader does about errors, at any line of any file; \<open>cf\<close> is the configuration that the lines before have left and \<open>r\<close> the
  rest of the file. A line whose option is unknown, or has been given as often as it may be, ends the reading with the answer -1. An
  option that answers an error does not: whatever its answer is, the reading goes on with the rest of the file as after a success, and with
  what the option has changed. The comment on \<^verbatim>\<open>parse_line_formatted\<close> promises -1 here too, so this is an error of the code: it
  stores the comparison of the answer with 0 instead of the answer. In particular a file with an unknown
  processor is read as if that line selected none.
\<close>

theorem option_errors:
  assumes "plain w" "\<forall>p\<in>set ps. plain p" "length ps < MAX_PARAMS_LEN" "length w + sum_list (map (\<lambda>p. length p + 2) ps) < 1000"
  shows "case named_option w of
      None \<Rightarrow> skyeye_read_config dev (Some (config_line w ps @ r)) cf = Inr (-1, cf)
    | Some (name, limit) \<Rightarrow>
        if limit \<le> do_num cf (str name) then skyeye_read_config dev (Some (config_line w ps @ r)) cf = Inr (-1, counted name cf)
        else \<forall>answer cf'. do_option dev name ps (counted name cf) = Inr (answer, cf') \<longrightarrow>
          skyeye_read_config dev (Some (config_line w ps @ r)) cf = skyeye_read_config dev (Some r) cf'"
proof -
  note c = read_config_line_cases [OF assms, of dev cf _ _ r] parse_line_formatted_cases [of dev w ps cf]
  show ?thesis
  proof (cases "named_option w")
    case None
    then show ?thesis using c(1) [of "-1" cf] c(2) by (simp add: skyeye_read_config_def)
  next
    case (Some a)
    obtain name limit where a: "a = (name, limit)" by (cases a)
    have "skyeye_read_config dev (Some (config_line w ps @ r)) cf = skyeye_read_config dev (Some r) cf'"
      if "\<not> limit \<le> do_num cf (str name)" "do_option dev name ps (counted name cf) = Inr (answer, cf')" for answer cf'
      using c(1) [of "if answer < 0 then 1 else 0" cf'] c(2) Some a that by (simp add: skyeye_read_config_def)
    then show ?thesis using c(1) [of "-1" "counted name cf"] c(2) Some a by (simp add: skyeye_read_config_def)
  qed
qed

theorem option_errors_witness:
  "(\<forall>r. skyeye_read_config (\<lambda>_ _ cf. Inr (0, cf)) (Some (config_line (str ''cpv'') [] @ r)) config_zero = Inr (-1, config_zero)) \<and>
   (\<exists>cf. p_arm_cpu cf = None \<and> (\<forall>r.
     skyeye_read_config (\<lambda>_ _ cf. Inr (0, cf)) (Some (config_line (str ''cpu'') [str ''arm920t''] @ r)) config_zero
       = skyeye_read_config (\<lambda>_ _ cf. Inr (0, cf)) (Some r) cf))"
proof -
  let ?dev = "\<lambda>_ _ cf. Inr (0, cf)"
  note d = named_option_def skyeye_options_def strncmp_eq_def MAX_OPTION_NAME_def
  have n: "named_option (str ''cpv'') = None" "named_option (str ''cpu'') = Some (''cpu'', 1)" by (simp_all add: d)
  have p: "plain (str ''cpv'')" "plain (str ''cpu'')" "plain (str ''arm920t'')" by (simp_all add: plain_def is_space_def)
  have o: "do_option ?dev ''cpu'' [str ''arm920t''] (counted ''cpu'' config_zero) = Inr (-1, (counted ''cpu'' config_zero)\<lparr>cf_arch := Some (str ''arm'')\<rparr>)"
    by (simp add: do_option_def do_cpu_option_def arm_parse_cpu_def arm_cpus_def skyeye_archs_def first_param_def strncmp_eq_def MAX_PARAM_NAME_def
        counted_def config_zero_def Let_def)
  have z: "do_num config_zero (str ''cpu'') = 0" "p_arm_cpu ((counted ''cpu'' config_zero)\<lparr>cf_arch := Some (str ''arm'')\<rparr>) = None"
    by (simp_all add: config_zero_def counted_def)
  have "skyeye_read_config ?dev (Some (config_line (str ''cpv'') [] @ r)) config_zero = Inr (-1, config_zero)" for r
    using option_errors [of "str ''cpv''" "[]" ?dev r config_zero] n p by (simp add: MAX_PARAMS_LEN_def)
  moreover have "skyeye_read_config ?dev (Some (config_line (str ''cpu'') [str ''arm920t''] @ r)) config_zero
      = skyeye_read_config ?dev (Some r) ((counted ''cpu'' config_zero)\<lparr>cf_arch := Some (str ''arm'')\<rparr>)" for r
    using option_errors [of "str ''cpu''" "[str ''arm920t'']" ?dev r config_zero] n p o z by (simp add: MAX_PARAMS_LEN_def)
  ultimately show ?thesis using z(2) by blast
qed

text \<open>A last line without a line end loses its last character.\<close>

lemma last_line_truncated:
  assumes "0x0a \<notin> set l" "0 \<notin> set l" "2 \<le> length l" "length l \<le> 1000" "parse_line_unformatted dev (butlast l) cf = Inr (ret, cf')" "0 \<le> ret"
  shows "read_lines dev l cf = Inr (0, cf')"
proof -
  have "length (takeWhile (\<lambda>c. c \<noteq> 0x0a) l) = length l" using assms(1) by (induction l) auto
  then have "fgets (MAX_STR - 1) l = (l, [])" using assms(4) by (simp add: fgets_def Let_def MAX_STR_def)
  moreover have "c_string l = l" using assms(2) by (auto simp: c_string_def takeWhile_eq_all_conv)
  moreover have "butlast l \<noteq> []" "l \<noteq> []" using assms(3) by (auto simp flip: length_0_conv)
  ultimately show ?thesis using assms(5,6) by (subst read_lines.simps) (simp add: read_lines.simps)
qed

end
