(* ===== verification/Loader.thy ===== *)
theory Loader
  imports Config
begin

text \<open>
  The start of the simulator in \<^verbatim>\<open>utils/main/skyeye.c\<close>, as it is built without the BFD library: the program file is written to the
  memory of the simulated machine through the access of the debugger, and its entry becomes the program counter. A file is an ELF
  image, or an image of the console's own operating system.
\<close>

unbundle bit_operations_syntax

section \<open>Numbers in files\<close>

text \<open>The file as it is mapped to memory: the last page is filled with zeros, and behind it is nothing.\<close>

definition mapped_file :: "ARMbyte list \<Rightarrow> ARMbyte list" where
  "mapped_file f = f @ replicate ((4096 - length f mod 4096) mod 4096) 0"

definition e2h16 :: "bool \<Rightarrow> 16 word \<Rightarrow> 16 word" where
  "e2h16 big x = (if \<not> big then x else push_bit 8 (x AND 0xff) OR drop_bit 8 x)"

definition e2h32 :: "bool \<Rightarrow> ARMword \<Rightarrow> ARMword" where
  "e2h32 big x =
     (if \<not> big then x
      else push_bit 24 (x AND 0xff) OR push_bit 16 (drop_bit 8 x AND 0xff) OR push_bit 8 (drop_bit 16 x AND 0xff) OR (drop_bit 24 x AND 0xff))"

text \<open>A field of a structure in the file, in the byte order of the host.\<close>

definition file_word :: "ARMbyte list \<Rightarrow> nat \<Rightarrow> ARMword" where
  "file_word f i = frommem (drop i f)"

definition half_at :: "ARMbyte list \<Rightarrow> nat \<Rightarrow> 16 word" where
  "half_at f i = ucast (f ! i) OR push_bit 8 (ucast (f ! (i + 1)))"

definition field32 :: "bool \<Rightarrow> ARMbyte list \<Rightarrow> nat \<Rightarrow> ARMword sim" where
  "field32 big f i = (if i + 4 \<le> length f then Inr (e2h32 big (file_word f i)) else Inl OutOfBounds)"

definition field16 :: "bool \<Rightarrow> ARMbyte list \<Rightarrow> nat \<Rightarrow> (16 word) sim" where
  "field16 big f i = (if i + 2 \<le> length f then Inr (e2h16 big (half_at f i)) else Inl OutOfBounds)"

section \<open>Writing to the simulated memory\<close>

text \<open>\<open>load\<close> is \<^verbatim>\<open>load_addr\<close> and \<^verbatim>\<open>load_addr_mask\<close>.\<close>

definition tea_write :: "'io cpu_env \<Rightarrow> ARMword \<times> ARMword \<Rightarrow> ARMword \<Rightarrow> ARMbyte list \<Rightarrow> 'io ARMul_State \<Rightarrow> 'io ARMul_State sim" where
  "tea_write env = (\<lambda>(load_addr, load_addr_mask) addr bs s.
     bind_ok (ice_write_bytes env s ((addr AND load_addr_mask) OR load_addr) bs) (\<lambda>(ok, s). if ok then Inr s else Inl SkyeyeExit))"

definition tea_set :: "'io cpu_env \<Rightarrow> ARMword \<Rightarrow> ARMbyte \<Rightarrow> ARMword \<Rightarrow> 'io ARMul_State \<Rightarrow> 'io ARMul_State sim" where
  "tea_set env addr v n s =
     bind_ok (ice_write_bytes env s addr (replicate (nat (sint n)) v)) (\<lambda>(ok, s). if ok then Inr s else Inl SkyeyeExit)"

definition file_bytes :: "ARMbyte list \<Rightarrow> nat \<Rightarrow> ARMword \<Rightarrow> ARMbyte list sim" where
  "file_bytes f i n = (if i + nat (sint n) \<le> length f then Inr (take (nat (sint n)) (drop i f)) else Inl OutOfBounds)"

section \<open>The program file\<close>

text \<open>0 for a file that looks like a 32-bit ELF image of a known processor, and the number of the test that fails.\<close>

definition elf32_checkFile :: "bool \<Rightarrow> ARMbyte list \<Rightarrow> int sim" where
  "elf32_checkFile big f =
     (if take 4 f \<noteq> [0x7f, of_char CHR ''E'', of_char CHR ''L'', of_char CHR ''F''] then Inr (-1)
      else if f ! 4 \<noteq> 1 then Inr (-2)
      else bind_ok (field16 big f 18) (\<lambda>m. Inr (if m \<in> {40, 106, 52, 8, 20} then 0 else -3)))"

definition load_segment ::
  "'io cpu_env \<Rightarrow> ARMword \<times> ARMword \<Rightarrow> bool \<Rightarrow> ARMbyte list \<Rightarrow> nat \<Rightarrow> 'io ARMul_State \<Rightarrow> 'io ARMul_State sim" where
  "load_segment env load big f p s =
     bind_ok (field32 big f (p + 16)) (\<lambda>filesz.
     bind_ok (field32 big f (p + 20)) (\<lambda>memsz.
     bind_ok (field32 big f (p + 8)) (\<lambda>dest.
     bind_ok (field32 big f (p + 4)) (\<lambda>offset.
     bind_ok (field32 big f p) (\<lambda>p_type.
       if p_type = 1
       then bind_ok (file_bytes f (unat offset) filesz) (\<lambda>bs.
            bind_ok (tea_write env load dest bs s) (\<lambda>s.
              tea_set env (dest + filesz) 0 (memsz - filesz) s))
       else Inr s)))))"

fun load_segments ::
  "'io cpu_env \<Rightarrow> ARMword \<times> ARMword \<Rightarrow> bool \<Rightarrow> ARMbyte list \<Rightarrow> nat list \<Rightarrow> 'io ARMul_State \<Rightarrow> 'io ARMul_State sim" where
  "load_segments env load big f [] s = Inr s"
| "load_segments env load big f (p # ps) s = bind_ok (load_segment env load big f p s) (load_segments env load big f ps)"

definition set_start :: "ARMword \<Rightarrow> config \<Rightarrow> config" where
  "set_start a cf = (if start_address cf = 0 then cf\<lparr>start_address := a\<rparr> else cf)"

definition load_elf ::
  "'io cpu_env \<Rightarrow> ARMword \<times> ARMword \<Rightarrow> bool \<Rightarrow> ARMbyte list \<Rightarrow> config \<times> 'io ARMul_State \<Rightarrow> (int \<times> config \<times> 'io ARMul_State) sim" where
  "load_elf env load big f = (\<lambda>(cf, s).
     bind_ok (elf32_checkFile big f) (\<lambda>r.
       if r \<noteq> 0 then Inr (-1, cf, s)
       else bind_ok (field32 big f 28) (\<lambda>phoff.
            bind_ok (field16 big f 44) (\<lambda>phnum.
            bind_ok (load_segments env load big f (map (\<lambda>i. unat phoff + 32 * i) [0..<unat phnum]) s) (\<lambda>s.
            bind_ok (field32 big f 24) (\<lambda>entry. Inr (0, set_start entry cf, s)))))))"

text \<open>
  The answer, \<^verbatim>\<open>big_endian\<close>, the configuration and the processor. No file is one that cannot be opened, and an empty file cannot be
  mapped.
\<close>

definition tea_load_exec ::
  "'io cpu_env \<Rightarrow> ARMword \<times> ARMword \<Rightarrow> ARMbyte list option \<Rightarrow> bool \<Rightarrow> bool \<times> config \<times> 'io ARMul_State
     \<Rightarrow> (int \<times> bool \<times> config \<times> 'io ARMul_State) sim" where
  "tea_load_exec env load content only_check_big_endian = (\<lambda>(big, cf, s).
     case content of
       None \<Rightarrow> Inr (-1, big, cf, s)
     | Some file \<Rightarrow>
         if file = [] then Inr (-1, big, cf, s)
         else let f = mapped_file file
              in bind_ok (field32 True f 0) (\<lambda>entry.
                 bind_ok (field32 True f 12) (\<lambda>reserved.
                   if entry \<le> 0x20 \<and> reserved = 0
                   then if only_check_big_endian then Inr (-1, True, cf, s)
                        else bind_ok (file_bytes f 0 (of_nat (length file))) (\<lambda>bs.
                             bind_ok (tea_write env load 0x10100000 bs s) (\<lambda>s.
                               Inr (0, True, set_start (entry + 0x10100000) cf, s)))
                   else let big = (f ! 5 = 2)
                        in if only_check_big_endian then Inr (-1, big, cf, s)
                           else bind_ok (load_elf env load big f (cf, s)) (\<lambda>(r, cf, s). Inr (r, big, cf, s)))))"

section \<open>Running\<close>

definition arm_set_pc :: "ARMword \<Rightarrow> 'io ARMul_State \<Rightarrow> 'io ARMul_State" where
  "arm_set_pc pc s = set_reg 15 pc s"

text \<open>The part of \<^verbatim>\<open>main\<close> after the program is loaded.\<close>

definition start_program :: "ARMword \<times> ARMword \<Rightarrow> config \<Rightarrow> 'io ARMul_State \<Rightarrow> 'io ARMul_State" where
  "start_program = (\<lambda>(load_addr, load_addr_mask) cf s.
     if start_address cf \<noteq> 0 then arm_set_pc ((start_address cf AND load_addr_mask) OR load_addr) s else s)"

text \<open>\<^verbatim>\<open>sim_resume\<close> as \<^verbatim>\<open>main\<close> calls it, without a single step.\<close>

definition sim_resume :: "'io emu_env \<Rightarrow> int \<Rightarrow> 'io ARMul_State \<Rightarrow> (int \<times> 'io ARMul_State) sim option" where
  "sim_resume e pre s =
     (case ARMul_DoProg e pre (s\<lparr>NextInstr := RESUME\<rparr>) of
        None \<Rightarrow> None
      | Some (Inl x) \<Rightarrow> Some (Inl x)
      | Some (Inr (pc, pre, s)) \<Rightarrow> Some (Inr (pre, FLUSHPIPE (set_reg 15 pc s))))"

section \<open>What a file describes\<close>

definition w32 :: "bool \<Rightarrow> ARMbyte list \<Rightarrow> nat \<Rightarrow> ARMword" where
  "w32 big f i = e2h32 big (file_word f i)"

definition headers :: "bool \<Rightarrow> ARMbyte list \<Rightarrow> nat list" where
  "headers big f = map (\<lambda>i. unat (w32 big f 28) + 32 * i) [0..<unat (e2h16 big (half_at f 44))]"

text \<open>The bytes of a segment at their addresses: those of the file, then zeros.\<close>

definition segment_image :: "bool \<Rightarrow> ARMbyte list \<Rightarrow> nat \<Rightarrow> (ARMword \<times> ARMbyte) list" where
  "segment_image big f p =
     (let offset = unat (w32 big f (p + 4)); filesz = unat (w32 big f (p + 16)); memsz = unat (w32 big f (p + 20))
      in if w32 big f p = 1
         then zip (addresses (w32 big f (p + 8)) memsz) (take filesz (drop offset f) @ replicate (memsz - filesz) 0) else [])"

definition elf_image :: "bool \<Rightarrow> ARMbyte list \<Rightarrow> (ARMword \<times> ARMbyte) list" where
  "elf_image big f = concat (map (segment_image big f) (headers big f))"

definition segment_ok :: "bool \<Rightarrow> ARMbyte list \<Rightarrow> nat \<Rightarrow> bool" where
  "segment_ok big f p \<longleftrightarrow> p + 32 \<le> length f \<and>
     (w32 big f p = 1 \<longrightarrow> unat (w32 big f (p + 4)) + unat (w32 big f (p + 16)) \<le> length f \<and>
        unat (w32 big f (p + 16)) \<le> unat (w32 big f (p + 20)) \<and> unat (w32 big f (p + 20)) < 2 ^ 31)"

definition elf_ok :: "bool \<Rightarrow> ARMbyte list \<Rightarrow> bool" where
  "elf_ok big f \<longleftrightarrow> elf32_checkFile big f = Inr 0 \<and> list_all (segment_ok big f) (headers big f)"

section \<open>Loading\<close>

lemma ice_write_append:
  "store.write_list (ice_write (with_arm926 c env)) s (xs @ ys) =
     bind_ok (store.write_list (ice_write (with_arm926 c env)) s xs) (\<lambda>t. store.write_list (ice_write (with_arm926 c env)) t ys)"
proof (induction xs arbitrary: s)
  case (Cons p xs)
  then show ?case by (cases p) (simp add: bind_ok_assoc)
qed simp

lemma addresses_append: "addresses a (m + n) = addresses a m @ addresses (a + of_nat m) n"
  by (induction m arbitrary: a) (simp_all add: algebra_simps)

lemma sint_unat: "unat (w :: ARMword) < 2 ^ 31 \<Longrightarrow> nat (sint w) = unat w"
  using sint_small [of "unat w"] by simp

lemma field32_ok: "i + 4 \<le> length f \<Longrightarrow> field32 big f i = Inr (w32 big f i)"
  by (simp add: field32_def w32_def)

lemma load_segment_image:
  assumes "segment_ok big f p" "store.write_list (ice_write (with_arm926 c env)) s (segment_image big f p) = Inr t"
  shows "load_segment (with_arm926 c env) (0, -1) big f p s = Inr t"
proof -
  let ?w = "store.write_list (ice_write (with_arm926 c env))"
  let ?off = "w32 big f (p + 4)" and ?d = "w32 big f (p + 8)" and ?fs = "w32 big f (p + 16)" and ?ms = "w32 big f (p + 20)"
  have l: "p + 32 \<le> length f" using assms(1) by (simp add: segment_ok_def)
  then have fld: "field32 big f (p + 16) = Inr ?fs" "field32 big f (p + 20) = Inr ?ms" "field32 big f (p + 8) = Inr ?d"
    "field32 big f (p + 4) = Inr ?off" "field32 big f p = Inr (w32 big f p)"
    by (simp_all add: field32_ok)
  show ?thesis
  proof (cases "w32 big f p = 1")
    case True
    then have b: "unat ?off + unat ?fs \<le> length f" "unat ?fs \<le> unat ?ms" "unat ?ms < 2 ^ 31"
      using assms(1) by (auto simp: segment_ok_def)
    let ?bs = "take (unat ?fs) (drop (unat ?off) f)" and ?zs = "replicate (unat ?ms - unat ?fs) (0 :: ARMbyte)"
    have n: "length ?bs = unat ?fs" "nat (sint ?fs) = unat ?fs" using b sint_unat [of ?fs] by simp_all
    have "unat (?ms - ?fs) = unat ?ms - unat ?fs" using b(2) by (simp add: unat_sub word_le_nat_alt)
    then have z: "nat (sint (?ms - ?fs)) = unat ?ms - unat ?fs" using b sint_unat [of "?ms - ?fs"] by simp
    have "addresses ?d (unat ?ms) = addresses ?d (unat ?fs) @ addresses (?d + ?fs) (unat ?ms - unat ?fs)"
      using addresses_append [of ?d "unat ?fs" "unat ?ms - unat ?fs"] b(2) by simp
    then have "segment_image big f p = zip (addresses ?d (length ?bs)) ?bs @ zip (addresses (?d + ?fs) (length ?zs)) ?zs"
      using True n(1) by (simp add: segment_image_def Let_def)
    then have "bind_ok (?w s (zip (addresses ?d (length ?bs)) ?bs)) (\<lambda>u. ?w u (zip (addresses (?d + ?fs) (length ?zs)) ?zs)) = Inr t"
      using assms(2) unfolding ice_write_append [symmetric] by simp
    then obtain u where "?w s (zip (addresses ?d (length ?bs)) ?bs) = Inr u" "?w u (zip (addresses (?d + ?fs) (length ?zs)) ?zs) = Inr t"
      by (auto simp: bind_ok_Inr_iff)
    from this [THEN write_bytes_list] show ?thesis
      using True fld n b z by (simp add: load_segment_def file_bytes_def tea_write_def tea_set_def)
  qed (use assms(2) fld in \<open>simp add: load_segment_def segment_image_def\<close>)
qed

lemma load_segments_image:
  "list_all (segment_ok big f) ps \<Longrightarrow> store.write_list (ice_write (with_arm926 c env)) s (concat (map (segment_image big f) ps)) = Inr t \<Longrightarrow>
    load_segments (with_arm926 c env) (0, -1) big f ps s = Inr t"
proof (induction ps arbitrary: s)
  case (Cons p ps)
  then show ?case using load_segment_image [of big f p c env s] by (auto simp: ice_write_append bind_ok_Inr_iff)
qed simp

lemma length_mapped_file: "f \<noteq> [] \<Longrightarrow> 4096 \<le> length (mapped_file f)"
proof -
  assume "f \<noteq> []"
  then have n: "0 < length f" by simp
  show ?thesis
  proof (cases "length f mod 4096 = 0")
    case True
    then have "4096 dvd length f" by presburger
    from dvd_imp_le [OF this n] show ?thesis by (simp add: mapped_file_def)
  next
    case False
    then have "(4096 - length f mod 4096) mod 4096 = 4096 - length f mod 4096" by simp
    moreover have "length f mod 4096 \<le> length f" by simp
    ultimately show ?thesis by (simp add: mapped_file_def)
  qed
qed

lemma elf_magic:
  assumes "elf32_checkFile big f = Inr 0"
  shows "e2h32 True (file_word f 0) = 0x7f454c46"
proof -
  have m: "take 4 f = [0x7f, 0x45, 0x4c, 0x46]" using assms by (auto simp: elf32_checkFile_def split: if_splits)
  then have "f = [0x7f, 0x45, 0x4c, 0x46] @ drop 4 f" by (metis append_take_drop_id)
  then obtain r where "f = 0x7f # 0x45 # 0x4c # 0x46 # r" by simp
  then show ?thesis by (simp add: file_word_def frommem_def e2h32_def endian_flag_def)
qed

text \<open>
  C25: a program file ends up in memory as it describes. For an ELF image whose headers and segments lie within the file and whose
  segments do not overlap, on RAM, loading answers 0; then every byte of a segment is at its address, zeros fill what the file does
  not hold, all other bytes of RAM are as before, and the program starts at the entry of the file unless the configuration says
  otherwise.
\<close>

theorem program_loaded:
  assumes "f = mapped_file file" "big = (f ! 5 = 2)" "elf_ok big f" "distinct (map fst (elf_image big f))" "\<forall>p\<in>set (elf_image big f). ice_ok env s (fst p)"
  shows "\<exists>t. tea_load_exec (with_arm926 c env) (0, -1) (Some file) False (b, cf, s) = Inr (0, big, set_start (w32 big f 24) cf, t) \<and>
    (\<forall>p\<in>set (elf_image big f). ice_byte t (fst p) = snd p) \<and>
    (\<forall>a. ice_ok env s a \<longrightarrow> a \<notin> fst ` set (elf_image big f) \<longrightarrow> ice_byte t a = ice_byte s a) \<and>
    (start_address cf = 0 \<longrightarrow> w32 big f 24 \<noteq> 0 \<longrightarrow> Reg (start_program (0, -1) (set_start (w32 big f 24) cf) t) 15 = w32 big f 24)"
proof -
  have ok: "elf32_checkFile big f = Inr 0" "list_all (segment_ok big f) (headers big f)" using assms(3) by (auto simp: elf_ok_def)
  have "file \<noteq> []" using ok(1) assms(1) by (auto simp: mapped_file_def elf32_checkFile_def split: if_splits)
  then have l: "4096 \<le> length f" using length_mapped_file assms(1) by simp
  have "sorted_wrt (\<lambda>p q. \<not> fst p = fst q) (elf_image big f)" using assms(4) by (rule distinct_cells)
  then obtain t where t: "store.write_list (ice_write (with_arm926 c env)) s (elf_image big f) = Inr t"
      "\<forall>p\<in>set (elf_image big f). ice_byte t (fst p) = snd p"
      "\<forall>a. ice_ok env s a \<longrightarrow> (\<forall>p\<in>set (elf_image big f). \<not> fst p = a) \<longrightarrow> ice_byte t a = ice_byte s a"
    using ice_store.write_list_values [OF assms(5)] by blast
  have "load_segments (with_arm926 c env) (0, -1) big f (headers big f) s = Inr t"
    using load_segments_image [OF ok(2)] t(1) by (simp add: elf_image_def)
  then have "load_elf (with_arm926 c env) (0, -1) big f (cf, s) = Inr (0, set_start (w32 big f 24) cf, t)"
    using ok(1) l by (simp add: load_elf_def field32_ok field16_def headers_def)
  moreover have "field32 True f 0 = Inr 0x7f454c46" "\<exists>r. field32 True f 12 = Inr r"
    using l elf_magic [OF ok(1)] by (simp_all add: field32_def)
  ultimately have "tea_load_exec (with_arm926 c env) (0, -1) (Some file) False (b, cf, s) = Inr (0, big, set_start (w32 big f 24) cf, t)"
    using \<open>file \<noteq> []\<close> assms(1,2) by (auto simp: tea_load_exec_def Let_def)
  then show ?thesis using t(2,3) by (auto simp: start_program_def set_start_def arm_set_pc_def set_reg_def)
qed

text \<open>An image with one segment of four bytes that takes six bytes at \<open>0x8000\<close>.\<close>

definition demo_elf :: "ARMbyte list" where
  "demo_elf =
     [0x7f, 0x45, 0x4c, 0x46, 1, 2, 1, 0, 0, 0, 0, 0, 0, 0, 0, 0, 0, 2, 0, 40, 0, 0, 0, 1, 0, 0, 0x80, 0, 0, 0, 0, 52,
      0, 0, 0, 0, 0, 0, 0, 0, 0, 52, 0, 32, 0, 1, 0, 0, 0, 0, 0, 0,
      0, 0, 0, 1, 0, 0, 0, 84, 0, 0, 0x80, 0, 0, 0, 0, 0, 0, 0, 0, 4, 0, 0, 0, 6, 0, 0, 0, 7, 0, 0, 0, 4, 0xe3, 0xa0, 0, 1]"

lemma demo_elf_parts:
  assumes "f = demo_elf @ z"
  shows "headers True f = [52]" "w32 True f 24 = 0x8000" "f ! 5 = 2" "elf_ok True f"
    "elf_image True f = [(0x8000, 0xe3), (0x8001, 0xa0), (0x8002, 0), (0x8003, 1), (0x8004, 0), (0x8005, 0)]"
proof -
  note d = w32_def file_word_def half_at_def e2h32_def e2h16_def frommem_def endian_flag_def demo_elf_def assms
  show h: "headers True f = [52]" by (simp add: headers_def d)
  show "w32 True f 24 = 0x8000" "f ! 5 = 2" by (simp_all add: d)
  have w: "w32 True f 52 = 1" "w32 True f 56 = 84" "w32 True f 60 = 0x8000" "w32 True f 68 = 4" "w32 True f 72 = 6"
    by (simp_all add: d)
  show "elf_ok True f"
    by (simp add: elf_ok_def h segment_ok_def w) (simp add: elf32_checkFile_def field16_def d)
  have "take 4 (drop 84 f) = [0xe3, 0xa0, 0, 1]" "unat (4 :: ARMword) = 4" "unat (6 :: ARMword) = 6" "unat (84 :: ARMword) = 84"
    by (simp_all add: demo_elf_def assms)
  moreover have "replicate (6 - 4) (0 :: ARMbyte) = [0, 0]" by (simp add: numeral_2_eq_2)
  moreover have "addresses 0x8000 6 = [0x8000, 0x8001, 0x8002, 0x8003, 0x8004, 0x8005]" by (simp add: addresses_def upt_rec)
  moreover have "52 + 4 = (56 :: nat)" "52 + 8 = (60 :: nat)" "52 + 16 = (68 :: nat)" "52 + 20 = (72 :: nat)" by simp_all
  ultimately show "elf_image True f = [(0x8000, 0xe3), (0x8001, 0xa0), (0x8002, 0), (0x8003, 1), (0x8004, 0), (0x8005, 0)]"
    unfolding elf_image_def h segment_image_def Let_def list.map concat.simps by (simp only: w) simp
qed

theorem program_loaded_witness:
  "\<exists>t. tea_load_exec (with_arm926 demo_env bare_env) (0, -1) (Some demo_elf) False (False, config_zero, demo_state) =
      Inr (0, True, set_start 0x8000 config_zero, t) \<and> ice_byte t 0x8000 = 0xe3 \<and> ice_byte t 0x8005 = 0 \<and>
    Reg (start_program (0, -1) (set_start 0x8000 config_zero) t) 15 = 0x8000"
proof -
  obtain z where z: "mapped_file demo_elf = demo_elf @ z" by (simp add: mapped_file_def)
  note e = demo_elf_parts [OF z]
  have a: "addresses 0x8000 6 = [0x8000, 0x8001, 0x8002, 0x8003, 0x8004, 0x8005]" by (simp add: addresses_def upt_rec)
  have "\<forall>p\<in>set (elf_image True (mapped_file demo_elf)). ice_ok bare_env demo_state (fst p)"
    using demo_ice_ok [of 6] by (simp add: e(5) a)
  moreover have "distinct (map fst (elf_image True (mapped_file demo_elf)))" by (simp add: e(5))
  ultimately show ?thesis
    using program_loaded [OF refl _ e(4), of bare_env demo_state demo_env False config_zero] e(2,3,5) by (auto simp: config_zero_def)
qed

end
