(* ===== verification/Spec2Isabelle.thy ===== *)
theory Spec2Isabelle
  imports Starlet_Run Loader
begin

text \<open>
  \<^bold>\<open>The SkyEye ARM simulator for the Starlet: a verification development.\<close>

  The program simulates an ARM926EJ-S processor, the I/O processor of a game console, with its memory
  management unit, caches and coprocessors, and the devices around it. This development models the processor core as it
  is compiled for a 32-bit ARM without binary translation (\<^verbatim>\<open>armemu.c\<close> with \<^verbatim>\<open>MODE32\<close> and \<^verbatim>\<open>MODET\<close>, the other files
  without \<^verbatim>\<open>MODE32\<close>), the machine, \<^verbatim>\<open>../mach/skyeye_mach_starlet.c\<close>, the server for a remote debugger,
  \<^verbatim>\<open>utils/debugger\<close>, and the configuration file and program loader in \<^verbatim>\<open>utils/config\<close> and \<^verbatim>\<open>utils/main\<close>, function by function, and proves the properties that make it a faithful ARM. Paths without
  \<^verbatim>\<open>utils\<close> below are relative to \<^verbatim>\<open>src/arch/arm/common\<close>.

  \<^bold>\<open>How the parts fit together.\<close> \<^verbatim>\<open>ARMul_Emulate32\<close> fetches through the MMU, takes interrupts, lets the machine run
  a cycle, decodes Thumb, tests the condition and switches over the opcode. The cases read operands through the
  barrel shifter, set flags and registers, or call workers that load and store through \<^verbatim>\<open>armvirt.c\<close>, which calls
  the operations of the MMU, which translates through the TLB and the tables in memory, and reads and writes
  through cache, write buffer and \<^verbatim>\<open>armmem.c\<close>. An access that faults raises a signal that the workers turn into an
  exception entry. Coprocessor instructions go to a table of handlers, of which number 15 is the MMU itself. Accesses
  to I/O banks go to the machine, which dispatches them by address to its devices; these change their registers,
  request interrupts, and copy to and from simulated memory. Once in 51 instructions the loop lets the machine run
  a cycle, in which the timer counts and the mailbox is served. With the debugger on, the loop compares every fetched
  instruction with the breakpoints and tracepoints and looks at the connection once in 2000 instructions; between runs the
  server answers packets that read and write registers and memory, set breakpoints and tracepoints, and run the loop. At the start
  the configuration file gives the memory banks, the program file is written into them, and its entry becomes the program counter.

  \<^bold>\<open>State.\<close> \<open>ARMul_State\<close> is the C structure of that name as a record, \<open>mmu\<close> and \<open>mem\<close> inside it the MMU and the
  memory of \<^verbatim>\<open>armmem.c\<close>, \<open>mach_io\<close> the state of the machine behind the processor, of any type. 32-bit fields are
  \<open>32 word\<close>, so that arithmetic wraps as in C. A function that can end the simulator, index out of bounds,
  dereference a null pointer or read an uninitialised variable returns a \<open>sim\<close>, an error or a result. Function
  pointers are the records \<open>arm_env\<close>, \<open>mmu_ops_t\<close>, \<open>cpu_env\<close> and \<open>emu_env\<close>, which are passed beside the state. For the
  Starlet \<open>mach_io\<close> is \<open>starlet_t\<close>, all the variables of its source file. Code outside the repository is a parameter: the
  cipher of OpenSSL, the plug-in devices, the files of the host (\<open>host_files\<close>) and the answers of its system calls
  (\<open>host_net\<close>). The debugger's state is \<open>SkyEye_ICE\<close>, \<open>debugger\<close> and \<open>session\<close>; the connection \<open>conn\<close> gives the pieces in which the
  bytes of the peer arrive, and \<open>dbg_env\<close> says when \<^verbatim>\<open>select\<close> finds input (\<open>ready\<close>), which writes succeed (\<open>tx_ok\<close>) and what
  fresh memory holds (\<open>heap\<close>).

  \<^bold>\<open>The theories, in the order in which they build on each other.\<close>
  \<^item> \<open>Prelude\<close>: results, bit fields, words as integers.
  \<^item> \<open>Arm_State\<close>: constants, records and datatypes of the headers.
  \<^item> \<open>Arm_Supp\<close>: \<^verbatim>\<open>armsupp.c\<close> and \<^verbatim>\<open>arminit.c\<close>: register banks, status registers, flags, exception entry, reset,
    events. The bank switch keeps every architectural register, exception entry is the architecture's table, user
    mode cannot raise its rights, and events can fire early.
  \<^item> \<open>Arm_Io\<close> and \<open>Arm_Mem\<close>: \<^verbatim>\<open>armio.c\<close> and \<^verbatim>\<open>armmem.c\<close>: banks and their cached pointer, RAM, I/O and alias banks. Reads
    return what was written; the cached search is the plain search; images load; self-aliases do not return.
  \<^item> \<open>Mmu_Tlb\<close>, \<open>Mmu_Wb\<close>, \<open>Mmu_Cache\<close>, \<open>Arm926_Mmu\<close>: \<^verbatim>\<open>mmu/tlb.c\<close>, \<^verbatim>\<open>mmu/wb.c\<close>, \<^verbatim>\<open>mmu/cache.c\<close> and \<^verbatim>\<open>mmu/arm926ejs_mmu.c\<close>. The
    TLB refines the tables in memory, the write buffer writes in program order, cache lines survive write-back and
    refill, an access without permission faults and changes nothing, and a granted word is read back.
  \<^item> \<open>Arm_Virt\<close>: \<^verbatim>\<open>armvirt.c\<close>. The locale \<open>address_space\<close> states what a client may assume of an MMU; it is interpreted
    on the ARM926.
  \<^item> \<open>Arm_Operand\<close>: operands, shifter and writes to the PC. The shifter equals shifting bit by bit; an exception
    return undoes an entry.
  \<^item> \<open>Arm_Transfer\<close>: the load and store workers, proved in \<open>address_space\<close>: a block of words that is stored is loaded again.
  \<^item> \<open>Arm_Mul\<close>, \<open>Arm_Dp\<close>: multiplication and the data processing cases of the switch. Products, sums, differences and
    their flags, those of the comparisons too, are the exact integer ones, comparisons give the order relations, saturation
    clamps, the loop of \<^verbatim>\<open>CLZ\<close> ends.
  \<^item> \<open>Arm_Ls\<close>: the load and store cases. The 64 single and 32 multiple transfers are two addressing schemes; on each of the four
    kinds of stack, what a push stores its pop restores, with the stack pointer.
  \<^item> \<open>Arm_Copro\<close>: coprocessor instructions and \<^verbatim>\<open>armcopro.c\<close>. Every wait ends.
  \<^item> \<open>Thumb\<close>: \<^verbatim>\<open>thumbemu.c\<close>. Every halfword that is not a branch becomes the ARM instruction of the manual (\<open>thumb_arm\<close> is its table,
    \<open>encodes\<close> the encodings of ARM instructions), undefined ones are reported, long branches reach their target.
  \<^item> \<open>Arm_Emulate\<close>: the switch, the pipeline and the loop. Branches are followed by the pipeline, interrupts come before
    instructions, single steps return.
  \<^item> \<open>Sha1\<close>: \<^verbatim>\<open>../mach/sha1.c\<close>, the hash of the machine. Any cut of a message into pieces gives the digest of the standard.
  \<^item> \<open>Starlet_State\<close>, \<open>Starlet_Gpio\<close>, \<open>Starlet_Io\<close>: state, copies to and from memory, interrupts; GPIO port with serial
    EEPROM and one-time programmable memory; disc interface, mailbox, EXI bus, Hollywood registers, static RAM. The
    mailbox shows each side what the other requests; the static RAM, with its mirror and boot ROM, is an instance of
    the locale \<open>store\<close> of \<open>Arm_Mem\<close>.
  \<^item> \<open>Starlet_Seeprom\<close>: the EEPROM refines the machine of the data sheet, which executes one command per transaction, for reads, writes and the
    commands of the write-enable flag; erasing and writing all words depart from it, in the way \<open>ee_performed\<close> says.
  \<^item> \<open>Starlet_Engine\<close>: AES and SHA-1 on memory. The SHA engine computes the state of \<open>Sha1\<close> for the words in memory;
    decryption may be split, encryption may not.
  \<^item> \<open>Starlet_Sdhc\<close>: the SD host controller. Reading blocks copies the card image.
  \<^item> \<open>Starlet_Ipc\<close>: the socket protocol and its state machine, and the cycle of the machine. Messages survive any
    fragmentation, requests are sent on once, the alarm is on time.
  \<^item> \<open>Starlet\<close>: address map, reset and start, the machine on the bus. The reset starts the boot ROM; a transfer into
    the registers of its own device may not return.
  \<^item> \<open>Starlet_Run\<close>: the emulator with the machine. The locale \<open>program\<close> states what a piece of code does in every turn of the
    loop; it is interpreted on a waiting loop, which the timer interrupts after exactly the turns its alarm needs.
  \<^item> \<open>Gdb_Packet\<close>: the packets of \<^verbatim>\<open>utils/debugger/gdbserver.c\<close>. A packet arrives behind any damaged ones, however it is cut.
  \<^item> \<open>Gdb_Ice\<close>: registers and memory as bytes (\<^verbatim>\<open>arm_regdefs.c\<close>, \<^verbatim>\<open>skyeye2gdb.c\<close>), breakpoints, and tracepoints
    (\<^verbatim>\<open>gdb_tracepoint.c\<close>). The breakpoints are an instance of the locale \<open>bounded_set\<close>, and the hook in the loop stops at exactly
    these, with tracing on or off; frames hold the registers of the
    passes of their tracepoint.
  \<^item> \<open>Gdb_Loop\<close>: the emulation loop with its hooks for the debugger, continuing and stepping. A debugger that asks for
    nothing changes nothing; the addresses beside the pipeline stay in step with it over any run (\<open>turns\<close>, \<open>in_step\<close>), so that a breakpoint stops
    before its instruction; a step can lose an interrupt, and an interrupted
    program repeats an instruction.
  \<^item> \<open>Gdb_Server\<close>: the commands and the loop of \<^verbatim>\<open>sim_debug\<close>. The debugger's accesses to RAM are an instance of \<open>store\<close>, so that
    what a packet writes another reads back; long reads overrun a buffer; registers that are written back are swapped.
  \<^item> \<open>Config\<close>: \<^verbatim>\<open>utils/config/skyeye_config.c\<close>, \<^verbatim>\<open>skyeye_options.c\<close> and the options of \<^verbatim>\<open>arm_arch_interface.c\<close>. The banks that a file
    describes are the banks of \<open>Arm_Mem\<close>, and RAM among them reads back what is written; unknown options end the reading,
    options that fail do not.
  \<^item> \<open>Loader\<close>: the program file and the start in \<^verbatim>\<open>utils/main/skyeye.c\<close>. An ELF image is in memory after it is loaded.

  \<^bold>\<open>Loops.\<close> Loops over registers, lines and bytes are structural recursions. The loops that may run for ever are
  \<open>partial_function (option)\<close>: the main loop and the program loop, both also with the debugger, the loop of the server,
  and the count of leading zeros. Access
  through aliases takes the depth of the call stack as fuel, and the busy-waiting loops take \<open>busy_limit\<close>: for
  the coprocessors of the simulator the value of the register that the instruction names is enough, as proved.
  \<open>starlet_env\<close> takes the depth to which the handlers of the machine may call each other, by way of transfers into
  registers; transfers to RAM need none. The loops that send and receive end because every call that does not fail
  moves a byte, and those that receive and acknowledge packets because every turn takes a byte from the connection.

  \<^bold>\<open>Not modelled.\<close> Tracing, logging and the energy estimate, which are off unless asked for; of the debugger, opening the
  socket and opening it again after a connection has ended; the options of the configuration file that set up devices and the log
  file, which are a parameter (\<open>dev\<close>), and the command line; the simulated operating system calls of \<^verbatim>\<open>armos.c\<close> beyond the
  breakpoint, which the Starlet does not use; the 26-bit interpreter, the same source compiled differently, with its
  hook for the debugger, which is a parameter; the other MMUs and processors
  (XScale, StrongARM, ARM7 and others), the binary translator, which generates host code; the other
  architectures of SkyEye, which share no code with this one; the other devices, which do I/O on the host. Of the
  Starlet, the trap for undefined instructions, which only prints what the simulated operating system is asked for, the
  patches that are never applied, and hex dumps.
\<close>

end
